(* ===== verification/AF_Prelude.thy ===== *)
theory AF_Prelude
  imports Complex_Main "HOL-Library.AList" "HOL-Library.Sublist"
    "HOL-Library.Char_ord" "HOL-Library.List_Lexorder"
begin

text \<open>
  What every component of the development shares: the Python types the sources use, the string
  functions of the standard library they call, dictionaries with Python's insertion order, and
  the contract of a state machine, of which each stateful component gives an interpretation.

  Conventions. A Python \<open>float\<close> is a rational (\<open>rat\<close>): arithmetic is exact, and the rounding of
  IEEE doubles is outside the model. A Python \<open>int\<close> is \<open>int\<close> or, where the code only counts,
  \<open>nat\<close>. A \<open>str\<close> is a list of characters, which are those of code points up to 255. A \<open>dict\<close> is
  an association list with distinct keys in insertion order: \<open>map_of\<close> reads it, \<open>AList.update\<close>
  writes a key where it stands or at the end, and \<open>AList.delete\<close> is \<open>pop(key, None)\<close>.
\<close>

type_synonym time = rat
type_synonym ('k, 'v) dict = "('k \<times> 'v) list"

named_theorems py_simps \<open>unfolding rules of the Python library functions\<close>
named_theorems step_intros \<open>one fact per operation that keeps a component's invariant\<close>

subsection \<open>Errors as values\<close>

text \<open>A computation that may raise is a sum, with the exception on the left.\<close>

definition bind_sum :: "'e + 'a \<Rightarrow> ('a \<Rightarrow> 'e + 'b) \<Rightarrow> 'e + 'b" where
  "bind_sum m f = (case m of Inl e \<Rightarrow> Inl e | Inr x \<Rightarrow> f x)"

lemma bind_sum_simps [simp]:
  "bind_sum (Inl e) f = Inl e"
  "bind_sum (Inr x) f = f x"
  by (simp_all add: bind_sum_def)

lemma bind_sum_eq_Inr [simp]:
  "bind_sum m f = Inr y \<longleftrightarrow> (\<exists>x. m = Inr x \<and> f x = Inr y)"
  by (cases m) auto

lemma bind_sum_eq_Inl:
  "bind_sum m f = Inl e \<longleftrightarrow> m = Inl e \<or> (\<exists>x. m = Inr x \<and> f x = Inl e)"
  by (cases m) auto

subsection \<open>Characters and strings\<close>

definition is_digit :: "char \<Rightarrow> bool" where
  [py_simps]: "is_digit c \<longleftrightarrow> CHR ''0'' \<le> c \<and> c \<le> CHR ''9''"

definition is_lower_letter :: "char \<Rightarrow> bool" where
  [py_simps]: "is_lower_letter c \<longleftrightarrow> CHR ''a'' \<le> c \<and> c \<le> CHR ''z''"

definition is_lower_alnum :: "char \<Rightarrow> bool" where
  [py_simps]: "is_lower_alnum c \<longleftrightarrow> is_lower_letter c \<or> is_digit c"

definition is_name_char :: "char \<Rightarrow> bool" where
  [py_simps]: "is_name_char c \<longleftrightarrow> is_lower_alnum c \<or> c = CHR ''-''"

definition is_lower_hex :: "char \<Rightarrow> bool" where
  [py_simps]: "is_lower_hex c \<longleftrightarrow> is_digit c \<or> (CHR ''a'' \<le> c \<and> c \<le> CHR ''f'')"

definition quote :: char where "quote = CHR 0x22"

definition backslash :: char where "backslash = CHR 0x5C"

definition newline :: char where "newline = CHR 0x0A"

text \<open>\<open>str.lower\<close>, on the letters of ASCII.\<close>

definition lower_char :: "char \<Rightarrow> char" where
  [py_simps]: "lower_char c =
     (if CHR ''A'' \<le> c \<and> c \<le> CHR ''Z'' then char_of (of_char c + (32::nat)) else c)"

definition lower :: "string \<Rightarrow> string" where
  [py_simps]: "lower s = map lower_char s"

text \<open>\<open>str.strip(chars)\<close>, \<open>str.lstrip(chars)\<close> and \<open>str.rstrip(chars)\<close>.\<close>

definition lstrip_of :: "char set \<Rightarrow> string \<Rightarrow> string" where
  [py_simps]: "lstrip_of cs s = dropWhile (\<lambda>c. c \<in> cs) s"

definition rstrip_of :: "char set \<Rightarrow> string \<Rightarrow> string" where
  [py_simps]: "rstrip_of cs s = rev (dropWhile (\<lambda>c. c \<in> cs) (rev s))"

definition strip_of :: "char set \<Rightarrow> string \<Rightarrow> string" where
  [py_simps]: "strip_of cs s = rstrip_of cs (lstrip_of cs s)"

text \<open>\<open>str.strip()\<close>: the white space of ASCII and Latin-1.\<close>

definition py_space :: "char set" where
  [py_simps]: "py_space = set (map char_of [9::nat, 10, 11, 12, 13, 28, 29, 30, 31, 32, 133, 160])"

definition removeprefix :: "string \<Rightarrow> string \<Rightarrow> string" where
  [py_simps]: "removeprefix p s = (if prefix p s then drop (length p) s else s)"

definition removesuffix :: "string \<Rightarrow> string \<Rightarrow> string" where
  [py_simps]: "removesuffix p s =
     (if p \<noteq> [] \<and> suffix p s then take (length s - length p) s else s)"

text \<open>\<open>str.partition(c)\<close> without the separator: what stands before its first occurrence and after.\<close>

definition partition_at :: "char \<Rightarrow> string \<Rightarrow> string \<times> string" where
  [py_simps]: "partition_at c s =
     (takeWhile (\<lambda>x. x \<noteq> c) s, drop 1 (dropWhile (\<lambda>x. x \<noteq> c) s))"

text \<open>\<open>str.split(c)\<close> for a one-character separator, and its inverse \<open>c.join\<close>.\<close>

fun split_on :: "char \<Rightarrow> string \<Rightarrow> string list" where
  "split_on c [] = [[]]"
| "split_on c (x # xs) =
     (if x = c then [] # split_on c xs
      else (case split_on c xs of [] \<Rightarrow> [[x]] | w # ws \<Rightarrow> (x # w) # ws))"

fun join_with :: "char \<Rightarrow> string list \<Rightarrow> string" where
  "join_with c [] = []"
| "join_with c [w] = w"
| "join_with c (w # ws) = w @ c # join_with c ws"

lemma split_on_not_Nil [simp]: "split_on c s \<noteq> []"
  by (induction s) (auto split: list.splits)

lemma split_on_no_sep: "w \<in> set (split_on c s) \<Longrightarrow> c \<notin> set w"
proof (induction s arbitrary: w)
  case Nil
  then show ?case by simp
next
  case (Cons x xs)
  then show ?case by (cases "split_on c xs") (auto split: if_splits)
qed

lemma join_split_on: "join_with c (split_on c s) = s"
proof (induction s)
  case Nil
  then show ?case by simp
next
  case (Cons x xs)
  obtain w ws where "split_on c xs = w # ws"
    by (meson list.exhaust split_on_not_Nil)
  with Cons show ?case by (cases ws) auto
qed

lemma split_on_no_sep_id: "c \<notin> set w \<Longrightarrow> split_on c w = [w]"
  by (induction w) auto

lemma split_on_append_sep: "split_on c (u @ c # v) = split_on c u @ split_on c v"
proof (induction u)
  case Nil
  then show ?case by simp
next
  case (Cons x u)
  obtain w ws where "split_on c u = w # ws"
    by (meson list.exhaust split_on_not_Nil)
  with Cons show ?case by auto
qed

lemma split_on_join:
  "ws \<noteq> [] \<Longrightarrow> (\<And>w. w \<in> set ws \<Longrightarrow> c \<notin> set w) \<Longrightarrow> split_on c (join_with c ws) = ws"
proof (induction ws rule: join_with.induct)
  case (3 c w v vs)
  then have "split_on c (join_with c (v # vs)) = v # vs" by simp
  moreover have "split_on c w = [w]" using 3 by (simp add: split_on_no_sep_id)
  ultimately show ?case by (simp add: split_on_append_sep)
qed (auto simp: split_on_no_sep_id)

text \<open>\<open>re.sub(r"[^a-z0-9]+", "-", s)\<close>: each run of other characters becomes one hyphen.\<close>

function squash :: "string \<Rightarrow> string" where
  "squash [] = []"
| "squash (c # cs) =
     (if is_lower_alnum c then c # squash cs
      else CHR ''-'' # squash (dropWhile (\<lambda>x. \<not> is_lower_alnum x) cs))"
  by pat_completeness auto
termination
  by (relation "measure length") (auto simp: le_imp_less_Suc length_dropWhile_le)

lemma set_squash: "c \<in> set (squash s) \<Longrightarrow> is_name_char c"
  by (induction s rule: squash.induct) (auto simp: is_name_char_def split: if_splits)

lemma set_strip_of: "set (strip_of cs s) \<subseteq> set s"
  unfolding strip_of_def rstrip_of_def lstrip_of_def
  by (auto dest!: set_dropWhileD)

subsection \<open>Numbers as text\<close>

definition digit_value :: "char \<Rightarrow> nat" where
  [py_simps]: "digit_value c = of_char c - 48"

definition digit_char :: "nat \<Rightarrow> char" where
  [py_simps]: "digit_char d = char_of (48 + d)"

text \<open>\<open>int(s)\<close> for a string of decimal digits.\<close>

definition digits_value :: "string \<Rightarrow> nat" where
  [py_simps]: "digits_value s = foldl (\<lambda>n c. 10 * n + digit_value c) 0 s"

text \<open>\<open>str(n)\<close> for \<open>n \<ge> 0\<close>.\<close>

fun show_nat :: "nat \<Rightarrow> string" where
  "show_nat n = (if n < 10 then [digit_char n] else show_nat (n div 10) @ [digit_char (n mod 10)])"

declare show_nat.simps [simp del]

definition show_int :: "int \<Rightarrow> string" where
  "show_int i = (if i < 0 then CHR ''-'' # show_nat (nat (- i)) else show_nat (nat i))"

lemma digit_char_inverse: "d < 10 \<Longrightarrow> digit_value (digit_char d) = d"
  by (simp add: digit_value_def digit_char_def of_char_of)

lemma is_digit_digit_char: "d < 10 \<Longrightarrow> is_digit (digit_char d)"
  by (auto simp: is_digit_def digit_char_def less_eq_char_def of_char_of)

lemma digits_value_snoc: "digits_value (s @ [c]) = 10 * digits_value s + digit_value c"
  by (simp add: digits_value_def)

lemma digits_value_show_nat [simp]: "digits_value (show_nat n) = n"
proof (induction n rule: show_nat.induct)
  case (1 n)
  show ?case
  proof (cases "n < 10")
    case True
    then show ?thesis by (subst show_nat.simps) (simp add: digits_value_def digit_char_inverse)
  next
    case False
    with "1" have "digits_value (show_nat (n div 10)) = n div 10" by simp
    with False show ?thesis
      by (subst show_nat.simps) (simp add: digits_value_snoc digit_char_inverse)
  qed
qed

lemma set_show_nat: "c \<in> set (show_nat n) \<Longrightarrow> is_digit c"
proof (induction n rule: show_nat.induct)
  case (1 n)
  then show ?case
    by (cases "n < 10") (auto simp: show_nat.simps [of n] is_digit_digit_char)
qed

lemma show_nat_not_Nil [simp]: "show_nat n \<noteq> []"
  by (subst show_nat.simps) simp

lemma show_nat_inj: "show_nat m = show_nat n \<longleftrightarrow> m = n"
  by (metis digits_value_show_nat)

subsection \<open>Slices\<close>

text \<open>\<open>s[:n]\<close> and \<open>s[-n:]\<close>, for a positive \<open>n\<close>.\<close>

definition first_of :: "int \<Rightarrow> 'a list \<Rightarrow> 'a list" where
  "first_of n s = (if int (length s) \<le> n then s else take (nat n) s)"

definition last_of :: "int \<Rightarrow> 'a list \<Rightarrow> 'a list" where
  "last_of n s = (if int (length s) \<le> n then s else drop (length s - nat n) s)"

lemma first_of_take: "first_of n s = take (nat n) s"
  by (simp add: first_of_def)

lemma set_last_of: "set (last_of n s) \<subseteq> set s"
  by (simp add: last_of_def set_drop_subset)

subsection \<open>Dictionaries\<close>

definition dict_get :: "('k, 'v) dict \<Rightarrow> 'k \<Rightarrow> 'v \<Rightarrow> 'v" where
  "dict_get d k v = (case map_of d k of None \<Rightarrow> v | Some x \<Rightarrow> x)"

text \<open>\<open>d.update(new)\<close>, and \<open>dict(new)\<close> from nothing.\<close>

definition dict_updates :: "('k, 'v) dict \<Rightarrow> ('k, 'v) dict \<Rightarrow> ('k, 'v) dict" where
  "dict_updates d new = foldl (\<lambda>d (k, v). AList.update k v d) d new"

lemma dict_get_simps [simp]:
  "dict_get [] k v = v"
  "dict_get ((a, b) # d) k v = (if a = k then b else dict_get d k v)"
  by (auto simp: dict_get_def)

lemma dict_get_update [simp]:
  "dict_get (AList.update a b d) k v = (if a = k then b else dict_get d k v)"
  by (simp add: dict_get_def update_conv')

lemma dict_get_delete [simp]:
  "dict_get (AList.delete a d) k v = (if a = k then v else dict_get d k v)"
  by (auto simp: dict_get_def delete_conv')

lemma update_new: "k \<notin> fst ` set d \<Longrightarrow> AList.update k v d = d @ [(k, v)]"
  by (induction d) auto

lemma distinct_keys_filter: "distinct (map fst d) \<Longrightarrow> distinct (map fst (filter P d))"
  by (induction d) auto

lemma map_of_filter_value:
  "distinct (map fst d) \<Longrightarrow>
   map_of (filter (\<lambda>(k, v). P v) d) k = (case map_of d k of None \<Rightarrow> None
      | Some v \<Rightarrow> if P v then Some v else None)"
  by (induction d) (auto split: option.splits dest: map_of_SomeD simp: rev_image_eqI)

subsection \<open>State machines\<close>

text \<open>
  The contract between a component's operations and what the rest of the system may rely on: an
  initial state has the invariant, and no step loses it. What follows for every run is proved
  once here.
\<close>

locale machine =
  fixes init :: "'s \<Rightarrow> bool"
    and step :: "'s \<Rightarrow> 's \<Rightarrow> bool"
    and inv :: "'s \<Rightarrow> bool"
  assumes init_inv: "init s \<Longrightarrow> inv s"
    and step_inv: "step s t \<Longrightarrow> inv s \<Longrightarrow> inv t"
begin

lemma steps_inv: "step\<^sup>*\<^sup>* s t \<Longrightarrow> inv s \<Longrightarrow> inv t"
  by (induction rule: rtranclp_induct) (auto intro: step_inv)

lemma reachable_inv: "init s \<Longrightarrow> step\<^sup>*\<^sup>* s t \<Longrightarrow> inv t"
  by (blast intro: steps_inv init_inv)

lemma next_inv: "init s \<Longrightarrow> step\<^sup>*\<^sup>* s t \<Longrightarrow> step t u \<Longrightarrow> inv u"
  by (blast intro: reachable_inv step_inv)

end

text \<open>
  A machine with a measure that no step lowers: a stage, a version, a clock. A run then never goes
  back.
\<close>

locale monotone_machine = machine +
  fixes level :: "'s \<Rightarrow> nat"
  assumes step_level: "step s t \<Longrightarrow> inv s \<Longrightarrow> level s \<le> level t"
begin

lemma steps_level: "step\<^sup>*\<^sup>* s t \<Longrightarrow> inv s \<Longrightarrow> level s \<le> level t"
proof (induction rule: rtranclp_induct)
  case (step t u)
  then show ?case using step_level [of t u] steps_inv [of s t] by fastforce
qed simp

lemma reachable_level: "init s \<Longrightarrow> step\<^sup>*\<^sup>* s t \<Longrightarrow> step\<^sup>*\<^sup>* t u \<Longrightarrow> level t \<le> level u"
  by (blast intro: steps_level reachable_inv)

end

text \<open>
  A detailed machine that keeps to an abstract one: every state it starts in matches a start, and each of its steps is matched by at
  most one of the abstract machine. What the abstract machine guarantees then holds of every state the
  detailed one reaches.
\<close>

locale simulation = spec: machine spec_init spec_step spec_inv
  for spec_init :: "'a \<Rightarrow> bool" and spec_step :: "'a \<Rightarrow> 'a \<Rightarrow> bool" and spec_inv :: "'a \<Rightarrow> bool" +
  fixes init :: "'s \<Rightarrow> bool"
    and step :: "'s \<Rightarrow> 's \<Rightarrow> bool"
    and match :: "'a \<Rightarrow> 's \<Rightarrow> bool"
  assumes init_match: "init s \<Longrightarrow> \<exists>a. spec_init a \<and> match a s"
    and step_match: "match a s \<Longrightarrow> spec_inv a \<Longrightarrow> step s t \<Longrightarrow> \<exists>b. spec_step\<^sup>=\<^sup>= a b \<and> match b t"
begin

lemma steps_match: "step\<^sup>*\<^sup>* s t \<Longrightarrow> match a s \<Longrightarrow> spec_inv a \<Longrightarrow> \<exists>b. spec_step\<^sup>*\<^sup>* a b \<and> match b t"
proof (induction rule: rtranclp_induct)
  case (step t u)
  then obtain b where b: "spec_step\<^sup>*\<^sup>* a b" "match b t" by blast
  then obtain c where "spec_step\<^sup>=\<^sup>= b c" "match c u"
    using step_match step.hyps(2) spec.steps_inv [OF b(1) step.prems(2)] by blast
  with b show ?case by (auto intro: rtranclp.rtrancl_into_rtrancl)
qed blast

lemma reachable_match:
  assumes "init s" "step\<^sup>*\<^sup>* s t"
  shows "\<exists>a b. spec_init a \<and> spec_step\<^sup>*\<^sup>* a b \<and> spec_inv b \<and> match b t"
  using init_match [OF assms(1)] steps_match [OF assms(2)] spec.init_inv spec.steps_inv by blast

end

end
