(* ===== verification/Gateway_Identity.thy ===== *)
theory Gateway_Identity
  imports AF_Prelude
begin

text \<open>
  Who calls the Ray gateway (\<open>src/apps/ray-train/gateway.py\<close>): refusals and their HTTP statuses,
  workload accounts and their declarations, the names of clusters and jobs, the token of a call
  and the user it stands for, with the cache of Hub users.

  Outside the repository, and so arguments here: SHA-256 (\<open>sha\<close>, the hex digest of a text), the
  YAML parser (\<open>load\<close>), the answers of JupyterHub (\<open>whoami_http\<close>, \<open>hub_http\<close>), the LDAP
  directory (\<open>ldap\<close>) and whether a session pod holds a GPU (\<open>holds_gpu\<close>, Prometheus's word).
\<close>

subsection \<open>Refusals\<close>

datatype status_code = INVALID_ARGUMENT | UNAUTHENTICATED | PERMISSION_DENIED | NOT_FOUND
  | FAILED_PRECONDITION | ABORTED | RESOURCE_EXHAUSTED | UNAVAILABLE

text \<open>
  A call the gateway answers itself, one whose own call to another service got no answer, or one
  that ends in another exception, which the server answers with 500. \<open>Diverged\<close> is no exception of the
  program: it marks a loop that takes more passes than the model gives it.
\<close>

datatype gw_error = Refused status_code string | ClientError | PyError string | Diverged

definition value_or_raise :: "'a option \<Rightarrow> gw_error + 'a" where
  "value_or_raise x = (case x of None \<Rightarrow> Inl (PyError ''ValueError'') | Some v \<Rightarrow> Inr v)"

lemma value_or_raise_eq_Inr [simp]: "value_or_raise x = Inr v \<longleftrightarrow> x = Some v"
  by (auto simp: value_or_raise_def split: option.splits)

definition NO_ANSWER :: gw_error where
  "NO_ANSWER = Refused UNAVAILABLE ''Kubernetes or JupyterHub did not answer: try again in a minute.''"

fun http_status :: "status_code \<Rightarrow> nat" where
  "http_status INVALID_ARGUMENT = 400"
| "http_status UNAUTHENTICATED = 401"
| "http_status PERMISSION_DENIED = 403"
| "http_status NOT_FOUND = 404"
| "http_status FAILED_PRECONDITION = 409"
| "http_status ABORTED = 409"
| "http_status RESOURCE_EXHAUSTED = 429"
| "http_status UNAVAILABLE = 503"

text \<open>An HTTP call: no reply (a \<open>ClientError\<close> or a timeout), or a status and a body.\<close>

datatype 'a answer = NoReply | Answer nat 'a

subsection \<open>Names of clusters\<close>

definition MAX_CLUSTER_NAME :: nat where "MAX_CLUSTER_NAME = 53"

text \<open>\<open>DNS_LABEL\<close>: \<^verbatim>\<open>[a-z]([-a-z0-9]*[a-z0-9])?\<close>.\<close>

definition dns_label :: "string \<Rightarrow> bool" where
  "dns_label s \<longleftrightarrow> s \<noteq> [] \<and> is_lower_letter (hd s) \<and> list_all is_name_char s
     \<and> is_lower_alnum (last s)"

definition cluster_name :: "(string \<Rightarrow> string) \<Rightarrow> string \<Rightarrow> string" where
  "cluster_name sha username =
     (let name = ''ray-train-'' @ username in
      if length name \<le> MAX_CLUSTER_NAME \<and> dns_label name then name
      else let stem = strip_of {CHR ''-''} (squash (lower username));
               suff = ''---'' @ take 8 (sha username)
           in take (MAX_CLUSTER_NAME - length suff) (''ray-train-'' @ stem) @ suff)"

subsection \<open>Workload accounts\<close>

record account =
  acct_name :: string
  acct_uid :: int
  acct_gid :: int
  token_sha256 :: string

datatype yaml = YNull | YBool bool | YInt int | YFloat rat | YStr string
  | YList "yaml list" | YDict "(yaml \<times> yaml) list"

datatype account_refused = AR_keys | AR_name | AR_reserved_name | AR_uid | AR_gid | AR_token_hash

definition ACCOUNT_NAME_MAX :: nat where
  "ACCOUNT_NAME_MAX = MAX_CLUSTER_NAME - length ''ray-train-''"

text \<open>\<open>ACCOUNT_NAME\<close>: \<^verbatim>\<open>[a-z0-9]([-a-z0-9]*[a-z0-9])?\<close>.\<close>

definition account_name :: "string \<Rightarrow> bool" where
  "account_name s \<longleftrightarrow> s \<noteq> [] \<and> is_lower_alnum (hd s) \<and> list_all is_name_char s
     \<and> is_lower_alnum (last s)"

definition RESERVED_NAMES :: "string list" where
  "RESERVED_NAMES = split_on (CHR '' '') (
     ''bin boot dev etc home lib lib32 lib64 libx32 media mnt opt proc root run sbin srv sys tmp usr var '' @
     ''work depot eos cvmfs af-shared-storage hub-db-dir jovyan dask-credentials log-volume'')"

definition EXTERNAL_SUFFIXES :: "string list" where
  "EXTERNAL_SUFFIXES = [''-cern'', ''-fnal'']"

definition external_name :: "string \<Rightarrow> bool" where
  "external_name name \<longleftrightarrow> list_ex (\<lambda>e. suffix e name) EXTERNAL_SUFFIXES"

definition is_token_sha256 :: "string \<Rightarrow> bool" where
  "is_token_sha256 s \<longleftrightarrow> length s = 64 \<and> list_all is_lower_hex s"

definition yget :: "(yaml \<times> yaml) list \<Rightarrow> string \<Rightarrow> yaml" where
  "yget d k = dict_get d (YStr k) YNull"

definition account_id :: "yaml \<Rightarrow> int option" where
  "account_id y = (case y of YInt i \<Rightarrow> if 1000 \<le> i \<and> i < 2000 then Some i else None | _ \<Rightarrow> None)"

definition account_keys :: "(yaml \<times> yaml) list \<Rightarrow> bool" where
  "account_keys d \<longleftrightarrow> fst ` set d = YStr ` {''name'', ''uid'', ''gid'', ''tokenSha256''}"

text \<open>The checks in the order the code makes them; the first that fails names the reason.\<close>

definition checked_account :: "yaml \<Rightarrow> account_refused + account" where
  "checked_account declared = (case declared of
     YDict d \<Rightarrow>
       if \<not> account_keys d then Inl AR_keys
       else (case yget d ''name'' of
         YStr name \<Rightarrow>
           if length name > ACCOUNT_NAME_MAX \<or> \<not> account_name name then Inl AR_name
           else if name \<in> set RESERVED_NAMES \<or> prefix ''claim-'' name \<or> external_name name
             then Inl AR_reserved_name
           else (case account_id (yget d ''uid'') of
             None \<Rightarrow> Inl AR_uid
           | Some uid \<Rightarrow> (case account_id (yget d ''gid'') of
               None \<Rightarrow> Inl AR_gid
             | Some gid \<Rightarrow> (case yget d ''tokenSha256'' of
                 YStr h \<Rightarrow> if is_token_sha256 h then Inr \<lparr>acct_name = name, acct_uid = uid,
                     acct_gid = gid, token_sha256 = h\<rparr> else Inl AR_token_hash
               | _ \<Rightarrow> Inl AR_token_hash)))
       | _ \<Rightarrow> Inl AR_name)
   | _ \<Rightarrow> Inl AR_keys)"

text \<open>
  \<open>load path\<close> is \<open>yaml.safe_load(path.read_text())\<close>, \<open>None\<close> where either raises. A declaration
  whose name or token hash another valid declaration has too is left out, and so is that one.
\<close>

definition found_accounts :: "(string \<Rightarrow> yaml option) \<Rightarrow> string list \<Rightarrow> account list" where
  "found_accounts load paths = List.map_filter (\<lambda>p. case load p of None \<Rightarrow> None
     | Some y \<Rightarrow> (case checked_account y of Inl _ \<Rightarrow> None | Inr a \<Rightarrow> Some a)) paths"

definition read_accounts :: "(string \<Rightarrow> yaml option) \<Rightarrow> string list \<Rightarrow> (string, account) dict" where
  "read_accounts load paths =
     (let found = found_accounts load paths;
          names = map acct_name found;
          hashes = map token_sha256 found
      in map (\<lambda>a. (acct_name a, a))
           (filter (\<lambda>a. \<not> (count_list names (acct_name a) > 1
              \<or> count_list hashes (token_sha256 a) > 1)) found))"

text \<open>
  \<open>accounts()\<close>: the directory listing gives each path with its stamp (inode, mtime, size), or none
  if \<open>stat\<close> fails; the declarations are read again only when the stamps differ from the cached.
\<close>

type_synonym file_stamp = "int \<times> int \<times> int"
type_synonym account_cache = "(string \<times> file_stamp) list option \<times> (string, account) dict"

definition accounts ::
  "(string \<Rightarrow> yaml option) \<Rightarrow> (string \<times> file_stamp option) list \<Rightarrow> account_cache
     \<Rightarrow> (string, account) dict \<times> account_cache" where
  "accounts load listing cache =
     (let stamp = List.map_filter (\<lambda>(p, s). map_option (\<lambda>st. (p, st)) s) listing;
          cache' = (if Some stamp \<noteq> fst cache then (Some stamp, read_accounts load (map fst stamp))
                    else cache)
      in (snd cache', cache'))"

text \<open>The last account of the loop whose hash is the token's.\<close>

definition token_account :: "(string \<Rightarrow> string) \<Rightarrow> (string, account) dict \<Rightarrow> string \<Rightarrow> account option" where
  "token_account sha accts token =
     foldl (\<lambda>owner (n, a). if sha token = token_sha256 a then Some a else owner) None accts"

definition refuse_account_name ::
  "(string \<Rightarrow> string) \<Rightarrow> (string, account) dict \<Rightarrow> string \<Rightarrow> gw_error + unit" where
  "refuse_account_name sha accts name =
     (if cluster_name sha name \<in> set (map (\<lambda>(a, _). cluster_name sha a) accts)
      then Inl (Refused PERMISSION_DENIED
        (name @ '' is the name of a workload account: no Ray cluster runs for a Hub user of it.''))
      else Inr ())"

subsection \<open>Tokens and users\<close>

definition bearer_token :: "string \<Rightarrow> string option" where
  "bearer_token header =
     (let (scheme, rest) = partition_at (CHR '' '') header;
          token = strip_of py_space rest
      in if lower scheme \<notin> {''bearer'', ''token''} \<or> token = [] then None
         else if list_all (\<lambda>c. CHR '' '' \<le> c \<and> c \<le> CHR ''~'') token then Some token else None)"

record user =
  user_name :: string
  user_account :: string
  user_uid :: int
  user_gid :: int
  session_gpu :: bool
  workload :: bool

definition user_cluster :: "(string \<Rightarrow> string) \<Rightarrow> user \<Rightarrow> string" where
  "user_cluster sha u = cluster_name sha (user_name u)"

definition user_owner :: "user \<Rightarrow> string" where
  "user_owner u = (if workload u then user_name u else '''')"

text \<open>
  The Hub's model of a user, of which the gateway reads \<open>servers[""].state.pod_name\<close>: the pod names
  by server. \<open>SESSION_POD\<close> is \<^verbatim>\<open>purdue-af-(\d+)\<close>; the result is the pod and the AF id in its name.
\<close>

type_synonym user_model = "(string, string option) dict"

definition session_pod :: "user_model \<Rightarrow> (string \<times> nat) option" where
  "session_pod m =
     (let pod = (case dict_get m '''' None of None \<Rightarrow> '''' | Some p \<Rightarrow> p);
          digits = removeprefix ''purdue-af-'' pod
      in if prefix ''purdue-af-'' pod \<and> digits \<noteq> [] \<and> list_all is_digit digits
         then Some (pod, digits_value digits) else None)"

definition pad4 :: "string \<Rightarrow> string" where
  "pad4 s = replicate (4 - length s) (CHR ''0'') @ s"

definition pooled_account :: "nat \<Rightarrow> gw_error + string" where
  "pooled_account af_id =
     (if af_id > 399 then Inl (Refused PERMISSION_DENIED
        (''There is no pooled account for AF user '' @ show_nat af_id @ ''.''))
      else Inr (''paf'' @ pad4 (show_nat af_id)))"

definition cluster_token :: "(string \<Rightarrow> string \<Rightarrow> string) \<Rightarrow> string \<Rightarrow> string \<Rightarrow> string" where
  "cluster_token hmac_sha key cluster = hmac_sha key cluster"

definition job_name :: "(string \<Rightarrow> string) \<Rightarrow> user \<Rightarrow> string \<Rightarrow> string" where
  "job_name sha u key =
     ''ray-job-'' @ take 16 (sha (user_owner u @ ''/'' @ user_cluster sha u @ ''/'' @ key))"

text \<open>\<open>whoami\<close> and \<open>hub_user\<close>, from what the Hub answers.\<close>

definition whoami :: "(string \<times> string) answer \<Rightarrow> gw_error + string \<times> string" where
  "whoami r = (case r of NoReply \<Rightarrow> Inl ClientError
     | Answer status kn \<Rightarrow>
         if status \<in> {401, 403} then Inl (Refused UNAUTHENTICATED
           ''No workload account has RAY_AUTH_TOKEN, and JupyterHub did not accept it: in a session, it must be the session's JUPYTERHUB_API_TOKEN.'')
         else if status \<noteq> 200 then Inl (Refused UNAVAILABLE
           (''JupyterHub answered HTTP '' @ show_nat status @ ''.''))
         else Inr kn)"

definition hub_user :: "user_model answer \<Rightarrow> gw_error + user_model" where
  "hub_user r = (case r of NoReply \<Rightarrow> Inl ClientError
     | Answer status m \<Rightarrow>
         if status \<noteq> 200 then Inl (Refused UNAVAILABLE
           (''JupyterHub answered HTTP '' @ show_nat status @ '' for the user's session.''))
         else Inr m)"

text \<open>What the gateway asks others of a caller.\<close>

record directory =
  whoami_http :: "string \<Rightarrow> (string \<times> string) answer"
  hub_http :: "string \<Rightarrow> user_model answer"
  ldap :: "string \<Rightarrow> gw_error + int \<times> int"
  holds_gpu :: "string \<Rightarrow> bool"

definition USER_CACHE_S :: time where "USER_CACHE_S = 300"

type_synonym user_cache = "(string, time \<times> user) dict"

text \<open>A user the Hub vouches for, none of them cached: \<open>user_for\<close> after its cache missed.\<close>

definition looked_up :: "(string \<Rightarrow> string) \<Rightarrow> directory \<Rightarrow> (string, account) dict \<Rightarrow> string
    \<Rightarrow> gw_error + user" where
  "looked_up sha dir accts token =
     bind_sum (whoami (whoami_http dir token)) (\<lambda>(kind, name).
     if kind \<noteq> ''user'' then Inl (Refused PERMISSION_DENIED
       (''A Ray cluster is for a JupyterHub user, not a '' @ kind @ ''.''))
     else if CHR '':'' \<in> set name then Inl (Refused PERMISSION_DENIED
       (name @ '' is no name a Ray cluster runs for.''))
     else bind_sum (refuse_account_name sha accts name) (\<lambda>_.
     bind_sum (hub_user (hub_http dir name)) (\<lambda>model.
     let pod = session_pod model in
     bind_sum (if external_name name then (case pod of
          None \<Rightarrow> Inl (Refused FAILED_PRECONDITION
            ''Start your AF session first: a Ray cluster runs as the user of a running session.'')
        | Some (_, af_id) \<Rightarrow> pooled_account af_id) else Inr name) (\<lambda>acct.
     bind_sum (ldap dir acct) (\<lambda>(uid, gid).
     Inr \<lparr>user_name = name, user_account = acct, user_uid = uid, user_gid = gid,
          session_gpu = (case pod of None \<Rightarrow> False | Some (p, _) \<Rightarrow> holds_gpu dir p),
          workload = False\<rparr>)))))"

text \<open>The rest of \<open>user_for\<close>: the cache keeps what has not run out, and the user just found.\<close>

definition user_refreshed :: "(string \<Rightarrow> string) \<Rightarrow> directory \<Rightarrow> (string, account) dict \<Rightarrow> time \<Rightarrow> string
    \<Rightarrow> user_cache \<Rightarrow> (gw_error + user) \<times> user_cache" where
  "user_refreshed sha dir accts now token cache = (case looked_up sha dir accts token of
     Inl e \<Rightarrow> (Inl e, cache)
   | Inr u \<Rightarrow> (Inr u, AList.update (sha token) (now + USER_CACHE_S, u)
                (filter (\<lambda>(k, v). fst v > now) cache)))"

definition user_for :: "(string \<Rightarrow> string) \<Rightarrow> directory \<Rightarrow> (string, account) dict \<Rightarrow> time \<Rightarrow> string
    \<Rightarrow> user_cache \<Rightarrow> (gw_error + user) \<times> user_cache" where
  "user_for sha dir accts now token cache =
     (case token_account sha accts token of
        Some a \<Rightarrow> (Inr \<lparr>user_name = acct_name a, user_account = acct_name a, user_uid = acct_uid a,
                        user_gid = acct_gid a, session_gpu = False, workload = True\<rparr>, cache)
      | None \<Rightarrow>
          (case map_of cache (sha token) of
             Some (until, u) \<Rightarrow>
               if until > now
               then (bind_sum (refuse_account_name sha accts (user_name u)) (\<lambda>_. Inr u), cache)
               else user_refreshed sha dir accts now token cache
           | None \<Rightarrow> user_refreshed sha dir accts now token cache))"

subsection \<open>Names are valid, and an account's is its own\<close>

lemma lower_hex_alnum: "is_lower_hex c \<Longrightarrow> is_lower_alnum c"
  by (auto simp: py_simps less_eq_char_def)

lemma lower_alnum_name_char: "is_lower_alnum c \<Longrightarrow> is_name_char c"
  by (simp add: is_name_char_def)

lemma name_char_hyphen [simp]: "is_name_char (CHR ''-'')"
  by (simp add: is_name_char_def)

lemma ray_train_chars: "list_all is_name_char ''ray-train-''"
  by (simp add: py_simps less_eq_char_def)

lemma is_token_sha256_replicate: "is_lower_hex c \<Longrightarrow> is_token_sha256 (replicate 64 c)"
  by (simp add: is_token_sha256_def list_all_iff)

lemma cluster_name_plain:
  "length (''ray-train-'' @ u) \<le> MAX_CLUSTER_NAME \<Longrightarrow> dns_label (''ray-train-'' @ u) \<Longrightarrow>
   cluster_name sha u = ''ray-train-'' @ u"
  by (simp add: cluster_name_def)

lemma dns_label_ray_train:
  assumes "list_all is_name_char s" "s \<noteq> []" "is_lower_alnum (last s)"
  shows "dns_label (''ray-train-'' @ s)"
  using assms ray_train_chars
  by (simp add: dns_label_def) (simp add: is_lower_letter_def less_eq_char_def)

lemma hashed_name_valid:
  assumes stem: "list_all is_name_char stem" and h: "is_token_sha256 h"
  defines "n \<equiv> take (MAX_CLUSTER_NAME - length (''---'' @ take 8 h)) (''ray-train-'' @ stem) @ ''---'' @ take 8 h"
  shows "dns_label n \<and> length n \<le> MAX_CLUSTER_NAME \<and> prefix ''ray-train-'' n"
proof -
  have len: "length (''---'' @ take 8 h) = 11" and hex: "list_all is_lower_hex (take 8 h)"
    using h by (auto simp: is_token_sha256_def dest: in_set_takeD simp: list_all_iff)
  have n: "n = ''ray-train-'' @ (take 32 stem @ ''---'' @ take 8 h)"
    unfolding n_def len by (simp add: MAX_CLUSTER_NAME_def take_Cons')
  have ne: "take 8 h \<noteq> []" using h by (auto simp: is_token_sha256_def)
  have "list_all is_name_char (take 32 stem @ ''---'' @ take 8 h)"
    using stem hex by (auto simp: list_all_iff lower_alnum_name_char lower_hex_alnum dest: in_set_takeD)
  moreover have "is_lower_alnum (last (take 32 stem @ ''---'' @ take 8 h))"
    using hex ne by (auto simp: list_all_iff intro!: lower_hex_alnum)
  ultimately have "dns_label n" unfolding n by (intro dns_label_ray_train) auto
  moreover have "length n \<le> MAX_CLUSTER_NAME"
    unfolding n_def len by (simp add: MAX_CLUSTER_NAME_def)
  ultimately show ?thesis unfolding n by simp
qed

lemma stem_chars: "list_all is_name_char (strip_of {CHR ''-''} (squash (lower u)))"
  using set_strip_of [of "{CHR ''-''}" "squash (lower u)"] set_squash
  by (auto simp: list_all_iff)

lemma account_cluster_plain:
  assumes "account_name n" "length n \<le> ACCOUNT_NAME_MAX"
  shows "cluster_name sha n = ''ray-train-'' @ n"
  using assms by (intro cluster_name_plain dns_label_ray_train)
    (auto simp: account_name_def ACCOUNT_NAME_MAX_def MAX_CLUSTER_NAME_def)

subsection \<open>Declarations\<close>

definition valid_account :: "account \<Rightarrow> bool" where
  "valid_account a \<longleftrightarrow> account_name (acct_name a) \<and> length (acct_name a) \<le> ACCOUNT_NAME_MAX
     \<and> acct_name a \<notin> set RESERVED_NAMES \<and> \<not> prefix ''claim-'' (acct_name a)
     \<and> \<not> external_name (acct_name a)
     \<and> acct_uid a \<in> {1000..<2000} \<and> acct_gid a \<in> {1000..<2000}
     \<and> is_token_sha256 (token_sha256 a)"

lemma account_id_range: "account_id y = Some i \<Longrightarrow> i \<in> {1000..<2000}"
  by (auto simp: account_id_def split: yaml.splits if_splits)

lemma checked_account_valid: "checked_account y = Inr a \<Longrightarrow> valid_account a"
  unfolding checked_account_def
  by (simp split: yaml.splits if_splits option.splits)
     (auto simp: valid_account_def dest: account_id_range)

lemma found_accounts_checked:
  "a \<in> set (found_accounts load paths) \<Longrightarrow> \<exists>p y. p \<in> set paths \<and> load p = Some y \<and> checked_account y = Inr a"
  by (fastforce simp: found_accounts_def List.map_filter_def split: option.splits sum.splits)

lemma map_count_one_distinct:
  "(\<And>a. a \<in> set (filter P xs) \<Longrightarrow> count_list (map f xs) (f a) \<le> 1) \<Longrightarrow> distinct (map f (filter P xs))"
proof (induction xs)
  case Nil
  then show ?case by simp
next
  case (Cons x xs)
  have IH: "distinct (map f (filter P xs))"
  proof (rule Cons.IH)
    fix a assume "a \<in> set (filter P xs)"
    then have "count_list (map f (x # xs)) (f a) \<le> 1" by (intro Cons.prems) auto
    then show "count_list (map f xs) (f a) \<le> 1" by (auto split: if_splits)
  qed
  have "f x \<notin> f ` set xs" if "P x"
    using Cons.prems [of x] that by (auto simp: count_list_0_iff)
  with IH show ?case by auto
qed

lemma read_accounts_keys: "(n, a) \<in> set (read_accounts load paths) \<Longrightarrow> n = acct_name a"
  by (auto simp: read_accounts_def Let_def)

lemma read_accounts_found: "(n, a) \<in> set (read_accounts load paths) \<Longrightarrow> a \<in> set (found_accounts load paths)"
  by (auto simp: read_accounts_def Let_def)

lemma read_accounts_distinct_names: "distinct (map fst (read_accounts load paths))"
  unfolding read_accounts_def Let_def map_map o_def fst_conv
  by (rule map_count_one_distinct) auto

lemma read_accounts_distinct_hashes: "distinct (map (token_sha256 \<circ> snd) (read_accounts load paths))"
  unfolding read_accounts_def Let_def map_map o_def snd_conv
  by (rule map_count_one_distinct) auto

lemma token_account_foldl:
  "foldl (\<lambda>owner (n, a). if h = token_sha256 a then Some a else owner) acc accts = Some a \<Longrightarrow>
   acc = Some a \<or> (\<exists>n. (n, a) \<in> set accts \<and> token_sha256 a = h)"
  by (induction accts arbitrary: acc) (fastforce split: if_splits)+

lemma token_account_owner:
  "token_account sha accts t = Some a \<Longrightarrow> \<exists>n. (n, a) \<in> set accts \<and> token_sha256 a = sha t"
  using token_account_foldl [of "sha t" None accts a] by (auto simp: token_account_def)

lemma token_account_foldl_skip:
  "(\<And>n a. (n, a) \<in> set accts \<Longrightarrow> token_sha256 a \<noteq> h) \<Longrightarrow>
   foldl (\<lambda>owner (n, a). if h = token_sha256 a then Some a else owner) acc accts = acc"
  by (induction accts arbitrary: acc) fastforce+

lemma token_account_found:
  assumes "distinct (map (token_sha256 \<circ> snd) accts)" "(n, a) \<in> set accts" "token_sha256 a = sha t"
  shows "token_account sha accts t = Some a"
proof -
  obtain us vs where s: "accts = us @ (n, a) # vs" using assms(2) by (auto dest: split_list)
  have "token_sha256 b \<noteq> sha t" if "(m, b) \<in> set vs" for m b
    using assms(1,3) that unfolding s by (auto simp: rev_image_eqI)
  then show ?thesis
    using assms(3) by (simp add: token_account_def s token_account_foldl_skip)
qed

subsection \<open>Users\<close>

definition user_cache_ok :: "user_cache \<Rightarrow> bool" where
  "user_cache_ok cache \<longleftrightarrow> (\<forall>(k, (t, u)) \<in> set cache. \<not> workload u)"

text \<open>The names of the workload accounts' clusters.\<close>

definition account_clusters :: "(string \<Rightarrow> string) \<Rightarrow> (string, account) dict \<Rightarrow> string set" where
  "account_clusters sha accts = cluster_name sha ` fst ` set accts"

lemma refuse_account_name_ok:
  "refuse_account_name sha accts name = Inr r \<longleftrightarrow> cluster_name sha name \<notin> account_clusters sha accts"
  by (auto simp: refuse_account_name_def account_clusters_def rev_image_eqI split: if_splits)

lemma looked_up_ok:
  assumes "looked_up sha dir accts token = Inr u"
  shows "\<not> workload u" "user_cluster sha u \<notin> account_clusters sha accts"
  using assms
  by (auto simp: looked_up_def Let_def user_cluster_def refuse_account_name_ok
      split: prod.splits if_splits)

lemma user_cache_ok_update:
  "user_cache_ok cache \<Longrightarrow> \<not> workload u \<Longrightarrow> user_cache_ok (AList.update k (t, u) (filter P cache))"
  unfolding user_cache_ok_def by (induction cache) (auto split: if_splits)

lemma user_refreshed_ok:
  assumes "user_refreshed sha dir accts now token cache = (Inr u, cache')" "user_cache_ok cache"
  shows "\<not> workload u \<and> user_cluster sha u \<notin> account_clusters sha accts \<and> user_cache_ok cache'"
  using assms looked_up_ok [of sha dir accts token u]
  by (auto simp: user_refreshed_def user_cache_ok_update split: sum.splits)

subsection \<open>Properties\<close>

text \<open>
  C38: the name of a cluster is always one Kubernetes and KubeRay accept: a DNS label of at most 53
  characters that starts with \<open>ray-train-\<close>, whatever the username.
\<close>

theorem cluster_name_valid:
  assumes "\<forall>s. is_token_sha256 (sha s)"
  shows "dns_label (cluster_name sha u) \<and> length (cluster_name sha u) \<le> MAX_CLUSTER_NAME
    \<and> prefix ''ray-train-'' (cluster_name sha u)"
proof (cases "length (''ray-train-'' @ u) \<le> MAX_CLUSTER_NAME \<and> dns_label (''ray-train-'' @ u)")
  case True
  then show ?thesis by (simp add: cluster_name_plain)
next
  case False
  then show ?thesis
    using hashed_name_valid [OF stem_chars, of "sha u" u] assms
    by (simp add: cluster_name_def Let_def)
qed

theorem cluster_name_valid_witness:
  "dns_label (cluster_name (\<lambda>s. replicate 64 (CHR ''0'')) ''J.Doe'')
   \<and> cluster_name (\<lambda>s. replicate 64 (CHR ''0'')) ''J.Doe'' = ''ray-train-j-doe---00000000''"
proof -
  have h: "\<forall>s. is_token_sha256 ((\<lambda>s :: string. replicate 64 (CHR ''0'')) s)"
    by (simp add: is_token_sha256_replicate py_simps)
  have "cluster_name (\<lambda>s. replicate 64 (CHR ''0'')) ''J.Doe'' = ''ray-train-j-doe---00000000''"
    by code_simp
  with cluster_name_valid [OF h, of "''J.Doe''"] show ?thesis by simp
qed

text \<open>
  The hash does not keep every two usernames apart. Whatever the hash, the username \<open>A\<close> and the
  username that spells out the name \<open>A\<close> is given have one cluster between them.
\<close>

theorem cluster_name_collision:
  assumes "\<forall>s. is_token_sha256 (sha s)"
  shows "\<exists>u v. u \<noteq> v \<and> cluster_name sha u = cluster_name sha v"
proof -
  let ?v = "''a---'' @ take 8 (sha ''A'')"
  have h: "length (sha ''A'') = 64" "list_all is_lower_hex (take 8 (sha ''A''))"
    using assms by (auto simp: is_token_sha256_def list_all_iff dest: in_set_takeD)
  then have ne: "take 8 (sha ''A'') \<noteq> []" by auto
  have alnum: "list_all is_lower_alnum (take 8 (sha ''A''))"
    using h(2) by (auto simp: list_all_iff lower_hex_alnum)
  have "dns_label (''ray-train-'' @ ?v)"
  proof (rule dns_label_ray_train)
    show "list_all is_name_char ?v"
      using alnum by (auto simp: list_all_iff lower_alnum_name_char)
        (simp add: py_simps less_eq_char_def)
  qed (use alnum ne in \<open>auto simp: list_all_iff\<close>)
  then have "cluster_name sha ?v = ''ray-train-'' @ ?v"
    using h(1) by (intro cluster_name_plain) (simp_all add: MAX_CLUSTER_NAME_def)
  moreover have "\<not> dns_label (''ray-train-'' @ ''A'')" by code_simp
  moreover have "strip_of {CHR ''-''} (squash (lower ''A'')) = ''a''" by code_simp
  ultimately have "cluster_name sha ''A'' = cluster_name sha ?v"
    using h(1) by (simp add: cluster_name_def Let_def MAX_CLUSTER_NAME_def)
  moreover have "''A'' \<noteq> ?v" by simp
  ultimately show ?thesis by blast
qed

theorem cluster_name_collision_witness:
  "\<exists>u v. u \<noteq> v \<and> cluster_name (\<lambda>s. replicate 64 (CHR ''0'')) u = cluster_name (\<lambda>s. replicate 64 (CHR ''0'')) v"
proof -
  have "\<forall>s. is_token_sha256 ((\<lambda>s :: string. replicate 64 (CHR ''0'')) s)"
    by (simp add: is_token_sha256_replicate py_simps)
  from cluster_name_collision [OF this] show ?thesis .
qed

text \<open>
  The accounts read from the declarations are all valid, under their own names, and no two of
  them share a name, a token hash or a cluster.
\<close>

theorem read_accounts_apart:
  "(\<forall>n a. (n, a) \<in> set (read_accounts load paths) \<longrightarrow> n = acct_name a \<and> valid_account a)
   \<and> distinct (map fst (read_accounts load paths))
   \<and> distinct (map (token_sha256 \<circ> snd) (read_accounts load paths))
   \<and> distinct (map (cluster_name sha \<circ> fst) (read_accounts load paths))"
proof -
  let ?d = "read_accounts load paths"
  have valid: "n = acct_name a \<and> valid_account a" if "(n, a) \<in> set ?d" for n a
    using that read_accounts_keys read_accounts_found found_accounts_checked checked_account_valid
    by metis
  have plain: "cluster_name sha n = ''ray-train-'' @ n" if "n \<in> set (map fst ?d)" for n
    using that valid by (fastforce simp: valid_account_def intro: account_cluster_plain)
  have "inj_on (cluster_name sha) (set (map fst ?d))"
    by (rule inj_onI) (simp add: plain)
  then have "distinct (map (cluster_name sha) (map fst ?d))"
    using read_accounts_distinct_names by (simp only: distinct_map)
  with valid show ?thesis
    by (simp add: read_accounts_distinct_names read_accounts_distinct_hashes)
qed

theorem read_accounts_apart_witness:
  "\<exists>load n a. read_accounts load [''x.yaml'', ''y.yaml'', ''z.yaml''] = [(n, a)]
     \<and> n = ''flow'' \<and> valid_account a"
proof -
  let ?decl = "\<lambda>u h. YDict [(YStr ''name'', YStr u), (YStr ''uid'', YInt 1000),
     (YStr ''gid'', YInt 1000), (YStr ''tokenSha256'', YStr (replicate 64 h))]"
  let ?load = "map_of [(''x.yaml'', ?decl ''flow'' (CHR ''1'')), (''y.yaml'', ?decl ''root'' (CHR ''2''))]"
  let ?paths = "[''x.yaml'', ''y.yaml'', ''z.yaml'']"
  have "map fst (read_accounts ?load ?paths) = [''flow'']" by code_simp
  then obtain a where d: "read_accounts ?load ?paths = [(''flow'', a)]" by auto
  then have "valid_account a" using read_accounts_apart [of ?load ?paths] by simp
  with d show ?thesis by blast
qed

text \<open>
  A workload token is that of exactly the account whose declaration holds its hash: the loop of
  \<open>token_account\<close> finds it, and it finds no other.
\<close>

theorem token_account_exact:
  "token_account sha (read_accounts load paths) t = Some a \<longleftrightarrow>
   (acct_name a, a) \<in> set (read_accounts load paths) \<and> token_sha256 a = sha t"
  using token_account_owner [of sha "read_accounts load paths" t a] read_accounts_keys
    token_account_found [OF read_accounts_distinct_hashes]
  by blast

text \<open>
  C30: a call acts as a workload account only with that account's token, and a Hub user, cached or
  not, never gets the cluster of a workload account; the cache never holds a workload account.
\<close>

theorem user_for_apart:
  assumes "user_for sha dir accts now token cache = (Inr u, cache')" and "user_cache_ok cache"
  shows "user_cache_ok cache'
    \<and> (if workload u then \<exists>n a. (n, a) \<in> set accts \<and> token_sha256 a = sha token \<and> user_name u = acct_name a
       else user_cluster sha u \<notin> account_clusters sha accts)"
proof (cases "token_account sha accts token")
  case (Some a)
  with assms show ?thesis by (auto simp: user_for_def dest!: token_account_owner) blast
next
  case None
  have fresh: ?thesis if "user_refreshed sha dir accts now token cache = (Inr u, cache')"
    using user_refreshed_ok [OF that assms(2)] by simp
  show ?thesis
  proof (cases "map_of cache (sha token)")
    case None
    with \<open>token_account sha accts token = None\<close> assms(1) show ?thesis
      by (intro fresh) (simp add: user_for_def)
  next
    case (Some v)
    obtain until c where v: "v = (until, c)" by fastforce
    show ?thesis
    proof (cases "until > now")
      case True
      have "u = c" "cache' = cache" "cluster_name sha (user_name u) \<notin> account_clusters sha accts"
        using assms(1) None Some v True by (auto simp: user_for_def refuse_account_name_ok)
      moreover have "\<not> workload c"
        using assms(2) map_of_SomeD [OF Some] v by (auto simp: user_cache_ok_def)
      ultimately show ?thesis using assms(2) by (simp add: user_cluster_def)
    next
      case False
      with None Some v assms(1) show ?thesis by (intro fresh) (simp add: user_for_def)
    qed
  qed
qed

theorem user_for_apart_witness:
  "\<exists>dir u cache'. user_for (\<lambda>s. s) dir [] 0 ''t'' [] = (Inr u, cache') \<and> user_name u = ''ann''
     \<and> user_cache_ok cache' \<and> user_cluster (\<lambda>s. s) u \<notin> account_clusters (\<lambda>s. s) []"
proof -
  let ?dir = "\<lparr>whoami_http = \<lambda>_. Answer 200 (''user'', ''ann''), hub_http = \<lambda>_. Answer 200 [],
     ldap = \<lambda>_. Inr (501, 501), holds_gpu = \<lambda>_. False\<rparr>"
  let ?u = "\<lparr>user_name = ''ann'', user_account = ''ann'', user_uid = 501, user_gid = 501,
     session_gpu = False, workload = False\<rparr>"
  have run: "user_for (\<lambda>s. s) ?dir [] 0 ''t'' [] = (Inr ?u, [(''t'', (300, ?u))])"
    by (simp add: user_for_def token_account_def user_refreshed_def looked_up_def whoami_def hub_user_def
        refuse_account_name_def external_name_def EXTERNAL_SUFFIXES_def suffix_to_prefix session_pod_def
        USER_CACHE_S_def)
  have "user_cache_ok []" by (simp add: user_cache_ok_def)
  from user_for_apart [OF run this] have
    "user_cache_ok [(''t'', (300, ?u))] \<and> user_cluster (\<lambda>s. s) ?u \<notin> account_clusters (\<lambda>s. s) []" by simp
  then show ?thesis using run by fastforce
qed

lemma found_accounts_cong:
  "(\<And>p. p \<in> set paths \<Longrightarrow> load p = load' p) \<Longrightarrow> found_accounts load paths = found_accounts load' paths"
  unfolding found_accounts_def by (induction paths) (auto simp: map_filter_simps split: option.split)

text \<open>
  The cached accounts are the current ones. Where the cache was filled by a read of the files
  under some stamps, and a file of an unchanged stamp still reads the same, \<open>accounts\<close> answers what
  reading every file now would.
\<close>

theorem accounts_current:
  assumes "cache = (None, []) \<or> cache = (Some old, read_accounts load0 (map fst old))"
    and "\<And>p st. (p, st) \<in> set old \<Longrightarrow> (p, Some st) \<in> set listing \<Longrightarrow> load p = load0 p"
  shows "fst (accounts load listing cache)
    = read_accounts load (map fst (List.map_filter (\<lambda>(p, s). map_option (\<lambda>st. (p, st)) s) listing))"
proof -
  let ?stamp = "List.map_filter (\<lambda>(p, s). map_option (\<lambda>st. (p, st)) s) listing"
  have "read_accounts load (map fst old) = read_accounts load0 (map fst old)" if "?stamp = old"
  proof -
    have "load p = load0 p" if "p \<in> set (map fst old)" for p
    proof -
      from that obtain st where "(p, st) \<in> set old" by auto
      moreover from this \<open>?stamp = old\<close> have "(p, Some st) \<in> set listing"
        by (auto simp: List.map_filter_def split: option.splits)
      ultimately show ?thesis by (rule assms(2))
    qed
    then have "found_accounts load (map fst old) = found_accounts load0 (map fst old)"
      by (rule found_accounts_cong)
    then show ?thesis by (simp add: read_accounts_def)
  qed
  then show ?thesis using assms(1) by (auto simp: accounts_def Let_def)
qed

theorem accounts_current_witness:
  "fst (accounts (\<lambda>_. Some YNull) [(''a.yaml'', Some (1, 1, 1)), (''b.yaml'', None)]
     (Some [(''a.yaml'', (1, 1, 1))], read_accounts (\<lambda>_. Some YNull) [''a.yaml''])) = []"
proof -
  let ?cache = "(Some [(''a.yaml'', (1, 1, 1))], read_accounts (\<lambda>_. Some YNull) [''a.yaml'']) :: account_cache"
  let ?listing = "[(''a.yaml'', Some (1, 1, 1)), (''b.yaml'', None)] :: (string \<times> file_stamp option) list"
  have "fst (accounts (\<lambda>_. Some YNull) ?listing ?cache) = read_accounts (\<lambda>_. Some YNull) (map fst
     (List.map_filter (\<lambda>(p, s). map_option (\<lambda>st. (p, st)) s) ?listing))"
    by (rule accounts_current [where ?old = "[(''a.yaml'', (1, 1, 1))]" and ?load0.0 = "\<lambda>_. Some YNull"]) auto
  also have "\<dots> = []" by code_simp
  finally show ?thesis .
qed

end
