(* ===== verification/Py_Numbers.thy ===== *)
theory Py_Numbers
  imports AF_Prelude
begin

text \<open>
  Numbers as the gateway reads and writes them: Python's \<open>float(text)\<close> and the format \<open>:g\<close>, by which
  a \<open>Shape\<close> keeps the GPU memory it asks for as text. Floats are exact rationals; a value beyond the
  largest double reads as infinity, and there is no negative zero.
\<close>

datatype pyfloat = Fin rat | Infinite bool | NaN

text \<open>A run of digits that single underscores may part.\<close>

definition digit_part :: "string \<Rightarrow> bool" where
  "digit_part s \<longleftrightarrow> list_all (\<lambda>w. w \<noteq> [] \<and> list_all is_digit w) (split_on (CHR ''_'') s)"

definition digits_of :: "string \<Rightarrow> string" where
  "digits_of s = filter (\<lambda>c. c \<noteq> CHR ''_'') s"

definition signed :: "string \<Rightarrow> bool \<times> string" where
  "signed s = (case s of [] \<Rightarrow> (False, []) | c # cs \<Rightarrow>
     if c = CHR ''-'' then (True, cs) else if c = CHR ''+'' then (False, cs) else (False, s))"

definition DOUBLE_LIMIT :: rat where
  "DOUBLE_LIMIT = 2 ^ 1024 - 2 ^ 970"

definition ten_power :: "int \<Rightarrow> rat" where
  "ten_power e = (if 0 \<le> e then 10 ^ nat e else 1 / 10 ^ nat (- e))"

text \<open>The exponent after \<open>e\<close>, 0 without one, \<open>None\<close> if it is none.\<close>

definition exponent_of :: "string \<Rightarrow> int option" where
  "exponent_of b =
     (if CHR ''e'' \<notin> set b then Some 0
      else let (neg, d) = signed (snd (partition_at (CHR ''e'') b)) in
        if digit_part d then Some ((if neg then - 1 else 1) * int (digits_value (digits_of d))) else None)"

definition decimal :: "string \<Rightarrow> rat option" where
  "decimal b =
     (let mant = fst (partition_at (CHR ''e'') b);
          (ip, fp) = partition_at (CHR ''.'') mant;
          whole_ok = digit_part ip \<and> (fp = [] \<or> digit_part fp);
          frac_ok = ip = [] \<and> digit_part fp
      in if whole_ok \<or> frac_ok
         then map_option (\<lambda>e. of_nat (digits_value (digits_of (ip @ fp)))
                * ten_power (e - int (length (digits_of fp)))) (exponent_of b)
         else None)"

definition py_float :: "string \<Rightarrow> pyfloat option" where
  "py_float text =
     (let (neg, body) = signed (strip_of py_space text); b = lower body in
      if b \<in> {''inf'', ''infinity''} then Some (Infinite neg)
      else if b = ''nan'' then Some NaN
      else map_option (\<lambda>v. if v \<ge> DOUBLE_LIMIT then Infinite neg else Fin (if neg then - v else v))
             (decimal b))"

subsection \<open>The format :g\<close>

text \<open>The decimal exponent of a positive number: \<open>10 ^ e \<le> x < 10 ^ (e + 1)\<close>.\<close>

function dec_exp :: "rat \<Rightarrow> int" where
  "dec_exp x = (if x \<ge> 10 then dec_exp (x / 10) + 1
                else if 0 < x \<and> x < 1 then dec_exp (x * 10) - 1 else 0)"
  by pat_completeness auto
termination
proof (relation "measures [\<lambda>x :: rat. if x < 1 then nat \<lceil>1 / x\<rceil> else 0, \<lambda>x. nat \<lfloor>x\<rfloor>]", goal_cases)
  case 1
  then show ?case by simp
next
  case (2 x)
  have "\<lfloor>x / 10\<rfloor> < \<lfloor>x\<rfloor>" using 2 by linarith
  with 2 show ?case by (auto simp: nat_less_eq_zless)
next
  case (3 x)
  then have x: "0 < x" "x < 1" by auto
  have "nat \<lceil>1 / (x * 10)\<rceil> < nat \<lceil>1 / x\<rceil>" if "x * 10 < 1"
  proof -
    have "10 < 1 / x" using x that by (simp add: field_simps)
    moreover have "1 / (x * 10) = (1 / x) / 10" by simp
    ultimately have "\<lceil>1 / (x * 10)\<rceil> < \<lceil>1 / x\<rceil>" and "0 < \<lceil>1 / x\<rceil>" by linarith+
    then show ?thesis by simp
  qed
  with x show ?case by auto
qed

declare dec_exp.simps [simp del]

text \<open>To the nearest integer, to the even one of two, as \<open>printf\<close> rounds.\<close>

definition round_half_even :: "rat \<Rightarrow> int" where
  "round_half_even x = (let f = \<lfloor>x\<rfloor>; d = x - of_int f in
     if d < 1 / 2 then f else if d > 1 / 2 then f + 1 else if even f then f else f + 1)"

definition point :: "string \<Rightarrow> string \<Rightarrow> string" where
  "point ip fp = (let f = rstrip_of {CHR ''0''} fp in if f = [] then ip else ip @ ''.'' @ f)"

text \<open>\<open>f"{x:g}"\<close> for \<open>x \<ge> 0\<close>: six significant digits, no trailing zeros.\<close>

definition fmt_g :: "rat \<Rightarrow> string" where
  "fmt_g x =
     (if x \<le> 0 then ''0''
      else let e0 = dec_exp x;
               m0 = nat (round_half_even (x * ten_power (5 - e0)));
               (m, e) = (if m0 = 1000000 then (100000, e0 + 1) else (m0, e0));
               ds = show_nat m
           in if 0 \<le> e \<and> e < 6 then point (take (nat e + 1) ds) (drop (nat e + 1) ds)
              else if - 4 \<le> e \<and> e < 0 then point ''0'' (replicate (nat (- e) - 1) (CHR ''0'') @ ds)
              else point (take 1 ds) (drop 1 ds) @ ''e''
                @ (if e < 0 then ''-'' else ''+'')
                @ (if \<bar>e\<bar> < 10 then ''0'' else []) @ show_nat (nat \<bar>e\<bar>))"

subsection \<open>Whole numbers survive the round trip\<close>

lemma length_show_nat: "n < 10 ^ k \<Longrightarrow> 0 < k \<Longrightarrow> length (show_nat n) \<le> k"
proof (induction n arbitrary: k rule: show_nat.induct)
  case (1 n)
  show ?case
  proof (cases "n < 10")
    case True
    with "1.prems" show ?thesis by (simp add: show_nat.simps [of n])
  next
    case False
    then obtain j where k: "k = Suc j" "0 < j"
      using "1.prems" by (cases k; cases "k - 1") auto
    with False "1.prems" have "length (show_nat (n div 10)) \<le> j" by (intro "1.IH") auto
    with False k show ?thesis by (simp add: show_nat.simps [of n])
  qed
qed

lemma digit_char_0: "digit_char 0 = CHR ''0''"
  by code_simp

lemma show_nat_times_ten: "0 < n \<Longrightarrow> show_nat (n * 10) = show_nat n @ ''0''"
  by (subst show_nat.simps) (simp add: digit_char_0)

lemma show_nat_shift: "0 < n \<Longrightarrow> show_nat (n * 10 ^ k) = show_nat n @ replicate k (CHR ''0'')"
proof (induction k)
  case (Suc k)
  have "show_nat (n * 10 ^ Suc k) = show_nat (n * 10 ^ k) @ ''0''"
    using show_nat_times_ten [of "n * 10 ^ k"] Suc.prems by (simp add: ac_simps)
  with Suc show ?case by (simp add: replicate_append_same)
qed simp

lemma length_show_nat_eq: "10 ^ k \<le> n \<Longrightarrow> n < 10 ^ Suc k \<Longrightarrow> length (show_nat n) = Suc k"
proof (induction k arbitrary: n)
  case 0
  then show ?case by (subst show_nat.simps) simp
next
  case (Suc k)
  then have "length (show_nat (n div 10)) = Suc k" by (intro Suc.IH) auto
  moreover have "\<not> n < 10"
  proof -
    have "(10 :: nat) \<le> 10 ^ Suc k" by simp
    with Suc.prems show ?thesis by linarith
  qed
  ultimately show ?case by (simp add: show_nat.simps [of n])
qed

lemma dec_exp_range: "10 ^ k \<le> x \<Longrightarrow> x < 10 ^ Suc k \<Longrightarrow> dec_exp x = int k"
proof (induction k arbitrary: x)
  case 0
  then show ?case by (subst dec_exp.simps) simp
next
  case (Suc k)
  then have "dec_exp (x / 10) = int k" by (intro Suc.IH) (simp_all add: field_simps)
  moreover have "10 \<le> x"
  proof -
    have "(10 :: rat) \<le> 10 ^ Suc k" using one_le_power [of "10 :: rat" k] by simp
    with Suc.prems show ?thesis by linarith
  qed
  ultimately show ?case by (simp add: dec_exp.simps [of x])
qed

lemma decade: "0 < n \<Longrightarrow> n < 10 ^ Suc j \<Longrightarrow> \<exists>k \<le> j. 10 ^ k \<le> n \<and> n < (10 :: nat) ^ Suc k"
proof (induction j)
  case (Suc j)
  then show ?case by (cases "n < 10 ^ Suc j") (auto simp: not_less intro: le_SucI)
qed auto

lemma round_half_even_int [simp]: "round_half_even (of_int i) = i"
  by (simp add: round_half_even_def)

lemma rstrip_zeros: "rstrip_of {CHR ''0''} (replicate k (CHR ''0'')) = []"
  by (simp add: rstrip_of_def dropWhile_eq_Nil_conv)

lemma fmt_g_nat:
  assumes "0 < n" "n < 1000000"
  shows "fmt_g (of_nat n) = show_nat n"
proof -
  obtain k where k: "k \<le> 5" "10 ^ k \<le> n" "n < 10 ^ Suc k"
    using decade [of n 5] assms by auto
  have e: "dec_exp (of_nat n) = int k"
  proof (rule dec_exp_range)
    show "(10 :: rat) ^ k \<le> of_nat n" using k(2) by (metis of_nat_le_iff of_nat_numeral of_nat_power)
    show "(of_nat n :: rat) < 10 ^ Suc k" using k(3) by (metis of_nat_less_iff of_nat_numeral of_nat_power)
  qed
  have "(of_nat n :: rat) * ten_power (5 - int k) = of_int (int (n * 10 ^ (5 - k)))"
    using k(1) by (simp add: ten_power_def nat_diff_distrib')
  then have m: "nat (round_half_even (of_nat n * ten_power (5 - int k))) = n * 10 ^ (5 - k)"
    by (simp only: round_half_even_int nat_int)
  have "n * 10 ^ (5 - k) < 10 ^ Suc k * 10 ^ (5 - k)" using k(3) by simp
  also have "\<dots> = 1000000" using k(1) by (simp flip: power_add)
  finally have small: "n * 10 ^ (5 - k) \<noteq> 1000000" by simp
  have len: "length (show_nat n) = Suc k" using k(2,3) by (rule length_show_nat_eq)
  show ?thesis
    using assms(1) k(1) small len
    by (simp add: fmt_g_def e m show_nat_shift point_def rstrip_zeros)
qed

lemma digit_facts:
  assumes "is_digit c"
  shows "c \<notin> py_space" "lower_char c = c" "c \<noteq> CHR ''-''" "c \<noteq> CHR ''+''" "c \<noteq> CHR ''e''"
    "c \<noteq> CHR ''.''" "c \<noteq> CHR ''_''" "c \<noteq> CHR ''i''" "c \<noteq> CHR ''n''"
proof -
  have r: "48 \<le> (of_char c :: nat)" "(of_char c :: nat) \<le> 57"
    using assms by (simp_all add: is_digit_def less_eq_char_def)
  show "c \<notin> py_space" using r by (auto simp: py_space_def of_char_of)
  show "lower_char c = c" using r by (simp add: lower_char_def less_eq_char_def)
  show "c \<noteq> CHR ''-''" "c \<noteq> CHR ''+''" "c \<noteq> CHR ''e''" "c \<noteq> CHR ''.''" "c \<noteq> CHR ''_''"
    "c \<noteq> CHR ''i''" "c \<noteq> CHR ''n''"
    using r by auto
qed

lemma strip_digits: "list_all is_digit s \<Longrightarrow> strip_of py_space s = s"
proof -
  assume s: "list_all is_digit s"
  then have "dropWhile (\<lambda>c. c \<in> py_space) t = t" if "set t \<subseteq> set s" for t
    using that by (cases t) (auto simp: list_all_iff digit_facts)
  then show ?thesis by (simp add: strip_of_def lstrip_of_def rstrip_of_def)
qed

lemma decimal_digits:
  assumes "list_all is_digit s" "s \<noteq> []"
  shows "decimal s = Some (of_nat (digits_value s))"
proof -
  have no: "CHR ''e'' \<notin> set s" "CHR ''.'' \<notin> set s" "CHR ''_'' \<notin> set s"
    using assms(1) by (auto simp: list_all_iff dest: digit_facts)
  have part: "partition_at c s = (s, [])" if "c \<notin> set s" for c
  proof -
    have d: "dropWhile (\<lambda>x. x \<noteq> c) s = []" and tk: "takeWhile (\<lambda>x. x \<noteq> c) s = s"
      using that by (auto simp: dropWhile_eq_Nil_conv takeWhile_eq_all_conv)
    show ?thesis by (simp only: partition_at_def d tk drop_Nil)
  qed
  have "digits_of s = s" using no(3) by (auto simp: digits_of_def filter_id_conv)
  then show ?thesis
    using assms no by (simp add: decimal_def part exponent_of_def digit_part_def split_on_no_sep_id
        ten_power_def digits_of_def)
qed

lemma py_float_digits:
  assumes s: "list_all is_digit s" "s \<noteq> []" and v: "digits_value s < 1000000"
  shows "py_float s = Some (Fin (of_nat (digits_value s)))"
proof -
  obtain c cs where c: "s = c # cs" "is_digit c" using s by (cases s) auto
  have low: "lower s = s"
    using s(1) by (auto simp: lower_def list_all_iff digit_facts intro: map_idI)
  have "s \<notin> {''inf'', ''infinity''}" "s \<noteq> ''nan''"
    using c by (auto dest: digit_facts)
  moreover have "(of_nat (digits_value s) :: rat) < DOUBLE_LIMIT"
  proof -
    have "(of_nat (digits_value s) :: rat) < of_nat 1000000" using v by (simp only: of_nat_less_iff)
    also have "\<dots> \<le> DOUBLE_LIMIT" by (simp add: DOUBLE_LIMIT_def)
    finally show ?thesis .
  qed
  moreover have "signed s = (False, s)"
    using c digit_facts(3,4) [OF c(2)] by (simp add: signed_def)
  ultimately show ?thesis
    using low s by (simp add: py_float_def strip_digits decimal_digits Let_def)
qed

theorem py_float_fmt_g:
  assumes "0 < n" "n < 1000000"
  shows "py_float (fmt_g (of_nat n)) = Some (Fin (of_nat n))"
  using assms py_float_digits [of "show_nat n"] set_show_nat
  by (simp add: fmt_g_nat list_all_iff)

subsection \<open>Truncation\<close>

text \<open>\<open>int(x)\<close> of a float: towards zero.\<close>

definition trunc :: "rat \<Rightarrow> int" where
  "trunc x = (if 0 \<le> x then \<lfloor>x\<rfloor> else \<lceil>x\<rceil>)"

lemma trunc_mono: "x \<le> y \<Longrightarrow> trunc x \<le> trunc y"
proof -
  assume le: "x \<le> y"
  have "\<lceil>x\<rceil> \<le> \<lfloor>y\<rfloor>" if "x < 0" "0 \<le> y"
  proof -
    have "\<lceil>x\<rceil> \<le> 0" using that(1) by (simp add: ceiling_le_iff)
    also have "0 \<le> \<lfloor>y\<rfloor>" using that(2) by simp
    finally show ?thesis .
  qed
  with le show ?thesis by (auto simp: trunc_def intro: floor_mono ceiling_mono)
qed

end
