(* ===== verification/Gateway_Objects.thy ===== *)
theory Gateway_Objects
  imports Gateway_Identity Py_Numbers
begin

text \<open>
  The objects the Ray gateway reads and makes (\<open>src/apps/ray-train/gateway.py\<close>): GPU flavors, the
  shape of a cluster, the templates of pods and worker groups, RayClusters and RayJobs, with the
  functions that build them and read them back. An object of Kubernetes is a record of the fields
  the gateway uses; a field it reads with \<open>get\<close> and a default is an option or a dictionary.
\<close>

subsection \<open>Flavors and shapes\<close>

record flavor =
  resource :: string
  memory :: rat
  budget :: nat
  per_worker_max :: nat

text \<open>\<open>Flavor.group\<close>: what follows the last slash of the resource, its other characters hyphens.\<close>

definition flavor_group :: "flavor \<Rightarrow> string" where
  "flavor_group f = squash (last (split_on (CHR ''/'') (resource f)))"

text \<open>The flavors of \<open>config.yaml\<close>.\<close>

definition FLAVORS :: "flavor list" where
  "FLAVORS =
     [\<lparr>resource = ''nvidia.com/mig-1g.5gb'', memory = 5, budget = 14, per_worker_max = 1\<rparr>,
      \<lparr>resource = ''nvidia.com/gpu'', memory = 16, budget = 8, per_worker_max = 2\<rparr>]"

record shape =
  sh_env :: string
  sh_workers :: string
  sh_memory :: string
  sh_cpus :: string
  sh_ram :: string
  sh_per_worker :: string
  sh_least :: string
  sh_site :: string

text \<open>
  The numbers a shape keeps as text. \<open>Shape.flavors\<close> raises \<open>ValueError\<close> on a shape whose texts are
  no numbers, which is \<open>None\<close>.
\<close>

definition int_of :: "string \<Rightarrow> nat option" where
  "int_of s = (if s \<noteq> [] \<and> list_all is_digit s then Some (digits_value s) else None)"

definition float_of :: "string \<Rightarrow> rat option" where
  "float_of s = (case py_float s of Some (Fin r) \<Rightarrow> Some r | _ \<Rightarrow> None)"

definition shape_flavors :: "flavor list \<Rightarrow> shape \<Rightarrow> flavor list option" where
  "shape_flavors fl s = (case (float_of (sh_memory s), int_of (sh_per_worker s)) of
     (Some m, Some p) \<Rightarrow> Some (filter (\<lambda>f. memory f \<ge> m \<and> per_worker_max f \<ge> p) fl)
   | _ \<Rightarrow> None)"

subsection \<open>Pods, worker groups, clusters\<close>

datatype amount = AInt nat | AStr string

fun amount_int :: "amount \<Rightarrow> nat" where
  "amount_int (AInt n) = n"
| "amount_int (AStr s) = digits_value s"

record volume =
  vol_name :: string
  vol_empty_dir :: bool
  vol_claim :: "string option"

record mount =
  mnt_name :: string
  mnt_path :: string

record container =
  c_env :: "(string \<times> string) list"
  c_resources :: "(string, (string, amount) dict) dict"
  c_mounts :: "mount list"

record pod_template =
  p_labels :: "(string, string) dict"
  p_run_as :: "(int \<times> int) option"
  p_priority :: "string option"
  p_volumes :: "volume list"
  p_containers :: "container list"

record worker_group =
  g_name :: string
  g_replicas :: nat
  g_min :: nat
  g_max :: nat
  g_suspend :: bool
  g_template :: pod_template

record cluster_spec =
  s_secret :: string
  s_head :: pod_template
  s_groups :: "worker_group list"

record cluster =
  k_name :: string
  k_uid :: string
  k_labels :: "(string, string) dict"
  k_annotations :: "(string, string) dict"
  k_created :: time
  k_deleting :: bool
  k_conditions :: "(string \<times> string) list"
  k_ready_workers :: nat
  k_spec :: cluster_spec

subsection \<open>Building a cluster\<close>

definition MANAGED_BY :: string where "MANAGED_BY = ''ray-train-gateway''"
definition managed_by_label :: string where "managed_by_label = ''app.kubernetes.io/managed-by''"
definition PART_OF :: string where "PART_OF = ''app.kubernetes.io/part-of''"
definition PREEMPTIBLE_PRIORITY_CLASS :: string where
  "PREEMPTIBLE_PRIORITY_CLASS = ''medium-priority-preemptible''"
definition MOST_VARIABLE :: string where "MOST_VARIABLE = ''AF_MAX_WORKERS''"

definition shape_annotations :: "shape \<Rightarrow> (string, string) dict" where
  "shape_annotations s =
     [(''purdue-af/ray-env'', sh_env s), (''purdue-af/ray-workers'', sh_workers s),
      (''purdue-af/ray-gpu-memory'', sh_memory s), (''purdue-af/ray-worker-cpus'', sh_cpus s),
      (''purdue-af/ray-worker-memory'', sh_ram s), (''purdue-af/ray-gpus-per-worker'', sh_per_worker s),
      (''purdue-af/ray-min-workers'', sh_least s)]"

text \<open>\<open>cluster_shape\<close>: the shape the annotations keep; the site is the default, Purdue.\<close>

definition cluster_shape :: "cluster \<Rightarrow> shape" where
  "cluster_shape c = (let g = (\<lambda>key. dict_get (k_annotations c) key []) in
     \<lparr>sh_env = g ''purdue-af/ray-env'', sh_workers = g ''purdue-af/ray-workers'',
      sh_memory = g ''purdue-af/ray-gpu-memory'', sh_cpus = g ''purdue-af/ray-worker-cpus'',
      sh_ram = g ''purdue-af/ray-worker-memory'', sh_per_worker = g ''purdue-af/ray-gpus-per-worker'',
      sh_least = g ''purdue-af/ray-min-workers'', sh_site = ''purdue''\<rparr>)"

definition set_amounts :: "(string \<times> amount) list \<Rightarrow> container \<Rightarrow> container" where
  "set_amounts new c = c\<lparr>c_resources := map (\<lambda>(k, a). (k, dict_updates a new)) (c_resources c)\<rparr>"

definition user_env :: "user \<Rightarrow> shape \<Rightarrow> container \<Rightarrow> container" where
  "user_env u s c = c\<lparr>c_env :=
     map (\<lambda>(n, v). (n, if n = ''PATH'' then sh_env s @ ''/bin:'' @ v else v)) (c_env c)
     @ [(''CONDA_PREFIX'', sh_env s), (''USER'', user_account u), (MOST_VARIABLE, sh_workers s)]\<rparr>"

definition user_pod :: "user \<Rightarrow> shape \<Rightarrow> pod_template \<Rightarrow> pod_template" where
  "user_pod u s p = p\<lparr>p_run_as := Some (user_uid u, user_gid u),
     p_containers := map (user_env u s) (p_containers p)\<rparr>"

definition gpu_amounts :: "flavor list \<Rightarrow> flavor \<Rightarrow> nat \<Rightarrow> (string, amount) dict \<Rightarrow> (string, amount) dict" where
  "gpu_amounts fl f n a =
     AList.update (resource f) (AInt n) (foldl (\<lambda>d other. AList.delete (resource other) d) a fl)"

definition worker_group_of :: "flavor list \<Rightarrow> worker_group \<Rightarrow> flavor \<Rightarrow> nat \<Rightarrow> nat \<Rightarrow> bool \<Rightarrow> worker_group" where
  "worker_group_of fl g f per_worker replicas preemptible =
     g\<lparr>g_name := flavor_group f @ (if preemptible then ''-preemptible'' else []),
       g_replicas := replicas, g_min := replicas, g_max := replicas,
       g_template := (g_template g)\<lparr>
         p_priority := (if preemptible then Some PREEMPTIBLE_PRIORITY_CLASS else p_priority (g_template g)),
         p_containers := map (\<lambda>c. c\<lparr>c_resources :=
             map (\<lambda>(k, a). (k, gpu_amounts fl f per_worker a)) (c_resources c)\<rparr>)
           (p_containers (g_template g))\<rparr>\<rparr>"

text \<open>
  The loop over the flavors: of each, first the workers kept from preemption (one in all), then
  the rest, a group of each kind that has any. \<open>kept\<close> is how many of the former are left.
\<close>

fun worker_groups :: "flavor list \<Rightarrow> worker_group \<Rightarrow> nat \<Rightarrow> (string, nat) dict \<Rightarrow> nat \<Rightarrow> flavor list
    \<Rightarrow> worker_group list" where
  "worker_groups fl g per_worker mix kept [] = []"
| "worker_groups fl g per_worker mix kept (f # fs) =
     (let workers = dict_get mix (resource f) 0 in
        (if min kept workers > 0 then [worker_group_of fl g f per_worker (min kept workers) False] else [])
      @ (if workers > kept then [worker_group_of fl g f per_worker (workers - kept) True] else [])
      @ worker_groups fl g per_worker mix (kept - workers) fs)"

text \<open>
  The template has one worker group, else unpacking it raises. \<open>per_worker\<close> is \<open>int(shape.per_worker)\<close>.
\<close>

definition build_cluster :: "(string \<Rightarrow> string) \<Rightarrow> flavor list \<Rightarrow> cluster \<Rightarrow> user \<Rightarrow> shape \<Rightarrow> (string, nat) dict
    \<Rightarrow> cluster option" where
  "build_cluster sha fl tmpl u s mix = (case (s_groups (k_spec tmpl), int_of (sh_per_worker s)) of
     ([g0], Some per_worker) \<Rightarrow>
       let g1 = g0\<lparr>g_template := (g_template g0)\<lparr>p_containers :=
                  map (set_amounts [(''cpu'', AStr (sh_cpus s)), (''memory'', AStr (sh_ram s @ ''Gi''))])
                    (p_containers (g_template g0))\<rparr>\<rparr>;
           g = g1\<lparr>g_template := user_pod u s (g_template g1)\<rparr>
       in Some (tmpl\<lparr>k_name := user_cluster sha u,
            k_labels := AList.update managed_by_label MANAGED_BY (k_labels tmpl),
            k_annotations := dict_updates (k_annotations tmpl) (shape_annotations s),
            k_spec := (k_spec tmpl)\<lparr>s_secret := user_cluster sha u,
              s_head := user_pod u s (s_head (k_spec tmpl)),
              s_groups := worker_groups fl g per_worker mix 1 fl\<rparr>\<rparr>)
   | _ \<Rightarrow> None)"

subsection \<open>Reading a cluster back\<close>

definition container_limits :: "container \<Rightarrow> (string, amount) dict" where
  "container_limits c = dict_get (c_resources c) ''limits'' []"

definition held_container :: "flavor list \<Rightarrow> nat \<Rightarrow> (string, nat) dict \<Rightarrow> container \<Rightarrow> (string, nat) dict" where
  "held_container fl replicas held c =
     foldl (\<lambda>h f. case map_of (container_limits c) (resource f) of None \<Rightarrow> h
       | Some a \<Rightarrow> AList.update (resource f) (dict_get h (resource f) 0 + replicas * amount_int a) h) held fl"

definition held_gpus :: "flavor list \<Rightarrow> cluster \<Rightarrow> (string, nat) dict" where
  "held_gpus fl c = foldl (\<lambda>h g. foldl (held_container fl (g_replicas g)) h (p_containers (g_template g)))
     [] (s_groups (k_spec c))"

definition live :: "cluster option \<Rightarrow> bool" where
  "live c \<longleftrightarrow> (case c of None \<Rightarrow> False | Some k \<Rightarrow> \<not> k_deleting k)"

definition head_ready :: "cluster \<Rightarrow> bool" where
  "head_ready c \<longleftrightarrow> (''HeadPodReady'', ''True'') \<in> set (k_conditions c)"

definition PROVISION_TIMEOUT_S :: time where "PROVISION_TIMEOUT_S = 600"

definition unprovisioned :: "cluster \<Rightarrow> time \<Rightarrow> bool" where
  "unprovisioned c now \<longleftrightarrow>
     (if k_deleting c \<or> (''RayClusterProvisioned'', ''False'') \<notin> set (k_conditions c) then False
      else now - k_created c \<ge> PROVISION_TIMEOUT_S)"

definition runs :: "cluster \<Rightarrow> shape \<Rightarrow> bool" where
  "runs c s \<longleftrightarrow> live (Some c) \<and> cluster_shape c = s"

definition spec_owner :: "cluster_spec \<Rightarrow> string" where
  "spec_owner s = dict_get (p_labels (s_head s)) PART_OF []"

definition cluster_owner :: "cluster \<Rightarrow> string" where
  "cluster_owner c = spec_owner (k_spec c)"

definition refuse_others :: "(string \<Rightarrow> string) \<Rightarrow> cluster \<Rightarrow> user \<Rightarrow> gw_error + unit" where
  "refuse_others sha c u = (if cluster_owner c \<noteq> user_owner u
     then Inl (Refused PERMISSION_DENIED (user_cluster sha u @ '' is someone else's Ray cluster.''))
     else Inr ())"

text \<open>
  \<open>cluster_template\<close>: a workload account's cluster keeps the volumes of \<open>ACCOUNT_KEPT_VOLUMES\<close> and
  mounts the account's own at \<^verbatim>\<open>/<name>\<close>; a Hub user's is the template itself.
\<close>

definition ACCOUNT_KEPT_VOLUMES :: "string set" where
  "ACCOUNT_KEPT_VOLUMES = {''log-volume'', ''cvmfs''}"

definition account_pod :: "user \<Rightarrow> pod_template \<Rightarrow> pod_template" where
  "account_pod u p = p\<lparr>
     p_labels := AList.update PART_OF (user_name u) (p_labels p),
     p_volumes := filter (\<lambda>v. vol_name v \<in> ACCOUNT_KEPT_VOLUMES) (p_volumes p)
       @ [\<lparr>vol_name = user_name u, vol_empty_dir = False, vol_claim = Some (user_name u)\<rparr>],
     p_containers := map (\<lambda>c. c\<lparr>c_mounts :=
       filter (\<lambda>m. mnt_name m \<in> ACCOUNT_KEPT_VOLUMES) (c_mounts c)
       @ [\<lparr>mnt_name = user_name u, mnt_path = CHR ''/'' # user_name u\<rparr>]\<rparr>) (p_containers p)\<rparr>"

definition cluster_template :: "cluster \<Rightarrow> user \<Rightarrow> cluster" where
  "cluster_template tmpl u =
     (if \<not> workload u then tmpl
      else tmpl\<lparr>k_spec := (k_spec tmpl)\<lparr>s_head := account_pod u (s_head (k_spec tmpl)),
             s_groups := map (\<lambda>g. g\<lparr>g_template := account_pod u (g_template g)\<rparr>) (s_groups (k_spec tmpl))\<rparr>\<rparr>)"

text \<open>Where an environment may live: the head has one container, else unpacking it raises (\<open>None\<close>).\<close>

definition env_roots :: "cluster \<Rightarrow> string list option" where
  "env_roots tmpl = (let p = s_head (k_spec tmpl); scratch = map vol_name (filter vol_empty_dir (p_volumes p))
     in case p_containers p of [c] \<Rightarrow>
          Some (map mnt_path (filter (\<lambda>m. mnt_name m \<notin> set scratch) (c_mounts c))) | _ \<Rightarrow> None)"

definition amount_text :: "amount \<Rightarrow> string" where
  "amount_text a = (case a of AInt n \<Rightarrow> show_nat n | AStr s \<Rightarrow> s)"

definition worker_size :: "cluster \<Rightarrow> (string \<times> string) option" where
  "worker_size tmpl = (case s_groups (k_spec tmpl) of [g] \<Rightarrow> (case p_containers (g_template g) of
       [c] \<Rightarrow> (case (map_of (container_limits c) ''cpu'', map_of (container_limits c) ''memory'') of
          (Some a, Some b) \<Rightarrow> Some (amount_text a, removesuffix ''Gi'' (amount_text b)) | _ \<Rightarrow> None)
     | _ \<Rightarrow> None) | _ \<Rightarrow> None)"

subsection \<open>What a cluster holds\<close>

definition container_gpus :: "nat \<Rightarrow> container \<Rightarrow> string \<Rightarrow> nat" where
  "container_gpus n c r = (case map_of (container_limits c) r of None \<Rightarrow> 0 | Some a \<Rightarrow> n * amount_int a)"

definition group_gpus :: "worker_group \<Rightarrow> string \<Rightarrow> nat" where
  "group_gpus g r = (\<Sum>c \<leftarrow> p_containers (g_template g). container_gpus (g_replicas g) c r)"

lemma held_container_other:
  "r \<notin> resource ` set fl \<Longrightarrow> dict_get (held_container fl n h c) r 0 = dict_get h r 0"
  unfolding held_container_def by (induction fl arbitrary: h) (auto split: option.splits)

lemma held_container_get:
  "distinct (map resource fl) \<Longrightarrow> r \<in> resource ` set fl \<Longrightarrow>
   dict_get (held_container fl n h c) r 0 = dict_get h r 0 + container_gpus n c r"
proof (induction fl arbitrary: h)
  case (Cons f fl)
  let ?step = "case map_of (container_limits c) (resource f) of None \<Rightarrow> h
     | Some a \<Rightarrow> AList.update (resource f) (dict_get h (resource f) 0 + n * amount_int a) h"
  have unfold: "held_container (f # fl) n h c = held_container fl n ?step c"
    by (simp add: held_container_def)
  show ?case
  proof (cases "r = resource f")
    case True
    with Cons.prems have "r \<notin> resource ` set fl" by auto
    with True show ?thesis
      unfolding unfold by (auto simp: held_container_other container_gpus_def split: option.splits)
  next
    case False
    with Cons.prems have "dict_get (held_container fl n ?step c) r 0 = dict_get ?step r 0 + container_gpus n c r"
      by (intro Cons.IH) auto
    with False show ?thesis unfolding unfold by (auto split: option.splits)
  qed
qed simp

lemma held_gpus_get:
  assumes "distinct (map resource fl)" "r \<in> resource ` set fl"
  shows "dict_get (held_gpus fl c) r 0 = (\<Sum>g \<leftarrow> s_groups (k_spec c). group_gpus g r)"
proof -
  have cs: "dict_get (foldl (held_container fl n) h cs) r 0
      = dict_get h r 0 + (\<Sum>c \<leftarrow> cs. container_gpus n c r)" for n cs h
    by (induction cs arbitrary: h) (simp_all add: held_container_get [OF assms])
  have "dict_get (foldl (\<lambda>h g. foldl (held_container fl (g_replicas g)) h (p_containers (g_template g))) h gs) r 0
      = dict_get h r 0 + (\<Sum>g \<leftarrow> gs. group_gpus g r)" for gs h
    by (induction gs arbitrary: h) (simp_all add: cs group_gpus_def)
  then show ?thesis by (simp add: held_gpus_def)
qed

lemma map_of_foldl_delete:
  "map_of (foldl (\<lambda>d other. AList.delete (resource other) d) a fl) r
   = (if r \<in> resource ` set fl then None else map_of a r)"
  by (induction fl arbitrary: a) (auto simp: delete_conv')

lemma gpu_amounts_get:
  "f \<in> set fl \<Longrightarrow> r \<in> resource ` set fl \<Longrightarrow>
   map_of (gpu_amounts fl f n a) r = (if r = resource f then Some (AInt n) else None)"
  by (simp add: gpu_amounts_def update_conv' map_of_foldl_delete)

text \<open>A worker of the template is one container with limits: what \<open>raycluster.yaml\<close> has.\<close>

definition one_worker :: "worker_group \<Rightarrow> bool" where
  "one_worker g \<longleftrightarrow> (case p_containers (g_template g) of [c] \<Rightarrow> ''limits'' \<in> fst ` set (c_resources c) | _ \<Rightarrow> False)"

lemma dict_get_mapped:
  "k \<in> fst ` set d \<Longrightarrow> dict_get (map (\<lambda>(k, a). (k, F a)) d) k v = F (dict_get d k v)"
  by (induction d) (auto simp: split_beta, force)

lemma one_worker_gpus:
  assumes "one_worker g" "f \<in> set fl" "r \<in> resource ` set fl"
  shows "group_gpus (worker_group_of fl g f p n pre) r = (if r = resource f then n * p else 0)"
  using assms
  by (auto simp: one_worker_def group_gpus_def worker_group_of_def container_gpus_def container_limits_def
      dict_get_mapped gpu_amounts_get split: list.splits)

lemma worker_groups_gpus:
  assumes "one_worker g" "r \<in> resource ` set fl"
  shows "set fs \<subseteq> set fl \<Longrightarrow> distinct (map resource fs) \<Longrightarrow>
    (\<Sum>g' \<leftarrow> worker_groups fl g p mix kept fs. group_gpus g' r)
      = (if r \<in> resource ` set fs then dict_get mix r 0 * p else 0)"
proof (induction fs arbitrary: kept)
  case (Cons f fs)
  let ?w = "dict_get mix (resource f) 0"
  have IH: "(\<Sum>g' \<leftarrow> worker_groups fl g p mix k fs. group_gpus g' r)
      = (if r \<in> resource ` set fs then dict_get mix r 0 * p else 0)" for k
    using Cons by simp
  have f: "f \<in> set fl" using Cons.prems by simp
  have gg: "group_gpus (worker_group_of fl g f p n pre) r = (if r = resource f then n * p else 0)" for n pre
    by (rule one_worker_gpus [OF assms(1) f assms(2)])
  have same: "group_gpus (worker_group_of fl g f p n pre) (resource f) = n * p" for n pre
    using one_worker_gpus [OF assms(1) f, of "resource f" p n pre] f by simp
  have split: "min kept ?w + (?w - kept) = ?w" by simp
  have "(\<Sum>g' \<leftarrow> worker_groups fl g p mix kept (f # fs). group_gpus g' r)
      = (if r = resource f then (min kept ?w + (?w - kept)) * p else 0)
        + (\<Sum>g' \<leftarrow> worker_groups fl g p mix (kept - ?w) fs. group_gpus g' r)"
    by (simp add: Let_def gg same algebra_simps min_def)
  moreover have "resource f \<notin> resource ` set fs" using Cons.prems by auto
  ultimately show ?case unfolding split IH by auto
qed simp

text \<open>Of all workers, those that give way to no one: one in all.\<close>

definition lasting :: "worker_group \<Rightarrow> nat" where
  "lasting g = (if p_priority (g_template g) = Some PREEMPTIBLE_PRIORITY_CLASS then 0 else g_replicas g)"

lemma worker_groups_lasting:
  assumes "p_priority (g_template g) \<noteq> Some PREEMPTIBLE_PRIORITY_CLASS"
  shows "(\<Sum>g' \<leftarrow> worker_groups fl g p mix kept fs. lasting g')
    = min kept (\<Sum>f \<leftarrow> fs. dict_get mix (resource f) 0)"
proof (induction fs arbitrary: kept)
  case (Cons f fs)
  have "lasting (worker_group_of fl g f p n pre) = (if pre then 0 else n)" for n pre
    using assms by (simp add: lasting_def worker_group_of_def)
  then show ?case by (auto simp: Let_def Cons.IH min_def)
qed simp

lemma worker_groups_replicas:
  "(\<Sum>g' \<leftarrow> worker_groups fl g p mix kept fs. g_replicas g') = (\<Sum>f \<leftarrow> fs. dict_get mix (resource f) 0)"
proof (induction fs arbitrary: kept)
  case (Cons f fs)
  show ?case by (auto simp: Let_def Cons.IH worker_group_of_def min_def)
qed simp

subsection \<open>A built cluster is read back\<close>

lemma dict_get_updates_shape:
  assumes "sh_site s = ''purdue''" "k_annotations c = dict_updates d (shape_annotations s)"
  shows "cluster_shape c = s"
  using assms by (cases s) (simp add: cluster_shape_def shape_annotations_def dict_updates_def Let_def)

lemma one_worker_user_pod:
  "one_worker (g\<lparr>g_template := user_pod u s ((g_template g)\<lparr>p_containers :=
      map (set_amounts new) (p_containers (g_template g))\<rparr>)\<rparr>) = one_worker g"
  by (auto simp: one_worker_def user_pod_def user_env_def set_amounts_def rev_image_eqI
      split: list.splits) force

lemma one_worker_account_pod:
  "one_worker (g\<lparr>g_template := account_pod u (g_template g)\<rparr>) = one_worker g"
  by (auto simp: one_worker_def account_pod_def split: list.splits)

lemma account_pod_priority [simp]: "p_priority (account_pod u p) = p_priority p"
  by (simp add: account_pod_def)

lemma cluster_template_group:
  assumes "s_groups (k_spec (cluster_template tmpl u)) = [g0]"
  obtains g where "s_groups (k_spec tmpl) = [g]" "one_worker g0 = one_worker g"
    "p_priority (g_template g0) = p_priority (g_template g)"
proof (cases "workload u")
  case True
  with assms obtain g where "s_groups (k_spec tmpl) = [g]"
      "g0 = g\<lparr>g_template := account_pod u (g_template g)\<rparr>"
    by (auto simp: cluster_template_def)
  then show ?thesis using that by (simp add: one_worker_account_pod)
next
  case False
  with assms that show ?thesis by (simp add: cluster_template_def)
qed

lemma build_clusterD:
  assumes "build_cluster sha fl tmpl u s mix = Some c"
  obtains g0 g p where "s_groups (k_spec tmpl) = [g0]" "int_of (sh_per_worker s) = Some p"
    "s_groups (k_spec c) = worker_groups fl g p mix 1 fl"
    "one_worker g = one_worker g0" "p_priority (g_template g) = p_priority (g_template g0)"
    "k_name c = user_cluster sha u" "s_secret (k_spec c) = user_cluster sha u"
    "k_annotations c = dict_updates (k_annotations tmpl) (shape_annotations s)"
    "p_labels (s_head (k_spec c)) = p_labels (s_head (k_spec tmpl))"
    "p_run_as (s_head (k_spec c)) = Some (user_uid u, user_gid u)"
  using assms one_worker_user_pod
  by (fastforce simp: build_cluster_def Let_def user_pod_def split: list.splits option.splits)

text \<open>
  C31: a cluster built from its user's template is read back as what was asked for. It has the
  user's name, owner, identity and shape, each of its kinds of GPU in the number the mix gives, and
  of its workers one, the first, that is not preemptible.
\<close>

theorem build_cluster_read_back:
  assumes built: "build_cluster sha fl (cluster_template tmpl u) u s mix = Some c"
    and site: "sh_site s = ''purdue''"
    and fl: "distinct (map resource fl)"
    and tmpl: "map_of (p_labels (s_head (k_spec tmpl))) PART_OF = None"
    "list_all (\<lambda>g. one_worker g \<and> p_priority (g_template g) = None) (s_groups (k_spec tmpl))"
  shows "k_name c = user_cluster sha u \<and> cluster_owner c = user_owner u \<and> cluster_shape c = s
    \<and> p_run_as (s_head (k_spec c)) = Some (user_uid u, user_gid u)
    \<and> (\<forall>f \<in> set fl. dict_get (held_gpus fl c) (resource f) 0
          = dict_get mix (resource f) 0 * the (int_of (sh_per_worker s)))
    \<and> (\<Sum>g \<leftarrow> s_groups (k_spec c). g_replicas g) = (\<Sum>f \<leftarrow> fl. dict_get mix (resource f) 0)
    \<and> (\<Sum>g \<leftarrow> s_groups (k_spec c). lasting g) = min 1 (\<Sum>f \<leftarrow> fl. dict_get mix (resource f) 0)"
proof -
  from built obtain g0 g p where b: "s_groups (k_spec (cluster_template tmpl u)) = [g0]"
    "int_of (sh_per_worker s) = Some p" "s_groups (k_spec c) = worker_groups fl g p mix 1 fl"
    "one_worker g = one_worker g0" "p_priority (g_template g) = p_priority (g_template g0)"
    "k_name c = user_cluster sha u"
    "k_annotations c = dict_updates (k_annotations (cluster_template tmpl u)) (shape_annotations s)"
    "p_labels (s_head (k_spec c)) = p_labels (s_head (k_spec (cluster_template tmpl u)))"
    "p_run_as (s_head (k_spec c)) = Some (user_uid u, user_gid u)"
    by (rule build_clusterD)
  obtain g' where g': "s_groups (k_spec tmpl) = [g']" "one_worker g0 = one_worker g'"
    "p_priority (g_template g0) = p_priority (g_template g')"
    by (rule cluster_template_group [OF b(1)])
  have g: "one_worker g" "p_priority (g_template g) = None"
    using g' tmpl(2) b(4,5) by simp_all
  have "cluster_owner c = user_owner u"
    using tmpl(1) b(8) by (simp add: cluster_owner_def spec_owner_def cluster_template_def account_pod_def
        user_owner_def dict_get_def update_conv')
  moreover have "cluster_shape c = s" using site b(7) by (rule dict_get_updates_shape)
  moreover have "dict_get (held_gpus fl c) (resource f) 0 = dict_get mix (resource f) 0 * p" if "f \<in> set fl" for f
    using that worker_groups_gpus [OF g(1), of "resource f" fl fl p mix 1] fl
    by (simp add: held_gpus_get [OF fl] b(3))
  ultimately show ?thesis
    using b worker_groups_lasting [of g fl p mix 1 fl] worker_groups_replicas [of fl g p mix 1 fl] g(2)
    by simp
qed

definition example_user :: user where
  "example_user = \<lparr>user_name = ''ann'', user_account = ''ann'', user_uid = 501, user_gid = 502,
     session_gpu = False, workload = False\<rparr>"

definition example_shape :: shape where
  "example_shape = \<lparr>sh_env = ''/work/env'', sh_workers = ''3'', sh_memory = ''5'', sh_cpus = ''4'',
     sh_ram = ''8'', sh_per_worker = ''1'', sh_least = ''1'', sh_site = ''purdue''\<rparr>"

definition example_pod :: pod_template where
  "example_pod = \<lparr>p_labels = [], p_run_as = None, p_priority = None,
     p_volumes = [\<lparr>vol_name = ''work'', vol_empty_dir = False, vol_claim = Some ''work''\<rparr>,
       \<lparr>vol_name = ''log-volume'', vol_empty_dir = True, vol_claim = None\<rparr>],
     p_containers = [\<lparr>c_env = [(''PATH'', ''/bin'')],
       c_resources = [(''limits'', [(''cpu'', AInt 4), (''memory'', AStr ''8Gi''), (''nvidia.com/gpu'', AInt 1)])],
       c_mounts = [\<lparr>mnt_name = ''work'', mnt_path = ''/work''\<rparr>, \<lparr>mnt_name = ''log-volume'', mnt_path = ''/logs''\<rparr>]\<rparr>]\<rparr>"

definition example_template :: cluster where
  "example_template = \<lparr>k_name = [], k_uid = [], k_labels = [], k_annotations = [], k_created = 0,
     k_deleting = False, k_conditions = [], k_ready_workers = 0,
     k_spec = \<lparr>s_secret = [], s_head = example_pod,
       s_groups = [\<lparr>g_name = ''workers'', g_replicas = 0, g_min = 0, g_max = 0, g_suspend = False,
         g_template = example_pod\<rparr>]\<rparr>\<rparr>"

theorem build_cluster_read_back_witness:
  "\<exists>c. build_cluster (\<lambda>s. s) FLAVORS (cluster_template example_template example_user) example_user
         example_shape [(''nvidia.com/mig-1g.5gb'', 2), (''nvidia.com/gpu'', 1)] = Some c
     \<and> dict_get (held_gpus FLAVORS c) ''nvidia.com/mig-1g.5gb'' 0 = 2
     \<and> (\<Sum>g \<leftarrow> s_groups (k_spec c). lasting g) = 1 \<and> cluster_shape c = example_shape"
proof -
  let ?mix = "[(''nvidia.com/mig-1g.5gb'', 2), (''nvidia.com/gpu'', 1)] :: (string, nat) dict"
  let ?t = "cluster_template example_template example_user"
  obtain c where c: "build_cluster (\<lambda>s. s) FLAVORS ?t example_user example_shape ?mix = Some c"
    by (simp add: build_cluster_def cluster_template_def example_template_def example_user_def
        example_shape_def int_of_def py_simps Let_def less_eq_char_def)
  have per: "int_of (sh_per_worker example_shape) = Some 1" by code_simp
  have "k_name c = user_cluster (\<lambda>s. s) example_user \<and> cluster_owner c = user_owner example_user
    \<and> cluster_shape c = example_shape
    \<and> p_run_as (s_head (k_spec c)) = Some (user_uid example_user, user_gid example_user)
    \<and> (\<forall>f \<in> set FLAVORS. dict_get (held_gpus FLAVORS c) (resource f) 0
          = dict_get ?mix (resource f) 0 * the (int_of (sh_per_worker example_shape)))
    \<and> (\<Sum>g \<leftarrow> s_groups (k_spec c). g_replicas g) = (\<Sum>f \<leftarrow> FLAVORS. dict_get ?mix (resource f) 0)
    \<and> (\<Sum>g \<leftarrow> s_groups (k_spec c). lasting g) = min 1 (\<Sum>f \<leftarrow> FLAVORS. dict_get ?mix (resource f) 0)"
    by (rule build_cluster_read_back [OF c])
       (simp_all add: example_shape_def example_template_def example_pod_def FLAVORS_def one_worker_def)
  with c per show ?thesis by (auto simp: FLAVORS_def)
qed

end
