(* ===== verification/NRP_Gpus.thy ===== *)
theory NRP_Gpus
  imports Py_Numbers
begin

text \<open>
  \<open>src/apps/ray-train/nrp_gpus.py\<close>: from the samples of NRP's Prometheus, how many Ray workers of
  a size fit on each GPU model now and on empty nodes, and the models with the memory a job asks
  for. A sample is its labels and its value; what the queries select is Prometheus's part.
\<close>

type_synonym sample = "(string, string) dict \<times> rat"

record nworker =
  w_gpus :: int
  w_cpus :: rat
  w_memory_gb :: rat

record gpu_model =
  m_memory_gb :: "rat option"
  m_gpus :: int
  m_free_gpus :: int
  m_workers :: int
  m_workers_empty :: int

record nrp_room =
  room_workers :: int
  room_workers_empty :: int
  room_models :: "string list option"

definition GPU :: string where "GPU = ''nvidia_com_gpu''"

definition new_model :: gpu_model where
  "new_model = \<lparr>m_memory_gb = None, m_gpus = 0, m_free_gpus = 0, m_workers = 0, m_workers_empty = 0\<rparr>"

type_synonym amounts = "(string, rat) dict"

text \<open>
  \<open>d[node][resource] += value\<close> on a defaultdict of defaultdicts. A sample without one of the labels
  raises \<open>KeyError\<close>; the requested samples without a node are left out first.
\<close>

definition add_sample :: "(string, amounts) dict \<Rightarrow> sample \<Rightarrow> (string, amounts) dict" where
  "add_sample d s = (let node = dict_get (fst s) ''node'' []; res = dict_get (fst s) ''resource'' [];
       inner = dict_get d node []
     in AList.update node (AList.update res (dict_get inner res 0 + snd s) inner) d)"

definition free_by_node :: "sample list \<Rightarrow> sample list \<Rightarrow> sample list
    \<Rightarrow> (string, amounts) dict \<times> (string, amounts) dict \<times> string list" where
  "free_by_node allocatable requested unschedulable =
     (foldl add_sample [] allocatable,
      foldl add_sample [] (filter (\<lambda>s. map_of (fst s) ''node'' \<noteq> None) requested),
      map (\<lambda>s. dict_get (fst s) ''node'' []) unschedulable)"

definition fitting :: "amounts \<Rightarrow> amounts \<Rightarrow> nworker \<Rightarrow> int" where
  "fitting has held w =
     (let gpus = trunc (dict_get has GPU 0 - dict_get held GPU 0);
          cpus = dict_get has ''cpu'' 0 - dict_get held ''cpu'' 0;
          memory_gb = (dict_get has ''memory'' 0 - dict_get held ''memory'' 0) / 2 ^ 30
      in max (min (gpus div w_gpus w) (min \<lfloor>cpus / w_cpus w\<rfloor> \<lfloor>memory_gb / w_memory_gb w\<rfloor>)) 0)"

definition set_memory :: "(string, gpu_model) dict \<Rightarrow> sample \<Rightarrow> (string, gpu_model) dict" where
  "set_memory out s = (let name = dict_get (fst s) ''modelName'' []; m = dict_get out name new_model
     in AList.update name (m\<lparr>m_memory_gb := Some (snd s * 2 ^ 20 / 1000000000)\<rparr>) out)"

definition add_node :: "(string, string) dict \<Rightarrow> (string, amounts) dict \<Rightarrow> string list \<Rightarrow> nworker
    \<Rightarrow> (string, gpu_model) dict \<Rightarrow> string \<times> amounts \<Rightarrow> (string, gpu_model) dict" where
  "add_node model_of held shut w out nh = (let (node, has) = nh;
       name = dict_get model_of node [];
       m = dict_get out name new_model;
       m1 = m\<lparr>m_gpus := m_gpus m + trunc (dict_get has GPU 0)\<rparr>;
       on = dict_get held node [];
       m2 = (if node \<in> set shut then m1
             else m1\<lparr>m_free_gpus := m_free_gpus m1 + max (trunc (dict_get has GPU 0 - dict_get on GPU 0)) 0,
                     m_workers := m_workers m1 + fitting has on w,
                     m_workers_empty := m_workers_empty m1 + fitting has [] w\<rparr>)
     in AList.update name m2 out)"

definition by_model :: "sample list \<Rightarrow> sample list \<Rightarrow> sample list \<Rightarrow> sample list \<Rightarrow> sample list \<Rightarrow> nworker
    \<Rightarrow> (string, gpu_model) dict" where
  "by_model allocatable requested unschedulable models memory w =
     (let (free, held, shut) = free_by_node allocatable requested unschedulable;
          model_of = foldl (\<lambda>d s. AList.update (dict_get (fst s) ''Hostname'' []) (dict_get (fst s) ''modelName'' []) d)
                       [] models;
          out = foldl (add_node model_of held shut w) (foldl set_memory [] memory) free
      in filter (\<lambda>(n, m). m_gpus m \<noteq> 0) (sort_key fst out))"

definition MEMORY_SLACK :: rat where "MEMORY_SLACK = 95 / 100"

definition with_memory :: "(string, gpu_model) dict \<Rightarrow> rat \<Rightarrow> string list option" where
  "with_memory models memory_gb =
     (if memory_gb = 0 then None
      else Some (map fst (filter (\<lambda>(name, m). name \<noteq> [] \<and> (case m_memory_gb m of None \<Rightarrow> False
         | Some g \<Rightarrow> g \<ge> memory_gb * MEMORY_SLACK)) models)))"

definition room :: "(string, gpu_model) dict \<Rightarrow> rat \<Rightarrow> nrp_room" where
  "room models memory_gb =
     (let allowed = with_memory models memory_gb;
          held = map snd (filter (\<lambda>(name, m). case allowed of None \<Rightarrow> True | Some a \<Rightarrow> name \<in> set a) models)
      in \<lparr>room_workers = (\<Sum>m \<leftarrow> held. m_workers m), room_workers_empty = (\<Sum>m \<leftarrow> held. m_workers_empty m),
          room_models = allowed\<rparr>)"

definition product_of :: "string \<Rightarrow> string" where
  "product_of model = map (\<lambda>c. if c = CHR '' '' then CHR ''-'' else c) model"

subsection \<open>Workers that fit\<close>

lemma fitting_nonneg: "0 \<le> fitting has held w"
  by (simp add: fitting_def Let_def)

lemma le_div_iff_mult: "0 < (w :: int) \<Longrightarrow> n \<le> g div w \<longleftrightarrow> n * w \<le> g"
proof
  assume w: "0 < w" and n: "n \<le> g div w"
  have "n * w \<le> (g div w) * w" using n w by (simp add: mult_right_mono)
  also have "\<dots> \<le> g"
    using div_mult_mod_eq [of g w] pos_mod_sign [OF w, of g] by linarith
  finally show "n * w \<le> g" .
next
  assume w: "0 < w" and n: "n * w \<le> g"
  then show "n \<le> g div w" using zdiv_mono1 [OF n w] by simp
qed

definition amounts_nonneg :: "amounts \<Rightarrow> bool" where
  "amounts_nonneg d \<longleftrightarrow> (\<forall>r. 0 \<le> dict_get d r 0)"

lemma fitting_mono:
  assumes w: "0 < w_gpus w" "0 < w_cpus w" "0 < w_memory_gb w" and h: "amounts_nonneg held"
  shows "fitting has held w \<le> fitting has [] w"
proof -
  have held: "dict_get has r 0 - dict_get held r 0 \<le> dict_get has r 0" for r
    using h by (simp add: amounts_nonneg_def)
  have "trunc (dict_get has GPU 0 - dict_get held GPU 0) div w_gpus w \<le> trunc (dict_get has GPU 0) div w_gpus w"
    using trunc_mono [OF held] w(1) by (rule zdiv_mono1)
  moreover have "\<lfloor>(dict_get has ''cpu'' 0 - dict_get held ''cpu'' 0) / w_cpus w\<rfloor> \<le> \<lfloor>dict_get has ''cpu'' 0 / w_cpus w\<rfloor>"
    using w(2) by (intro floor_mono divide_right_mono held) simp
  moreover have "\<lfloor>(dict_get has ''memory'' 0 - dict_get held ''memory'' 0) / 2 ^ 30 / w_memory_gb w\<rfloor>
      \<le> \<lfloor>dict_get has ''memory'' 0 / 2 ^ 30 / w_memory_gb w\<rfloor>"
    using w(3) by (intro floor_mono divide_right_mono held) simp_all
  ultimately show ?thesis
    unfolding fitting_def Let_def dict_get_simps diff_zero by (intro max.mono min.mono order_refl)
qed

lemma held_nonneg:
  assumes "\<forall>s \<in> set samples. 0 \<le> snd s"
  shows "amounts_nonneg (dict_get (foldl add_sample [] samples) node [])"
proof -
  have "amounts_nonneg (dict_get (foldl add_sample d samples) node [])"
    if "\<forall>n. amounts_nonneg (dict_get d n [])" for d
    using assms that
  proof (induction samples arbitrary: d)
    case (Cons s samples)
    have "\<forall>n. amounts_nonneg (dict_get (add_sample d s) n [])"
      using Cons.prems by (auto simp: add_sample_def Let_def amounts_nonneg_def)
    with Cons show ?case by simp
  qed simp
  then show ?thesis by (simp add: amounts_nonneg_def)
qed

definition model_ok :: "gpu_model \<Rightarrow> bool" where
  "model_ok m \<longleftrightarrow> 0 \<le> m_workers m \<and> m_workers m \<le> m_workers_empty m \<and> 0 \<le> m_free_gpus m"

lemma model_ok_new: "model_ok new_model"
  by (simp add: model_ok_def new_model_def)

lemma dict_all_update: "(\<forall>v \<in> snd ` set d. P v) \<Longrightarrow> P x \<Longrightarrow> \<forall>v \<in> snd ` set (AList.update k x d). P v"
  by (induction d) auto

lemma dict_all_get: "(\<forall>v \<in> snd ` set d. P v) \<Longrightarrow> P x \<Longrightarrow> P (dict_get d k x)"
  by (induction d) auto

lemma set_memory_ok: "\<forall>m \<in> snd ` set out. model_ok m \<Longrightarrow> \<forall>m \<in> snd ` set (set_memory out s). model_ok m"
  unfolding set_memory_def Let_def
  by (rule dict_all_update) (use dict_all_get [of out model_ok, OF _ model_ok_new] in \<open>auto simp: model_ok_def\<close>)

lemma add_node_ok:
  assumes w: "0 < w_gpus w" "0 < w_cpus w" "0 < w_memory_gb w"
    and h: "amounts_nonneg (dict_get held node [])" and out: "\<forall>m \<in> snd ` set out. model_ok m"
  shows "\<forall>m \<in> snd ` set (add_node mo held shut w out (node, has)). model_ok m"
proof -
  have "model_ok (dict_get out (dict_get mo node []) new_model)"
    using out model_ok_new by (rule dict_all_get)
  then show ?thesis
    unfolding add_node_def Let_def prod.case using fitting_mono [OF w h, of has] fitting_nonneg [of has]
    by (intro dict_all_update out) (auto simp: model_ok_def intro: add_mono)
qed

lemma by_model_ok:
  assumes w: "0 < w_gpus w" "0 < w_cpus w" "0 < w_memory_gb w" and req: "\<forall>s \<in> set requested. 0 \<le> snd s"
    and m: "(n, m) \<in> set (by_model allocatable requested unschedulable models memory w)"
  shows "model_ok m"
proof -
  let ?held = "foldl add_sample [] (filter (\<lambda>s. map_of (fst s) ''node'' \<noteq> None) requested)"
  have h: "amounts_nonneg (dict_get ?held node [])" for node
    by (rule held_nonneg) (use req in auto)
  have mem: "\<forall>m \<in> snd ` set (foldl set_memory out memory). model_ok m"
    if "\<forall>m \<in> snd ` set out. model_ok m" for out
    using that
  proof (induction memory arbitrary: out)
    case (Cons s memory)
    show ?case unfolding foldl_Cons by (rule Cons.IH) (rule set_memory_ok [OF Cons.prems])
  qed simp
  have nodes: "\<forall>m \<in> snd ` set (foldl (add_node mo ?held shut w) out free). model_ok m"
    if "\<forall>m \<in> snd ` set out. model_ok m" for mo shut out free
    using that
  proof (induction free arbitrary: out)
    case (Cons nh free)
    show ?case unfolding foldl_Cons
      by (rule Cons.IH) (cases nh, use add_node_ok [OF w h Cons.prems] in simp)
  qed simp
  show ?thesis
    using m nodes [OF mem [of "[]"]] by (force simp: by_model_def free_by_node_def Let_def)
qed

subsection \<open>Properties\<close>

text \<open>
  The number of workers said to fit on a node does fit beside what its pods hold, in GPUs, CPUs
  and memory, and one worker more would not.
\<close>

theorem fitting_exact:
  fixes has held :: amounts
  assumes "0 < w_gpus w" "0 < w_cpus w" "0 < w_memory_gb w" "0 \<le> n"
  defines "g \<equiv> trunc (dict_get has GPU 0 - dict_get held GPU 0)"
    and "c \<equiv> dict_get has ''cpu'' 0 - dict_get held ''cpu'' 0"
    and "m \<equiv> (dict_get has ''memory'' 0 - dict_get held ''memory'' 0) / 2 ^ 30"
  shows "n \<le> fitting has held w \<longleftrightarrow>
    n = 0 \<or> (n * w_gpus w \<le> g \<and> of_int n * w_cpus w \<le> c \<and> of_int n * w_memory_gb w \<le> m)"
proof -
  have "n \<le> g div w_gpus w \<longleftrightarrow> n * w_gpus w \<le> g"
    using assms(1) by (rule le_div_iff_mult)
  moreover have "n \<le> \<lfloor>c / w_cpus w\<rfloor> \<longleftrightarrow> of_int n * w_cpus w \<le> c"
    "n \<le> \<lfloor>m / w_memory_gb w\<rfloor> \<longleftrightarrow> of_int n * w_memory_gb w \<le> m"
    using assms(2,3) by (simp_all add: le_floor_iff pos_le_divide_eq)
  moreover have "n \<le> fitting has held w \<longleftrightarrow>
      n \<le> max (min (g div w_gpus w) (min \<lfloor>c / w_cpus w\<rfloor> \<lfloor>m / w_memory_gb w\<rfloor>)) 0"
    by (simp only: fitting_def Let_def g_def c_def m_def)
  ultimately show ?thesis using assms(4) by auto
qed

theorem fitting_exact_witness:
  "fitting [(''nvidia_com_gpu'', 8), (''cpu'', 64), (''memory'', 2 ^ 39)] [(''nvidia_com_gpu'', 3)]
     \<lparr>w_gpus = 1, w_cpus = 8, w_memory_gb = 32\<rparr> = 5
   \<and> 5 \<le> fitting [(''nvidia_com_gpu'', 8), (''cpu'', 64), (''memory'', 2 ^ 39)] [(''nvidia_com_gpu'', 3)]
     \<lparr>w_gpus = 1, w_cpus = 8, w_memory_gb = 32\<rparr>"
  using fitting_exact [of "\<lparr>w_gpus = 1, w_cpus = 8, w_memory_gb = 32\<rparr>" 5
     "[(''nvidia_com_gpu'', 8), (''cpu'', 64), (''memory'', 2 ^ 39)]" "[(''nvidia_com_gpu'', 3)]"]
  by (simp add: fitting_def trunc_def GPU_def)

text \<open>
  On NRP, of the GPU models a job may hold, no more workers fit now than on empty nodes, and
  neither number is negative: \<open>start_nrp_job\<close> refuses by the second and sizes the job by the first.
\<close>

theorem room_bounds:
  fixes allocatable unschedulable models memory :: "sample list" and gb :: rat
  assumes "0 < w_gpus w" "0 < w_cpus w" "0 < w_memory_gb w" "\<forall>s \<in> set requested. 0 \<le> snd s"
  defines "r \<equiv> room (by_model allocatable requested unschedulable models memory w) gb"
  shows "0 \<le> room_workers r \<and> room_workers r \<le> room_workers_empty r"
proof -
  let ?m = "by_model allocatable requested unschedulable models memory w"
  let ?held = "map snd (filter (\<lambda>(name, m). case with_memory ?m gb of None \<Rightarrow> True | Some a \<Rightarrow> name \<in> set a) ?m)"
  have ok: "0 \<le> m_workers x \<and> m_workers x \<le> m_workers_empty x" if "x \<in> set ?held" for x
    using that by_model_ok [OF assms(1-4)] by (auto simp: model_ok_def)
  have "0 \<le> (\<Sum>x \<leftarrow> ?held. m_workers x)" by (rule sum_list_nonneg) (use ok in auto)
  moreover have "(\<Sum>x \<leftarrow> ?held. m_workers x) \<le> (\<Sum>x \<leftarrow> ?held. m_workers_empty x)"
    by (rule sum_list_mono) (use ok in auto)
  ultimately show ?thesis by (simp add: r_def room_def Let_def)
qed

theorem room_bounds_witness:
  "let w = \<lparr>w_gpus = 1, w_cpus = 1, w_memory_gb = 1\<rparr>;
       node = (\<lambda>r. [(''node'', ''n1''), (''resource'', r)]);
       r = room (by_model [(node GPU, 4), (node ''cpu'', 16), (node ''memory'', 2 ^ 34)] [(node GPU, 1)] [] [] [] w) 0
   in room_workers r = 3 \<and> room_workers_empty r = 4 \<and> room_workers r \<le> room_workers_empty r"
proof -
  let ?w = "\<lparr>w_gpus = 1, w_cpus = 1, w_memory_gb = 1\<rparr>"
  let ?node = "\<lambda>r. [(''node'', ''n1''), (''resource'', r)]"
  let ?alloc = "[(?node GPU, 4), (?node ''cpu'', 16), (?node ''memory'', 2 ^ 34)] :: sample list"
  have "room_workers (room (by_model ?alloc [(?node GPU, 1)] [] [] [] ?w) 0) = 3"
    "room_workers_empty (room (by_model ?alloc [(?node GPU, 1)] [] [] [] ?w) 0) = 4"
    by (simp_all add: by_model_def free_by_node_def add_sample_def GPU_def add_node_def fitting_def trunc_def
        new_model_def room_def with_memory_def)
  then show ?thesis
    using room_bounds [of ?w "[(?node GPU, 1)]" ?alloc "[]" "[]" "[]" 0] by simp
qed

text \<open>
  The models a job asking for \<open>gb\<close> GB may hold are exactly the named ones whose GPUs report at
  least 95 % of it.
\<close>

theorem with_memory_exact:
  assumes "gb \<noteq> 0"
  shows "\<exists>names. with_memory models gb = Some names \<and> (\<forall>n. n \<in> set names \<longleftrightarrow>
     (\<exists>m g. (n, m) \<in> set models \<and> n \<noteq> [] \<and> m_memory_gb m = Some g \<and> 95 * gb \<le> 100 * g))"
  using assms by (force simp: with_memory_def MEMORY_SLACK_def split: option.splits)

theorem with_memory_exact_witness:
  "\<exists>names. with_memory [(''Tesla-T4'', \<lparr>m_memory_gb = Some (156 / 10), m_gpus = 1, m_free_gpus = 1,
       m_workers = 1, m_workers_empty = 1\<rparr>)] 16 = Some names \<and> names = [''Tesla-T4'']"
  using with_memory_exact [of 16 "[(''Tesla-T4'', \<lparr>m_memory_gb = Some (156 / 10), m_gpus = 1,
       m_free_gpus = 1, m_workers = 1, m_workers_empty = 1\<rparr>)]"]
  by (simp add: with_memory_def MEMORY_SLACK_def)

end
