(* ===== verification/Gateway_Settings.thy ===== *)
theory Gateway_Settings
  imports Gateway_Objects NRP_Gpus
begin

text \<open>
  What a call to the Ray gateway may ask for (\<open>src/apps/ray-train/gateway.py\<close>): the settings in its
  headers, checked one by one, the directories it names, and \<open>Gateway.caller\<close>, which makes the
  user and the shape of a call from its headers.
\<close>

subsection \<open>Paths\<close>

text \<open>
  \<open>posixpath.normpath\<close>: the components of the path, \<open>rooted\<close> if it starts with a slash, those kept
  so far in reverse.
\<close>

fun norm_comps :: "bool \<Rightarrow> string list \<Rightarrow> string list \<Rightarrow> string list" where
  "norm_comps rooted acc [] = rev acc"
| "norm_comps rooted acc (c # cs) =
     (if c = [] \<or> c = ''.'' then norm_comps rooted acc cs
      else if c \<noteq> ''..'' \<or> (\<not> rooted \<and> acc = []) \<or> (acc \<noteq> [] \<and> hd acc = ''..'')
        then norm_comps rooted (c # acc) cs
      else norm_comps rooted (drop 1 acc) cs)"

definition normpath :: "string \<Rightarrow> string" where
  "normpath path =
     (if path = [] then ''.''
      else let slashes = (if prefix ''//'' path \<and> \<not> prefix ''///'' path then 2
                          else if prefix ''/'' path then 1 else 0 :: nat);
               comps = norm_comps (slashes > 0) [] (split_on (CHR ''/'') path);
               out = replicate slashes (CHR ''/'') @ join_with (CHR ''/'') comps
           in if out = [] then ''.'' else out)"

text \<open>\<open>posixpath.dirname\<close>.\<close>

definition dirname :: "string \<Rightarrow> string" where
  "dirname p = (let head = rev (dropWhile (\<lambda>c. c \<noteq> CHR ''/'') (rev p)) in
     if head \<noteq> [] \<and> \<not> list_all (\<lambda>c. c = CHR ''/'') head then rstrip_of {CHR ''/''} head else head)"

definition under :: "string \<Rightarrow> string \<Rightarrow> bool" where
  "under base path \<longleftrightarrow> prefix (rstrip_of {CHR ''/''} base @ ''/'') path"

fun join_comma :: "string list \<Rightarrow> string" where
  "join_comma [] = []"
| "join_comma [w] = w"
| "join_comma (w # ws) = w @ '', '' @ join_comma ws"

definition mounted_env :: "string \<Rightarrow> string list \<Rightarrow> gw_error + string" where
  "mounted_env value roots =
     (let path = normpath value in
      if \<not> prefix ''/'' value \<or> \<not> list_ex (\<lambda>base. path = base \<or> under base path) roots
      then Inl (Refused INVALID_ARGUMENT
        (value @ '' is not on storage your Ray cluster mounts: '' @ join_comma roots @ ''.''))
      else Inr path)"

definition DEFAULT_ENV :: string where
  "DEFAULT_ENV = ''/work/pixi/global/.pixi/envs/default''"

definition requested_env :: "string \<Rightarrow> string list option \<Rightarrow> gw_error + string" where
  "requested_env value roots =
     (if value = [] then Inr DEFAULT_ENV else bind_sum (value_or_raise roots) (mounted_env value))"

text \<open>The directories of a job's data, by \<open>inputs\<close> and \<open>output\<close>.\<close>

definition data_path :: "string list \<Rightarrow> bool \<Rightarrow> string \<Rightarrow> string \<Rightarrow> gw_error + string" where
  "data_path roots is_output name value =
     (let path = normpath value in
      if \<not> prefix ''/'' value \<or> \<not> list_ex (\<lambda>base. under base path) roots
      then Inl (Refused INVALID_ARGUMENT
        (name @ '': '' @ value @ '' is not on storage your jobs mount: '' @ join_comma roots @ ''.''))
      else if is_output \<and> dirname path \<in> set (map (rstrip_of {CHR ''/''}) roots)
      then Inl (Refused INVALID_ARGUMENT
        (name @ '': '' @ value @ '' would be made at the top of '' @ dirname path
         @ '', which is shared: name a directory inside your own, such as one under /work/users.''))
      else Inr path)"

definition data_paths :: "string list \<Rightarrow> (string, string) dict \<Rightarrow> gw_error + (string, string) dict" where
  "data_paths roots headers =
     (let inputs = dict_get headers ''af-inputs'' []; output = dict_get headers ''af-output'' [] in
      bind_sum (if inputs = [] then Inr []
                else bind_sum (data_path roots False ''af-inputs'' inputs) (\<lambda>p. Inr [(''inputs'', p)])) (\<lambda>a.
      bind_sum (if output = [] then Inr []
                else bind_sum (data_path roots True ''af-output'' output) (\<lambda>p. Inr [(''output'', p)])) (\<lambda>b.
      Inr (a @ b))))"

subsection \<open>Numbers\<close>

text \<open>\<open>whole\<close>: \<^verbatim>\<open>[1-9][0-9]{0,8}\<close>, in bounds.\<close>

definition whole :: "string \<Rightarrow> nat \<Rightarrow> nat option \<Rightarrow> bool" where
  "whole value least most \<longleftrightarrow>
     value \<noteq> [] \<and> length value \<le> 9 \<and> list_all is_digit value \<and> hd value \<noteq> CHR ''0''
     \<and> digits_value value \<ge> least
     \<and> (case most of None \<Rightarrow> True | Some m \<Rightarrow> digits_value value \<le> m)"

definition requested_size :: "string \<Rightarrow> string \<Rightarrow> string \<Rightarrow> nat \<Rightarrow> nat \<Rightarrow> gw_error + string" where
  "requested_size name value dflt least most =
     (if value = [] then Inr dflt
      else if whole value least (Some most) then Inr value
      else Inl (Refused INVALID_ARGUMENT
        (name @ '' is a whole number from '' @ show_nat least @ '' to '' @ show_nat most @ ''.'')))"

definition gpu_memory :: "string \<Rightarrow> gw_error + rat" where
  "gpu_memory value =
     (case (if value = [] then Some (Fin 0) else py_float value) of
        Some (Fin r) \<Rightarrow> if 0 \<le> r then Inr r
          else Inl (Refused INVALID_ARGUMENT ''af-min-gpu-memory-gb is a number of GB.'')
      | _ \<Rightarrow> Inl (Refused INVALID_ARGUMENT ''af-min-gpu-memory-gb is a number of GB.''))"

text \<open>The smallest GPU with the memory asked for; \<open>max\<close> of no flavors would raise, as there is none.\<close>

definition requested_memory :: "flavor list \<Rightarrow> string \<Rightarrow> gw_error + string" where
  "requested_memory fl value = bind_sum (gpu_memory value) (\<lambda>wanted.
     let enough = map memory (filter (\<lambda>f. memory f \<ge> wanted) fl) in
     if enough = [] then (if fl = [] then Inl (PyError ''ValueError'')
       else Inl (Refused INVALID_ARGUMENT (''No GPU of a Ray cluster has '' @ fmt_g wanted
         @ '' GB: the largest has '' @ fmt_g (Max (memory ` set fl)) @ '' GB.'')))
     else Inr (fmt_g (Min (set enough))))"

definition requested_per_worker :: "flavor list \<Rightarrow> string \<Rightarrow> string \<Rightarrow> gw_error + string" where
  "requested_per_worker fl value mem =
     (if value = [] then Inr ''1''
      else bind_sum (value_or_raise (float_of mem)) (\<lambda>m.
        let of_memory = filter (\<lambda>f. memory f \<ge> m) fl in
        if of_memory = [] then Inl (PyError ''ValueError'')
        else let most = Max (per_worker_max ` set of_memory) in
          if whole value 1 (Some most) then Inr value
          else Inl (Refused INVALID_ARGUMENT
            (''af-gpus-per-worker is a number of GPUs from 1 to '' @ show_nat most @ ''.''))))"

definition requested_workers :: "string \<Rightarrow> string \<Rightarrow> nat option \<Rightarrow> gw_error + string \<times> string" where
  "requested_workers exactly at_most most =
     (if exactly \<noteq> [] \<and> at_most \<noteq> [] then Inl (Refused INVALID_ARGUMENT
        ''af-n-workers asks for a number of workers and af-max-workers for up to as many: set one of them.'')
      else let value = (if exactly \<noteq> [] then exactly else at_most) in
        if value = [] then Inr (''1'', ''1'')
        else if whole value 1 most then Inr (value, if exactly \<noteq> [] then exactly else ''1'')
        else let name = (if exactly \<noteq> [] then ''af-n-workers'' else ''af-max-workers'') in
          Inl (Refused INVALID_ARGUMENT (case most of
            None \<Rightarrow> name @ '' is a whole number of workers, 1 or more, on NRP.''
          | Some m \<Rightarrow> name @ '' is a number of workers from 1 to '' @ show_nat m @ ''.'')))"

subsection \<open>A call's user and shape\<close>

definition SETTINGS :: "string list" where
  "SETTINGS = [''af-env'', ''af-n-workers'', ''af-max-workers'', ''af-gpus-per-worker'',
     ''af-min-gpu-memory-gb'', ''af-cpus-per-worker'', ''af-ram-per-worker-gb'', ''af-site'',
     ''af-inputs'', ''af-output'']"

definition NRP_SETTINGS :: "string list" where
  "NRP_SETTINGS = [''af-n-workers'', ''af-max-workers'', ''af-min-gpu-memory-gb'', ''af-site'',
     ''af-inputs'', ''af-output'']"

definition UNPREFIXED :: "string list" where
  "UNPREFIXED = map (removeprefix ''af-'') SETTINGS"

definition unknown_settings :: "(string, string) dict \<Rightarrow> string list" where
  "unknown_settings values = sort (filter (\<lambda>n. n \<in> set UNPREFIXED
     \<or> (prefix ''af-'' n \<and> n \<notin> set SETTINGS)) (map fst values))"

definition WORKER_CPUS_MAX :: nat where "WORKER_CPUS_MAX = 16"
definition WORKER_MEMORY_GB_MIN :: nat where "WORKER_MEMORY_GB_MIN = 4"
definition WORKER_MEMORY_GB_MAX :: nat where "WORKER_MEMORY_GB_MAX = 64"

text \<open>The shape of a job on NRP, whose workers are those of \<open>rayjob-nrp.yaml\<close>.\<close>

definition nrp_shape :: "nworker \<Rightarrow> (string, string) dict \<Rightarrow> gw_error + shape" where
  "nrp_shape w values =
     (let get = (\<lambda>k. dict_get values k []);
          others = sort (filter (\<lambda>n. n \<in> set SETTINGS - set NRP_SETTINGS) (map fst values)) in
      if others \<noteq> [] then Inl (Refused INVALID_ARGUMENT
        (join_comma others @ '' sets a Ray cluster at Purdue: a job on NRP runs the AF's global environment on workers of ''
         @ show_int (w_gpus w) @ '' GPU, '' @ fmt_g (w_cpus w) @ '' CPUs and '' @ fmt_g (w_memory_gb w)
         @ '' GB, and takes only af-n-workers, af-max-workers or af-min-gpu-memory-gb.''))
      else bind_sum (requested_workers (get ''af-n-workers'') (get ''af-max-workers'') None) (\<lambda>(workers, least).
        bind_sum (gpu_memory (get ''af-min-gpu-memory-gb'')) (\<lambda>mem.
        Inr \<lparr>sh_env = [], sh_workers = workers, sh_memory = fmt_g mem, sh_cpus = [], sh_ram = [],
             sh_per_worker = ''1'', sh_least = least, sh_site = ''nrp''\<rparr>)))"

text \<open>The shape of a cluster at Purdue, on the user's template.\<close>

definition purdue_shape :: "flavor list \<Rightarrow> cluster \<Rightarrow> (string, string) dict \<Rightarrow> gw_error + shape" where
  "purdue_shape fl tmpl values =
     (let get = (\<lambda>k. dict_get values k []) in
      bind_sum (value_or_raise (worker_size tmpl)) (\<lambda>(cpus, ram).
      bind_sum (requested_memory fl (get ''af-min-gpu-memory-gb'')) (\<lambda>mem.
      bind_sum (requested_env (get ''af-env'') (env_roots tmpl)) (\<lambda>env.
      bind_sum (requested_size ''af-cpus-per-worker'' (get ''af-cpus-per-worker'') cpus 1 WORKER_CPUS_MAX) (\<lambda>c.
      bind_sum (requested_size ''af-ram-per-worker-gb'' (get ''af-ram-per-worker-gb'') ram
          WORKER_MEMORY_GB_MIN WORKER_MEMORY_GB_MAX) (\<lambda>r.
      bind_sum (requested_per_worker fl (get ''af-gpus-per-worker'') mem) (\<lambda>p.
      let s = \<lparr>sh_env = env, sh_workers = ''1'', sh_memory = mem, sh_cpus = c, sh_ram = r,
               sh_per_worker = p, sh_least = ''1'', sh_site = ''purdue''\<rparr> in
      bind_sum (value_or_raise (shape_flavors fl s)) (\<lambda>flavors.
      bind_sum (value_or_raise (int_of p)) (\<lambda>per.
      bind_sum (requested_workers (get ''af-n-workers'') (get ''af-max-workers'')
          (Some (\<Sum>f \<leftarrow> flavors. budget f div per))) (\<lambda>(workers, least).
      Inr (s\<lparr>sh_workers := workers, sh_least := least\<rparr>)))))))))))"

definition SITES :: "string list" where "SITES = [''purdue'', ''nrp'']"

definition caller :: "(string \<Rightarrow> string) \<Rightarrow> directory \<Rightarrow> (string, account) dict \<Rightarrow> flavor list \<Rightarrow> cluster
    \<Rightarrow> nworker \<Rightarrow> time \<Rightarrow> string \<Rightarrow> (string, string) dict \<Rightarrow> user_cache
    \<Rightarrow> (gw_error + user \<times> shape) \<times> user_cache" where
  "caller sha dir accts fl tmpl w now service_token values cache =
     (if service_token = [] then (Inl (Refused UNAVAILABLE
        ''Ray is not enabled: JupyterHub has not registered the ray-train-gateway service.''), cache)
      else (case bearer_token (dict_get values ''authorization'' []) of
        None \<Rightarrow> (Inl (Refused UNAUTHENTICATED
          ''No token: RAY_AUTH_MODE=token and RAY_AUTH_TOKEN=$JUPYTERHUB_API_TOKEN must be set.''), cache)
      | Some token \<Rightarrow>
        if unknown_settings values \<noteq> [] then (Inl (Refused INVALID_ARGUMENT
          (join_comma (unknown_settings values) @ '' is no setting of a Ray cluster: the settings are ''
           @ join_comma (sort SETTINGS) @ ''.'')), cache)
        else let given = dict_get values ''af-site'' []; site = (if given = [] then ''purdue'' else given) in
        if site \<notin> set SITES then (Inl (Refused INVALID_ARGUMENT
          (''af-site is one of '' @ join_comma SITES @ ''.'')), cache)
        else (case user_for sha dir accts now token cache of
          (Inl e, cache') \<Rightarrow> (Inl e, cache')
        | (Inr u, cache') \<Rightarrow>
            (bind_sum (if site = ''nrp'' then nrp_shape w values
                       else purdue_shape fl (cluster_template tmpl u) values) (\<lambda>s. Inr (u, s)), cache'))))"

subsection \<open>Normalized paths\<close>

definition clean :: "string \<Rightarrow> bool" where
  "clean c \<longleftrightarrow> c \<noteq> ''.'' \<and> c \<noteq> ''..''"

lemma clean_Nil [simp]: "clean []"
  by (simp add: clean_def)

lemma norm_comps_clean:
  "\<forall>c \<in> set acc. clean c \<and> c \<noteq> [] \<Longrightarrow> \<forall>c \<in> set (norm_comps True acc cs). clean c \<and> c \<noteq> []"
proof (induction cs arbitrary: acc)
  case (Cons c cs)
  have up: "c = ''..'' \<Longrightarrow> norm_comps True acc (c # cs) = norm_comps True (drop 1 acc) cs"
    using Cons.prems by (cases acc) (simp_all add: clean_def)
  have d: "\<forall>c \<in> set (drop 1 acc). clean c \<and> c \<noteq> []"
    using Cons.prems by (meson in_set_dropD)
  consider "c = ''..''" | "c = [] \<or> c = ''.''" | "c \<noteq> []" "clean c" by (auto simp: clean_def)
  then show ?case
  proof cases
    case 1
    show ?thesis unfolding up [OF 1] by (rule Cons.IH [OF d])
  next
    case 2
    then have "norm_comps True acc (c # cs) = norm_comps True acc cs" by simp
    then show ?thesis using Cons.IH [OF Cons.prems] by argo
  next
    case 3
    then have "norm_comps True acc (c # cs) = norm_comps True (c # acc) cs" by (simp add: clean_def)
    then show ?thesis using Cons.IH [of "c # acc"] Cons.prems 3 by (metis set_ConsD)
  qed
qed simp

lemma norm_comps_set: "set (norm_comps b acc cs) \<subseteq> set acc \<union> set cs"
proof (induction cs arbitrary: acc)
  case (Cons c cs)
  have "set (drop 1 acc) \<subseteq> set acc" by (rule set_drop_subset)
  then show ?case using Cons [of acc] Cons [of "c # acc"] Cons [of "drop 1 acc"] by auto
qed simp

text \<open>The components of a normalized absolute path: one or two slashes, then names that go down.\<close>

definition goes_down :: "string \<Rightarrow> bool" where
  "goes_down c \<longleftrightarrow> clean c \<and> c \<noteq> []"

lemma split_on_slashes:
  "split_on c (replicate k c @ s) = replicate k [] @ split_on c s"
  by (induction k) simp_all

lemma normpath_split:
  assumes "prefix ''/'' value"
  obtains k cs where "split_on (CHR ''/'') (normpath value) = replicate k [] @ cs" "list_all goes_down cs"
proof -
  let ?cs = "norm_comps True [] (split_on (CHR ''/'') value)"
  let ?k = "if prefix ''//'' value \<and> \<not> prefix ''///'' value then 2 else 1 :: nat"
  have cl: "list_all goes_down ?cs"
    using norm_comps_clean [of "[]" "split_on (CHR ''/'') value"] by (simp add: list_all_iff goes_down_def)
  have j: "?cs \<noteq> [] \<Longrightarrow> split_on (CHR ''/'') (join_with (CHR ''/'') ?cs) = ?cs"
    using norm_comps_set [of True "[]" "split_on (CHR ''/'') value"]
    by (auto intro!: split_on_join dest: split_on_no_sep)
  have "value \<noteq> []" using assms by auto
  then have "normpath value = replicate ?k (CHR ''/'') @ join_with (CHR ''/'') ?cs"
    using assms by (simp only: normpath_def Let_def if_True if_False) simp
  then have split: "split_on (CHR ''/'') (normpath value)
      = replicate ?k [] @ split_on (CHR ''/'') (join_with (CHR ''/'') ?cs)"
    by (simp only: split_on_slashes)
  show ?thesis
  proof (cases "?cs = []")
    case True
    show ?thesis by (rule that [of "Suc ?k" "[]"]) (simp_all only: split True, simp_all flip: replicate_append_same)
  next
    case False
    show ?thesis by (rule that [OF _ cl]) (simp only: split j [OF False])
  qed
qed

lemma rstrip_slash:
  "rstrip_of {CHR ''/''} s \<noteq> [] \<Longrightarrow> last (rstrip_of {CHR ''/''} s) \<noteq> CHR ''/''"
  using hd_dropWhile [of "\<lambda>c. c \<in> {CHR ''/''}" "rev s"] by (auto simp: rstrip_of_def last_rev)

lemma last_split_on: "last (split_on c s) = [] \<Longrightarrow> s = [] \<or> last s = c"
proof (induction s)
  case (Cons x xs)
  then show ?case by (cases "split_on c xs") (auto split: if_splits)
qed simp

lemma dirname_file:
  assumes "CHR ''/'' \<notin> set t" "b \<noteq> []" "last b \<noteq> CHR ''/''"
  shows "dirname (b @ CHR ''/'' # t) = b"
proof -
  have "dropWhile (\<lambda>c. c \<noteq> CHR ''/'') (rev (b @ CHR ''/'' # t)) = CHR ''/'' # rev b"
    using assms(1) by (auto simp: dropWhile_append3)
  moreover have "rstrip_of {CHR ''/''} (b @ ''/'') = b"
    using assms(2,3) by (cases b rule: rev_cases) (simp_all add: rstrip_of_def)
  moreover have "\<not> list_all (\<lambda>c. c = CHR ''/'') (b @ ''/'')"
    using assms(2,3) by (cases b rule: rev_cases) simp_all
  ultimately show ?thesis by (simp add: dirname_def Let_def)
qed

text \<open>A normalized path under a directory has names of its own beyond it, each of which goes down.\<close>

lemma under_down:
  assumes abs: "prefix ''/'' value" and u: "under base (normpath value)"
    and base: "rstrip_of {CHR ''/''} base \<noteq> []"
  obtains t where "normpath value = rstrip_of {CHR ''/''} base @ CHR ''/'' # t"
    "list_all goes_down (split_on (CHR ''/'') t)"
proof -
  let ?b = "rstrip_of {CHR ''/''} base"
  from u obtain t where t: "normpath value = ?b @ CHR ''/'' # t"
    by (auto simp: under_def prefix_def)
  obtain k cs where cs: "split_on (CHR ''/'') (normpath value) = replicate k [] @ cs" "list_all goes_down cs"
    using normpath_split [OF abs] .
  have eq: "split_on (CHR ''/'') ?b @ split_on (CHR ''/'') t = replicate k [] @ cs"
    using cs(1) by (simp only: t split_on_append_sep)
  have "last (split_on (CHR ''/'') ?b) \<noteq> []" using last_split_on rstrip_slash [OF base] base by blast
  then have "\<not> (\<exists>us. replicate k [] = split_on (CHR ''/'') ?b @ us)"
    by (metis in_set_replicate last_in_set split_on_not_Nil in_set_conv_decomp append_Cons append.assoc)
  with eq obtain us where "cs = us @ split_on (CHR ''/'') t"
    by (metis append_eq_append_conv2)
  with cs(2) that [OF t] show ?thesis by simp
qed

subsection \<open>A checked shape\<close>

lemma wholeD:
  assumes "whole v least most"
  shows "int_of v = Some (digits_value v)" "least \<le> digits_value v"
    "most = Some m \<Longrightarrow> digits_value v \<le> m"
  using assms by (auto simp: whole_def int_of_def)

lemma whole_Some:
  "whole v least (Some m) \<Longrightarrow> \<exists>i. int_of v = Some i \<and> least \<le> i \<and> i \<le> m"
  using wholeD by blast

lemma int_of_one [simp]: "int_of ''1'' = Some 1"
  by code_simp

text \<open>
  What the settings rely on of the flavors: there are some, each with its own resource, a whole number of
  GB, and a budget for at least one worker of its largest size.
\<close>

definition flavors_ok :: "flavor list \<Rightarrow> bool" where
  "flavors_ok fl \<longleftrightarrow> fl \<noteq> [] \<and> distinct (map resource fl)
     \<and> (\<forall>f \<in> set fl. (\<exists>n. memory f = of_nat n \<and> 0 < n \<and> n < 1000000)
          \<and> 1 \<le> per_worker_max f \<and> per_worker_max f \<le> budget f)"

lemma FLAVORS_ok: "flavors_ok FLAVORS"
  by (auto simp: flavors_ok_def FLAVORS_def)

text \<open>A shape admission can work with: its numbers are numbers, some flavor has a worker of it, and
  it asks for no more workers than the budgets of those flavors hold, nor starts with more than it has.\<close>

definition shape_ok :: "flavor list \<Rightarrow> shape \<Rightarrow> bool" where
  "shape_ok fl s \<longleftrightarrow> (\<exists>flavors per n least. shape_flavors fl s = Some flavors \<and> flavors \<noteq> []
     \<and> int_of (sh_per_worker s) = Some per \<and> 1 \<le> per
     \<and> int_of (sh_workers s) = Some n \<and> int_of (sh_least s) = Some least
     \<and> 1 \<le> least \<and> least \<le> n \<and> n \<le> (\<Sum>f \<leftarrow> flavors. budget f div per))"

lemma requested_memory_ok:
  assumes "flavors_ok fl" "requested_memory fl v = Inr mem"
  obtains f where "f \<in> set fl" "float_of mem = Some (memory f)"
proof -
  obtain wanted where mem: "filter (\<lambda>f. memory f \<ge> wanted) fl \<noteq> []"
      "mem = fmt_g (Min (memory ` set (filter (\<lambda>f. memory f \<ge> wanted) fl)))"
    using assms(2) by (auto simp: requested_memory_def Let_def split: if_splits)
  let ?fs = "filter (\<lambda>f. memory f \<ge> wanted) fl"
  have "Min (memory ` set ?fs) \<in> memory ` set ?fs" using mem(1) by (intro Min_in) (auto simp: filter_empty_conv)
  then obtain f where f: "f \<in> set fl" "Min (memory ` set ?fs) = memory f" by auto
  moreover obtain n where "memory f = of_nat n" "0 < n" "n < 1000000"
    using assms(1) f(1) by (auto simp: flavors_ok_def)
  ultimately show ?thesis using that [of f] mem(2) py_float_fmt_g [of n] by (simp add: float_of_def)
qed

lemma requested_per_worker_ok:
  assumes fl: "flavors_ok fl" and f: "f \<in> set fl" "float_of mem = Some (memory f)"
    and p: "requested_per_worker fl v mem = Inr p"
  shows "\<exists>per. int_of p = Some per \<and> 1 \<le> per
    \<and> filter (\<lambda>g. memory g \<ge> memory f \<and> per_worker_max g \<ge> per) fl \<noteq> []"
proof (cases "v = []")
  case True
  with p f fl show ?thesis by (auto simp: requested_per_worker_def flavors_ok_def filter_empty_conv)
next
  case False
  let ?fs = "filter (\<lambda>g. memory g \<ge> memory f) fl"
  have w: "whole p 1 (Some (Max (per_worker_max ` set ?fs)))" "?fs \<noteq> []"
    using p f False by (auto simp: requested_per_worker_def Let_def split: if_splits)
  have "Max (per_worker_max ` set ?fs) \<in> per_worker_max ` set ?fs" using w(2) by (intro Max_in) (auto simp: filter_empty_conv)
  then obtain g where "g \<in> set fl" "memory g \<ge> memory f" "Max (per_worker_max ` set ?fs) = per_worker_max g"
    by auto
  with wholeD [OF w(1)] show ?thesis by (auto simp: filter_empty_conv)
qed

lemma requested_workers_ok:
  assumes "requested_workers e a (Some most) = Inr (n, l)" "1 \<le> most"
  shows "\<exists>i j. int_of n = Some i \<and> int_of l = Some j \<and> 1 \<le> j \<and> j \<le> i \<and> i \<le> most"
  using assms by (auto simp: requested_workers_def Let_def dest!: whole_Some split: if_splits)

lemma budget_div_pos:
  assumes "flavors_ok fl" "fs \<noteq> []" "\<And>f. f \<in> set fs \<Longrightarrow> f \<in> set fl \<and> per \<le> per_worker_max f" "1 \<le> per"
  shows "1 \<le> (\<Sum>f \<leftarrow> fs. budget f div per)"
proof -
  obtain f gs where fs: "fs = f # gs" using assms(2) by (cases fs) auto
  then have "per \<le> budget f" using assms(1,3) by (fastforce simp: flavors_ok_def)
  then have "1 \<le> budget f div per" using assms(4) by (simp add: div_greater_zero_iff Suc_le_eq)
  then show ?thesis unfolding fs by simp
qed

lemma purdue_shapeE:
  assumes "purdue_shape fl tmpl values = Inr s"
  obtains mem p c r env workers least flavors per where
    "requested_memory fl (dict_get values ''af-min-gpu-memory-gb'' []) = Inr mem"
    "requested_per_worker fl (dict_get values ''af-gpus-per-worker'' []) mem = Inr p"
    "int_of p = Some per"
    "requested_workers (dict_get values ''af-n-workers'' []) (dict_get values ''af-max-workers'' [])
       (Some (\<Sum>f \<leftarrow> flavors. budget f div per)) = Inr (workers, least)"
    "shape_flavors fl \<lparr>sh_env = env, sh_workers = ''1'', sh_memory = mem, sh_cpus = c, sh_ram = r,
       sh_per_worker = p, sh_least = ''1'', sh_site = ''purdue''\<rparr> = Some flavors"
    "s = \<lparr>sh_env = env, sh_workers = workers, sh_memory = mem, sh_cpus = c, sh_ram = r,
       sh_per_worker = p, sh_least = least, sh_site = ''purdue''\<rparr>"
    "requested_env (dict_get values ''af-env'' []) (env_roots tmpl) = Inr env"
  using assms
  unfolding purdue_shape_def Let_def bind_sum_eq_Inr value_or_raise_eq_Inr split_paired_Ex prod.case
  apply (elim exE conjE)
  by (rule that, assumption, assumption, assumption, assumption, assumption, simp, assumption)

lemma purdue_shape_ok:
  assumes fl: "flavors_ok fl" and s: "purdue_shape fl tmpl values = Inr s"
  shows "shape_ok fl s" "sh_site s = ''purdue''"
proof -
  from s obtain mem p c r env workers least flavors per where
    a: "requested_memory fl (dict_get values ''af-min-gpu-memory-gb'' []) = Inr mem"
      "requested_per_worker fl (dict_get values ''af-gpus-per-worker'' []) mem = Inr p"
      "int_of p = Some per"
      "requested_workers (dict_get values ''af-n-workers'' []) (dict_get values ''af-max-workers'' [])
         (Some (\<Sum>f \<leftarrow> flavors. budget f div per)) = Inr (workers, least)"
    and fs: "shape_flavors fl \<lparr>sh_env = env, sh_workers = ''1'', sh_memory = mem, sh_cpus = c, sh_ram = r,
         sh_per_worker = p, sh_least = ''1'', sh_site = ''purdue''\<rparr> = Some flavors"
    and s': "s = \<lparr>sh_env = env, sh_workers = workers, sh_memory = mem, sh_cpus = c, sh_ram = r,
         sh_per_worker = p, sh_least = least, sh_site = ''purdue''\<rparr>"
    by (elim purdue_shapeE)
  obtain f where f: "f \<in> set fl" "float_of mem = Some (memory f)"
    by (rule requested_memory_ok [OF fl a(1)])
  from requested_per_worker_ok [OF fl f a(2)] a(3) have
    per: "1 \<le> per" "filter (\<lambda>g. memory g \<ge> memory f \<and> per_worker_max g \<ge> per) fl \<noteq> []" by auto
  have flavors: "flavors = filter (\<lambda>g. memory g \<ge> memory f \<and> per_worker_max g \<ge> per) fl"
    using fs f(2) a(3) by (simp add: shape_flavors_def)
  have "1 \<le> (\<Sum>f \<leftarrow> flavors. budget f div per)"
    using per flavors by (intro budget_div_pos [OF fl]) auto
  from requested_workers_ok [OF a(4) this] per a(3) flavors f(2)
  show "shape_ok fl s" unfolding s' by (auto simp: shape_ok_def shape_flavors_def)
  show "sh_site s = ''purdue''" unfolding s' by simp
qed

lemma nrp_shape_ok:
  assumes "nrp_shape w values = Inr s"
  shows "\<exists>n least. int_of (sh_workers s) = Some n \<and> int_of (sh_least s) = Some least \<and> 1 \<le> least \<and> least \<le> n
    \<and> sh_site s = ''nrp''"
  using assms wholeD [of _ 1 None]
  by (auto simp: nrp_shape_def requested_workers_def Let_def bind_sum_eq_Inr split: if_splits)

lemma requested_env_confined:
  assumes "requested_env value roots = Inr path" "value \<noteq> []" "roots = Some rs"
    "\<forall>base \<in> set rs. rstrip_of {CHR ''/''} base \<noteq> []"
  shows "path \<in> set rs \<or> (\<exists>base \<in> set rs. \<exists>t. path = rstrip_of {CHR ''/''} base @ CHR ''/'' # t
      \<and> list_all goes_down (split_on (CHR ''/'') t))"
proof -
  have path: "path = normpath value" "prefix ''/'' value" "list_ex (\<lambda>base. path = base \<or> under base path) rs"
    using assms(1-3) by (auto simp: requested_env_def mounted_env_def Let_def bind_sum_eq_Inr split: if_splits)
  then obtain base where "base \<in> set rs" "path = base \<or> under base path" by (auto simp: list_ex_iff)
  with path(1,2) assms(4) show ?thesis by (metis under_down)
qed

subsection \<open>Properties\<close>

text \<open>
  A directory a call names for its data stays where its jobs have storage. The path that is accepted is one
  of the mounted directories followed by names that each go down (none is empty, \<^verbatim>\<open>.\<close> or
  \<^verbatim>\<open>..\<close>), at least one, and at least two for a directory to write to, so that none is made at
  the top of a directory everybody shares. The mounted directories are not the root of the file system.
\<close>

theorem data_path_confined:
  assumes ok: "data_path roots is_output name value = Inr path"
    and roots: "\<forall>base \<in> set roots. rstrip_of {CHR ''/''} base \<noteq> []"
  shows "\<exists>base \<in> set roots. \<exists>t. path = rstrip_of {CHR ''/''} base @ CHR ''/'' # t
      \<and> list_all goes_down (split_on (CHR ''/'') t)
      \<and> (is_output \<longrightarrow> 2 \<le> length (split_on (CHR ''/'') t))"
proof -
  have path: "path = normpath value" "prefix ''/'' value"
      "is_output \<Longrightarrow> dirname path \<notin> set (map (rstrip_of {CHR ''/''}) roots)"
    and "list_ex (\<lambda>base. under base path) roots"
    using ok by (auto simp: data_path_def Let_def split: if_splits)
  then obtain base where base: "base \<in> set roots" "under base path" by (auto simp: list_ex_iff)
  let ?b = "rstrip_of {CHR ''/''} base"
  have b: "?b \<noteq> []" using base(1) roots by blast
  from under_down [OF path(2) base(2) [unfolded path(1)] b] obtain t where
    t: "path = ?b @ CHR ''/'' # t" "list_all goes_down (split_on (CHR ''/'') t)" unfolding path(1) .
  have "dirname path = ?b" if "length (split_on (CHR ''/'') t) < 2"
  proof -
    have "split_on (CHR ''/'') t = [t]"
      using that join_split_on [of "CHR ''/''" t] by (cases "split_on (CHR ''/'') t") simp_all
    then have "CHR ''/'' \<notin> set t" using split_on_no_sep [of t "CHR ''/''" t] by simp
    then show ?thesis unfolding t(1) using b rstrip_slash [OF b] by (rule dirname_file)
  qed
  with path(3) base(1) t show ?thesis by (metis imageI linorder_not_le list.set_map)
qed

theorem data_path_confined_witness:
  "data_path [''/work'', ''/depot''] True ''af-output'' ''/work/users/./ann/../ann/out'' = Inr ''/work/users/ann/out''
   \<and> (\<exists>base \<in> {''/work'', ''/depot''}. \<exists>t. ''/work/users/ann/out'' = rstrip_of {CHR ''/''} base @ CHR ''/'' # t
      \<and> 2 \<le> length (split_on (CHR ''/'') t))"
proof -
  have run: "data_path [''/work'', ''/depot''] True ''af-output'' ''/work/users/./ann/../ann/out''
      = Inr ''/work/users/ann/out''"
    by code_simp
  have roots: "\<forall>base \<in> set [''/work'', ''/depot'']. rstrip_of {CHR ''/''} base \<noteq> []" by code_simp
  from data_path_confined [OF run roots] run show ?thesis by auto
qed

text \<open>
  C37: a call that gets past \<open>Gateway.caller\<close> has a user and a shape the rest of the gateway can work with. The
  service is registered, the call has a token and names no setting the gateway does not know; at Purdue the
  numbers of its shape are numbers, some kind of GPU fits it, it has at least one worker, starts with no more
  than it may have and may have no more than the budgets hold, and an environment it names is on storage its
  cluster mounts; on NRP it names none of the settings of a cluster at Purdue. Everything else is refused.
\<close>

theorem caller_checked:
  assumes call: "caller sha dir accts fl tmpl w now service_token values cache = (Inr (u, s), cache')"
    and fl: "flavors_ok fl"
    and roots: "\<forall>rs. env_roots (cluster_template tmpl u) = Some rs \<longrightarrow> (\<forall>base \<in> set rs. rstrip_of {CHR ''/''} base \<noteq> [])"
  shows "service_token \<noteq> [] \<and> bearer_token (dict_get values ''authorization'' []) \<noteq> None
    \<and> unknown_settings values = []
    \<and> (sh_site s = ''purdue'' \<and> shape_ok fl s
         \<and> (dict_get values ''af-env'' [] \<noteq> [] \<longrightarrow> (\<exists>rs. env_roots (cluster_template tmpl u) = Some rs
              \<and> (sh_env s \<in> set rs \<or> (\<exists>base \<in> set rs. \<exists>t. sh_env s = rstrip_of {CHR ''/''} base @ CHR ''/'' # t
                   \<and> list_all goes_down (split_on (CHR ''/'') t)))))
       \<or> sh_site s = ''nrp'' \<and> (\<exists>n least. int_of (sh_workers s) = Some n \<and> int_of (sh_least s) = Some least
         \<and> 1 \<le> least \<and> least \<le> n))"
proof -
  have c: "service_token \<noteq> []" "bearer_token (dict_get values ''authorization'' []) \<noteq> None"
      "unknown_settings values = []"
      "purdue_shape fl (cluster_template tmpl u) values = Inr s \<or> nrp_shape w values = Inr s"
    using call by (auto simp: caller_def Let_def bind_sum_eq_Inr split: if_splits option.splits prod.splits sum.splits)
  from c(4) show ?thesis
  proof
    assume p: "purdue_shape fl (cluster_template tmpl u) values = Inr s"
    have "requested_env (dict_get values ''af-env'' []) (env_roots (cluster_template tmpl u)) = Inr (sh_env s)"
      using p by (elim purdue_shapeE) simp
    moreover from this have "\<exists>rs. env_roots (cluster_template tmpl u) = Some rs" if "dict_get values ''af-env'' [] \<noteq> []"
      using that by (auto simp: requested_env_def bind_sum_eq_Inr)
    ultimately show ?thesis using c(1-3) purdue_shape_ok [OF fl p] roots requested_env_confined by blast
  next
    assume "nrp_shape w values = Inr s"
    from nrp_shape_ok [OF this] c(1-3) show ?thesis by blast
  qed
qed

definition example_directory :: directory where
  "example_directory = \<lparr>whoami_http = \<lambda>_. Answer 200 (''user'', ''ann''), hub_http = \<lambda>_. Answer 200 [],
     ldap = \<lambda>_. Inr (501, 502), holds_gpu = \<lambda>_. False\<rparr>"

definition example_worker :: nworker where
  "example_worker = \<lparr>w_gpus = 1, w_cpus = 4, w_memory_gb = 16\<rparr>"

lemma fmt_g_five: "fmt_g 5 = ''5''"
proof -
  have "show_nat 5 = ''5''" by code_simp
  then show ?thesis using fmt_g_nat [of 5] by simp
qed

lemma float_of_five: "float_of ''5'' = Some 5"
  using py_float_fmt_g [of 5] by (simp add: float_of_def fmt_g_five)

lemma example_shape_numbers:
  "int_of (sh_workers example_shape) = Some 3" "int_of (sh_least example_shape) = Some 1"
  "int_of (sh_per_worker example_shape) = Some 1"
  by (code_simp, code_simp, code_simp)

lemma example_shape_flavors: "shape_flavors FLAVORS example_shape = Some FLAVORS"
  using example_shape_numbers(3) by (simp add: shape_flavors_def example_shape_def float_of_five FLAVORS_def)

lemma example_shape_ok: "shape_ok FLAVORS example_shape"
proof -
  have "(\<Sum>f \<leftarrow> FLAVORS. budget f div 1) = 22" "FLAVORS \<noteq> []" by (simp_all add: FLAVORS_def)
  then show ?thesis using example_shape_numbers by (simp add: shape_ok_def example_shape_flavors)
qed

lemma example_purdue_shape:
  "purdue_shape FLAVORS (cluster_template example_template example_user)
     [(''authorization'', ''Bearer t''), (''af-max-workers'', ''2''), (''af-env'', ''/work/x/env'')]
   = Inr \<lparr>sh_env = ''/work/x/env'', sh_workers = ''2'', sh_memory = ''5'', sh_cpus = ''4'', sh_ram = ''8'',
     sh_per_worker = ''1'', sh_least = ''1'', sh_site = ''purdue''\<rparr>"
proof -
  have "requested_memory FLAVORS [] = Inr ''5''"
    by (simp add: requested_memory_def gpu_memory_def FLAVORS_def Let_def fmt_g_five)
  moreover have "worker_size (cluster_template example_template example_user) = Some (''4'', ''8'')" by code_simp
  moreover have "requested_env ''/work/x/env'' (env_roots (cluster_template example_template example_user))
      = Inr ''/work/x/env''" by code_simp
  moreover have "requested_workers [] ''2'' (Some 22) = Inr (''2'', ''1'')" by code_simp
  ultimately show ?thesis
    by (simp add: purdue_shape_def requested_size_def requested_per_worker_def shape_flavors_def
        value_or_raise_def FLAVORS_def float_of_five)
qed

lemma example_caller:
  "caller (\<lambda>t. t) example_directory [] FLAVORS example_template example_worker 0 ''service''
     [(''authorization'', ''Bearer t''), (''af-max-workers'', ''2''), (''af-env'', ''/work/x/env'')] []
   = (Inr (example_user, \<lparr>sh_env = ''/work/x/env'', sh_workers = ''2'', sh_memory = ''5'', sh_cpus = ''4'',
       sh_ram = ''8'', sh_per_worker = ''1'', sh_least = ''1'', sh_site = ''purdue''\<rparr>), [(''t'', (300, example_user))])"
proof -
  have "user_for (\<lambda>t. t) example_directory [] 0 ''t'' [] = (Inr example_user, [(''t'', (300, example_user))])"
    by code_simp
  moreover have "unknown_settings [(''authorization'', ''Bearer t''), (''af-max-workers'', ''2''),
      (''af-env'', ''/work/x/env'')] = []" by code_simp
  moreover have "bearer_token ''Bearer t'' = Some ''t''" by code_simp
  ultimately show ?thesis by (simp add: caller_def SITES_def example_purdue_shape)
qed

theorem caller_checked_witness:
  "\<exists>u s c. caller (\<lambda>t. t) example_directory [] FLAVORS example_template example_worker 0 ''service''
       [(''authorization'', ''Bearer t''), (''af-max-workers'', ''2''), (''af-env'', ''/work/x/env'')] [] = (Inr (u, s), c)
     \<and> sh_workers s = ''2'' \<and> sh_site s = ''purdue'' \<and> shape_ok FLAVORS s"
proof -
  have roots: "\<forall>rs. env_roots (cluster_template example_template example_user) = Some rs
      \<longrightarrow> (\<forall>base \<in> set rs. rstrip_of {CHR ''/''} base \<noteq> [])"
  proof -
    have "env_roots (cluster_template example_template example_user) = Some [''/work'']" by code_simp
    then show ?thesis by (simp add: rstrip_of_def)
  qed
  from caller_checked [OF example_caller FLAVORS_ok roots] example_caller show ?thesis by auto
qed

end
