(* ===== verification/Py_Effects.thy ===== *)
theory Py_Effects
  imports AF_Prelude
begin

text \<open>
  Effects. Code that changes a state and may raise is a function from the state to its value, or the exception it
  raises, and the state after it. This theory has the combinators by which such code is composed, and the
  rules by which it is proved: weakest preconditions, parts of the state that are left alone, invariants.
  The gateway's coroutines and the language model proxy's threads are both written with it.
\<close>

type_synonym ('s, 'e, 'a) eff = "'s \<Rightarrow> ('e + 'a) \<times> 's"

definition ret :: "'a \<Rightarrow> ('s, 'e, 'a) eff" where
  "ret a = (\<lambda>s. (Inr a, s))"

definition raise :: "'e \<Rightarrow> ('s, 'e, 'a) eff" where
  "raise e = (\<lambda>s. (Inl e, s))"

definition bindm :: "('s, 'e, 'a) eff \<Rightarrow> ('a \<Rightarrow> ('s, 'e, 'b) eff) \<Rightarrow> ('s, 'e, 'b) eff" where
  "bindm m f = (\<lambda>s. case m s of (Inl e, t) \<Rightarrow> (Inl e, t) | (Inr a, t) \<Rightarrow> f a t)"

text \<open>\<open>try: m except: h\<close>; \<open>h\<close> raises again what it does not catch.\<close>

definition catch :: "('s, 'e, 'a) eff \<Rightarrow> ('e \<Rightarrow> ('s, 'e, 'a) eff) \<Rightarrow> ('s, 'e, 'a) eff" where
  "catch m h = (\<lambda>s. case m s of (Inl e, t) \<Rightarrow> h e t | (Inr a, t) \<Rightarrow> (Inr a, t))"

definition gets :: "('s \<Rightarrow> 'a) \<Rightarrow> ('s, 'e, 'a) eff" where
  "gets f = (\<lambda>s. (Inr (f s), s))"

definition modify :: "('s \<Rightarrow> 's) \<Rightarrow> ('s, 'e, unit) eff" where
  "modify f = (\<lambda>s. (Inr (), f s))"

definition of_sum :: "'e + 'a \<Rightarrow> ('s, 'e, 'a) eff" where
  "of_sum r = (\<lambda>s. (r, s))"

definition whenm :: "bool \<Rightarrow> ('s, 'e, unit) eff \<Rightarrow> ('s, 'e, unit) eff" where
  "whenm b m = (if b then m else ret ())"

fun each :: "('a \<Rightarrow> ('s, 'e, unit) eff) \<Rightarrow> 'a list \<Rightarrow> ('s, 'e, unit) eff" where
  "each f [] = ret ()"
| "each f (x # xs) = bindm (f x) (\<lambda>_. each f xs)"

lemma each_append: "each f (xs @ ys) = bindm (each f xs) (\<lambda>_. each f ys)"
  by (induction xs) (auto simp: fun_eq_iff bindm_def ret_def split: prod.split sum.split)

lemma each_map: "each f (map g xs) = each (\<lambda>x. f (g x)) xs"
  by (induction xs) simp_all

lemma each_nested: "each (\<lambda>x. each (f x) ys) xs = each (\<lambda>(x, y). f x y) (List.product xs ys)"
  by (induction xs) (simp_all add: each_append each_map)

text \<open>\<open>try: m except Exception: log\<close>.\<close>

definition logged :: "('s, 'e, unit) eff \<Rightarrow> ('s, 'e, unit) eff" where
  "logged m = catch m (\<lambda>_. ret ())"

text \<open>A call whose answer is a value, whatever happens.\<close>

definition asks :: "('s \<Rightarrow> 'a \<times> 's) \<Rightarrow> ('s, 'e, 'a) eff" where
  "asks f = (\<lambda>s. case f s of (a, s') \<Rightarrow> (Inr a, s'))"

lemma bindm_assoc: "bindm (bindm m f) g = bindm m (\<lambda>a. bindm (f a) g)"
  by (auto simp: fun_eq_iff bindm_def split: prod.split sum.split)

lemma bindm_ret: "bindm (ret a) f = f a"
  by (simp add: fun_eq_iff bindm_def ret_def)

subsection \<open>Weakest preconditions\<close>

text \<open>
  \<open>wp m R X s\<close>: from \<open>s\<close>, a value that \<open>m\<close> returns has \<open>R\<close> and an exception it raises has \<open>X\<close>. The rules
  are equations, so that the simplifier takes a coroutine apart up to the calls it awaits.
\<close>

definition wp :: "('s, 'e, 'a) eff \<Rightarrow> ('a \<Rightarrow> 's \<Rightarrow> bool) \<Rightarrow> ('e \<Rightarrow> 's \<Rightarrow> bool) \<Rightarrow> 's \<Rightarrow> bool" where
  "wp m R X s = (case m s of (Inl e, t) \<Rightarrow> X e t | (Inr a, t) \<Rightarrow> R a t)"

named_theorems wp_simps

lemma wp_ret [wp_simps]: "wp (ret a) R X = R a"
  by (simp add: fun_eq_iff wp_def ret_def)

lemma wp_raise [wp_simps]: "wp (raise e) R X = X e"
  by (simp add: fun_eq_iff wp_def raise_def)

lemma wp_bindm [wp_simps]: "wp (bindm m f) R X = wp m (\<lambda>a. wp (f a) R X) X"
  by (simp add: fun_eq_iff wp_def bindm_def split: prod.split sum.split)

lemma wp_catch [wp_simps]: "wp (catch m h) R X = wp m R (\<lambda>e. wp (h e) R X)"
  by (simp add: fun_eq_iff wp_def catch_def split: prod.split sum.split)

lemma wp_gets [wp_simps]: "wp (gets f) R X = (\<lambda>s. R (f s) s)"
  by (simp add: fun_eq_iff wp_def gets_def)

lemma wp_modify [wp_simps]: "wp (modify f) R X = (\<lambda>s. R () (f s))"
  by (simp add: fun_eq_iff wp_def modify_def)

lemma wp_of_sum [wp_simps]:
  "wp (of_sum r) R X = (\<lambda>s. case r of Inl e \<Rightarrow> X e s | Inr a \<Rightarrow> R a s)"
  by (simp add: fun_eq_iff wp_def of_sum_def split: sum.split)

lemma wp_whenm [wp_simps]: "wp (whenm b m) R X = (if b then wp m R X else R ())"
  by (simp add: whenm_def wp_simps)

lemma wp_logged [wp_simps]: "wp (logged m) R X = wp m R (\<lambda>_. R ())"
  by (simp add: logged_def wp_simps)

lemma wp_if [wp_simps]: "wp (if b then m else m') R X = (if b then wp m R X else wp m' R X)"
  by simp

lemma wp_split [wp_simps]: "wp (case p of (a, b) \<Rightarrow> f a b) R X = wp (f (fst p) (snd p)) R X"
  by (simp add: case_prod_beta)

lemma wp_asks [wp_simps]: "wp (asks f) R X = (\<lambda>s. R (fst (f s)) (snd (f s)))"
  by (simp add: fun_eq_iff wp_def asks_def split: prod.split)

lemma wp_mono:
  "wp m R X s \<Longrightarrow> (\<And>a t. R a t \<Longrightarrow> R' a t) \<Longrightarrow> (\<And>e t. X e t \<Longrightarrow> X' e t) \<Longrightarrow> wp m R' X' s"
  by (auto simp: wp_def split: prod.splits sum.splits)

lemma wp_each:
  assumes "\<And>x t. x \<in> set xs \<Longrightarrow> I t \<Longrightarrow> wp (f x) (\<lambda>_. I) (\<lambda>_. I) t" "I s"
  shows "wp (each f xs) (\<lambda>_. I) (\<lambda>_. I) s"
  using assms
proof (induction xs arbitrary: s)
  case (Cons x xs)
  have "wp (f x) (\<lambda>_. I) (\<lambda>_. I) s" using Cons.prems by simp
  then have "wp (f x) (\<lambda>_. wp (each f xs) (\<lambda>_. I) (\<lambda>_. I)) (\<lambda>_. I) s"
    by (rule wp_mono) (use Cons in auto)
  then show ?case by (simp add: wp_simps)
qed (simp add: wp_simps)

text \<open>What a run shows of a coroutine with a weakest precondition, and back.\<close>

lemma wpD:
  assumes "wp m R X s"
  shows "m s = (Inr a, t) \<Longrightarrow> R a t" "m s = (Inl e, t) \<Longrightarrow> X e t"
  using assms by (auto simp: wp_def)

lemma wpI:
  "(\<And>a t. m s = (Inr a, t) \<Longrightarrow> R a t) \<Longrightarrow> (\<And>e t. m s = (Inl e, t) \<Longrightarrow> X e t) \<Longrightarrow> wp m R X s"
  by (auto simp: wp_def split: prod.split sum.split)

subsection \<open>What a computation leaves as it was\<close>

text \<open>A computation that keeps a part \<open>f\<close> of the state.\<close>

definition holds :: "('s \<Rightarrow> 'x) \<Rightarrow> ('s \<Rightarrow> 'a \<times> 's) \<Rightarrow> bool" where
  "holds f m \<longleftrightarrow> (\<forall>s. f (snd (m s)) = f s)"

named_theorems holds_intros

lemma holdsD: "holds f m \<Longrightarrow> f (snd (m s)) = f s"
  by (simp add: holds_def)

lemma holds_ret [holds_intros]: "holds f (ret a)"
  by (simp add: holds_def ret_def)

lemma holds_raise [holds_intros]: "holds f (raise e)"
  by (simp add: holds_def raise_def)

lemma holds_gets [holds_intros]: "holds f (gets g)"
  by (simp add: holds_def gets_def)

lemma holds_of_sum [holds_intros]: "holds f (of_sum r)"
  by (simp add: holds_def of_sum_def)

lemma holds_modify [holds_intros]: "(\<And>s. f (g s) = f s) \<Longrightarrow> holds f (modify g)"
  by (simp add: holds_def modify_def)

lemma holds_bindm [holds_intros]: "holds f m \<Longrightarrow> (\<And>a. holds f (g a)) \<Longrightarrow> holds f (bindm m g)"
  by (auto simp: holds_def bindm_def split: prod.split sum.split) (metis snd_conv)+

lemma holds_catch [holds_intros]: "holds f m \<Longrightarrow> (\<And>e. holds f (h e)) \<Longrightarrow> holds f (catch m h)"
  by (auto simp: holds_def catch_def split: prod.split sum.split) (metis snd_conv)+

lemma holds_asks [holds_intros]: "holds f m \<Longrightarrow> holds f (asks m)"
  by (auto simp: holds_def asks_def split: prod.split) (metis snd_conv)

lemma holds_if [holds_intros]: "(b \<Longrightarrow> holds f m) \<Longrightarrow> (\<not> b \<Longrightarrow> holds f m') \<Longrightarrow> holds f (if b then m else m')"
  by simp

lemma holds_whenm [holds_intros]: "(b \<Longrightarrow> holds f m) \<Longrightarrow> holds f (whenm b m)"
  by (simp add: whenm_def holds_ret)

lemma holds_prod [holds_intros]: "(\<And>a b. holds f (g a b)) \<Longrightarrow> holds f (case p of (a, b) \<Rightarrow> g a b)"
  by (simp add: case_prod_beta)

lemma holds_option [holds_intros]:
  "holds f m \<Longrightarrow> (\<And>a. holds f (g a)) \<Longrightarrow> holds f (case x of None \<Rightarrow> m | Some a \<Rightarrow> g a)"
  by (cases x) simp_all

lemma holds_bool [holds_intros]:
  "holds f m \<Longrightarrow> holds f m' \<Longrightarrow> holds f (case b of True \<Rightarrow> m | False \<Rightarrow> m')"
  by (cases b) simp_all

lemma holds_sum [holds_intros]:
  "(\<And>a. holds f (g a)) \<Longrightarrow> (\<And>b. holds f (h b)) \<Longrightarrow> holds f (case x of Inl a \<Rightarrow> g a | Inr b \<Rightarrow> h b)"
  by (cases x) simp_all

lemma holds_logged [holds_intros]: "holds f m \<Longrightarrow> holds f (logged m)"
  unfolding logged_def by (intro holds_intros)

lemma holds_each [holds_intros]: "(\<And>x. x \<in> set xs \<Longrightarrow> holds f (g x)) \<Longrightarrow> holds f (each g xs)"
  by (induction xs) (auto intro: holds_intros)

lemma wp_holds:
  "holds f m \<Longrightarrow> (\<And>a t. f t = f s \<Longrightarrow> R a t) \<Longrightarrow> (\<And>e t. f t = f s \<Longrightarrow> X e t) \<Longrightarrow> wp m R X s"
  by (auto simp: holds_def wp_def split: prod.split sum.split) (metis snd_conv)+

subsection \<open>Invariants\<close>

definition preserves :: "('s \<Rightarrow> bool) \<Rightarrow> ('s \<Rightarrow> 'a \<times> 's) \<Rightarrow> bool" where
  "preserves I m \<longleftrightarrow> (\<forall>s. I s \<longrightarrow> I (snd (m s)))"

named_theorems pres_intros

lemma preservesD: "preserves I m \<Longrightarrow> I s \<Longrightarrow> I (snd (m s))"
  by (simp add: preserves_def)

lemma preserves_ret [pres_intros]: "preserves I (ret a)"
  by (simp add: preserves_def ret_def)

lemma preserves_raise [pres_intros]: "preserves I (raise e)"
  by (simp add: preserves_def raise_def)

lemma preserves_gets [pres_intros]: "preserves I (gets g)"
  by (simp add: preserves_def gets_def)

lemma preserves_of_sum [pres_intros]: "preserves I (of_sum r)"
  by (simp add: preserves_def of_sum_def)

lemma preserves_modify [pres_intros]: "(\<And>s. I s \<Longrightarrow> I (g s)) \<Longrightarrow> preserves I (modify g)"
  by (simp add: preserves_def modify_def)

lemma preserves_bindm [pres_intros]: "preserves I m \<Longrightarrow> (\<And>a. preserves I (g a)) \<Longrightarrow> preserves I (bindm m g)"
  by (auto simp: preserves_def bindm_def split: prod.split sum.split)

lemma preserves_catch [pres_intros]: "preserves I m \<Longrightarrow> (\<And>e. preserves I (h e)) \<Longrightarrow> preserves I (catch m h)"
  by (auto simp: preserves_def catch_def split: prod.split sum.split)

lemma preserves_asks [pres_intros]: "preserves I m \<Longrightarrow> preserves I (asks m)"
  by (auto simp: preserves_def asks_def split: prod.split)

lemma preserves_if [pres_intros]:
  "(b \<Longrightarrow> preserves I m) \<Longrightarrow> (\<not> b \<Longrightarrow> preserves I m') \<Longrightarrow> preserves I (if b then m else m')"
  by simp

lemma preserves_whenm [pres_intros]: "(b \<Longrightarrow> preserves I m) \<Longrightarrow> preserves I (whenm b m)"
  by (simp add: whenm_def preserves_ret)

lemma preserves_prod [pres_intros]: "(\<And>a b. preserves I (g a b)) \<Longrightarrow> preserves I (case p of (a, b) \<Rightarrow> g a b)"
  by (simp add: case_prod_beta)

lemma preserves_option [pres_intros]:
  "(x = None \<Longrightarrow> preserves I m) \<Longrightarrow> (\<And>a. x = Some a \<Longrightarrow> preserves I (g a))
   \<Longrightarrow> preserves I (case x of None \<Rightarrow> m | Some a \<Rightarrow> g a)"
  by (cases x) simp_all

lemma preserves_sum [pres_intros]:
  "(\<And>a. preserves I (g a)) \<Longrightarrow> (\<And>b. preserves I (h b)) \<Longrightarrow> preserves I (case x of Inl a \<Rightarrow> g a | Inr b \<Rightarrow> h b)"
  by (cases x) simp_all

lemma preserves_logged [pres_intros]: "preserves I m \<Longrightarrow> preserves I (logged m)"
  unfolding logged_def by (intro pres_intros)

lemma preserves_each [pres_intros]: "(\<And>x. x \<in> set xs \<Longrightarrow> preserves I (g x)) \<Longrightarrow> preserves I (each g xs)"
  by (induction xs) (auto intro: pres_intros)

lemma preserves_holds: "holds f m \<Longrightarrow> (\<And>s t. f t = f s \<Longrightarrow> I s \<Longrightarrow> I t) \<Longrightarrow> preserves I m"
  by (auto simp: preserves_def holds_def)

lemma wp_preserves:
  "preserves I m \<Longrightarrow> I s \<Longrightarrow> (\<And>a t. I t \<Longrightarrow> R a t) \<Longrightarrow> (\<And>e t. I t \<Longrightarrow> X e t) \<Longrightarrow> wp m R X s"
  by (auto simp: preserves_def wp_def split: prod.split sum.split)

lemma preserves_wp: "(\<And>s. I s \<Longrightarrow> wp m (\<lambda>_. I) (\<lambda>_. I) s) \<Longrightarrow> preserves I m"
  by (force simp: preserves_def wp_def split: prod.splits sum.splits)

subsection \<open>What is returned\<close>

text \<open>Whatever the state, a value that is returned has \<open>P\<close>.\<close>

definition yields :: "('a \<Rightarrow> bool) \<Rightarrow> ('s, 'e, 'a) eff \<Rightarrow> bool" where
  "yields P m \<longleftrightarrow> (\<forall>s a t. m s = (Inr a, t) \<longrightarrow> P a)"

named_theorems yields_intros

lemma yieldsD: "yields P m \<Longrightarrow> m s = (Inr a, t) \<Longrightarrow> P a"
  by (auto simp: yields_def)

lemma yields_ret [yields_intros]: "P a \<Longrightarrow> yields P (ret a)"
  by (simp add: yields_def ret_def)

lemma yields_asks: "(\<And>s a t. f s = (a, t) \<Longrightarrow> P a) \<Longrightarrow> yields P (asks f)"
  by (auto simp: yields_def asks_def split: prod.splits)

lemma yields_of_sum: "(\<And>a. r = Inr a \<Longrightarrow> P a) \<Longrightarrow> yields P (of_sum r)"
  by (simp add: yields_def of_sum_def)

lemma yields_weaken: "yields P m \<Longrightarrow> (\<And>a. P a \<Longrightarrow> Q a) \<Longrightarrow> yields Q m"
  by (auto simp: yields_def)

lemma yields_raise [yields_intros]: "yields P (raise e)"
  by (simp add: yields_def raise_def)

lemma yields_bindm [yields_intros]: "(\<And>a. yields P (g a)) \<Longrightarrow> yields P (bindm m g)"
  by (auto simp: yields_def bindm_def split: prod.splits sum.splits)

lemma yields_bind: "yields Q m \<Longrightarrow> (\<And>a. Q a \<Longrightarrow> yields P (g a)) \<Longrightarrow> yields P (bindm m g)"
  by (fastforce simp: yields_def bindm_def split: prod.splits sum.splits)

lemma yields_catch [yields_intros]: "yields P m \<Longrightarrow> (\<And>e. yields P (h e)) \<Longrightarrow> yields P (catch m h)"
  by (fastforce simp: yields_def catch_def split: prod.splits sum.splits)

lemma yields_if [yields_intros]: "(b \<Longrightarrow> yields P m) \<Longrightarrow> (\<not> b \<Longrightarrow> yields P m') \<Longrightarrow> yields P (if b then m else m')"
  by simp

lemma yields_option [yields_intros]:
  "(x = None \<Longrightarrow> yields P m) \<Longrightarrow> (\<And>a. x = Some a \<Longrightarrow> yields P (g a)) \<Longrightarrow> yields P (case x of None \<Rightarrow> m | Some a \<Rightarrow> g a)"
  by (cases x) simp_all

lemma yields_sum [yields_intros]:
  "(\<And>a. x = Inl a \<Longrightarrow> yields P (g a)) \<Longrightarrow> (\<And>b. x = Inr b \<Longrightarrow> yields P (h b)) \<Longrightarrow> yields P (case x of Inl a \<Rightarrow> g a | Inr b \<Rightarrow> h b)"
  by (cases x) simp_all

lemma yields_prod [yields_intros]: "(\<And>a b. p = (a, b) \<Longrightarrow> yields P (g a b)) \<Longrightarrow> yields P (case p of (a, b) \<Rightarrow> g a b)"
  by (cases p) simp

subsection \<open>Runs that return\<close>

named_theorems run_simps

lemma bindm_Inr [run_simps]:
  "bindm m f s = (Inr b, t) \<longleftrightarrow> (\<exists>a u. m s = (Inr a, u) \<and> f a u = (Inr b, t))"
  by (auto simp: bindm_def split: prod.splits sum.splits)

lemma ret_Inr [run_simps]: "ret a s = (Inr b, t) \<longleftrightarrow> a = b \<and> s = t"
  by (auto simp: ret_def)

lemma raise_Inr [run_simps]: "raise e s \<noteq> (Inr b, t)"
  by (simp add: raise_def)

lemma gets_Inr [run_simps]: "gets f s = (Inr b, t) \<longleftrightarrow> f s = b \<and> s = t"
  by (auto simp: gets_def)

lemma modify_Inr [run_simps]: "modify f s = (Inr b, t) \<longleftrightarrow> f s = t"
  by (auto simp: modify_def)

lemma of_sum_Inr [run_simps]: "of_sum r s = (Inr b, t) \<longleftrightarrow> r = Inr b \<and> s = t"
  by (auto simp: of_sum_def)

lemma asks_Inr [run_simps]: "asks f s = (Inr b, t) \<longleftrightarrow> f s = (b, t)"
  by (auto simp: asks_def split: prod.split)

lemma guard_Inr [run_simps]: "(if b then raise e else m) s = (Inr a, t) \<longleftrightarrow> \<not> b \<and> m s = (Inr a, t)"
  by (simp add: raise_def)

lemma preserves_bind_yields:
  "preserves I m \<Longrightarrow> yields Q m \<Longrightarrow> (\<And>a. Q a \<Longrightarrow> preserves I (g a)) \<Longrightarrow> preserves I (bindm m g)"
  by (fastforce simp: preserves_def yields_def bindm_def split: prod.splits sum.splits)

subsection \<open>How much is spent\<close>

text \<open>A computation that adds at most \<open>n\<close> to the count \<open>c\<close>.\<close>

definition spends :: "('s \<Rightarrow> nat) \<Rightarrow> nat \<Rightarrow> ('s \<Rightarrow> 'a \<times> 's) \<Rightarrow> bool" where
  "spends c n m \<longleftrightarrow> (\<forall>s. c (snd (m s)) \<le> c s + n)"

lemma spendsD: "spends c n m \<Longrightarrow> c (snd (m s)) \<le> c s + n"
  by (simp add: spends_def)

lemma spends_weaken: "spends c n m \<Longrightarrow> n \<le> k \<Longrightarrow> spends c k m"
  unfolding spends_def by (meson add_left_mono order_trans)

lemma spends_holds: "holds f m \<Longrightarrow> spends (\<lambda>s. g (f s)) 0 m"
  by (simp add: spends_def holds_def)

lemma spends_modify: "(\<And>s. c (f s) \<le> c s + n) \<Longrightarrow> spends c n (modify f)"
  by (simp add: spends_def modify_def)

lemma spends_bindm: "spends c a m \<Longrightarrow> (\<And>x. spends c b (g x)) \<Longrightarrow> spends c (a + b) (bindm m g)"
  unfolding spends_def bindm_def
  by (auto split: prod.split sum.split) (metis add.assoc add_le_mono1 order_trans snd_conv trans_le_add1)+

lemma spends_catch: "spends c a m \<Longrightarrow> (\<And>e. spends c b (h e)) \<Longrightarrow> spends c (a + b) (catch m h)"
  unfolding spends_def catch_def
  by (auto split: prod.split sum.split) (metis add.assoc add_le_mono1 order_trans snd_conv trans_le_add1)+

lemma spends_if: "(b \<Longrightarrow> spends c n m) \<Longrightarrow> (\<not> b \<Longrightarrow> spends c n m') \<Longrightarrow> spends c n (if b then m else m')"
  by simp

end
