(* ===== verification/Py_Json.thy ===== *)
theory Py_Json
  imports Py_Numbers
begin

text \<open>
  JSON as Python's \<open>json\<close> reads and writes it, and what Python's operators do with such values.

  A number is a rational, so that 1 and 1.0 are the same value; \<open>JOdd\<close> is a float that is no number (\<open>NaN\<close>,
  \<open>Infinity\<close>, \<open>-Infinity\<close>), which Python's reader accepts. A string has characters up to code point 255; an
  escape for one beyond reads as a question mark, so that what is JSON and what is not is exact. The depth
  at which Python's reader runs out of stack is not modelled.
\<close>

datatype json = JNull | JBool bool | JNum rat | JStr string | JList "json list" | JObj "(string \<times> json) list"
  | JOdd string

subsection \<open>Python's operators\<close>

text \<open>\<open>bool(x)\<close>.\<close>

fun truthy :: "json \<Rightarrow> bool" where
  "truthy JNull = False"
| "truthy (JBool b) = b"
| "truthy (JNum r) = (r \<noteq> 0)"
| "truthy (JStr s) = (s \<noteq> [])"
| "truthy (JList l) = (l \<noteq> [])"
| "truthy (JObj d) = (d \<noteq> [])"
| "truthy (JOdd f) = True"

text \<open>An exception, by the name of its class.\<close>

type_synonym exn = string

text \<open>\<open>x or y\<close>; \<open>x.get(k)\<close>, which only a dictionary has; \<open>x[k]\<close>; \<open>for y in x\<close>, with a text for each; \<open>"" + x\<close>; \<open>int(x)\<close>.\<close>

definition or_else :: "json \<Rightarrow> json \<Rightarrow> json" where
  "or_else x y = (if truthy x then x else y)"

definition jget :: "json \<Rightarrow> string \<Rightarrow> exn + json" where
  "jget x k = (case x of JObj d \<Rightarrow> Inr (dict_get d k JNull) | _ \<Rightarrow> Inl ''AttributeError'')"

definition subscript :: "json \<Rightarrow> string \<Rightarrow> exn + json" where
  "subscript x k = (case x of
     JObj d \<Rightarrow> (case map_of d k of None \<Rightarrow> Inl ''KeyError'' | Some v \<Rightarrow> Inr v) | _ \<Rightarrow> Inl ''TypeError'')"

definition elements :: "json \<Rightarrow> exn + json list" where
  "elements x = (case x of JList l \<Rightarrow> Inr l | JObj d \<Rightarrow> Inr (map (JStr \<circ> fst) d)
     | JStr s \<Rightarrow> Inr (map (\<lambda>c. JStr [c]) s) | _ \<Rightarrow> Inl ''TypeError'')"

fun each_text :: "('a \<Rightarrow> exn + string) \<Rightarrow> 'a list \<Rightarrow> exn + string list" where
  "each_text f [] = Inr []"
| "each_text f (x # xs) = bind_sum (f x) (\<lambda>t. bind_sum (each_text f xs) (\<lambda>ts. Inr (t # ts)))"

definition as_text :: "json \<Rightarrow> exn + string" where
  "as_text x = (case x of JStr s \<Rightarrow> Inr s | _ \<Rightarrow> Inl ''TypeError'')"

definition int_text :: "string \<Rightarrow> int option" where
  "int_text s = (let (neg, d) = signed (strip_of py_space s) in
     if digit_part d \<and> length (digits_of d) \<le> 4300
     then Some ((if neg then - 1 else 1) * int (digits_value (digits_of d))) else None)"

definition as_int :: "json \<Rightarrow> exn + int" where
  "as_int x = (case x of
     JNum r \<Rightarrow> Inr (trunc r) | JBool b \<Rightarrow> Inr (if b then 1 else 0)
   | JStr s \<Rightarrow> (case int_text s of None \<Rightarrow> Inl ''ValueError'' | Some i \<Rightarrow> Inr i)
   | JOdd f \<Rightarrow> Inl (if f = ''NaN'' then ''ValueError'' else ''OverflowError'')
   | JNull \<Rightarrow> Inl ''TypeError'' | JList _ \<Rightarrow> Inl ''TypeError'' | JObj _ \<Rightarrow> Inl ''TypeError'')"

text \<open>\<open>float(x)\<close>, and the number as JSON again.\<close>

definition as_float :: "json \<Rightarrow> exn + pyfloat" where
  "as_float x = (case x of
     JNum r \<Rightarrow> Inr (Fin r) | JBool b \<Rightarrow> Inr (Fin (if b then 1 else 0))
   | JStr s \<Rightarrow> (case py_float s of None \<Rightarrow> Inl ''ValueError'' | Some v \<Rightarrow> Inr v)
   | JOdd f \<Rightarrow> Inr (if f = ''NaN'' then NaN else Infinite (f = ''-Infinity''))
   | JNull \<Rightarrow> Inl ''TypeError'' | JList _ \<Rightarrow> Inl ''TypeError'' | JObj _ \<Rightarrow> Inl ''TypeError'')"

fun float_json :: "pyfloat \<Rightarrow> json" where
  "float_json (Fin r) = JNum r"
| "float_json (Infinite neg) = JOdd (if neg then ''-Infinity'' else ''Infinity'')"
| "float_json NaN = JOdd ''NaN''"

lemma as_float_json [simp]: "as_float (float_json v) = Inr v"
  by (cases v) (simp_all add: as_float_def)

subsection \<open>Reading\<close>

definition json_space :: "char \<Rightarrow> bool" where
  "json_space c \<longleftrightarrow> c = CHR '' '' \<or> c = CHR 0x09 \<or> c = CHR 0x0A \<or> c = CHR 0x0D"

definition skip_ws :: "string \<Rightarrow> string" where
  "skip_ws s = dropWhile json_space s"

definition hex_value :: "char \<Rightarrow> nat option" where
  "hex_value c = (let n = of_char c in
     if 48 \<le> n \<and> n \<le> 57 then Some (n - 48) else if 65 \<le> n \<and> n \<le> 70 then Some (n - 55)
     else if 97 \<le> n \<and> n \<le> 102 then Some (n - 87) else None)"

fun hex4 :: "string \<Rightarrow> (nat \<times> string) option" where
  "hex4 (a # b # c # d # r) = (case (hex_value a, hex_value b, hex_value c, hex_value d) of
     (Some i, Some j, Some k, Some l) \<Rightarrow> Some (((i * 16 + j) * 16 + k) * 16 + l, r) | _ \<Rightarrow> None)"
| "hex4 _ = None"

definition escapes :: "(char \<times> char) list" where
  "escapes = [(quote, quote), (backslash, backslash), (CHR ''/'', CHR ''/''), (CHR ''b'', CHR 0x08),
     (CHR ''f'', CHR 0x0C), (CHR ''n'', CHR 0x0A), (CHR ''r'', CHR 0x0D), (CHR ''t'', CHR 0x09)]"

text \<open>A string after its opening quote, up to its closing one.\<close>

function parse_str :: "string \<Rightarrow> (string \<times> string) option" where
  "parse_str [] = None"
| "parse_str (c # cs) =
     (if c = quote then Some ([], cs)
      else if of_char c < (32 :: nat) then None
      else if c \<noteq> backslash then map_option (\<lambda>(s, r). (c # s, r)) (parse_str cs)
      else case cs of [] \<Rightarrow> None
      | e # es \<Rightarrow>
        if e = CHR ''u'' then (case hex4 es of None \<Rightarrow> None
          | Some (n, r) \<Rightarrow> map_option (\<lambda>(s, r'). ((if n < 256 then char_of n else CHR ''?'') # s, r')) (parse_str r))
        else case map_of escapes e of None \<Rightarrow> None
          | Some d \<Rightarrow> map_option (\<lambda>(s, r). (d # s, r)) (parse_str es))"
  by pat_completeness auto

lemma hex4_shorter: "hex4 s = Some (n, r) \<Longrightarrow> length r < length s"
  by (induction s rule: hex4.induct) (auto split: option.splits)

termination parse_str
  by (relation "measure length") (auto dest: hex4_shorter)

text \<open>A number: \<^verbatim>\<open>(-?(?:0|[1-9][0-9]*))(\.[0-9]+)?([eE][-+]?[0-9]+)?\<close>.\<close>

definition digits :: "string \<Rightarrow> string \<times> string" where
  "digits s = (takeWhile is_digit s, dropWhile is_digit s)"

definition whole_part :: "string \<Rightarrow> (string \<times> string) option" where
  "whole_part s = (case s of [] \<Rightarrow> None
   | c # cs \<Rightarrow> if c = CHR ''0'' then Some (''0'', cs) else if is_digit c then Some (digits s) else None)"

definition fraction_part :: "string \<Rightarrow> string \<times> string" where
  "fraction_part s = (case s of [] \<Rightarrow> ([], s)
   | c # cs \<Rightarrow> if c = CHR ''.'' \<and> fst (digits cs) \<noteq> [] then digits cs else ([], s))"

definition exponent_part :: "string \<Rightarrow> int option \<times> string" where
  "exponent_part s = (case s of [] \<Rightarrow> (None, s)
   | c # cs \<Rightarrow> let (neg, ds) = signed cs in
     if c \<in> {CHR ''e'', CHR ''E''} \<and> fst (digits ds) \<noteq> []
     then (Some ((if neg then - 1 else 1) * int (digits_value (fst (digits ds)))), snd (digits ds)) else (None, s))"

definition parse_number :: "string \<Rightarrow> (json \<times> string) option" where
  "parse_number s =
     (let neg = prefix ''-'' s; body = (if neg then tl s else s); sign = (if neg then - 1 else 1 :: rat) in
      case whole_part body of None \<Rightarrow> None
      | Some (ip, r) \<Rightarrow>
        let (fp, r1) = fraction_part r; (e, r2) = exponent_part r1 in
        if fp = [] \<and> e = None
        then (if length ip \<le> 4300 then Some (JNum (sign * of_nat (digits_value ip)), r) else None)
        else let v = of_nat (digits_value (ip @ fp)) * ten_power ((case e of None \<Rightarrow> 0 | Some i \<Rightarrow> i) - int (length fp)) in
          Some (if v \<ge> DOUBLE_LIMIT then JOdd (if neg then ''-Infinity'' else ''Infinity'') else JNum (sign * v), r2))"

definition literals :: "(string \<times> json) list" where
  "literals = [(''null'', JNull), (''true'', JBool True), (''false'', JBool False), (''NaN'', JOdd ''NaN''),
     (''Infinity'', JOdd ''Infinity''), (''-Infinity'', JOdd ''-Infinity'')]"

definition parse_scalar :: "string \<Rightarrow> (json \<times> string) option" where
  "parse_scalar s = (case find (\<lambda>(w, _). prefix w s) literals of
     Some (w, j) \<Rightarrow> Some (j, drop (length w) s) | None \<Rightarrow> parse_number s)"

text \<open>A value; the members of an object from a key on; the elements of an array. Each call takes one unit of fuel.\<close>

fun parse_value :: "nat \<Rightarrow> string \<Rightarrow> (json \<times> string) option"
  and parse_members :: "nat \<Rightarrow> string \<Rightarrow> ((string \<times> json) list \<times> string) option"
  and parse_elements :: "nat \<Rightarrow> string \<Rightarrow> (json list \<times> string) option" where
  "parse_value 0 s = None"
| "parse_value (Suc n) [] = None"
| "parse_value (Suc n) (c # cs) =
     (if c = quote then map_option (\<lambda>(s, r). (JStr s, r)) (parse_str cs)
      else if c = CHR ''{'' then
        (if prefix ''}'' (skip_ws cs) then Some (JObj [], tl (skip_ws cs))
         else map_option (\<lambda>(ps, r). (JObj (dict_updates [] ps), r)) (parse_members n (skip_ws cs)))
      else if c = CHR ''['' then
        (if prefix '']'' (skip_ws cs) then Some (JList [], tl (skip_ws cs))
         else map_option (\<lambda>(xs, r). (JList xs, r)) (parse_elements n (skip_ws cs)))
      else parse_scalar (c # cs))"
| "parse_members 0 s = None"
| "parse_members (Suc n) s =
     (case s of [] \<Rightarrow> None | c # cs \<Rightarrow> if c \<noteq> quote then None else
      case parse_str cs of None \<Rightarrow> None
      | Some (k, r) \<Rightarrow> if \<not> prefix '':'' (skip_ws r) then None else
        case parse_value n (skip_ws (tl (skip_ws r))) of None \<Rightarrow> None
        | Some (v, r') \<Rightarrow>
          if prefix ''}'' (skip_ws r') then Some ([(k, v)], tl (skip_ws r'))
          else if prefix '','' (skip_ws r') then
            map_option (\<lambda>(ps, r''). ((k, v) # ps, r'')) (parse_members n (skip_ws (tl (skip_ws r'))))
          else None)"
| "parse_elements 0 s = None"
| "parse_elements (Suc n) s =
     (case parse_value n s of None \<Rightarrow> None
      | Some (v, r) \<Rightarrow>
        if prefix '']'' (skip_ws r) then Some ([v], tl (skip_ws r))
        else if prefix '','' (skip_ws r) then
          map_option (\<lambda>(xs, r'). (v # xs, r')) (parse_elements n (skip_ws (tl (skip_ws r))))
        else None)"

text \<open>\<open>json.loads(s)\<close>; \<open>None\<close> for \<open>ValueError\<close>. The fuel is never short: see \<open>parse_fuel\<close> below.\<close>

definition json_loads :: "string \<Rightarrow> json option" where
  "json_loads s = (case parse_value (2 * length s + 1) (skip_ws s) of None \<Rightarrow> None
     | Some (j, r) \<Rightarrow> if skip_ws r = [] then Some j else None)"

subsection \<open>The reader has fuel enough\<close>

lemma skip_ws_le: "length (skip_ws s) \<le> length s"
  by (simp add: skip_ws_def length_dropWhile_le)

lemma parse_str_shorter: "parse_str s = Some (x, r) \<Longrightarrow> length r < length s"
proof (induction s arbitrary: x r rule: parse_str.induct)
  case (2 c cs)
  then show ?case
    by (auto simp: parse_str.simps(2) split: if_splits list.splits option.splits dest!: hex4_shorter) fastforce+
qed simp

lemma whole_part_shorter: "whole_part s = Some (x, r) \<Longrightarrow> length r < length s"
  by (auto simp: whole_part_def digits_def le_imp_less_Suc length_dropWhile_le split: list.splits if_splits)

lemma fraction_part_le: "fraction_part s = (x, r) \<Longrightarrow> length r \<le> length s"
  by (auto simp: fraction_part_def digits_def le_SucI length_dropWhile_le split: list.splits if_splits)

lemma signed_le: "signed s = (neg, r) \<Longrightarrow> length r \<le> length s"
  by (auto simp: signed_def split: list.splits if_splits)

lemma exponent_part_le: "exponent_part s = (x, r) \<Longrightarrow> length r \<le> length s"
  using length_dropWhile_le [of is_digit]
  by (fastforce simp: exponent_part_def digits_def split: list.splits if_splits prod.splits
      dest: signed_le intro: le_trans le_SucI)

lemma parse_number_shorter:
  assumes "parse_number s = Some (x, r)"
  shows "length r < length s"
proof -
  let ?b = "if prefix ''-'' s then tl s else s"
  obtain ip r0 where w: "whole_part ?b = Some (ip, r0)"
    using assms by (auto simp: parse_number_def Let_def split: option.splits)
  obtain fp r1 where f: "fraction_part r0 = (fp, r1)" by fastforce
  obtain e r2 where e: "exponent_part r1 = (e, r2)" by fastforce
  have "r = r0 \<or> r = r2"
    using assms w f e by (auto simp: parse_number_def Let_def split: if_splits)
  then show ?thesis
    using whole_part_shorter [OF w] fraction_part_le [OF f] exponent_part_le [OF e] by (auto split: if_splits)
qed

lemma parse_scalar_shorter: "parse_scalar s = Some (x, r) \<Longrightarrow> length r < length s"
  by (auto simp: parse_scalar_def literals_def parse_number_shorter prefix_def split: if_splits)

lemma tl_skip_shorter: "prefix [c] (skip_ws s) \<Longrightarrow> length (skip_ws (tl (skip_ws s))) < length s"
  using skip_ws_le [of s] skip_ws_le [of "tl (skip_ws s)"] by (cases "skip_ws s") auto

lemma tl_shorter: "prefix [c] (skip_ws s) \<Longrightarrow> length (tl (skip_ws s)) < length s"
  using skip_ws_le [of s] by (cases "skip_ws s") auto

lemma parse_shorter:
  "parse_value n s = Some (v, r) \<Longrightarrow> length r < length s"
  "parse_members n s = Some (ps, r) \<Longrightarrow> length r < length s"
  "parse_elements n s = Some (xs, r) \<Longrightarrow> length r < length s"
proof (induction n s and n s and n s arbitrary: v r and ps r and xs r
    rule: parse_value_parse_members_parse_elements.induct)
  case (3 n c cs)
  then show ?case
    using skip_ws_le [of cs]
    by (fastforce split: if_splits dest: parse_str_shorter parse_scalar_shorter tl_shorter)
next
  case (5 n s)
  from "5.prems" obtain cs k r0 w r1 where
      s: "s = quote # cs" "parse_str cs = Some (k, r0)" "prefix '':'' (skip_ws r0)"
      "parse_value n (skip_ws (tl (skip_ws r0))) = Some (w, r1)"
    by (auto split: list.splits option.splits if_splits)
  note "5.IH"(1) [OF s(1) _ s(2) refl _ s(4)]
  then have r1: "length r1 < length s"
    using s parse_str_shorter [OF s(2)] tl_skip_shorter [OF s(3)] by simp
  show ?case
  proof (cases "prefix ''}'' (skip_ws r1)")
    case True
    then show ?thesis using s "5.prems" r1 tl_shorter [OF True] by simp
  next
    case False
    then obtain ps' where comma: "prefix '','' (skip_ws r1)"
        and ps: "parse_members n (skip_ws (tl (skip_ws r1))) = Some (ps', r)"
      using s "5.prems" by (auto split: if_splits)
    show ?thesis
      using "5.IH"(2) [OF s(1) _ s(2) refl _ s(4) refl False comma ps] s(3) tl_skip_shorter [OF comma] r1 by simp
  qed
next
  case (7 n s)
  from "7.prems" obtain w r1 where s: "parse_value n s = Some (w, r1)" by (auto split: option.splits)
  note r1 = "7.IH"(1) [OF s]
  show ?case
  proof (cases "prefix '']'' (skip_ws r1)")
    case True
    then show ?thesis using s "7.prems" r1 tl_shorter [OF True] by simp
  next
    case False
    then obtain xs' where comma: "prefix '','' (skip_ws r1)"
        and xs: "parse_elements n (skip_ws (tl (skip_ws r1))) = Some (xs', r)"
      using s "7.prems" by (auto split: if_splits)
    show ?thesis using "7.IH"(2) [OF s refl False comma xs] tl_skip_shorter [OF comma] r1 by simp
  qed
qed simp_all

text \<open>Fuel of twice the length and one is enough: more of it changes nothing.\<close>

lemma parse_fuel:
  "2 * length s < n \<Longrightarrow> parse_value (Suc n) s = parse_value n s"
  "2 * length s < n \<Longrightarrow> parse_members (Suc n) s = parse_members n s"
  "2 * length s + 1 < n \<Longrightarrow> parse_elements (Suc n) s = parse_elements n s"
proof (induction n s and n s and n s rule: parse_value_parse_members_parse_elements.induct)
  case (3 n c cs)
  have "2 * length (skip_ws cs) + 1 < n" using "3.prems" skip_ws_le [of cs] by simp
  then show ?case using "3.IH" by (simp del: parse_members.simps parse_elements.simps)
next
  case (5 n s)
  show ?case
  proof (cases "\<exists>cs k r. s = quote # cs \<and> parse_str cs = Some (k, r) \<and> prefix '':'' (skip_ws r)")
    case True
    then obtain cs k r where s: "s = quote # cs" "parse_str cs = Some (k, r)" "prefix '':'' (skip_ws r)" by blast
    let ?s = "skip_ws (tl (skip_ws r))"
    have len: "length ?s + 2 < length s"
      using s(1) parse_str_shorter [OF s(2)] tl_skip_shorter [OF s(3)] by simp
    then have eq: "parse_value (Suc n) ?s = parse_value n ?s"
      using "5.IH"(1) [OF s(1) _ s(2) refl] s(3) "5.prems" by simp
    show ?thesis
    proof (cases "parse_value n ?s")
      case None
      with eq s show ?thesis by simp
    next
      case (Some p)
      obtain v r1 where p: "p = (v, r1)" by fastforce
      have "parse_members (Suc n) (skip_ws (tl (skip_ws r1))) = parse_members n (skip_ws (tl (skip_ws r1)))"
        if "prefix '','' (skip_ws r1)" "\<not> prefix ''}'' (skip_ws r1)"
        using "5.IH"(2) [OF s(1) _ s(2) refl _ Some p [symmetric] that(2,1)] s(3) "5.prems" len
          tl_skip_shorter [OF that(1)] parse_shorter(1) [OF Some [unfolded p]] by simp
      then show ?thesis
        unfolding parse_members.simps(2) [of "Suc n"] parse_members.simps(2) [of n] s(1) list.case s(2) option.case
          prod.case eq Some p by simp
    qed
  next
    case False
    then show ?thesis by (auto split: list.split option.split)
  qed
next
  case (7 n s)
  have eq: "parse_value (Suc n) s = parse_value n s" using "7.IH"(1) "7.prems" by simp
  show ?case
  proof (cases "parse_value n s")
    case None
    with eq show ?thesis by simp
  next
    case (Some p)
    obtain v r1 where p: "p = (v, r1)" by fastforce
    have "parse_elements (Suc n) (skip_ws (tl (skip_ws r1))) = parse_elements n (skip_ws (tl (skip_ws r1)))"
      if "prefix '','' (skip_ws r1)" "\<not> prefix '']'' (skip_ws r1)"
      using "7.IH"(2) [OF Some p [symmetric] that(2,1)] "7.prems" tl_skip_shorter [OF that(1)] parse_shorter(1) [OF Some [unfolded p]] by simp
    then show ?thesis
      unfolding parse_elements.simps(2) [of "Suc n"] parse_elements.simps(2) [of n] eq Some p option.case prod.case by simp
  qed
qed simp_all

lemma parse_value_fuel: "2 * length s < n \<Longrightarrow> n \<le> m \<Longrightarrow> parse_value m s = parse_value n s"
  by (induction m rule: nat_induct) (auto simp: le_Suc_eq parse_fuel(1))

subsection \<open>Writing\<close>

text \<open>
  \<open>json.dumps(x)\<close>, in ASCII and with spaces after commas and colons. Of numbers the whole ones are written; no
  text the services build has another.
\<close>

definition hex_char :: "nat \<Rightarrow> char" where
  "hex_char n = char_of (if n < 10 then 48 + n else 87 + n)"

definition dump_char :: "char \<Rightarrow> string" where
  "dump_char c =
     (if c = quote then [backslash, quote] else if c = backslash then [backslash, backslash]
      else if c = CHR 0x0A then [backslash, CHR ''n''] else if c = CHR 0x0D then [backslash, CHR ''r'']
      else if c = CHR 0x09 then [backslash, CHR ''t''] else if c = CHR 0x0C then [backslash, CHR ''f'']
      else if c = CHR 0x08 then [backslash, CHR ''b'']
      else let n = of_char c in
        if 32 \<le> n \<and> n \<le> 126 then [c]
        else [backslash, CHR ''u'', CHR ''0'', CHR ''0'', hex_char (n div 16), hex_char (n mod 16)])"

definition dump_str :: "string \<Rightarrow> string" where
  "dump_str s = quote # concat (map dump_char s) @ [quote]"

fun join_str :: "string \<Rightarrow> string list \<Rightarrow> string" where
  "join_str sep [] = []"
| "join_str sep [w] = w"
| "join_str sep (w # ws) = w @ sep @ join_str sep ws"

fun json_dumps :: "json \<Rightarrow> string" where
  "json_dumps JNull = ''null''"
| "json_dumps (JBool b) = (if b then ''true'' else ''false'')"
| "json_dumps (JNum r) = show_int \<lfloor>r\<rfloor>"
| "json_dumps (JStr s) = dump_str s"
| "json_dumps (JList l) = ''['' @ join_str '', '' (map json_dumps l) @ '']''"
| "json_dumps (JObj d) = ''{'' @ join_str '', '' (map (\<lambda>(k, v). dump_str k @ '': '' @ json_dumps v) d) @ ''}''"
| "json_dumps (JOdd f) = f"

text \<open>Values of text: no numbers in them, and each key once.\<close>

fun textual :: "json \<Rightarrow> bool" where
  "textual (JNum r) = False"
| "textual (JOdd f) = False"
| "textual (JList l) = (\<forall>j \<in> set l. textual j)"
| "textual (JObj d) = (distinct (map fst d) \<and> (\<forall>(k, v) \<in> set d. textual v))"
| "textual _ = True"

subsection \<open>What is written is read back\<close>

lemma hex_value_char: "n < 16 \<Longrightarrow> hex_value (hex_char n) = Some n"
  by (simp add: hex_value_def hex_char_def of_char_of Let_def)

lemma hex_value_zero: "hex_value (CHR ''0'') = Some 0"
  by (simp add: hex_value_def)

lemma parse_str_dump_char:
  "parse_str (dump_char c @ r) = map_option (\<lambda>(s, r'). (c # s, r')) (parse_str r)"
proof -
  let ?n = "of_char c :: nat"
  have hex: "hex4 (CHR ''0'' # CHR ''0'' # hex_char (?n div 16) # hex_char (?n mod 16) # r) = Some (?n, r)"
    using nat_of_char_less_256 [of c] by (simp add: hex_value_zero hex_value_char less_mult_imp_div_less)
  consider "c \<in> {quote, backslash, CHR 0x0A, CHR 0x0D, CHR 0x09, CHR 0x0C, CHR 0x08}"
    | "c \<notin> {quote, backslash, CHR 0x0A, CHR 0x0D, CHR 0x09, CHR 0x0C, CHR 0x08}" "32 \<le> ?n" "?n \<le> 126"
    | "c \<notin> {quote, backslash, CHR 0x0A, CHR 0x0D, CHR 0x09, CHR 0x0C, CHR 0x08}" "\<not> (32 \<le> ?n \<and> ?n \<le> 126)"
    by blast
  then show ?thesis
  proof cases
    case 1
    then show ?thesis by (auto simp: dump_char_def parse_str.simps(2) escapes_def quote_def backslash_def)
  next
    case 2
    then show ?thesis by (simp add: dump_char_def parse_str.simps(2))
  next
    case 3
    then have "dump_char c = [backslash, CHR ''u'', CHR ''0'', CHR ''0'', hex_char (?n div 16), hex_char (?n mod 16)]"
      by (simp add: dump_char_def Let_def)
    moreover have "backslash \<noteq> quote" "\<not> of_char backslash < (32 :: nat)" by (simp_all add: quote_def backslash_def)
    ultimately show ?thesis
      using nat_of_char_less_256 [of c] by (simp add: parse_str.simps(2) [of backslash] hex del: hex4.simps)
  qed
qed

lemma parse_str_dump: "parse_str (concat (map dump_char s) @ quote # r) = Some (s, r)"
  by (induction s) (simp_all add: parse_str_dump_char parse_str.simps(2))

text \<open>The fuel a value takes.\<close>

fun weight :: "json \<Rightarrow> nat" where
  "weight (JList l) = 1 + length l + sum_list (map weight l)"
| "weight (JObj d) = 1 + length d + sum_list (map (weight \<circ> snd) d)"
| "weight _ = 1"

lemma skip_ws_Cons [simp]: "skip_ws (c # s) = (if json_space c then skip_ws s else c # s)"
  by (simp add: skip_ws_def)

lemma dump_starts:
  assumes "textual j"
  shows "\<exists>c cs. json_dumps j = c # cs \<and> \<not> json_space c \<and> c \<noteq> CHR '']''"
  using assms by (cases j) (auto simp: dump_str_def quote_def json_space_def)

lemma dict_updates_append:
  "distinct (map fst (d @ ps)) \<Longrightarrow> dict_updates d ps = d @ ps"
proof (induction ps arbitrary: d)
  case (Cons p ps)
  obtain k v where p: "p = (k, v)" by fastforce
  have "AList.update k v d = d @ [(k, v)]"
    using Cons.prems p by (intro update_new) auto
  then show ?case using Cons.IH [of "d @ [p]"] Cons.prems p by (simp add: dict_updates_def)
qed (simp add: dict_updates_def)

lemma parse_elements_dump:
  assumes "\<And>j n r. j \<in> set js \<Longrightarrow> weight j \<le> n \<Longrightarrow> parse_value n (json_dumps j @ r) = Some (j, r)"
    and "\<And>j. j \<in> set js \<Longrightarrow> textual j"
    and "js \<noteq> []" "length js + sum_list (map weight js) \<le> n"
  shows "parse_elements n (join_str '', '' (map json_dumps js) @ '']'' @ r) = Some (js, r)"
  using assms
proof (induction js arbitrary: n)
  case (Cons j js)
  obtain m where n: "n = Suc m" using Cons.prems(4) by (cases n) auto
  show ?case
  proof (cases js)
    case Nil
    then show ?thesis using Cons.prems(1) [of j m] Cons.prems(4) n by (simp add: json_space_def)
  next
    case js: (Cons i js0)
    obtain c cs where c: "json_dumps i = c # cs" "\<not> json_space c" "c \<noteq> CHR '']''"
      using dump_starts [of i] Cons.prems(2) js by auto
    have "parse_elements m (join_str '', '' (map json_dumps js) @ '']'' @ r) = Some (js, r)"
      using Cons.prems n js by (intro Cons.IH) auto
    moreover obtain cs' where "join_str '', '' (map json_dumps js) = c # cs'" using c js by (cases js0) auto
    ultimately show ?thesis
      using Cons.prems(1) [of j m] Cons.prems(4) n js c by (simp add: json_space_def)
  qed
qed simp

definition dump_member :: "string \<times> json \<Rightarrow> string" where
  "dump_member p = dump_str (fst p) @ '': '' @ json_dumps (snd p)"

lemma parse_members_dump:
  assumes "\<And>p n r. p \<in> set d \<Longrightarrow> weight (snd p) \<le> n \<Longrightarrow> parse_value n (json_dumps (snd p) @ r) = Some (snd p, r)"
    and "\<And>p. p \<in> set d \<Longrightarrow> textual (snd p)"
    and "d \<noteq> []" "length d + sum_list (map (weight \<circ> snd) d) \<le> n"
  shows "parse_members n (join_str '', '' (map dump_member d) @ ''}'' @ r) = Some (d, r)"
  using assms
proof (induction d arbitrary: n)
  case (Cons p d)
  obtain m where n: "n = Suc m" using Cons.prems(4) by (cases n) auto
  obtain c cs where c: "json_dumps (snd p) = c # cs" "\<not> json_space c"
    using dump_starts [of "snd p"] Cons.prems(2) by auto
  have key: "parse_members (Suc m) (dump_member p @ r') =
      (if prefix ''}'' (skip_ws r') then Some ([p], tl (skip_ws r'))
       else if prefix '','' (skip_ws r') then
         map_option (\<lambda>(ps, r''). (p # ps, r'')) (parse_members m (skip_ws (tl (skip_ws r'))))
       else None)" for r'
  proof -
    have "dump_member p @ r' = quote # concat (map dump_char (fst p)) @ quote # '': '' @ json_dumps (snd p) @ r'"
      by (simp add: dump_member_def dump_str_def)
    moreover have "skip_ws ('' '' @ json_dumps (snd p) @ r') = json_dumps (snd p) @ r'"
      using c by (simp add: json_space_def)
    ultimately show ?thesis
      using Cons.prems(1) [of p m r'] Cons.prems(4) n by (simp add: parse_str_dump json_space_def)
  qed
  show ?case
  proof (cases d)
    case Nil
    then show ?thesis using n key by (simp add: json_space_def)
  next
    case d: (Cons q d')
    have IH: "parse_members m (join_str '', '' (map dump_member d) @ ''}'' @ r) = Some (d, r)"
      using Cons.prems n d by (intro Cons.IH) auto
    obtain cs' where start: "join_str '', '' (map dump_member d) = quote # cs'"
      using d by (cases d') (auto simp: dump_member_def dump_str_def)
    have "join_str '', '' (map dump_member (p # d)) @ ''}'' @ r
        = dump_member p @ '', '' @ join_str '', '' (map dump_member d) @ ''}'' @ r"
      using d by simp
    moreover have "skip_ws ('' '' @ join_str '', '' (map dump_member d) @ ''}'' @ r)
        = join_str '', '' (map dump_member d) @ ''}'' @ r"
      unfolding start by (simp add: json_space_def quote_def)
    ultimately show ?thesis
      unfolding n using key [of "'', '' @ join_str '', '' (map dump_member d) @ ''}'' @ r"] IH by (simp add: json_space_def)
  qed
qed simp

lemma dump_obj: "json_dumps (JObj d) = ''{'' @ join_str '', '' (map dump_member d) @ ''}''"
proof -
  have "(\<lambda>(k, v). dump_str k @ '': '' @ json_dumps v) = dump_member"
    by (auto simp: dump_member_def fun_eq_iff)
  then show ?thesis by simp
qed

lemma parse_dump: "textual j \<Longrightarrow> weight j \<le> n \<Longrightarrow> parse_value n (json_dumps j @ r) = Some (j, r)"
proof (induction j arbitrary: n r)
  case (JList js)
  obtain m where n: "n = Suc m" using JList.prems by (cases n) auto
  show ?case
  proof (cases js)
    case Nil
    then show ?thesis using n by (simp add: quote_def json_space_def)
  next
    case (Cons j js')
    obtain c cs where c: "json_dumps j = c # cs" "\<not> json_space c" "c \<noteq> CHR '']''"
      using dump_starts [of j] JList.prems Cons by auto
    obtain cs' where start: "join_str '', '' (map json_dumps js) = c # cs'" using c Cons by (cases js') auto
    have "parse_elements m (join_str '', '' (map json_dumps js) @ '']'' @ r) = Some (js, r)"
      using JList n Cons by (intro parse_elements_dump) auto
    then show ?thesis unfolding n using start c by (simp add: quote_def)
  qed
next
  case (JObj d)
  obtain m where n: "n = Suc m" using JObj.prems by (cases n) auto
  show ?case
  proof (cases d)
    case Nil
    then show ?thesis using n by (simp add: quote_def json_space_def)
  next
    case (Cons p d')
    obtain cs' where start: "join_str '', '' (map dump_member d) = quote # cs'"
      using Cons by (cases d') (auto simp: dump_member_def dump_str_def)
    have tx: "textual (snd q)" if "q \<in> set d" for q using JObj.prems(1) that by fastforce
    have ih: "parse_value k (json_dumps (snd q) @ r') = Some (snd q, r')" if "q \<in> set d" "weight (snd q) \<le> k" for q k r'
      using JObj.IH [of q "snd q" k r'] tx that by (cases q) auto
    have "parse_members m (join_str '', '' (map dump_member d) @ ''}'' @ r) = Some (d, r)"
      by (rule parse_members_dump [OF ih tx]) (use JObj.prems(2) n Cons in auto)
    then show ?thesis
      unfolding n dump_obj using start dict_updates_append [of "[]" d] JObj.prems(1)
      by (simp add: quote_def json_space_def)
  qed
qed (case_tac n; auto simp: quote_def dump_str_def parse_str_dump [unfolded quote_def] parse_scalar_def literals_def)+

lemma length_dump_str: "2 \<le> length (dump_str s)"
  by (simp add: dump_str_def)

lemma length_join: "sum_list (map length ws) + (length ws - 1) \<le> length (join_str sep ws)" if "sep \<noteq> []"
  using that by (induction sep ws rule: join_str.induct) (auto simp: neq_Nil_conv)

lemma sum_weights:
  "(\<And>x. x \<in> set xs \<Longrightarrow> f x \<le> 2 * g x) \<Longrightarrow> sum_list (map f xs) \<le> 2 * sum_list (map g xs)" for g :: "'a \<Rightarrow> nat"
  by (induction xs) (auto simp: add_mono)

lemma weight_le: "textual j \<Longrightarrow> weight j \<le> 2 * length (json_dumps j)"
proof (induction j)
  case (JList js)
  have "sum_list (map weight js) \<le> 2 * sum_list (map (length \<circ> json_dumps) js)"
    using JList by (intro sum_weights) auto
  then show ?case using length_join [of "'', ''" "map json_dumps js"] by (simp add: o_def)
next
  case (JObj d)
  have "weight (snd p) \<le> 2 * length (dump_member p)" if "p \<in> set d" for p
    using JObj.IH [of p "snd p"] JObj.prems that by (cases p) (auto simp: dump_member_def)
  then have "sum_list (map (weight \<circ> snd) d) \<le> 2 * sum_list (map (length \<circ> dump_member) d)"
    by (intro sum_weights) auto
  then show ?case
    unfolding dump_obj using length_join [of "'', ''" "map dump_member d"] by (simp add: o_def)
qed (use length_dump_str in \<open>auto simp: dump_str_def\<close>)

text \<open>\<open>json.loads(json.dumps(x)) == x\<close> for values of text.\<close>

lemma json_loads_dumps: "textual j \<Longrightarrow> json_loads (json_dumps j) = Some j"
proof -
  assume j: "textual j"
  have "parse_value (2 * length (json_dumps j) + 1) (json_dumps j @ []) = Some (j, [])"
    using weight_le [OF j] by (intro parse_dump [OF j]) simp
  moreover have "skip_ws (json_dumps j) = json_dumps j" using dump_starts [OF j] by auto
  ultimately show ?thesis by (simp add: json_loads_def skip_ws_def)
qed

end
