(* ===== verification/Gateway_State.thy ===== *)
theory Gateway_State
  imports Gateway_Settings Py_Effects Py_Json
begin

text \<open>
  The state of a \<open>Gateway\<close> (\<open>src/apps/ray-train/gateway.py\<close>), what it asks of the world, and how its
  coroutines run.

  A coroutine is a function on the state that returns its value or the exception it raises and the state
  after it. Everything it awaits (Kubernetes, the heads of Ray clusters, Prometheus, the clock) is a field of
  \<open>api\<close>, a parameter of every definition. Such a call acts on the whole state: while a coroutine waits, the
  gateway's other coroutines run, and what they did to the gateway's dictionaries is part of what the call
  does. What a theorem needs of them is a hypothesis on the calls. The field \<open>trace\<close> is the exception: it
  records what this coroutine itself asked for, newest first.
\<close>

subsection \<open>RayJobs\<close>

text \<open>
  A RayJob. Beside its metadata: the job it runs (\<open>j_id\<close>, empty while it waits for one), its entrypoint, runtime
  environment and cluster, the resources its entrypoint asks for under KubeRay's names, the GPU models its workers
  may have (\<open>None\<close> for any), and what KubeRay reports of it.
  Since when it is in its stage on NRP (the annotation \<^verbatim>\<open>purdue-af/ray-since\<close>) is \<open>j_since\<close>.
\<close>

record rayjob =
  j_name :: string
  j_uid :: string
  j_labels :: "(string, string) dict"
  j_annotations :: "(string, string) dict"
  j_created :: time
  j_deleting :: bool
  j_id :: string
  j_entrypoint :: string
  j_env :: "(string, json) dict"
  j_resources :: "(string, json) dict"
  j_models :: "string list option"
  j_suspend :: bool
  j_since :: "time option"
  j_ttl :: int
  j_spec :: cluster_spec
  j_status :: string
  j_deployment :: string
  j_message :: string
  j_head :: string
  j_started :: "time option"
  j_ended :: "time option"
  j_ran :: "time option"
  j_ran_until :: "time option"

text \<open>A RayJob that waits for the job of a submission, and since when its head is up.\<close>

record waiting_job =
  wt_name :: string
  wt_head :: string
  wt_shape :: shape
  wt_since :: time

text \<open>
  A Job at Purdue that copies the data of a job on NRP: \<open>stage.py\<close> as the user, in or out, with
  the storage of the user's cluster and the script; and what
  Kubernetes reports of it, its conditions by type and status.
\<close>

record stage_job =
  st_name :: string
  st_labels :: "(string, string) dict"
  st_run_as :: "int \<times> int"
  st_command :: "string list"
  st_mounts :: "mount list"
  st_volumes :: "volume list"
  st_suspend :: bool

record stage_report =
  sr_conditions :: "(string \<times> string) list"
  sr_suspend :: bool

text \<open>
  \<open>NrpUsage\<close>: what a job on NRP holds, its owner's name (empty if no known name has its key), its GPUs by the phase
  of the pods that hold them, and how busy they are, 0 to 1.
\<close>

record nrp_usage =
  nu_cluster :: string
  nu_user :: string
  nu_gpus :: "(string, int) dict"
  nu_utilization :: "rat option"

subsection \<open>What a coroutine does to the world\<close>

datatype event =
    Saw_cluster string "cluster option"
  | Post_cluster cluster
  | Created_cluster cluster
  | Delete_cluster string
  | Suspend_groups string "nat list"
  | Post_secret string string string string
  | Post_job rayjob
  | Annotate_job string string string
  | Set_job_id string string string
  | Delete_job string
  | Saw_jobs "rayjob list"
  | Keep_logs string string
  | Stop_on_head string string string
  | Relay string string
  | Nrp_post rayjob
  | Nrp_patch string "(string, string) dict" "time option" "bool option"
  | Nrp_delete string
  | Saw_nrp_jobs "rayjob list"
  | Saw_stage string "string option"
  | Stage_post stage_job
  | Stage_resume string
  | Stage_delete string
  | Code_put string
  | Code_delete string

subsection \<open>The gateway\<close>

record 'w gateway =
  last_used :: "(string, time) dict"
  started :: "(string, string \<times> shape) dict"
  clients :: "(string, string list) dict"
  gone :: "(string, time \<times> string) dict"
  never_started :: "(string, string) dict"
  grants :: "(string, (string, nat) dict \<times> time) dict"
  waiting :: "(string, waiting_job) dict"
  nrp_waiting :: "(string, string \<times> time) dict"
  nrp_cleaned :: "string list"
  nrp_owners :: "(string, string) dict"
  nrp_owners_asked :: time
  nrp_held :: "nrp_usage list option"
  users :: user_cache
  trace :: "event list"
  world :: 'w

type_synonym ('w, 'a) io = "('w gateway, gw_error, 'a) eff"

definition emit :: "event \<Rightarrow> ('w, unit) io" where
  "emit e = modify (\<lambda>s. s\<lparr>trace := e # trace s\<rparr>)"

subsection \<open>The calls a coroutine awaits\<close>

text \<open>
  What a head answers to a question about itself: a status other than 200, an answer, or none in time. Of the
  tasks the answer says whether one runs, and is \<open>None\<close> if it has another form; of the jobs it is the type and
  status of each, \<open>None\<close> for an element that is no object, and \<open>None\<close> if it is no list.
\<close>

datatype 'a head_reply = HeadStatus nat | HeadSays 'a | HeadOdd

text \<open>The answer of Kubernetes to a call that changes something: its status and, if it has one, its message.\<close>

type_synonym said = "nat \<times> string option"

definition message_of :: "said \<Rightarrow> string" where
  "message_of a = (case snd a of Some m \<Rightarrow> m | None \<Rightarrow> show_nat (fst a))"

record 'w api =
  monotonic :: "'w gateway \<Rightarrow> time \<times> 'w gateway"
  wall :: "'w gateway \<Rightarrow> time \<times> 'w gateway"
  pause :: "time \<Rightarrow> 'w gateway \<Rightarrow> 'w gateway"
  new_id :: "'w gateway \<Rightarrow> string \<times> 'w gateway"
  get_cluster :: "string \<Rightarrow> ('w, nat \<times> cluster) io"
  list_clusters :: "('w, nat \<times> cluster list) io"
  post_cluster :: "cluster \<Rightarrow> ('w, said \<times> cluster) io"
  delete_cluster :: "string \<Rightarrow> ('w, nat) io"
  patch_groups :: "string \<Rightarrow> nat list \<Rightarrow> ('w, nat) io"
  post_secret :: "string \<Rightarrow> string \<Rightarrow> string \<Rightarrow> string \<Rightarrow> ('w, said) io"
  get_job :: "string \<Rightarrow> ('w, nat \<times> rayjob) io"
  list_jobs :: "string \<Rightarrow> string \<Rightarrow> ('w, nat \<times> rayjob list) io"
  post_job :: "rayjob \<Rightarrow> ('w, said \<times> rayjob) io"
  annotate_job :: "string \<Rightarrow> string \<Rightarrow> string \<Rightarrow> ('w, nat) io"
  set_job_id :: "string \<Rightarrow> string \<Rightarrow> string \<Rightarrow> ('w, said) io"
  delete_job :: "string \<Rightarrow> ('w, nat) io"
  get_configmap :: "string \<Rightarrow> ('w, nat \<times> string) io"
  post_logs :: "string \<Rightarrow> string \<Rightarrow> string \<Rightarrow> string \<Rightarrow> ('w, nat) io"
  head_version :: "string \<Rightarrow> string option \<Rightarrow> 'w gateway \<Rightarrow> nat option \<times> 'w gateway"
  head_tasks :: "string \<Rightarrow> 'w gateway \<Rightarrow> bool option head_reply \<times> 'w gateway"
  head_jobs :: "string \<Rightarrow> 'w gateway \<Rightarrow> (string \<times> string) option list option head_reply \<times> 'w gateway"
  head_job :: "string \<Rightarrow> string \<Rightarrow> string \<Rightarrow> 'w gateway \<Rightarrow> string head_reply \<times> 'w gateway"
  head_stop :: "string \<Rightarrow> string \<Rightarrow> string \<Rightarrow> 'w gateway \<Rightarrow> 'w gateway"
  head_logs :: "string \<Rightarrow> string \<Rightarrow> string \<Rightarrow> ('w, string list) io"
  gpus_allocatable :: "('w, (string, rat) dict) io"
  gpus_used :: "('w, (string, rat) dict) io"
  gpus_preemptible :: "('w, (string, rat) dict) io"
  nrp_models :: "('w, (string, gpu_model) dict) io"
  nrp_post :: "rayjob \<Rightarrow> ('w, said \<times> rayjob) io"
  nrp_change :: "string \<Rightarrow> (string, string) dict \<Rightarrow> time option \<Rightarrow> bool option \<Rightarrow> ('w, nat) io"
  nrp_list :: "string \<Rightarrow> string \<Rightarrow> ('w, nat \<times> rayjob list) io"
  nrp_remove :: "string \<Rightarrow> ('w, nat) io"
  nrp_pods :: "string \<Rightarrow> ('w, nat \<times> (string \<times> string) list) io"
  nrp_pod_log :: "string \<Rightarrow> ('w, nat \<times> string) io"
  nrp_utilization :: "string \<Rightarrow> ('w, rat list) io"
  get_stage :: "string \<Rightarrow> ('w, nat \<times> stage_report) io"
  post_stage :: "stage_job \<Rightarrow> ('w, said) io"
  resume_stage :: "string \<Rightarrow> ('w, nat) io"
  delete_stage :: "string \<Rightarrow> ('w, nat) io"
  bucket_put :: "string \<Rightarrow> string \<Rightarrow> ('w, unit) io"
  bucket_exists :: "string \<Rightarrow> ('w, bool) io"
  bucket_delete :: "string \<Rightarrow> ('w, unit) io"
  bucket_jobs :: "('w, (string, time) dict) io"
  hub_page :: "nat \<Rightarrow> ('w, nat \<times> string list \<times> nat option) io"
  nrp_held_samples :: "('w, sample list \<times> sample list) io"
  relay_call :: "string \<Rightarrow> string \<Rightarrow> (string \<times> string) list \<Rightarrow> string \<Rightarrow> ('w, nat \<times> (string \<times> string) list) io"

text \<open>
  What the gateway is set up with: SHA-256 and the keyed hash of cluster tokens, the flavors and the template of
  clusters, its service token (empty until the Hub makes it), who the Hub, LDAP and the session pods say a caller
  is, the workload accounts, and the RayJob of a job on NRP
  (\<open>rayjob-nrp.yaml\<close>) with the size of its workers.
\<close>

record gw_config =
  cfg_sha :: "string \<Rightarrow> string"
  cfg_hmac :: "string \<Rightarrow> string \<Rightarrow> string"
  cfg_flavors :: "flavor list"
  cfg_template :: cluster
  cfg_service_token :: string
  cfg_dir :: directory
  cfg_accts :: "(string, account) dict"
  cfg_nrp_worker :: nworker
  cfg_nrp_template :: rayjob
  cfg_nrp_enabled :: bool
  cfg_bucket :: string

definition now_m :: "'w api \<Rightarrow> ('w, time) io" where
  "now_m api = (\<lambda>s. case monotonic api s of (t, s') \<Rightarrow> (Inr t, s'))"

definition now_w :: "'w api \<Rightarrow> ('w, time) io" where
  "now_w api = (\<lambda>s. case wall api s of (t, s') \<Rightarrow> (Inr t, s'))"

definition sleep :: "'w api \<Rightarrow> time \<Rightarrow> ('w, unit) io" where
  "sleep api t = (\<lambda>s. (Inr (), pause api t s))"

subsection \<open>What a call leaves as it was\<close>

text \<open>
  A coroutine or a call that keeps a part \<open>f\<close> of the state, and an \<open>api\<close> all of whose calls do: what runs
  meanwhile may change the rest.
\<close>

definition keeps :: "('w gateway \<Rightarrow> 'x) \<Rightarrow> 'w api \<Rightarrow> bool" where
  "keeps f api \<longleftrightarrow>
     (holds f (monotonic api))
     \<and> (holds f (wall api))
     \<and> (\<forall>x. holds f (\<lambda>s. ((), pause api x s)))
     \<and> (holds f (new_id api))
     \<and> (\<forall>x. holds f (get_cluster api x))
     \<and> (holds f (list_clusters api))
     \<and> (\<forall>x. holds f (post_cluster api x))
     \<and> (\<forall>x. holds f (delete_cluster api x))
     \<and> (\<forall>x y. holds f (patch_groups api x y))
     \<and> (\<forall>x y z u. holds f (post_secret api x y z u))
     \<and> (\<forall>x. holds f (get_job api x))
     \<and> (\<forall>x y. holds f (list_jobs api x y))
     \<and> (\<forall>x. holds f (post_job api x))
     \<and> (\<forall>x y z. holds f (annotate_job api x y z))
     \<and> (\<forall>x y z. holds f (set_job_id api x y z))
     \<and> (\<forall>x. holds f (delete_job api x))
     \<and> (\<forall>x. holds f (get_configmap api x))
     \<and> (\<forall>x y z u. holds f (post_logs api x y z u))
     \<and> (\<forall>x y. holds f (head_version api x y))
     \<and> (\<forall>x. holds f (head_tasks api x))
     \<and> (\<forall>x. holds f (head_jobs api x))
     \<and> (\<forall>x y z. holds f (head_job api x y z))
     \<and> (\<forall>x y z. holds f (\<lambda>s. ((), head_stop api x y z s)))
     \<and> (\<forall>x y z. holds f (head_logs api x y z))
     \<and> (holds f (gpus_allocatable api))
     \<and> (holds f (gpus_used api))
     \<and> (holds f (gpus_preemptible api))
     \<and> (holds f (nrp_models api))
     \<and> (\<forall>x. holds f (nrp_post api x))
     \<and> (\<forall>x y z u. holds f (nrp_change api x y z u))
     \<and> (\<forall>x y. holds f (nrp_list api x y))
     \<and> (\<forall>x. holds f (nrp_remove api x))
     \<and> (\<forall>x. holds f (nrp_pods api x))
     \<and> (\<forall>x. holds f (nrp_pod_log api x))
     \<and> (\<forall>x. holds f (nrp_utilization api x))
     \<and> (\<forall>x. holds f (get_stage api x))
     \<and> (\<forall>x. holds f (post_stage api x))
     \<and> (\<forall>x. holds f (resume_stage api x))
     \<and> (\<forall>x. holds f (delete_stage api x))
     \<and> (\<forall>x y. holds f (bucket_put api x y))
     \<and> (\<forall>x. holds f (bucket_exists api x))
     \<and> (\<forall>x. holds f (bucket_delete api x))
     \<and> (holds f (bucket_jobs api))
     \<and> (\<forall>x. holds f (hub_page api x))
     \<and> (holds f (nrp_held_samples api))
     \<and> (\<forall>x y z u. holds f (relay_call api x y z u))"

lemma holds_error [holds_intros]:
  "(\<And>c t. holds f (g c t)) \<Longrightarrow> holds f m \<Longrightarrow> (\<And>t. holds f (h t)) \<Longrightarrow> holds f m'
   \<Longrightarrow> holds f (case e of Refused c t \<Rightarrow> g c t | ClientError \<Rightarrow> m | PyError t \<Rightarrow> h t | Diverged \<Rightarrow> m')"
  by (cases e) simp_all

lemma holds_reply [holds_intros]:
  "(\<And>n. holds f (g n)) \<Longrightarrow> (\<And>a. holds f (h a)) \<Longrightarrow> holds f m
   \<Longrightarrow> holds f (case r of HeadStatus n \<Rightarrow> g n | HeadSays a \<Rightarrow> h a | HeadOdd \<Rightarrow> m)"
  by (cases r) simp_all

lemma holds_now_m [holds_intros]: "keeps f api \<Longrightarrow> holds f (now_m api)"
  by (auto simp: keeps_def holds_def now_m_def split: prod.split) (metis snd_conv)

lemma holds_now_w [holds_intros]: "keeps f api \<Longrightarrow> holds f (now_w api)"
  by (auto simp: keeps_def holds_def now_w_def split: prod.split) (metis snd_conv)

lemma holds_sleep [holds_intros]: "keeps f api \<Longrightarrow> holds f (sleep api t)"
  by (auto simp: keeps_def holds_def sleep_def)

lemma keeps_calls [holds_intros]:
  assumes "keeps f api"
  shows "holds f (monotonic api)" "holds f (wall api)" "holds f (\<lambda>s. ((), pause api x2 s))"
    "holds f (new_id api)" "holds f (get_cluster api x4)" "holds f (list_clusters api)" "holds f (post_cluster api x6)"
    "holds f (delete_cluster api x7)" "holds f (patch_groups api x8 y8)" "holds f (post_secret api x9 y9 z9 u9)"
    "holds f (get_job api x10)" "holds f (list_jobs api x11 y11)" "holds f (post_job api x12)"
    "holds f (annotate_job api x13 y13 z13)" "holds f (set_job_id api x14 y14 z14)" "holds f (delete_job api x15)"
    "holds f (get_configmap api x16)" "holds f (post_logs api x17 y17 z17 u17)" "holds f (head_version api x18 y18)"
    "holds f (head_tasks api x19)" "holds f (head_jobs api x20)" "holds f (head_job api x21 y21 z21)"
    "holds f (\<lambda>s. ((), head_stop api x22 y22 z22 s))" "holds f (head_logs api x23 y23 z23)"
    "holds f (gpus_allocatable api)" "holds f (gpus_used api)" "holds f (gpus_preemptible api)"
    "holds f (nrp_models api)" "holds f (nrp_post api x28)" "holds f (nrp_change api x29 y29 z29 u29)"
    "holds f (nrp_list api x30 y30)" "holds f (nrp_remove api x31)" "holds f (nrp_pods api x32)"
    "holds f (nrp_pod_log api x33)" "holds f (nrp_utilization api x34)" "holds f (get_stage api x35)"
    "holds f (post_stage api x36)" "holds f (resume_stage api x37)" "holds f (delete_stage api x38)"
    "holds f (bucket_put api x39 y39)" "holds f (bucket_exists api x40)" "holds f (bucket_delete api x41)"
    "holds f (bucket_jobs api)" "holds f (hub_page api x43)" "holds f (nrp_held_samples api)"
    "holds f (relay_call api x45 y45 z45 u45)"
  using assms unfolding keeps_def by simp_all

subsection \<open>Proof rules of the calls\<close>

lemma preserves_emit [pres_intros]: "(\<And>s. I s \<Longrightarrow> I (s\<lparr>trace := e # trace s\<rparr>)) \<Longrightarrow> preserves I (emit e)"
  unfolding emit_def by (intro preserves_modify)

lemma preserves_error [pres_intros]:
  "(\<And>c t. preserves I (g c t)) \<Longrightarrow> preserves I m \<Longrightarrow> (\<And>t. preserves I (h t)) \<Longrightarrow> preserves I m'
   \<Longrightarrow> preserves I (case e of Refused c t \<Rightarrow> g c t | ClientError \<Rightarrow> m | PyError t \<Rightarrow> h t | Diverged \<Rightarrow> m')"
  by (cases e) simp_all

lemmas run_defs = bindm_def of_sum_def now_m_def now_w_def sleep_def asks_def modify_def gets_def raise_def ret_def
  catch_def emit_def whenm_def logged_def

lemma now_m_Inr [run_simps]: "now_m api s = (Inr b, t) \<longleftrightarrow> monotonic api s = (b, t)"
  by (auto simp: now_m_def split: prod.split)

lemma now_w_Inr [run_simps]: "now_w api s = (Inr b, t) \<longleftrightarrow> wall api s = (b, t)"
  by (auto simp: now_w_def split: prod.split)

lemma emit_Inr [run_simps]: "emit e s = (Inr b, t) \<longleftrightarrow> t = s\<lparr>trace := e # trace s\<rparr>"
  by (auto simp: emit_def run_simps)

lemma wp_emit [wp_simps]: "wp (emit e) R X = (\<lambda>s. R () (s\<lparr>trace := e # trace s\<rparr>))"
  by (simp add: emit_def wp_simps)

lemma wp_now_m [wp_simps]: "wp (now_m api) R X = (\<lambda>s. R (fst (monotonic api s)) (snd (monotonic api s)))"
  by (simp add: fun_eq_iff wp_def now_m_def split: prod.split)

lemma wp_now_w [wp_simps]: "wp (now_w api) R X = (\<lambda>s. R (fst (wall api s)) (snd (wall api s)))"
  by (simp add: fun_eq_iff wp_def now_w_def split: prod.split)

lemma wp_sleep [wp_simps]: "wp (sleep api t) R X = (\<lambda>s. R () (pause api t s))"
  by (simp add: fun_eq_iff wp_def sleep_def)

subsection \<open>A world\<close>

text \<open>
  A world in which nothing runs and every change is accepted, for examples: no call changes the state, and
  Prometheus does not answer.
\<close>

definition example_job :: rayjob where
  "example_job = \<lparr>j_name = ''ray-job-1'', j_uid = ''u1'', j_labels = [], j_annotations = [], j_created = 0,
     j_deleting = False, j_id = ''raysubmit_1'', j_entrypoint = [], j_env = [], j_resources = [], j_models = None, j_suspend = False,
     j_since = None, j_ttl = 0, j_spec = k_spec example_template,
     j_status = [], j_deployment = [], j_message = [], j_head = [], j_started = None, j_ended = None,
     j_ran = None, j_ran_until = None\<rparr>"

definition example_api :: "'w api" where
  "example_api = \<lparr>monotonic = Pair 0, wall = Pair 0, pause = \<lambda>_ s. s, new_id = Pair ''raysubmit_1'',
     get_cluster = \<lambda>_. ret (404, example_template), list_clusters = ret (200, []),
     post_cluster = \<lambda>c. ret ((201, None), c), delete_cluster = \<lambda>_. ret 200, patch_groups = \<lambda>_ _. ret 200,
     post_secret = \<lambda>_ _ _ _. ret (201, None), get_job = \<lambda>_. ret (404, example_job),
     list_jobs = \<lambda>_ _. ret (200, []), post_job = \<lambda>j. ret ((201, None), j), annotate_job = \<lambda>_ _ _. ret 200,
     set_job_id = \<lambda>_ _ _. ret (200, None), delete_job = \<lambda>_. ret 200, get_configmap = \<lambda>_. ret (404, []),
     post_logs = \<lambda>_ _ _ _. ret 201, head_version = \<lambda>_ _. Pair None, head_tasks = \<lambda>_. Pair HeadOdd,
     head_jobs = \<lambda>_. Pair HeadOdd, head_job = \<lambda>_ _ _. Pair HeadOdd, head_stop = \<lambda>_ _ _ s. s,
     head_logs = \<lambda>_ _ _. raise ClientError, gpus_allocatable = raise ClientError,
     gpus_used = raise ClientError, gpus_preemptible = raise ClientError, nrp_models = raise ClientError,
     nrp_post = \<lambda>j. ret ((201, None), j), nrp_change = \<lambda>_ _ _ _. ret 200, nrp_list = \<lambda>_ _. ret (200, []),
     nrp_remove = \<lambda>_. ret 200, nrp_pods = \<lambda>_. ret (200, []), nrp_pod_log = \<lambda>_. ret (404, []),
     nrp_utilization = \<lambda>_. ret [], get_stage = \<lambda>_. ret (404, \<lparr>sr_conditions = [], sr_suspend = False\<rparr>),
     post_stage = \<lambda>_. ret (201, None), resume_stage = \<lambda>_. ret 200, delete_stage = \<lambda>_. ret 200,
     bucket_put = \<lambda>_ _. ret (), bucket_exists = \<lambda>_. ret False, bucket_delete = \<lambda>_. ret (), bucket_jobs = ret [],
     hub_page = \<lambda>_. raise ClientError, nrp_held_samples = raise ClientError,
     relay_call = \<lambda>_ _ _ _. ret (200, [])\<rparr>"

lemma example_api_simps [simp]:
  "monotonic example_api = Pair 0" "wall example_api = Pair 0" "pause example_api = (\<lambda>_ s. s)"
  "new_id example_api = Pair ''raysubmit_1''" "get_cluster example_api = (\<lambda>_. ret (404, example_template))"
  "list_clusters example_api = ret (200, [])" "post_cluster example_api = (\<lambda>c. ret ((201, None), c))"
  "delete_cluster example_api = (\<lambda>_. ret 200)" "patch_groups example_api = (\<lambda>_ _. ret 200)"
  "post_secret example_api = (\<lambda>_ _ _ _. ret (201, None))" "get_job example_api = (\<lambda>_. ret (404, example_job))"
  "list_jobs example_api = (\<lambda>_ _. ret (200, []))" "post_job example_api = (\<lambda>j. ret ((201, None), j))"
  "annotate_job example_api = (\<lambda>_ _ _. ret 200)" "set_job_id example_api = (\<lambda>_ _ _. ret (200, None))"
  "delete_job example_api = (\<lambda>_. ret 200)" "get_configmap example_api = (\<lambda>_. ret (404, []))"
  "post_logs example_api = (\<lambda>_ _ _ _. ret 201)" "head_version example_api = (\<lambda>_ _. Pair None)"
  "head_tasks example_api = (\<lambda>_. Pair HeadOdd)" "head_jobs example_api = (\<lambda>_. Pair HeadOdd)"
  "head_job example_api = (\<lambda>_ _ _. Pair HeadOdd)" "head_stop example_api = (\<lambda>_ _ _ s. s)"
  "head_logs example_api = (\<lambda>_ _ _. raise ClientError)" "gpus_allocatable example_api = raise ClientError"
  "gpus_used example_api = raise ClientError" "gpus_preemptible example_api = raise ClientError"
  "nrp_models example_api = raise ClientError" "nrp_post example_api = (\<lambda>j. ret ((201, None), j))"
  "nrp_change example_api = (\<lambda>_ _ _ _. ret 200)" "nrp_list example_api = (\<lambda>_ _. ret (200, []))"
  "nrp_remove example_api = (\<lambda>_. ret 200)" "nrp_pods example_api = (\<lambda>_. ret (200, []))"
  "nrp_pod_log example_api = (\<lambda>_. ret (404, []))" "nrp_utilization example_api = (\<lambda>_. ret [])"
  "get_stage example_api = (\<lambda>_. ret (404, \<lparr>sr_conditions = [], sr_suspend = False\<rparr>))"
  "post_stage example_api = (\<lambda>_. ret (201, None))" "resume_stage example_api = (\<lambda>_. ret 200)"
  "delete_stage example_api = (\<lambda>_. ret 200)" "bucket_put example_api = (\<lambda>_ _. ret ())"
  "bucket_exists example_api = (\<lambda>_. ret False)" "bucket_delete example_api = (\<lambda>_. ret ())"
  "bucket_jobs example_api = ret []" "hub_page example_api = (\<lambda>_. raise ClientError)"
  "nrp_held_samples example_api = raise ClientError" "relay_call example_api = (\<lambda>_ _ _ _. ret (200, []))"
  by (simp_all add: example_api_def)

lemma example_api_keeps: "keeps f example_api"
  by (simp add: keeps_def holds_def) (simp add: ret_def raise_def)

definition example_config :: gw_config where
  "example_config = \<lparr>cfg_sha = \<lambda>t. t, cfg_hmac = \<lambda>k t. k @ t, cfg_flavors = FLAVORS, cfg_template = example_template,
     cfg_service_token = ''service'', cfg_dir = example_directory, cfg_accts = [], cfg_nrp_worker = example_worker,
     cfg_nrp_template = example_job,
     cfg_nrp_enabled = True, cfg_bucket = ''bucket''\<rparr>"

definition example_headers :: "(string, string) dict" where
  "example_headers = [(''authorization'', ''Bearer t''), (''af-max-workers'', ''2''), (''af-env'', ''/work/x/env'')]"

definition example_gateway :: "unit gateway" where
  "example_gateway = \<lparr>last_used = [], started = [], clients = [], gone = [], never_started = [], grants = [],
     waiting = [], nrp_waiting = [], nrp_cleaned = [], nrp_owners = [], nrp_owners_asked = 0, nrp_held = None, users = [], trace = [], world = ()\<rparr>"

end
