(* ===== verification/Gateway_Admission.thy ===== *)
theory Gateway_Admission
  imports Gateway_State
begin

text \<open>
  How many workers of each kind of GPU a cluster gets (\<open>Gateway.admit\<close>, \<open>Gateway.free_gpus\<close> and
  \<open>Gateway.capacity\<close> of \<open>src/apps/ray-train/gateway.py\<close>, with the metrics of
  \<open>src/apps/jupyterhub/jupyterhub/extraFiles/gpu_queries.py\<close>).
\<close>

subsection \<open>What is free\<close>

definition GPU_METRICS :: "(string, string) dict" where
  "GPU_METRICS = [(''nvidia.com/mig-1g.5gb'', ''nvidia_com_mig_1g_5gb''),
     (''nvidia.com/mig-7g.40gb'', ''nvidia_com_mig_7g_40gb''),
     (''nvidia.com/gpu'', ''nvidia_com_gpu'')]"

text \<open>
  Of each GPU resource, those no pod holds and those preemptible pods hold. A resource of no metric raises
  \<open>KeyError\<close>, which \<open>free_gpus\<close> turns into \<open>None\<close> as it does a metric that is not reported.
\<close>

fun free_of :: "(string, rat) dict \<Rightarrow> (string, rat) dict \<Rightarrow> (string, rat) dict \<Rightarrow> flavor list
    \<Rightarrow> (string, int \<times> int) dict option" where
  "free_of allocatable used preemptible [] = Some []"
| "free_of allocatable used preemptible (f # fs) =
     (case map_of GPU_METRICS (resource f) of
        None \<Rightarrow> None
      | Some metric \<Rightarrow> (case map_of allocatable metric of
          None \<Rightarrow> None
        | Some a \<Rightarrow>
            let evictable = trunc (dict_get preemptible metric 0);
                held = dict_get used metric 0 + of_int evictable;
                unheld = max (trunc (a - held)) 0
            in map_option (\<lambda>free. (resource f, (unheld, evictable)) # free)
                 (free_of allocatable used preemptible fs)))"

definition free_gpus :: "flavor list \<Rightarrow> 'w api \<Rightarrow> ('w, (string, int \<times> int) dict option) io" where
  "free_gpus fl api = catch
     (bindm (gpus_allocatable api) (\<lambda>allocatable.
      bindm (gpus_used api) (\<lambda>used.
      bindm (gpus_preemptible api) (\<lambda>preemptible.
      ret (free_of allocatable used preemptible fl)))))
     (\<lambda>e. case e of Refused code text \<Rightarrow> raise e | _ \<Rightarrow> ret None)"

subsection \<open>The mix of a cluster\<close>

definition dict_total :: "('k, nat) dict \<Rightarrow> nat" where
  "dict_total d = sum_list (map snd d)"

definition gpus_in :: "('c, (string, nat) dict) dict \<Rightarrow> string \<Rightarrow> nat" where
  "gpus_in d r = (\<Sum>(c, g) \<leftarrow> d. dict_get g r 0)"

definition GRANT_S :: time where "GRANT_S = 120"

definition ORIGINATED :: string where "ORIGINATED = ''ray.io/originated-from-cr-name''"

text \<open>What the clusters of the listing hold, a RayJob's cluster under the name of its RayJob.\<close>

definition held_by_others :: "flavor list \<Rightarrow> cluster list \<Rightarrow> string \<Rightarrow> (string, (string, nat) dict) dict" where
  "held_by_others fl items name = AList.delete name
     (foldl (\<lambda>d c. AList.update (dict_get (k_labels c) ORIGINATED (k_name c)) (held_gpus fl c) d) [] items)"

text \<open>The GPUs of a flavor a cluster may take: of its budget while Prometheus is silent, else of those free.\<close>

definition available :: "(string, int \<times> int) dict option \<Rightarrow> (string, (string, nat) dict) dict
    \<Rightarrow> (string, (string, nat) dict) dict \<Rightarrow> (string, nat) dict \<Rightarrow> flavor \<Rightarrow> int" where
  "available free granted others replaced f =
     (case free of
        None \<Rightarrow> int (budget f) - int (gpus_in (dict_updates granted others) (resource f))
      | Some d \<Rightarrow> fst (dict_get d (resource f) (0, 0)) + int (dict_get replaced (resource f) 0)
          - int (gpus_in granted (resource f)))"

definition evictable :: "(string, int \<times> int) dict option \<Rightarrow> (string, (string, nat) dict) dict
    \<Rightarrow> (string, nat) dict \<Rightarrow> flavor \<Rightarrow> bool" where
  "evictable free granted replaced f \<longleftrightarrow>
     (case free of
        None \<Rightarrow> False
      | Some d \<Rightarrow> fst (dict_get d (resource f) (0, 0)) + snd (dict_get d (resource f) (0, 0))
          - int (dict_get replaced (resource f) 0) - int (gpus_in granted (resource f)) > 0)"

fun mix_of :: "nat \<Rightarrow> nat \<Rightarrow> (flavor \<Rightarrow> int) \<Rightarrow> (string, nat) dict \<Rightarrow> flavor list \<Rightarrow> (string, nat) dict" where
  "mix_of per wanted avail mix [] = mix"
| "mix_of per wanted avail mix (f # fs) = mix_of per wanted avail
     (AList.update (resource f)
       (nat (max (min (avail f div int per) (int wanted - int (dict_total mix))) 0)) mix) fs"

definition mix_evicting :: "nat \<Rightarrow> (flavor \<Rightarrow> bool) \<Rightarrow> flavor list \<Rightarrow> (string, nat) dict \<Rightarrow> (string, nat) dict" where
  "mix_evicting per evicts fs mix =
     (if per = 1 \<and> dict_total mix = 0
      then (case find evicts fs of None \<Rightarrow> mix | Some f \<Rightarrow> AList.update (resource f) 1 mix)
      else mix)"

definition exhausted :: "nat \<Rightarrow> nat \<Rightarrow> string \<Rightarrow> nat \<Rightarrow> gw_error" where
  "exhausted least per mem got = Refused RESOURCE_EXHAUSTED
     (''Your Ray cluster asks for '' @ show_nat least @ '' workers with ''
      @ (if per = 1 then ''a GPU'' else show_nat per @ '' GPUs'') @ '' of '' @ mem
      @ '' GB or more each, and Ray clusters can take '' @ show_nat got @ '' more now: ''
      @ (if least > 1 then ''ask for fewer with af-n-workers, for those that are free with af-max-workers, or ''
         else []) @ ''try again later.'')"

definition admit :: "flavor list \<Rightarrow> 'w api \<Rightarrow> shape \<Rightarrow> (string, nat) dict \<Rightarrow> string \<Rightarrow> ('w, (string, nat) dict) io" where
  "admit fl api shape replaced name =
     bindm (of_sum (value_or_raise (int_of (sh_workers shape)))) (\<lambda>wanted.
     bindm (of_sum (value_or_raise (int_of (sh_least shape)))) (\<lambda>least.
     bindm (of_sum (value_or_raise (int_of (sh_per_worker shape)))) (\<lambda>per.
     bindm (list_clusters api) (\<lambda>(status, items).
     if status \<noteq> 200 then raise (Refused UNAVAILABLE
       (''Kubernetes answered HTTP '' @ show_nat status @ '' for the Ray clusters.''))
     else
     bindm (now_m api) (\<lambda>now.
     bindm (modify (\<lambda>s. s\<lparr>grants := filter (\<lambda>(c, g). snd g > now) (grants s)\<rparr>)) (\<lambda>_.
     bindm (gets (\<lambda>s. map (\<lambda>(c, g). (c, fst g)) (AList.delete name (grants s)))) (\<lambda>granted.
     bindm (free_gpus fl api) (\<lambda>free.
     bindm (of_sum (value_or_raise (shape_flavors fl shape))) (\<lambda>flavors.
     if per = 0 \<and> flavors \<noteq> [] then raise (PyError ''ZeroDivisionError'')
     else
     let others = held_by_others fl items name;
         mix = mix_evicting per (evictable free granted replaced) flavors
           (mix_of per wanted (available free granted others replaced) [] flavors);
         got = dict_total mix
     in if least > got then raise (exhausted least per (sh_memory shape) got)
        else bindm (modify (\<lambda>s. s\<lparr>grants := AList.update name
               (map (\<lambda>(r, n). (r, n * per)) mix, now + GRANT_S) (grants s)\<rparr>)) (\<lambda>_. ret mix))))))))))"

subsection \<open>Lemmas on mixes\<close>

lemma dict_total_update:
  "dict_total (AList.update k v d) + dict_get d k 0 = dict_total d + v"
  by (induction d) (auto simp: dict_total_def)

lemma dict_total_fresh [simp]: "k \<notin> fst ` set d \<Longrightarrow> dict_total (AList.update k v d) = dict_total d + v"
  using dict_total_update [of k v d] by (simp add: dict_get_def map_of_eq_None_iff [THEN iffD2])

lemma dict_total_0: "dict_total d = 0 \<Longrightarrow> dict_get d k 0 = 0"
  by (induction d) (auto simp: dict_total_def)

lemma mix_of_keys: "fst ` set (mix_of per wanted avail mix fs) = fst ` set mix \<union> resource ` set fs"
  by (induction fs arbitrary: mix) (auto simp: dom_update)

lemma mix_of_total:
  assumes "dict_total mix \<le> wanted" "distinct (map resource fs)" "\<forall>f \<in> set fs. resource f \<notin> fst ` set mix"
  shows "dict_total (mix_of per wanted avail mix fs) \<le> wanted"
  using assms
proof (induction fs arbitrary: mix)
  case (Cons f fs)
  let ?n = "nat (max (min (avail f div int per) (int wanted - int (dict_total mix))) 0)"
  have "dict_total (AList.update (resource f) ?n mix) \<le> wanted" using Cons.prems(1,3) by simp
  moreover have "\<forall>g \<in> set fs. resource g \<notin> fst ` set (AList.update (resource f) ?n mix)"
    using Cons.prems(2,3) by (simp only: dom_update) (auto simp: rev_image_eqI)
  ultimately have "dict_total (mix_of per wanted avail (AList.update (resource f) ?n mix) fs) \<le> wanted"
    using Cons.prems(2) by (intro Cons.IH) simp_all
  then show ?case by simp
qed simp

lemma mix_of_other: "r \<notin> resource ` set fs \<Longrightarrow> dict_get (mix_of per wanted avail mix fs) r 0 = dict_get mix r 0"
  by (induction fs arbitrary: mix) auto

text \<open>A mix never takes more of a flavor than is available.\<close>

lemma mix_of_available:
  assumes "distinct (map resource fs)" "f \<in> set fs" "0 < per"
    "dict_get (mix_of per wanted avail mix fs) (resource f) 0 > 0"
  shows "int (dict_get (mix_of per wanted avail mix fs) (resource f) 0 * per) \<le> avail f"
  using assms
proof (induction fs arbitrary: mix)
  case (Cons g fs)
  show ?case
  proof (cases "f = g")
    case True
    let ?n = "nat (max (min (avail f div int per) (int wanted - int (dict_total mix))) 0)"
    have n: "dict_get (mix_of per wanted avail mix (g # fs)) (resource f) 0 = ?n"
      unfolding mix_of.simps(2) using True Cons.prems(1) by (subst mix_of_other) (simp_all add: image_iff)
    with Cons.prems(4) have "0 < ?n" by argo
    then have "int ?n \<le> avail f div int per" by linarith
    then have "int ?n * int per \<le> avail f div int per * int per" by (rule mult_right_mono) simp
    also have "\<dots> \<le> avail f" using Cons.prems(3) by (simp add: minus_mod_eq_div_mult [symmetric])
    finally show ?thesis unfolding n by simp
  next
    case False
    then have "f \<in> set fs" "distinct (map resource fs)" using Cons.prems(1,2) by simp_all
    with Cons.IH Cons.prems(3,4) show ?thesis unfolding mix_of.simps(2) by blast
  qed
qed simp

lemma gpus_in_simps [simp]:
  "gpus_in [] r = 0" "gpus_in ((c, g) # d) r = dict_get g r 0 + gpus_in d r"
  by (auto simp: gpus_in_def)

lemma gpus_in_update:
  assumes "distinct (map fst d)"
  shows "gpus_in (AList.update c g d) r = gpus_in (AList.delete c d) r + dict_get g r 0"
  using assms
proof (induction d)
  case (Cons x d)
  have "c \<notin> fst ` set d \<Longrightarrow> AList.delete c d = d" by (simp add: delete_id)
  with Cons show ?case by (cases x) auto
qed simp

lemma gpus_in_delete_le: "gpus_in (AList.delete c d) r \<le> gpus_in d r"
  by (induction d) auto

lemma gpus_in_filter_le: "gpus_in (filter P d) r \<le> gpus_in d r"
  by (induction d) auto

lemma dict_get_scaled: "dict_get (map (\<lambda>(r, n). (r, n * k)) d) r 0 = dict_get d r 0 * (k :: nat)"
  by (induction d) auto

subsection \<open>An admission\<close>

lemma admitE:
  assumes "admit fl api shape replaced name s = (Inr mix, t)"
  obtains wanted least per flavors items s1 now s2 free s3 granted where
    "int_of (sh_workers shape) = Some wanted" "int_of (sh_least shape) = Some least"
    "int_of (sh_per_worker shape) = Some per" "shape_flavors fl shape = Some flavors" "0 < per \<or> flavors = []"
    "list_clusters api s = (Inr (200, items), s1)" "monotonic api s1 = (now, s2)"
    "free_gpus fl api (s2\<lparr>grants := filter (\<lambda>(c, g). snd g > now) (grants s2)\<rparr>) = (Inr free, s3)"
    "granted = map (\<lambda>(c, g). (c, fst g)) (AList.delete name (filter (\<lambda>(c, g). snd g > now) (grants s2)))"
    "mix = mix_evicting per (evictable free granted replaced) flavors
       (mix_of per wanted (available free granted (held_by_others fl items name) replaced) [] flavors)"
    "least \<le> dict_total mix"
    "t = s3\<lparr>grants := AList.update name (map (\<lambda>(r, n). (r, n * per)) mix, now + GRANT_S) (grants s3)\<rparr>"
proof -
  from assms show ?thesis
    unfolding admit_def
    apply (simp only: run_simps Let_def split_paired_Ex prod.case value_or_raise_eq_Inr not_not de_Morgan_conj
        neq0_conv not_less)
    apply (elim exE conjE)
    apply hypsubst
    by (rule that, assumption, assumption, assumption, assumption, assumption, assumption, assumption, assumption) simp_all
qed

lemma shape_flavors_distinct:
  "shape_flavors fl shape = Some flavors \<Longrightarrow> distinct (map resource fl) \<Longrightarrow> distinct (map resource flavors)"
  by (auto simp: shape_flavors_def distinct_map_filter split: option.splits)

lemma mix_evicting_get:
  "dict_get (mix_evicting per evicts fs mix) r 0 = dict_get mix r 0
   \<or> (per = 1 \<and> dict_get (mix_evicting per evicts fs mix) r 0 = 1 \<and> dict_total mix = 0
        \<and> (\<exists>f \<in> set fs. evicts f \<and> resource f = r))"
  by (auto simp: mix_evicting_def find_Some_iff split: option.split)

lemma mix_evicting_total:
  "dict_total (mix_evicting per evicts fs mix) \<le> max (dict_total mix) 1"
proof (cases "per = 1 \<and> dict_total mix = 0")
  case True
  have "dict_total (AList.update r 1 mix) \<le> 1" for r
    using dict_total_update [of r 1 mix] True by simp
  then show ?thesis by (auto simp: mix_evicting_def split: option.split)
qed (auto simp: mix_evicting_def)

lemma mix_evicting_keys:
  "fst ` set mix = resource ` set fs \<Longrightarrow> fst ` set (mix_evicting per evicts fs mix) = resource ` set fs"
  by (auto simp: mix_evicting_def dom_update find_Some_iff split: option.split)

text \<open>
  What an admission gives is what was asked for. The mix has a number for each kind of GPU the shape allows and
  for no other, together at least as many workers as the cluster starts with and at most as many as it
  asks for; its GPUs are granted to the cluster from then on, for \<open>GRANT_S\<close>.
\<close>

theorem admit_as_asked:
  assumes run: "admit fl api shape replaced name s = (Inr mix, t)"
    and shape: "shape_ok fl shape" and fl: "distinct (map resource fl)"
  shows "\<exists>flavors wanted least per until. shape_flavors fl shape = Some flavors
    \<and> int_of (sh_workers shape) = Some wanted \<and> int_of (sh_least shape) = Some least
    \<and> int_of (sh_per_worker shape) = Some per
    \<and> fst ` set mix = resource ` set flavors \<and> least \<le> dict_total mix \<and> dict_total mix \<le> wanted
    \<and> map_of (grants t) name = Some (map (\<lambda>(r, n). (r, n * per)) mix, until)"
  using run
proof (rule admitE, goal_cases)
  case (1 wanted least per flavors items s1 now s2 free s3 granted)
  let ?m = "mix_of per wanted (available free granted (held_by_others fl items name) replaced) [] flavors"
  have "distinct (map resource flavors)"
    using 1(4) fl by (rule shape_flavors_distinct)
  then have "dict_total ?m \<le> wanted" by (intro mix_of_total) (simp_all add: dict_total_def)
  moreover have "1 \<le> wanted" using shape 1(1,2) by (auto simp: shape_ok_def)
  ultimately have "dict_total mix \<le> wanted"
    unfolding 1(10) using mix_evicting_total by (meson max.bounded_iff order_trans)
  moreover have "fst ` set mix = resource ` set flavors"
    unfolding 1(10) by (intro mix_evicting_keys) (simp add: mix_of_keys)
  moreover have "map_of (grants t) name = Some (map (\<lambda>(r, n). (r, n * per)) mix, now + GRANT_S)"
    unfolding 1(12) by (simp add: update_conv')
  ultimately show ?thesis using 1(1-4,11) by (intro exI conjI)
qed

subsection \<open>What the world answers an admission\<close>

text \<open>
  The answers of one admission: the clusters listed, the time, and what Prometheus says is free. The lock
  \<open>admitting\<close> is held while it waits for them, so that no other admission changes the grants meanwhile.
\<close>

definition answers :: "'w api \<Rightarrow> flavor list \<Rightarrow> cluster list \<Rightarrow> time \<Rightarrow> (string, int \<times> int) dict option \<Rightarrow> bool" where
  "answers api fl items now free \<longleftrightarrow>
     (\<forall>s. \<exists>s'. list_clusters api s = (Inr (200, items), s') \<and> grants s' = grants s)
     \<and> (\<forall>s. \<exists>s'. monotonic api s = (now, s') \<and> grants s' = grants s)
     \<and> (\<forall>s. \<exists>s'. free_gpus fl api s = (Inr free, s') \<and> grants s' = grants s)"

definition others_granted :: "string \<Rightarrow> time \<Rightarrow> (string, (string, nat) dict \<times> time) dict \<Rightarrow> (string, (string, nat) dict) dict" where
  "others_granted name now gr = map (\<lambda>(c, g). (c, fst g)) (AList.delete name (filter (\<lambda>(c, g). snd g > now) gr))"

lemma answers_list: "answers api fl items now free \<Longrightarrow> \<exists>s'. list_clusters api s = (Inr (200, items), s') \<and> grants s' = grants s"
  and answers_now: "answers api fl items now free \<Longrightarrow> \<exists>s'. monotonic api s = (now, s') \<and> grants s' = grants s"
  and answers_free: "answers api fl items now free \<Longrightarrow> \<exists>s'. free_gpus fl api s = (Inr free, s') \<and> grants s' = grants s"
  unfolding answers_def by blast+

lemma admit_answeredE:
  assumes ans: "answers api fl items now free" and run: "admit fl api shape replaced name s = (Inr mix, t)"
  obtains wanted least per flavors where
    "int_of (sh_workers shape) = Some wanted" "int_of (sh_least shape) = Some least"
    "int_of (sh_per_worker shape) = Some per" "shape_flavors fl shape = Some flavors" "0 < per \<or> flavors = []"
    "mix = mix_evicting per (evictable free (others_granted name now (grants s)) replaced) flavors
       (mix_of per wanted (available free (others_granted name now (grants s)) (held_by_others fl items name) replaced)
          [] flavors)"
    "grants t = AList.update name (map (\<lambda>(r, n). (r, n * per)) mix, now + GRANT_S)
       (filter (\<lambda>(c, g). snd g > now) (grants s))"
proof -
  from run show ?thesis
  proof (rule admitE, goal_cases)
    case (1 wanted least per flavors items' s1 now' s2 free' s3 granted)
    have ls: "items' = items \<and> grants s1 = grants s"
      using answers_list [OF ans, of s] 1(6) by auto
    then have mono: "now' = now \<and> grants s2 = grants s"
      using answers_now [OF ans, of s1] 1(7) by auto
    then have fr: "free' = free \<and> grants s3 = filter (\<lambda>(c, g). snd g > now) (grants s)"
      using answers_free [OF ans, of "s2\<lparr>grants := filter (\<lambda>(c, g). snd g > now') (grants s2)\<rparr>"] 1(8) by auto
    show ?thesis
      by (rule that [OF 1(1-5)]) (use 1(9,10,12) ls mono fr in \<open>simp_all add: others_granted_def\<close>)
  qed
qed

lemma admit_refused:
  assumes ans: "answers api fl items now free" and run: "admit fl api shape replaced name s = (Inl e, t)"
  shows "grants t = grants s \<or> grants t = filter (\<lambda>(c, g). snd g > now) (grants s)"
proof -
  obtain s1 where s1: "list_clusters api s = (Inr (200, items), s1)" "grants s1 = grants s"
    using answers_list [OF ans] by blast
  obtain s2 where s2: "monotonic api s1 = (now, s2)" "grants s2 = grants s"
    using answers_now [OF ans, of s1] s1(2) by auto
  obtain s3 where s3: "free_gpus fl api (s2\<lparr>grants := filter (\<lambda>(c, g). snd g > now) (grants s2)\<rparr>) = (Inr free, s3)"
      "grants s3 = filter (\<lambda>(c, g). snd g > now) (grants s)"
    using answers_free [OF ans, of "s2\<lparr>grants := filter (\<lambda>(c, g). snd g > now) (grants s2)\<rparr>"] s2(2) by auto
  show ?thesis using run s1 s2 s3
    by (auto simp: admit_def bindm_def of_sum_def now_m_def modify_def gets_def raise_def ret_def Let_def
        split: sum.splits if_splits)
qed

subsection \<open>Budgets\<close>

text \<open>
  C25: while Prometheus does not say what is free, an admission keeps to the budgets. Of every kind of GPU the cluster
  gets, what it gets, what every other cluster that Kubernetes lists holds, and what is granted to clusters
  that are not listed yet are together within the budget of that kind.
\<close>

theorem admit_within_budget:
  assumes ans: "answers api fl items now None" and run: "admit fl api shape replaced name s = (Inr mix, t)"
    and fl: "distinct (map resource fl)" and f: "f \<in> set fl" "dict_get mix (resource f) 0 > 0"
  shows "dict_get mix (resource f) 0 * the (int_of (sh_per_worker shape))
    + gpus_in (dict_updates (others_granted name now (grants s)) (held_by_others fl items name)) (resource f) \<le> budget f"
  using ans run
proof (rule admit_answeredE, goal_cases)
  case (1 wanted least per flavors)
  let ?a = "available None (others_granted name now (grants s)) (held_by_others fl items name) replaced"
  let ?m = "mix_of per wanted ?a [] flavors"
  have ev: "\<not> evictable None g replaced f" for g f by (simp add: evictable_def)
  have mix: "mix = ?m" unfolding 1(6) by (auto simp: mix_evicting_def ev find_Some_iff split: option.split)
  have "resource f \<in> resource ` set flavors"
  proof (rule ccontr)
    assume "resource f \<notin> resource ` set flavors"
    then have "dict_get mix (resource f) 0 = 0" unfolding mix by (subst mix_of_other) simp_all
    with f(2) show False by simp
  qed
  then obtain g where g: "g \<in> set flavors" "resource g = resource f" by auto
  moreover have "set flavors \<subseteq> set fl" using 1(4) by (auto simp: shape_flavors_def split: option.splits)
  ultimately have [simp]: "g = f" using fl f(1) by (meson distinct_map inj_onD subsetD)
  have "int (dict_get mix (resource f) 0 * per) \<le> ?a f"
    unfolding mix using shape_flavors_distinct [OF 1(4) fl] g 1(5) f(2) [unfolded mix] by (intro mix_of_available) auto
  then show ?thesis using 1(3) by (simp add: available_def flip: of_nat_mult of_nat_add)
qed

subsection \<open>Grants\<close>

text \<open>What the grants in force take of a resource.\<close>

definition granted_gpus :: "'w gateway \<Rightarrow> string \<Rightarrow> nat" where
  "granted_gpus s r = gpus_in (map (\<lambda>(c, g). (c, fst g)) (grants s)) r"

text \<open>
  A run of admissions, of any users and shapes, while Prometheus says the same (\<open>free\<close>): one that admits a
  cluster that replaces none, one that refuses, and a grant that is dropped as its cluster could not be created.
\<close>

inductive grant_step :: "flavor list \<Rightarrow> (string, int \<times> int) dict \<Rightarrow> 'w gateway \<Rightarrow> 'w gateway \<Rightarrow> bool"
  for fl free where
  admitted: "answers api fl items now (Some free) \<Longrightarrow> admit fl api shape [] name s = (Inr mix, t)
    \<Longrightarrow> grant_step fl free s t"
| refused: "answers api fl items now (Some free) \<Longrightarrow> admit fl api shape [] name s = (Inl e, t)
    \<Longrightarrow> grant_step fl free s t"
| dropped: "grants t = AList.delete name (grants s) \<Longrightarrow> grant_step fl free s t"

definition free_ok :: "(string, int \<times> int) dict \<Rightarrow> bool" where
  "free_ok free \<longleftrightarrow> list_all (\<lambda>(r, u, p). 0 \<le> u \<and> 0 \<le> p) free"

definition grants_inv :: "flavor list \<Rightarrow> (string, int \<times> int) dict \<Rightarrow> 'w gateway \<Rightarrow> bool" where
  "grants_inv fl free s \<longleftrightarrow> distinct (map fst (grants s))
     \<and> (\<forall>f \<in> set fl. int (granted_gpus s (resource f))
          \<le> fst (dict_get free (resource f) (0, 0)) + snd (dict_get free (resource f) (0, 0)))"

lemma free_ok_get: "free_ok free \<Longrightarrow> 0 \<le> fst (dict_get free r (0, 0)) \<and> 0 \<le> snd (dict_get free r (0, 0))"
  by (induction free) (auto simp: free_ok_def)

lemma map_fst_delete: "map (\<lambda>(c, g). (c, fst g)) (AList.delete n d) = AList.delete n (map (\<lambda>(c, g). (c, fst g)) d)"
  by (induction d) auto

lemma granted_filter_le:
  "gpus_in (map (\<lambda>(c, g). (c, fst g)) (filter P d)) r \<le> gpus_in (map (\<lambda>(c, g). (c, fst g)) d) r"
  by (induction d) (auto simp: trans_le_add2)

lemma map_fst_update:
  "map (\<lambda>(c, g). (c, fst g)) (AList.update n (g, u) d) = AList.update n g (map (\<lambda>(c, g). (c, fst g)) d)"
  by (induction d) auto

lemma keys_map_fst [simp]: "map fst (map (\<lambda>(c, g). (c, fst g)) d) = map fst d"
  by (induction d) auto

lemma mix_of_taken:
  assumes "dict_get (mix_of per wanted avail [] fs) r 0 > 0"
  obtains f where "f \<in> set fs" "resource f = r"
  using assms mix_of_other [of r fs per wanted avail "[]"] by (cases "r \<in> resource ` set fs") auto

text \<open>One admission, while Prometheus answers: what it takes is free or held by preemptible workers.\<close>

lemma admit_within_free:
  assumes ans: "answers api fl items now (Some free)" and run: "admit fl api shape [] name s = (Inr mix, t)"
    and fl: "distinct (map resource fl)" and free: "free_ok free"
    and n: "dict_get mix r 0 > 0" and per: "int_of (sh_per_worker shape) = Some per"
  shows "int (dict_get mix r 0 * per + gpus_in (others_granted name now (grants s)) r)
    \<le> fst (dict_get free r (0, 0)) + snd (dict_get free r (0, 0))"
  using ans run
proof (rule admit_answeredE, goal_cases)
  case (1 wanted least per' flavors)
  let ?g = "others_granted name now (grants s)"
  let ?a = "available (Some free) ?g (held_by_others fl items name) []"
  let ?m = "mix_of per wanted ?a [] flavors"
  have [simp]: "per' = per" using 1(3) per by simp
  consider (same) "dict_get mix r 0 = dict_get ?m r 0"
    | (evicts) f where "per = 1" "dict_get mix r 0 = 1" "evictable (Some free) ?g [] f" "resource f = r"
    using mix_evicting_get [of per "evictable (Some free) ?g []" flavors ?m r] unfolding 1(6) by auto
  then show ?thesis
  proof cases
    case same
    then obtain f where f: "f \<in> set flavors" "resource f = r" using n by (auto elim: mix_of_taken)
    have "int (dict_get ?m (resource f) 0 * per) \<le> ?a f"
      using shape_flavors_distinct [OF 1(4) fl] f 1(5) n same by (intro mix_of_available) auto
    then show ?thesis using same f(2) free_ok_get [OF free, of r] by (simp add: available_def)
  next
    case evicts
    then show ?thesis by (simp add: evictable_def)
  qed
qed

lemma grant_step_inv:
  assumes "grant_step fl free s t" "grants_inv fl free s" "distinct (map resource fl)" "free_ok free"
  shows "grants_inv fl free t"
  using assms(1)
proof cases
  case (admitted api items now shape name mix)
  obtain per where per: "int_of (sh_per_worker shape) = Some per"
      and t: "grants t = AList.update name (map (\<lambda>(r, n). (r, n * per)) mix, now + GRANT_S)
        (filter (\<lambda>(c, g). snd g > now) (grants s))"
    using admit_answeredE [OF admitted] by metis
  have d: "distinct (map fst (filter (\<lambda>(c, g). snd g > now) (grants s)))"
    using assms(2) by (simp add: grants_inv_def distinct_keys_filter)
  have gr: "granted_gpus t r = dict_get mix r 0 * per + gpus_in (others_granted name now (grants s)) r" for r
    unfolding granted_gpus_def t map_fst_update others_granted_def map_fst_delete
    using d by (subst gpus_in_update) (simp_all only: keys_map_fst dict_get_scaled add.commute)
  have old: "gpus_in (others_granted name now (grants s)) r \<le> granted_gpus s r" for r
    unfolding others_granted_def map_fst_delete granted_gpus_def
    by (rule order_trans [OF gpus_in_delete_le granted_filter_le])
  have "int (granted_gpus t (resource f)) \<le> fst (dict_get free (resource f) (0, 0)) + snd (dict_get free (resource f) (0, 0))"
    if "f \<in> set fl" for f
  proof (cases "dict_get mix (resource f) 0 > 0")
    case True
    show ?thesis unfolding gr by (rule admit_within_free [OF admitted assms(3,4) True per])
  next
    case False
    then have "granted_gpus t (resource f) \<le> granted_gpus s (resource f)" using old unfolding gr by simp
    with assms(2) that show ?thesis unfolding grants_inv_def by fastforce
  qed
  moreover have "distinct (map fst (grants t))" unfolding t using d by (rule distinct_update)
  ultimately show ?thesis by (simp add: grants_inv_def)
next
  case (refused api items now shape name e)
  have "granted_gpus t r \<le> granted_gpus s r" for r
    using admit_refused [OF refused] by (auto simp: granted_gpus_def granted_filter_le)
  moreover have "distinct (map fst (grants t))"
    using admit_refused [OF refused] assms(2) by (auto simp: grants_inv_def distinct_keys_filter)
  ultimately show ?thesis using assms(2) unfolding grants_inv_def by (meson of_nat_le_iff order_trans)
next
  case (dropped name)
  have "granted_gpus t r \<le> granted_gpus s r" for r
    unfolding granted_gpus_def dropped map_fst_delete by (rule gpus_in_delete_le)
  moreover have "distinct (map fst (grants t))"
    unfolding dropped using assms(2) by (simp add: grants_inv_def distinct_delete)
  ultimately show ?thesis using assms(2) unfolding grants_inv_def by (meson of_nat_le_iff order_trans)
qed

text \<open>The flavors of the gateway and what Prometheus says are fixed along a run: they are part of the machine's state.\<close>

type_synonym 'w admissions = "flavor list \<times> (string, int \<times> int) dict \<times> 'w gateway"

definition admissions_init :: "'w admissions \<Rightarrow> bool" where
  "admissions_init a \<longleftrightarrow> (case a of (fl, free, s) \<Rightarrow> distinct (map resource fl) \<and> free_ok free \<and> grants s = [])"

definition admissions_step :: "'w admissions \<Rightarrow> 'w admissions \<Rightarrow> bool" where
  "admissions_step a b \<longleftrightarrow> (case (a, b) of ((fl, free, s), (fl', free', t)) \<Rightarrow>
     fl' = fl \<and> free' = free \<and> grant_step fl free s t)"

definition admissions_inv :: "'w admissions \<Rightarrow> bool" where
  "admissions_inv a \<longleftrightarrow> (case a of (fl, free, s) \<Rightarrow> distinct (map resource fl) \<and> free_ok free \<and> grants_inv fl free s)"

interpretation admissions: machine "admissions_init" "admissions_step" "admissions_inv"
proof (unfold_locales, goal_cases)
  case (1 a)
  then show ?case
    by (auto simp: admissions_init_def admissions_inv_def grants_inv_def granted_gpus_def free_ok_get)
next
  case (2 a b)
  then show ?case by (auto simp: admissions_step_def admissions_inv_def intro: grant_step_inv)
qed


subsection \<open>Examples\<close>

lemma example_free_gpus: "free_gpus FLAVORS example_api s = (Inr None, s)"
  by (simp add: free_gpus_def run_defs)

lemma example_answers: "answers example_api FLAVORS [] 0 None"
  by (simp add: answers_def example_free_gpus ret_def)

lemma example_admission:
  "admit FLAVORS example_api example_shape [] ''ann'' example_gateway
   = (Inr [(''nvidia.com/mig-1g.5gb'', 3), (''nvidia.com/gpu'', 0)], example_gateway\<lparr>grants :=
       [(''ann'', [(''nvidia.com/mig-1g.5gb'', 3), (''nvidia.com/gpu'', 0)], 120)]\<rparr>)"
proof -
  have "mix_of 1 3 (available None [] [] []) [] FLAVORS = [(''nvidia.com/mig-1g.5gb'', 3), (''nvidia.com/gpu'', 0)]"
    by (simp add: FLAVORS_def available_def dict_updates_def dict_total_def)
  then show ?thesis
    by (simp add: admit_def run_defs example_shape_numbers example_shape_flavors example_free_gpus
        held_by_others_def mix_evicting_def dict_total_def example_gateway_def GRANT_S_def Let_def value_or_raise_def)
qed

theorem admit_as_asked_witness:
  "\<exists>mix t. admit FLAVORS example_api example_shape [] ''ann'' example_gateway = (Inr mix, t)
     \<and> fst ` set mix = {''nvidia.com/mig-1g.5gb'', ''nvidia.com/gpu''} \<and> dict_total mix \<le> 3"
proof -
  have "distinct (map resource FLAVORS)" by (simp add: FLAVORS_def)
  from admit_as_asked [OF example_admission example_shape_ok this] example_admission example_shape_numbers(1)
  show ?thesis by (auto simp: example_shape_flavors FLAVORS_def)
qed

theorem admit_within_budget_witness:
  "\<exists>mix t. admit FLAVORS example_api example_shape [] ''ann'' example_gateway = (Inr mix, t)
     \<and> 0 < dict_get mix ''nvidia.com/mig-1g.5gb'' 0 \<and> dict_get mix ''nvidia.com/mig-1g.5gb'' 0 \<le> 14"
proof -
  let ?f = "\<lparr>resource = ''nvidia.com/mig-1g.5gb'', memory = 5, budget = 14, per_worker_max = 1\<rparr>"
  have "distinct (map resource FLAVORS)" "?f \<in> set FLAVORS" by (simp_all add: FLAVORS_def)
  from admit_within_budget [OF example_answers example_admission this] example_admission
  show ?thesis by (simp add: example_shape_numbers)
qed

definition example_prometheus :: "'w api" where
  "example_prometheus = example_api\<lparr>gpus_allocatable := ret [(''nvidia_com_mig_1g_5gb'', 4), (''nvidia_com_gpu'', 1)],
     gpus_used := ret [(''nvidia_com_mig_1g_5gb'', 1)], gpus_preemptible := ret [(''nvidia_com_mig_1g_5gb'', 1)]\<rparr>"

definition example_free :: "(string, int \<times> int) dict" where
  "example_free = [(''nvidia.com/mig-1g.5gb'', (2, 1)), (''nvidia.com/gpu'', (1, 0))]"

lemma example_prometheus_free:
  "free_gpus FLAVORS example_prometheus s = (Inr (Some example_free), s)"
proof -
  have "free_of [(''nvidia_com_mig_1g_5gb'', 4), (''nvidia_com_gpu'', 1)] [(''nvidia_com_mig_1g_5gb'', 1)]
      [(''nvidia_com_mig_1g_5gb'', 1)] FLAVORS = Some example_free"
    by (simp add: FLAVORS_def GPU_METRICS_def example_free_def trunc_def)
  then show ?thesis by (simp add: free_gpus_def example_prometheus_def run_defs)
qed

lemma example_prometheus_answers: "answers example_prometheus FLAVORS [] 0 (Some example_free)"
  by (simp add: answers_def example_prometheus_free) (simp add: example_prometheus_def ret_def)

lemma example_prometheus_admission:
  "admit FLAVORS example_prometheus example_shape [] ''ann'' example_gateway
   = (Inr [(''nvidia.com/mig-1g.5gb'', 2), (''nvidia.com/gpu'', 1)], example_gateway\<lparr>grants :=
       [(''ann'', [(''nvidia.com/mig-1g.5gb'', 2), (''nvidia.com/gpu'', 1)], 120)]\<rparr>)"
proof -
  have calls: "list_clusters example_prometheus = ret (200, [])" "monotonic example_prometheus = Pair 0"
    by (simp_all add: example_prometheus_def)
  have "mix_of 1 3 (available (Some example_free) [] [] []) [] FLAVORS
      = [(''nvidia.com/mig-1g.5gb'', 2), (''nvidia.com/gpu'', 1)]"
    by (simp add: FLAVORS_def available_def example_free_def dict_total_def)
  then show ?thesis
    by (simp add: admit_def run_defs example_shape_numbers example_shape_flavors example_prometheus_free calls
        held_by_others_def mix_evicting_def dict_total_def example_gateway_def GRANT_S_def Let_def value_or_raise_def)
qed


end
