(* ===== verification/Gateway_Clusters.thy ===== *)
theory Gateway_Clusters
  imports Gateway_Admission
begin

text \<open>
  The life of a user's own cluster (\<open>src/apps/ray-train/gateway.py\<close>): found, started in the shape a call asks
  for, reached, removed when idle or when its workers did not start, and what its Ray clients hear after it is
  gone.
\<close>

subsection \<open>Constants\<close>

definition IDLE_TIMEOUT_S :: time where "IDLE_TIMEOUT_S = 900"
definition START_TIMEOUT_S :: time where "START_TIMEOUT_S = 600"
definition START_POLL_S :: time where "START_POLL_S = 5"
definition GONE_S :: time where "GONE_S = 300"

definition REMOVED_IDLE :: string where
  "REMOVED_IDLE = ''Your Ray cluster was removed after it went idle: run ray.shutdown(), then ray.init() again.''"

definition REMOVED_BY_USER :: string where
  "REMOVED_BY_USER = ''Your Ray cluster was stopped: run ray.shutdown(), then ray.init() again.''"

definition REMOVED_UNPROVISIONED :: string where
  "REMOVED_UNPROVISIONED = ''Your Ray cluster was removed, as not all of its GPUs started in time: ask for fewer workers, or try again later.''"

definition OPEN_HEAD :: string where
  "OPEN_HEAD = ''The Ray in that environment does not enforce the cluster's token.''"

definition session_gpu_refusal :: "string \<Rightarrow> gw_error" where
  "session_gpu_refusal what = Refused FAILED_PRECONDITION (''Your session holds a GPU, and '' @ what
     @ '' are for sessions without one: train on your session's GPU, or start a session without a GPU.'')"

definition own :: "gw_config \<Rightarrow> user \<Rightarrow> string" where
  "own cfg u = user_cluster (cfg_sha cfg) u"

definition token_for :: "gw_config \<Rightarrow> string \<Rightarrow> string" where
  "token_for cfg name = cluster_token (cfg_hmac cfg) (cfg_service_token cfg) name"

subsection \<open>Kubernetes and the head\<close>

text \<open>\<open>Gateway.cluster\<close>, by \<open>kube_get\<close>.\<close>

definition find_cluster :: "'w api \<Rightarrow> string \<Rightarrow> ('w, cluster option) io" where
  "find_cluster api name = bindm (get_cluster api name) (\<lambda>(status, c).
     if status = 404 then bindm (emit (Saw_cluster name None)) (\<lambda>_. ret None)
     else if status \<noteq> 200 then raise (Refused UNAVAILABLE
       (''Kubernetes answered HTTP '' @ show_nat status @ '' for the Ray cluster.''))
     else bindm (emit (Saw_cluster name (Some c))) (\<lambda>_. ret (Some c)))"

definition head_status :: "gw_config \<Rightarrow> 'w api \<Rightarrow> string \<Rightarrow> bool \<Rightarrow> string \<Rightarrow> ('w, nat option) io" where
  "head_status cfg api name authorized keyed =
     asks (head_version api name (if authorized then Some (token_for cfg keyed) else None))"

text \<open>Whether one of the jobs a head lists runs; an element that is no object has no \<open>get\<close>.\<close>

fun some_job_runs :: "(string \<times> string) option list \<Rightarrow> gw_error + bool" where
  "some_job_runs [] = Inr False"
| "some_job_runs (None # js) = Inl (PyError ''AttributeError'')"
| "some_job_runs (Some (kind, status) # js) =
     (if kind = ''SUBMISSION'' \<and> status \<in> {''PENDING'', ''RUNNING''} then Inr True else some_job_runs js)"

definition busy_by_status :: "cluster \<Rightarrow> nat \<Rightarrow> bool" where
  "busy_by_status c status \<longleftrightarrow> status \<notin> {401, 403} \<and> head_ready c"

definition busy :: "'w api \<Rightarrow> cluster \<Rightarrow> ('w, bool) io" where
  "busy api c = bindm (asks (head_tasks api (k_name c))) (\<lambda>tasks. case tasks of
     HeadStatus status \<Rightarrow> ret (busy_by_status c status)
   | HeadOdd \<Rightarrow> ret (head_ready c)
   | HeadSays running \<Rightarrow> bindm (asks (head_jobs api (k_name c))) (\<lambda>jobs. case jobs of
       HeadStatus status \<Rightarrow> ret (busy_by_status c status)
     | HeadOdd \<Rightarrow> ret (head_ready c)
     | HeadSays js \<Rightarrow> (case running of
         None \<Rightarrow> ret (head_ready c)
       | Some True \<Rightarrow> ret True
       | Some False \<Rightarrow> (case js of None \<Rightarrow> ret (head_ready c) | Some l \<Rightarrow> of_sum (some_job_runs l)))))"

definition delete :: "'w api \<Rightarrow> string \<Rightarrow> string \<Rightarrow> ('w, unit) io" where
  "delete api name why =
     bindm (emit (Delete_cluster name)) (\<lambda>_.
     bindm (delete_cluster api name) (\<lambda>status.
     if status \<notin> {200, 202, 404} then raise (Refused UNAVAILABLE
       (''Kubernetes answered HTTP '' @ show_nat status @ '' deleting the Ray cluster.''))
     else
     bindm (modify (\<lambda>s. s\<lparr>started := AList.delete name (started s)\<rparr>)) (\<lambda>_.
     bindm (now_m api) (\<lambda>now.
     modify (\<lambda>s. s\<lparr>gone := foldl (\<lambda>g client. AList.update client (now + GONE_S, why) g)
           (gone s) (dict_get (clients s) name []),
         clients := AList.delete name (clients s)\<rparr>)))))"

text \<open>
  The gateway's waiting loops: \<open>body\<close> until it has an answer, every \<open>START_POLL_S\<close>, refused once the deadline is
  past. \<open>fuel\<close> bounds the passes.
\<close>

fun poll :: "nat \<Rightarrow> 'w api \<Rightarrow> time \<Rightarrow> gw_error \<Rightarrow> ('w, 'a option) io \<Rightarrow> ('w, 'a) io" where
  "poll 0 api deadline late body = raise Diverged"
| "poll (Suc fuel) api deadline late body = bindm body (\<lambda>answer. case answer of
     Some a \<Rightarrow> ret a
   | None \<Rightarrow> bindm (now_m api) (\<lambda>now.
       if now > deadline then raise late
       else bindm (sleep api START_POLL_S) (\<lambda>_. poll fuel api deadline late body)))"

definition wait_until_gone :: "nat \<Rightarrow> 'w api \<Rightarrow> string \<Rightarrow> ('w, unit) io" where
  "wait_until_gone fuel api name = bindm (now_m api) (\<lambda>now.
     poll fuel api (now + START_TIMEOUT_S)
       (Refused UNAVAILABLE ''Your previous Ray cluster is still shutting down: try again in a minute.'')
       (bindm (find_cluster api name) (\<lambda>c. ret (if c = None then Some () else None))))"

record secret =
  x_name :: string
  x_kind :: string
  x_uid :: string
  x_token :: string

definition token_secret :: "string \<Rightarrow> string \<Rightarrow> string \<Rightarrow> string \<Rightarrow> secret" where
  "token_secret name kind uid token = \<lparr>x_name = name, x_kind = kind, x_uid = uid, x_token = token\<rparr>"

definition head_up_pass :: "gw_config \<Rightarrow> 'w api \<Rightarrow> secret \<Rightarrow> ('w, string) io \<Rightarrow> string \<Rightarrow> string \<Rightarrow> ('w, string option) io" where
  "head_up_pass cfg api secret find_head keyed noun =
     bindm (emit (Post_secret (x_name secret) (x_kind secret) (x_uid secret) (x_token secret))) (\<lambda>_.
     bindm (post_secret api (x_name secret) (x_kind secret) (x_uid secret) (x_token secret)) (\<lambda>said.
     if fst said \<notin> {201, 409} then raise (Refused UNAVAILABLE
       (''Could not create your '' @ noun @ CHR 0x27 # ''s token: '' @ message_of said))
     else
     bindm find_head (\<lambda>head.
     bindm (if head = [] then ret None else head_status cfg api head True keyed) (\<lambda>status.
     ret (if head \<noteq> [] \<and> status = Some 200 then Some head else None)))))"

definition head_up :: "nat \<Rightarrow> gw_config \<Rightarrow> 'w api \<Rightarrow> secret \<Rightarrow> ('w, string) io \<Rightarrow> string \<Rightarrow> string \<Rightarrow> ('w, string) io" where
  "head_up fuel cfg api secret find_head keyed noun = bindm (now_m api) (\<lambda>now.
     poll fuel api (now + START_TIMEOUT_S)
       (Refused UNAVAILABLE (''Your '' @ noun @ CHR 0x27 # ''s head did not start in time: try again later.''))
       (head_up_pass cfg api secret find_head keyed noun))"

subsection \<open>Starting the user's cluster\<close>

text \<open>What becomes of the cluster that was found: it is kept, or one of the mix that was admitted is to be made.\<close>

definition make_room :: "nat \<Rightarrow> gw_config \<Rightarrow> 'w api \<Rightarrow> user \<Rightarrow> shape \<Rightarrow> cluster option
    \<Rightarrow> ('w, cluster + (string, nat) dict) io" where
  "make_room fuel cfg api u shape found = (case found of
     Some c \<Rightarrow>
       if runs c shape then ret (Inl c)
       else bindm
         (if live (Some c) then bindm (busy api c) (\<lambda>b.
            if b then raise (Refused FAILED_PRECONDITION
              ''Your Ray cluster runs other settings, and tasks or jobs: wait for them, or stop them.'')
            else bindm (admit (cfg_flavors cfg) api shape (held_gpus (cfg_flavors cfg) c) (own cfg u)) (\<lambda>mix.
              bindm (delete api (own cfg u) REMOVED_IDLE) (\<lambda>_. ret mix)))
          else admit (cfg_flavors cfg) api shape [] (own cfg u)) (\<lambda>mix.
         bindm (wait_until_gone fuel api (own cfg u)) (\<lambda>_. ret (Inr mix)))
   | None \<Rightarrow> bindm (admit (cfg_flavors cfg) api shape [] (own cfg u)) (\<lambda>mix. ret (Inr mix)))"

definition create_cluster :: "gw_config \<Rightarrow> 'w api \<Rightarrow> user \<Rightarrow> shape \<Rightarrow> (string, nat) dict \<Rightarrow> ('w, cluster option) io" where
  "create_cluster cfg api u shape mix =
     bindm (of_sum (value_or_raise (build_cluster (cfg_sha cfg) (cfg_flavors cfg)
       (cluster_template (cfg_template cfg) u) u shape mix))) (\<lambda>c.
     bindm (emit (Post_cluster c)) (\<lambda>_.
     bindm (post_cluster api c) (\<lambda>(said, created).
     if fst said = 201 then
       bindm (emit (Created_cluster created)) (\<lambda>_.
       bindm (modify (\<lambda>s. s\<lparr>never_started := AList.delete (own cfg u) (never_started s)\<rparr>)) (\<lambda>_.
       ret (Some created)))
     else if fst said = 409 then
       bindm (find_cluster api (own cfg u)) (\<lambda>found. case found of
         None \<Rightarrow> ret None
       | Some k \<Rightarrow> bindm (of_sum (refuse_others (cfg_sha cfg) k u)) (\<lambda>_. ret (Some k)))
     else
       bindm (modify (\<lambda>s. s\<lparr>grants := AList.delete (own cfg u) (grants s)\<rparr>)) (\<lambda>_.
       raise (Refused UNAVAILABLE (''Could not create your Ray cluster: '' @ message_of said))))))"

definition replacing :: gw_error where
  "replacing = Refused ABORTED ''Another call is replacing your Ray cluster: try again in a minute.''"

text \<open>The end of \<open>start_cluster\<close>: its token, its head, and that the head serves nobody without the token.\<close>

definition serve_head :: "nat \<Rightarrow> gw_config \<Rightarrow> 'w api \<Rightarrow> user \<Rightarrow> cluster \<Rightarrow> ('w, unit) io" where
  "serve_head fuel cfg api u c =
     bindm (head_up fuel cfg api (token_secret (own cfg u) ''RayCluster'' (k_uid c) (token_for cfg (own cfg u)))
       (ret (own cfg u)) (own cfg u) ''Ray cluster'') (\<lambda>_.
     bindm (head_status cfg api (own cfg u) False (own cfg u)) (\<lambda>status.
     if status = Some 200 then bindm (delete api (own cfg u) REMOVED_IDLE) (\<lambda>_.
       raise (Refused INVALID_ARGUMENT OPEN_HEAD))
     else ret ()))"

definition start_cluster :: "nat \<Rightarrow> gw_config \<Rightarrow> 'w api \<Rightarrow> user \<Rightarrow> shape \<Rightarrow> ('w, unit) io" where
  "start_cluster fuel cfg api u shape =
     bindm (find_cluster api (own cfg u)) (\<lambda>found.
     bindm (if live found then of_sum (refuse_others (cfg_sha cfg) (the found) u) else ret ()) (\<lambda>_.
     bindm (now_m api) (\<lambda>now.
     bindm (modify (\<lambda>s. s\<lparr>last_used := AList.update (own cfg u) now (last_used s)\<rparr>)) (\<lambda>_.
     bindm (make_room fuel cfg api u shape found) (\<lambda>kept.
     bindm (case kept of Inl c \<Rightarrow> ret (Some c) | Inr mix \<Rightarrow> create_cluster cfg api u shape mix) (\<lambda>made.
     case made of
       None \<Rightarrow> raise replacing
     | Some c \<Rightarrow> if \<not> runs c shape then raise replacing else serve_head fuel cfg api u c))))))"

subsection \<open>Reaching it\<close>

definition cluster_for :: "nat \<Rightarrow> gw_config \<Rightarrow> 'w api \<Rightarrow> user \<Rightarrow> shape \<Rightarrow> ('w, string) io" where
  "cluster_for fuel cfg api u shape =
     (if sh_site shape \<noteq> ''purdue'' then raise (Refused INVALID_ARGUMENT (''af-site: '' @ sh_site shape
        @ '' is for jobs a JobSubmissionClient submits: Ray Client reaches your own cluster at Purdue.''))
      else if session_gpu u then raise (session_gpu_refusal ''Ray clusters'')
      else
      bindm (of_sum (bind_sum (value_or_raise (env_roots (cluster_template (cfg_template cfg) u)))
        (mounted_env (sh_env shape)))) (\<lambda>_.
      bindm (gets (\<lambda>s. map_of (started s) (own cfg u))) (\<lambda>known.
      bindm (if known \<noteq> Some (user_owner u, shape) then
          bindm (start_cluster fuel cfg api u shape) (\<lambda>_.
          modify (\<lambda>s. s\<lparr>started := AList.update (own cfg u) (user_owner u, shape) (started s)\<rparr>))
        else ret ()) (\<lambda>_.
      bindm (now_m api) (\<lambda>now.
      bindm (modify (\<lambda>s. s\<lparr>last_used := AList.update (own cfg u) now (last_used s)\<rparr>)) (\<lambda>_.
      ret (own cfg u)))))))"

definition running :: "gw_config \<Rightarrow> 'w api \<Rightarrow> user \<Rightarrow> ('w, string) io" where
  "running cfg api u =
     bindm (gets (\<lambda>s. map_of (started s) (own cfg u))) (\<lambda>known.
     bindm (if known = None \<or> fst (the known) \<noteq> user_owner u then
         bindm (find_cluster api (own cfg u)) (\<lambda>found.
         if \<not> live found then bindm (gets (\<lambda>s. dict_get (never_started s) (own cfg u)
             ''You have no Ray cluster: one is removed once idle, with the records and logs of its jobs.''))
           (\<lambda>text. raise (Refused NOT_FOUND text))
         else of_sum (refuse_others (cfg_sha cfg) (the found) u))
       else ret ()) (\<lambda>_.
     bindm (now_m api) (\<lambda>now.
     bindm (modify (\<lambda>s. s\<lparr>last_used := AList.update (own cfg u) now (last_used s)\<rparr>)) (\<lambda>_.
     ret (own cfg u)))))"

definition caller_m :: "gw_config \<Rightarrow> 'w api \<Rightarrow> (string, string) dict \<Rightarrow> ('w, user \<times> shape) io" where
  "caller_m cfg api values = bindm (now_m api) (\<lambda>now s.
     case caller (cfg_sha cfg) (cfg_dir cfg) (cfg_accts cfg) (cfg_flavors cfg) (cfg_template cfg)
       (cfg_nrp_worker cfg) now (cfg_service_token cfg) values (users s) of
     (r, cache) \<Rightarrow> (r, s\<lparr>users := cache\<rparr>))"

text \<open>
  \<open>Gateway.relay\<close> up to the call it relays: a client whose cluster is known to be removed is told so, and any
  other is served by the user's cluster. What fails for want of an answer is refused with \<open>NO_ANSWER\<close>.
\<close>

definition relay_cluster :: "nat \<Rightarrow> gw_config \<Rightarrow> 'w api \<Rightarrow> string \<Rightarrow> user \<Rightarrow> shape \<Rightarrow> ('w, string) io" where
  "relay_cluster fuel cfg api client u shape =
     bindm (now_m api) (\<lambda>now.
     bindm (modify (\<lambda>s. s\<lparr>gone := filter (\<lambda>(c, g). fst g > now) (gone s)\<rparr>)) (\<lambda>_.
     bindm (gets (\<lambda>s. map_of (gone s) client)) (\<lambda>g. case g of
       Some (until, why) \<Rightarrow> raise (Refused NOT_FOUND why)
     | None \<Rightarrow> cluster_for fuel cfg api u shape)))"

definition relay_on :: "string \<Rightarrow> string \<Rightarrow> ('w, string) io" where
  "relay_on client cluster =
     bindm (modify (\<lambda>s. s\<lparr>clients := AList.update cluster (List.insert client (dict_get (clients s) cluster [])) (clients s),
          gone := AList.delete client (gone s)\<rparr>)) (\<lambda>_.
     bindm (emit (Relay cluster cluster)) (\<lambda>_. ret cluster))"

definition relay :: "nat \<Rightarrow> gw_config \<Rightarrow> 'w api \<Rightarrow> (string, string) dict \<Rightarrow> ('w, string) io" where
  "relay fuel cfg api headers =
     (let client = dict_get headers ''client_id'' [] in
      bindm (catch
        (bindm (caller_m cfg api headers) (\<lambda>(u, shape). relay_cluster fuel cfg api client u shape))
        (\<lambda>e. if e = ClientError then raise NO_ANSWER else raise e)) (relay_on client))"

definition NOT_RELAYED :: "string list" where
  "NOT_RELAYED = [''authorization'', ''user-agent''] @ SETTINGS"

definition forwarded :: "gw_config \<Rightarrow> string \<Rightarrow> (string, string) dict \<Rightarrow> (string \<times> string) list" where
  "forwarded cfg cluster metadata = filter (\<lambda>(k, v). k \<notin> set NOT_RELAYED) metadata
     @ [(''authorization'', ''Bearer '' @ token_for cfg cluster)]"

text \<open>A request of the client on its way (\<open>tracked\<close>), and a relayed call that failed.\<close>

definition tracked :: "'w api \<Rightarrow> string \<Rightarrow> ('w, unit) io" where
  "tracked api cluster = bindm (now_m api) (\<lambda>now.
     modify (\<lambda>s. s\<lparr>last_used := AList.update cluster now (last_used s)\<rparr>))"

definition relay_failed :: "string \<Rightarrow> status_code \<Rightarrow> ('w, unit) io" where
  "relay_failed cluster code =
     whenm (code = UNAVAILABLE) (modify (\<lambda>s. s\<lparr>started := AList.delete cluster (started s)\<rparr>))"

definition head_silent :: "string \<Rightarrow> ('w, gw_error) io" where
  "head_silent cluster = bindm (modify (\<lambda>s. s\<lparr>started := AList.delete cluster (started s)\<rparr>)) (\<lambda>_.
     ret (Refused UNAVAILABLE ''Your Ray cluster did not answer: try again in a minute.''))"

subsection \<open>The user's own cluster over HTTP\<close>

text \<open>A refusal as an HTTP answer, its status and its text without the period; other exceptions pass.\<close>

definition refusals_answered :: "('w, 'a) io \<Rightarrow> ('w, (nat \<times> string) + 'a) io" where
  "refusals_answered m = catch (bindm m (\<lambda>a. ret (Inr a))) (\<lambda>e. case e of
     Refused code text \<Rightarrow> ret (Inl (http_status code, removesuffix ''.'' text))
   | _ \<Rightarrow> raise e)"

record cluster_view =
  v_name :: string
  v_ready :: bool
  v_busy :: bool
  v_workers :: nat
  v_workers_ready :: nat
  v_memory :: rat
  v_per_worker :: nat
  v_cpus :: string
  v_ram :: string
  v_env :: string

definition view_of :: "string \<Rightarrow> cluster \<Rightarrow> bool \<Rightarrow> gw_error + cluster_view" where
  "view_of name c b = (let sh = cluster_shape c in
     bind_sum (value_or_raise (if sh_workers sh = [] then Some 0 else int_of (sh_workers sh))) (\<lambda>workers.
     bind_sum (value_or_raise (float_of (sh_memory sh))) (\<lambda>mem.
     bind_sum (value_or_raise (int_of (sh_per_worker sh))) (\<lambda>per.
     Inr \<lparr>v_name = name, v_ready = head_ready c, v_busy = b, v_workers = workers,
       v_workers_ready = k_ready_workers c, v_memory = mem, v_per_worker = per,
       v_cpus = sh_cpus sh, v_ram = sh_ram sh, v_env = sh_env sh\<rparr>))))"

definition own_cluster_found :: "gw_config \<Rightarrow> 'w api \<Rightarrow> string \<Rightarrow> bool \<Rightarrow> user \<Rightarrow> cluster \<Rightarrow> ('w, cluster_view option) io" where
  "own_cluster_found cfg api http_method force u c =
     (if http_method = ''DELETE'' then
        bindm (if force then ret False else busy api c) (\<lambda>b.
        if b then raise (Refused FAILED_PRECONDITION
          ''Your Ray cluster runs tasks or jobs: wait for them, or stop it anyway.'')
        else
        bindm (delete api (own cfg u) REMOVED_BY_USER) (\<lambda>_.
        bindm (modify (\<lambda>s. s\<lparr>last_used := AList.delete (own cfg u) (last_used s)\<rparr>)) (\<lambda>_. ret None)))
      else
      bindm (busy api c) (\<lambda>b. bindm (of_sum (view_of (own cfg u) c b)) (\<lambda>v. ret (Some v))))"

definition own_cluster_of :: "nat \<Rightarrow> gw_config \<Rightarrow> 'w api \<Rightarrow> string \<Rightarrow> bool \<Rightarrow> user \<Rightarrow> shape
    \<Rightarrow> ('w, cluster_view option) io" where
  "own_cluster_of fuel cfg api http_method force u shape =
     bindm (if http_method = ''POST'' then bindm (cluster_for fuel cfg api u shape) (\<lambda>_. ret ()) else ret ()) (\<lambda>_.
     bindm (find_cluster api (own cfg u)) (\<lambda>found.
     if \<not> live found then
       (if http_method = ''DELETE'' then raise (Refused NOT_FOUND ''You have no Ray cluster.'') else ret None)
     else
     bindm (of_sum (refuse_others (cfg_sha cfg) (the found) u)) (\<lambda>_.
     own_cluster_found cfg api http_method force u (the found))))"

definition own_cluster :: "nat \<Rightarrow> gw_config \<Rightarrow> 'w api \<Rightarrow> string \<Rightarrow> bool \<Rightarrow> (string, string) dict
    \<Rightarrow> ('w, (nat \<times> string) + cluster_view option) io" where
  "own_cluster fuel cfg api http_method force headers = refusals_answered (
     bindm (caller_m cfg api headers) (\<lambda>(u, shape). own_cluster_of fuel cfg api http_method force u shape))"

subsection \<open>Reaping\<close>

definition FROM_CRD :: string where "FROM_CRD = ''ray.io/originated-from-crd''"

text \<open>One cluster of the listing; \<open>now\<close> is the time of the pass.\<close>

definition reap_cluster :: "'w api \<Rightarrow> time \<Rightarrow> cluster \<Rightarrow> ('w, unit) io" where
  "reap_cluster api now c =
     (let name = k_name c in
      bindm (now_w api) (\<lambda>clock.
      if unprovisioned c clock then
        bindm (delete api name REMOVED_UNPROVISIONED) (\<lambda>_.
        modify (\<lambda>s. s\<lparr>last_used := AList.delete name (last_used s),
          never_started := AList.update name REMOVED_UNPROVISIONED (never_started s)\<rparr>))
      else
      bindm (busy api c) (\<lambda>b.
      if b then modify (\<lambda>s. s\<lparr>last_used := AList.update name now (last_used s)\<rparr>)
      else
      bindm (gets (\<lambda>s. dict_get (last_used s) name now)) (\<lambda>since.
      bindm (modify (\<lambda>s. s\<lparr>last_used := AList.update name since (last_used s)\<rparr>)) (\<lambda>_.
      if now - since \<ge> IDLE_TIMEOUT_S then
        bindm (delete api name REMOVED_IDLE) (\<lambda>_.
        modify (\<lambda>s. s\<lparr>last_used := AList.delete name (last_used s)\<rparr>))
      else ret ())))))"

definition reap_idle :: "'w api \<Rightarrow> ('w, unit) io" where
  "reap_idle api = bindm (list_clusters api) (\<lambda>(status, items).
     if status \<noteq> 200 then ret ()
     else bindm (now_m api) (\<lambda>now.
       each (\<lambda>c. if dict_get (k_labels c) FROM_CRD [] = ''RayJob'' then ret ()
                else logged (reap_cluster api now c)) items))"

subsection \<open>Guarded traces\<close>

text \<open>
  What a call of user \<open>u\<close> may do to a cluster. It has seen the cluster to be the user's if it read it with the
  user as its owner, or created it; only then does it remove the cluster or give it a token. What it creates has
  the user's name and owner.
\<close>

definition vetted :: "gw_config \<Rightarrow> user \<Rightarrow> event list \<Rightarrow> bool" where
  "vetted cfg u tr \<longleftrightarrow> list_ex (\<lambda>e. case e of
     Saw_cluster n (Some c) \<Rightarrow> n = own cfg u \<and> cluster_owner c = user_owner u
   | Created_cluster c \<Rightarrow> True
   | _ \<Rightarrow> False) tr"

fun guarded :: "gw_config \<Rightarrow> user \<Rightarrow> event list \<Rightarrow> bool" where
  "guarded cfg u [] = True"
| "guarded cfg u (e # past) = ((case e of
     Delete_cluster n \<Rightarrow> n = own cfg u \<and> vetted cfg u past
   | Post_secret n kind uid token \<Rightarrow> n = own cfg u \<and> token = token_for cfg (own cfg u) \<and> vetted cfg u past
   | Post_cluster c \<Rightarrow> k_name c = own cfg u \<and> cluster_owner c = user_owner u
   | Relay head keyed \<Rightarrow> head = own cfg u \<and> keyed = own cfg u
   | Saw_cluster n c \<Rightarrow> True
   | Created_cluster c \<Rightarrow> True
   | _ \<Rightarrow> False) \<and> guarded cfg u past)"

definition vets :: "gw_config \<Rightarrow> user \<Rightarrow> bool \<Rightarrow> 'w gateway \<Rightarrow> bool" where
  "vets cfg u v t \<longleftrightarrow> guarded cfg u (trace t) \<and> (v \<longrightarrow> vetted cfg u (trace t))"

lemma vetted_Cons [simp]: "vetted cfg u tr \<Longrightarrow> vetted cfg u (e # tr)"
  by (simp add: vetted_def)

lemma vets_trace: "trace t = trace s \<Longrightarrow> vets cfg u v s \<Longrightarrow> vets cfg u v t"
  by (simp add: vets_def)

lemma vets_upd [simp]:
  "vets cfg u v (s\<lparr>last_used := x1\<rparr>) = vets cfg u v s" "vets cfg u v (s\<lparr>started := x2\<rparr>) = vets cfg u v s"
  "vets cfg u v (s\<lparr>clients := x3\<rparr>) = vets cfg u v s" "vets cfg u v (s\<lparr>gone := x4\<rparr>) = vets cfg u v s"
  "vets cfg u v (s\<lparr>never_started := x5\<rparr>) = vets cfg u v s" "vets cfg u v (s\<lparr>grants := x6\<rparr>) = vets cfg u v s"
  "vets cfg u v (s\<lparr>users := x7\<rparr>) = vets cfg u v s"
  by (simp_all add: vets_def)

lemma wp_vets:
  "holds trace m \<Longrightarrow> vets cfg u v s \<Longrightarrow> (\<And>a t. vets cfg u v t \<Longrightarrow> R a t) \<Longrightarrow> (\<And>e t. vets cfg u v t \<Longrightarrow> X e t)
   \<Longrightarrow> wp m R X s"
  by (erule wp_holds) (meson vets_trace)+

lemma find_cluster_vets:
  assumes api: "keeps trace api" and s: "vets cfg u v s"
  shows "wp (find_cluster api n) (\<lambda>found t. vets cfg u v t \<and> (n = own cfg u \<longrightarrow> (\<forall>c. found = Some c
      \<longrightarrow> cluster_owner c = user_owner u \<longrightarrow> vets cfg u True t))) (\<lambda>e. vets cfg u v) s"
  unfolding find_cluster_def wp_bindm
  by (rule wp_vets [OF _ s]) (auto intro: holds_intros api simp: wp_simps vets_def vetted_def split: prod.split)

lemma busy_holds [holds_intros]: "keeps f api \<Longrightarrow> holds f (busy api c)"
  unfolding busy_def
  by (intro holds_intros)

lemma free_gpus_holds [holds_intros]: "keeps f api \<Longrightarrow> holds f (free_gpus fl api)"
  unfolding free_gpus_def by (intro holds_intros)

lemma admit_holds [holds_intros]: "keeps trace api \<Longrightarrow> holds trace (admit fl api shape replaced name)"
  unfolding admit_def Let_def by (intro holds_intros; (assumption | simp)?)

lemma head_status_holds [holds_intros]: "keeps f api \<Longrightarrow> holds f (head_status cfg api name b keyed)"
  unfolding head_status_def by (intro holds_intros)

lemma vets_True: "vets cfg u True t \<Longrightarrow> vets cfg u v t"
  by (simp add: vets_def)

lemma vets_holds: "holds trace m \<Longrightarrow> preserves (vets cfg u v) m"
  by (erule preserves_holds) (simp add: vets_def)

lemma find_cluster_pres: "keeps trace api \<Longrightarrow> preserves (vets cfg u v) (find_cluster api n)"
  by (rule preserves_wp, rule wp_mono, erule (1) find_cluster_vets) auto

lemma delete_vets: "keeps trace api \<Longrightarrow> preserves (vets cfg u True) (delete api (own cfg u) why)"
  unfolding delete_def
  by (intro pres_intros vets_holds holds_intros; (assumption | simp)?) (simp_all add: vets_def)

lemma poll_pres [pres_intros]:
  assumes "preserves I body" "preserves I (now_m api)" "preserves I (sleep api START_POLL_S)"
  shows "preserves I (poll fuel api deadline late body)"
  by (induction fuel) (auto intro!: pres_intros assms)

lemma wait_until_gone_vets: "keeps trace api \<Longrightarrow> preserves (vets cfg u v) (wait_until_gone fuel api n)"
  unfolding wait_until_gone_def
  by (intro pres_intros find_cluster_pres vets_holds [of "now_m api"] vets_holds [of "sleep api START_POLL_S"] holds_intros)

lemma head_up_vets:
  assumes "keeps trace api" "holds trace find_head" "x_name x = own cfg u" "x_token x = token_for cfg (own cfg u)"
  shows "preserves (vets cfg u True) (head_up fuel cfg api x find_head keyed noun)"
  unfolding head_up_def head_up_pass_def
  by (intro pres_intros vets_holds [of "post_secret api _ _ _ _"] vets_holds [OF assms(2)] vets_holds [of "now_m api"]
      vets_holds [of "sleep api START_POLL_S"] vets_holds [of "head_status _ _ _ _ _"] holds_intros assms(1))
     (simp add: vets_def assms(3,4))

lemma make_room_vets:
  assumes api: "keeps trace api" and v: "live found \<Longrightarrow> v"
  shows "preserves (vets cfg u v) (make_room fuel cfg api u shape found)"
proof -
  have d: "preserves (vets cfg u v) (delete api (own cfg u) why)" if "live found" for why
    using delete_vets [OF api] v [OF that] by simp
  show ?thesis
    unfolding make_room_def
    by (intro pres_intros wait_until_gone_vets [OF api] d vets_holds [OF busy_holds [OF api]]
        vets_holds [OF admit_holds [OF api]]) simp
qed

lemma make_room_kept:
  "make_room fuel cfg api u shape found s = (Inr (Inl c), t) \<Longrightarrow> found = Some c \<and> runs c shape"
  by (auto simp: make_room_def bindm_def ret_def split: option.splits if_splits prod.splits sum.splits)

text \<open>What the template of the clusters must leave to the gateway: it names no owner.\<close>

definition unowned :: "gw_config \<Rightarrow> bool" where
  "unowned cfg \<longleftrightarrow> map_of (p_labels (s_head (k_spec (cfg_template cfg)))) PART_OF = None"

lemma build_cluster_own:
  assumes "build_cluster sha fl (cluster_template tmpl u) u shape mix = Some c"
    and "map_of (p_labels (s_head (k_spec tmpl))) PART_OF = None"
  shows "k_name c = user_cluster sha u \<and> cluster_owner c = user_owner u"
  using assms(1)
proof (rule build_clusterD, goal_cases)
  case (1 g0 g p)
  with assms(2) show ?case
    by (simp add: cluster_owner_def spec_owner_def cluster_template_def account_pod_def
        user_owner_def dict_get_def update_conv')
qed

lemma recheck_vets:
  assumes api: "keeps trace api" and s: "vets cfg u v s"
  shows "wp (bindm (find_cluster api (own cfg u)) (\<lambda>found. case found of
        None \<Rightarrow> ret None
      | Some k \<Rightarrow> bindm (of_sum (refuse_others (cfg_sha cfg) k u)) (\<lambda>_. ret (Some k))))
    (\<lambda>found t. vets cfg u v t \<and> (found \<noteq> None \<longrightarrow> vets cfg u True t)) (\<lambda>_. vets cfg u v) s"
  unfolding wp_bindm
  by (rule wp_mono [OF find_cluster_vets [OF api s]])
     (auto simp: wp_simps refuse_others_def split: option.split)

lemma create_cluster_vets:
  assumes api: "keeps trace api" and cfg: "unowned cfg" and s: "vets cfg u v s"
  shows "wp (create_cluster cfg api u shape mix)
    (\<lambda>found t. vets cfg u v t \<and> (found \<noteq> None \<longrightarrow> vets cfg u True t)) (\<lambda>_. vets cfg u v) s"
proof (cases "build_cluster (cfg_sha cfg) (cfg_flavors cfg) (cluster_template (cfg_template cfg) u) u shape mix")
  case None
  then show ?thesis using s by (simp add: create_cluster_def wp_simps value_or_raise_def)
next
  case (Some c)
  have post: "vets cfg u v (s\<lparr>trace := Post_cluster c # trace s\<rparr>)"
    using s build_cluster_own [OF Some] cfg by (simp add: vets_def own_def unowned_def)
  show ?thesis
    unfolding create_cluster_def wp_bindm wp_of_sum wp_emit
    apply (simp only: Some value_or_raise_def option.case sum.case)
    apply (rule wp_vets [OF _ post])
    subgoal using api by (rule holds_intros)
    subgoal for a t
      apply (simp only: prod.case_eq_if)
      apply (cases "fst (fst a) = 201")
       apply (simp add: wp_simps, simp add: vets_def vetted_def)
      apply (cases "fst (fst a) = 409")
       apply (subst if_not_P, assumption, subst if_P, assumption, rule recheck_vets [OF api], assumption)
      by (simp add: wp_simps)
    by assumption
qed

lemma serve_head_vets: "keeps trace api \<Longrightarrow> preserves (vets cfg u True) (serve_head fuel cfg api u c)"
  unfolding serve_head_def
  by (intro pres_intros head_up_vets delete_vets vets_holds [of "head_status _ _ _ _ _"] holds_intros)
     (simp_all add: token_secret_def)

lemma made_vets:
  assumes api: "keeps trace api" and "vets cfg u v s" "made \<noteq> None \<longrightarrow> vets cfg u True s"
  shows "wp (case made of None \<Rightarrow> raise replacing
     | Some c \<Rightarrow> if \<not> runs c shape then raise replacing else serve_head fuel cfg api u c)
    (\<lambda>_. vets cfg u True) (\<lambda>_. vets cfg u False) s"
proof (cases made)
  case None
  then show ?thesis using assms(2) by (simp add: wp_simps vets_def)
next
  case (Some c)
  then have s: "vets cfg u True s" using assms(3) by simp
  have "wp (serve_head fuel cfg api u c) (\<lambda>_. vets cfg u True) (\<lambda>_. vets cfg u False) s"
    by (rule wp_preserves [OF serve_head_vets [OF api] s]) (auto intro: vets_True)
  then show ?thesis using Some s by (simp add: wp_simps vets_True)
qed

lemma start_cluster_vets:
  assumes api: "keeps trace api" and cfg: "unowned cfg" and s: "vets cfg u False s"
  shows "wp (start_cluster fuel cfg api u shape) (\<lambda>_. vets cfg u True) (\<lambda>_. vets cfg u False) s"
  unfolding start_cluster_def wp_bindm
proof (rule wp_mono [OF find_cluster_vets [OF api s]], goal_cases)
  case (1 found t)
  let ?v = "live found"
  have room: "wp (make_room fuel cfg api u shape found) (\<lambda>kept. wp
       (case kept of Inl c \<Rightarrow> ret (Some c) | Inr mix \<Rightarrow> create_cluster cfg api u shape mix)
       (\<lambda>made. wp (case made of None \<Rightarrow> raise replacing
         | Some c \<Rightarrow> if \<not> runs c shape then raise replacing else serve_head fuel cfg api u c)
         (\<lambda>_. vets cfg u True) (\<lambda>_. vets cfg u False)) (\<lambda>_. vets cfg u False)) (\<lambda>_. vets cfg u False) t'"
    if t': "vets cfg u ?v t'" for t'
  proof (rule wpI)
    have after: "vets cfg u ?v (snd (make_room fuel cfg api u shape found t'))"
      by (rule preservesD [OF make_room_vets [OF api] t'])
    fix kept t2
    assume run: "make_room fuel cfg api u shape found t' = (Inr kept, t2)"
    have t2: "vets cfg u ?v t2" using after run by simp
    show "wp (case kept of Inl c \<Rightarrow> ret (Some c) | Inr mix \<Rightarrow> create_cluster cfg api u shape mix)
       (\<lambda>made. wp (case made of None \<Rightarrow> raise replacing
         | Some c \<Rightarrow> if \<not> runs c shape then raise replacing else serve_head fuel cfg api u c)
         (\<lambda>_. vets cfg u True) (\<lambda>_. vets cfg u False)) (\<lambda>_. vets cfg u False) t2"
    proof (cases kept)
      case (Inl c)
      then have "live found" using make_room_kept run by (fastforce simp: runs_def)
      then show ?thesis unfolding Inl sum.case wp_ret using t2 by (intro made_vets [OF api]) simp_all
    next
      case (Inr mix)
      show ?thesis unfolding Inr sum.case
        by (rule wp_mono [OF create_cluster_vets [OF api cfg t2]]) (auto intro: made_vets [OF api] simp: vets_def)
    qed
  next
    fix e t2
    have after: "vets cfg u ?v (snd (make_room fuel cfg api u shape found t'))"
      by (rule preservesD [OF make_room_vets [OF api] t'])
    assume "make_room fuel cfg api u shape found t' = (Inl e, t2)"
    then show "vets cfg u False t2" using after by (simp add: vets_def)
  qed
  have now: "trace (snd (monotonic api t)) = trace t" for t using holdsD [OF keeps_calls(1) [OF api]] .
  show ?case
  proof (cases "live found \<and> cluster_owner (the found) \<noteq> user_owner u")
    case True
    then show ?thesis using 1 by (simp add: wp_of_sum refuse_others_def)
  next
    case False
    then have t: "vets cfg u ?v t" using 1 by (auto simp: live_def intro: vets_True split: option.splits)
    have passes: "(if live found then of_sum (refuse_others (cfg_sha cfg) (the found) u) else ret ()) = ret ()"
      using False by (auto simp: refuse_others_def of_sum_def ret_def)
    show ?thesis
      unfolding passes wp_ret wp_now_m wp_modify by (rule room) (use t in \<open>simp add: vets_def now\<close>)
  qed
next
  case (2 e t)
  then show ?case .
qed

lemma cluster_for_vets:
  assumes api: "keeps trace api" and cfg: "unowned cfg"
  shows "preserves (vets cfg u False) (cluster_for fuel cfg api u shape)"
proof -
  have "preserves (vets cfg u False) (start_cluster fuel cfg api u shape)"
    by (rule preserves_wp, rule wp_mono [OF start_cluster_vets [OF api cfg]]) (auto intro: vets_True)
  then show ?thesis
    unfolding cluster_for_def
    by (intro pres_intros vets_holds [OF holds_now_m [OF api]]) simp_all
qed

lemma cluster_for_own: "cluster_for fuel cfg api u shape s = (Inr c, t) \<Longrightarrow> c = own cfg u"
  by (auto simp: cluster_for_def run_simps raise_def split: if_splits)

lemma caller_trace:
  assumes "keeps trace api"
  shows "trace (snd (caller_m cfg api headers s)) = trace s"
  using holdsD [OF keeps_calls(1) [OF assms], of s]
  by (auto simp: caller_m_def bindm_def now_m_def split: prod.split sum.split)

lemma relay_cluster_vets:
  assumes "keeps trace api" "unowned cfg"
  shows "preserves (vets cfg u False) (relay_cluster fuel cfg api client u shape)"
  unfolding relay_cluster_def
  by (intro pres_intros cluster_for_vets [OF assms] vets_holds [OF holds_now_m [OF assms(1)]]) simp_all

lemma relay_cluster_own: "relay_cluster fuel cfg api client u shape s = (Inr c, t) \<Longrightarrow> c = own cfg u"
  by (auto simp: relay_cluster_def run_simps split: option.splits dest: cluster_for_own)

lemma own_cluster_found_vets:
  "keeps trace api \<Longrightarrow> preserves (vets cfg u True) (own_cluster_found cfg api http_method force u c)"
  unfolding own_cluster_found_def
  by (intro pres_intros delete_vets vets_holds [OF busy_holds]) simp_all

lemma own_cluster_of_vets:
  assumes api: "keeps trace api" and cfg: "unowned cfg"
  shows "preserves (vets cfg u False) (own_cluster_of fuel cfg api http_method force u shape)"
  unfolding own_cluster_of_def
proof (rule preserves_bindm)
  show "preserves (vets cfg u False)
     (if http_method = ''POST'' then bindm (cluster_for fuel cfg api u shape) (\<lambda>_. ret ()) else ret ())"
    by (intro pres_intros cluster_for_vets [OF api cfg])
next
  have found: "wp (own_cluster_found cfg api http_method force u c) (\<lambda>_. vets cfg u False) (\<lambda>_. vets cfg u False) t"
    if "vets cfg u True t" for c t
    by (rule wp_preserves [OF own_cluster_found_vets [OF api] that]) (auto intro: vets_True)
  show "preserves (vets cfg u False) (bindm (find_cluster api (own cfg u)) (\<lambda>found.
     if \<not> live found then
       (if http_method = ''DELETE'' then raise (Refused NOT_FOUND ''You have no Ray cluster.'') else ret None)
     else
     bindm (of_sum (refuse_others (cfg_sha cfg) (the found) u)) (\<lambda>_.
     own_cluster_found cfg api http_method force u (the found))))"
    apply (rule preserves_wp)
    unfolding wp_bindm
    apply (rule wp_mono [OF find_cluster_vets [OF api]], assumption)
    by (auto simp: wp_simps refuse_others_def live_def found split: option.splits)
qed

text \<open>Who a call is from: the user and the shape \<open>Gateway.caller\<close> finds for its headers.\<close>

definition calls_as :: "gw_config \<Rightarrow> 'w api \<Rightarrow> (string, string) dict \<Rightarrow> 'w gateway \<Rightarrow> user \<Rightarrow> bool" where
  "calls_as cfg api headers s u \<longleftrightarrow> (\<exists>shape t. caller_m cfg api headers s = (Inr (u, shape), t))"

lemma caller_first:
  assumes api: "keeps trace api" and s: "trace s = []"
    and m: "\<And>u shape. preserves (vets cfg u False) (m u shape)"
  shows "trace (snd (bindm (caller_m cfg api headers) (\<lambda>(u, shape). m u shape) s)) = []
    \<or> (\<exists>u. calls_as cfg api headers s u
        \<and> guarded cfg u (trace (snd (bindm (caller_m cfg api headers) (\<lambda>(u, shape). m u shape) s))))"
proof (cases "caller_m cfg api headers s")
  case (Pair r t)
  have t: "trace t = []" using caller_trace [OF api, of cfg headers s] s Pair by simp
  show ?thesis
  proof (cases r)
    case (Inl e)
    with Pair t show ?thesis by (simp add: bindm_def)
  next
    case (Inr us)
    obtain u shape where us: "us = (u, shape)" by (cases us)
    have "vets cfg u False (snd (m u shape t))" by (rule preservesD [OF m]) (simp add: vets_def t)
    then show ?thesis using Pair Inr us by (auto simp: bindm_def calls_as_def vets_def)
  qed
qed

lemma refusals_answered_state: "snd (refusals_answered m s) = snd (m s)"
  by (auto simp: refusals_answered_def catch_def bindm_def ret_def raise_def split: prod.split sum.split gw_error.split)

lemma relay_state:
  "snd (relay fuel cfg api headers s) = snd (bindm (caller_m cfg api headers) (\<lambda>(u, shape).
     bindm (relay_cluster fuel cfg api (dict_get headers ''client_id'' []) u shape)
       (relay_on (dict_get headers ''client_id'' []))) s)"
  by (auto simp: relay_def Let_def bindm_def catch_def raise_def split: prod.split sum.split)

lemma relay_on_vets:
  assumes "keeps trace api" "unowned cfg"
  shows "preserves (vets cfg u False) (bindm (relay_cluster fuel cfg api client u shape) (relay_on client))"
proof (rule preserves_wp, unfold wp_bindm, rule wpI, goal_cases)
  case (1 s c t)
  have "vets cfg u False t" using preservesD [OF relay_cluster_vets [OF assms] 1(1)] 1(2) by (metis snd_conv)
  then show ?case using relay_cluster_own [OF 1(2)] by (simp add: relay_on_def wp_simps vets_def)
next
  case (2 s e t)
  then show ?case using preservesD [OF relay_cluster_vets [OF assms] 2(1)] by (metis snd_conv)
qed


subsection \<open>The loops end\<close>

definition returns :: "('w, 'a) io \<Rightarrow> bool" where
  "returns m \<longleftrightarrow> (\<forall>s. fst (m s) \<noteq> Inl Diverged)"

named_theorems returns_intros

lemma returns_basic [returns_intros]:
  "returns (ret a)" "e \<noteq> Diverged \<Longrightarrow> returns (raise e)" "returns (gets g)" "returns (modify h)" "returns (emit ev)"
  "returns (asks f)" "returns (now_m api)" "returns (sleep api d)"
  by (auto simp: returns_def run_defs split: prod.split)

lemma returns_of_sum [returns_intros]: "r \<noteq> Inl Diverged \<Longrightarrow> returns (of_sum r)"
  by (auto simp: returns_def of_sum_def)

lemma returns_bindm [returns_intros]: "returns m \<Longrightarrow> (\<And>a. returns (g a)) \<Longrightarrow> returns (bindm m g)"
  by (auto simp: returns_def bindm_def split: prod.split sum.split) (metis fst_conv)

lemma returns_catch [returns_intros]:
  "returns m \<Longrightarrow> (\<And>e. e \<noteq> Diverged \<Longrightarrow> returns (h e)) \<Longrightarrow> returns (catch m h)"
  by (auto simp: returns_def catch_def split: prod.split sum.split) (metis fst_conv)+

lemma returns_if [returns_intros]: "(b \<Longrightarrow> returns m) \<Longrightarrow> (\<not> b \<Longrightarrow> returns m') \<Longrightarrow> returns (if b then m else m')"
  by simp

lemma returns_prod [returns_intros]: "(\<And>a b. returns (g a b)) \<Longrightarrow> returns (case p of (a, b) \<Rightarrow> g a b)"
  by (simp add: case_prod_beta)

lemma returns_option [returns_intros]:
  "returns m \<Longrightarrow> (\<And>a. returns (g a)) \<Longrightarrow> returns (case x of None \<Rightarrow> m | Some a \<Rightarrow> g a)"
  by (cases x) simp_all

lemma returns_sum [returns_intros]:
  "(\<And>a. returns (g a)) \<Longrightarrow> (\<And>b. returns (h b)) \<Longrightarrow> returns (case x of Inl a \<Rightarrow> g a | Inr b \<Rightarrow> h b)"
  by (cases x) simp_all

lemma returns_reply [returns_intros]:
  "(\<And>n. returns (g n)) \<Longrightarrow> (\<And>a. returns (h a)) \<Longrightarrow> returns m
   \<Longrightarrow> returns (case r of HeadStatus n \<Rightarrow> g n | HeadSays a \<Rightarrow> h a | HeadOdd \<Rightarrow> m)"
  by (cases r) simp_all

lemma returns_bool [returns_intros]: "returns m \<Longrightarrow> returns m' \<Longrightarrow> returns (case b of True \<Rightarrow> m | False \<Rightarrow> m')"
  by (cases b) simp_all

text \<open>
  The clock of the world: \<open>monotonic\<close> reads it, sleeping moves it on by at least the time slept, and no call
  the loops make moves it back. A call never ends in \<open>Diverged\<close>, which only the model's loops do.
\<close>

definition forward :: "('w \<Rightarrow> time) \<Rightarrow> ('w gateway \<Rightarrow> 'a \<times> 'w gateway) \<Rightarrow> bool" where
  "forward clk m \<longleftrightarrow> (\<forall>s. clk (world s) \<le> clk (world (snd (m s))))"

definition clocked :: "('w \<Rightarrow> time) \<Rightarrow> 'w api \<Rightarrow> bool" where
  "clocked clk api \<longleftrightarrow> (\<forall>s. fst (monotonic api s) = clk (world s)) \<and> forward clk (monotonic api)
     \<and> (\<forall>d s. clk (world s) + d \<le> clk (world (pause api d s)))
     \<and> (\<forall>n. forward clk (get_cluster api n)) \<and> (\<forall>n a. forward clk (head_version api n a))
     \<and> (\<forall>a b c d. forward clk (post_secret api a b c d))"

definition calls_return :: "'w api \<Rightarrow> bool" where
  "calls_return api \<longleftrightarrow> (\<forall>n. returns (get_cluster api n)) \<and> returns (list_clusters api)
     \<and> (\<forall>c. returns (post_cluster api c)) \<and> (\<forall>n. returns (delete_cluster api n))
     \<and> (\<forall>a b c d. returns (post_secret api a b c d)) \<and> returns (gpus_allocatable api)
     \<and> returns (gpus_used api) \<and> returns (gpus_preemptible api)"

lemma forwardI:
  "(\<And>s. clk (world (g s)) = clk (world s)) \<Longrightarrow> forward clk (modify g)"
  "forward clk (ret a)" "forward clk (raise e)" "forward clk (emit ev)" "forward clk (of_sum r)"
  "forward clk m \<Longrightarrow> forward clk (asks m)"
  by (auto simp: forward_def run_defs split: prod.split) (metis snd_conv)

lemma forward_bindm:
  "forward clk m \<Longrightarrow> (\<And>a. forward clk (g a)) \<Longrightarrow> forward clk (bindm m g)"
  by (auto simp: forward_def bindm_def split: prod.split sum.split) (metis order_trans snd_conv)+

lemma forward_if: "forward clk m \<Longrightarrow> forward clk m' \<Longrightarrow> forward clk (if b then m else m')"
  by simp

lemma forward_find: "clocked clk api \<Longrightarrow> forward clk (find_cluster api n)"
  unfolding find_cluster_def case_prod_beta
  by (intro forward_bindm forward_if forwardI) (simp_all add: clocked_def)

lemma returns_find [returns_intros]: "calls_return api \<Longrightarrow> returns (find_cluster api n)"
  unfolding find_cluster_def by (intro returns_intros) (simp_all add: calls_return_def)

text \<open>A loop that polls every \<open>START_POLL_S\<close> passes its deadline in as many passes as fit before it, and one more.\<close>

lemma returns_wp: "returns m \<longleftrightarrow> (\<forall>s. wp m (\<lambda>_ _. True) (\<lambda>e _. e \<noteq> Diverged) s)"
proof -
  have "wp m (\<lambda>_ _. True) (\<lambda>e _. e \<noteq> Diverged) s \<longleftrightarrow> fst (m s) \<noteq> Inl Diverged" for s
    by (cases "m s") (auto simp: wp_def split: sum.split)
  then show ?thesis by (simp add: returns_def)
qed

lemma wp_forward:
  assumes "returns m" "forward clk m" "\<And>a t. clk (world s) \<le> clk (world t) \<Longrightarrow> R a t"
  shows "wp m R (\<lambda>e _. e \<noteq> Diverged) s"
  using assms(1,2) by (intro wpI assms(3)) (auto simp: returns_def forward_def dest: spec [of _ s])

lemma poll_returns:
  assumes c: "clocked clk api" and body: "returns body" "forward clk body" and late: "late \<noteq> Diverged"
  shows "deadline < clk (world s) + START_POLL_S * of_nat fuel
    \<Longrightarrow> wp (poll (Suc fuel) api deadline late body) (\<lambda>_ _. True) (\<lambda>e _. e \<noteq> Diverged) s"
proof (induction fuel arbitrary: s)
  have now: "fst (monotonic api t) = clk (world t)" "clk (world t) \<le> clk (world (snd (monotonic api t)))"
      "clk (world t) + START_POLL_S \<le> clk (world (pause api START_POLL_S t))" for t
    using c by (auto simp: clocked_def forward_def)
  case (Suc fuel)
  have "wp (poll (Suc fuel) api deadline late body) (\<lambda>_ _. True) (\<lambda>e _. e \<noteq> Diverged)
      (pause api START_POLL_S (snd (monotonic api t)))" if "clk (world s) \<le> clk (world t)" for t
    using Suc.prems now(2) [of t] now(3) [of "snd (monotonic api t)"] that by (intro Suc.IH) (simp add: algebra_simps)
  then show ?case
    unfolding poll.simps(2) [of "Suc fuel"] wp_bindm
    by (intro wp_forward [OF body]) (simp add: wp_simps late del: poll.simps split: option.split)
next
  have now: "fst (monotonic api t) = clk (world t)" for t using c by (simp add: clocked_def)
  case 0
  then show ?case
    unfolding poll.simps(2) wp_bindm
    by (intro wp_forward [OF body]) (simp add: wp_simps late now split: option.split)
qed

definition POLLS :: nat where "POLLS = 122"

lemma poll_up_returns:
  assumes "clocked clk api" "returns body" "forward clk body" "late \<noteq> Diverged" "POLLS \<le> fuel"
  shows "returns (bindm (now_m api) (\<lambda>now. poll fuel api (now + START_TIMEOUT_S) late body))"
proof -
  obtain k where k: "fuel = Suc k" "121 \<le> k" using assms(5) by (cases fuel) (auto simp: POLLS_def)
  have "wp (poll fuel api (clk (world s) + START_TIMEOUT_S) late body) (\<lambda>_ _. True) (\<lambda>e _. e \<noteq> Diverged)
      (snd (monotonic api s))" for s
  proof -
    have "clk (world s) \<le> clk (world (snd (monotonic api s)))" using assms(1) by (simp add: clocked_def forward_def)
    moreover have "START_TIMEOUT_S < START_POLL_S * of_nat k"
      using k(2) by (simp add: START_TIMEOUT_S_def START_POLL_S_def)
    ultimately show ?thesis unfolding k(1) by (intro poll_returns [OF assms(1-4)]) simp
  qed
  moreover have "fst (monotonic api s) = clk (world s)" for s using assms(1) by (simp add: clocked_def)
  ultimately show ?thesis by (simp add: returns_wp wp_simps)
qed

lemma value_or_raise_returns [simp]: "value_or_raise x \<noteq> Inl Diverged"
  by (simp add: value_or_raise_def split: option.split)

lemma some_job_runs_returns: "some_job_runs js \<noteq> Inl Diverged"
  by (induction js rule: some_job_runs.induct) auto

lemma wait_until_gone_returns:
  assumes "clocked clk api" "calls_return api" "POLLS \<le> fuel"
  shows "returns (wait_until_gone fuel api n)"
  unfolding wait_until_gone_def
  by (intro poll_up_returns [OF assms(1)] assms returns_intros forward_bindm forward_find forwardI) simp_all

lemma head_up_returns:
  assumes "clocked clk api" "calls_return api" "POLLS \<le> fuel" "returns find_head" "forward clk find_head"
  shows "returns (head_up fuel cfg api x find_head keyed noun)"
  unfolding head_up_def
proof (rule poll_up_returns [OF assms(1)])
  show "returns (head_up_pass cfg api x find_head keyed noun)"
    unfolding head_up_pass_def head_status_def
    by (intro returns_intros assms) (use assms(2) in \<open>simp_all add: calls_return_def\<close>)
  show "forward clk (head_up_pass cfg api x find_head keyed noun)"
    unfolding head_up_pass_def head_status_def
    by (intro forward_bindm forward_if forwardI assms) (use assms(1) in \<open>simp_all add: clocked_def\<close>)
qed (simp_all add: assms)

lemma busy_returns [returns_intros]: "returns (busy api c)"
  unfolding busy_def by (intro returns_intros some_job_runs_returns)

lemma free_gpus_returns [returns_intros]: "calls_return api \<Longrightarrow> returns (free_gpus fl api)"
  unfolding free_gpus_def
  by (intro returns_intros; (split gw_error.split)?; (intro returns_intros conjI allI impI)?) (simp_all add: calls_return_def)

lemma admit_returns [returns_intros]: "calls_return api \<Longrightarrow> returns (admit fl api shape replaced name)"
  unfolding admit_def Let_def
  by (intro returns_intros) (simp_all add: calls_return_def exhausted_def)

lemma delete_returns [returns_intros]: "calls_return api \<Longrightarrow> returns (delete api n why)"
  unfolding delete_def by (intro returns_intros) (simp_all add: calls_return_def)

lemma start_cluster_returns:
  assumes "clocked clk api" "calls_return api" "POLLS \<le> fuel"
  shows "returns (start_cluster fuel cfg api u shape)"
  unfolding start_cluster_def make_room_def create_cluster_def serve_head_def head_status_def
  by (intro returns_intros wait_until_gone_returns [OF assms] head_up_returns [OF assms] forwardI assms(2))
     (use assms(2) in \<open>simp_all add: calls_return_def refuse_others_def replacing_def\<close>)

text \<open>
  A call for a cluster ends. Its two loops, which wait for a cluster to go and for a head to answer, poll every
  \<open>START_POLL_S\<close> and give up past \<open>START_TIMEOUT_S\<close>: if sleeping takes the time slept and the clock does not run
  back, 122 passes are enough for each, whatever Kubernetes and the head answer, and a call for a cluster
  ends with the cluster or a refusal.
\<close>

theorem cluster_for_ends:
  assumes "clocked clk api" "calls_return api" "POLLS \<le> fuel"
  shows "fst (cluster_for fuel cfg api u shape s) \<noteq> Inl Diverged"
proof -
  have "mounted_env e roots \<noteq> Inl Diverged" for e roots by (simp add: mounted_env_def Let_def)
  then have "returns (cluster_for fuel cfg api u shape)"
    unfolding cluster_for_def
    by (intro returns_intros start_cluster_returns [OF assms])
       (auto simp: session_gpu_refusal_def value_or_raise_def split: option.split)
  then show ?thesis by (simp add: returns_def)
qed

subsection \<open>Clients of a removed cluster\<close>

lemma map_of_mark_all:
  "map_of (foldl (\<lambda>g c. AList.update c v g) d cs) k = (if k \<in> set cs then Some v else map_of d k)"
  by (induction cs arbitrary: d) (auto simp: update_conv')

lemma map_of_filter_kept: "map_of d k = Some v \<Longrightarrow> P (k, v) \<Longrightarrow> map_of (filter P d) k = Some v"
  by (induction d) auto

lemma relay_refuses_gone:
  assumes "map_of (gone s) client = Some (until, why)" "fst (monotonic api s) < until" "keeps gone api" "keeps trace api"
  shows "\<exists>t. relay_cluster fuel cfg api client u shape s = (Inl (Refused NOT_FOUND why), t) \<and> trace t = trace s"
proof -
  have "gone (snd (monotonic api s)) = gone s" "trace (snd (monotonic api s)) = trace s"
    using holdsD [OF keeps_calls(1) [OF assms(3)]] holdsD [OF keeps_calls(1) [OF assms(4)]] by simp_all
  then show ?thesis
    using assms(1,2) map_of_filter_kept [OF assms(1), of "\<lambda>(c, g). fst g > fst (monotonic api s)"]
    by (cases "monotonic api s") (auto simp: relay_cluster_def run_defs)
qed

text \<open>
  A Ray Client whose cluster was removed learns why. Once a cluster is removed, every client it served is known
  to be of a removed cluster, the cluster counts as not started and serves no client; and for \<open>GONE_S\<close> from the
  removal a call of such a client, whatever it asks for, is refused with the reason and starts nothing.
\<close>

theorem removed_clients_refused:
  assumes del: "delete api name why s = (Inr (), t)" and client: "client \<in> set (dict_get (clients s) name [])"
    and api: "keeps clients api" "keeps started api" "keeps gone api" "keeps trace api"
  shows "\<exists>removed. map_of (gone t) client = Some (removed + GONE_S, why)
    \<and> map_of (started t) name = None \<and> map_of (clients t) name = None
    \<and> (\<forall>r fuel cfg u shape. gone r = gone t \<and> fst (monotonic api r) < removed + GONE_S \<longrightarrow>
         (\<exists>r'. relay_cluster fuel cfg api client u shape r = (Inl (Refused NOT_FOUND why), r') \<and> trace r' = trace r))"
proof -
  obtain status s1 now s2 where
    run: "delete_cluster api name (s\<lparr>trace := Delete_cluster name # trace s\<rparr>) = (Inr status, s1)"
    and mono: "monotonic api (s1\<lparr>started := AList.delete name (started s1)\<rparr>) = (now, s2)"
    and t: "t = s2\<lparr>gone := foldl (\<lambda>g c. AList.update c (now + GONE_S, why) g) (gone s2) (dict_get (clients s2) name []),
        clients := AList.delete name (clients s2)\<rparr>"
    using del by (auto simp: delete_def run_simps)
  have "clients s1 = clients s"
    using holdsD [OF keeps_calls(8) [OF api(1)], of name "s\<lparr>trace := Delete_cluster name # trace s\<rparr>"] run by simp
  then have m: "clients s2 = clients s" "started s2 = AList.delete name (started s1)"
    using holdsD [OF keeps_calls(1) [OF api(1)], of "s1\<lparr>started := AList.delete name (started s1)\<rparr>"]
      holdsD [OF keeps_calls(1) [OF api(2)], of "s1\<lparr>started := AList.delete name (started s1)\<rparr>"] mono by simp_all
  have "map_of (gone t) client = Some (now + GONE_S, why)"
    unfolding t using client by (simp add: map_of_mark_all m)
  moreover have "map_of (started t) name = None" "map_of (clients t) name = None"
    unfolding t by (simp_all add: m delete_conv')
  ultimately show ?thesis
    using relay_refuses_gone [OF _ _ api(3,4)] by (intro exI [of _ now]) auto
qed

subsection \<open>What the reaper removes\<close>

lemma do_simps:
  "bindm (now_w api) f s = f (fst (wall api s)) (snd (wall api s))"
  "bindm (now_m api) f s = f (fst (monotonic api s)) (snd (monotonic api s))"
  "bindm (gets g) f s = f (g s) s" "bindm (modify h) k s = k () (h s)" "bindm (ret a) f' s = f' a s"
  "snd (modify h s) = h s" "snd (ret a s) = s" "snd (raise e s) = s"
  by (simp_all add: run_defs split: prod.split)

lemma emit_then: "holds trace m \<Longrightarrow> trace (snd (bindm (emit e) (\<lambda>_. m) s)) = e # trace s"
  using holdsD [of trace m "s\<lparr>trace := e # trace s\<rparr>"] by (simp add: bindm_def emit_def modify_def)

lemma delete_trace: "keeps trace api \<Longrightarrow> trace (snd (delete api n why s)) = Delete_cluster n # trace s"
  unfolding delete_def by (rule emit_then) (intro holds_intros; simp)

lemma after_trace: "holds trace m \<Longrightarrow> (\<And>a. holds trace (g a)) \<Longrightarrow> trace (snd (bindm m g s)) = trace s"
  by (rule holdsD) (rule holds_bindm)

lemma then_trace: "(\<And>a. holds trace (g a)) \<Longrightarrow> trace (snd (bindm m g s)) = trace (snd (m s))"
  by (cases "m s") (auto simp: bindm_def holds_def split: sum.split)

lemma busy_trace: "keeps trace api \<Longrightarrow> trace (snd (busy api c s)) = trace s"
  by (rule holdsD [OF busy_holds])

text \<open>
  The reaper removes a cluster exactly if its workers did not start in time or nothing used it long enough.
  Looking at one cluster, it asks for its removal if and only if the cluster is unprovisioned by the clock of the
  wall, or its head says that it is not busy and it was last used \<open>IDLE_TIMEOUT_S\<close> ago or longer, where
  a cluster not seen before counts as used now; and it removes nothing else.
\<close>

theorem reap_cluster_exact:
  assumes api: "keeps trace api" "keeps last_used api"
  shows "trace (snd (reap_cluster api now c s)) =
    (if unprovisioned c (fst (wall api s))
        \<or> fst (busy api c (snd (wall api s))) = Inr False
            \<and> IDLE_TIMEOUT_S \<le> now - dict_get (last_used s) (k_name c) now
     then [Delete_cluster (k_name c)] else []) @ trace s"
proof -
  let ?s = "snd (wall api s)" and ?b = "busy api c (snd (wall api s))"
  have w: "trace ?s = trace s" "last_used ?s = last_used s"
    using holdsD [OF keeps_calls(2) [OF api(1)]] holdsD [OF keeps_calls(2) [OF api(2)]] by simp_all
  have b: "trace (snd ?b) = trace s" "last_used (snd ?b) = last_used s"
    using holdsD [OF busy_holds [OF api(1)]] holdsD [OF busy_holds [OF api(2)]] w by simp_all
  have d: "trace (snd (bindm (delete api n why) (\<lambda>_. modify g) t)) = Delete_cluster n # trace t"
    if "\<And>s. trace (g s) = trace s" for n why g t
    using that by (subst then_trace) (simp_all add: holds_modify delete_trace [OF api(1)])
  show ?thesis
  proof (cases "unprovisioned c (fst (wall api s))")
    case True
    then show ?thesis by (simp add: reap_cluster_def Let_def do_simps d w)
  next
    case False
    show ?thesis
    proof (cases ?b)
      case (Pair r t)
      then have t: "trace t = trace s" "last_used t = last_used s" using b by simp_all
      have run: "bindm (busy api c) f ?s = (case r of Inl e \<Rightarrow> (Inl e, t) | Inr x \<Rightarrow> f x t)" for f
        using Pair by (simp add: bindm_def split: sum.split)
      show ?thesis
        using False Pair t by (auto simp: reap_cluster_def Let_def do_simps run d split: sum.split)
    qed
  qed
qed

text \<open>
  The reaper never removes a cluster that a RayJob made, whoever fails meanwhile. All that a pass over the
  clusters asks for is the removal of clusters of the listing that no RayJob made.
\<close>

theorem reap_idle_spares_jobs:
  assumes api: "keeps trace api" "keeps last_used api" and items: "list_clusters api s = (Inr (status, items), s1)"
    and e: "e \<in> set (trace (snd (reap_idle api s)))" "e \<notin> set (trace s)"
  shows "\<exists>c \<in> set items. e = Delete_cluster (k_name c) \<and> dict_get (k_labels c) FROM_CRD [] \<noteq> ''RayJob''"
proof -
  let ?I = "\<lambda>t. set (trace t) \<subseteq> set (trace s) \<union> {Delete_cluster (k_name c) | c. c \<in> set items
      \<and> dict_get (k_labels c) FROM_CRD [] \<noteq> ''RayJob''}"
  have s1: "trace s1 = trace s" using holdsD [OF keeps_calls(6) [OF api(1)], of s] items by simp
  have one: "preserves ?I (logged (reap_cluster api now c))"
    if "c \<in> set items" "dict_get (k_labels c) FROM_CRD [] \<noteq> ''RayJob''" for now c
    using that by (intro preserves_logged) (auto simp: preserves_def reap_cluster_exact [OF api])
  have "preserves ?I (bindm (now_m api) (\<lambda>now.
       each (\<lambda>c. if dict_get (k_labels c) FROM_CRD [] = ''RayJob'' then ret ()
                else logged (reap_cluster api now c)) items))"
    by (intro pres_intros one preserves_holds [OF holds_now_m [OF api(1)]]) simp_all
  from preservesD [OF this, of s1] have "?I (snd (reap_idle api s))"
    using s1 items by (auto simp: reap_idle_def bindm_def [of "list_clusters api"] ret_def)
  with e show ?thesis by auto
qed

text \<open>
  A head that lists its jobs in another form is not handled as the reaper means to. The comment on \<open>busy\<close>
  says that a ready head that answers as no Ray the gateway knows keeps its cluster; but where an element of the
  list of jobs is no object, as in the dictionary of jobs that other versions of Ray answer with, \<open>busy\<close> raises
  \<open>AttributeError\<close>, which it does not catch. Every pass of the reaper then skips the cluster: it is neither
  kept as busy nor ever removed as idle.
\<close>

theorem odd_jobs_skipped:
  assumes "fst (head_tasks api (k_name c) (snd (wall api s))) = HeadSays (Some False)"
    and "\<And>t. fst (head_jobs api (k_name c) t) = HeadSays (Some (None # js))"
    and "\<not> unprovisioned c (fst (wall api s))" and api: "keeps trace api" "keeps last_used api"
  shows "fst (reap_cluster api now c s) = Inl (PyError ''AttributeError'')
    \<and> trace (snd (reap_cluster api now c s)) = trace s
    \<and> last_used (snd (reap_cluster api now c s)) = last_used s"
proof -
  let ?s = "snd (wall api s)"
  have b: "fst (busy api c ?s) = Inl (PyError ''AttributeError'')"
    using assms(1,2) by (auto simp: busy_def bindm_def asks_def of_sum_def prod_eq_iff split: prod.split)
  then have "snd (reap_cluster api now c s) = snd (busy api c ?s)"
      "fst (reap_cluster api now c s) = Inl (PyError ''AttributeError'')"
    using assms(3) by (cases "busy api c ?s"; simp add: reap_cluster_def Let_def do_simps bindm_def [of "busy api c"])+
  then show ?thesis
    using holdsD [OF busy_holds [OF api(1)]] holdsD [OF busy_holds [OF api(2)]]
      holdsD [OF keeps_calls(2) [OF api(1)]] holdsD [OF keeps_calls(2) [OF api(2)]] by simp
qed

subsection \<open>Examples\<close>

definition example_found :: "'w api" where
  "example_found = example_api\<lparr>get_cluster := \<lambda>_. ret (200, example_template), list_clusters := ret (200, [example_template])\<rparr>"

lemma example_found_keeps: "keeps f example_found"
  using example_api_keeps [of f] by (simp add: keeps_def holds_def example_found_def) (simp add: ret_def)

lemma example_caller_m:
  assumes "monotonic api example_gateway = (0, example_gateway)"
  shows "\<exists>shape t. caller_m example_config api example_headers example_gateway = (Inr (example_user, shape), t)
    \<and> trace t = [] \<and> gone t = []"
  using assms example_caller
  by (simp add: caller_m_def bindm_def now_m_def example_config_def example_headers_def example_gateway_def)


definition example_clock :: "rat api" where
  "example_clock = example_api\<lparr>monotonic := \<lambda>s. (world s, s), pause := \<lambda>d s. s\<lparr>world := world s + d\<rparr>\<rparr>"

theorem cluster_for_ends_witness:
  "clocked (\<lambda>t. t) example_clock
   \<and> fst (cluster_for 122 example_config example_clock example_user example_shape
       \<lparr>last_used = [], started = [], clients = [], gone = [], never_started = [], grants = [],
         waiting = [], nrp_waiting = [], nrp_cleaned = [], nrp_owners = [], nrp_owners_asked = 0, nrp_held = None, users = [], trace = [], world = 0\<rparr>) \<noteq> Inl Diverged"
proof -
  have c: "clocked (\<lambda>t. t) example_clock"
    by (simp add: clocked_def forward_def example_clock_def) (simp add: ret_def)
  moreover have "calls_return example_clock"
    by (simp add: calls_return_def example_clock_def returns_intros)
  ultimately show ?thesis using cluster_for_ends [OF c, of 122] by (simp add: POLLS_def)
qed

theorem removed_clients_refused_witness:
  "\<exists>t. delete example_api ''c'' REMOVED_IDLE (example_gateway\<lparr>clients := [(''c'', [''x''])]\<rparr>) = (Inr (), t)
     \<and> (\<exists>until. map_of (gone t) ''x'' = Some (until, REMOVED_IDLE))"
proof -
  obtain t where run: "delete example_api ''c'' REMOVED_IDLE (example_gateway\<lparr>clients := [(''c'', [''x''])]\<rparr>) = (Inr (), t)"
    by (simp add: delete_def run_defs)
  from removed_clients_refused [OF run, of "''x''"] run show ?thesis by (auto simp: example_api_keeps)
qed

theorem reap_cluster_exact_witness:
  "trace (snd (reap_cluster example_api 1000 example_template (example_gateway\<lparr>last_used := [([], 0)]\<rparr>)))
   = [Delete_cluster []]"
proof -
  have "busy example_api example_template t = (Inr False, t)" for t :: "unit gateway"
    by (simp add: busy_def run_defs head_ready_def example_template_def)
  moreover have "\<not> unprovisioned example_template 0" by (simp add: unprovisioned_def example_template_def)
  ultimately show ?thesis
    by (subst reap_cluster_exact [OF example_api_keeps example_api_keeps])
       (simp add: example_template_def example_gateway_def IDLE_TIMEOUT_S_def)
qed

theorem reap_idle_spares_jobs_witness:
  "\<exists>e \<in> set (trace (snd (reap_idle (example_found\<lparr>monotonic := Pair 1000\<rparr>) (example_gateway\<lparr>last_used := [([], 0)]\<rparr>)))).
     e = Delete_cluster (k_name example_template)"
proof -
  let ?api = "example_found\<lparr>monotonic := Pair 1000\<rparr> :: unit api"
  let ?s = "example_gateway\<lparr>last_used := [([], 0)]\<rparr>"
  have k: "keeps f ?api" for f using example_found_keeps [of f] by (simp add: keeps_def holds_def)
  have items: "list_clusters ?api ?s = (Inr (200, [example_template]), ?s)" by (simp add: example_found_def ret_def)
  have "busy ?api example_template t = (Inr False, t)" for t
    by (simp add: busy_def run_defs head_ready_def example_template_def example_found_def)
  moreover have "\<not> unprovisioned example_template 0" by (simp add: unprovisioned_def example_template_def)
  ultimately have tr: "trace (snd (reap_cluster ?api 1000 example_template ?s)) = [Delete_cluster []]"
    by (subst reap_cluster_exact [OF k k])
       (simp add: example_template_def example_gateway_def IDLE_TIMEOUT_S_def example_found_def)
  have "list_clusters (example_found :: unit api) = ret (200, [example_template])" by (simp add: example_found_def)
  moreover have "dict_get (k_labels example_template) FROM_CRD [] \<noteq> ''RayJob''" by (simp add: example_template_def)
  ultimately have "reap_idle ?api ?s = bindm (logged (reap_cluster ?api 1000 example_template)) (\<lambda>_. ret ()) ?s"
    by (simp add: reap_idle_def do_simps)
  moreover have "snd (logged m t) = snd (m t)" for m :: "(unit, unit) io" and t
    by (auto simp: logged_def catch_def ret_def split: prod.split sum.split)
  ultimately have "trace (snd (reap_idle ?api ?s)) = [Delete_cluster []]"
    using tr by (simp add: then_trace holds_ret)
  then show ?thesis using reap_idle_spares_jobs [OF k k items, of "Delete_cluster []"]
    by (auto simp: example_gateway_def)
qed

theorem odd_jobs_skipped_witness:
  "fst (reap_cluster (example_api\<lparr>head_tasks := \<lambda>_. Pair (HeadSays (Some False)),
     head_jobs := \<lambda>_. Pair (HeadSays (Some [None]))\<rparr>) 1000 example_template example_gateway)
   = Inl (PyError ''AttributeError'')"
proof -
  let ?api = "example_api\<lparr>head_tasks := \<lambda>_. Pair (HeadSays (Some False)),
     head_jobs := \<lambda>_. Pair (HeadSays (Some [None]))\<rparr> :: unit api"
  have k: "keeps f ?api" for f using example_api_keeps [of f] by (simp add: keeps_def holds_def)
  have "\<not> unprovisioned example_template 0" by (simp add: unprovisioned_def example_template_def)
  then show ?thesis using odd_jobs_skipped [OF _ _ _ k k, of example_template example_gateway "[]"] by simp
qed

end
