(* ===== verification/Gateway_Jobs.thy ===== *)
theory Gateway_Jobs
  imports Gateway_Clusters
begin

text \<open>
  Ray jobs at Purdue (\<open>src/apps/ray-train/gateway.py\<close>, with what \<open>src/apps/ray-train/nrp_jobs.py\<close> says of a
  submission): each submission gets a RayJob of its own, which waits for the job; calls about a job reach its
  cluster or its record; the reaper frees the GPUs of ended jobs and removes what nobody submitted to.
\<close>

subsection \<open>Submissions\<close>

text \<open>
  What a submission's JSON object says: its ID as text (empty if it names none), its entrypoint as text, its runtime
  environment (empty if it has none), and the resources its entrypoint asks for, under the Jobs API's names.
\<close>

record submission =
  su_id :: string
  su_entrypoint :: "string option"
  su_env :: "(string, json) dict"
  su_resources :: "(string, json) dict"

definition OWNER_LABEL :: string where "OWNER_LABEL = ''purdue-af/ray-owner''"
definition ENTRYPOINT_ANNOTATION :: string where "ENTRYPOINT_ANNOTATION = ''purdue-af/ray-entrypoint''"
definition STOPPED_ANNOTATION :: string where "STOPPED_ANNOTATION = ''purdue-af/ray-stopped''"
definition LOGS_ANNOTATION :: string where "LOGS_ANNOTATION = ''purdue-af/ray-logs''"
definition STAGE_ANNOTATION :: string where "STAGE_ANNOTATION = ''purdue-af/ray-stage''"
definition SINCE_ANNOTATION :: string where "SINCE_ANNOTATION = ''purdue-af/ray-since''"
definition OUTPUT_ANNOTATION :: string where "OUTPUT_ANNOTATION = ''purdue-af/ray-output''"
definition OUTPUT_FAILED :: string where
  "OUTPUT_FAILED = ''Copying its outputs back failed: they stay on NRP until the job is deleted, and the AF's admins can fetch them.''"
definition STOPPED_UNPROVISIONED :: string where
  "STOPPED_UNPROVISIONED = ''The job was stopped, as not all of its GPUs started in time: ask for fewer workers, or try again later.''"
definition JOB_STARTING :: string where "JOB_STARTING = ''Its Ray cluster is starting.''"
definition JOB_RECORD_S :: time where "JOB_RECORD_S = 604800"

text \<open>\<open>with_env_vars\<close>: variables that are no object raise \<open>TypeError\<close>.\<close>

definition with_env_vars :: "(string, json) dict \<Rightarrow> (string, string) dict \<Rightarrow> gw_error + (string, json) dict" where
  "with_env_vars runtime_env env_vars =
     (let had = dict_get runtime_env ''env_vars'' JNull in
      bind_sum (if \<not> truthy had then Inr [] else (case had of JObj d \<Rightarrow> Inr d | _ \<Rightarrow> Inl (PyError ''TypeError''))) (\<lambda>vars.
      Inr (AList.update ''env_vars'' (JObj (dict_updates vars (map (\<lambda>(k, v). (k, JStr v)) env_vars))) runtime_env)))"

definition entrypoint_of :: "submission \<Rightarrow> string" where
  "entrypoint_of su = take 4096 (case su_entrypoint su of None \<Rightarrow> [] | Some e \<Rightarrow> e)"

definition duplicate_refusal :: "string \<Rightarrow> gw_error" where
  "duplicate_refusal sid = Refused FAILED_PRECONDITION (''You have a job '' @ sid
     @ '' already: submit it under another ID, or without one.'')"

subsection \<open>RayJobs\<close>

definition build_job :: "gw_config \<Rightarrow> user \<Rightarrow> shape \<Rightarrow> (string, nat) dict \<Rightarrow> string \<Rightarrow> rayjob option" where
  "build_job cfg u shape mix name =
     map_option (\<lambda>c. \<lparr>j_name = name, j_uid = [],
         j_labels = AList.update OWNER_LABEL (own cfg u) (k_labels c), j_annotations = k_annotations c,
         j_created = 0, j_deleting = False, j_id = [], j_entrypoint = [], j_env = [], j_resources = [], j_models = None,
         j_suspend = False, j_since = None, j_ttl = 900,
         j_spec = (k_spec c)\<lparr>s_secret := name\<rparr>, j_status = [], j_deployment = [], j_message = [], j_head = [],
         j_started = None, j_ended = None, j_ran = None, j_ran_until = None\<rparr>)
       (build_cluster (cfg_sha cfg) (cfg_flavors cfg) (cluster_template (cfg_template cfg) u) u shape mix)"

definition epoch_ms :: "time option \<Rightarrow> int option" where
  "epoch_ms stamp = map_option (\<lambda>t. trunc (t * 1000)) stamp"

definition job_ended :: "rayjob \<Rightarrow> bool" where
  "job_ended j \<longleftrightarrow> j_status j \<in> {''SUCCEEDED'', ''FAILED'', ''STOPPED''}"

definition owns :: "gw_config \<Rightarrow> user \<Rightarrow> rayjob \<Rightarrow> bool" where
  "owns cfg u j \<longleftrightarrow> map_of (j_labels j) OWNER_LABEL = Some (own cfg u) \<and> spec_owner (j_spec j) = user_owner u"

record job_view =
  jd_id :: string
  jd_status :: string
  jd_entrypoint :: string
  jd_message :: string
  jd_start :: "int option"
  jd_end :: "int option"

definition or_else :: "string \<Rightarrow> string \<Rightarrow> string" where
  "or_else a b = (if a \<noteq> [] then a else b)"

text \<open>The state and message of a job, from its RayJob: those of its stage on NRP come first.\<close>

definition job_state :: "rayjob \<Rightarrow> string \<times> string" where
  "job_state j =
     (let ann = j_annotations j;
          stopped = dict_get ann STOPPED_ANNOTATION [];
          state = (if stopped \<noteq> [] then ''STOPPED'' else or_else (j_status j) ''PENDING'');
          message = or_else stopped (or_else (j_message j) JOB_STARTING);
          stage = map_of ann STAGE_ANNOTATION in
      if stage = Some ''inputs'' then (''PENDING'', ''Copying its inputs to NRP.'')
      else if stage = Some ''outputs''
          \<or> (stage = Some ''running'' \<and> job_ended j \<and> map_of ann OUTPUT_ANNOTATION = Some ''true'')
        then (''RUNNING'', ''The job is '' @ state @ '': copying its outputs back.'')
      else if stage = Some ''done'' \<and> map_of ann OUTPUT_ANNOTATION = Some OUTPUT_FAILED
        then (state, message @ '' '' @ OUTPUT_FAILED)
      else (state, message))"

definition job_details :: "rayjob \<Rightarrow> job_view" where
  "job_details j = \<lparr>jd_id = j_id j, jd_status = fst (job_state j),
     jd_entrypoint = dict_get (j_annotations j) ENTRYPOINT_ANNOTATION [], jd_message = snd (job_state j),
     jd_start = epoch_ms (case j_ran j of None \<Rightarrow> j_started j | t \<Rightarrow> t),
     jd_end = epoch_ms (case j_ran_until j of None \<Rightarrow> j_ended j | t \<Rightarrow> t)\<rparr>"

subsection \<open>Reading and removing RayJobs\<close>

definition find_job :: "'w api \<Rightarrow> string \<Rightarrow> ('w, rayjob option) io" where
  "find_job api name = bindm (get_job api name) (\<lambda>(status, j).
     if status = 404 then ret None
     else if status \<noteq> 200 then raise (Refused UNAVAILABLE
       (''Kubernetes answered HTTP '' @ show_nat status @ '' for the Ray job.''))
     else ret (Some j))"

definition jobs :: "gw_config \<Rightarrow> 'w api \<Rightarrow> user \<Rightarrow> ('w, rayjob list) io" where
  "jobs cfg api u = bindm (list_jobs api OWNER_LABEL (own cfg u)) (\<lambda>(status, items).
     if status \<noteq> 200 then raise (Refused UNAVAILABLE
       (''Kubernetes answered HTTP '' @ show_nat status @ '' for your Ray jobs.''))
     else let js = filter (\<lambda>j. owns cfg u j \<and> j_id j \<noteq> []) items in
       bindm (emit (Saw_jobs js)) (\<lambda>_. ret js))"

definition job :: "gw_config \<Rightarrow> 'w api \<Rightarrow> user \<Rightarrow> string \<Rightarrow> ('w, (rayjob \<times> string option) option) io" where
  "job cfg api u sid = bindm (jobs cfg api u) (\<lambda>js. case find (\<lambda>j. j_id j = sid) js of
     None \<Rightarrow> ret None
   | Some j \<Rightarrow>
     if j_head j = [] then ret (Some (j, None))
     else bindm (find_cluster api (j_head j)) (\<lambda>c.
       ret (Some (j, if live c then Some (j_head j) else None))))"

definition delete_rayjob :: "'w api \<Rightarrow> string \<Rightarrow> ('w, nat) io" where
  "delete_rayjob api name = bindm (emit (Delete_job name)) (\<lambda>_. delete_job api name)"

definition delete_record :: "'w api \<Rightarrow> string \<Rightarrow> ('w, unit) io" where
  "delete_record api name = bindm (delete_rayjob api name) (\<lambda>status.
     if status \<notin> {200, 202, 404} then raise (Refused UNAVAILABLE
       (''Kubernetes answered HTTP '' @ show_nat status @ '' deleting the Ray job.''))
     else ret ())"

datatype job_answer = Details job_view | Deleted | Stopped bool | Logs string | Listed "job_view list"
  | Followed "string option"

definition recorded :: "'w api \<Rightarrow> rayjob \<Rightarrow> string \<Rightarrow> string \<Rightarrow> ('w, job_answer) io" where
  "recorded api j http_method rest =
     (let ended = job_ended j in
      if http_method = ''GET'' \<and> rest = [] then ret (Details (job_details j))
      else if http_method = ''DELETE'' \<and> rest = [] then
        (if \<not> ended then raise (Refused INVALID_ARGUMENT ''The job has not ended: stop it first'')
         else bindm (delete_record api (j_name j)) (\<lambda>_. ret Deleted))
      else if http_method = ''POST'' \<and> rest = ''/stop'' then
        bindm (whenm (\<not> ended) (delete_record api (j_name j))) (\<lambda>_. ret (Stopped (\<not> ended)))
      else raise (Refused NOT_FOUND (if ended
        then ''The job's Ray cluster was removed 15 minutes after the job ended, and its logs with it''
        else ''The job's Ray cluster is starting: ask again in a minute'')))"

definition kept_logs :: "'w api \<Rightarrow> string \<Rightarrow> ('w, job_answer) io" where
  "kept_logs api configmap = bindm (get_configmap api configmap) (\<lambda>(status, logs).
     if status \<noteq> 200 then raise (Refused UNAVAILABLE
       (''The job's logs could not be read: Kubernetes answered HTTP '' @ show_nat status))
     else ret (Logs logs))"

subsection \<open>The user's jobs on NRP\<close>

definition owner_key :: "(string \<Rightarrow> string) \<Rightarrow> string \<Rightarrow> string \<Rightarrow> string" where
  "owner_key sha cluster owner = take 32 (sha (owner @ ''/'' @ cluster))"

definition nrp_listing :: "'w api \<Rightarrow> string \<Rightarrow> string \<Rightarrow> ('w, rayjob list) io" where
  "nrp_listing api label text = bindm (nrp_list api label text) (\<lambda>(status, items).
     if status \<noteq> 200 then raise (Refused UNAVAILABLE
       (''NRP answered HTTP '' @ show_nat status @ '' for the Ray jobs.''))
     else bindm (emit (Saw_nrp_jobs items)) (\<lambda>_. ret items))"

definition nrp_jobs :: "gw_config \<Rightarrow> 'w api \<Rightarrow> user \<Rightarrow> ('w, rayjob list) io" where
  "nrp_jobs cfg api u =
     (if \<not> cfg_nrp_enabled cfg then ret []
      else catch (nrp_listing api OWNER_LABEL (owner_key (cfg_sha cfg) (own cfg u) (user_owner u)))
        (\<lambda>e. case e of Refused code text \<Rightarrow> ret [] | ClientError \<Rightarrow> ret [] | PyError p \<Rightarrow> raise e | Diverged \<Rightarrow> raise e))"

definition nrp_job :: "gw_config \<Rightarrow> 'w api \<Rightarrow> user \<Rightarrow> string \<Rightarrow> ('w, rayjob option) io" where
  "nrp_job cfg api u sid = bindm (nrp_jobs cfg api u) (\<lambda>js. ret (find (\<lambda>j. j_id j = sid) js))"

definition submitted_before :: "gw_config \<Rightarrow> 'w api \<Rightarrow> user \<Rightarrow> string \<Rightarrow> ('w, bool) io" where
  "submitted_before cfg api u sid = bindm (jobs cfg api u) (\<lambda>js.
     if list_ex (\<lambda>j. j_id j = sid) js then ret True
     else bindm (nrp_job cfg api u sid) (\<lambda>j. ret (j \<noteq> None)))"

subsection \<open>Submitting\<close>

text \<open>A RayJob that waits for its job, once its head answers; one whose head does not come up is removed.\<close>

definition start_job :: "nat \<Rightarrow> gw_config \<Rightarrow> 'w api \<Rightarrow> user \<Rightarrow> shape \<Rightarrow> ('w, waiting_job) io" where
  "start_job fuel cfg api u shape =
     bindm (asks (new_id api)) (\<lambda>key. let name = job_name (cfg_sha cfg) u key in
     bindm (admit (cfg_flavors cfg) api shape [] name) (\<lambda>mix.
     bindm (of_sum (value_or_raise (build_job cfg u shape mix name))) (\<lambda>j.
     bindm (emit (Post_job j)) (\<lambda>_.
     bindm (post_job api j) (\<lambda>(said, created).
     if fst said \<noteq> 201 then
       bindm (modify (\<lambda>s. s\<lparr>grants := AList.delete name (grants s)\<rparr>)) (\<lambda>_.
       raise (Refused UNAVAILABLE (''Could not create your Ray job: '' @ message_of said)))
     else
     bindm (catch
       (bindm (head_up fuel cfg api (token_secret name ''RayJob'' (j_uid created) (token_for cfg name))
           (bindm (find_job api name) (\<lambda>j. ret (case j of None \<Rightarrow> [] | Some j \<Rightarrow> j_head j))) name ''Ray job'') (\<lambda>head.
        bindm (head_status cfg api head False head) (\<lambda>status.
        if status = Some 200 then raise (Refused INVALID_ARGUMENT OPEN_HEAD) else ret head)))
       (\<lambda>e. case e of
          Refused code text \<Rightarrow> bindm (delete_rayjob api name) (\<lambda>_. raise e)
        | ClientError \<Rightarrow> raise e | PyError p \<Rightarrow> raise e | Diverged \<Rightarrow> raise e)) (\<lambda>head.
     bindm (now_m api) (\<lambda>now.
     ret \<lparr>wt_name = name, wt_head = head, wt_shape = shape, wt_since = now\<rparr>)))))))"

definition upper_char :: "char \<Rightarrow> char" where
  "upper_char c = (if CHR ''a'' \<le> c \<and> c \<le> CHR ''z'' then char_of (of_char c - (32::nat)) else c)"

definition af_variable :: "string \<Rightarrow> string" where
  "af_variable key = ''AF_'' @ map upper_char key"

text \<open>The job that waits for a submission of the user, if it is of this shape and still fresh; it waits no more.\<close>

definition take_waiting :: "gw_config \<Rightarrow> 'w api \<Rightarrow> user \<Rightarrow> shape \<Rightarrow> ('w, waiting_job option) io" where
  "take_waiting cfg api u shape =
     bindm (gets (\<lambda>s. map_of (waiting s) (own cfg u))) (\<lambda>w.
     bindm (modify (\<lambda>s. s\<lparr>waiting := AList.delete (own cfg u) (waiting s)\<rparr>)) (\<lambda>_.
     case w of
       None \<Rightarrow> ret None
     | Some w \<Rightarrow> if wt_shape w \<noteq> shape then ret None
         else bindm (now_m api) (\<lambda>now. ret (if now - wt_since w > START_TIMEOUT_S then None else Some w))))"

text \<open>Giving the waiting RayJob its job; a RayJob that does not take it is removed.\<close>

definition assign_job :: "'w api \<Rightarrow> waiting_job \<Rightarrow> submission \<Rightarrow> ('w, unit) io" where
  "assign_job api w su =
     bindm (emit (Set_job_id (wt_name w) (entrypoint_of su) (su_id su))) (\<lambda>_.
     bindm (set_job_id api (wt_name w) (entrypoint_of su) (su_id su)) (\<lambda>said.
     if fst said \<noteq> 200 then bindm (delete_rayjob api (wt_name w)) (\<lambda>_.
       raise (Refused UNAVAILABLE (''Could not start your Ray job: '' @ message_of said)))
     else ret ()))"

text \<open>
  \<open>Gateway.submission\<close>: \<open>body\<close> is the JSON object of a submission, \<open>None\<close> within if it is none, and \<open>None\<close>
  itself for an upload. It returns the head, the job whose token it takes and what to send on.
\<close>

definition submission_of :: "nat \<Rightarrow> gw_config \<Rightarrow> 'w api \<Rightarrow> user \<Rightarrow> shape \<Rightarrow> (string, string) dict \<Rightarrow> submission option option
    \<Rightarrow> ('w, string \<times> string \<times> submission option) io" where
  "submission_of fuel cfg api u shape headers body =
     (if session_gpu u then raise (session_gpu_refusal ''Ray jobs'')
      else
      bindm (of_sum (value_or_raise (env_roots (cluster_template (cfg_template cfg) u)))) (\<lambda>roots.
      bindm (of_sum (mounted_env (sh_env shape) roots)) (\<lambda>_.
      bindm (case body of
          None \<Rightarrow> ret None
        | Some None \<Rightarrow> raise (Refused INVALID_ARGUMENT ''A job submission is a JSON object.'')
        | Some (Some su) \<Rightarrow>
            bindm (if su_id su \<noteq> [] then ret (su_id su) else asks (new_id api)) (\<lambda>asked.
            bindm (submitted_before cfg api u asked) (\<lambda>before.
            if before then raise (duplicate_refusal asked) else ret (Some (su\<lparr>su_id := asked\<rparr>))))) (\<lambda>submitted.
      bindm (of_sum (data_paths roots headers)) (\<lambda>data.
      bindm (take_waiting cfg api u shape) (\<lambda>found.
      bindm (case found of Some w \<Rightarrow> ret w | None \<Rightarrow> start_job fuel cfg api u shape) (\<lambda>w.
      case submitted of
        None \<Rightarrow> bindm (modify (\<lambda>s. s\<lparr>waiting := AList.update (own cfg u) w (waiting s)\<rparr>)) (\<lambda>_.
          ret (wt_head w, wt_name w, None))
      | Some su \<Rightarrow>
          bindm (of_sum (if data = [] then Inr (su_env su)
            else with_env_vars (su_env su) (map (\<lambda>(k, p). (af_variable k, p)) data))) (\<lambda>env.
          let su' = su\<lparr>su_env := env\<rparr> in
          bindm (assign_job api w su') (\<lambda>_. ret (wt_head w, wt_name w, Some su'))))))))))"

subsection \<open>Keeping logs\<close>

definition LOG_BYTES :: nat where "LOG_BYTES = 921600"

definition py_last :: "nat \<Rightarrow> 'a list \<Rightarrow> 'a list" where
  "py_last n xs = drop (length xs - n) xs"

text \<open>The buffer that follows a log: cut to its last \<open>limit\<close> bytes whenever it grows past twice as many.\<close>

fun follow_log :: "nat \<Rightarrow> string \<Rightarrow> string list \<Rightarrow> string" where
  "follow_log limit kept [] = kept"
| "follow_log limit kept (m # ms) =
     (let grown = kept @ m in
      follow_log limit (if length grown > 2 * limit then py_last limit grown else grown) ms)"

definition kept_text :: "nat \<Rightarrow> string \<Rightarrow> string" where
  "kept_text limit kept =
     (let logs = py_last limit kept in
      if length kept > limit then
        ''[the first lines are cut: only the last '' @ show_nat (limit div 1024) @ '' KiB are kept]'' @ [char_of (10 :: nat)]
        @ snd (partition_at (char_of (10 :: nat)) logs)
      else logs)"

definition keep_logs :: "gw_config \<Rightarrow> 'w api \<Rightarrow> rayjob \<Rightarrow> string \<Rightarrow> ('w, unit) io" where
  "keep_logs cfg api j head =
     (if map_of (j_annotations j) LOGS_ANNOTATION \<noteq> None then ret ()
      else
      bindm (catch (bindm (head_logs api head (token_for cfg (j_name j)) (j_id j)) (\<lambda>ms. ret (Some ms)))
        (\<lambda>e. case e of ClientError \<Rightarrow> ret None | Refused c t \<Rightarrow> raise e | PyError p \<Rightarrow> raise e | Diverged \<Rightarrow> raise e)) (\<lambda>got.
      case got of
        None \<Rightarrow> ret ()
      | Some ms \<Rightarrow>
          bindm (of_sum (case map_of (j_labels j) OWNER_LABEL of None \<Rightarrow> Inl (PyError ''KeyError'') | Some l \<Rightarrow> Inr l)) (\<lambda>owner.
          bindm (emit (Keep_logs (j_name j) (j_name j @ ''-logs''))) (\<lambda>_.
          bindm (post_logs api (j_name j @ ''-logs'') owner (j_uid j) (kept_text LOG_BYTES (follow_log LOG_BYTES [] ms))) (\<lambda>status.
          if status \<notin> {201, 409} then ret ()
          else
          bindm (emit (Annotate_job (j_name j) LOGS_ANNOTATION (j_name j @ ''-logs''))) (\<lambda>_.
          bindm (annotate_job api (j_name j) LOGS_ANNOTATION (j_name j @ ''-logs'')) (\<lambda>_. ret ())))))))"

subsection \<open>Reaping jobs\<close>

definition to_suspend :: "worker_group list \<Rightarrow> nat list" where
  "to_suspend groups = map fst (filter (\<lambda>(i, g). \<not> g_suspend g) (enumerate 0 groups))"

definition free_workers :: "gw_config \<Rightarrow> 'w api \<Rightarrow> rayjob \<Rightarrow> string \<Rightarrow> ('w, unit) io" where
  "free_workers cfg api j head =
     (if head = [] then ret ()
      else bindm (find_cluster api head) (\<lambda>found. case found of
        None \<Rightarrow> ret ()
      | Some c \<Rightarrow>
        if \<not> live found then ret ()
        else
        bindm (keep_logs cfg api j head) (\<lambda>_.
        let suspend = to_suspend (s_groups (k_spec c)) in
        if suspend = [] then ret ()
        else
        bindm (emit (Suspend_groups head suspend)) (\<lambda>_.
        bindm (patch_groups api head suspend) (\<lambda>_. ret ())))))"

definition head_job_status :: "gw_config \<Rightarrow> 'w api \<Rightarrow> string \<Rightarrow> string \<Rightarrow> string \<Rightarrow> ('w, string option) io" where
  "head_job_status cfg api head keyed sid =
     bindm (asks (head_job api head (token_for cfg keyed) sid)) (\<lambda>r. ret (case r of
       HeadStatus n \<Rightarrow> if n = 404 then Some [] else None
     | HeadSays status \<Rightarrow> Some status
     | HeadOdd \<Rightarrow> None))"

definition follow_on_head :: "gw_config \<Rightarrow> 'w api \<Rightarrow> rayjob \<Rightarrow> time \<Rightarrow> ('w, unit) io" where
  "follow_on_head cfg api j now =
     bindm (if j_head j = [] then ret None else find_cluster api (j_head j)) (\<lambda>found.
     if j_head j = [] \<or> \<not> live found then
       (if now - j_created j \<ge> JOB_RECORD_S then bindm (delete_rayjob api (j_name j)) (\<lambda>_. ret ()) else ret ())
     else
     bindm (head_job_status cfg api (j_head j) (j_name j) (j_id j)) (\<lambda>state.
     if state \<in> {Some ''SUCCEEDED'', Some ''FAILED'', Some ''STOPPED''} then free_workers cfg api j (j_head j)
     else if state = Some [] \<and> now - j_created j \<ge> 2 * START_TIMEOUT_S
       then bindm (delete_rayjob api (j_name j)) (\<lambda>_. ret ())
     else ret ()))"

definition stop_unprovisioned :: "gw_config \<Rightarrow> 'w api \<Rightarrow> rayjob \<Rightarrow> string \<Rightarrow> ('w, unit) io" where
  "stop_unprovisioned cfg api j head =
     bindm (emit (Stop_on_head head (token_for cfg (j_name j)) (j_id j))) (\<lambda>_.
     bindm (asks (\<lambda>s. ((), head_stop api head (token_for cfg (j_name j)) (j_id j) s))) (\<lambda>_.
     bindm (emit (Annotate_job (j_name j) STOPPED_ANNOTATION STOPPED_UNPROVISIONED)) (\<lambda>_.
     bindm (annotate_job api (j_name j) STOPPED_ANNOTATION STOPPED_UNPROVISIONED) (\<lambda>_.
     bindm (keep_logs cfg api j head) (\<lambda>_.
     delete api head REMOVED_IDLE)))))"

text \<open>One RayJob of the listing, at \<open>now\<close>; \<open>waited\<close> are the RayJobs a submission may still come to.\<close>

definition reap_job :: "gw_config \<Rightarrow> 'w api \<Rightarrow> time \<Rightarrow> string set \<Rightarrow> rayjob \<Rightarrow> ('w, unit) io" where
  "reap_job cfg api now waited j =
     (if j_deleting j then ret ()
      else if j_id j = [] then
        (if j_name j \<notin> waited \<and> now - j_created j \<ge> 2 * START_TIMEOUT_S
         then bindm (delete_rayjob api (j_name j)) (\<lambda>_. ret ()) else ret ())
      else if j_status j = [] then follow_on_head cfg api j now
      else if job_ended j then
        bindm (free_workers cfg api j (j_head j)) (\<lambda>_.
        case epoch_ms (j_ended j) of
          None \<Rightarrow> ret ()
        | Some ended \<Rightarrow> if now - of_int ended / 1000 \<ge> JOB_RECORD_S
            then bindm (delete_rayjob api (j_name j)) (\<lambda>_. ret ()) else ret ())
      else if j_head j \<noteq> [] then
        bindm (find_cluster api (j_head j)) (\<lambda>found. case found of
          Some c \<Rightarrow> if unprovisioned c now then stop_unprovisioned cfg api j (j_head j) else ret ()
        | None \<Rightarrow> ret ())
      else ret ())"

definition reap_jobs :: "gw_config \<Rightarrow> 'w api \<Rightarrow> ('w, unit) io" where
  "reap_jobs cfg api = bindm (list_jobs api managed_by_label MANAGED_BY) (\<lambda>(status, items).
     if status \<noteq> 200 then ret ()
     else
     bindm (now_w api) (\<lambda>now.
     bindm (now_m api) (\<lambda>clock.
     bindm (gets (\<lambda>s. wt_name ` set (filter (\<lambda>w. wt_since w > clock - START_TIMEOUT_S) (map snd (waiting s))))) (\<lambda>waited.
     each (\<lambda>j. logged (reap_job cfg api now waited j)) items))))"

subsection \<open>The log that is kept\<close>

lemma py_last_append: "py_last n (py_last n xs @ ys) = py_last n (xs @ ys)"
  by (cases "length xs \<le> n") (simp_all add: py_last_def add.commute)

lemma length_py_last [simp]: "length (py_last n xs) = min n (length xs)"
  by (simp add: py_last_def)

lemma py_last_short: "length xs \<le> n \<Longrightarrow> py_last n xs = xs"
  by (simp add: py_last_def)

lemma py_last_concat: "py_last n (follow_log n kept ms) = py_last n (kept @ concat ms)"
proof (induction ms arbitrary: kept)
  case (Cons m ms)
  have "py_last n (py_last n (kept @ m) @ concat ms) = py_last n (kept @ m @ concat ms)"
    using py_last_append [of n "kept @ m" "concat ms"] by simp
  then show ?case using Cons by (simp add: Let_def)
qed simp

lemma length_follow_log: "length kept \<le> 2 * n \<Longrightarrow> length (follow_log n kept ms) \<le> 2 * n"
  by (induction ms arbitrary: kept) (auto simp: Let_def py_last_def)

lemma follow_log_le: "length (follow_log n kept ms) \<le> length (kept @ concat ms)"
proof (induction ms arbitrary: kept)
  case (Cons m ms)
  have "length (py_last n (kept @ m)) \<le> length (kept @ m)" by (simp add: py_last_def)
  with Cons [of "py_last n (kept @ m)"] Cons [of "kept @ m"] show ?case by (auto simp: Let_def)
qed simp

text \<open>
  The log the gateway keeps of an ended job is its end. Whatever the messages it comes in, the buffer
  never holds more than twice \<open>limit\<close> between messages, and its last \<open>limit\<close> bytes are the last \<open>limit\<close> bytes of the
  whole log; a log of at most \<open>limit\<close> bytes is kept as it is.
\<close>

theorem follow_log_end:
  "length (follow_log limit [] ms) \<le> 2 * limit
   \<and> py_last limit (follow_log limit [] ms) = py_last limit (concat ms)
   \<and> (length (concat ms) \<le> limit \<longrightarrow> kept_text limit (follow_log limit [] ms) = concat ms)"
proof -
  have "kept_text limit (follow_log limit [] ms) = concat ms" if "length (concat ms) \<le> limit"
    using that py_last_concat [of limit "[]" ms] follow_log_le [of limit "[]" ms]
    by (simp add: kept_text_def Let_def) (simp add: py_last_def)
  then show ?thesis using py_last_concat [of limit "[]" ms] length_follow_log [of "[]" limit ms] by simp
qed

theorem follow_log_end_witness:
  "kept_text 3 (follow_log 3 [] [''ab'', ''c'']) = ''abc'' \<and> py_last 3 (follow_log 3 [] [''abcd'', ''efgh'']) = ''fgh''"
  using follow_log_end [of 3 "[''ab'', ''c'']"] follow_log_end [of 3 "[''abcd'', ''efgh'']"]
  by (simp add: py_last_def)

text \<open>
  A log that is cut is not always said to be. The text of a cut log means to begin with a notice and a whole
  line, which the gateway decides by the length of its buffer; but if the last message takes the buffer past
  twice the limit, the buffer is cut to exactly the limit and the text has neither: it is the last bytes of
  the log, from the middle of a line on, as if it were all of it.
\<close>

theorem cut_log_unnoticed:
  assumes "length kept \<le> 2 * limit" "length (kept @ m) > 2 * limit"
  shows "kept_text limit (follow_log limit kept [m]) = py_last limit (kept @ m)"
proof -
  have f: "follow_log limit kept [m] = py_last limit (kept @ m)" using assms(2) by (simp add: Let_def)
  have "length (py_last limit (kept @ m)) \<le> limit" by simp
  then show ?thesis unfolding kept_text_def f Let_def by (simp add: py_last_short del: length_py_last)
qed

theorem cut_log_unnoticed_witness:
  "kept_text 3 (follow_log 3 [] [''one-two'']) = ''two''"
  using cut_log_unnoticed [of "[]" 3 "''one-two''"] by (simp add: py_last_def)

subsection \<open>What the reaper does to a job\<close>

text \<open>When the reaper may remove a RayJob, and when it may take the workers of one.\<close>

definition removable :: "time \<Rightarrow> string set \<Rightarrow> rayjob \<Rightarrow> bool" where
  "removable now waited j \<longleftrightarrow> \<not> j_deleting j
     \<and> (if j_id j = [] then j_name j \<notin> waited \<and> now - j_created j \<ge> 2 * START_TIMEOUT_S
        else if j_status j = [] then now - j_created j \<ge> 2 * START_TIMEOUT_S
        else job_ended j \<and> (\<exists>t. j_ended j = Some t \<and> now - of_int (trunc (t * 1000)) / 1000 \<ge> JOB_RECORD_S))"

definition reaps :: "time \<Rightarrow> string set \<Rightarrow> rayjob \<Rightarrow> event \<Rightarrow> bool" where
  "reaps now waited j e \<longleftrightarrow> (case e of
     Delete_job n \<Rightarrow> n = j_name j \<and> removable now waited j
   | Suspend_groups n gs \<Rightarrow> n = j_head j \<and> j_id j \<noteq> [] \<and> (job_ended j \<or> j_status j = [])
   | Delete_cluster n \<Rightarrow> n = j_head j \<and> j_id j \<noteq> [] \<and> j_status j \<noteq> [] \<and> \<not> job_ended j
   | Annotate_job n k v \<Rightarrow> n = j_name j
   | Keep_logs n m \<Rightarrow> n = j_name j
   | Stop_on_head h t i \<Rightarrow> h = j_head j \<and> i = j_id j \<and> \<not> job_ended j
   | Saw_cluster n c \<Rightarrow> n = j_head j
   | _ \<Rightarrow> False)"

definition reaped :: "time \<Rightarrow> string set \<Rightarrow> rayjob \<Rightarrow> event list \<Rightarrow> 'w gateway \<Rightarrow> bool" where
  "reaped now waited j tr t \<longleftrightarrow> (\<exists>es. trace t = es @ tr \<and> list_all (reaps now waited j) es)"

lemma reaped_cons: "reaps now waited j e \<Longrightarrow> reaped now waited j tr s \<Longrightarrow> reaped now waited j tr (s\<lparr>trace := e # trace s\<rparr>)"
  unfolding reaped_def by (auto intro: exI [of _ "e # _"])

lemma reaped_emit: "reaps now waited j e \<Longrightarrow> preserves (reaped now waited j tr) (emit e)"
  unfolding preserves_def emit_def modify_def reaped_def by (auto intro: exI [of _ "e # _"])

lemma reaped_holds: "holds trace m \<Longrightarrow> preserves (reaped now waited j tr) m"
  by (erule preserves_holds) (simp add: reaped_def)

lemma find_cluster_reaped: "keeps trace api \<Longrightarrow> preserves (reaped now waited j tr) (find_cluster api (j_head j))"
  unfolding find_cluster_def
  by (intro pres_intros reaped_emit reaped_holds [of "get_cluster _ _"] holds_intros) (simp_all add: reaps_def)

lemma keep_logs_reaped: "keeps trace api \<Longrightarrow> preserves (reaped now waited j tr) (keep_logs cfg api j head)"
  unfolding keep_logs_def
  by (intro pres_intros reaped_emit reaped_holds [of "head_logs _ _ _ _"] reaped_holds [of "post_logs _ _ _ _ _"]
      reaped_holds [of "annotate_job _ _ _ _"] holds_intros) (simp_all add: reaps_def)

lemma free_workers_reaped:
  assumes "keeps trace api" "j_id j \<noteq> []" "job_ended j \<or> j_status j = []"
  shows "preserves (reaped now waited j tr) (free_workers cfg api j (j_head j))"
  unfolding free_workers_def Let_def
  by (intro pres_intros find_cluster_reaped keep_logs_reaped reaped_emit reaped_holds [of "patch_groups _ _ _"] holds_intros assms(1))
     (use assms in \<open>simp_all add: reaps_def\<close>)

lemma delete_rayjob_reaped:
  assumes "keeps trace api" "removable now waited j"
  shows "preserves (reaped now waited j tr) (delete_rayjob api (j_name j))"
  unfolding delete_rayjob_def
  by (intro pres_intros reaped_emit reaped_holds [of "delete_job _ _"] holds_intros assms(1)) (use assms(2) in \<open>simp add: reaps_def\<close>)

lemma delete_reaped:
  assumes "keeps trace api" "j_id j \<noteq> []" "j_status j \<noteq> []" "\<not> job_ended j"
  shows "preserves (reaped now waited j tr) (delete api (j_head j) why)"
  unfolding delete_def
  by (intro pres_intros reaped_emit reaped_holds [of "delete_cluster _ _"] reaped_holds [of "now_m _"] holds_intros assms(1))
     (use assms in \<open>simp_all add: reaps_def reaped_def\<close>)

text \<open>
  The reaper takes from a job only what it may. Looking at one RayJob it removes no other, and this one only if
  nobody submitted a job to it in time and nobody may still do so, if no head followed its job in time,
  or if its job ended \<open>JOB_RECORD_S\<close> ago or longer; it suspends only workers of this job's cluster, of a job that
  ended or that KubeRay does not follow; and it removes only this job's cluster, of a job that runs. A job whose
  removal is under way is left alone. All this holds whatever Kubernetes and the head answer.
\<close>

theorem reap_job_only:
  assumes api: "keeps trace api" and run: "reap_job cfg api now waited j s = (r, t)"
  shows "\<exists>es. trace t = es @ trace s \<and> list_all (reaps now waited j) es"
proof -
  have rec: "2 * START_TIMEOUT_S \<le> JOB_RECORD_S" by (simp add: START_TIMEOUT_S_def JOB_RECORD_S_def)
  have "preserves (reaped now waited j (trace s)) (reap_job cfg api now waited j)"
    unfolding reap_job_def follow_on_head_def head_job_status_def stop_unprovisioned_def epoch_ms_def
    apply (intro pres_intros free_workers_reaped find_cluster_reaped keep_logs_reaped delete_rayjob_reaped delete_reaped
        reaped_cons reaped_holds [of "annotate_job _ _ _ _"] reaped_holds [of "head_job _ _ _ _"]
        reaped_holds [OF keeps_calls(23) [OF api]] holds_intros api)
    using rec by (auto simp: reaps_def removable_def)
  from preservesD [OF this, of s] run show ?thesis by (auto simp: reaped_def intro: exI [of _ "[]"])
qed

theorem reap_job_only_witness:
  "\<exists>es. trace (snd (reap_job example_config example_api 2000 {} (example_job\<lparr>j_id := []\<rparr>) example_gateway)) = es
     \<and> Delete_job ''ray-job-1'' \<in> set es \<and> list_all (reaps 2000 {} (example_job\<lparr>j_id := []\<rparr>)) es"
proof -
  let ?j = "example_job\<lparr>j_id := []\<rparr>"
  obtain r t where run: "reap_job example_config example_api 2000 {} ?j example_gateway = (r, t)" by fastforce
  then have "trace t = [Delete_job ''ray-job-1'']"
    by (auto simp: reap_job_def delete_rayjob_def example_job_def example_gateway_def START_TIMEOUT_S_def run_defs)
  then show ?thesis using reap_job_only [OF example_api_keeps run] run by (auto simp: example_gateway_def)
qed

end
