(* ===== verification/NRP_Jobs.thy ===== *)
theory NRP_Jobs
  imports Gateway_Jobs
begin

text \<open>
  What a job on NRP is made of: its RayJob (\<open>src/apps/ray-train/nrp_jobs.py\<close>), the Jobs at Purdue that copy its data,
  and the metrics of what its pods hold (\<open>src/apps/ray-train/gateway.py\<close>, \<open>stage_job\<close> and \<open>nrp_usage\<close> to
  \<open>nrp_usage_lines\<close>).
\<close>

subsection \<open>Where its code and data are\<close>

definition JOBS_PREFIX :: string where "JOBS_PREFIX = ''ray-nrp/jobs''"
definition PACKAGE_SCHEME :: string where "PACKAGE_SCHEME = ''gcs://''"

definition code_prefix :: "string \<Rightarrow> string" where
  "code_prefix rj = JOBS_PREFIX @ ''/'' @ rj"

definition data_uri :: "string \<Rightarrow> string \<Rightarrow> string \<Rightarrow> string" where
  "data_uri bucket rj part = ''s3://'' @ bucket @ ''/'' @ code_prefix rj @ ''/'' @ part"

fun moved :: "string \<Rightarrow> string \<Rightarrow> json \<Rightarrow> json" where
  "moved bucket rj (JStr uri) =
     (if prefix PACKAGE_SCHEME uri
      then JStr (''s3://'' @ bucket @ ''/'' @ code_prefix rj @ ''/'' @ removeprefix PACKAGE_SCHEME uri)
      else JStr uri)"
| "moved bucket rj uri = uri"

definition to_s3 :: "(string, json) dict \<Rightarrow> string \<Rightarrow> string \<Rightarrow> (string, json) dict" where
  "to_s3 runtime_env bucket rj =
     (let out = (case map_of runtime_env ''working_dir'' of
            None \<Rightarrow> runtime_env
          | Some d \<Rightarrow> AList.update ''working_dir'' (moved bucket rj d) runtime_env) in
      case map_of out ''py_modules'' of
        Some (JList ms) \<Rightarrow> AList.update ''py_modules'' (JList (map (moved bucket rj) ms)) out
      | _ \<Rightarrow> out)"

subsection \<open>Its RayJob\<close>

definition ENTRYPOINT_RESOURCES :: "(string, string) dict" where
  "ENTRYPOINT_RESOURCES =
     [(''entrypoint_num_cpus'', ''entrypointNumCpus''), (''entrypoint_num_gpus'', ''entrypointNumGpus'')]"

text \<open>The resources of the entrypoint, under KubeRay's names; those of \<open>entrypoint_resources\<close> travel as JSON text.\<close>

definition asked_resources :: "(string, json) dict \<Rightarrow> (string, json) dict" where
  "asked_resources asked =
     concat (map (\<lambda>(name, field). case map_of asked name of
         None \<Rightarrow> [] | Some JNull \<Rightarrow> [] | Some v \<Rightarrow> [(field, v)]) ENTRYPOINT_RESOURCES)
     @ (if truthy (dict_get asked ''entrypoint_resources'' JNull)
        then [(''entrypointResources'', dict_get asked ''entrypoint_resources'' JNull)] else [])"

definition sized_env :: "nat \<Rightarrow> container \<Rightarrow> container" where
  "sized_env workers c = c\<lparr>c_env := filter (\<lambda>(n, _). n \<noteq> MOST_VARIABLE) (c_env c) @ [(MOST_VARIABLE, show_nat workers)]\<rparr>"

definition sized_pod :: "nat \<Rightarrow> pod_template \<Rightarrow> pod_template" where
  "sized_pod workers p = p\<lparr>p_containers := map (sized_env workers) (p_containers p)\<rparr>"

text \<open>The template has one worker group, or \<open>(group,) =\<close> raises \<open>ValueError\<close>.\<close>

definition sized_spec :: "nat \<Rightarrow> cluster_spec \<Rightarrow> gw_error + cluster_spec" where
  "sized_spec workers spec = (case s_groups spec of
     [g] \<Rightarrow> Inr (spec\<lparr>s_head := sized_pod workers (s_head spec),
         s_groups := [g\<lparr>g_replicas := workers, g_min := workers, g_max := workers,
           g_template := sized_pod workers (g_template g)\<rparr>]\<rparr>)
   | _ \<Rightarrow> Inl (PyError ''ValueError''))"

definition nrp_build_job :: "rayjob \<Rightarrow> string \<Rightarrow> string \<Rightarrow> submission \<Rightarrow> string \<Rightarrow> nat \<Rightarrow> string list option \<Rightarrow> int
    \<Rightarrow> (string, string) dict \<Rightarrow> gw_error + rayjob" where
  "nrp_build_job template name owner su bucket workers models ttl data =
     bind_sum (case su_entrypoint su of None \<Rightarrow> Inl (PyError ''KeyError'') | Some e \<Rightarrow> Inr e) (\<lambda>entrypoint.
     bind_sum (if data = [] then Inr (su_env su) else with_env_vars (su_env su) data) (\<lambda>env.
     bind_sum (sized_spec workers (j_spec template)) (\<lambda>spec.
     Inr (template\<lparr>j_name := name, j_labels := AList.update OWNER_LABEL owner (j_labels template),
       j_annotations := [(ENTRYPOINT_ANNOTATION, entrypoint_of su)],
       j_suspend := (map_of data ''AF_INPUTS'' \<noteq> None), j_id := su_id su, j_entrypoint := entrypoint, j_ttl := ttl,
       j_env := (if env = [] then j_env template else to_s3 env bucket name),
       j_resources := dict_updates (j_resources template) (asked_resources (su_resources su)),
       j_models := (case models of None \<Rightarrow> j_models template | Some ms \<Rightarrow> Some (sort (map product_of ms))),
       j_spec := spec\<rparr>))))"

definition workers_of :: "rayjob \<Rightarrow> gw_error + nat" where
  "workers_of j = (case s_groups (j_spec j) of [g] \<Rightarrow> Inr (g_replicas g) | _ \<Rightarrow> Inl (PyError ''ValueError''))"

subsection \<open>The Jobs that copy its data\<close>

definition stage_job_of :: "(string \<Rightarrow> string) \<Rightarrow> cluster \<Rightarrow> user \<Rightarrow> string \<Rightarrow> string \<Rightarrow> string \<Rightarrow> string
    \<Rightarrow> gw_error + stage_job" where
  "stage_job_of sha template u name direction source target =
     (let pod = s_head (k_spec template) in
      case p_containers pod of
        [head] \<Rightarrow> Inr \<lparr>st_name = name @ ''-'' @ direction,
          st_labels = [(managed_by_label, MANAGED_BY), (OWNER_LABEL, user_cluster sha u)],
          st_run_as = (user_uid u, user_gid u),
          st_command = [''python'', ''/stage/stage.py'', direction, source, target],
          st_mounts = c_mounts head @ [\<lparr>mnt_name = ''stage'', mnt_path = ''/stage''\<rparr>],
          st_volumes = p_volumes pod @ [\<lparr>vol_name = ''stage'', vol_empty_dir = False, vol_claim = None\<rparr>],
          st_suspend = (direction = ''out'')\<rparr>
      | _ \<Rightarrow> Inl (PyError ''ValueError''))"

text \<open>\<open>datetime.fromtimestamp\<close> rounds to microseconds, and the format drops them.\<close>

definition stamp :: "time \<Rightarrow> time" where
  "stamp w = of_int \<lfloor>of_int (round_half_even (w * 1000000)) / (1000000 :: rat)\<rfloor>"

subsection \<open>What its pods hold\<close>

text \<open>The GPUs of a cluster's pods, by the pods' phase; a sample of such a pod without a phase raises \<open>KeyError\<close>.\<close>

fun held_by_phase :: "string \<Rightarrow> (string, int) dict \<Rightarrow> sample list \<Rightarrow> gw_error + (string, int) dict" where
  "held_by_phase cluster gpus [] = Inr gpus"
| "held_by_phase cluster gpus (s # ss) =
     (if prefix (cluster @ ''-'') (dict_get (fst s) ''pod'' []) then
        (case map_of (fst s) ''phase'' of
           None \<Rightarrow> Inl (PyError ''KeyError'')
         | Some phase \<Rightarrow> held_by_phase cluster
             (AList.update phase (dict_get gpus phase 0 + round_half_even (snd s)) gpus) ss)
      else held_by_phase cluster gpus ss)"

definition percents_of :: "string \<Rightarrow> sample list \<Rightarrow> rat list" where
  "percents_of cluster util = map snd (filter (\<lambda>s. prefix (cluster @ ''-'') (dict_get (fst s) ''pod'' [])) util)"

fun nrp_usage_of :: "rayjob list \<Rightarrow> sample list \<Rightarrow> sample list \<Rightarrow> (string, string) dict \<Rightarrow> gw_error + nrp_usage list" where
  "nrp_usage_of [] held util owners = Inr []"
| "nrp_usage_of (j # js) held util owners =
     (let cluster = j_head j in
      if cluster = [] then nrp_usage_of js held util owners
      else bind_sum (held_by_phase cluster [] held) (\<lambda>gpus.
        let percents = percents_of cluster util in
        bind_sum (nrp_usage_of js held util owners) (\<lambda>more.
        if list_all (\<lambda>(_, n). n = 0) gpus \<and> percents = [] then Inr more
        else Inr (\<lparr>nu_cluster = cluster, nu_user = dict_get owners (dict_get (j_labels j) OWNER_LABEL []) [],
            nu_gpus = gpus,
            nu_utilization = (if percents = [] then None
              else Some (sum_list percents / of_nat (length percents) / 100))\<rparr> # more))))"

definition replace_char :: "char \<Rightarrow> string \<Rightarrow> string \<Rightarrow> string" where
  "replace_char c by_text text = concat (map (\<lambda>d. if d = c then by_text else [d]) text)"

definition label_value :: "string \<Rightarrow> string" where
  "label_value v = replace_char newline [backslash, CHR ''n'']
     (replace_char quote [backslash, quote] (replace_char backslash [backslash, backslash] v))"

definition usage_labels :: "nrp_usage \<Rightarrow> string" where
  "usage_labels u = ''ray_cluster='' @ [quote] @ label_value (nu_cluster u) @ [quote] @ '',user='' @ [quote]
     @ label_value (nu_user u) @ [quote]"

definition nrp_usage_lines :: "nrp_usage list \<Rightarrow> string list" where
  "nrp_usage_lines usage =
     [''# HELP ray_train_nrp_job_gpus The GPUs a job on NRP holds, by the phase of the pods that hold them.'',
      ''# TYPE ray_train_nrp_job_gpus gauge'']
     @ concat (map (\<lambda>u. map (\<lambda>(phase, count). ''ray_train_nrp_job_gpus{'' @ usage_labels u @ '',phase='' @ [quote]
           @ phase @ [quote] @ ''} '' @ show_int count) (sort_key fst (nu_gpus u))) usage)
     @ [''# HELP ray_train_nrp_job_gpu_utilization How busy the GPUs of a job on NRP are, on average, 0 to 1.'',
        ''# TYPE ray_train_nrp_job_gpu_utilization gauge'']
     @ concat (map (\<lambda>u. case nu_utilization u of None \<Rightarrow> []
         | Some x \<Rightarrow> [''ray_train_nrp_job_gpu_utilization{'' @ usage_labels u @ ''} '' @ fmt_g x]) usage)"

subsection \<open>A label read back\<close>

text \<open>How Prometheus reads the text of a label up to its closing quote, and the rest of the line.\<close>

fun read_label :: "string \<Rightarrow> (string \<times> string) option" where
  "read_label [] = None"
| "read_label (c # cs) =
     (if c = quote then Some ([], cs)
      else if c = newline then None
      else if c = backslash then (case cs of
          [] \<Rightarrow> None
        | d # ds \<Rightarrow>
          if d = CHR ''n'' then map_option (\<lambda>(v, rest). (newline # v, rest)) (read_label ds)
          else if d = backslash \<or> d = quote then map_option (\<lambda>(v, rest). (d # v, rest)) (read_label ds)
          else None)
      else map_option (\<lambda>(v, rest). (c # v, rest)) (read_label cs))"

definition escaped :: "char \<Rightarrow> string" where
  "escaped c = (if c = backslash then [backslash, backslash] else if c = quote then [backslash, quote]
     else if c = newline then [backslash, CHR ''n''] else [c])"

lemma label_chars [simp]:
  "backslash \<noteq> quote" "backslash \<noteq> newline" "quote \<noteq> newline" "backslash \<noteq> CHR ''n''" "quote \<noteq> CHR ''n''"
  "newline \<noteq> CHR ''n''" "quote \<noteq> backslash" "newline \<noteq> backslash" "newline \<noteq> quote" "CHR ''n'' \<noteq> backslash"
  "CHR ''n'' \<noteq> quote" "CHR ''n'' \<noteq> newline"
  by (simp_all add: backslash_def quote_def newline_def)

lemma replace_char_simps [simp]:
  "replace_char c t [] = []"
  "replace_char c t (d # ds) = (if d = c then t else [d]) @ replace_char c t ds"
  "replace_char c t (xs @ ys) = replace_char c t xs @ replace_char c t ys"
  by (simp_all add: replace_char_def)

lemma label_value_escaped: "label_value v = concat (map escaped v)"
proof (induction v)
  case (Cons c v)
  then show ?case by (auto simp: label_value_def escaped_def)
qed (simp add: label_value_def)

lemma read_escaped: "read_label (escaped c @ s) = map_option (\<lambda>(v, rest). (c # v, rest)) (read_label s)"
  by (auto simp: escaped_def)

lemma read_label_value: "read_label (label_value v @ quote # rest) = Some (v, rest)"
  unfolding label_value_escaped by (induction v) (simp_all add: read_escaped)

text \<open>
  Whatever the name of a user or a cluster, the metrics say it exactly. What \<open>label_value\<close> writes between two
  quotes Prometheus reads back as the name, and goes on after the closing quote: no name ends its label early,
  breaks the line, or is taken for another.
\<close>

theorem label_value_read: "read_label (label_value v @ [quote] @ rest) = Some (v, rest)"
  using read_label_value by simp

end
