(* ===== verification/Gateway_Law.thy ===== *)
theory Gateway_Law
  imports Gateway_State
begin

text \<open>
  Laws of what a coroutine may do. A law says of each event whether it is allowed after those before it; a
  coroutine that keeps the law is shown to by its parts, with what it has seen so far carried along. The calls
  it awaits add no events of their own.
\<close>

fun lawful :: "(event list \<Rightarrow> event \<Rightarrow> bool) \<Rightarrow> event list \<Rightarrow> bool" where
  "lawful law [] = True"
| "lawful law (e # past) = (law past e \<and> lawful law past)"

text \<open>From the trace \<open>tr\<close>, the events since keep the law, and those of \<open>seen\<close> are among them.\<close>

definition kept :: "(event list \<Rightarrow> event \<Rightarrow> bool) \<Rightarrow> event list \<Rightarrow> event list \<Rightarrow> 'w gateway \<Rightarrow> bool" where
  "kept law seen tr t \<longleftrightarrow> (\<exists>es. trace t = es @ tr \<and> lawful law es \<and> set seen \<subseteq> set es)"

lemma kept_start: "kept law [] (trace s) s"
  by (simp add: kept_def)

lemma kept_weaken: "kept law (x # seen) tr t \<Longrightarrow> kept law seen tr t"
  by (auto simp: kept_def)

lemma kept_holds: "holds trace m \<Longrightarrow> preserves (kept law seen tr) m"
  by (erule preserves_holds) (simp add: kept_def)

lemma kept_modify: "(\<And>s. trace (g s) = trace s) \<Longrightarrow> preserves (kept law seen tr) (modify g)"
  by (simp add: preserves_def modify_def kept_def)

text \<open>A law that more events before only loosen.\<close>

locale event_law =
  fixes law :: "event list \<Rightarrow> event \<Rightarrow> bool"
  assumes law_mono: "law past e \<Longrightarrow> set past \<subseteq> set past' \<Longrightarrow> law past' e"
begin

lemma kept_cons:
  assumes "law seen e" "kept law seen tr s"
  shows "kept law (e # seen) tr (s\<lparr>trace := e # trace s\<rparr>)"
proof -
  from assms(2) obtain es where es: "trace s = es @ tr" "lawful law es" "set seen \<subseteq> set es" by (auto simp: kept_def)
  then show ?thesis using law_mono [OF assms(1) es(3)] unfolding kept_def by (intro exI [of _ "e # es"]) auto
qed

lemma kept_emit: "law seen e \<Longrightarrow> preserves (kept law seen tr) (emit e)"
  by (rule preserves_emit) (auto intro: kept_weaken kept_cons)

lemma kept_emit_then:
  "law seen e \<Longrightarrow> preserves (kept law (e # seen) tr) m \<Longrightarrow> preserves (kept law seen tr) (bindm (emit e) (\<lambda>_. m))"
  by (auto simp: preserves_def bindm_def emit_def modify_def intro: kept_weaken kept_cons)

lemma kept_run:
  assumes "preserves (kept law [] (trace s)) m" "m s = (r, t)"
  shows "\<exists>es. trace t = es @ trace s \<and> lawful law es"
  using preservesD [OF assms(1) kept_start] assms(2) by (auto simp: kept_def)

end

lemma lawful_mem: "lawful law es \<Longrightarrow> e \<in> set es \<Longrightarrow> \<exists>past. law past e \<and> set past \<subseteq> set es"
  by (induction es) auto

end
