(* ===== verification/Gateway_NRP.thy ===== *)
theory Gateway_NRP
  imports NRP_Jobs Gateway_Law
begin

text \<open>
  Ray jobs on NRP (\<open>src/apps/ray-train/gateway.py\<close>, from \<open>nrp_submission\<close> to \<open>reap_nrp\<close>). The progress of a job is kept on its
  RayJob there: its stage, and since when. The reaper moves every job on, one pass of \<open>advance_nrp\<close> at a time: its
  inputs are copied, its cluster starts, it runs, its outputs are copied back, its code is deleted, and at last
  its record. The lock of a user's submissions is not modelled: a coroutine's calls already stand for
  whatever runs meanwhile.
\<close>

definition NRP_START_TIMEOUT_S :: time where "NRP_START_TIMEOUT_S = 1800"
definition NRP_UTILIZATION_WINDOW_S :: nat where "NRP_UTILIZATION_WINDOW_S = 1800"
definition NRP_MIN_UTILIZATION :: rat where "NRP_MIN_UTILIZATION = 40"
definition STOPPED_BY_USER :: string where "STOPPED_BY_USER = ''The job was stopped.''"
definition STOPPED_INPUTS :: string where
  "STOPPED_INPUTS = ''Copying its inputs to NRP failed: is it a directory you can read?''"
definition STOPPED_NOT_STARTED :: string where
  "STOPPED_NOT_STARTED = ''Its Ray cluster on NRP did not start in time.''"

definition STOPPED_IDLE :: "rat \<Rightarrow> nat \<Rightarrow> rat \<Rightarrow> string" where
  "STOPPED_IDLE utilization minutes least =
     ''Its idlest GPU was '' @ show_int (round_half_even utilization) @ ''% busy over the last '' @ show_nat minutes
     @ '' minutes, and NRP asks each GPU for '' @ show_int (round_half_even least)
     @ ''%: keep them busier, with more data loaders or larger batches, or run it at Purdue.''"

subsection \<open>Changing its record\<close>

definition nrp_patch :: "'w api \<Rightarrow> string \<Rightarrow> (string, string) dict \<Rightarrow> time option \<Rightarrow> bool option \<Rightarrow> ('w, unit) io" where
  "nrp_patch api name annotations since suspend =
     bindm (emit (Nrp_patch name annotations since suspend)) (\<lambda>_.
     bindm (nrp_change api name annotations since suspend) (\<lambda>status.
     if status \<noteq> 200 then raise (Refused UNAVAILABLE
       (''NRP answered HTTP '' @ show_nat status @ '' changing the Ray job.''))
     else ret ()))"

definition resume_nrp :: "'w api \<Rightarrow> rayjob \<Rightarrow> ('w, rayjob) io" where
  "resume_nrp api j =
     bindm (now_w api) (\<lambda>t.
     bindm (nrp_patch api (j_name j) [(STAGE_ANNOTATION, ''running'')] (Some (stamp t)) (Some False)) (\<lambda>_.
     ret (j\<lparr>j_annotations := AList.update STAGE_ANNOTATION ''running'' (j_annotations j), j_since := Some (stamp t),
       j_suspend := False\<rparr>)))"

text \<open>The job changes before NRP is asked, and the clock is read for each.\<close>

definition set_stage :: "'w api \<Rightarrow> rayjob \<Rightarrow> string \<Rightarrow> (string, string) dict \<Rightarrow> ('w, rayjob) io" where
  "set_stage api j stage extra =
     (let annotations = (STAGE_ANNOTATION, stage) # extra in
      bindm (now_w api) (\<lambda>t.
      let j' = j\<lparr>j_annotations := dict_updates (j_annotations j) annotations, j_since := Some (stamp t)\<rparr> in
      bindm (now_w api) (\<lambda>t'.
      bindm (nrp_patch api (j_name j) annotations (Some (stamp t')) None) (\<lambda>_. ret j'))))"

definition stop_nrp :: "'w api \<Rightarrow> rayjob \<Rightarrow> string \<Rightarrow> ('w, unit) io" where
  "stop_nrp api j why =
     bindm (whenm (\<not> job_ended j) (nrp_patch api (j_name j) [] None (Some True))) (\<lambda>_.
     let wrote = map_of (j_annotations j) OUTPUT_ANNOTATION = Some ''true'' \<and> j_ran j \<noteq> None in
     bindm (set_stage api j (if wrote then ''outputs'' else ''done'') [(STOPPED_ANNOTATION, why)]) (\<lambda>_. ret ()))"

definition stage_of_conditions :: "stage_report \<Rightarrow> string" where
  "stage_of_conditions r =
     (case find (\<lambda>(kind, status). status = ''True'' \<and> kind \<in> {''Complete'', ''Failed''}) (sr_conditions r) of
        Some (kind, status) \<Rightarrow> if kind = ''Complete'' then ''succeeded'' else ''failed''
      | None \<Rightarrow> if sr_suspend r then ''suspended'' else ''running'')"

definition stage_state :: "'w api \<Rightarrow> string \<Rightarrow> ('w, string option) io" where
  "stage_state api name = bindm (get_stage api name) (\<lambda>(status, r).
     if status = 404 then bindm (emit (Saw_stage name None)) (\<lambda>_. ret None)
     else if status \<noteq> 200 then raise (Refused UNAVAILABLE
       (''Kubernetes answered HTTP '' @ show_nat status @ '' for the Job '' @ name @ ''.''))
     else bindm (emit (Saw_stage name (Some (stage_of_conditions r)))) (\<lambda>_. ret (Some (stage_of_conditions r))))"

text \<open>What Prometheus does not answer, or answers in another form; \<open>asyncio.TimeoutError\<close> is a \<open>ClientError\<close> here.\<close>

definition prometheus_failed :: "gw_error \<Rightarrow> bool" where
  "prometheus_failed e \<longleftrightarrow> e \<in> {ClientError, PyError ''KeyError'', PyError ''ValueError''}"

definition idle_utilization :: "'w api \<Rightarrow> rayjob \<Rightarrow> time \<Rightarrow> ('w, rat option) io" where
  "idle_utilization api j now = (case epoch_ms (j_ran j) of
     None \<Rightarrow> ret None
   | Some began \<Rightarrow>
     if j_status j \<noteq> ''RUNNING'' \<or> j_head j = [] \<or> now - of_int began / 1000 < of_nat NRP_UTILIZATION_WINDOW_S then ret None
     else
     bindm (catch (nrp_utilization api (j_head j)) (\<lambda>e. if prometheus_failed e then ret [] else raise e)) (\<lambda>samples.
     if samples = [] then ret None
     else let idlest = Min (set samples) in
       ret (if idlest < NRP_MIN_UTILIZATION then Some idlest else None)))"

subsection \<open>Moving it on\<close>

definition delete_prefix :: "'w api \<Rightarrow> string \<Rightarrow> ('w, unit) io" where
  "delete_prefix api key = bindm (emit (Code_delete key)) (\<lambda>_. bucket_delete api key)"

definition delete_nrp :: "'w api \<Rightarrow> string \<Rightarrow> ('w, unit) io" where
  "delete_nrp api name =
     bindm (emit (Nrp_delete name)) (\<lambda>_.
     bindm (nrp_remove api name) (\<lambda>_.
     bindm (each (\<lambda>direction.
        bindm (emit (Stage_delete (name @ ''-'' @ direction))) (\<lambda>_.
        bindm (delete_stage api (name @ ''-'' @ direction)) (\<lambda>_. ret ()))) [''in'', ''out'']) (\<lambda>_.
     bindm (modify (\<lambda>s. s\<lparr>nrp_cleaned := removeAll name (nrp_cleaned s)\<rparr>)) (\<lambda>_.
     delete_prefix api (code_prefix name)))))"

text \<open>The stage \<open>done\<close>, since \<open>since\<close>: the code goes, and the record once kept long enough.\<close>

definition finish_nrp :: "'w api \<Rightarrow> rayjob \<Rightarrow> time \<Rightarrow> time \<Rightarrow> ('w, unit) io" where
  "finish_nrp api j now since =
     bindm (gets (\<lambda>s. j_name j \<in> set (nrp_cleaned s))) (\<lambda>cleaned.
     bindm (whenm (\<not> cleaned \<and> map_of (j_annotations j) OUTPUT_ANNOTATION \<noteq> Some OUTPUT_FAILED)
       (bindm (delete_prefix api (code_prefix (j_name j))) (\<lambda>_.
        modify (\<lambda>s. s\<lparr>nrp_cleaned := List.insert (j_name j) (nrp_cleaned s)\<rparr>)))) (\<lambda>_.
     whenm (now - since \<ge> JOB_RECORD_S) (delete_nrp api (j_name j))))"

definition advance_outputs :: "'w api \<Rightarrow> rayjob \<Rightarrow> time \<Rightarrow> ('w, unit) io" where
  "advance_outputs api j now =
     bindm (stage_state api (j_name j @ ''-out'')) (\<lambda>copied.
     if copied = Some ''suspended'' then
       bindm (emit (Stage_resume (j_name j @ ''-out''))) (\<lambda>_.
       bindm (resume_stage api (j_name j @ ''-out'')) (\<lambda>_. ret ()))
     else if copied = Some ''running'' then ret ()
     else
       bindm (set_stage api j ''done'' (if copied \<noteq> Some ''succeeded'' then [(OUTPUT_ANNOTATION, OUTPUT_FAILED)] else [])) (\<lambda>j'.
       finish_nrp api j' now now))"

definition advance_running :: "'w api \<Rightarrow> rayjob \<Rightarrow> time \<Rightarrow> time \<Rightarrow> ('w, unit) io" where
  "advance_running api j now since =
     (if job_ended j then
        if map_of (j_annotations j) OUTPUT_ANNOTATION = Some ''true''
        then bindm (set_stage api j ''outputs'' []) (\<lambda>j'. advance_outputs api j' now)
        else bindm (set_stage api j ''done'' []) (\<lambda>j'. finish_nrp api j' now since)
      else if j_deployment j \<in> {[], ''Initializing''} \<and> now - since \<ge> NRP_START_TIMEOUT_S then
        stop_nrp api j STOPPED_NOT_STARTED
      else bindm (idle_utilization api j now) (\<lambda>found. case found of
        None \<Rightarrow> ret ()
      | Some u \<Rightarrow> stop_nrp api j (STOPPED_IDLE u (NRP_UTILIZATION_WINDOW_S div 60) NRP_MIN_UTILIZATION)))"

definition nrp_stage :: "rayjob \<Rightarrow> string" where
  "nrp_stage j = or_else (dict_get (j_annotations j) STAGE_ANNOTATION []) ''running''"

definition advance_nrp :: "'w api \<Rightarrow> rayjob \<Rightarrow> ('w, unit) io" where
  "advance_nrp api j =
     (let stage = nrp_stage j; since = (case j_since j of None \<Rightarrow> j_created j | Some t \<Rightarrow> t) in
      bindm (now_w api) (\<lambda>now.
      if stage = ''inputs'' then
        bindm (stage_state api (j_name j @ ''-in'')) (\<lambda>copied.
        if copied \<in> {Some ''failed'', None} then stop_nrp api j STOPPED_INPUTS
        else if copied = Some ''succeeded'' then bindm (resume_nrp api j) (\<lambda>_. ret ())
        else ret ())
      else if stage = ''placing'' then bindm (resume_nrp api j) (\<lambda>_. ret ())
      else if stage = ''running'' then advance_running api j now since
      else if stage = ''outputs'' then advance_outputs api j now
      else if stage = ''done'' then finish_nrp api j now since
      else ret ()))"

subsection \<open>Submitting it\<close>

definition copied_parts :: "gw_config \<Rightarrow> string \<Rightarrow> (string, string) dict \<Rightarrow> (string \<times> string \<times> string) list" where
  "copied_parts cfg name data = filter (\<lambda>(direction, source, target). source \<noteq> [] \<and> target \<noteq> [])
     [(''in'', dict_get data ''inputs'' [], data_uri (cfg_bucket cfg) name ''inputs''),
      (''out'', data_uri (cfg_bucket cfg) name ''output'', dict_get data ''output'' [])]"

definition post_stage_job :: "gw_config \<Rightarrow> 'w api \<Rightarrow> user \<Rightarrow> rayjob \<Rightarrow> string \<Rightarrow> string \<times> string \<times> string \<Rightarrow> ('w, unit) io" where
  "post_stage_job cfg api u created name part = (case part of (direction, source, target) \<Rightarrow>
     bindm (of_sum (stage_job_of (cfg_sha cfg) (cluster_template (cfg_template cfg) u) u name direction source target)) (\<lambda>copy.
     bindm (emit (Stage_post copy)) (\<lambda>_.
     bindm (post_stage api copy) (\<lambda>said.
     if fst said \<noteq> 201 then
       bindm (stop_nrp api created STOPPED_INPUTS) (\<lambda>_.
       raise (Refused UNAVAILABLE (''Could not create the Job that copies your job's data: '' @ message_of said)))
     else ret ()))))"

text \<open>The GPU models that fit the job and the workers it gets of them, or why it gets none.\<close>

definition nrp_place :: "(string, gpu_model) dict \<Rightarrow> nat \<Rightarrow> nat \<Rightarrow> rat \<Rightarrow> gw_error + nat \<times> string list option" where
  "nrp_place models wanted least mem =
     (if models = [] then Inl (Refused UNAVAILABLE ''NRP's Prometheus shows none of its GPU nodes now: try again later.'')
      else let r = room models mem in
      if room_models r = Some [] then Inl (Refused INVALID_ARGUMENT (''No GPU on NRP has '' @ fmt_g mem @ '' GB.''))
      else if room_workers_empty r < int least then Inl (Refused RESOURCE_EXHAUSTED
        (''Your job asks for '' @ show_nat least @ '' workers, and NRP's ''
         @ (if mem \<noteq> 0 then ''GPUs of '' @ fmt_g mem @ '' GB or more'' else ''GPU nodes'')
         @ '' have room for at most '' @ show_int (room_workers_empty r) @ '', empty: ask for fewer.''))
      else Inr (nat (min (int wanted) (max (room_workers r) (int least))), room_models r))"

definition start_nrp_job :: "gw_config \<Rightarrow> 'w api \<Rightarrow> user \<Rightarrow> shape \<Rightarrow> string \<Rightarrow> submission \<Rightarrow> (string, string) dict
    \<Rightarrow> ('w, unit) io" where
  "start_nrp_job cfg api u shape name su data =
     bindm (of_sum (value_or_raise (int_of (sh_workers shape)))) (\<lambda>wanted.
     bindm (of_sum (value_or_raise (int_of (sh_least shape)))) (\<lambda>least.
     bindm (of_sum (value_or_raise (if sh_memory shape = [] then Some 0 else float_of (sh_memory shape)))) (\<lambda>mem.
     bindm (catch (nrp_models api) (\<lambda>e. if prometheus_failed e then ret [] else raise e)) (\<lambda>models.
     bindm (of_sum (nrp_place models wanted least mem)) (\<lambda>(workers, allowed).
     bindm (of_sum (nrp_build_job (cfg_nrp_template cfg) name (owner_key (cfg_sha cfg) (own cfg u) (user_owner u)) su
         (cfg_bucket cfg) workers allowed 0
         (map (\<lambda>(k, _). (af_variable k, data_uri (cfg_bucket cfg) name k)) data))) (\<lambda>built.
     bindm (now_w api) (\<lambda>t.
     let j = built\<lparr>j_annotations := dict_updates (j_annotations built)
           [(STAGE_ANNOTATION, if map_of data ''inputs'' \<noteq> None then ''inputs'' else ''running''),
            (OUTPUT_ANNOTATION, if map_of data ''output'' \<noteq> None then ''true'' else [])],
         j_since := Some (stamp t)\<rparr> in
     bindm (emit (Nrp_post j)) (\<lambda>_.
     bindm (nrp_post api j) (\<lambda>(said, created).
     if fst said \<noteq> 201 then raise (Refused UNAVAILABLE (''NRP did not take your job: '' @ message_of said))
     else
     bindm (each (post_stage_job cfg api u created name) (copied_parts cfg name data)) (\<lambda>_.
     advance_nrp api created))))))))))"

datatype nrp_answer = Uploaded | Exists bool | Submitted string

definition nrp_name :: "gw_config \<Rightarrow> 'w api \<Rightarrow> user \<Rightarrow> ('w, string) io" where
  "nrp_name cfg api u =
     bindm (gets (\<lambda>s. dict_get (nrp_waiting s) (own cfg u) ([], 0))) (\<lambda>(name, since).
     bindm (if name = [] then ret True else bindm (now_m api) (\<lambda>now. ret (now - since > START_TIMEOUT_S))) (\<lambda>new.
     if new then bindm (asks (new_id api)) (\<lambda>key. ret (job_name (cfg_sha cfg) u key)) else ret name))"

definition nrp_upload :: "gw_config \<Rightarrow> 'w api \<Rightarrow> user \<Rightarrow> string \<Rightarrow> string \<Rightarrow> string \<Rightarrow> string \<Rightarrow> ('w, nrp_answer) io" where
  "nrp_upload cfg api u name http_method package content =
     bindm (now_m api) (\<lambda>now.
     bindm (modify (\<lambda>s. s\<lparr>nrp_waiting := AList.update (own cfg u) (name, now) (nrp_waiting s)\<rparr>)) (\<lambda>_.
     let key = code_prefix name @ ''/'' @ package in
     if http_method = ''PUT'' then
       bindm (emit (Code_put key)) (\<lambda>_. bindm (bucket_put api key content) (\<lambda>_. ret Uploaded))
     else bindm (bucket_exists api key) (\<lambda>there. ret (Exists there))))"

text \<open>\<open>content\<close> is what the call carries, and \<open>body\<close> the submission it is as JSON, if it is one.\<close>

definition nrp_submission :: "gw_config \<Rightarrow> 'w api \<Rightarrow> user \<Rightarrow> shape \<Rightarrow> string \<Rightarrow> string \<Rightarrow> (string, string) dict \<Rightarrow> string
    \<Rightarrow> submission option \<Rightarrow> ('w, nrp_answer) io" where
  "nrp_submission cfg api u shape http_method path headers content body =
     (if \<not> cfg_nrp_enabled cfg then raise (Refused UNAVAILABLE
        ''Jobs on NRP are not enabled: the gateway has no NRP kubeconfig or S3 keys.'')
      else
      bindm (nrp_name cfg api u) (\<lambda>name.
      if prefix ''/api/packages/'' path
      then nrp_upload cfg api u name http_method (last (split_on (CHR ''/'') path)) content
      else case body of
        None \<Rightarrow> raise (Refused INVALID_ARGUMENT ''A job submission is a JSON object.'')
      | Some su \<Rightarrow>
        bindm (of_sum (value_or_raise (env_roots (cluster_template (cfg_template cfg) u)))) (\<lambda>roots.
        bindm (of_sum (data_paths roots headers)) (\<lambda>data.
        bindm (modify (\<lambda>s. s\<lparr>nrp_waiting := AList.delete (own cfg u) (nrp_waiting s)\<rparr>)) (\<lambda>_.
        bindm (if su_id su \<noteq> [] then ret (su_id su) else asks (new_id api)) (\<lambda>asked.
        bindm (submitted_before cfg api u asked) (\<lambda>before.
        if before then raise (duplicate_refusal asked)
        else
        bindm (start_nrp_job cfg api u shape name (su\<lparr>su_id := asked\<rparr>) data) (\<lambda>_. ret (Submitted asked)))))))))"

subsection \<open>Calls about it\<close>

definition nrp_submitter :: "'w api \<Rightarrow> string \<Rightarrow> ('w, string option) io" where
  "nrp_submitter api name = bindm (nrp_pods api name) (\<lambda>(status, pods).
     ret (if status \<noteq> 200 then None
          else map_option fst (find (\<lambda>(pod, phase). phase \<in> {''Running'', ''Succeeded'', ''Failed''}) pods)))"

definition nrp_log :: "'w api \<Rightarrow> string \<Rightarrow> ('w, string) io" where
  "nrp_log api name = bindm (nrp_submitter api name) (\<lambda>found. case found of
     None \<Rightarrow> ret []
   | Some pod \<Rightarrow> bindm (nrp_pod_log api pod) (\<lambda>(status, text). ret (if status = 200 then text else [])))"

text \<open>The pod whose log is followed: \<open>fuel\<close> bounds the passes of the loop that waits for it.\<close>

fun await_submitter :: "nat \<Rightarrow> 'w api \<Rightarrow> string \<Rightarrow> time \<Rightarrow> string option \<Rightarrow> ('w, string option) io" where
  "await_submitter 0 api name deadline found = raise Diverged"
| "await_submitter (Suc fuel) api name deadline found = (case found of
     Some pod \<Rightarrow> ret (Some pod)
   | None \<Rightarrow> bindm (now_m api) (\<lambda>now.
       if now < deadline then
         bindm (sleep api START_POLL_S) (\<lambda>_.
         bindm (nrp_submitter api name) (\<lambda>found. await_submitter fuel api name deadline found))
       else ret None))"

definition nrp_tail :: "nat \<Rightarrow> 'w api \<Rightarrow> string \<Rightarrow> ('w, string option) io" where
  "nrp_tail fuel api name =
     bindm (now_m api) (\<lambda>now.
     bindm (nrp_submitter api name) (\<lambda>found.
     await_submitter fuel api name (now + NRP_START_TIMEOUT_S) found))"

definition nrp_recorded :: "nat \<Rightarrow> 'w api \<Rightarrow> rayjob \<Rightarrow> string \<Rightarrow> string \<Rightarrow> bool \<Rightarrow> ('w, job_answer) io" where
  "nrp_recorded fuel api j http_method rest websocket =
     (let ann = j_annotations j; finished = (job_ended j \<or> map_of ann STOPPED_ANNOTATION \<noteq> None) in
      if http_method = ''GET'' \<and> rest = [] then ret (Details (job_details j))
      else if http_method = ''GET'' \<and> rest = ''/logs'' \<and> \<not> websocket then
        bindm (nrp_log api (j_name j)) (\<lambda>text. ret (Logs text))
      else if http_method = ''GET'' \<and> rest = ''/logs/tail'' then
        bindm (nrp_tail fuel api (j_name j)) (\<lambda>pod. ret (Followed pod))
      else if http_method = ''POST'' \<and> rest = ''/stop'' then
        bindm (whenm (\<not> finished) (stop_nrp api j STOPPED_BY_USER)) (\<lambda>_. ret (Stopped (\<not> finished)))
      else if http_method = ''DELETE'' \<and> rest = [] then
        (if dict_get ann STAGE_ANNOTATION ''done'' \<noteq> ''done'' then raise (Refused INVALID_ARGUMENT
           ''The job has not ended, or its outputs are being copied back: stop it, or wait'')
         else bindm (delete_nrp api (j_name j)) (\<lambda>_. ret Deleted))
      else raise (Refused NOT_FOUND ''Not found''))"

subsection \<open>The reaper\<close>

text \<open>The names of all Hub users, a page at a time; \<open>fuel\<close> bounds the pages.\<close>

fun hub_names :: "nat \<Rightarrow> 'w api \<Rightarrow> nat option \<Rightarrow> string list \<Rightarrow> ('w, string list) io" where
  "hub_names fuel api None names = ret names"
| "hub_names 0 api (Some offset) names = raise Diverged"
| "hub_names (Suc fuel) api (Some offset) names = bindm (hub_page api offset) (\<lambda>(status, found, following).
     if status \<noteq> 200 then raise (Refused UNAVAILABLE
       (''JupyterHub answered HTTP '' @ show_nat status @ '' for its users.''))
     else hub_names fuel api following (names @ found))"

definition name_owners :: "((string \<Rightarrow> string) \<Rightarrow> string \<Rightarrow> string) \<Rightarrow> (string \<Rightarrow> string) \<Rightarrow> string list
    \<Rightarrow> (string, string) dict \<Rightarrow> (string, string) dict" where
  "name_owners key sha names d = foldl (\<lambda>d name. AList.update (key sha name) name d) d names"

definition nrp_owner_names :: "nat \<Rightarrow> gw_config \<Rightarrow> 'w api \<Rightarrow> string list \<Rightarrow> ('w, (string, string) dict) io" where
  "nrp_owner_names fuel cfg api keys =
     bindm (modify (\<lambda>s. s\<lparr>nrp_owners := name_owners (\<lambda>sha name. owner_key sha (cluster_name sha name) name)
         (cfg_sha cfg) (map fst (cfg_accts cfg)) (nrp_owners s)\<rparr>)) (\<lambda>_.
     bindm (now_m api) (\<lambda>now.
     bindm (gets (\<lambda>s. \<not> set keys \<subseteq> fst ` set (nrp_owners s) \<and> now - nrp_owners_asked s \<ge> USER_CACHE_S)) (\<lambda>ask.
     bindm (whenm ask
       (bindm (modify (\<lambda>s. s\<lparr>nrp_owners_asked := now\<rparr>)) (\<lambda>_.
        bindm (catch (hub_names fuel api (Some 0) []) (\<lambda>e. case e of
            Refused code text \<Rightarrow> ret [] | ClientError \<Rightarrow> ret []
          | PyError p \<Rightarrow> if p = ''KeyError'' then ret [] else raise e | Diverged \<Rightarrow> raise e)) (\<lambda>names.
        modify (\<lambda>s. s\<lparr>nrp_owners := name_owners (\<lambda>sha name. owner_key sha (cluster_name sha name) [])
            (cfg_sha cfg) names (nrp_owners s)\<rparr>))))) (\<lambda>_.
     gets nrp_owners))))"

definition read_nrp_usage :: "nat \<Rightarrow> gw_config \<Rightarrow> 'w api \<Rightarrow> rayjob list \<Rightarrow> ('w, nrp_usage list) io" where
  "read_nrp_usage fuel cfg api js =
     bindm (nrp_held_samples api) (\<lambda>(held, util).
     bindm (nrp_owner_names fuel cfg api (removeAll [] (map (\<lambda>j. dict_get (j_labels j) OWNER_LABEL []) js))) (\<lambda>owners.
     of_sum (nrp_usage_of js held util owners)))"

definition reap_code :: "'w api \<Rightarrow> time \<Rightarrow> string set \<Rightarrow> string \<times> time \<Rightarrow> ('w, unit) io" where
  "reap_code api now taken entry = (case entry of (name, written) \<Rightarrow>
     whenm (name \<notin> taken \<and> now - written \<ge> 2 * START_TIMEOUT_S) (delete_prefix api (code_prefix name)))"

definition reap_nrp :: "nat \<Rightarrow> gw_config \<Rightarrow> 'w api \<Rightarrow> ('w, unit) io" where
  "reap_nrp fuel cfg api =
     (if \<not> cfg_nrp_enabled cfg then ret ()
      else
      bindm (catch (bindm (nrp_listing api managed_by_label MANAGED_BY) (\<lambda>js. ret (Some js))) (\<lambda>e. case e of
          Refused code text \<Rightarrow> ret None | ClientError \<Rightarrow> ret None | PyError p \<Rightarrow> raise e | Diverged \<Rightarrow> raise e)) (\<lambda>listed.
      case listed of
        None \<Rightarrow> modify (\<lambda>s. s\<lparr>nrp_held := None\<rparr>)
      | Some js \<Rightarrow>
        bindm (catch (bindm (read_nrp_usage fuel cfg api js) (\<lambda>usage. ret (Some usage)))
          (\<lambda>e. if prometheus_failed e then ret None else raise e)) (\<lambda>usage.
        bindm (modify (\<lambda>s. s\<lparr>nrp_held := usage\<rparr>)) (\<lambda>_.
        bindm (now_w api) (\<lambda>now.
        bindm (each (\<lambda>j. logged (advance_nrp api j)) js) (\<lambda>_.
        bindm (gets (\<lambda>s. j_name ` set js \<union> (fst \<circ> snd) ` set (nrp_waiting s))) (\<lambda>taken.
        bindm (bucket_jobs api) (\<lambda>entries.
        each (reap_code api now taken) entries))))))))"

subsection \<open>What a pass may do\<close>

fun stage_rank :: "string \<Rightarrow> nat" where
  "stage_rank stage = (if stage = ''inputs'' then 0 else if stage = ''placing'' then 1 else if stage = ''running'' then 2
     else if stage = ''outputs'' then 3 else 4)"

definition has_outputs :: "rayjob \<Rightarrow> bool" where
  "has_outputs j \<longleftrightarrow> map_of (j_annotations j) OUTPUT_ANNOTATION = Some ''true''"

definition since_of :: "rayjob \<Rightarrow> time" where
  "since_of j = (case j_since j of None \<Rightarrow> j_created j | Some t \<Rightarrow> t)"

definition copied_back :: "rayjob \<Rightarrow> event list \<Rightarrow> bool" where
  "copied_back j past \<longleftrightarrow> Saw_stage (j_name j @ ''-out'') (Some ''succeeded'') \<in> set past"

text \<open>
  When a change of the record is allowed: it never sets the job back; it starts a suspended job only if its inputs were
  copied; it ends a job with outputs only if they came back, if it says that they did not, or if
  the job never ran and it says why it was stopped.
\<close>

definition patch_law :: "rayjob \<Rightarrow> event list \<Rightarrow> (string, string) dict \<Rightarrow> bool option \<Rightarrow> bool" where
  "patch_law j past ann suspend \<longleftrightarrow> (case map_of ann STAGE_ANNOTATION of
     None \<Rightarrow> ann = [] \<and> suspend = Some True \<and> \<not> job_ended j
   | Some stage \<Rightarrow> stage_rank (nrp_stage j) \<le> stage_rank stage
       \<and> (suspend \<noteq> None \<longrightarrow> suspend = Some False \<and> stage = ''running'' \<and> (nrp_stage j = ''placing''
            \<or> nrp_stage j = ''inputs'' \<and> Saw_stage (j_name j @ ''-in'') (Some ''succeeded'') \<in> set past))
       \<and> (stage = ''done'' \<and> has_outputs j \<longrightarrow> map_of ann OUTPUT_ANNOTATION = Some OUTPUT_FAILED \<or> copied_back j past
            \<or> j_ran j = None \<and> map_of ann STOPPED_ANNOTATION \<noteq> None))"

text \<open>When a job is over, as far as its record says: nothing of it runs, and no outputs are under way.\<close>

definition over :: "rayjob \<Rightarrow> bool" where
  "over j \<longleftrightarrow> nrp_stage j \<notin> {''inputs'', ''placing'', ''running'', ''outputs''}
     \<or> nrp_stage j = ''running'' \<and> job_ended j \<and> \<not> has_outputs j"

definition advance_law :: "time \<Rightarrow> rayjob \<Rightarrow> event list \<Rightarrow> event \<Rightarrow> bool" where
  "advance_law now j past e \<longleftrightarrow> (case e of
     Saw_stage n copied \<Rightarrow> n \<in> {j_name j @ ''-in'', j_name j @ ''-out''}
   | Nrp_patch n ann since suspend \<Rightarrow> n = j_name j \<and> patch_law j past ann suspend
   | Stage_resume n \<Rightarrow> n = j_name j @ ''-out'' \<and> Saw_stage n (Some ''suspended'') \<in> set past
   | Code_delete key \<Rightarrow> key = code_prefix (j_name j) \<and> (Nrp_delete (j_name j) \<in> set past \<or> copied_back j past
       \<or> over j \<and> map_of (j_annotations j) OUTPUT_ANNOTATION \<noteq> Some OUTPUT_FAILED)
   | Nrp_delete n \<Rightarrow> n = j_name j \<and> over j \<and> now - since_of j \<ge> JOB_RECORD_S
   | Stage_delete n \<Rightarrow> Nrp_delete (j_name j) \<in> set past \<and> n \<in> {j_name j @ ''-in'', j_name j @ ''-out''}
   | _ \<Rightarrow> False)"

lemma patch_law_mono: "patch_law j past ann suspend \<Longrightarrow> set past \<subseteq> set past' \<Longrightarrow> patch_law j past' ann suspend"
  unfolding patch_law_def copied_back_def by (cases "map_of ann STAGE_ANNOTATION") (simp_all, blast)

interpretation advancing: event_law "advance_law now j"
proof
  fix past e past'
  assume "advance_law now j past e" "set past \<subseteq> set past'"
  then show "advance_law now j past' e"
    by (cases e) (auto simp: advance_law_def copied_back_def intro: patch_law_mono)
qed

lemma annotation_keys:
  "STAGE_ANNOTATION \<noteq> OUTPUT_ANNOTATION" "OUTPUT_ANNOTATION \<noteq> STAGE_ANNOTATION"
  "STAGE_ANNOTATION \<noteq> STOPPED_ANNOTATION" "STOPPED_ANNOTATION \<noteq> STAGE_ANNOTATION"
  "STOPPED_ANNOTATION \<noteq> OUTPUT_ANNOTATION" "OUTPUT_ANNOTATION \<noteq> STOPPED_ANNOTATION"
  "OUTPUT_FAILED \<noteq> ''true''" "''true'' \<noteq> OUTPUT_FAILED" "OUTPUT_FAILED \<noteq> []"
  by (simp_all add: STAGE_ANNOTATION_def OUTPUT_ANNOTATION_def STOPPED_ANNOTATION_def OUTPUT_FAILED_def)

lemmas advance_calls = kept_holds [of "get_stage _ _"] kept_holds [of "nrp_change _ _ _ _ _"] kept_holds [of "now_w _"]
  kept_holds [of "nrp_utilization _ _"] kept_holds [of "bucket_delete _ _"] kept_holds [of "nrp_remove _ _"]
  kept_holds [of "delete_stage _ _"] kept_holds [of "resume_stage _ _"]

lemma nrp_patch_kept:
  "keeps trace api \<Longrightarrow> advance_law now j seen (Nrp_patch n ann since suspend)
   \<Longrightarrow> preserves (kept (advance_law now j) seen tr) (nrp_patch api n ann since suspend)"
  unfolding nrp_patch_def by (intro pres_intros advancing.kept_emit advance_calls holds_intros)

lemma stage_state_kept:
  fixes api :: "'w api"
  assumes api: "keeps trace api" and n: "n \<in> {j_name j @ ''-in'', j_name j @ ''-out''}"
    and f: "\<And>copied. preserves (kept (advance_law now j) (Saw_stage n copied # seen) tr) (f copied)"
  shows "preserves (kept (advance_law now j) seen tr) (bindm (stage_state api n) f)"
proof (rule preserves_wp)
  fix s :: "'w gateway"
  assume s: "kept (advance_law now j) seen tr s"
  have saw: "advance_law now j seen (Saw_stage n copied)" for copied using n by (auto simp: advance_law_def)
  have "wp (f copied) (\<lambda>_. kept (advance_law now j) seen tr) (\<lambda>_. kept (advance_law now j) seen tr)
      (t\<lparr>trace := Saw_stage n copied # trace t\<rparr>)" if "kept (advance_law now j) seen tr t" for copied and t :: "'w gateway"
    by (rule wp_preserves [OF f advancing.kept_cons [OF saw that]]) (auto intro: kept_weaken)
  then show "wp (bindm (stage_state api n) f) (\<lambda>_. kept (advance_law now j) seen tr)
      (\<lambda>_. kept (advance_law now j) seen tr) s"
    unfolding stage_state_def wp_bindm
    by (intro wp_preserves [OF kept_holds [OF keeps_calls(36) [OF api]] s]) (simp_all add: wp_simps split: prod.split)
qed

lemma set_stage_kept:
  assumes api: "keeps trace api"
    and law: "\<And>since. advance_law now j seen (Nrp_patch (j_name j0) ((STAGE_ANNOTATION, stage) # extra) since None)"
    and f: "\<And>t. preserves (kept (advance_law now j) seen tr)
      (f (j0\<lparr>j_annotations := dict_updates (j_annotations j0) ((STAGE_ANNOTATION, stage) # extra), j_since := Some (stamp t)\<rparr>))"
  shows "preserves (kept (advance_law now j) seen tr) (bindm (set_stage api j0 stage extra) f)"
  unfolding set_stage_def Let_def bindm_assoc bindm_ret
  by (intro pres_intros nrp_patch_kept advance_calls holds_intros api law f)

lemma stop_nrp_kept:
  assumes "keeps trace api" "nrp_stage j \<in> {''inputs'', ''placing'', ''running''}"
  shows "preserves (kept (advance_law now j) seen tr) (stop_nrp api j why)"
proof -
  have w: "preserves (kept (advance_law now j) seen tr)
      (whenm (\<not> job_ended j) (nrp_patch api (j_name j) [] None (Some True)))"
    by (intro pres_intros nrp_patch_kept assms(1)) (simp add: advance_law_def patch_law_def)
  show ?thesis
    unfolding stop_nrp_def Let_def
    by (intro preserves_bindm [OF w] set_stage_kept assms(1) pres_intros)
       (use assms(2) in \<open>auto simp: advance_law_def patch_law_def has_outputs_def annotation_keys\<close>)
qed

lemma resume_nrp_kept:
  assumes "keeps trace api" "nrp_stage j = ''placing''
      \<or> nrp_stage j = ''inputs'' \<and> Saw_stage (j_name j @ ''-in'') (Some ''succeeded'') \<in> set seen"
  shows "preserves (kept (advance_law now j) seen tr) (resume_nrp api j)"
  unfolding resume_nrp_def
  by (intro pres_intros nrp_patch_kept advance_calls holds_intros assms(1))
     (use assms(2) in \<open>auto simp: advance_law_def patch_law_def\<close>)

lemma delete_nrp_kept:
  assumes "keeps trace api" "over j" "now - since_of j \<ge> JOB_RECORD_S"
  shows "preserves (kept (advance_law now j) seen tr) (delete_nrp api (j_name j))"
  unfolding delete_nrp_def delete_prefix_def
  by (intro advancing.kept_emit_then pres_intros advancing.kept_emit advance_calls holds_intros kept_modify assms(1))
     (use assms(2,3) in \<open>auto simp: advance_law_def\<close>)

lemma finish_nrp_kept:
  assumes api: "keeps trace api" and j0: "j_name j0 = j_name j"
    and code: "map_of (j_annotations j0) OUTPUT_ANNOTATION \<noteq> Some OUTPUT_FAILED \<Longrightarrow> copied_back j seen
      \<or> over j \<and> map_of (j_annotations j) OUTPUT_ANNOTATION \<noteq> Some OUTPUT_FAILED"
    and old: "now - since \<ge> JOB_RECORD_S \<Longrightarrow> over j \<and> since = since_of j"
  shows "preserves (kept (advance_law now j) seen tr) (finish_nrp api j0 now since)"
proof -
  have code': "advance_law now j seen (Code_delete (code_prefix (j_name j)))"
    if "map_of (j_annotations j0) OUTPUT_ANNOTATION \<noteq> Some OUTPUT_FAILED"
    using code [OF that] by (auto simp: advance_law_def)
  show ?thesis
    unfolding finish_nrp_def delete_prefix_def j0
    by (intro pres_intros advancing.kept_emit advance_calls holds_intros kept_modify delete_nrp_kept api)
       (use code' old in auto)
qed

lemma output_after:
  "map_of (dict_updates d [(STAGE_ANNOTATION, stage)]) OUTPUT_ANNOTATION = map_of d OUTPUT_ANNOTATION"
  "map_of (dict_updates d [(STAGE_ANNOTATION, stage), (OUTPUT_ANNOTATION, v)]) OUTPUT_ANNOTATION = Some v"
  by (simp_all add: dict_updates_def update_conv' annotation_keys)

lemma advance_outputs_kept:
  assumes api: "keeps trace api" and j0: "j_name j0 = j_name j" "stage_rank (nrp_stage j) \<le> 3"
  shows "preserves (kept (advance_law now j) seen tr) (advance_outputs api j0 now)"
  unfolding advance_outputs_def j0(1)
proof (rule stage_state_kept [OF api], goal_cases)
  case (2 copied)
  let ?seen = "Saw_stage (j_name j @ ''-out'') copied # seen"
  let ?failed = "if copied \<noteq> Some ''succeeded'' then [(OUTPUT_ANNOTATION, OUTPUT_FAILED)] else []"
  have rank: "stage_rank (nrp_stage j) \<le> stage_rank ''done''" by simp
  have law: "advance_law now j ?seen (Nrp_patch (j_name j0) ((STAGE_ANNOTATION, ''done'') # ?failed) since None)" for since
    using j0(1) rank by (simp add: advance_law_def patch_law_def copied_back_def del: stage_rank.simps) (simp add: annotation_keys)
  have last: "preserves (kept (advance_law now j) ?seen tr) (finish_nrp api (j0\<lparr>j_annotations := dict_updates (j_annotations j0)
      ((STAGE_ANNOTATION, ''done'') # ?failed), j_since := Some (stamp t)\<rparr>) now now)" for t
    by (rule finish_nrp_kept [OF api]) (auto simp: j0(1) output_after copied_back_def JOB_RECORD_S_def)
  show ?case
    by (intro preserves_if set_stage_kept api law last pres_intros advancing.kept_emit advance_calls holds_intros)
       (simp add: advance_law_def)
qed simp

lemma advance_running_kept:
  assumes api: "keeps trace api" and stage: "nrp_stage j = ''running''" "since = since_of j"
  shows "preserves (kept (advance_law now j) seen tr) (advance_running api j now since)"
proof -
  have law: "advance_law now j seen (Nrp_patch (j_name j) [(STAGE_ANNOTATION, after)] t None)"
    if "after = ''outputs'' \<or> after = ''done'' \<and> \<not> has_outputs j" for after t
    using that stage(1) by (auto simp: advance_law_def patch_law_def)
  have idle: "holds trace (idle_utilization api j now)"
    unfolding idle_utilization_def Let_def by (intro holds_intros api)
  have finish: "preserves (kept (advance_law now j) seen tr) (finish_nrp api
      (j\<lparr>j_annotations := dict_updates (j_annotations j) [(STAGE_ANNOTATION, ''done'')], j_since := Some (stamp t)\<rparr>) now since)"
    if "job_ended j" "\<not> has_outputs j" for t
    by (rule finish_nrp_kept [OF api]) (use that stage in \<open>auto simp: output_after over_def\<close>)
  show ?thesis
    unfolding advance_running_def
    by (intro preserves_if set_stage_kept api law advance_outputs_kept finish preserves_bindm [OF kept_holds [OF idle]]
        preserves_option pres_intros stop_nrp_kept) (simp_all add: stage has_outputs_def)
qed

lemma advance_nrp_kept:
  assumes api: "keeps trace api"
  shows "wp (advance_nrp api j) (\<lambda>_. kept (advance_law (fst (wall api s)) j) [] (trace s))
    (\<lambda>_. kept (advance_law (fst (wall api s)) j) [] (trace s)) s"
proof -
  let ?now = "fst (wall api s)" and ?t = "snd (wall api s)"
  let ?I = "\<lambda>seen. kept (advance_law ?now j) seen (trace s)"
  have inputs: "preserves (?I []) (bindm (stage_state api (j_name j @ ''-in'')) (\<lambda>copied.
        if copied \<in> {Some ''failed'', None} then stop_nrp api j STOPPED_INPUTS
        else if copied = Some ''succeeded'' then bindm (resume_nrp api j) (\<lambda>_. ret ())
        else ret ()))" if "nrp_stage j = ''inputs''"
    by (intro stage_state_kept api preserves_if stop_nrp_kept preserves_bindm resume_nrp_kept pres_intros)
       (simp_all add: that)
  have finish: "preserves (?I []) (finish_nrp api j ?now (since_of j))"
    if "nrp_stage j \<notin> {''inputs'', ''placing'', ''running'', ''outputs''}"
    by (rule finish_nrp_kept [OF api]) (use that in \<open>simp_all add: over_def\<close>)
  have start: "?I [] ?t" using keeps_calls(2) [OF api] by (simp add: kept_def holds_def)
  have pre: "preserves (?I []) (if nrp_stage j = ''inputs'' then
        bindm (stage_state api (j_name j @ ''-in'')) (\<lambda>copied.
        if copied \<in> {Some ''failed'', None} then stop_nrp api j STOPPED_INPUTS
        else if copied = Some ''succeeded'' then bindm (resume_nrp api j) (\<lambda>_. ret ())
        else ret ())
      else if nrp_stage j = ''placing'' then bindm (resume_nrp api j) (\<lambda>_. ret ())
      else if nrp_stage j = ''running'' then advance_running api j ?now (since_of j)
      else if nrp_stage j = ''outputs'' then advance_outputs api j ?now
      else if nrp_stage j = ''done'' then finish_nrp api j ?now (since_of j)
      else ret ())"
    by (intro preserves_if inputs finish advance_running_kept advance_outputs_kept preserves_bindm resume_nrp_kept api
        preserves_ret) simp_all
  show ?thesis
    unfolding advance_nrp_def Let_def since_of_def [symmetric] wp_bindm wp_now_w
    by (rule wp_preserves [OF pre start])
qed


definition example_nrp_job :: rayjob where
  "example_nrp_job = example_job\<lparr>j_annotations := [(STAGE_ANNOTATION, ''outputs''), (OUTPUT_ANNOTATION, ''true'')],
     j_status := ''SUCCEEDED'', j_ran := Some 0\<rparr>"


end
