(* ===== verification/NRP_Progress.thy ===== *)
theory NRP_Progress
  imports Gateway_NRP
begin

text \<open>
  The progress of a job on NRP over many passes: which changes of its record a pass or a call to stop it may ask
  for, and from these that its stage never goes back and that a client sees it ended only once its outputs are back.
\<close>

subsection \<open>A job's progress\<close>

text \<open>The changes of a record a coroutine asks for, oldest first, without their time.\<close>

fun patches :: "event list \<Rightarrow> ((string, string) dict \<times> bool option) list" where
  "patches [] = []"
| "patches (e # past) = patches past @ (case e of Nrp_patch n ann since suspend \<Rightarrow> [(ann, suspend)] | _ \<Rightarrow> [])"

definition asked :: "event list \<Rightarrow> ((string, string) dict \<times> bool option) list \<Rightarrow> 'w gateway \<Rightarrow> bool" where
  "asked tr ps t \<longleftrightarrow> (\<exists>es. trace t = es @ tr \<and> patches es = ps)"

lemma asked_start: "asked (trace s) [] s"
  by (simp add: asked_def)

lemma asked_holds: "holds trace m \<Longrightarrow> preserves (asked tr ps) m"
  by (erule preserves_holds) (simp add: asked_def)

lemma asked_emit: "patches [e] = [] \<Longrightarrow> preserves (asked tr ps) (emit e)"
  by (rule preserves_emit) (force simp: asked_def intro: exI [of _ "e # _"])

lemma nrp_patch_asked:
  assumes "keeps trace api" "asked tr ps s"
  shows "wp (nrp_patch api n ann since suspend) (\<lambda>_. asked tr (ps @ [(ann, suspend)])) (\<lambda>_. asked tr (ps @ [(ann, suspend)])) s"
proof -
  have new: "asked tr (ps @ [(ann, suspend)]) (s\<lparr>trace := Nrp_patch n ann since suspend # trace s\<rparr>)"
    using assms(2) by (force simp: asked_def intro: exI [of _ "Nrp_patch n ann since suspend # _"])
  show ?thesis
    unfolding nrp_patch_def wp_bindm wp_emit
    by (rule wp_preserves [OF asked_holds [OF keeps_calls(30) [OF assms(1)]] new]) (simp_all add: wp_simps)
qed

lemma clock_asked:
  "keeps trace api \<Longrightarrow> (\<And>now t. asked tr ps t \<Longrightarrow> wp (f now) R X t) \<Longrightarrow> asked tr ps s \<Longrightarrow> wp (bindm (now_w api) f) R X s"
  using keeps_calls(2) [of trace api] by (simp add: wp_simps holds_def asked_def)

lemma set_stage_asked:
  assumes "keeps trace api" "asked tr ps s"
  shows "wp (set_stage api j stage extra)
    (\<lambda>j' t. asked tr (ps @ [((STAGE_ANNOTATION, stage) # extra, None)]) t \<and> j_name j' = j_name j)
    (\<lambda>_. asked tr (ps @ [((STAGE_ANNOTATION, stage) # extra, None)])) s"
  unfolding set_stage_def Let_def
  by (intro clock_asked [OF assms(1)], unfold wp_bindm, rule wp_mono [OF nrp_patch_asked [OF assms(1)]])
     (use assms(2) in \<open>simp_all add: wp_simps\<close>)

definition stop_patch :: "rayjob \<Rightarrow> string \<Rightarrow> (string, string) dict \<times> bool option" where
  "stop_patch j why = ([(STAGE_ANNOTATION, if has_outputs j \<and> j_ran j \<noteq> None then ''outputs'' else ''done''),
     (STOPPED_ANNOTATION, why)], None)"

definition stop_plan :: "rayjob \<Rightarrow> ((string, string) dict \<times> bool option) list \<Rightarrow> bool" where
  "stop_plan j ps \<longleftrightarrow> \<not> job_ended j \<and> ps = [([], Some True)]
     \<or> (\<exists>why. ps = (if job_ended j then [] else [([], Some True)]) @ [stop_patch j why])"

lemma stop_nrp_asked:
  assumes "keeps trace api" "asked tr [] s"
  shows "wp (stop_nrp api j why) (\<lambda>_ t. \<exists>ps. stop_plan j ps \<and> asked tr ps t) (\<lambda>_ t. \<exists>ps. stop_plan j ps \<and> asked tr ps t) s"
proof -
  let ?P = "\<lambda>_ t. \<exists>ps. stop_plan j ps \<and> asked tr ps t"
  let ?ps = "if job_ended j then [] else [([], Some True)]"
  have first: "wp (whenm (\<not> job_ended j) (nrp_patch api (j_name j) [] None (Some True))) (\<lambda>_. asked tr ?ps)
      (\<lambda>_ t. \<not> job_ended j \<and> asked tr [([], Some True)] t) s"
    unfolding wp_whenm by (cases "job_ended j") (use nrp_patch_asked [OF assms] assms(2) in \<open>auto elim: wp_mono\<close>)
  have "wp (set_stage api j (if has_outputs j \<and> j_ran j \<noteq> None then ''outputs'' else ''done'') [(STOPPED_ANNOTATION, why)])
      (\<lambda>_. ?P e) (\<lambda>_. ?P e) t" if "asked tr ?ps t" for t and e :: unit
    by (rule wp_mono [OF set_stage_asked [OF assms(1) that]]) (auto simp: stop_plan_def stop_patch_def)
  then show ?thesis
    unfolding stop_nrp_def Let_def wp_bindm wp_ret has_outputs_def [symmetric]
    by (intro wp_mono [OF first]) (auto simp: stop_plan_def)
qed

definition done_patch :: "(string, string) dict \<times> bool option \<Rightarrow> bool" where
  "done_patch p \<longleftrightarrow> p \<in> {([(STAGE_ANNOTATION, ''done'')], None), ([(STAGE_ANNOTATION, ''done''), (OUTPUT_ANNOTATION, OUTPUT_FAILED)], None)}"

text \<open>What a pass over a job may ask for, as a whole.\<close>

definition pass_plan :: "rayjob \<Rightarrow> ((string, string) dict \<times> bool option) list \<Rightarrow> bool" where
  "pass_plan j ps \<longleftrightarrow> ps = []
     \<or> nrp_stage j \<in> {''inputs'', ''running''} \<and> stop_plan j ps
     \<or> nrp_stage j \<in> {''inputs'', ''placing''} \<and> ps = [([(STAGE_ANNOTATION, ''running'')], Some False)]
     \<or> nrp_stage j = ''running'' \<and> job_ended j \<and> (if has_outputs j
         then ps = [([(STAGE_ANNOTATION, ''outputs'')], None)]
           \<or> (\<exists>p. done_patch p \<and> ps = [([(STAGE_ANNOTATION, ''outputs'')], None), p])
         else ps = [([(STAGE_ANNOTATION, ''done'')], None)])
     \<or> nrp_stage j = ''outputs'' \<and> (\<exists>p. done_patch p \<and> ps = [p])"

lemma finish_nrp_asked: "keeps trace api \<Longrightarrow> preserves (asked tr ps) (finish_nrp api j now since)"
  unfolding finish_nrp_def delete_nrp_def delete_prefix_def
  by (intro pres_intros asked_emit asked_holds [of "bucket_delete _ _"] asked_holds [of "nrp_remove _ _"]
      asked_holds [of "delete_stage _ _"] holds_intros; simp add: asked_def)

lemma stage_state_asked: "keeps trace api \<Longrightarrow> preserves (asked tr ps) (stage_state api n)"
  unfolding stage_state_def by (intro pres_intros asked_emit asked_holds [of "get_stage _ _"] holds_intros; simp)

lemma advance_outputs_asked:
  assumes api: "keeps trace api" and s: "asked tr ps s"
    and P: "P ps" "\<And>p. done_patch p \<Longrightarrow> P (ps @ [p])"
  shows "wp (advance_outputs api j now) (\<lambda>_ t. \<exists>ps. P ps \<and> asked tr ps t) (\<lambda>_ t. \<exists>ps. P ps \<and> asked tr ps t) s"
proof -
  let ?R = "\<lambda>t. \<exists>ps. P ps \<and> asked tr ps t"
  have same: "asked tr ps t \<Longrightarrow> ?R t" for t using P(1) by blast
  have resume: "preserves (asked tr ps) (bindm (emit (Stage_resume n)) (\<lambda>_. bindm (resume_stage api n) (\<lambda>_. ret ())))" for n
    by (intro pres_intros asked_emit asked_holds [of "resume_stage _ _"] holds_intros api) simp
  have final: "done_patch ((STAGE_ANNOTATION, ''done'') # (if copied \<noteq> Some ''succeeded''
      then [(OUTPUT_ANNOTATION, OUTPUT_FAILED)] else []), None)" for copied
    by (simp add: done_patch_def)
  have last: "wp (bindm (set_stage api j ''done'' (if copied \<noteq> Some ''succeeded'' then [(OUTPUT_ANNOTATION, OUTPUT_FAILED)] else []))
      (\<lambda>j'. finish_nrp api j' now now)) (\<lambda>_. ?R) (\<lambda>_. ?R) t" if t: "asked tr ps t" for copied t
    unfolding wp_bindm
  proof (rule wp_mono [OF set_stage_asked [OF api t]], goal_cases)
    case (1 j' u)
    then show ?case using P(2) [OF final] by (intro wp_preserves [OF finish_nrp_asked [OF api]]) blast+
  qed (use P(2) [OF final] in blast)
  show ?thesis
    unfolding advance_outputs_def wp_bindm [of "stage_state _ _"]
    by (rule wp_preserves [OF stage_state_asked [OF api] s])
       (auto simp: wp_ret intro: same last [of _ None, simplified] last [of _ "Some ''succeeded''", simplified]
         wp_preserves [OF resume])
qed

lemma advance_running_asked:
  assumes api: "keeps trace api" and s: "asked tr [] s" and stage: "nrp_stage j = ''running''"
  shows "wp (advance_running api j now since) (\<lambda>_ t. \<exists>ps. pass_plan j ps \<and> asked tr ps t)
    (\<lambda>_ t. \<exists>ps. pass_plan j ps \<and> asked tr ps t) s"
proof -
  let ?R = "\<lambda>_ t. \<exists>ps. pass_plan j ps \<and> asked tr ps t"
  have none: "asked tr [] t \<Longrightarrow> ?R e t" for t and e :: unit by (auto simp: pass_plan_def)
  have stop: "wp (stop_nrp api j why) ?R ?R t" if "asked tr [] t" for why t
    by (rule wp_mono [OF stop_nrp_asked [OF api that]]) (use stage in \<open>auto simp: pass_plan_def\<close>)
  have outputs: "wp (bindm (set_stage api j ''outputs'' []) (\<lambda>j'. advance_outputs api j' now)) ?R ?R s"
    if "job_ended j" "has_outputs j"
    unfolding wp_bindm
  proof (rule wp_mono [OF set_stage_asked [OF api s]], goal_cases)
    case (1 j' t)
    then show ?case by (intro advance_outputs_asked [OF api]) (use that stage in \<open>auto simp: pass_plan_def\<close>)
  qed (use that stage in \<open>auto simp: pass_plan_def\<close>)
  have finish: "wp (bindm (set_stage api j ''done'' []) (\<lambda>j'. finish_nrp api j' now since)) ?R ?R s"
    if "job_ended j" "\<not> has_outputs j"
    unfolding wp_bindm
  proof (rule wp_mono [OF set_stage_asked [OF api s]], goal_cases)
    case (1 j' t)
    then show ?case
      by (intro wp_preserves [OF finish_nrp_asked [OF api]]) (use that stage in \<open>auto simp: pass_plan_def\<close>)
  qed (use that stage in \<open>auto simp: pass_plan_def\<close>)
  have idle: "wp (bindm (idle_utilization api j now) (\<lambda>found. case found of None \<Rightarrow> ret ()
      | Some u \<Rightarrow> stop_nrp api j (STOPPED_IDLE u (NRP_UTILIZATION_WINDOW_S div 60) NRP_MIN_UTILIZATION))) ?R ?R s"
    unfolding wp_bindm
    by (rule wp_preserves [OF asked_holds [of "idle_utilization _ _ _"] s])
       (auto simp: idle_utilization_def Let_def wp_ret intro: stop none intro!: holds_intros api split: option.split)
  show ?thesis
    unfolding advance_running_def has_outputs_def [symmetric] using stop [OF s] outputs finish idle by simp
qed

lemma advance_nrp_asked:
  assumes api: "keeps trace api"
  shows "wp (advance_nrp api j) (\<lambda>_ t. \<exists>ps. pass_plan j ps \<and> asked (trace s) ps t)
    (\<lambda>_ t. \<exists>ps. pass_plan j ps \<and> asked (trace s) ps t) s"
proof -
  let ?R = "\<lambda>_ t. \<exists>ps. pass_plan j ps \<and> asked (trace s) ps t"
  have none: "asked (trace s) [] t \<Longrightarrow> ?R e t" for t and e :: unit by (auto simp: pass_plan_def)
  have resume: "wp (bindm (resume_nrp api j) (\<lambda>_. ret ())) ?R ?R t"
    if "asked (trace s) [] t" "nrp_stage j = ''inputs'' \<or> nrp_stage j = ''placing''" for t
    unfolding resume_nrp_def bindm_assoc
    by (intro clock_asked [OF api _ that(1)], unfold wp_bindm, rule wp_mono [OF nrp_patch_asked [OF api]], assumption)
       (use that(2) in \<open>auto simp: wp_simps pass_plan_def\<close>)
  have stop: "wp (stop_nrp api j why) ?R ?R t" if "asked (trace s) [] t" "nrp_stage j = ''inputs''" for why t
    by (rule wp_mono [OF stop_nrp_asked [OF api that(1)]]) (use that in \<open>auto simp: pass_plan_def\<close>)
  have inputs: "wp (bindm (stage_state api (j_name j @ ''-in'')) (\<lambda>copied.
        if copied \<in> {Some ''failed'', None} then stop_nrp api j STOPPED_INPUTS
        else if copied = Some ''succeeded'' then bindm (resume_nrp api j) (\<lambda>_. ret ())
        else ret ())) ?R ?R t" if t: "asked (trace s) [] t" and i: "nrp_stage j = ''inputs''" for t
    unfolding wp_bindm [of "stage_state _ _"]
    by (rule wp_preserves [OF stage_state_asked [OF api] t]) (use i in \<open>auto simp: wp_ret intro: none stop resume\<close>)
  have outputs: "wp (advance_outputs api j now) ?R ?R t" if "asked (trace s) [] t" "nrp_stage j = ''outputs''" for now t
    by (rule advance_outputs_asked [OF api that(1)]) (use that(2) in \<open>auto simp: pass_plan_def\<close>)
  have finish: "wp (finish_nrp api j now since) ?R ?R t" if "asked (trace s) [] t" for now since t
    by (rule wp_preserves [OF finish_nrp_asked [OF api] that]) (auto intro: none)
  show ?thesis
    unfolding advance_nrp_def Let_def
    by (rule clock_asked [OF api _ asked_start])
       (simp add: wp_ret none inputs outputs finish resume advance_running_asked [OF api] del: insert_iff)
qed

text \<open>What NRP makes of a change: the annotations named are set, the others stay.\<close>

definition patched :: "rayjob \<Rightarrow> (string, string) dict \<times> bool option \<Rightarrow> rayjob" where
  "patched j p = (case p of (ann, suspend) \<Rightarrow> j\<lparr>j_annotations := dict_updates (j_annotations j) ann,
     j_suspend := (case suspend of None \<Rightarrow> j_suspend j | Some b \<Rightarrow> b)\<rparr>)"

text \<open>
  How the record of a job changes: by a pass of the reaper and by a call to stop the job, as far as NRP took
  the changes they asked for, and by what KubeRay reports, which does not take back that a job ended. Each reads
  the record as the last left it.
\<close>

inductive nrp_moves :: "'w itself \<Rightarrow> rayjob \<Rightarrow> rayjob \<Rightarrow> bool" for w :: "'w itself" where
  passed: "keeps trace (api :: 'w api) \<Longrightarrow> advance_nrp api j s = (r, t) \<Longrightarrow> trace t = es @ trace s
    \<Longrightarrow> prefix ps (patches es) \<Longrightarrow> nrp_moves w j (foldl patched j ps)"
| stopped: "keeps trace (api :: 'w api) \<Longrightarrow> nrp_recorded fuel api j ''POST'' ''/stop'' websocket s = (r, t)
    \<Longrightarrow> trace t = es @ trace s \<Longrightarrow> prefix ps (patches es) \<Longrightarrow> nrp_moves w j (foldl patched j ps)"
| reported: "(job_ended j \<Longrightarrow> job_ended (j\<lparr>j_status := status\<rparr>))
    \<Longrightarrow> nrp_moves w j (j\<lparr>j_status := status, j_deployment := deployment, j_message := message, j_head := head,
      j_started := began, j_ended := ended, j_ran := ran_since, j_ran_until := ran_until\<rparr>)"

definition was_stopped :: "rayjob \<Rightarrow> bool" where
  "was_stopped j \<longleftrightarrow> map_of (j_annotations j) STOPPED_ANNOTATION \<noteq> None"

text \<open>A record as the gateway makes it, and one at any time.\<close>

definition staged :: "rayjob \<Rightarrow> bool" where
  "staged j \<longleftrightarrow> map_of (j_annotations j) STAGE_ANNOTATION = Some (nrp_stage j)"

definition posted :: "rayjob \<Rightarrow> bool" where
  "posted j \<longleftrightarrow> staged j \<and> nrp_stage j \<in> {''inputs'', ''running''} \<and> \<not> was_stopped j \<and> \<not> job_ended j
     \<and> map_of (j_annotations j) OUTPUT_ANNOTATION \<noteq> Some OUTPUT_FAILED"

definition nrp_ok :: "rayjob \<Rightarrow> bool" where
  "nrp_ok j \<longleftrightarrow> staged j \<and> nrp_stage j \<in> {''inputs'', ''running'', ''outputs'', ''done''}
     \<and> (nrp_stage j \<in> {''outputs'', ''done''} \<longrightarrow> job_ended j \<or> was_stopped j)
     \<and> (was_stopped j \<longrightarrow> nrp_stage j \<in> {''outputs'', ''done''})
     \<and> (map_of (j_annotations j) OUTPUT_ANNOTATION = Some OUTPUT_FAILED \<longrightarrow> nrp_stage j = ''done'')"

lemma map_of_updates_Cons [simp]:
  "dict_updates d [] = d" "dict_updates d ((k, v) # kvs) = dict_updates (AList.update k v d) kvs"
  by (simp_all add: dict_updates_def)

lemma patched_stage:
  "nrp_stage (patched j ([], b)) = nrp_stage j" "was_stopped (patched j ([], b)) = was_stopped j"
  "nrp_stage (patched j ((STAGE_ANNOTATION, stage) # [], b)) = or_else stage ''running''"
  "was_stopped (patched j ([(STAGE_ANNOTATION, stage)], b)) = was_stopped j"
  "nrp_stage (patched j ([(STAGE_ANNOTATION, stage), (STOPPED_ANNOTATION, why)], b)) = or_else stage ''running''"
  "was_stopped (patched j ([(STAGE_ANNOTATION, stage), (STOPPED_ANNOTATION, why)], b))"
  "nrp_stage (patched j ([(STAGE_ANNOTATION, stage), (OUTPUT_ANNOTATION, x)], b)) = or_else stage ''running''"
  "was_stopped (patched j ([(STAGE_ANNOTATION, stage), (OUTPUT_ANNOTATION, x)], b)) = was_stopped j"
  "job_ended (patched j p) = job_ended j"
  "staged (patched j ([], b)) = staged j"
  "staged (patched j ([(STAGE_ANNOTATION, stage)], b)) \<longleftrightarrow> stage \<noteq> []"
  "staged (patched j ([(STAGE_ANNOTATION, stage), (STOPPED_ANNOTATION, why)], b)) \<longleftrightarrow> stage \<noteq> []"
  "staged (patched j ([(STAGE_ANNOTATION, stage), (OUTPUT_ANNOTATION, x)], b)) \<longleftrightarrow> stage \<noteq> []"
  by (simp_all add: patched_def nrp_stage_def was_stopped_def staged_def or_else_def dict_get_def update_conv' annotation_keys job_ended_def
      split: prod.split)

lemma patched_output:
  "map_of (j_annotations (patched j ([], b))) OUTPUT_ANNOTATION = map_of (j_annotations j) OUTPUT_ANNOTATION"
  "map_of (j_annotations (patched j ([(STAGE_ANNOTATION, stage)], b))) OUTPUT_ANNOTATION = map_of (j_annotations j) OUTPUT_ANNOTATION"
  "map_of (j_annotations (patched j ([(STAGE_ANNOTATION, stage), (STOPPED_ANNOTATION, why)], b))) OUTPUT_ANNOTATION
    = map_of (j_annotations j) OUTPUT_ANNOTATION"
  by (simp_all add: patched_def update_conv' annotation_keys)

lemma prefix_two: "prefix ps [a, b] \<longleftrightarrow> ps = [] \<or> ps = [a] \<or> ps = [a, b]"
  by (cases ps) (auto simp: prefix_Cons)

lemma prefix_one: "prefix ps [a] \<longleftrightarrow> ps = [] \<or> ps = [a]"
  by (cases ps) (auto simp: prefix_Cons)

lemmas patch_facts = patched_stage patched_output nrp_ok_def or_else_def

lemma suspended_ok: "nrp_ok j \<Longrightarrow> nrp_ok (patched j ([], b))"
  by (simp add: patch_facts)

lemma stop_patch_ok:
  assumes "nrp_ok j" "nrp_stage j \<in> {''inputs'', ''running''}"
  shows "nrp_ok (patched j (stop_patch j0 why))"
    and "nrp_stage (patched j (stop_patch j0 why)) \<in> {''outputs'', ''done''}"
  using assms by (simp_all add: stop_patch_def patch_facts) auto

lemma stop_plan_ok:
  assumes "stop_plan j qs" "prefix ps qs" "nrp_ok j" "nrp_stage j \<in> {''inputs'', ''running''}"
  shows "nrp_ok (foldl patched j ps) \<and> stage_rank (nrp_stage j) \<le> stage_rank (nrp_stage (foldl patched j ps))"
proof -
  let ?k = "patched j ([], Some True)"
  have low: "stage_rank (nrp_stage j) \<le> stage_rank stage" if "stage \<in> {''outputs'', ''done''}" for stage
    using that assms(4) by auto
  have k: "nrp_ok ?k" "nrp_stage ?k = nrp_stage j" using suspended_ok [OF assms(3)] by (simp_all add: patched_stage)
  note one = stop_patch_ok [OF assms(3,4), of j] and two = stop_patch_ok [OF k(1), of j]
  have "\<exists>why. ps \<in> {[], [([], Some True)], [stop_patch j why], [([], Some True), stop_patch j why]}"
    using assms(1,2) unfolding stop_plan_def by (cases "job_ended j") (auto simp: prefix_two prefix_one)
  then obtain why where "ps \<in> {[], [([], Some True)], [stop_patch j why], [([], Some True), stop_patch j why]}" ..
  then consider "ps = []" | "ps = [([], Some True)]" | "ps = [stop_patch j why]" | "ps = [([], Some True), stop_patch j why]"
    by blast
  then show ?thesis
  proof cases
    case 3
    then show ?thesis using one(1) low [OF one(2)] by simp
  next
    case 4
    then show ?thesis using two(1) low [OF two(2)] assms(4) k(2) by (simp del: stage_rank.simps)
  qed (use assms(3) k in simp_all)
qed

lemma done_patch_ok:
  assumes "nrp_ok j" "job_ended j \<or> was_stopped j" "done_patch p"
  shows "nrp_ok (patched j p)" "nrp_stage (patched j p) = ''done''"
  using assms by (auto simp: done_patch_def patch_facts)

lemma outputs_patch_ok:
  assumes "nrp_ok j" "job_ended j" "nrp_stage j = ''running''"
  shows "nrp_ok (patched j ([(STAGE_ANNOTATION, ''outputs'')], None))"
  using assms by (auto simp: patch_facts)

lemma resume_patch_ok:
  assumes "nrp_ok j" "nrp_stage j = ''inputs''"
  shows "nrp_ok (patched j ([(STAGE_ANNOTATION, ''running'')], b))"
  using assms by (auto simp: patch_facts)

lemma pass_plan_ok:
  assumes "pass_plan j qs" "prefix ps qs" "nrp_ok j"
  shows "nrp_ok (foldl patched j ps) \<and> stage_rank (nrp_stage j) \<le> stage_rank (nrp_stage (foldl patched j ps))"
proof -
  let ?outputs = "([(STAGE_ANNOTATION, ''outputs'')], None :: bool option)"
  let ?done = "([(STAGE_ANNOTATION, ''done'')], None :: bool option)"
  let ?goal = "nrp_ok (foldl patched j ps) \<and> stage_rank (nrp_stage j) \<le> stage_rank (nrp_stage (foldl patched j ps))"
  have nil: ?goal if "ps = []" using that assms(3) by simp
  have final: ?goal if "ps = [p]" "done_patch p" "nrp_stage j = ''outputs''" for p
    using that done_patch_ok [OF assms(3) _ that(2)] assms(3) by (auto simp: nrp_ok_def)
  have running: ?goal if st: "nrp_stage j = ''running''" "job_ended j"
    and ps: "ps = [?outputs] \<or> ps = [?done] \<or> ps = [?outputs, p] \<and> done_patch p" for p
  proof -
    note out = outputs_patch_ok [OF assms(3) st(2,1)]
    have "nrp_ok (patched j ?done) \<and> nrp_stage (patched j ?done) = ''done''"
      using done_patch_ok [OF assms(3), of ?done] st(2) by (simp add: done_patch_def)
    moreover have "nrp_ok (patched (patched j ?outputs) p) \<and> nrp_stage (patched (patched j ?outputs) p) = ''done''"
      if "done_patch p" using done_patch_ok [OF out _ that] st(2) by (simp add: patched_stage)
    ultimately show ?thesis using ps st(1) out by (auto simp: patched_stage or_else_def)
  qed
  have resume: ?goal if "nrp_stage j = ''inputs''" "ps = [([(STAGE_ANNOTATION, ''running'')], Some False)]"
    using that resume_patch_ok [OF assms(3) that(1)] by simp
  have placing: "nrp_stage j \<noteq> ''placing''" using assms(3) by (auto simp: nrp_ok_def)
  show ?thesis
    using assms(1) unfolding pass_plan_def
  proof (elim disjE conjE exE, goal_cases)
    case 2
    then show ?case using stop_plan_ok [OF _ assms(2,3)] by blast
  next
    case 4
    have "done_patch ?done" by (simp add: done_patch_def)
    then show ?case using 4 assms(2) nil running by (auto simp: prefix_one prefix_two split: if_splits)
  qed (use assms(2) placing nil final resume in \<open>auto simp: prefix_one\<close>)
qed

lemma recorded_stop_asked:
  assumes api: "keeps trace api"
  shows "wp (nrp_recorded fuel api j ''POST'' ''/stop'' websocket)
    (\<lambda>_ t. \<exists>ps. (ps = [] \<or> \<not> job_ended j \<and> \<not> was_stopped j \<and> stop_plan j ps) \<and> asked (trace s) ps t)
    (\<lambda>_ t. \<exists>ps. (ps = [] \<or> \<not> job_ended j \<and> \<not> was_stopped j \<and> stop_plan j ps) \<and> asked (trace s) ps t) s"
proof -
  have "wp (stop_nrp api j STOPPED_BY_USER)
      (\<lambda>_ t. \<exists>ps. (ps = [] \<or> \<not> job_ended j \<and> \<not> was_stopped j \<and> stop_plan j ps) \<and> asked (trace s) ps t)
      (\<lambda>_ t. \<exists>ps. (ps = [] \<or> \<not> job_ended j \<and> \<not> was_stopped j \<and> stop_plan j ps) \<and> asked (trace s) ps t) s"
    if "\<not> job_ended j" "\<not> was_stopped j"
    by (rule wp_mono [OF stop_nrp_asked [OF api asked_start]]) (use that in auto)
  then show ?thesis
    unfolding nrp_recorded_def Let_def
    by (auto simp: wp_bindm wp_whenm wp_ret was_stopped_def asked_start intro: exI [of _ "[]"])
qed

lemma asked_trace: "asked tr ps t \<Longrightarrow> trace t = es @ tr \<Longrightarrow> patches es = ps"
  by (auto simp: asked_def)

lemma nrp_moves_ok:
  assumes "nrp_moves w j k" "nrp_ok j"
  shows "nrp_ok k \<and> stage_rank (nrp_stage j) \<le> stage_rank (nrp_stage k)"
  using assms
proof cases
  case (passed api s r t es ps)
  have "\<exists>qs. pass_plan j qs \<and> asked (trace s) qs t"
    using advance_nrp_asked [OF passed(2), of j s] passed(3) by (cases r) (auto simp: wp_def)
  then obtain qs where qs: "pass_plan j qs" "asked (trace s) qs t" by blast
  then have "patches es = qs" using asked_trace passed(4) by blast
  then show ?thesis using pass_plan_ok [OF qs(1) _ assms(2), of ps] passed(1,5) by simp
next
  case (stopped api fuel websocket s r t es ps)
  have "\<exists>qs. (qs = [] \<or> \<not> job_ended j \<and> \<not> was_stopped j \<and> stop_plan j qs) \<and> asked (trace s) qs t"
    using recorded_stop_asked [OF stopped(2), of fuel j websocket s] stopped(3) by (cases r) (auto simp: wp_def)
  then obtain qs where qs: "qs = [] \<or> \<not> job_ended j \<and> \<not> was_stopped j \<and> stop_plan j qs" "patches es = qs"
    using stopped(4) asked_trace by blast
  have "nrp_stage j \<in> {''inputs'', ''running''}" if "\<not> job_ended j" "\<not> was_stopped j"
    using that assms(2) by (auto simp: nrp_ok_def)
  then show ?thesis using qs stop_plan_ok [of j qs ps] stopped(1,5) assms(2) by auto
next
  case (reported status deployment message head began ended ran_since ran_until)
  have "nrp_stage k = nrp_stage j" "was_stopped k = was_stopped j" "staged k = staged j"
    "map_of (j_annotations k) = map_of (j_annotations j)"
    unfolding reported(1) by (simp_all add: nrp_stage_def was_stopped_def staged_def)
  moreover have "job_ended k" if "job_ended j" using reported that by (simp add: job_ended_def)
  ultimately show ?thesis using assms(2) by (simp add: nrp_ok_def del: stage_rank.simps) blast
qed

interpretation nrp_records: monotone_machine posted "nrp_moves w" nrp_ok "\<lambda>j. stage_rank (nrp_stage j)"
proof
  show "nrp_ok j" if "posted j" for j using that by (auto simp: posted_def nrp_ok_def)
qed (blast dest: nrp_moves_ok)+


text \<open>
  A client sees a job on NRP ended only once its outputs are where it asked for them, or with the word that they are
  not. Whatever passes, calls and reports came before: if the Jobs API says that a job with outputs succeeded,
  failed or was stopped, the record has it done, and if the copy failed its message says so.
\<close>

theorem nrp_ended_after_outputs:
  assumes "posted j" "(nrp_moves w)\<^sup>*\<^sup>* j k"
    and "map_of (j_annotations k) OUTPUT_ANNOTATION \<in> {Some ''true'', Some OUTPUT_FAILED}"
    and "fst (job_state k) \<in> {''SUCCEEDED'', ''FAILED'', ''STOPPED''}"
  shows "nrp_stage k = ''done''
    \<and> (map_of (j_annotations k) OUTPUT_ANNOTATION = Some OUTPUT_FAILED \<longrightarrow> suffix OUTPUT_FAILED (snd (job_state k)))"
proof -
  have ok: "nrp_ok k" using nrp_records.reachable_inv [OF assms(1,2)] .
  have st: "map_of (j_annotations k) STAGE_ANNOTATION = Some (nrp_stage k)" using ok by (simp add: nrp_ok_def staged_def)
  have "nrp_stage k = ''done''"
  proof (rule ccontr)
    assume "nrp_stage k \<noteq> ''done''"
    then consider "nrp_stage k = ''inputs''" | "nrp_stage k = ''outputs''"
      | "nrp_stage k = ''running''" "\<not> was_stopped k" "has_outputs k"
      using ok assms(3) by (auto simp: nrp_ok_def has_outputs_def)
    then show False
    proof cases
      case 3
      then have "fst (job_state k) = or_else (j_status k) ''PENDING'' \<or> fst (job_state k) = ''RUNNING''"
        by (auto simp: job_state_def st was_stopped_def dict_get_def Let_def)
      moreover have "fst (job_state k) = ''RUNNING''" if "job_ended k"
        using that 3 by (simp add: job_state_def st has_outputs_def Let_def)
      ultimately show False using assms(4) by (auto simp: job_ended_def or_else_def split: if_splits)
    qed (use assms(4) in \<open>simp_all add: job_state_def st Let_def\<close>)
  qed
  moreover from this have "suffix OUTPUT_FAILED (snd (job_state k))"
    if "map_of (j_annotations k) OUTPUT_ANNOTATION = Some OUTPUT_FAILED"
    using that by (simp add: job_state_def st Let_def suffix_def)
  ultimately show ?thesis by blast
qed

subsection \<open>An example\<close>

text \<open>A job with outputs that runs and succeeds, and whose outputs could not be copied back.\<close>

definition example_posted :: rayjob where
  "example_posted = example_job\<lparr>j_annotations := [(STAGE_ANNOTATION, ''running''), (OUTPUT_ANNOTATION, ''true'')]\<rparr>"

definition example_ended :: rayjob where
  "example_ended = example_posted\<lparr>j_status := ''SUCCEEDED''\<rparr>"

definition example_over :: rayjob where
  "example_over = example_ended\<lparr>j_annotations := [(STAGE_ANNOTATION, ''done''), (OUTPUT_ANNOTATION, OUTPUT_FAILED)]\<rparr>"

lemma example_posted_ok: "posted example_posted"
  by (simp add: example_posted_def example_job_def posted_def staged_def nrp_stage_def was_stopped_def job_ended_def
      dict_get_def or_else_def annotation_keys)

lemma example_reported: "nrp_moves TYPE(unit) example_posted example_ended"
  using nrp_moves.reported [where j = example_posted and status = "''SUCCEEDED''" and w = "TYPE(unit)" and deployment = "[]"
    and message = "[]" and head = "[]" and began = None and ended = None and ran_since = None and ran_until = None]
  by (simp add: example_posted_def example_ended_def example_job_def job_ended_def)

lemma example_passed: "nrp_moves TYPE(unit) example_ended example_over"
proof -
  let ?ps = "[([(STAGE_ANNOTATION, ''outputs'')], None :: bool option),
     ([(STAGE_ANNOTATION, ''done''), (OUTPUT_ANNOTATION, OUTPUT_FAILED)], None)]"
  obtain r t where run: "advance_nrp (example_api :: unit api) example_ended example_gateway = (r, t)" by fastforce
  then have "trace t = [Nrp_patch ''ray-job-1'' [(STAGE_ANNOTATION, ''done''), (OUTPUT_ANNOTATION, OUTPUT_FAILED)] (Some 0) None,
      Saw_stage ''ray-job-1-out'' None, Nrp_patch ''ray-job-1'' [(STAGE_ANNOTATION, ''outputs'')] (Some 0) None]"
    by (auto simp: advance_nrp_def advance_running_def advance_outputs_def finish_nrp_def set_stage_def nrp_patch_def
        stage_state_def example_ended_def example_posted_def example_job_def example_gateway_def nrp_stage_def or_else_def
        dict_get_def Let_def annotation_keys dict_updates_def stamp_def round_half_even_def JOB_RECORD_S_def job_ended_def run_defs)
  then have "nrp_moves TYPE(unit) example_ended (foldl patched example_ended ?ps)"
    by (intro nrp_moves.passed [OF example_api_keeps run, of "trace t" ?ps]) (simp_all add: example_gateway_def)
  also have "foldl patched example_ended ?ps = example_over"
    by (simp add: patched_def example_ended_def example_posted_def example_over_def example_job_def annotation_keys)
  finally show ?thesis .
qed

lemmas example_moves = r_into_rtranclp [of "nrp_moves TYPE(unit)", OF example_reported]
  r_into_rtranclp [of "nrp_moves TYPE(unit)", OF example_passed]


theorem nrp_ended_after_outputs_witness:
  "fst (job_state example_over) = ''SUCCEEDED'' \<and> nrp_stage example_over = ''done''
   \<and> suffix OUTPUT_FAILED (snd (job_state example_over))"
proof -
  have "map_of (j_annotations example_over) OUTPUT_ANNOTATION = Some OUTPUT_FAILED"
    by (simp add: example_over_def annotation_keys)
  moreover have "fst (job_state example_over) = ''SUCCEEDED''"
    by (simp add: example_over_def example_ended_def example_posted_def example_job_def job_state_def dict_get_def or_else_def
        annotation_keys Let_def)
  ultimately show ?thesis
    using nrp_ended_after_outputs [OF example_posted_ok rtranclp_trans [OF example_moves]] by simp
qed

end
