(* ===== verification/NRP_Findings.thy ===== *)
theory NRP_Findings
  imports NRP_Progress
begin

text \<open>
  Two cases in which the record of a job on NRP does not say what it means to: the record of a long job, which goes as soon
  as the job ends, and a job that is stopped while a pass over it is under way. In both, NRP takes every change
  asked for at once; \<open>swift\<close> says so of the calls.
\<close>

definition swift :: "time \<Rightarrow> 'w api \<Rightarrow> bool" where
  "swift now api \<longleftrightarrow> keeps trace api \<and> wall api = Pair now \<and> (\<forall>n a t b. nrp_change api n a t b = ret 200)
     \<and> (\<forall>key. bucket_delete api key = ret ())"

lemma swift_patch: "swift now api \<Longrightarrow> nrp_patch api n ann since suspend s = (Inr (), s\<lparr>trace := Nrp_patch n ann since suspend # trace s\<rparr>)"
  by (simp add: swift_def nrp_patch_def run_defs)

lemma swift_set_stage:
  "swift now api \<Longrightarrow> set_stage api j stage extra s =
     (Inr (j\<lparr>j_annotations := dict_updates (j_annotations j) ((STAGE_ANNOTATION, stage) # extra), j_since := Some (stamp now)\<rparr>),
      s\<lparr>trace := Nrp_patch (j_name j) ((STAGE_ANNOTATION, stage) # extra) (Some (stamp now)) None # trace s\<rparr>)"
  by (simp add: set_stage_def Let_def bindm_def now_w_def swift_patch ret_def) (simp add: swift_def)

lemma swift_delete_prefix: "swift now api \<Longrightarrow> delete_prefix api key s = (Inr (), s\<lparr>trace := Code_delete key # trace s\<rparr>)"
  by (simp add: swift_def delete_prefix_def run_defs)

lemma bindm_emit: "bindm (emit e) f s = f () (s\<lparr>trace := e # trace s\<rparr>)"
  by (simp add: run_defs)

lemma bindm_clock: "wall api = Pair now \<Longrightarrow> bindm (now_w api) f s = f now s"
  by (simp add: run_defs)

lemma delete_nrp_deletes:
  assumes "keeps trace api"
  shows "Nrp_delete n \<in> set (trace (snd (delete_nrp api n s)))"
proof -
  let ?m = "\<lambda>_ :: unit. bindm (nrp_remove api n) (\<lambda>_.
     bindm (each (\<lambda>direction.
        bindm (emit (Stage_delete (n @ ''-'' @ direction))) (\<lambda>_.
        bindm (delete_stage api (n @ ''-'' @ direction)) (\<lambda>_. ret ()))) [''in'', ''out'']) (\<lambda>_.
     bindm (modify (\<lambda>s. s\<lparr>nrp_cleaned := removeAll n (nrp_cleaned s)\<rparr>)) (\<lambda>_.
     delete_prefix api (code_prefix n))))"
  have kept: "preserves (\<lambda>t. Nrp_delete n \<in> set (trace t)) (?m ())"
    unfolding delete_prefix_def
    by (intro pres_intros preserves_holds [of trace "nrp_remove _ _"] preserves_holds [of trace "delete_stage _ _"]
        preserves_holds [of trace "bucket_delete _ _"] holds_intros assms) auto
  have "Nrp_delete n \<in> set (trace (s\<lparr>trace := Nrp_delete n # trace s\<rparr>))" by simp
  from preservesD [OF kept this] show ?thesis unfolding delete_nrp_def bindm_emit .
qed

text \<open>
  The record of a long job is lost when the job ends. A record is meant to stay \<open>JOB_RECORD_S\<close>, a week, after its
  job ends. A job without outputs that ran for a week has been at its stage for as long when it ends, and the
  pass that finds it ended goes on with that time: it calls the job done and at once deletes its record, its log
  with it, whenever it ended.
\<close>

theorem long_job_record_lost:
  assumes "swift now api" "nrp_stage j = ''running''" "job_ended j" "\<not> has_outputs j" "now - since_of j \<ge> JOB_RECORD_S"
  shows "Nrp_delete (j_name j) \<in> set (trace (snd (advance_nrp api j s)))"
proof -
  have api: "keeps trace api" "wall api = Pair now" using assms(1) by (simp_all add: swift_def)
  have "Nrp_delete (j_name j) \<in> set (trace (snd (finish_nrp api k now (since_of j) t)))" if "j_name k = j_name j" for k t
    using that assms(5) delete_nrp_deletes [OF api(1), of "j_name j"]
    by (simp add: finish_nrp_def bindm_def gets_def whenm_def ret_def modify_def swift_delete_prefix [OF assms(1)])
  then show ?thesis
    unfolding advance_nrp_def Let_def since_of_def [symmetric]
    by (simp add: bindm_clock [OF api(2)] assms(2-4) advance_running_def has_outputs_def [symmetric]
        bindm_def [of "set_stage _ _ _ _"] swift_set_stage [OF assms(1)])
qed

theorem long_job_record_lost_witness:
  "Nrp_delete ''ray-job-1'' \<in> set (trace (snd (advance_nrp ((example_api :: unit api)\<lparr>wall := Pair 700000\<rparr>)
     (example_job\<lparr>j_status := ''SUCCEEDED'', j_since := Some 0, j_ended := Some 700000\<rparr>) example_gateway)))"
proof -
  let ?j = "example_job\<lparr>j_status := ''SUCCEEDED'', j_since := Some 0, j_ended := Some 700000\<rparr>"
  have "keeps trace ((example_api :: unit api)\<lparr>wall := Pair 700000\<rparr>)"
    using example_api_keeps [of trace] by (simp add: keeps_def holds_def)
  then have "swift 700000 ((example_api :: unit api)\<lparr>wall := Pair 700000\<rparr>)" by (simp add: swift_def)
  then show ?thesis
    using long_job_record_lost [of 700000 "example_api\<lparr>wall := Pair 700000\<rparr>" ?j example_gateway]
    by (simp add: example_job_def nrp_stage_def dict_get_def or_else_def job_ended_def has_outputs_def since_of_def JOB_RECORD_S_def)
qed

text \<open>
  C39: a stop during a pass is undone. If a user stops a job whose inputs are being copied while a pass that found them
  copied is about to start it, the pass takes the job for what it was: it asks NRP to start the job after the stop
  asked for its end. The job then runs, though its record says that it was stopped, the Jobs API
  answers so, and another call to stop it does nothing.
\<close>

theorem stop_undone:
  fixes api :: "'w api"
  assumes swift: "swift now api" and j: "posted j" "nrp_stage j = ''inputs''"
    and copied: "\<And>s. get_stage api (j_name j @ ''-in'') s = (Inr (200, copy), s)" "stage_of_conditions copy = ''succeeded''"
    and stop: "nrp_recorded fuel api j ''POST'' ''/stop'' websocket s = (r, t)" "trace t = es @ trace s"
    and pass: "advance_nrp api j t = (r', u)" "trace u = es' @ trace t"
    and k: "k = foldl patched j (patches (es' @ es))"
  shows "nrp_stage k = ''running'' \<and> \<not> j_suspend k \<and> was_stopped k
    \<and> nrp_recorded fuel api k ''POST'' ''/stop'' websocket v = (Inr (Stopped False), v)"
proof -
  have fresh: "\<not> job_ended j" "\<not> was_stopped j" using j(1) by (auto simp: posted_def)
  let ?stage = "if has_outputs j \<and> j_ran j \<noteq> None then ''outputs'' else ''done''"
  have es: "es = [Nrp_patch (j_name j) [(STAGE_ANNOTATION, ?stage), (STOPPED_ANNOTATION, STOPPED_BY_USER)] (Some (stamp now)) None,
      Nrp_patch (j_name j) [] None (Some True)]"
    using stop fresh unfolding nrp_recorded_def stop_nrp_def Let_def has_outputs_def [symmetric]
    by (auto simp: bindm_def whenm_def ret_def swift_patch [OF swift] swift_set_stage [OF swift] was_stopped_def)
  have wall: "wall api = Pair now" using swift by (simp add: swift_def)
  have es': "es' = [Nrp_patch (j_name j) [(STAGE_ANNOTATION, ''running'')] (Some (stamp now)) (Some False),
      Saw_stage (j_name j @ ''-in'') (Some ''succeeded'')]"
    using pass unfolding advance_nrp_def Let_def j(2) resume_nrp_def stage_state_def
    by (auto simp: bindm_def now_w_def emit_def modify_def ret_def wall copied swift_patch [OF swift])
  have k': "k = patched (patched (patched j ([], Some True)) ([(STAGE_ANNOTATION, ?stage),
      (STOPPED_ANNOTATION, STOPPED_BY_USER)], None)) ([(STAGE_ANNOTATION, ''running'')], Some False)"
    unfolding k es es' by simp
  have "nrp_stage k = ''running''" "was_stopped k" unfolding k' patched_stage by (simp_all add: or_else_def patched_stage)
  moreover have "\<not> j_suspend k" unfolding k' by (simp add: patched_def)
  ultimately show ?thesis
    by (auto simp: nrp_recorded_def Let_def was_stopped_def bindm_def whenm_def ret_def)
qed

definition copied_api :: "unit api" where
  "copied_api = example_api\<lparr>get_stage := \<lambda>_. ret (200, \<lparr>sr_conditions = [(''Complete'', ''True'')], sr_suspend = False\<rparr>)\<rparr>"

definition copying_job :: rayjob where
  "copying_job = example_job\<lparr>j_annotations := [(STAGE_ANNOTATION, ''inputs'')], j_suspend := True\<rparr>"

theorem stop_undone_witness:
  "let t = snd (nrp_recorded 1 copied_api copying_job ''POST'' ''/stop'' False example_gateway);
       u = snd (advance_nrp copied_api copying_job t);
       k = foldl patched copying_job (patches (trace u))
   in nrp_stage k = ''running'' \<and> \<not> j_suspend k \<and> was_stopped k"
proof -
  have keeps: "keeps trace copied_api"
    using example_api_keeps [of trace] by (simp add: copied_api_def keeps_def holds_def ret_def)
  then have swift: "swift 0 copied_api" by (simp add: swift_def copied_api_def)
  have j: "posted copying_job" "nrp_stage copying_job = ''inputs''"
    by (simp_all add: copying_job_def example_job_def posted_def staged_def nrp_stage_def was_stopped_def job_ended_def
        dict_get_def or_else_def annotation_keys)
  obtain r t where t: "nrp_recorded 1 copied_api copying_job ''POST'' ''/stop'' False example_gateway = (r, t)" by fastforce
  obtain r' u where u: "advance_nrp copied_api copying_job t = (r', u)" by fastforce
  obtain es where es: "trace u = es @ trace t" 
    using advance_nrp_kept [OF keeps, of copying_job t] u by (cases r') (auto simp: wp_def kept_def)
  have "trace t = trace t @ trace example_gateway" by (simp add: example_gateway_def)
  from stop_undone [OF swift j _ _ t this u es refl, where copy = "\<lparr>sr_conditions = [(''Complete'', ''True'')], sr_suspend = False\<rparr>"]
  show ?thesis using t u es by (simp add: copied_api_def ret_def stage_of_conditions_def)
qed

end
