(* ===== verification/NRP_Submission.thy ===== *)
theory NRP_Submission
  imports Gateway_NRP
begin

text \<open>What a submission to NRP becomes: the RayJob the gateway posts there.\<close>

definition as_asked :: "gw_config \<Rightarrow> user \<Rightarrow> shape \<Rightarrow> string \<Rightarrow> submission \<Rightarrow> (string, string) dict \<Rightarrow> rayjob \<Rightarrow> bool" where
  "as_asked cfg u shape name su data j \<longleftrightarrow>
     j_name j = name \<and> j_id j = su_id su \<and> Some (j_entrypoint j) = su_entrypoint su
     \<and> map_of (j_labels j) OWNER_LABEL = Some (owner_key (cfg_sha cfg) (own cfg u) (user_owner u))
     \<and> nrp_stage j = (if map_of data ''inputs'' \<noteq> None then ''inputs'' else ''running'')
     \<and> (j_suspend j \<longleftrightarrow> nrp_stage j = ''inputs'') \<and> (has_outputs j \<longleftrightarrow> map_of data ''output'' \<noteq> None)
     \<and> (\<exists>g wanted least. s_groups (j_spec j) = [g] \<and> g_min g = g_replicas g \<and> g_max g = g_replicas g
         \<and> int_of (sh_workers shape) = Some wanted \<and> int_of (sh_least shape) = Some least
         \<and> min wanted least \<le> g_replicas g \<and> g_replicas g \<le> wanted)"

definition post_law :: "(rayjob \<Rightarrow> bool) \<Rightarrow> event list \<Rightarrow> event \<Rightarrow> bool" where
  "post_law good past e \<longleftrightarrow> (case e of Nrp_post j \<Rightarrow> good j | _ \<Rightarrow> True)"

interpretation posting: event_law "post_law good"
  by unfold_locales (simp add: post_law_def)

lemma bindm_of_sum: "bindm (of_sum x) f = (case x of Inl e \<Rightarrow> raise e | Inr a \<Rightarrow> f a)"
  by (simp add: fun_eq_iff bindm_def of_sum_def raise_def split: sum.split)

lemma preserves_checked:
  "(\<And>a. x = Inr a \<Longrightarrow> preserves I (f a)) \<Longrightarrow> preserves I (bindm (of_sum x) f)"
  by (cases x) (simp_all add: bindm_of_sum preserves_raise)

lemma preserves_pair: "(\<And>a b. p = (a, b) \<Longrightarrow> preserves I (g a b)) \<Longrightarrow> preserves I (case p of (a, b) \<Rightarrow> g a b)"
  by (cases p) simp

text \<open>Nothing but the post itself posts a job: what follows keeps the law whatever it asks of a job.\<close>

lemma posting_emit: "(\<And>j. e \<noteq> Nrp_post j) \<Longrightarrow> preserves (kept (post_law good) seen tr) (emit e)"
  by (rule posting.kept_emit) (auto simp: post_law_def split: event.split)

lemmas posting_calls = kept_holds [of "get_stage _ _"] kept_holds [of "nrp_change _ _ _ _ _"] kept_holds [of "now_w _"]
  kept_holds [of "bucket_delete _ _"] kept_holds [of "nrp_remove _ _"] kept_holds [of "post_stage _ _"]
  kept_holds [of "delete_stage _ _"] kept_holds [of "resume_stage _ _"] kept_holds [of "nrp_models _"] kept_holds [of "nrp_post _ _"]

lemma set_stage_posts: "keeps trace api \<Longrightarrow> preserves (kept (post_law good) seen tr) (set_stage api j stage extra)"
  unfolding set_stage_def nrp_patch_def Let_def
  by (intro pres_intros posting_emit posting_calls holds_intros; simp)

lemma stop_nrp_posts: "keeps trace api \<Longrightarrow> preserves (kept (post_law good) seen tr) (stop_nrp api j why)"
  unfolding stop_nrp_def nrp_patch_def Let_def
  by (intro pres_intros set_stage_posts posting_emit posting_calls holds_intros; simp)

lemma finish_nrp_posts: "keeps trace api \<Longrightarrow> preserves (kept (post_law good) seen tr) (finish_nrp api j now since)"
  unfolding finish_nrp_def delete_nrp_def delete_prefix_def
  by (intro pres_intros kept_modify posting_emit posting_calls holds_intros; simp)

lemma advance_outputs_posts: "keeps trace api \<Longrightarrow> preserves (kept (post_law good) seen tr) (advance_outputs api j now)"
  unfolding advance_outputs_def stage_state_def
  by (intro pres_intros set_stage_posts finish_nrp_posts posting_emit posting_calls holds_intros; simp)

lemma advance_nrp_posts:
  assumes "keeps trace api"
  shows "preserves (kept (post_law good) seen tr) (advance_nrp api j)"
proof -
  have "holds trace (idle_utilization api j now)" for now
    unfolding idle_utilization_def Let_def by (intro holds_intros assms)
  then show ?thesis
    unfolding advance_nrp_def advance_running_def resume_nrp_def stage_state_def nrp_patch_def Let_def
    by (intro pres_intros set_stage_posts stop_nrp_posts finish_nrp_posts advance_outputs_posts posting_emit posting_calls
        kept_holds [of "idle_utilization _ _ _"] holds_intros assms; simp)
qed

lemma nrp_place_bounds:
  assumes "nrp_place models wanted least mem = Inr (n, allowed)"
  shows "min wanted least \<le> n \<and> n \<le> wanted \<and> int least \<le> room_workers_empty (room models mem)
    \<and> (int n \<le> room_workers (room models mem) \<or> n \<le> least)"
  using assms by (auto simp: nrp_place_def Let_def split: if_splits)

lemma af_variables: "af_variable ''inputs'' = ''AF_INPUTS''" "af_variable ''output'' = ''AF_OUTPUT''"
  by code_simp+

lemma image_key: "(\<And>k. k \<in> K \<Longrightarrow> a = g k \<longleftrightarrow> k = c) \<Longrightarrow> a \<in> g ` K \<longleftrightarrow> c \<in> K"
  by blast

lemma af_inputs:
  assumes "fst ` set data \<subseteq> {''inputs'', ''output''}"
  shows "map_of (map (\<lambda>(k, _). (af_variable k, f k)) data) ''AF_INPUTS'' \<noteq> None \<longleftrightarrow> map_of data ''inputs'' \<noteq> None"
proof -
  have key: "''AF_INPUTS'' = af_variable k \<longleftrightarrow> k = ''inputs''" if "k \<in> fst ` set data" for k
  proof -
    have "k = ''inputs'' \<or> k = ''output''" using that assms by blast
    then show ?thesis using af_variables by (elim disjE) simp_all
  qed
  have "map_of (map (\<lambda>(k, _). (af_variable k, f k)) data) ''AF_INPUTS'' \<noteq> None \<longleftrightarrow> ''AF_INPUTS'' \<in> af_variable ` fst ` set data"
    unfolding map_of_eq_None_iff by (simp add: image_image case_prod_beta)
  also have "\<dots> \<longleftrightarrow> ''inputs'' \<in> fst ` set data" by (rule image_key [OF key])
  finally show ?thesis unfolding map_of_eq_None_iff by simp
qed

lemma nrp_build_job_fields:
  assumes "nrp_build_job template name owner su bucket workers models ttl data = Inr b"
  shows "j_name b = name" "j_id b = su_id su" "Some (j_entrypoint b) = su_entrypoint su"
    "map_of (j_labels b) OWNER_LABEL = Some owner" "j_suspend b \<longleftrightarrow> map_of data ''AF_INPUTS'' \<noteq> None"
    "\<exists>g. s_groups (j_spec b) = [g] \<and> g_replicas g = workers \<and> g_min g = workers \<and> g_max g = workers"
proof -
  from assms obtain e env spec where e: "su_entrypoint su = Some e"
    and spec: "sized_spec workers (j_spec template) = Inr spec"
    and b: "Inr b = nrp_build_job template name owner su bucket workers models ttl data"
      "nrp_build_job template name owner su bucket workers models ttl data = Inr (template\<lparr>j_name := name,
       j_labels := AList.update OWNER_LABEL owner (j_labels template),
       j_annotations := [(ENTRYPOINT_ANNOTATION, entrypoint_of su)],
       j_suspend := (map_of data ''AF_INPUTS'' \<noteq> None), j_id := su_id su, j_entrypoint := e, j_ttl := ttl,
       j_env := (if env = [] then j_env template else to_s3 env bucket name),
       j_resources := dict_updates (j_resources template) (asked_resources (su_resources su)),
       j_models := (case models of None \<Rightarrow> j_models template | Some ms \<Rightarrow> Some (sort (map product_of ms))),
       j_spec := spec\<rparr>)"
    unfolding nrp_build_job_def bind_sum_def by (auto split: option.splits sum.splits)
  then show "j_name b = name" "j_id b = su_id su" "Some (j_entrypoint b) = su_entrypoint su"
    "map_of (j_labels b) OWNER_LABEL = Some owner" "j_suspend b \<longleftrightarrow> map_of data ''AF_INPUTS'' \<noteq> None"
    by (simp_all add: update_conv')
  have "\<exists>g. s_groups spec = [g] \<and> g_replicas g = workers \<and> g_min g = workers \<and> g_max g = workers"
    using spec by (auto simp: sized_spec_def split: list.splits)
  moreover have "j_spec b = spec" using b by simp
  ultimately show "\<exists>g. s_groups (j_spec b) = [g] \<and> g_replicas g = workers \<and> g_min g = workers \<and> g_max g = workers"
    by simp
qed

lemma built_as_asked:
  assumes built: "nrp_build_job (cfg_nrp_template cfg) name (owner_key (cfg_sha cfg) (own cfg u) (user_owner u)) su
      (cfg_bucket cfg) n allowed 0 (map (\<lambda>(k, _). (af_variable k, data_uri (cfg_bucket cfg) name k)) data) = Inr b"
    and shape: "int_of (sh_workers shape) = Some wanted" "int_of (sh_least shape) = Some least"
      "min wanted least \<le> n \<and> n \<le> wanted"
    and data: "fst ` set data \<subseteq> {''inputs'', ''output''}"
  shows "as_asked cfg u shape name su data (b\<lparr>j_annotations := dict_updates (j_annotations b)
           [(STAGE_ANNOTATION, if map_of data ''inputs'' \<noteq> None then ''inputs'' else ''running''),
            (OUTPUT_ANNOTATION, if map_of data ''output'' \<noteq> None then ''true'' else [])],
         j_since := since\<rparr>)"
proof -
  have stage: "nrp_stage (b\<lparr>j_annotations := dict_updates (j_annotations b) [(STAGE_ANNOTATION, st), (OUTPUT_ANNOTATION, out)],
      j_since := since\<rparr>) = or_else st ''running''"
    and outs: "has_outputs (b\<lparr>j_annotations := dict_updates (j_annotations b) [(STAGE_ANNOTATION, st), (OUTPUT_ANNOTATION, out)],
      j_since := since\<rparr>) \<longleftrightarrow> out = ''true''" for st out
    by (simp_all add: nrp_stage_def has_outputs_def dict_get_def dict_updates_def update_conv' annotation_keys)
  note af = af_inputs [OF data, of "data_uri (cfg_bucket cfg) name"]
  note fields = nrp_build_job_fields [OF built]
  from fields(6) obtain g where g: "s_groups (j_spec b) = [g]" "g_replicas g = n" "g_min g = n" "g_max g = n" by blast
  show ?thesis
    unfolding as_asked_def stage outs using fields(1-5) g shape af by (simp add: or_else_def)
qed

text \<open>
  A job on NRP is what its submission asks for. The RayJob the gateway posts has the submission's ID and entrypoint and its
  owner's key and no name; it has one group of workers, fixed in size, of no more than the call asks for and,
  where the call's numbers are in order, no fewer than it starts with; it is suspended, at the stage that
  copies its inputs, exactly if it has any, and its outputs are to be copied back exactly if it has any. Nothing
  else is posted on the way.
\<close>

theorem nrp_job_as_asked:
  assumes api: "keeps trace api" and data: "fst ` set data \<subseteq> {''inputs'', ''output''}"
    and run: "start_nrp_job cfg api u shape name su data s = (r, t)"
  shows "\<exists>es. trace t = es @ trace s \<and> (\<forall>j. Nrp_post j \<in> set es \<longrightarrow> as_asked cfg u shape name su data j)"
proof -
  let ?law = "post_law (as_asked cfg u shape name su data)"
  have parts: "preserves (kept ?law [] (trace s)) (post_stage_job cfg api u created name part)" for created part
    unfolding post_stage_job_def
    by (intro pres_intros stop_nrp_posts posting_emit posting_calls holds_intros api; simp)
  have "preserves (kept ?law [] (trace s)) (start_nrp_job cfg api u shape name su data)"
    unfolding start_nrp_job_def Let_def
  proof (intro preserves_checked preserves_pair preserves_if pres_intros parts advance_nrp_posts posting_calls holds_intros api, goal_cases)
    case (1 wanted least mem models x workers allowed built now s')
    then have "as_asked cfg u shape name su data (built\<lparr>j_annotations := dict_updates (j_annotations built)
           [(STAGE_ANNOTATION, if map_of data ''inputs'' \<noteq> None then ''inputs'' else ''running''),
            (OUTPUT_ANNOTATION, if map_of data ''output'' \<noteq> None then ''true'' else [])],
         j_since := Some (stamp now)\<rparr>)"
      using nrp_place_bounds [of models wanted least mem workers allowed] by (intro built_as_asked [OF _ _ _ _ data]) auto
    then show ?case using 1 by (intro kept_weaken [OF posting.kept_cons]) (simp_all add: post_law_def)
  qed
  from posting.kept_run [OF this run] obtain es where es: "trace t = es @ trace s" "lawful ?law es" by blast
  have "as_asked cfg u shape name su data j" if "Nrp_post j \<in> set es" for j
    using lawful_mem [OF es(2) that] by (simp add: post_law_def)
  then show ?thesis using es(1) by blast
qed

definition models_api :: "unit api" where
  "models_api = example_api\<lparr>nrp_models := ret [(''A10'', \<lparr>m_memory_gb = Some 24, m_gpus = 4, m_free_gpus = 3, m_workers = 1,
     m_workers_empty = 4\<rparr>)], nrp_post := \<lambda>j. ret ((500, None), j)\<rparr>"

definition nrp_example_shape :: shape where
  "nrp_example_shape = \<lparr>sh_env = [], sh_workers = ''2'', sh_memory = [], sh_cpus = [], sh_ram = [], sh_per_worker = ''1'',
     sh_least = ''1'', sh_site = ''nrp''\<rparr>"

definition example_submission :: submission where
  "example_submission = \<lparr>su_id = ''raysubmit_7'', su_entrypoint = Some ''python train.py'', su_env = [], su_resources = []\<rparr>"

theorem nrp_job_as_asked_witness:
  "\<exists>j. trace (snd (start_nrp_job example_config models_api example_user nrp_example_shape ''ray-job-7'' example_submission []
       example_gateway)) = [Nrp_post j]
     \<and> as_asked example_config example_user nrp_example_shape ''ray-job-7'' example_submission [] j"
proof -
  have keeps: "keeps trace models_api"
    using example_api_keeps [of trace] by (simp add: models_api_def keeps_def holds_def ret_def raise_def)
  obtain r t where run: "start_nrp_job example_config models_api example_user nrp_example_shape ''ray-job-7'' example_submission []
     example_gateway = (r, t)" by fastforce
  have "int_of ''2'' = Some 2" "int_of ''1'' = Some 1" by code_simp+
  moreover have "\<exists>g. s_groups (k_spec example_template) = [g]" by (simp add: example_template_def)
  ultimately have "\<exists>j. trace t = [Nrp_post j]"
    using run by (auto simp: start_nrp_job_def nrp_example_shape_def models_api_def nrp_place_def room_def with_memory_def
        nrp_build_job_def sized_spec_def example_config_def example_submission_def example_job_def bind_sum_def Let_def
        run_defs example_gateway_def value_or_raise_def)
  then show ?thesis
    using nrp_job_as_asked [OF keeps _ run] run by (auto simp: example_gateway_def)
qed

end
