(* ===== verification/Gateway_Handle.thy ===== *)
theory Gateway_Handle
  imports NRP_Submission
begin

text \<open>
  \<open>Gateway.handle\<close> (\<open>src/apps/ray-train/gateway.py\<close>): every HTTP call to a dashboard, the Jobs API's among them, from its
  headers to the answer or to the head it is relayed to; and what the gateway reports of the room there is and of
  its jobs (\<open>capacity\<close>, \<open>nrp_capacity\<close>, \<open>job_owners\<close>, the metrics).
\<close>

subsection \<open>A call\<close>

text \<open>
  An HTTP call: its method, its path and its path with the query as they came, its headers, what it carries, and the
  submission that is as JSON, if it is one.
\<close>

record http_call =
  q_method :: string
  q_path :: string
  q_target :: string
  q_headers :: "(string \<times> string) list"
  q_content :: string
  q_json :: "submission option"

definition NOT_PASSED_ON :: "string list" where
  "NOT_PASSED_ON = [''authorization'', ''host''] @ SETTINGS
     @ [''connection'', ''keep-alive'', ''upgrade'', ''transfer-encoding'', ''content-length'']"

definition passed_on :: "(string \<times> string) list \<Rightarrow> (string \<times> string) list" where
  "passed_on headers = filter (\<lambda>(key, _). lower key \<notin> set NOT_PASSED_ON \<and> \<not> prefix ''sec-websocket-'' (lower key)) headers"

definition submits :: "http_call \<Rightarrow> bool" where
  "submits q \<longleftrightarrow> prefix ''/api/packages/'' (q_path q) \<or> (q_method q = ''POST'' \<and> q_path q = ''/api/jobs/'')"

text \<open>\<open>JOB_PATH.fullmatch\<close>: the job a path is about, and the rest of it; a dot matches no newline.\<close>

definition job_path :: "string \<Rightarrow> (string \<times> string) option" where
  "job_path path =
     (if prefix ''/api/jobs/'' path then
        let asked = removeprefix ''/api/jobs/'' path;
            sid = takeWhile (\<lambda>c. c \<noteq> CHR ''/'') asked;
            rest = dropWhile (\<lambda>c. c \<noteq> CHR ''/'') asked in
        if sid = [] \<or> newline \<in> set rest then None else Some (sid, rest)
      else None)"

definition lowered :: "(string \<times> string) list \<Rightarrow> (string, string) dict" where
  "lowered headers = dict_updates [] (map (\<lambda>(k, v). (lower k, v)) headers)"

definition websocket :: "http_call \<Rightarrow> bool" where
  "websocket q \<longleftrightarrow> (case find (\<lambda>(k, _). lower k = ''upgrade'') (q_headers q) of
     None \<Rightarrow> False | Some (_, v) \<Rightarrow> lower v = ''websocket'')"

definition head_url :: "string \<Rightarrow> string" where
  "head_url cluster = ''http://'' @ cluster @ ''-head-svc.cms.svc.cluster.local:8265''"

subsection \<open>Its answer\<close>

datatype answer = Version | Answered job_answer | On_nrp nrp_answer | Upstream nat "(string \<times> string) list" | Refusal nat string

text \<open>Relaying the call to the head, with the token of the cluster or job it is keyed by.\<close>

definition relay_http :: "gw_config \<Rightarrow> 'w api \<Rightarrow> http_call \<Rightarrow> string \<Rightarrow> string \<Rightarrow> string \<Rightarrow> ('w, answer) io" where
  "relay_http cfg api q head keyed content =
     bindm (emit (Relay head keyed)) (\<lambda>_.
     catch
       (bindm (relay_call api (head_url head @ q_target q) (q_method q)
           (passed_on (q_headers q) @ [(''Authorization'', ''Bearer '' @ token_for cfg keyed)]) content) (\<lambda>(status, headers).
        ret (if websocket q then Upstream status [] else Upstream status (passed_on headers))))
       (\<lambda>e. case e of
          ClientError \<Rightarrow> bindm (head_silent head) raise
        | Refused code text \<Rightarrow> raise e | PyError p \<Rightarrow> raise e | Diverged \<Rightarrow> raise e))"

text \<open>A call about a job: answered from its record, or the head it goes to and the job it is keyed by.\<close>

definition no_job :: "string \<Rightarrow> gw_error" where
  "no_job sid = Refused NOT_FOUND (''You have no job '' @ sid
     @ '': a job's record goes when it is deleted, or 7 days after the job ends.'')"

definition unknown_job :: "nat \<Rightarrow> gw_config \<Rightarrow> 'w api \<Rightarrow> user \<Rightarrow> http_call \<Rightarrow> string \<Rightarrow> string
    \<Rightarrow> ('w, job_answer + string \<times> string) io" where
  "unknown_job fuel cfg api u q sid rest =
     bindm (nrp_job cfg api u sid) (\<lambda>on_nrp. case on_nrp of
       Some j \<Rightarrow> bindm (nrp_recorded fuel api j (q_method q) rest (websocket q)) (\<lambda>a. ret (Inl a))
     | None \<Rightarrow> catch (bindm (running cfg api u) (\<lambda>head. ret (Inr (head, head)))) (\<lambda>e. case e of
         Refused code text \<Rightarrow> bindm (gets (\<lambda>s. map_of (never_started s) (own cfg u) \<noteq> None)) (\<lambda>never.
           raise (if code \<noteq> NOT_FOUND \<or> never then e else no_job sid))
       | ClientError \<Rightarrow> raise e | PyError p \<Rightarrow> raise e | Diverged \<Rightarrow> raise e))"

definition about_job :: "nat \<Rightarrow> gw_config \<Rightarrow> 'w api \<Rightarrow> user \<Rightarrow> http_call \<Rightarrow> string \<Rightarrow> string
    \<Rightarrow> ('w, job_answer + string \<times> string) io" where
  "about_job fuel cfg api u q sid rest =
     bindm (job cfg api u sid) (\<lambda>found. case found of
       None \<Rightarrow> unknown_job fuel cfg api u q sid rest
     | Some (j, cluster) \<Rightarrow>
       let kept = dict_get (j_annotations j) LOGS_ANNOTATION [] in
       if kept \<noteq> [] \<and> q_method q = ''GET'' \<and> rest \<in> {''/logs'', ''/logs/tail''} then
         bindm (kept_logs api kept) (\<lambda>a. ret (Inl a))
       else case cluster of
         None \<Rightarrow> bindm (recorded api j (q_method q) rest) (\<lambda>a. ret (Inl a))
       | Some head \<Rightarrow>
         if q_method q = ''DELETE'' then bindm (recorded api j (q_method q) rest) (\<lambda>a. ret (Inl a))
         else ret (Inr (head, j_name j)))"

definition handle_submission :: "nat \<Rightarrow> gw_config \<Rightarrow> 'w api \<Rightarrow> user \<Rightarrow> shape \<Rightarrow> http_call \<Rightarrow> (submission \<Rightarrow> string) \<Rightarrow> ('w, answer) io" where
  "handle_submission fuel cfg api u shape q dumps =
     (if sh_site shape = ''nrp'' then
        bindm (nrp_submission cfg api u shape (q_method q) (q_path q) (lowered (q_headers q)) (q_content q) (q_json q))
          (\<lambda>a. ret (On_nrp a))
      else
      bindm (submission_of fuel cfg api u shape (lowered (q_headers q))
          (if q_method q = ''POST'' then Some (q_json q) else None)) (\<lambda>(head, keyed, body).
      relay_http cfg api q head keyed (case body of None \<Rightarrow> q_content q | Some su \<Rightarrow> dumps su)))"

definition handle_call :: "nat \<Rightarrow> gw_config \<Rightarrow> 'w api \<Rightarrow> user \<Rightarrow> http_call \<Rightarrow> ('w, answer) io" where
  "handle_call fuel cfg api u q = (case job_path (q_path q) of
     Some (sid, rest) \<Rightarrow> bindm (about_job fuel cfg api u q sid rest) (\<lambda>r. case r of
       Inl a \<Rightarrow> ret (Answered a)
     | Inr (head, keyed) \<Rightarrow> relay_http cfg api q head keyed (q_content q))
   | None \<Rightarrow>
     if q_method q = ''GET'' \<and> q_path q = ''/api/jobs/'' then
       bindm (jobs cfg api u) (\<lambda>here.
       bindm (nrp_jobs cfg api u) (\<lambda>there. ret (Answered (Listed (map job_details (here @ there))))))
     else bindm (running cfg api u) (\<lambda>head. relay_http cfg api q head head (q_content q)))"

definition handle_as :: "nat \<Rightarrow> gw_config \<Rightarrow> 'w api \<Rightarrow> http_call \<Rightarrow> (submission \<Rightarrow> string) \<Rightarrow> user \<Rightarrow> shape \<Rightarrow> ('w, answer) io" where
  "handle_as fuel cfg api q dumps u shape =
     (if q_path q = ''/api/version'' then ret Version
      else if submits q then handle_submission fuel cfg api u shape q dumps
      else handle_call fuel cfg api u q)"

text \<open>\<open>dumps\<close> is the submission as JSON again, as it is sent on.\<close>

definition handle :: "nat \<Rightarrow> gw_config \<Rightarrow> 'w api \<Rightarrow> (submission \<Rightarrow> string) \<Rightarrow> http_call \<Rightarrow> ('w, answer) io" where
  "handle fuel cfg api dumps q =
     bindm (refusals_answered (bindm (caller_m cfg api (lowered (q_headers q)))
       (\<lambda>(u, shape). handle_as fuel cfg api q dumps u shape)))
     (\<lambda>r. ret (case r of Inl (status, text) \<Rightarrow> Refusal status text | Inr a \<Rightarrow> a))"

subsection \<open>What there is room for\<close>

record kind_view =
  kv_resource :: string
  kv_memory :: rat
  kv_most :: nat
  kv_free :: "int option"
  kv_preemptible :: "int option"

record nrp_view =
  nv_known :: bool
  nv_worker :: nworker
  nv_free :: int
  nv_most :: int
  nv_models :: "(string \<times> rat option \<times> int) list"

record capacity_view =
  cv_known :: bool
  cv_free :: int
  cv_preemptible :: int
  cv_most :: nat
  cv_kinds :: "kind_view list"
  cv_nrp :: "nrp_view option"

definition kind_of :: "nat \<Rightarrow> (string, int \<times> int) dict option \<Rightarrow> flavor \<Rightarrow> kind_view" where
  "kind_of each_worker free f = \<lparr>kv_resource = resource f, kv_memory = memory f, kv_most = budget f div each_worker,
     kv_free = map_option (\<lambda>d. fst (dict_get d (resource f) (0, 0)) div int each_worker) free,
     kv_preemptible = map_option (\<lambda>d. snd (dict_get d (resource f) (0, 0)) div int each_worker) free\<rparr>"

definition nrp_capacity :: "gw_config \<Rightarrow> 'w api \<Rightarrow> rat \<Rightarrow> ('w, nrp_view) io" where
  "nrp_capacity cfg api mem =
     bindm (catch (bindm (nrp_models api) (\<lambda>models. ret (Some models)))
       (\<lambda>e. if prometheus_failed e then ret None else raise e)) (\<lambda>found.
     ret (case found of
       None \<Rightarrow> \<lparr>nv_known = False, nv_worker = cfg_nrp_worker cfg, nv_free = 0, nv_most = 0, nv_models = []\<rparr>
     | Some models \<Rightarrow>
       let r = room models mem in
       \<lparr>nv_known = (models \<noteq> []), nv_worker = cfg_nrp_worker cfg, nv_free = room_workers r, nv_most = room_workers_empty r,
        nv_models = map (\<lambda>(name, m). (name, m_memory_gb m, m_workers m))
          (filter (\<lambda>(name, m). name \<noteq> [] \<and> (case room_models r of None \<Rightarrow> True | Some ms \<Rightarrow> name \<in> set ms))
            (sort_key (\<lambda>(name, m). - m_workers m) models))\<rparr>))"

text \<open>
  \<open>Gateway.capacity\<close>: a number of GPUs per worker that no kind at Purdue may have is refused; \<open>whole\<close> decides what is a
  number, and one that is not divides by zero where there is a kind to count.
\<close>

definition capacity :: "gw_config \<Rightarrow> 'w api \<Rightarrow> (string, string) dict \<Rightarrow> ('w, capacity_view) io" where
  "capacity cfg api values =
     (let asked = dict_get values ''af-gpus-per-worker'' []; fl = cfg_flavors cfg in
      bindm (of_sum (gpu_memory (dict_get values ''af-min-gpu-memory-gb'' []))) (\<lambda>wanted.
      let at_purdue = list_ex (\<lambda>f. memory f \<ge> wanted) fl in
      bindm (of_sum (if at_purdue then requested_memory fl (fmt_g wanted) else Inr (fmt_g wanted))) (\<lambda>mem.
      bindm (of_sum (if at_purdue then requested_per_worker fl asked mem else Inr (or_else asked ''1''))) (\<lambda>per_worker.
      let n = (if whole per_worker 1 None then digits_value per_worker else 0);
          shape = \<lparr>sh_env = [], sh_workers = ''1'', sh_memory = mem, sh_cpus = [], sh_ram = [], sh_per_worker = per_worker,
            sh_least = ''1'', sh_site = ''purdue''\<rparr> in
      bindm (free_gpus fl api) (\<lambda>free.
      bindm (of_sum (value_or_raise (shape_flavors fl shape))) (\<lambda>flavors.
      bindm (of_sum (if n = 0 \<and> flavors \<noteq> [] then Inl (PyError ''ZeroDivisionError'') else Inr (map (kind_of n free) flavors))) (\<lambda>kinds.
      bindm (if int n = w_gpus (cfg_nrp_worker cfg) then bindm (nrp_capacity cfg api wanted) (\<lambda>v. ret (Some v)) else ret None) (\<lambda>nrp.
      ret \<lparr>cv_known = (free \<noteq> None), cv_free = (\<Sum>k \<leftarrow> kinds. case kv_free k of None \<Rightarrow> 0 | Some x \<Rightarrow> x),
        cv_preemptible = (\<Sum>k \<leftarrow> kinds. case kv_preemptible k of None \<Rightarrow> 0 | Some x \<Rightarrow> x),
        cv_most = (\<Sum>k \<leftarrow> kinds. kv_most k), cv_kinds = kinds, cv_nrp = nrp\<rparr>))))))))"

subsection \<open>Whose job a cluster runs\<close>

definition job_owners :: "'w api \<Rightarrow> ('w, (string, string) dict) io" where
  "job_owners api = bindm (list_jobs api managed_by_label MANAGED_BY) (\<lambda>(status, items).
     if status \<noteq> 200 then raise (PyError ''RuntimeError'')
     else ret (dict_updates [] (concat (map (\<lambda>j.
       let owner = dict_get (j_labels j) OWNER_LABEL [] in
       if j_head j \<noteq> [] \<and> owner \<noteq> [] then [(j_head j, owner)] else []) items))))"

definition metrics :: "'w api \<Rightarrow> ('w, (nat \<times> string) + string list) io" where
  "metrics api = bindm (catch (bindm (job_owners api) (\<lambda>owners. ret (Some owners))) (\<lambda>e.
       if e \<in> {ClientError, PyError ''RuntimeError''} then ret None else raise e)) (\<lambda>found. case found of
     None \<Rightarrow> ret (Inl (503, ''Kubernetes did not list Ray jobs''))
   | Some owners \<Rightarrow> bindm (gets nrp_held) (\<lambda>held.
       ret (Inr ([''# HELP ray_train_job_owner The owner's own cluster of each Ray job cluster.'',
           ''# TYPE ray_train_job_owner gauge'']
         @ map (\<lambda>(cluster, owner). ''ray_train_job_owner{ray_cluster='' @ [quote] @ cluster @ [quote] @ '',owner='' @ [quote]
             @ owner @ [quote] @ ''} 1'') (sort_key fst owners)
         @ (case held of None \<Rightarrow> [] | Some usage \<Rightarrow> nrp_usage_lines usage)))))"

subsection \<open>One round of the reaper\<close>

definition reap_round :: "nat \<Rightarrow> gw_config \<Rightarrow> 'w api \<Rightarrow> ('w, unit) io" where
  "reap_round fuel cfg api =
     bindm (sleep api 60) (\<lambda>_.
     bindm (logged (reap_idle api)) (\<lambda>_.
     bindm (logged (reap_jobs cfg api)) (\<lambda>_.
     logged (reap_nrp fuel cfg api))))"

subsection \<open>Whose jobs a call reaches\<close>

text \<open>Kubernetes' label selector: a listing has only objects with the label.\<close>

definition selects :: "'w api \<Rightarrow> bool" where
  "selects api \<longleftrightarrow> (\<forall>label text s status items t. nrp_list api label text s = (Inr (status, items), t)
     \<longrightarrow> list_all (\<lambda>j. map_of (j_labels j) label = Some text) items)"

definition owns_nrp :: "gw_config \<Rightarrow> user \<Rightarrow> rayjob \<Rightarrow> bool" where
  "owns_nrp cfg u j \<longleftrightarrow> map_of (j_labels j) OWNER_LABEL = Some (owner_key (cfg_sha cfg) (own cfg u) (user_owner u))"

definition seen_job :: "gw_config \<Rightarrow> user \<Rightarrow> event list \<Rightarrow> rayjob \<Rightarrow> bool" where
  "seen_job cfg u past j \<longleftrightarrow> owns cfg u j \<and> (\<exists>js. Saw_jobs js \<in> set past \<and> j \<in> set js)"

definition seen_nrp_job :: "gw_config \<Rightarrow> user \<Rightarrow> event list \<Rightarrow> string \<Rightarrow> bool" where
  "seen_nrp_job cfg u past name \<longleftrightarrow> (\<exists>js j. Saw_nrp_jobs js \<in> set past \<and> j \<in> set js \<and> owns_nrp cfg u j \<and> name = j_name j)"

text \<open>
  What a call of a user that submits nothing may do: it reaches the user's own cluster with that cluster's token, or the cluster of a
  job it has read to be the user's with that job's token; it deletes only records of such jobs; and on NRP it
  changes and deletes only jobs with the user's key.
\<close>

definition call_law :: "gw_config \<Rightarrow> user \<Rightarrow> event list \<Rightarrow> event \<Rightarrow> bool" where
  "call_law cfg u past e \<longleftrightarrow> (case e of
     Saw_cluster n c \<Rightarrow> True
   | Saw_jobs js \<Rightarrow> list_all (owns cfg u) js
   | Saw_nrp_jobs js \<Rightarrow> list_all (owns_nrp cfg u) js
   | Relay n keyed \<Rightarrow> n = own cfg u \<and> keyed = own cfg u
       \<or> (\<exists>j. seen_job cfg u past j \<and> n = j_head j \<and> keyed = j_name j)
   | Delete_job n \<Rightarrow> (\<exists>j. seen_job cfg u past j \<and> n = j_name j)
   | Nrp_patch n ann since suspend \<Rightarrow> seen_nrp_job cfg u past n
   | Nrp_delete n \<Rightarrow> seen_nrp_job cfg u past n
   | Stage_delete n \<Rightarrow> (\<exists>name. seen_nrp_job cfg u past name \<and> n \<in> {name @ ''-in'', name @ ''-out''})
   | Code_delete key \<Rightarrow> (\<exists>name. seen_nrp_job cfg u past name \<and> key = code_prefix name)
   | _ \<Rightarrow> False)"

lemma call_law_simps:
  "call_law cfg u past (Saw_cluster n c)" "call_law cfg u past (Saw_jobs js) \<longleftrightarrow> list_all (owns cfg u) js"
  "call_law cfg u past (Saw_nrp_jobs js) \<longleftrightarrow> list_all (owns_nrp cfg u) js"
  "call_law cfg u past (Relay n keyed) \<longleftrightarrow> n = own cfg u \<and> keyed = own cfg u
     \<or> (\<exists>j. seen_job cfg u past j \<and> n = j_head j \<and> keyed = j_name j)"
  "call_law cfg u past (Delete_job n) \<longleftrightarrow> (\<exists>j. seen_job cfg u past j \<and> n = j_name j)"
  "call_law cfg u past (Nrp_patch n ann since suspend) \<longleftrightarrow> seen_nrp_job cfg u past n"
  "call_law cfg u past (Nrp_delete n) \<longleftrightarrow> seen_nrp_job cfg u past n"
  "seen_nrp_job cfg u past name \<Longrightarrow> call_law cfg u past (Stage_delete (name @ ''-in''))"
  "seen_nrp_job cfg u past name \<Longrightarrow> call_law cfg u past (Stage_delete (name @ ''-out''))"
  "seen_nrp_job cfg u past name \<Longrightarrow> call_law cfg u past (Code_delete (code_prefix name))"
  by (auto simp: call_law_def)

lemma seen_job_mono: "seen_job cfg u past j \<Longrightarrow> set past \<subseteq> set past' \<Longrightarrow> seen_job cfg u past' j"
  by (auto simp: seen_job_def)

lemma seen_nrp_job_mono: "seen_nrp_job cfg u past n \<Longrightarrow> set past \<subseteq> set past' \<Longrightarrow> seen_nrp_job cfg u past' n"
  unfolding seen_nrp_job_def by blast

interpretation calling: event_law "call_law cfg u"
proof
  fix past e past'
  assume "call_law cfg u past e" and sub: "set past \<subseteq> set past'"
  then show "call_law cfg u past' e"
    by (cases e) (auto simp: call_law_def intro: seen_job_mono [OF _ sub] seen_nrp_job_mono [OF _ sub])
qed

lemma jobs_called:
  assumes api: "keeps trace api" and s: "kept (call_law cfg u) [] tr s"
  shows "wp (jobs cfg api u) (\<lambda>js t. list_all (owns cfg u) js \<and> kept (call_law cfg u) [Saw_jobs js] tr t)
    (\<lambda>_. kept (call_law cfg u) [] tr) s"
  unfolding jobs_def wp_bindm Let_def
  by (intro wp_preserves [OF kept_holds [OF keeps_calls(12) [OF api]] s])
     (auto simp: wp_simps list_all_iff call_law_simps split: prod.split intro!: calling.kept_cons)

lemma nrp_jobs_called:
  assumes api: "keeps trace api" "selects api" and s: "kept (call_law cfg u) [] tr s"
  shows "wp (nrp_jobs cfg api u) (\<lambda>js t. list_all (owns_nrp cfg u) js \<and> kept (call_law cfg u) [] tr t
      \<and> (js \<noteq> [] \<longrightarrow> kept (call_law cfg u) [Saw_nrp_jobs js] tr t)) (\<lambda>_. kept (call_law cfg u) [] tr) s"
proof -
  let ?I = "kept (call_law cfg u) [] tr"
  let ?key = "owner_key (cfg_sha cfg) (own cfg u) (user_owner u)"
  have listed: "wp (nrp_list api OWNER_LABEL ?key) (\<lambda>a t. ?I t \<and> list_all (owns_nrp cfg u) (snd a)) (\<lambda>_. ?I) s"
  proof (rule wpI, goal_cases)
    case (1 a t)
    have "?I t" using preservesD [OF kept_holds [OF keeps_calls(31) [OF api(1)]] s] 1 by (metis snd_conv)
    moreover have "list_all (owns_nrp cfg u) (snd a)"
      using api(2) 1 unfolding selects_def owns_nrp_def by (cases a) (simp, blast)
    ultimately show ?case by blast
  next
    case (2 e t)
    then show ?case using preservesD [OF kept_holds [OF keeps_calls(31) [OF api(1)]] s] by (metis snd_conv)
  qed
  have saw: "kept (call_law cfg u) [Saw_nrp_jobs js] tr (t\<lparr>trace := Saw_nrp_jobs js # trace t\<rparr>)"
    if "?I t" "list_all (owns_nrp cfg u) js" for js t
    using that by (intro calling.kept_cons) (simp_all add: call_law_simps)
  show ?thesis
  proof (cases "cfg_nrp_enabled cfg")
    case True
    then show ?thesis
      unfolding nrp_jobs_def nrp_listing_def wp_bindm wp_catch if_not_P [OF not_not [THEN iffD2, OF True]]
      by (intro wp_mono [OF listed])
         (auto simp: wp_simps split: prod.split gw_error.split intro: saw kept_weaken [OF saw])
  qed (simp add: nrp_jobs_def wp_simps s)
qed

lemmas calling_calls = kept_holds [of "get_cluster _ _"] kept_holds [of "delete_job _ _"] kept_holds [of "get_configmap _ _"]
  kept_holds [of "nrp_change _ _ _ _ _"] kept_holds [of "now_w _"] kept_holds [of "now_m _"] kept_holds [of "bucket_delete _ _"]
  kept_holds [of "nrp_remove _ _"] kept_holds [of "delete_stage _ _"] kept_holds [of "relay_call _ _ _ _ _"]

lemma find_cluster_called: "keeps trace api \<Longrightarrow> preserves (kept (call_law cfg u) seen tr) (find_cluster api n)"
  unfolding find_cluster_def
  by (intro pres_intros calling.kept_emit calling_calls holds_intros; simp add: call_law_simps)

lemma recorded_called:
  assumes "keeps trace api" "seen_job cfg u seen j"
  shows "preserves (kept (call_law cfg u) seen tr) (recorded api j http_method rest)"
proof -
  have "preserves (kept (call_law cfg u) seen tr) (delete_record api (j_name j))"
    unfolding delete_record_def delete_rayjob_def
    by (intro pres_intros calling.kept_emit calling_calls holds_intros assms(1)) (use assms(2) in \<open>auto simp: call_law_simps\<close>)
  then show ?thesis unfolding recorded_def Let_def by (intro pres_intros)
qed

lemma nrp_tail_holds: "keeps trace api \<Longrightarrow> holds trace (nrp_tail fuel api name)"
proof -
  assume api: "keeps trace api"
  have sub: "holds trace (nrp_submitter api n)" for n
    unfolding nrp_submitter_def by (intro holds_intros api)
  have "holds trace (await_submitter fuel api name deadline found)" for deadline found
  proof (induction fuel arbitrary: found)
    case (Suc fuel)
    then show ?case unfolding await_submitter.simps by (intro holds_intros sub api)
  qed (simp add: holds_intros)
  then show ?thesis unfolding nrp_tail_def by (intro holds_intros sub api)
qed

lemma nrp_recorded_called:
  assumes api: "keeps trace api" and seen: "seen_nrp_job cfg u seen (j_name j)"
  shows "preserves (kept (call_law cfg u) seen tr) (nrp_recorded fuel api j http_method rest ws)"
proof -
  note allowed = call_law_simps(6,7) [THEN iffD2, OF seen] call_law_simps(8-10) [OF seen]
  have log: "holds trace (nrp_log api (j_name j))"
    unfolding nrp_log_def nrp_submitter_def by (intro holds_intros api)
  have stop: "preserves (kept (call_law cfg u) seen tr) (stop_nrp api j STOPPED_BY_USER)"
    unfolding stop_nrp_def set_stage_def nrp_patch_def Let_def
    by (intro pres_intros calling.kept_emit allowed calling_calls holds_intros api)
  have del: "preserves (kept (call_law cfg u) seen tr) (delete_nrp api (j_name j))"
    unfolding delete_nrp_def delete_prefix_def each.simps append.simps
    by (intro pres_intros calling.kept_emit allowed [simplified] calling_calls kept_modify holds_intros api) simp
  show ?thesis
    unfolding nrp_recorded_def Let_def
    by (intro pres_intros stop del kept_holds [OF log] kept_holds [OF nrp_tail_holds [OF api]])
qed

lemma running_called:
  assumes "keeps trace api"
  shows "preserves (kept (call_law cfg u) seen tr) (running cfg api u)"
  unfolding running_def
  by (intro pres_intros find_cluster_called calling_calls kept_modify holds_intros assms) simp

lemma running_own: "running cfg api u s = (Inr n, t) \<Longrightarrow> n = own cfg u"
  by (auto simp: running_def run_simps)

text \<open>After a coroutine that finds where a call goes, the call may be relayed there.\<close>

definition reached :: "gw_config \<Rightarrow> user \<Rightarrow> event list \<Rightarrow> job_answer + string \<times> string \<Rightarrow> 'w gateway \<Rightarrow> bool" where
  "reached cfg u tr r t \<longleftrightarrow> kept (call_law cfg u) [] tr t \<and> (\<forall>head keyed. r = Inr (head, keyed)
     \<longrightarrow> (\<exists>seen. kept (call_law cfg u) seen tr t \<and> call_law cfg u seen (Relay head keyed)))"

lemma running_reached:
  assumes api: "keeps trace api" and s: "kept (call_law cfg u) [] tr s"
  shows "wp (running cfg api u) (\<lambda>head. reached cfg u tr (Inr (head, head))) (\<lambda>_. kept (call_law cfg u) [] tr) s"
proof (rule wpI, goal_cases)
  case (1 head t)
  have "kept (call_law cfg u) [] tr t" using preservesD [OF running_called [OF api] s] 1 by (metis snd_conv)
  then show ?case using running_own [OF 1] by (auto simp: reached_def call_law_simps)
next
  case (2 e t)
  then show ?case using preservesD [OF running_called [OF api] s] by (metis snd_conv)
qed

lemma relay_http_called:
  assumes "keeps trace api" "call_law cfg u seen (Relay head keyed)"
  shows "preserves (kept (call_law cfg u) seen tr) (relay_http cfg api q head keyed content)"
  unfolding relay_http_def head_silent_def
  by (intro pres_intros calling.kept_emit assms(2) calling_calls kept_modify holds_intros assms(1)) simp

lemma kept_nil: "kept law seen tr t \<Longrightarrow> kept law [] tr t"
  by (auto simp: kept_def)

lemma answered_reached:
  assumes "preserves (kept (call_law cfg u) seen tr) m" "kept (call_law cfg u) seen tr s"
  shows "wp (bindm m (\<lambda>a. ret (Inl a))) (reached cfg u tr) (\<lambda>_. kept (call_law cfg u) [] tr) s"
  unfolding wp_bindm wp_ret
  by (rule wp_preserves [OF assms]) (auto simp: reached_def kept_def)

lemma unknown_job_reached:
  assumes api: "keeps trace api" "selects api" and s: "kept (call_law cfg u) [] tr s"
  shows "wp (unknown_job fuel cfg api u q sid rest) (reached cfg u tr) (\<lambda>_. kept (call_law cfg u) [] tr) s"
  unfolding unknown_job_def nrp_job_def bindm_assoc bindm_ret wp_bindm [of "nrp_jobs _ _ _"]
proof (rule wp_mono [OF nrp_jobs_called [OF api s]], goal_cases)
  case (1 js t)
  show ?case
  proof (cases "find (\<lambda>j. j_id j = sid) js")
    case None
    have "wp (running cfg api u) (\<lambda>head. reached cfg u tr (Inr (head, head))) (\<lambda>_. kept (call_law cfg u) [] tr) t"
      by (rule running_reached [OF api(1)]) (use 1 in simp)
    then show ?thesis
      unfolding None option.case wp_catch wp_bindm wp_ret
      by (rule wp_mono) (auto simp: wp_simps split: gw_error.split)
  next
    case (Some j)
    then have j: "j \<in> set js" by (auto simp: find_Some_iff)
    then have "seen_nrp_job cfg u [Saw_nrp_jobs js] (j_name j)"
      using 1 by (auto simp: seen_nrp_job_def list_all_iff)
    moreover have "kept (call_law cfg u) [Saw_nrp_jobs js] tr t" using 1 j by auto
    ultimately show ?thesis
      unfolding Some option.case by (intro answered_reached [OF nrp_recorded_called [OF api(1)]])
  qed
qed

definition found_job :: "'w api \<Rightarrow> http_call \<Rightarrow> string \<Rightarrow> rayjob \<Rightarrow> string option \<Rightarrow> ('w, job_answer + string \<times> string) io" where
  "found_job api q rest j cluster =
     (if dict_get (j_annotations j) LOGS_ANNOTATION [] \<noteq> [] \<and> q_method q = ''GET'' \<and> rest \<in> {''/logs'', ''/logs/tail''} then
        bindm (kept_logs api (dict_get (j_annotations j) LOGS_ANNOTATION [])) (\<lambda>a. ret (Inl a))
      else case cluster of
        None \<Rightarrow> bindm (recorded api j (q_method q) rest) (\<lambda>a. ret (Inl a))
      | Some head \<Rightarrow>
        if q_method q = ''DELETE'' then bindm (recorded api j (q_method q) rest) (\<lambda>a. ret (Inl a))
        else ret (Inr (head, j_name j)))"

lemma found_job_reached:
  assumes api: "keeps trace api" and j: "seen_job cfg u seen j" "cluster = None \<or> cluster = Some (j_head j)"
    and s: "kept (call_law cfg u) seen tr s"
  shows "wp (found_job api q rest j cluster) (reached cfg u tr) (\<lambda>_. kept (call_law cfg u) [] tr) s"
proof -
  have logs: "preserves (kept (call_law cfg u) seen tr) (kept_logs api k)" for k
    unfolding kept_logs_def by (intro pres_intros calling_calls holds_intros api)
  note kl = answered_reached [OF logs s] and rec = answered_reached [OF recorded_called [OF api j(1)] s]
  have relayed: "reached cfg u tr (Inr (j_head j, j_name j)) s"
    unfolding reached_def using s kept_nil [OF s] j(1) by (auto simp: call_law_simps)
  show ?thesis
    unfolding found_job_def using j(2) kl rec relayed by (auto simp: wp_ret split: option.split)
qed

lemma about_job_reached:
  assumes api: "keeps trace api" "selects api" and s: "kept (call_law cfg u) [] tr s"
  shows "wp (about_job fuel cfg api u q sid rest) (reached cfg u tr) (\<lambda>_. kept (call_law cfg u) [] tr) s"
  unfolding about_job_def job_def bindm_assoc Let_def found_job_def [symmetric] wp_bindm [of "jobs _ _ _"]
proof (rule wp_mono [OF jobs_called [OF api(1) s]], goal_cases)
  case (1 js t)
  let ?saw = "[Saw_jobs js]"
  show ?case
  proof (cases "find (\<lambda>j. j_id j = sid) js")
    case None
    have "kept (call_law cfg u) [] tr t" using 1 by (auto intro: kept_weaken)
    from unknown_job_reached [OF api this] show ?thesis unfolding None option.case bindm_ret by simp
  next
    case (Some j)
    then have "seen_job cfg u ?saw j" using 1 by (auto simp: seen_job_def list_all_iff find_Some_iff)
    note found = found_job_reached [OF api(1) this, of _ tr _ q rest]
    show ?thesis
    proof (cases "j_head j = []")
      case True
      then show ?thesis unfolding Some option.case bindm_ret using found 1 by (simp add: bindm_ret)
    next
      case False
      have "wp (find_cluster api (j_head j)) (\<lambda>_. kept (call_law cfg u) ?saw tr) (\<lambda>_. kept (call_law cfg u) [] tr) t"
        by (rule wp_preserves [OF find_cluster_called [OF api(1), where seen = ?saw]]) (use 1 in \<open>auto intro: kept_weaken\<close>)
      then show ?thesis
        unfolding Some option.case if_not_P [OF False] bindm_assoc bindm_ret wp_bindm [of "find_cluster _ _"]
        by (rule wp_mono) (simp_all add: found)
    qed
  qed
qed simp

lemma handle_call_called:
  assumes api: "keeps trace api" "selects api" and s: "kept (call_law cfg u) [] tr s"
  shows "wp (handle_call fuel cfg api u q) (\<lambda>_. kept (call_law cfg u) [] tr) (\<lambda>_. kept (call_law cfg u) [] tr) s"
proof -
  let ?I = "kept (call_law cfg u) [] tr"
  have relay: "wp (relay_http cfg api q head keyed content) (\<lambda>_. ?I) (\<lambda>_. ?I) t"
    if "reached cfg u tr (Inr (head, keyed)) t" for head keyed content t
  proof -
    from that obtain seen where seen: "kept (call_law cfg u) seen tr t" "call_law cfg u seen (Relay head keyed)"
      by (auto simp: reached_def)
    show ?thesis by (rule wp_preserves [OF relay_http_called [OF api(1) seen(2)] seen(1)]) (auto simp: kept_def)
  qed
  have listing: "wp (bindm (jobs cfg api u) (\<lambda>here. bindm (nrp_jobs cfg api u) (\<lambda>there.
      ret (Answered (Listed (map job_details (here @ there))))))) (\<lambda>_. ?I) (\<lambda>_. ?I) s"
    unfolding wp_bindm wp_ret
    by (rule wp_mono [OF jobs_called [OF api(1) s]], rule wp_mono [OF nrp_jobs_called [OF api]])
       (auto intro: kept_weaken)
  have other: "wp (bindm (running cfg api u) (\<lambda>head. relay_http cfg api q head head (q_content q))) (\<lambda>_. ?I) (\<lambda>_. ?I) s"
    unfolding wp_bindm by (rule wp_mono [OF running_reached [OF api(1) s]]) (auto intro: relay)
  have about: "wp (bindm (about_job fuel cfg api u q sid rest) (\<lambda>r. case r of Inl a \<Rightarrow> ret (Answered a)
      | Inr (head, keyed) \<Rightarrow> relay_http cfg api q head keyed (q_content q))) (\<lambda>_. ?I) (\<lambda>_. ?I) s" for sid rest
    unfolding wp_bindm
    by (rule wp_mono [OF about_job_reached [OF api s]])
       (auto simp: wp_ret reached_def intro: relay [unfolded reached_def] split: sum.split prod.split)
  show ?thesis
    unfolding handle_call_def using about listing other by (auto split: option.split)
qed

text \<open>
  C21: a call about jobs reaches only its caller's. Whatever path and job ID a call names that submits nothing, it is
  relayed only to the caller's own cluster, with that cluster's token, or to the cluster of a RayJob it has just
  read to be the caller's, by label and by the owner of its pods, with that job's token; it deletes only records
  of such RayJobs; and on NRP it stops and deletes only jobs that carry the caller's key. A call without
  an accepted token does nothing. This holds whatever Kubernetes, NRP and the heads answer, as long as
  a listing by label has only objects with that label.
\<close>

theorem handle_own_jobs:
  assumes api: "keeps trace api" "selects api" and q: "\<not> submits q" and s: "trace s = []"
  shows "trace (snd (handle fuel cfg api dumps q s)) = []
    \<or> (\<exists>u. calls_as cfg api (lowered (q_headers q)) s u \<and> lawful (call_law cfg u) (trace (snd (handle fuel cfg api dumps q s))))"
proof -
  let ?m = "bindm (caller_m cfg api (lowered (q_headers q))) (\<lambda>(u, shape). handle_as fuel cfg api q dumps u shape)"
  have same: "snd (handle fuel cfg api dumps q s) = snd (?m s)"
    unfolding handle_def refusals_answered_state [of ?m s, symmetric]
    by (cases "refusals_answered ?m s") (auto simp: bindm_def [of "refusals_answered _"] ret_def split: sum.split)
  obtain r t where run: "caller_m cfg api (lowered (q_headers q)) s = (r, t)" by fastforce
  have t: "trace t = []" using caller_trace [OF api(1), of cfg "lowered (q_headers q)" s] run s by simp
  show ?thesis
  proof (cases r)
    case (Inl e)
    then show ?thesis using same run t by (simp add: bindm_def)
  next
    case (Inr us)
    obtain u shape where us: "us = (u, shape)" by (cases us)
    have "kept (call_law cfg u) [] [] (snd (handle_call fuel cfg api u q t))"
      using handle_call_called [OF api, of cfg u "[]" t fuel q] t
      by (cases "handle_call fuel cfg api u q t") (auto simp: wp_def kept_def split: sum.splits)
    then have "lawful (call_law cfg u) (trace (snd (handle_as fuel cfg api q dumps u shape t)))"
      using q t by (auto simp: handle_as_def ret_def kept_def)
    moreover have "snd (?m s) = snd (handle_as fuel cfg api q dumps u shape t)"
      using run Inr us by (simp add: bindm_def)
    ultimately show ?thesis using same run Inr us by (auto simp: calls_as_def)
  qed
qed

definition example_listing :: http_call where
  "example_listing = \<lparr>q_method = ''GET'', q_path = ''/api/jobs/'', q_target = ''/api/jobs/'', q_headers = example_headers,
     q_content = [], q_json = None\<rparr>"

lemma example_lowered: "lowered example_headers = example_headers"
  by code_simp

theorem handle_own_jobs_witness:
  "\<exists>t. t = snd (handle 1 example_config (example_api :: unit api) (\<lambda>_. []) example_listing example_gateway)
     \<and> trace t = [Saw_nrp_jobs [], Saw_jobs []] \<and> (\<exists>u. lawful (call_law example_config u) (trace t))"
proof -
  let ?q = example_listing
  let ?t = "snd (handle 1 example_config (example_api :: unit api) (\<lambda>_. []) ?q example_gateway)"
  have sel: "selects (example_api :: unit api)" by (simp add: selects_def ret_def)
  have q: "\<not> submits ?q" "job_path (q_path ?q) = None" "lowered (q_headers ?q) = example_headers"
    by (simp_all add: example_listing_def submits_def job_path_def removeprefix_def example_lowered)
  obtain shape t where t: "caller_m example_config example_api example_headers example_gateway = (Inr (example_user, shape), t)"
      "trace t = []"
    using example_caller_m [of example_api] by auto
  have "handle_as 1 example_config example_api ?q (\<lambda>_. []) example_user shape t
      = (Inr (Answered (Listed [])), t\<lparr>trace := [Saw_nrp_jobs [], Saw_jobs []]\<rparr>)"
    using q t(2) by (simp add: handle_as_def handle_call_def example_listing_def jobs_def nrp_jobs_def nrp_listing_def run_defs
        example_config_def)
  then have tr: "trace ?t = [Saw_nrp_jobs [], Saw_jobs []]"
    using t q(3) by (simp add: handle_def refusals_answered_def bindm_def catch_def ret_def)
  have "trace ?t = [] \<or> (\<exists>u. calls_as example_config example_api (lowered (q_headers ?q)) example_gateway u
      \<and> lawful (call_law example_config u) (trace ?t))"
    by (rule handle_own_jobs [OF example_api_keeps sel q(1)]) (simp add: example_gateway_def)
  then show ?thesis using tr by auto
qed

end
