(* ===== verification/LLM_Config.thy ===== *)
theory LLM_Config
  imports Py_Json
begin

text \<open>
  The language model proxy's configuration (\<open>src/apps/agentic-analysis/llm_proxy.py\<close>): the settings, models and roles
  of \<open>models.toml\<close>, the budget of a model, and what \<open>load\<close> checks. The tables of the file come with the
  types the code takes them to have; an empty variant is none.
\<close>

definition SHARE :: rat where "SHARE = 35 / 100"

subsection \<open>Its records\<close>

record settings =
  upstream :: string
  port :: int
  max_body_bytes :: int
  bytes_per_token :: rat
  keepalive_seconds :: rat
  hold_hours :: rat
  stream_seconds :: rat
  cut_seconds :: rat
  backoff_seconds :: rat
  backoff_max_seconds :: rat
  cut_retries :: int
  drain_seconds :: rat
  budget_fraction :: rat
  output_per_minute :: int

record llm =
  lm_name :: string
  lm_context :: int
  lm_slots :: "int \<times> int"
  lm_budget :: int
  lm_output :: int
  lm_tokens :: "int \<times> int"
  lm_image :: int
  lm_ttft :: "rat \<times> rat"
  lm_decode :: "rat \<times> rat"
  lm_variants :: "(string, (string, json) dict) dict"

record backend =
  be_model :: string
  be_variant :: string

record role =
  ro_name :: string
  ro_backends :: "backend list"
  ro_context :: int
  ro_compact :: int
  ro_images :: int
  ro_rank :: int

record config =
  settings_of :: settings
  models :: "(string, llm) dict"
  roles :: "(string, role) dict"

text \<open>\<open>Backend.__str__\<close>.\<close>

definition show_backend :: "backend \<Rightarrow> string" where
  "show_backend b = (if be_variant b \<noteq> [] then be_model b @ ''#'' @ be_variant b else be_model b)"

subsection \<open>A model's budget\<close>

text \<open>\<open>float(f"{x:.3g}")\<close>: three significant figures.\<close>

definition three_figures :: "rat \<Rightarrow> rat" where
  "three_figures x = (if x = 0 then 0
     else let e = dec_exp \<bar>x\<bar> in sgn x * of_int (round_half_even (\<bar>x\<bar> * ten_power (2 - e))) * ten_power (e - 2))"

definition budget_of :: "rat \<Rightarrow> int \<Rightarrow> int" where
  "budget_of fraction context = trunc (three_figures (fraction * SHARE * of_int context))"

subsection \<open>Loading\<close>

record raw_model =
  rm_context :: int
  rm_slots :: "int \<times> int"
  rm_budget :: "int option"
  rm_output :: "int option"
  rm_tokens :: "int \<times> int"
  rm_image :: int
  rm_ttft :: "rat \<times> rat"
  rm_decode :: "rat \<times> rat"
  rm_variants :: "(string, (string, json) dict) dict"

record raw_role =
  rr_backends :: "string list"
  rr_context :: int
  rr_compact :: int
  rr_images :: int
  rr_class :: int

record raw_config =
  raw_proxy :: settings
  raw_models :: "(string, raw_model) dict"
  raw_roles :: "(string, raw_role) dict"

datatype config_error = Bad_slots string | Bad_tokens string | No_model string string | No_variant string string string
  | No_pictures string string | No_backends string | Empty_token

definition load_model :: "settings \<Rightarrow> string \<Rightarrow> raw_model \<Rightarrow> config_error + llm" where
  "load_model st name m =
     (if \<not> (1 \<le> fst (rm_slots m) \<and> fst (rm_slots m) \<le> snd (rm_slots m)) then Inl (Bad_slots name)
      else if \<not> (0 < fst (rm_tokens m) \<and> fst (rm_tokens m) \<le> snd (rm_tokens m)) then Inl (Bad_tokens name)
      else Inr \<lparr>lm_name = name, lm_context = rm_context m, lm_slots = rm_slots m,
        lm_budget = (case rm_budget m of None \<Rightarrow> budget_of (budget_fraction st) (rm_context m) | Some b \<Rightarrow> b),
        lm_output = (case rm_output m of None \<Rightarrow> output_per_minute st | Some n \<Rightarrow> n),
        lm_tokens = rm_tokens m, lm_image = rm_image m, lm_ttft = rm_ttft m, lm_decode = rm_decode m,
        lm_variants = rm_variants m\<rparr>)"

definition load_backend :: "(string, llm) dict \<Rightarrow> string \<Rightarrow> int \<Rightarrow> string \<Rightarrow> config_error + backend" where
  "load_backend ms name pictures entry =
     (let (model_name, variant) = partition_at (CHR ''#'') entry in
      case map_of ms model_name of None \<Rightarrow> Inl (No_model name model_name)
      | Some m \<Rightarrow>
        if variant \<noteq> [] \<and> map_of (lm_variants m) variant = None then Inl (No_variant name model_name variant)
        else if pictures \<noteq> 0 \<and> lm_image m = 0 then Inl (No_pictures name model_name)
        else Inr \<lparr>be_model = model_name, be_variant = variant\<rparr>)"

text \<open>A loop that raises at the first element it cannot take.\<close>

fun traverse :: "('a \<Rightarrow> 'e + 'b) \<Rightarrow> 'a list \<Rightarrow> 'e + 'b list" where
  "traverse f [] = Inr []"
| "traverse f (x # xs) = bind_sum (f x) (\<lambda>y. bind_sum (traverse f xs) (\<lambda>ys. Inr (y # ys)))"

definition load_role :: "(string, llm) dict \<Rightarrow> string \<Rightarrow> raw_role \<Rightarrow> config_error + role" where
  "load_role ms name r =
     bind_sum (traverse (load_backend ms name (rr_images r)) (rr_backends r)) (\<lambda>backends.
     if backends = [] then Inl (No_backends name)
     else Inr \<lparr>ro_name = name, ro_backends = backends, ro_context = rr_context r, ro_compact = rr_compact r,
       ro_images = rr_images r, ro_rank = rr_class r\<rparr>)"

definition load :: "raw_config \<Rightarrow> config_error + config" where
  "load raw =
     bind_sum (traverse (\<lambda>(name, m). map_sum id (Pair name) (load_model (raw_proxy raw) name m)) (raw_models raw)) (\<lambda>ms.
     bind_sum (traverse (\<lambda>(name, r). map_sum id (Pair name) (load_role ms name r)) (raw_roles raw)) (\<lambda>rs.
     Inr \<lparr>settings_of = raw_proxy raw, models = ms, roles = rs\<rparr>))"

subsection \<open>What a loaded configuration has\<close>

definition model_ok :: "llm \<Rightarrow> bool" where
  "model_ok m \<longleftrightarrow> 1 \<le> fst (lm_slots m) \<and> fst (lm_slots m) \<le> snd (lm_slots m)
     \<and> 0 < fst (lm_tokens m) \<and> fst (lm_tokens m) \<le> snd (lm_tokens m)"

definition backend_ok :: "(string, llm) dict \<Rightarrow> int \<Rightarrow> backend \<Rightarrow> bool" where
  "backend_ok ms pictures b \<longleftrightarrow> (case map_of ms (be_model b) of None \<Rightarrow> False
     | Some m \<Rightarrow> (be_variant b \<noteq> [] \<longrightarrow> map_of (lm_variants m) (be_variant b) \<noteq> None) \<and> (pictures \<noteq> 0 \<longrightarrow> lm_image m \<noteq> 0))"

definition role_ok :: "(string, llm) dict \<Rightarrow> role \<Rightarrow> bool" where
  "role_ok ms r \<longleftrightarrow> ro_backends r \<noteq> [] \<and> list_all (backend_ok ms (ro_images r)) (ro_backends r)"

definition config_ok :: "config \<Rightarrow> bool" where
  "config_ok c \<longleftrightarrow> list_all (\<lambda>(name, m). lm_name m = name \<and> model_ok m) (models c)
     \<and> list_all (\<lambda>(name, r). ro_name r = name \<and> role_ok (models c) r) (roles c)"

lemma traverse_Inr: "traverse f xs = Inr ys \<longleftrightarrow> list_all2 (\<lambda>x y. f x = Inr y) xs ys"
  by (induction xs arbitrary: ys) (auto simp: list_all2_Cons1)

lemma map_sum_Inr [simp]: "map_sum id f r = Inr y \<longleftrightarrow> (\<exists>x. r = Inr x \<and> y = f x)"
  by (cases r) auto

lemma load_model_ok: "load_model st name m = Inr l \<Longrightarrow> lm_name l = name \<and> model_ok l"
  by (auto simp: load_model_def model_ok_def split: if_splits)

lemma load_backend_ok: "load_backend ms name pictures entry = Inr b \<Longrightarrow> backend_ok ms pictures b"
  by (auto simp: load_backend_def backend_ok_def split: option.splits if_splits prod.splits)

lemma load_role_ok:
  assumes "load_role ms name r = Inr ro"
  shows "ro_name ro = name \<and> role_ok ms ro"
proof -
  obtain bs where bs: "list_all2 (\<lambda>x y. load_backend ms name (rr_images r) x = Inr y) (rr_backends r) bs"
      "bs \<noteq> []" "ro_backends ro = bs" "ro_images ro = rr_images r" "ro_name ro = name"
    using assms by (auto simp: load_role_def traverse_Inr split: if_splits)
  from bs(1) have "list_all (backend_ok ms (rr_images r)) bs"
    by (induction rule: list_all2_induct) (auto intro: load_backend_ok)
  with bs show ?thesis by (simp add: role_ok_def)
qed

lemma list_all2_right:
  "list_all2 R xs ys \<Longrightarrow> (\<And>x y. R x y \<Longrightarrow> P y) \<Longrightarrow> list_all P ys"
  by (induction rule: list_all2_induct) auto

text \<open>
  A configuration that loads is well formed: every model's slots and reply sizes are in order, every role has backends, and each
  names a model and a variant there is, one that takes images if the role may send any.
\<close>

lemma load_ok: "load raw = Inr c \<Longrightarrow> config_ok c"
  unfolding load_def config_ok_def
  by (fastforce simp: traverse_Inr dest: load_model_ok load_role_ok elim!: list_all2_right)

lemma config_okD:
  assumes "config_ok c"
  shows "map_of (models c) n = Some m \<Longrightarrow> lm_name m = n \<and> model_ok m"
    and "map_of (roles c) n = Some r \<Longrightarrow> ro_name r = n \<and> role_ok (models c) r"
  using assms by (auto simp: config_ok_def list_all_iff dest: map_of_SomeD)

lemma role_okD:
  "role_ok ms r \<Longrightarrow> b \<in> set (ro_backends r) \<Longrightarrow> \<exists>m. map_of ms (be_model b) = Some m"
  by (fastforce simp: role_ok_def backend_ok_def list_all_iff split: option.splits)

end
