(* ===== verification/LLM_Gate.thy ===== *)
theory LLM_Gate
  imports LLM_Config "HOL-Library.Multiset"
begin

text \<open>
  \<open>Gate\<close> (\<open>src/apps/agentic-analysis/llm_proxy.py\<close>): admission to one model. Its slots, the tokens its requests in
  flight hold, its output of the last minute, and how its speed and failures move the slots.

  Each operation here is what a thread does while it has the gate's lock, with the time it reads as an argument;
  \<open>acquire\<close>, which gives the lock up while it waits, is three of them: joining the queue, one look at whether
  there is room, and leaving the queue. An instant before all others (\<open>-inf\<close>) is \<open>None\<close>.
\<close>

definition WINDOW :: rat where "WINDOW = 900"
definition SAMPLES :: nat where "SAMPLES = 5"
definition SLOW_DECODE :: rat where "SLOW_DECODE = 1 / 10"
definition SLOW_TTFT :: rat where "SLOW_TTFT = 9 / 10"
definition TTFT_SLOWDOWN :: rat where "TTFT_SLOWDOWN = 3"
definition DECODE_SLOWDOWN :: rat where "DECODE_SLOWDOWN = 1 / 2"
definition SHRINK_PERIOD :: rat where "SHRINK_PERIOD = 300"
definition GROW_PERIOD :: rat where "GROW_PERIOD = 600"
definition FAILING_SECONDS :: rat where "FAILING_SECONDS = 1800"
definition UNHEALTHY_SECONDS :: rat where "UNHEALTHY_SECONDS = 600"
definition AGING :: rat where "AGING = 600"

subsection \<open>Its state\<close>

record gate =
  g_slots :: int
  g_busy :: int
  g_held :: int
  g_output :: "(time \<times> int) list"
  g_ttfts :: "(time \<times> rat) list"
  g_decodes :: "(time \<times> rat) list"
  g_waiting :: "(int, int \<times> time) dict"
  g_paused :: time
  g_failures :: int
  g_failing :: "time option"
  g_last_failure :: "time option"
  g_unhealthy :: time
  g_adjusted :: "time option"
  g_seq :: int

definition new_gate :: "llm \<Rightarrow> gate" where
  "new_gate m = \<lparr>g_slots = fst (lm_slots m), g_busy = 0, g_held = 0, g_output = [], g_ttfts = [], g_decodes = [],
     g_waiting = [], g_paused = 0, g_failures = 0, g_failing = None, g_last_failure = None, g_unhealthy = 0,
     g_adjusted = None, g_seq = 0\<rparr>"

text \<open>\<open>now - t > d\<close> and \<open>now - t \<ge> d\<close> for an instant that may be before all others.\<close>

definition longer :: "time option \<Rightarrow> time \<Rightarrow> rat \<Rightarrow> bool" where
  "longer t now d = (case t of None \<Rightarrow> True | Some t \<Rightarrow> now - t > d)"

definition as_long :: "time option \<Rightarrow> time \<Rightarrow> rat \<Rightarrow> bool" where
  "as_long t now d = (case t of None \<Rightarrow> True | Some t \<Rightarrow> now - t \<ge> d)"

definition expire :: "rat \<Rightarrow> time \<Rightarrow> (time \<times> 'a) list \<Rightarrow> (time \<times> 'a) list" where
  "expire d now = dropWhile (\<lambda>(t, _). now - t > d)"

subsection \<open>Samples\<close>

definition quantile :: "rat list \<Rightarrow> rat \<Rightarrow> rat" where
  "quantile xs q = (let ordered = sort xs in ordered ! min (length ordered - 1) (nat (trunc (q * of_nat (length ordered)))))"

text \<open>\<open>statistics.median\<close>.\<close>

definition median :: "rat list \<Rightarrow> rat" where
  "median xs = (let ordered = sort xs; n = length ordered in
     if odd n then ordered ! (n div 2) else (ordered ! (n div 2 - 1) + ordered ! (n div 2)) / 2)"

subsection \<open>Admission\<close>

definition out_tokens :: "time \<Rightarrow> gate \<Rightarrow> int \<times> gate" where
  "out_tokens now g = (let left = expire 60 now (g_output g) in (sum_list (map snd left), g\<lparr>g_output := left\<rparr>))"

definition fits :: "llm \<Rightarrow> int \<Rightarrow> time \<Rightarrow> gate \<Rightarrow> bool \<times> gate" where
  "fits m tokens now g =
     (if g_busy g < g_slots g \<and> (g_held g + tokens \<le> lm_budget m \<or> g_busy g = 0) \<and> now \<ge> g_paused g
      then (let (n, g') = out_tokens now g in (n < lm_output m, g'))
      else (False, g))"

definition queue_order :: "time \<Rightarrow> int \<times> time \<Rightarrow> int \<times> time" where
  "queue_order now w = (max 0 (fst w - \<lfloor>(now - snd w) / AGING\<rfloor>), snd w)"

definition earlier :: "int \<times> time \<Rightarrow> int \<times> time \<Rightarrow> bool" where
  "earlier a b \<longleftrightarrow> fst a < fst b \<or> (fst a = fst b \<and> snd a < snd b)"

text \<open>\<open>min(items, key=order)\<close>: the first of those with the least key.\<close>

fun first_min :: "('a \<Rightarrow> int \<times> time) \<Rightarrow> 'a \<Rightarrow> 'a list \<Rightarrow> 'a" where
  "first_min key best [] = best"
| "first_min key best (x # xs) = first_min key (if earlier (key x) (key best) then x else best) xs"

definition first_in_line :: "int \<Rightarrow> time \<Rightarrow> gate \<Rightarrow> bool" where
  "first_in_line seq now g = (case g_waiting g of [] \<Rightarrow> False
     | w # ws \<Rightarrow> fst (first_min (queue_order now \<circ> snd) w ws) = seq)"

definition enqueue :: "int \<Rightarrow> time \<Rightarrow> gate \<Rightarrow> int \<times> gate" where
  "enqueue rank now g = (let seq = g_seq g + 1 in
     (seq, g\<lparr>g_seq := seq, g_waiting := AList.update seq (rank, now) (g_waiting g)\<rparr>))"

text \<open>One look at whether there is room, with the slot taken if there is.\<close>

definition attempt :: "llm \<Rightarrow> int \<Rightarrow> int \<Rightarrow> time \<Rightarrow> gate \<Rightarrow> bool \<times> gate" where
  "attempt m seq tokens now g =
     (let (room, g') = fits m tokens now g in
      if room \<and> first_in_line seq now g' then (True, g'\<lparr>g_busy := g_busy g' + 1, g_held := g_held g' + tokens\<rparr>)
      else (False, g'))"

definition leave_line :: "int \<Rightarrow> gate \<Rightarrow> gate" where
  "leave_line seq g = g\<lparr>g_waiting := AList.delete seq (g_waiting g)\<rparr>"

text \<open>How long a request waits for the gate to change before it looks again.\<close>

definition wake_after :: "time \<Rightarrow> time \<Rightarrow> gate \<Rightarrow> rat" where
  "wake_after deadline now g = (let wake = min 1 (deadline - now) in
     if g_paused g > now then min wake (g_paused g - now) else wake)"

definition release :: "int \<Rightarrow> int \<Rightarrow> time \<Rightarrow> gate \<Rightarrow> gate" where
  "release tokens completion now g =
     (let g' = g\<lparr>g_busy := g_busy g - 1, g_held := g_held g - tokens\<rparr> in
      if completion \<noteq> 0 then g'\<lparr>g_output := g_output g' @ [(now, completion)]\<rparr> else g')"

subsection \<open>Its speed\<close>

definition trim :: "time \<Rightarrow> gate \<Rightarrow> gate" where
  "trim now g = g\<lparr>g_ttfts := expire WINDOW now (g_ttfts g), g_decodes := expire WINDOW now (g_decodes g)\<rparr>"

definition cap_of :: "llm \<Rightarrow> settings \<Rightarrow> gate \<Rightarrow> int" where
  "cap_of m st g =
     (let (slow, late) =
        (if length (g_decodes g) \<ge> SAMPLES
         then (quantile (map snd (g_decodes g)) SLOW_DECODE,
               if g_ttfts g \<noteq> [] then quantile (map snd (g_ttfts g)) SLOW_TTFT else 0)
         else (snd (lm_decode m), snd (lm_ttft m)));
        reach = trunc (slow * (stream_seconds st - late))
      in max (fst (lm_tokens m)) (min (snd (lm_tokens m)) reach))"

definition cap :: "llm \<Rightarrow> settings \<Rightarrow> time \<Rightarrow> gate \<Rightarrow> int \<times> gate" where
  "cap m st now g = (let g' = trim now g in (cap_of m st g', g'))"

definition adjust :: "llm \<Rightarrow> time \<Rightarrow> gate \<Rightarrow> gate" where
  "adjust m now g =
     (if length (g_decodes g) < SAMPLES \<or> \<not> as_long (g_adjusted g) now SHRINK_PERIOD then g
      else let ttft = (if g_ttfts g \<noteq> [] then median (map snd (g_ttfts g)) else 0);
               slow = median (map snd (g_decodes g)) < DECODE_SLOWDOWN * fst (lm_decode m)
           in if ttft > TTFT_SLOWDOWN * fst (lm_ttft m) \<or> slow
              then g\<lparr>g_slots := max 1 (g_slots g div 2), g_adjusted := Some now\<rparr>
              else if as_long (g_adjusted g) now GROW_PERIOD \<and> g_slots g < snd (lm_slots m)
              then g\<lparr>g_slots := g_slots g + 1, g_adjusted := Some now\<rparr>
              else g)"

definition observe :: "llm \<Rightarrow> rat option \<Rightarrow> rat option \<Rightarrow> time \<Rightarrow> gate \<Rightarrow> gate" where
  "observe m ttft decode now g =
     (let g1 = (case ttft of None \<Rightarrow> g | Some t \<Rightarrow> g\<lparr>g_ttfts := g_ttfts g @ [(now, t)]\<rparr>);
          g2 = (case decode of None \<Rightarrow> g1 | Some d \<Rightarrow> g1\<lparr>g_decodes := g_decodes g1 @ [(now, d)]\<rparr>)
      in adjust m now (trim now g2))"

text \<open>\<open>succeeded\<close> forgets the failures and gives the lock up before it observes.\<close>

definition settle :: "gate \<Rightarrow> gate" where
  "settle g = g\<lparr>g_failures := 0, g_failing := None\<rparr>"

definition succeeded :: "llm \<Rightarrow> rat option \<Rightarrow> rat option \<Rightarrow> time \<Rightarrow> gate \<Rightarrow> gate" where
  "succeeded m ttft decode now g = observe m ttft decode now (settle g)"

subsection \<open>Its failures\<close>

text \<open>A failure counted: the state after it, and since when the model fails.\<close>

definition count_failure :: "settings \<Rightarrow> time \<Rightarrow> gate \<Rightarrow> time \<times> gate" where
  "count_failure st now g =
     (let g1 = (if longer (g_last_failure g) now (backoff_max_seconds st) then g\<lparr>g_failures := 0, g_failing := None\<rparr> else g);
          since = (case g_failing g1 of None \<Rightarrow> now | Some t \<Rightarrow> if t = 0 then now else t)
      in (since, g1\<lparr>g_failures := g_failures g1 + 1, g_last_failure := Some now, g_failing := Some since\<rparr>))"

text \<open>\<open>failed\<close>, with the number \<open>random.uniform(0.75, 1.25)\<close> gives: the seconds to wait, and the gate.\<close>

definition failed :: "settings \<Rightarrow> rat option \<Rightarrow> nat \<Rightarrow> rat \<Rightarrow> time \<Rightarrow> gate \<Rightarrow> rat \<times> gate" where
  "failed st retry_after tries jitter now g =
     (let (since, g1) = count_failure st now g;
          g2 = (if as_long (g_adjusted g1) now SHRINK_PERIOD
                then g1\<lparr>g_slots := max 1 (g_slots g1 div 2), g_adjusted := Some now\<rparr> else g1);
          g3 = (if now - since \<ge> FAILING_SECONDS then g2\<lparr>g_unhealthy := now + UNHEALTHY_SECONDS\<rparr> else g2)
      in case retry_after of
           Some r \<Rightarrow> (r, g3\<lparr>g_paused := now + r\<rparr>)
         | None \<Rightarrow> (min (backoff_max_seconds st) (backoff_seconds st * 2 ^ (tries - 1)) * jitter, g3))"

definition healthy :: "time \<Rightarrow> gate \<Rightarrow> bool" where
  "healthy now g \<longleftrightarrow> now \<ge> g_unhealthy g"

record gate_status =
  gs_slots :: int
  gs_busy :: int
  gs_held :: int
  gs_waiting :: nat
  gs_output :: int
  gs_healthy :: bool
  gs_failures :: int

definition report :: "time \<Rightarrow> gate \<Rightarrow> gate_status \<times> gate" where
  "report now g = (let (n, g') = out_tokens now g in
     (\<lparr>gs_slots = g_slots g, gs_busy = g_busy g, gs_held = g_held g, gs_waiting = length (g_waiting g), gs_output = n,
       gs_healthy = (now \<ge> g_unhealthy g), gs_failures = g_failures g\<rparr>, g'))"

subsection \<open>Fair use\<close>

text \<open>
  What the gate promises, without its queue, its clock and its speeds: the requests in flight, each with the tokens it holds. One
  is let in while fewer than \<open>most\<close> are, and if all of them together stay within the budget or it is alone.
\<close>

inductive fair_step :: "int \<Rightarrow> int \<Rightarrow> int \<Rightarrow> int multiset \<Rightarrow> int multiset \<Rightarrow> bool" for most budget share where
  let_in: "0 \<le> n \<Longrightarrow> n \<le> share \<Longrightarrow> int (size f) < most \<Longrightarrow> sum_mset f + n \<le> budget \<or> f = {#}
    \<Longrightarrow> fair_step most budget share f (add_mset n f)"
| let_out: "n \<in># f \<Longrightarrow> fair_step most budget share f (f - {#n#})"

definition fair :: "int \<Rightarrow> int \<Rightarrow> int \<Rightarrow> int multiset \<Rightarrow> bool" where
  "fair most budget share f \<longleftrightarrow> int (size f) \<le> most \<and> sum_mset f \<le> max budget share \<and> (\<forall>n \<in># f. 0 \<le> n)"

lemma fair_let_out: "fair most budget share f \<Longrightarrow> n \<in># f \<Longrightarrow> fair most budget share (f - {#n#})"
  by (auto dest!: multi_member_split simp: fair_def)

lemma fair_step_fair:
  assumes "fair_step most budget share f f'" "fair most budget share f"
  shows "fair most budget share f'"
  using assms(1)
proof cases
  case (let_in n)
  then show ?thesis using assms(2) by (auto simp: fair_def)
next
  case (let_out n)
  then show ?thesis using fair_let_out [OF assms(2)] by simp
qed

text \<open>
  A step of the gate, with the requests in flight beside it: whatever any thread does while it has the lock. A request asks for no more than
  \<open>share\<close>, and gives back what it took.
\<close>

type_synonym gated = "gate \<times> int multiset"

inductive gate_step :: "llm \<Rightarrow> settings \<Rightarrow> int \<Rightarrow> gated \<Rightarrow> gated \<Rightarrow> bool" for m st share where
  joined: "enqueue rank now g = (seq, g') \<Longrightarrow> gate_step m st share (g, f) (g', f)"
| granted: "0 \<le> n \<Longrightarrow> n \<le> share \<Longrightarrow> attempt m seq n now g = (True, g')
    \<Longrightarrow> gate_step m st share (g, f) (leave_line seq g', add_mset n f)"
| refused: "attempt m seq n now g = (False, g') \<Longrightarrow> gate_step m st share (g, f) (g', f)"
| left: "gate_step m st share (g, f) (leave_line seq g, f)"
| released: "n \<in># f \<Longrightarrow> gate_step m st share (g, f) (release n completion now g, f - {#n#})"
| capped: "cap m st now g = (n, g') \<Longrightarrow> gate_step m st share (g, f) (g', f)"
| observed: "gate_step m st share (g, f) (observe m ttft decode now g, f)"
| settled: "gate_step m st share (g, f) (settle g, f)"
| failure: "failed st retry tries jitter now g = (wait, g') \<Longrightarrow> gate_step m st share (g, f) (g', f)"
| reported: "report now g = (v, g') \<Longrightarrow> gate_step m st share (g, f) (g', f)"

definition counted :: "llm \<Rightarrow> int multiset \<Rightarrow> gated \<Rightarrow> bool" where
  "counted m f s \<longleftrightarrow> snd s = f \<and> g_busy (fst s) = int (size f) \<and> g_held (fst s) = sum_mset f
     \<and> 1 \<le> g_slots (fst s) \<and> g_slots (fst s) \<le> snd (lm_slots m)"

lemmas gate_defs = enqueue_def leave_line_def release_def cap_def trim_def settle_def report_def out_tokens_def

text \<open>What an operation leaves alone: everything the counts are made of, but for the slots.\<close>

lemma fits_counts:
  assumes "fits m n now g = (room, g')"
  shows "g_busy g' = g_busy g" "g_held g' = g_held g" "g_slots g' = g_slots g" "g_waiting g' = g_waiting g"
    and "room \<Longrightarrow> g_busy g < g_slots g \<and> (g_held g + n \<le> lm_budget m \<or> g_busy g = 0)"
  using assms by (auto simp: fits_def out_tokens_def Let_def split: if_splits)

lemma attempt_counts:
  assumes "attempt m seq n now g = (ok, g')"
  shows "g_slots g' = g_slots g" "g_waiting g' = g_waiting g"
    and "g_busy g' = g_busy g + (if ok then 1 else 0)" "g_held g' = g_held g + (if ok then n else 0)"
    and "ok \<Longrightarrow> g_busy g < g_slots g \<and> (g_held g + n \<le> lm_budget m \<or> g_busy g = 0)"
  using assms by (auto simp: attempt_def Let_def split: prod.splits if_splits dest: fits_counts)

lemma adjust_counts:
  "g_busy (adjust m now g) = g_busy g" "g_held (adjust m now g) = g_held g" "g_waiting (adjust m now g) = g_waiting g"
  "g_output (adjust m now g) = g_output g"
  "1 \<le> g_slots g \<Longrightarrow> g_slots g \<le> snd (lm_slots m)
    \<Longrightarrow> 1 \<le> g_slots (adjust m now g) \<and> g_slots (adjust m now g) \<le> snd (lm_slots m)"
  by (auto simp: adjust_def Let_def)

lemma observe_counts:
  "g_busy (observe m ttft decode now g) = g_busy g" "g_held (observe m ttft decode now g) = g_held g"
  "g_waiting (observe m ttft decode now g) = g_waiting g" "g_output (observe m ttft decode now g) = g_output g"
  "1 \<le> g_slots g \<Longrightarrow> g_slots g \<le> snd (lm_slots m)
    \<Longrightarrow> 1 \<le> g_slots (observe m ttft decode now g) \<and> g_slots (observe m ttft decode now g) \<le> snd (lm_slots m)"
  by (auto simp: observe_def Let_def adjust_counts trim_def split: option.split)

lemma failed_counts:
  assumes "failed st retry tries jitter now g = (wait, g')"
  shows "g_busy g' = g_busy g" "g_held g' = g_held g" "g_waiting g' = g_waiting g" "g_output g' = g_output g"
    and "1 \<le> g_slots g \<Longrightarrow> 1 \<le> g_slots g' \<and> g_slots g' \<le> g_slots g"
  using assms by (auto simp: failed_def count_failure_def Let_def split: if_splits option.splits)

lemma counted_step:
  assumes s: "counted m f s" and step: "gate_step m st share s t"
  shows "\<exists>f'. (fair_step (snd (lm_slots m)) (lm_budget m) share)\<^sup>=\<^sup>= f f' \<and> counted m f' t"
  using step
proof cases
  case (granted n seq now g g')
  have "fair_step (snd (lm_slots m)) (lm_budget m) share f (add_mset n f)"
    using s granted attempt_counts(5) [OF granted(5)] by (intro fair_step.let_in) (auto simp: counted_def)
  moreover have "counted m (add_mset n f) t"
    using s granted attempt_counts [OF granted(5)] by (auto simp: counted_def leave_line_def)
  ultimately show ?thesis by blast
next
  case (released n f g completion now)
  then have "counted m (f - {#n#}) t"
    using s by (auto dest!: multi_member_split simp: counted_def release_def Let_def)
  moreover have "fair_step (snd (lm_slots m)) (lm_budget m) share f (f - {#n#})"
    using released by (intro fair_step.let_out)
  ultimately show ?thesis using s released by (auto simp: counted_def)
next
  case (refused seq n now g g')
  then show ?thesis using s attempt_counts [OF refused(3)] by (auto simp: counted_def)
next
  case (failure retry tries jitter now g wait g')
  then show ?thesis using s failed_counts [OF failure(3)] by (auto simp: counted_def)
qed (use s in \<open>auto simp: counted_def gate_defs Let_def observe_counts\<close>)

interpretation fair_use: simulation "\<lambda>f. f = {#} \<and> model_ok m \<and> 0 \<le> share" "fair_step (snd (lm_slots m)) (lm_budget m) share"
  "fair (snd (lm_slots m)) (lm_budget m) share" "\<lambda>s. model_ok m \<and> 0 \<le> share \<and> s = (new_gate m, {#})"
  "gate_step m st share" "counted m"
proof (unfold_locales, goal_cases)
  case (1 f)
  then show ?case by (auto simp: fair_def model_ok_def)
next
  case (2 s t)
  then show ?case by (rule fair_step_fair)
next
  case (3 s)
  then show ?case by (auto simp: counted_def new_gate_def model_ok_def)
next
  case (4 f s t)
  then show ?case by (intro counted_step)
qed


definition example_llm :: llm where
  "example_llm = \<lparr>lm_name = ''glm-5'', lm_context = 1048576, lm_slots = (2, 2), lm_budget = 330000, lm_output = 40800,
     lm_tokens = (6000, 20000), lm_image = 0, lm_ttft = (92 / 100, 34 / 10), lm_decode = (303 / 10, 228 / 10), lm_variants = []\<rparr>"

definition example_settings :: settings where
  "example_settings = \<lparr>upstream = ''https://ellm.nrp-nautilus.io/v1'', port = 8080, max_body_bytes = 3670016, bytes_per_token = 3,
     keepalive_seconds = 15, hold_hours = 5 / 2, stream_seconds = 1080, cut_seconds = 1200, backoff_seconds = 30,
     backoff_max_seconds = 600, cut_retries = 3, drain_seconds = 600, budget_fraction = 9 / 10, output_per_minute = 40800\<rparr>"

lemmas example_llm_simps = example_llm_def example_settings_def


end
