(* ===== verification/LLM_Queue.thy ===== *)
theory LLM_Queue
  imports LLM_Gate
begin

text \<open>
  The gate over time (\<open>src/apps/agentic-analysis/llm_proxy.py\<close>): any sequence of operations on it, at times that do not
  go back. The output of the last minute is what the history gives, and a request that has waited long enough is
  not passed by later ones.
\<close>

subsection \<open>A history of the gate\<close>

text \<open>What the threads did to the gate, one after another, and when.\<close>

datatype gate_op = Join int time | Look int int time | Leave int time | Give_back int int time | Cap time
  | Observe "rat option" "rat option" time | Settle time | Fail "rat option" nat rat time | Report time

fun op_time :: "gate_op \<Rightarrow> time" where
  "op_time (Join rank now) = now"
| "op_time (Look seq n now) = now"
| "op_time (Leave seq now) = now"
| "op_time (Give_back n completion now) = now"
| "op_time (Cap now) = now"
| "op_time (Observe ttft decode now) = now"
| "op_time (Settle now) = now"
| "op_time (Fail retry tries jitter now) = now"
| "op_time (Report now) = now"

text \<open>Whether a look lets its request in, which then leaves the line at once.\<close>

fun lets_in :: "llm \<Rightarrow> gate_op \<Rightarrow> gate \<Rightarrow> bool" where
  "lets_in m (Look seq n now) g = fst (attempt m seq n now g)"
| "lets_in m _ g = False"

fun gate_do :: "llm \<Rightarrow> settings \<Rightarrow> gate_op \<Rightarrow> gate \<Rightarrow> gate" where
  "gate_do m st (Join rank now) g = snd (enqueue rank now g)"
| "gate_do m st (Look seq n now) g =
     (let (ok, g') = attempt m seq n now g in if ok then leave_line seq g' else g')"
| "gate_do m st (Leave seq now) g = leave_line seq g"
| "gate_do m st (Give_back n completion now) g = release n completion now g"
| "gate_do m st (Cap now) g = snd (cap m st now g)"
| "gate_do m st (Observe ttft decode now) g = observe m ttft decode now g"
| "gate_do m st (Settle now) g = settle g"
| "gate_do m st (Fail retry tries jitter now) g = snd (failed st retry tries jitter now g)"
| "gate_do m st (Report now) g = snd (report now g)"

fun gate_run :: "llm \<Rightarrow> settings \<Rightarrow> gate_op list \<Rightarrow> gate \<Rightarrow> gate" where
  "gate_run m st [] g = g"
| "gate_run m st (x # xs) g = gate_run m st xs (gate_do m st x g)"

lemma gate_run_append: "gate_run m st (xs @ ys) g = gate_run m st ys (gate_run m st xs g)"
  by (induction xs arbitrary: g) auto

text \<open>The clock does not go back.\<close>

abbreviation in_order :: "gate_op list \<Rightarrow> bool" where
  "in_order ops \<equiv> sorted (map op_time ops)"

subsection \<open>The output of the last minute\<close>

text \<open>By the whole history: what was given back in the last minute.\<close>

fun outputs :: "gate_op list \<Rightarrow> (time \<times> int) list" where
  "outputs [] = []"
| "outputs (Give_back n completion now # ops) = (if completion = 0 then [] else [(now, completion)]) @ outputs ops"
| "outputs (_ # ops) = outputs ops"

definition output_since :: "gate_op list \<Rightarrow> time \<Rightarrow> int" where
  "output_since ops now = sum_list (map snd (filter (\<lambda>(t, _). now - t \<le> 60) (outputs ops)))"

lemma outputs_append: "outputs (xs @ ys) = outputs xs @ outputs ys"
  by (induction xs rule: outputs.induct) auto

lemma expire_sorted: "sorted (map fst xs) \<Longrightarrow> expire d now xs = filter (\<lambda>(t, _). now - t \<le> d) xs"
proof (induction xs)
  case (Cons x xs)
  have "filter (\<lambda>(t, _). now - t \<le> d) xs = xs" if "now - fst x \<le> d"
    using Cons.prems that by (auto simp: filter_id_conv)
  with Cons show ?case by (auto simp: expire_def split: prod.splits)
qed (simp add: expire_def)

text \<open>The deque has the last outputs; those that are gone were over a minute old.\<close>

definition output_kept :: "gate_op list \<Rightarrow> gate \<Rightarrow> bool" where
  "output_kept ops g \<longleftrightarrow> (\<exists>old. outputs ops = old @ g_output g \<and> (\<forall>(t, n) \<in> set old. \<exists>op \<in> set ops. op_time op - t > 60))"

lemma outputs_times: "(t, n) \<in> set (outputs ops) \<Longrightarrow> \<exists>op \<in> set ops. op_time op = t"
  by (induction ops rule: outputs.induct) (auto split: if_splits)

lemma outputs_sorted: "in_order ops \<Longrightarrow> sorted (map fst (outputs ops))"
  by (induction ops rule: outputs.induct) (auto dest: outputs_times)

lemma output_kept_same:
  "output_kept ops g \<Longrightarrow> outputs [x] = [] \<Longrightarrow> g_output g' = g_output g \<Longrightarrow> output_kept (ops @ [x]) g'"
  by (fastforce simp: output_kept_def outputs_append)

lemma output_kept_expire:
  assumes "output_kept ops g" "outputs [x] = []" "g_output g' = expire 60 (op_time x) (g_output g)"
  shows "output_kept (ops @ [x]) g'"
proof -
  from assms(1) obtain old where old: "outputs ops = old @ g_output g" "\<forall>(t, n) \<in> set old. \<exists>op \<in> set ops. op_time op - t > 60"
    by (auto simp: output_kept_def)
  let ?gone = "takeWhile (\<lambda>(t, _). op_time x - t > 60) (g_output g)"
  have "outputs (ops @ [x]) = (old @ ?gone) @ g_output g'"
    using old(1) assms(2,3) by (simp add: outputs_append expire_def)
  moreover have "\<forall>(t, n) \<in> set (old @ ?gone). \<exists>op \<in> set (ops @ [x]). op_time op - t > 60"
    using old(2) by (fastforce dest: set_takeWhileD)
  ultimately show ?thesis unfolding output_kept_def by blast
qed

lemma attempt_output:
  "g_output (gate_do m st (Look seq n now) g) \<in> {g_output g, expire 60 now (g_output g)}"
  by (auto simp: attempt_def fits_def out_tokens_def leave_line_def Let_def)

lemma output_kept_do:
  assumes "output_kept ops g"
  shows "output_kept (ops @ [x]) (gate_do m st x g)"
proof (cases x)
  case (Look seq n now)
  then show ?thesis
    using attempt_output [of m st seq n now g] output_kept_same [OF assms, of x] output_kept_expire [OF assms, of x] by force
next
  case (Give_back n completion now)
  then show ?thesis
    using assms by (fastforce simp: output_kept_def outputs_append release_def Let_def)
next
  case (Fail retry tries jitter now)
  then show ?thesis
    using output_kept_same [OF assms, of x] failed_counts(4) [OF prod.collapse [symmetric]] by simp
next
  case (Report now)
  then show ?thesis
    using output_kept_expire [OF assms, of x] by (simp add: report_def out_tokens_def Let_def)
qed (use output_kept_same [OF assms, of x] in \<open>simp_all add: gate_defs Let_def observe_counts\<close>)

lemma output_kept_run: "output_kept ops (gate_run m st ops (new_gate m))"
proof (induction ops rule: rev_induct)
  case Nil
  then show ?case by (simp add: output_kept_def new_gate_def)
next
  case (snoc x ops)
  then show ?case by (simp add: gate_run_append output_kept_do)
qed

text \<open>
  C34: the gate counts the output of the last minute as the whole history gives it. The deque it drops old entries
  from, whenever it happens to look, gives at any time the sum of what was given back in the 60 seconds
  before, as long as the clock does not go back.
\<close>

theorem output_of_last_minute:
  assumes "in_order ops" "\<forall>op \<in> set ops. op_time op \<le> now"
  shows "fst (out_tokens now (gate_run m st ops (new_gate m))) = output_since ops now"
proof -
  let ?g = "gate_run m st ops (new_gate m)"
  obtain old where old: "outputs ops = old @ g_output ?g" "\<forall>(t, n) \<in> set old. \<exists>op \<in> set ops. op_time op - t > 60"
    using output_kept_run [of ops m st] by (auto simp: output_kept_def)
  have "sorted (map fst (g_output ?g))"
    using outputs_sorted [OF assms(1)] old(1) by (simp add: sorted_append)
  moreover have "filter (\<lambda>(t, _). now - t \<le> 60) old = []"
    using old(2) assms(2) by (fastforce simp: filter_empty_conv)
  ultimately show ?thesis
    by (simp add: out_tokens_def output_since_def expire_sorted old(1) Let_def)
qed

theorem output_of_last_minute_witness:
  "let ops = [Give_back 100 7 0, Report 50, Give_back 100 5 61, Report 62]
   in in_order ops \<and> fst (out_tokens 63 (gate_run example_llm example_settings ops (new_gate example_llm))) = 5"
proof -
  let ?ops = "[Give_back 100 7 0, Report 50, Give_back 100 5 61, Report 62]"
  have "fst (out_tokens 63 (gate_run example_llm example_settings ?ops (new_gate example_llm))) = output_since ?ops 63"
    by (rule output_of_last_minute) simp_all
  then show ?thesis by (simp add: output_since_def)
qed

subsection \<open>No request waits behind later ones for good\<close>

text \<open>The requests in line stand in the order they came in, with numbers given out once.\<close>

definition lined_up :: "time \<Rightarrow> gate \<Rightarrow> bool" where
  "lined_up now g \<longleftrightarrow> sorted_wrt (\<lambda>a b. fst a < fst b \<and> snd (snd a) \<le> snd (snd b)) (g_waiting g)
     \<and> (\<forall>(seq, rank, since) \<in> set (g_waiting g). seq \<le> g_seq g \<and> since \<le> now)"

lemma lined_up_leave: "lined_up now g \<Longrightarrow> lined_up now (leave_line seq g)"
  by (auto simp: lined_up_def leave_line_def AList.delete_eq sorted_wrt_filter)

lemma lined_up_same:
  "lined_up now g \<Longrightarrow> now \<le> now' \<Longrightarrow> g_waiting g' = g_waiting g \<Longrightarrow> g_seq g' = g_seq g \<Longrightarrow> lined_up now' g'"
  by (fastforce simp: lined_up_def)

lemma waiting_enqueue:
  "lined_up now g \<Longrightarrow> g_waiting (snd (enqueue rank now' g)) = g_waiting g @ [(g_seq g + 1, rank, now')]"
  unfolding enqueue_def by (fastforce simp: lined_up_def Let_def intro!: update_new)

lemma lined_up_enqueue:
  assumes "lined_up now g" "now \<le> now'"
  shows "lined_up now' (snd (enqueue rank now' g))"
  using assms waiting_enqueue [OF assms(1), of rank now']
  by (fastforce simp: lined_up_def sorted_wrt_append enqueue_def Let_def)

lemma fits_seq: "fits m n now g = (room, g') \<Longrightarrow> g_seq g' = g_seq g"
  by (auto simp: fits_def out_tokens_def Let_def split: if_splits)

lemma attempt_seq: "attempt m seq n now g = (ok, g') \<Longrightarrow> g_seq g' = g_seq g"
  by (auto simp: attempt_def Let_def fits_seq split: prod.splits if_splits)

lemma observe_seq: "g_seq (observe m ttft decode now g) = g_seq g"
  by (auto simp: observe_def adjust_def trim_def Let_def split: option.split)

lemma failed_seq: "failed st retry tries jitter now g = (wait, g') \<Longrightarrow> g_seq g' = g_seq g"
  by (auto simp: failed_def count_failure_def Let_def split: if_splits option.splits)

text \<open>What an operation does to the line: one joins at its end, one leaves, or nothing.\<close>

lemma gate_do_line:
  assumes "lined_up now g"
  shows "(\<exists>rank t. x = Join rank t \<and> g_waiting (gate_do m st x g) = g_waiting g @ [(g_seq g + 1, rank, t)]
      \<and> g_seq (gate_do m st x g) = g_seq g + 1)
    \<or> (\<exists>seq. g_waiting (gate_do m st x g) = AList.delete seq (g_waiting g) \<and> g_seq (gate_do m st x g) = g_seq g
        \<and> (lets_in m x g \<longrightarrow> (\<exists>n t. x = Look seq n t)))
    \<or> (g_waiting (gate_do m st x g) = g_waiting g \<and> g_seq (gate_do m st x g) = g_seq g \<and> \<not> lets_in m x g)"
proof (cases x)
  case (Join rank t)
  then show ?thesis using waiting_enqueue [OF assms, of rank t] by (simp add: enqueue_def Let_def)
next
  case (Look seq n t)
  obtain ok g' where a: "attempt m seq n t g = (ok, g')" by fastforce
  show ?thesis using Look a attempt_counts(2) [OF a] attempt_seq [OF a] by (cases ok) (auto simp: leave_line_def)
next
  case (Fail retry tries jitter t)
  obtain wait g' where a: "failed st retry tries jitter t g = (wait, g')" by fastforce
  show ?thesis using Fail a failed_counts(3) [OF a] failed_seq [OF a] by simp
next
  case (Leave seq t)
  then show ?thesis by (auto simp: leave_line_def)
qed (auto simp: gate_defs Let_def observe_counts observe_seq)

lemma lined_up_do:
  assumes "lined_up now g" "now \<le> op_time x"
  shows "lined_up (op_time x) (gate_do m st x g)"
proof -
  have later: "lined_up (op_time x) g" using lined_up_same [OF assms refl refl] .
  from gate_do_line [OF assms(1), of x m st] show ?thesis
  proof (elim disjE exE conjE)
    fix rank t
    assume "x = Join rank t"
    then show ?thesis using lined_up_enqueue [OF assms(1), of t rank] assms(2) by simp
  next
    fix seq
    assume "g_waiting (gate_do m st x g) = AList.delete seq (g_waiting g)" "g_seq (gate_do m st x g) = g_seq g"
    then show ?thesis
      by (intro lined_up_same [OF lined_up_leave [OF later, of seq]]) (simp_all add: leave_line_def)
  next
    assume "g_waiting (gate_do m st x g) = g_waiting g" "g_seq (gate_do m st x g) = g_seq g"
    then show ?thesis using lined_up_same [OF later] by simp
  qed
qed

lemma lined_up_run:
  "lined_up now g \<Longrightarrow> sorted (now # map op_time ops) \<Longrightarrow> lined_up (last (now # map op_time ops)) (gate_run m st ops g)"
proof (induction ops arbitrary: now g)
  case (Cons x ops)
  then show ?case using lined_up_do [of now g x m st] by simp
qed simp

lemma sorted_last: "sorted xs \<Longrightarrow> x \<in> set xs \<Longrightarrow> x \<le> last xs"
  by (induction xs) auto

lemma lined_up_history:
  assumes "in_order ops"
  shows "\<exists>now. lined_up now (gate_run m st ops (new_gate m)) \<and> (\<forall>op \<in> set ops. op_time op \<le> now)
    \<and> (ops \<noteq> [] \<longrightarrow> now = op_time (last ops))"
proof (cases ops)
  case Nil
  then show ?thesis by (auto simp: lined_up_def new_gate_def)
next
  case (Cons x xs)
  have "lined_up (op_time x) (new_gate m)" by (simp add: lined_up_def new_gate_def)
  then have "lined_up (last (map op_time ops)) (gate_run m st ops (new_gate m))"
    using lined_up_run [of "op_time x" "new_gate m" ops m st] assms Cons by simp
  moreover have "op_time op \<le> last (map op_time ops)" if "op \<in> set ops" for op
    using sorted_last [OF assms, of "op_time op"] that by simp
  ultimately show ?thesis using Cons by (auto simp: last_map)
qed

text \<open>The least key is no greater than any other, and the first with it is taken.\<close>

lemma first_min_in: "first_min key b xs \<in> set (b # xs)"
  by (induction xs arbitrary: b) auto

lemma earlier_trans: "\<not> earlier a b \<Longrightarrow> \<not> earlier b c \<Longrightarrow> \<not> earlier a c"
  by (auto simp: earlier_def)

lemma first_min_least: "x \<in> set (b # xs) \<Longrightarrow> \<not> earlier (key x) (key (first_min key b xs))"
proof (induction xs arbitrary: b x)
  case (Cons y xs)
  have "\<not> earlier (key z) (key (first_min key b (y # xs)))" if "z \<in> set ((if earlier (key y) (key b) then y else b) # xs)" for z
    using Cons.IH [OF that] by simp
  then show ?case using Cons.prems by (fastforce simp: earlier_def split: if_splits)
qed (simp add: earlier_def)

lemma earlier_mixed: "\<not> earlier b a \<Longrightarrow> earlier b c \<Longrightarrow> earlier a c" "earlier a b \<Longrightarrow> \<not> earlier c b \<Longrightarrow> earlier a c"
  by (auto simp: earlier_def)

lemma first_min_keeps: "first_min key b xs = b \<or> earlier (key (first_min key b xs)) (key b)"
proof (induction xs arbitrary: b)
  case (Cons y xs)
  then show ?case using Cons.IH [of y] Cons.IH [of b] earlier_mixed(1) [of "key y" "key (first_min key y xs)" "key b"]
    first_min_least [of y y xs key] by simp
qed simp

lemma first_min_first:
  "sorted_wrt P (b # xs) \<Longrightarrow> x \<in> set (b # xs) \<Longrightarrow>
   first_min key b xs = x \<or> earlier (key (first_min key b xs)) (key x) \<or> P (first_min key b xs) x"
proof (induction xs arbitrary: b x)
  case (Cons y xs)
  show ?case
  proof (cases "earlier (key y) (key b)")
    case True
    show ?thesis
    proof (cases "x = b")
      case True
      then show ?thesis using first_min_keeps [of key b "y # xs"] by auto
    next
      case False
      then show ?thesis using Cons.IH [of y x] Cons.prems True by auto
    qed
  next
    case False
    show ?thesis
    proof (cases "x = y")
      case True
      then show ?thesis
        using first_min_keeps [of key b xs] Cons.prems(1) False earlier_mixed(2) by fastforce
    next
      case x: False
      then show ?thesis using Cons.IH [of b x] Cons.prems False by auto
    qed
  qed
qed simp

lemma sorted_wrt_either: "sorted_wrt P xs \<Longrightarrow> x \<in> set xs \<Longrightarrow> y \<in> set xs \<Longrightarrow> x = y \<or> P x y \<or> P y x"
  by (induction xs) auto

text \<open>A request whose class has risen to the first is passed only by those that came before it.\<close>

lemma aged_order: "since + of_int rank * AGING \<le> now \<Longrightarrow> queue_order now (rank, since) = (0, since)"
proof -
  assume "since + of_int rank * AGING \<le> now"
  then have "of_int rank \<le> (now - since) / AGING" by (simp add: AGING_def field_simps)
  then have "rank \<le> \<lfloor>(now - since) / AGING\<rfloor>" by (simp add: le_floor_iff)
  then show ?thesis by (simp add: queue_order_def)
qed

lemma aged_first:
  assumes line: "lined_up now' g" and r: "(seq, rank, since) \<in> set (g_waiting g)"
    and aged: "since + of_int rank * AGING \<le> now" and first: "first_in_line seq' now g"
  shows "seq' \<le> seq \<and> seq' \<in> fst ` set (g_waiting g)"
proof -
  obtain w ws where ws: "g_waiting g = w # ws" using r by (cases "g_waiting g") auto
  let ?key = "queue_order now \<circ> snd"
  let ?m = "first_min ?key w ws"
  have m: "fst ?m = seq'" "?m \<in> set (g_waiting g)"
    using first ws first_min_in [of ?key w ws] by (auto simp: first_in_line_def)
  let ?P = "\<lambda>a b. fst a < fst b \<and> snd (snd a) \<le> snd (snd b)"
  have sorted: "sorted_wrt ?P (w # ws)" using line ws by (simp add: lined_up_def)
  from first_min_first [OF sorted, of "(seq, rank, since)" ?key]
  consider "?m = (seq, rank, since)" | "earlier (?key ?m) (0, since)" | "fst ?m < seq"
    using r ws aged_order [OF aged] by auto
  then show ?thesis
  proof cases
    case 2
    then have "snd (snd ?m) < since" by (auto simp: earlier_def queue_order_def)
    moreover have "?m \<in> set (w # ws)" "(seq, rank, since) \<in> set (w # ws)" using m(2) r ws by simp_all
    ultimately have "fst ?m < seq" using sorted_wrt_either [OF sorted, of ?m "(seq, rank, since)"] by auto
    then show ?thesis using m by (auto intro: rev_image_eqI)
  qed (use m in \<open>auto intro: rev_image_eqI\<close>)
qed

definition ahead :: "int \<Rightarrow> gate \<Rightarrow> nat" where
  "ahead seq g = length (filter (\<lambda>w. fst w < seq) (g_waiting g))"

text \<open>How many requests a history lets in.\<close>

fun let_ins :: "llm \<Rightarrow> settings \<Rightarrow> gate_op list \<Rightarrow> gate \<Rightarrow> nat" where
  "let_ins m st [] g = 0"
| "let_ins m st (x # xs) g = (if lets_in m x g then 1 else 0) + let_ins m st xs (gate_do m st x g)"

definition waits :: "int \<Rightarrow> gate \<Rightarrow> bool" where
  "waits seq g \<longleftrightarrow> seq \<in> fst ` set (g_waiting g)"

lemma length_filter_delete:
  fixes k seq :: int
  assumes "k \<in> fst ` set d" "k < seq"
  shows "length (filter (\<lambda>w. fst w < seq) (AList.delete k d)) < length (filter (\<lambda>w. fst w < seq) d)"
proof -
  have "filter (\<lambda>w. fst w < seq) (AList.delete k d) = filter (\<lambda>w. fst w \<noteq> k) (filter (\<lambda>w. fst w < seq) d)"
    by (auto simp: AList.delete_eq case_prod_beta intro: filter_cong)
  moreover obtain w where "w \<in> set (filter (\<lambda>w. fst w < seq) d)" "fst w = k" using assms by auto
  ultimately show ?thesis
    using length_filter_less [of w "filter (\<lambda>w. fst w < seq) d" "\<lambda>w. fst w \<noteq> k"] by (simp only:)
qed

lemma ahead_delete_le: "length (filter P (AList.delete k d)) \<le> length (filter P d)"
  by (induction d) auto

text \<open>One operation while an aged request waits on: if it lets one in, one fewer is ahead.\<close>

lemma ahead_do:
  assumes line: "lined_up now g" and r: "(seq, rank, since) \<in> set (g_waiting g)"
    and aged: "since + of_int rank * AGING \<le> op_time x" and on: "waits seq (gate_do m st x g)"
  shows "ahead seq (gate_do m st x g) + (if lets_in m x g then 1 else 0) \<le> ahead seq g"
    and "(seq, rank, since) \<in> set (g_waiting (gate_do m st x g))"
proof -
  have seq: "seq \<le> g_seq g" using line r by (auto simp: lined_up_def)
  from gate_do_line [OF line, of x m st]
  have "ahead seq (gate_do m st x g) + (if lets_in m x g then 1 else 0) \<le> ahead seq g
    \<and> (seq, rank, since) \<in> set (g_waiting (gate_do m st x g))"
  proof (elim disjE exE conjE)
    fix rank t
    assume "x = Join rank t" "g_waiting (gate_do m st x g) = g_waiting g @ [(g_seq g + 1, rank, t)]"
    then show ?thesis using seq r by (simp add: ahead_def)
  next
    fix k
    assume del: "g_waiting (gate_do m st x g) = AList.delete k (g_waiting g)"
      and look: "lets_in m x g \<longrightarrow> (\<exists>n t. x = Look k n t)"
    have k: "k \<noteq> seq" using on del by (auto simp: waits_def AList.delete_eq)
    have "ahead seq (gate_do m st x g) < ahead seq g" if ok: "lets_in m x g"
    proof -
      obtain n t where x: "x = Look k n t" using look ok by blast
      obtain g' where a: "attempt m k n t g = (True, g')" using ok x by (cases "attempt m k n t g") auto
      have "\<exists>g0. first_in_line k t g0 \<and> g_waiting g0 = g_waiting g"
        using a by (auto simp: attempt_def Let_def dest: fits_counts(4) split: prod.splits if_splits)
      then have "first_in_line k t g" by (auto simp: first_in_line_def)
      from aged_first [OF line r _ this] have "k < seq" "k \<in> fst ` set (g_waiting g)" using aged x k by auto
      then show ?thesis unfolding ahead_def del by (intro length_filter_delete)
    qed
    moreover have "ahead seq (gate_do m st x g) \<le> ahead seq g" unfolding ahead_def del by (rule ahead_delete_le)
    moreover have "(seq, rank, since) \<in> set (g_waiting (gate_do m st x g))" using r del k by (auto simp: AList.delete_eq)
    ultimately show ?thesis by auto
  qed (use r in \<open>simp_all add: ahead_def\<close>)
  then show "ahead seq (gate_do m st x g) + (if lets_in m x g then 1 else 0) \<le> ahead seq g"
    "(seq, rank, since) \<in> set (g_waiting (gate_do m st x g))" by simp_all
qed

lemma gone_for_good:
  "lined_up now g \<Longrightarrow> sorted (now # map op_time ops) \<Longrightarrow> seq \<le> g_seq g \<Longrightarrow> waits seq (gate_run m st ops g) \<Longrightarrow> waits seq g"
proof (induction ops arbitrary: now g)
  case (Cons x ops)
  have "seq \<le> g_seq (gate_do m st x g)" "waits seq (gate_do m st x g) \<Longrightarrow> waits seq g"
    using gate_do_line [OF Cons.prems(1), of x m st] Cons.prems(3) by (auto simp: waits_def AList.delete_eq)
  moreover have "waits seq (gate_do m st x g)"
    using Cons.IH [OF lined_up_do [OF Cons.prems(1)], of x m st] Cons.prems calculation(1) by simp
  ultimately show ?case by blast
qed simp

lemma let_ins_bounded:
  assumes "lined_up now g" "sorted (now # map op_time ops)" "(seq, rank, since) \<in> set (g_waiting g)"
    "\<forall>x \<in> set ops. since + of_int rank * AGING \<le> op_time x" "waits seq (gate_run m st ops g)"
  shows "let_ins m st ops g \<le> ahead seq g"
  using assms
proof (induction ops arbitrary: now g)
  case (Cons x ops)
  have line: "lined_up (op_time x) (gate_do m st x g)" using Cons.prems(1,2) by (intro lined_up_do) auto
  have "seq \<le> g_seq g" using Cons.prems(1,3) by (auto simp: lined_up_def)
  then have "seq \<le> g_seq (gate_do m st x g)" using gate_do_line [OF Cons.prems(1), of x m st] by auto
  from gone_for_good [OF line _ this, of ops m st] have on: "waits seq (gate_do m st x g)" using Cons.prems(2,5) by simp
  note step = ahead_do [OF Cons.prems(1,3) _ on]
  have "let_ins m st ops (gate_do m st x g) \<le> ahead seq (gate_do m st x g)"
    using Cons.prems step(2) by (intro Cons.IH [OF line]) auto
  then show ?case using step(1) Cons.prems(4) by simp
qed simp

text \<open>
  C23: no request waits behind later ones for good. Once a request has waited \<open>AGING\<close> seconds for each class it is below
  the first, the gate lets in, as long as it still waits, no more requests than were in line before it: a later one,
  of whatever class, never passes it. This holds after any history and for any that follows, with a clock that does
  not go back.
\<close>

theorem aged_not_overtaken:
  assumes ops: "in_order (ops @ next)" and g: "g = gate_run m st ops (new_gate m)"
    and r: "(seq, rank, since) \<in> set (g_waiting g)"
    and aged: "\<forall>x \<in> set next. since + of_int rank * AGING \<le> op_time x"
    and on: "waits seq (gate_run m st next g)"
  shows "let_ins m st next g \<le> ahead seq g"
proof -
  have "in_order ops" using ops by (simp add: sorted_append)
  from lined_up_history [OF this, of m st] g obtain now where
    now: "lined_up now g" "ops \<noteq> [] \<longrightarrow> now = op_time (last ops)" by auto
  have "ops \<noteq> []" using r g by (auto simp: new_gate_def)
  then have "sorted (now # map op_time next)"
    using ops now(2) last_in_set [of ops] by (auto simp: sorted_append)
  from let_ins_bounded [OF now(1) this r aged on] show ?thesis .
qed

theorem aged_not_overtaken_witness:
  "let ops = [Join 0 1, Join 4 2, Join 0 2500]; next = [Look 3 9000 2501, Look 1 9000 2502, Look 3 9000 2503];
       g = gate_run example_llm example_settings ops (new_gate example_llm)
   in in_order (ops @ next) \<and> ahead 2 g = 1 \<and> let_ins example_llm example_settings next g \<le> 1"
proof -
  let ?ops = "[Join 0 1, Join 4 2, Join 0 2500]" and ?next = "[Look 3 9000 2501, Look 1 9000 2502, Look 3 9000 2503]"
  let ?g = "gate_run example_llm example_settings ?ops (new_gate example_llm)"
  have w: "g_waiting ?g = [(1, 0, 1), (2, 4, 2), (3, 0, 2500)]" by (simp add: enqueue_def new_gate_def Let_def)
  have "g_waiting (gate_run example_llm example_settings ?next ?g) = [(2, 4, 2), (3, 0, 2500)]" by code_simp
  then have on: "waits 2 (gate_run example_llm example_settings ?next ?g)" by (simp add: waits_def)
  have "let_ins example_llm example_settings ?next ?g \<le> ahead 2 ?g"
    by (rule aged_not_overtaken [OF _ refl _ _ on, where rank = 4 and since = 2]) (simp_all only: w, simp_all add: AGING_def)
  then show ?thesis using w by (simp add: ahead_def)
qed

end
