(* ===== verification/LLM_Reply.thy ===== *)
theory LLM_Reply
  imports LLM_Config
begin

text \<open>
  \<open>Reply\<close> (\<open>src/apps/agentic-analysis/llm_proxy.py\<close>): one upstream answer, put together from its chunks, checked, and
  answered as a whole or as a stream; the proxy's own errors; the images of a request.

  The chunks are JSON as the model sent it, so that a field may have any type: what Python raises on one it
  cannot take is the left of a sum. The identifiers of \<open>uuid4\<close> and the time are arguments.
\<close>

definition DECODE_TOKENS :: int where "DECODE_TOKENS = 50"
definition DECODE_SECONDS :: rat where "DECODE_SECONDS = 1"

record tool_call =
  c_id :: json
  c_name :: string
  c_arguments :: string

record reply =
  r_status :: nat
  r_payloads :: "string list"
  r_done :: bool
  r_finish :: json
  r_content :: string
  r_reasoning :: string
  r_reasoning_name :: string
  r_calls :: "(json, tool_call) dict"
  r_usage :: json
  r_ttft :: "rat option"
  r_seconds :: rat
  r_error :: string
  r_code :: string
  r_headers :: "(string, string) dict"

definition new_reply :: reply where
  "new_reply = \<lparr>r_status = 0, r_payloads = [], r_done = False, r_finish = JNull, r_content = [], r_reasoning = [],
     r_reasoning_name = ''reasoning_content'', r_calls = [], r_usage = JNull, r_ttft = None, r_seconds = 0, r_error = [],
     r_code = [], r_headers = []\<rparr>"

subsection \<open>A chunk\<close>

fun fold_sum :: "('a \<Rightarrow> 's \<Rightarrow> 'e + 's) \<Rightarrow> 'a list \<Rightarrow> 's \<Rightarrow> 'e + 's" where
  "fold_sum f [] s = Inr s"
| "fold_sum f (x # xs) s = bind_sum (f x s) (fold_sum f xs)"

text \<open>A key of a dictionary: a list or an object is none, and \<open>True\<close> is 1.\<close>

definition hash_key :: "json \<Rightarrow> exn + json" where
  "hash_key j = (case j of JList _ \<Rightarrow> Inl ''TypeError'' | JObj _ \<Rightarrow> Inl ''TypeError''
     | JBool b \<Rightarrow> Inr (JNum (if b then 1 else 0)) | _ \<Rightarrow> Inr j)"

text \<open>\<open>(x.get(k) or "")\<close> where text is added to.\<close>

definition text_of :: "json \<Rightarrow> string \<Rightarrow> exn + string" where
  "text_of x k = bind_sum (jget x k) (\<lambda>v. as_text (or_else v (JStr [])))"

definition call_index :: "json \<Rightarrow> nat \<Rightarrow> exn + json" where
  "call_index call n = (case call of JObj d \<Rightarrow> hash_key (dict_get d ''index'' (JNum (of_nat n))) | _ \<Rightarrow> Inl ''AttributeError'')"

definition take_call :: "nat \<times> json \<Rightarrow> reply \<Rightarrow> exn + reply" where
  "take_call nc r = (let (n, call) = nc in
     bind_sum (call_index call n) (\<lambda>key.
     let slot = dict_get (r_calls r) key \<lparr>c_id = JStr [], c_name = [], c_arguments = []\<rparr> in
     bind_sum (jget call ''id'') (\<lambda>i.
     bind_sum (jget call ''function'') (\<lambda>f.
     let function = or_else f (JObj []) in
     bind_sum (text_of function ''name'') (\<lambda>name.
     bind_sum (text_of function ''arguments'') (\<lambda>arguments.
     Inr (r\<lparr>r_calls := AList.update key \<lparr>c_id = or_else i (c_id slot), c_name = c_name slot @ name,
       c_arguments = c_arguments slot @ arguments\<rparr> (r_calls r)\<rparr>)))))))"

definition take_reasoning :: "json \<Rightarrow> string \<Rightarrow> reply \<Rightarrow> exn + reply" where
  "take_reasoning delta name r =
     bind_sum (jget delta name) (\<lambda>v.
     if truthy v then bind_sum (as_text v) (\<lambda>t. Inr (r\<lparr>r_reasoning := r_reasoning r @ t, r_reasoning_name := name\<rparr>))
     else Inr r)"

definition delta_of :: "json \<Rightarrow> exn + json" where
  "delta_of choice =
     bind_sum (jget choice ''delta'') (\<lambda>d.
     if truthy d then Inr d else bind_sum (jget choice ''message'') (\<lambda>m. Inr (or_else m (JObj []))))"

definition take_choice :: "json \<Rightarrow> reply \<Rightarrow> exn + reply" where
  "take_choice choice r =
     bind_sum (delta_of choice) (\<lambda>delta.
     bind_sum (text_of delta ''content'') (\<lambda>content.
     bind_sum (fold_sum (take_reasoning delta) [''reasoning_content'', ''reasoning'']
       (r\<lparr>r_content := r_content r @ content\<rparr>)) (\<lambda>r1.
     bind_sum (jget delta ''tool_calls'') (\<lambda>cs.
     bind_sum (elements (or_else cs (JList []))) (\<lambda>calls.
     bind_sum (fold_sum take_call (enumerate 0 calls) r1) (\<lambda>r2.
     bind_sum (jget choice ''finish_reason'') (\<lambda>f.
     Inr (if truthy f then r2\<lparr>r_finish := f\<rparr> else r2))))))))"

text \<open>\<open>Reply.take\<close>. The method's name is a function on lists here, and so it is called \<open>take_chunk\<close>.\<close>

definition take_chunk :: "json \<Rightarrow> reply \<Rightarrow> exn + reply" where
  "take_chunk chunk r =
     bind_sum (jget chunk ''usage'') (\<lambda>u.
     bind_sum (jget chunk ''choices'') (\<lambda>cs.
     bind_sum (elements (or_else cs (JList []))) (\<lambda>choices.
     fold_sum take_choice choices (if truthy u then r\<lparr>r_usage := u\<rparr> else r))))"

subsection \<open>What it is worth\<close>

definition completion :: "reply \<Rightarrow> exn + int" where
  "completion r =
     bind_sum (jget (or_else (r_usage r) (JObj [])) ''completion_tokens'') (\<lambda>n.
     as_int (or_else n (JNum (of_nat (length (r_payloads r))))))"

definition problem :: "reply \<Rightarrow> string option" where
  "problem r =
     (if \<not> r_done r then Some ''cut''
      else if r_finish r = JStr ''tool_calls'' \<and> r_calls r = [] then Some ''no tool call''
      else if list_ex (\<lambda>(_, c). json_loads (if c_arguments c = [] then ''{}'' else c_arguments c) = None) (r_calls r)
      then Some ''bad tool arguments'' else None)"

definition decode_speed :: "reply \<Rightarrow> exn + rat option" where
  "decode_speed r =
     bind_sum (completion r) (\<lambda>tokens.
     let spent = r_seconds r - (case r_ttft r of None \<Rightarrow> 0 | Some t \<Rightarrow> t) in
     Inr (if tokens > DECODE_TOKENS \<and> spent > DECODE_SECONDS then Some (of_int tokens / spent) else None))"

subsection \<open>Answering it\<close>

text \<open>\<open>sorted(self.calls.items())\<close>: by number or by text; other keys, and both together, cannot be compared.\<close>

definition number_of :: "json \<Rightarrow> rat" where
  "number_of j = (case j of JNum r \<Rightarrow> r | _ \<Rightarrow> 0)"

definition text_key :: "json \<Rightarrow> string" where
  "text_key j = (case j of JStr s \<Rightarrow> s | _ \<Rightarrow> [])"

definition sorted_calls :: "(json, tool_call) dict \<Rightarrow> exn + tool_call list" where
  "sorted_calls cs =
     (if length cs \<le> 1 then Inr (map snd cs)
      else if list_all (\<lambda>(k, _). case k of JNum _ \<Rightarrow> True | _ \<Rightarrow> False) cs then Inr (map snd (sort_key (number_of \<circ> fst) cs))
      else if list_all (\<lambda>(k, _). case k of JStr _ \<Rightarrow> True | _ \<Rightarrow> False) cs then Inr (map snd (sort_key (text_key \<circ> fst) cs))
      else Inl ''TypeError'')"

definition call_view :: "(nat \<Rightarrow> string) \<Rightarrow> nat \<times> tool_call \<Rightarrow> (string \<times> json) list" where
  "call_view fresh nc = (let (n, c) = nc in
     [(''id'', or_else (c_id c) (JStr (''call_'' @ take 12 (fresh n)))), (''type'', JStr ''function''),
      (''function'', JObj [(''name'', JStr (c_name c)), (''arguments'', JStr (c_arguments c))])])"

text \<open>The assistant's message: its fields in order, and the views of its tool calls with \<open>extra\<close> fields for each.\<close>

definition message_fields :: "(nat \<Rightarrow> string) \<Rightarrow> (nat \<Rightarrow> (string \<times> json) list) \<Rightarrow> reply \<Rightarrow> exn + (string \<times> json) list" where
  "message_fields fresh extra r =
     bind_sum (sorted_calls (r_calls r)) (\<lambda>calls.
     Inr ([(''role'', JStr ''assistant''), (''content'', if r_content r = [] then JNull else JStr (r_content r))]
       @ (if r_reasoning r \<noteq> [] then [(r_reasoning_name r, JStr (r_reasoning r))] else [])
       @ (if r_calls r \<noteq> [] then [(''tool_calls'', JList (map (\<lambda>nc. JObj (call_view fresh nc @ extra (fst nc))) (enumerate 0 calls)))]
          else [])))"

definition choice_view :: "string \<Rightarrow> json \<Rightarrow> json \<Rightarrow> json" where
  "choice_view what message finish = JObj [(''index'', JNum 0), (what, message), (''finish_reason'', finish)]"

definition message :: "(nat \<Rightarrow> string) \<Rightarrow> int \<Rightarrow> string \<Rightarrow> reply \<Rightarrow> exn + json" where
  "message fresh created role r =
     bind_sum (message_fields fresh (\<lambda>_. []) r) (\<lambda>fields.
     Inr (JObj [(''id'', JStr (''chatcmpl-'' @ fresh (length (r_calls r)))), (''object'', JStr ''chat.completion''),
       (''created'', JNum (of_int created)), (''model'', JStr role),
       (''choices'', JList [choice_view ''message'' (JObj fields) (r_finish r)]), (''usage'', r_usage r)]))"

text \<open>The chunks of a stream rebuilt from a whole reply: \<open>{**base, "choices": ..., ...}\<close>.\<close>

definition chunk_view :: "string \<Rightarrow> int \<Rightarrow> string \<Rightarrow> json list \<Rightarrow> (string \<times> json) list \<Rightarrow> json" where
  "chunk_view uid created role choices rest =
     JObj ([(''id'', JStr (''chatcmpl-'' @ uid)), (''created'', JNum (of_int created)), (''model'', JStr role),
       (''object'', JStr ''chat.completion.chunk''), (''choices'', JList choices)] @ rest)"

definition rebuilt :: "(nat \<Rightarrow> string) \<Rightarrow> int \<Rightarrow> string \<Rightarrow> reply \<Rightarrow> exn + json list" where
  "rebuilt fresh created role r =
     bind_sum (message_fields fresh (\<lambda>n. [(''index'', JNum (of_nat n))]) r) (\<lambda>delta.
     let chunk = chunk_view (fresh (length (r_calls r))) created role
     in Inr ([chunk [choice_view ''delta'' (JObj delta) JNull] [], chunk [choice_view ''delta'' (JObj []) (r_finish r)] []]
       @ (if truthy (r_usage r) then [chunk [] [(''usage'', r_usage r)]] else [])))"

definition chunks :: "(nat \<Rightarrow> string) \<Rightarrow> int \<Rightarrow> string \<Rightarrow> reply \<Rightarrow> exn + string list" where
  "chunks fresh created role r =
     (if r_payloads r \<noteq> [] then Inr (r_payloads r) else map_sum id (map json_dumps) (rebuilt fresh created role r))"

subsection \<open>Errors\<close>

definition failure :: "nat \<Rightarrow> string \<Rightarrow> string \<Rightarrow> reply" where
  "failure status code text = new_reply\<lparr>r_status := status, r_error := text, r_code := code\<rparr>"

definition error_json :: "string \<Rightarrow> string \<Rightarrow> json" where
  "error_json text code = JObj [(''error'', JObj [(''message'', JStr text), (''type'', JStr ''proxy''), (''code'', JStr code)])]"

definition error_body :: "reply \<Rightarrow> string" where
  "error_body r = json_dumps (error_json (r_error r) (r_code r))"

definition inner_error :: "reply \<Rightarrow> json" where
  "inner_error r = JObj [(''type'', JStr ''error''), (''error'', JObj [(''code'', JStr (r_code r)), (''message'', JStr (r_error r))])]"

definition error_chunk :: "reply \<Rightarrow> string" where
  "error_chunk r = json_dumps (error_json (json_dumps (inner_error r)) (r_code r))"

text \<open>An upstream refusal; its text is taken to be ASCII, which decoding does not change.\<close>

definition upstream_error :: "reply \<Rightarrow> string \<Rightarrow> reply" where
  "upstream_error r text = (let said = take 2000 text in
     r\<lparr>r_error := said, r_code := (if sublist ''context'' (lower said) then ''context_length_exceeded'' else ''invalid_prompt'')\<rparr>)"

subsection \<open>The images of a request\<close>

definition count_images :: "json \<Rightarrow> int \<Rightarrow> exn + int" where
  "count_images m n =
     bind_sum (jget m ''content'') (\<lambda>content. case content of
       JList parts \<Rightarrow> fold_sum (\<lambda>part n. bind_sum (jget part ''type'') (\<lambda>t. Inr (if t = JStr ''image_url'' then n + 1 else n))) parts n
     | _ \<Rightarrow> Inr n)"

definition images :: "json \<Rightarrow> exn + int" where
  "images body =
     bind_sum (jget body ''messages'') (\<lambda>ms.
     bind_sum (elements (or_else ms (JList []))) (\<lambda>messages. fold_sum count_images messages 0))"

subsection \<open>An error reaches the agent\<close>

text \<open>
  Of an error in a stream the client hands on only the message, and OpenCode reads the message as JSON: both readings give the
  proxy's code and text back.
\<close>

lemma error_chunk_read:
  "json_loads (error_chunk r) = Some (error_json (json_dumps (inner_error r)) (r_code r))"
  "json_loads (json_dumps (inner_error r)) = Some (inner_error r)"
  unfolding error_chunk_def by (rule json_loads_dumps; simp add: error_json_def inner_error_def)+

subsection \<open>A stream rebuilt from a whole reply carries it\<close>

text \<open>What every reply has that was put together from chunks.\<close>

definition put_together :: "reply \<Rightarrow> bool" where
  "put_together r \<longleftrightarrow> (r_finish r = JNull \<or> truthy (r_finish r)) \<and> (r_usage r = JNull \<or> truthy (r_usage r))
     \<and> r_reasoning_name r \<in> {''reasoning_content'', ''reasoning''}"

lemma fold_sum_invariant:
  "fold_sum f xs s = Inr t \<Longrightarrow> P s \<Longrightarrow> (\<And>x s t. x \<in> set xs \<Longrightarrow> f x s = Inr t \<Longrightarrow> P s \<Longrightarrow> P t) \<Longrightarrow> P t"
  by (induction xs arbitrary: s) auto

lemma put_together_call: "take_call nc r = Inr r' \<Longrightarrow> put_together r \<Longrightarrow> put_together r'"
  by (auto simp: take_call_def put_together_def Let_def split: prod.splits)

lemma put_together_reasoning:
  "take_reasoning delta name r = Inr r' \<Longrightarrow> name \<in> {''reasoning_content'', ''reasoning''} \<Longrightarrow> put_together r \<Longrightarrow> put_together r'"
  by (auto simp: take_reasoning_def put_together_def split: if_splits)

lemma put_together_choice:
  assumes "take_choice choice r = Inr r'" "put_together r"
  shows "put_together r'"
proof -
  from assms(1) obtain delta content r1 calls r2 f where
    steps: "fold_sum (take_reasoning delta) [''reasoning_content'', ''reasoning''] (r\<lparr>r_content := r_content r @ content\<rparr>) = Inr r1"
      "fold_sum take_call (enumerate 0 calls) r1 = Inr r2" "r' = (if truthy f then r2\<lparr>r_finish := f\<rparr> else r2)"
    unfolding take_choice_def by (auto simp del: fold_sum.simps)
  have "put_together (r\<lparr>r_content := r_content r @ content\<rparr>)" using assms(2) by (simp add: put_together_def)
  from fold_sum_invariant [where P = put_together, OF steps(1) this] have "put_together r1"
    using put_together_reasoning by auto
  from fold_sum_invariant [where P = put_together, OF steps(2) this] have "put_together r2"
    using put_together_call by blast
  then show ?thesis using steps(3) by (simp add: put_together_def)
qed

lemma put_together_chunk:
  assumes "take_chunk chunk r = Inr r'" "put_together r"
  shows "put_together r'"
proof -
  from assms(1) obtain u choices where
    steps: "fold_sum take_choice choices (if truthy u then r\<lparr>r_usage := u\<rparr> else r) = Inr r'"
    unfolding take_chunk_def by auto
  have "put_together (if truthy u then r\<lparr>r_usage := u\<rparr> else r)" using assms(2) by (simp add: put_together_def)
  from fold_sum_invariant [where P = put_together, OF steps this] show ?thesis using put_together_choice by blast
qed

lemma put_together_new: "put_together new_reply"
  by (simp add: put_together_def new_reply_def)

text \<open>The tool calls of a rebuilt stream: each with an identifier.\<close>

definition named_call :: "(nat \<Rightarrow> string) \<Rightarrow> nat \<times> tool_call \<Rightarrow> tool_call" where
  "named_call fresh nc = (snd nc)\<lparr>c_id := or_else (c_id (snd nc)) (JStr (''call_'' @ take 12 (fresh (fst nc))))\<rparr>"

lemma take_call_view:
  assumes "JNum (of_nat n) \<notin> fst ` set (r_calls r)"
  shows "take_call (n, JObj (call_view fresh (n, c) @ [(''index'', JNum (of_nat n))])) r
    = Inr (r\<lparr>r_calls := r_calls r @ [(JNum (of_nat n), named_call fresh (n, c))]\<rparr>)"
proof -
  have none: "dict_get (r_calls r) (JNum (of_nat n)) d = d" for d
    using assms by (auto simp: dict_get_def split: option.split dest: map_of_SomeD intro: rev_image_eqI)
  show ?thesis
    using assms by (cases c) (auto simp: take_call_def call_view_def call_index_def hash_key_def jget_def text_of_def as_text_def
        or_else_def named_call_def none update_new Let_def)
qed

lemma take_call_views:
  assumes "\<forall>k \<in> fst ` set (r_calls r). \<exists>i < n. k = JNum (of_nat i)"
  shows "fold_sum take_call (enumerate n (map (\<lambda>nc. JObj (call_view fresh nc @ [(''index'', JNum (of_nat (fst nc)))])) (enumerate n cs))) r
    = Inr (r\<lparr>r_calls := r_calls r @ map (\<lambda>nc. (JNum (of_nat (fst nc)), named_call fresh nc)) (enumerate n cs)\<rparr>)"
  using assms
proof (induction cs arbitrary: n r)
  case (Cons c cs)
  have new: "JNum (of_nat n) \<notin> fst ` set (r_calls r)" using Cons.prems by fastforce
  let ?r = "r\<lparr>r_calls := r_calls r @ [(JNum (of_nat n), named_call fresh (n, c))]\<rparr>"
  have "\<forall>k \<in> fst ` set (r_calls ?r). \<exists>i < Suc n. k = JNum (of_nat i)"
    using Cons.prems by (auto simp: less_Suc_eq)
  from Cons.IH [OF this] show ?case using take_call_view [OF new, of fresh c] by simp
qed simp

definition carried :: "(nat \<Rightarrow> string) \<Rightarrow> tool_call list \<Rightarrow> reply \<Rightarrow> reply" where
  "carried fresh calls r = new_reply\<lparr>r_content := r_content r, r_reasoning := r_reasoning r,
     r_reasoning_name := (if r_reasoning r = [] then r_reasoning_name new_reply else r_reasoning_name r),
     r_calls := map (\<lambda>nc. (JNum (of_nat (fst nc)), named_call fresh nc)) (enumerate 0 calls)\<rparr>"

lemma take_fields:
  assumes fields: "message_fields fresh (\<lambda>n. [(''index'', JNum (of_nat n))]) r = Inr delta"
    and calls: "sorted_calls (r_calls r) = Inr calls" and name: "r_reasoning_name r \<in> {''reasoning_content'', ''reasoning''}"
  shows "take_choice (choice_view ''delta'' (JObj delta) JNull) new_reply = Inr (carried fresh calls r)"
proof -
  let ?views = "map (\<lambda>nc. JObj (call_view fresh nc @ [(''index'', JNum (of_nat (fst nc)))])) (enumerate 0 calls)"
  have delta: "delta = [(''role'', JStr ''assistant''), (''content'', if r_content r = [] then JNull else JStr (r_content r))]
       @ (if r_reasoning r \<noteq> [] then [(r_reasoning_name r, JStr (r_reasoning r))] else [])
       @ (if r_calls r \<noteq> [] then [(''tool_calls'', JList ?views)] else [])"
    using fields calls by (simp add: message_fields_def)
  have none: "calls = [] \<longleftrightarrow> r_calls r = []"
    using calls by (auto simp: sorted_calls_def split: if_splits dest: arg_cong [of _ _ length])
  let ?r = "\<lambda>name. new_reply\<lparr>r_content := r_content r, r_reasoning := r_reasoning r, r_reasoning_name := name\<rparr>"
  have views: "fold_sum take_call (enumerate 0 ?views) (?r nm)
      = Inr ((?r nm)\<lparr>r_calls := map (\<lambda>nc. (JNum (of_nat (fst nc)), named_call fresh nc)) (enumerate 0 calls)\<rparr>)" for nm
    using take_call_views [of "?r nm" 0 fresh calls] by (simp add: new_reply_def)
  have content: "text_of (JObj delta) ''content'' = Inr (r_content r)"
    by (simp add: delta text_of_def jget_def or_else_def as_text_def)
  have reasoning: "fold_sum (take_reasoning (JObj delta)) [''reasoning_content'', ''reasoning'']
      (new_reply\<lparr>r_content := r_content new_reply @ r_content r\<rparr>)
    = Inr (?r (if r_reasoning r = [] then r_reasoning_name new_reply else r_reasoning_name r))"
    using name by (auto simp: delta take_reasoning_def jget_def as_text_def new_reply_def)
  obtain cs where tools: "jget (JObj delta) ''tool_calls'' = Inr cs" "elements (or_else cs (JList [])) = Inr ?views"
  proof
    show "jget (JObj delta) ''tool_calls'' = Inr (if r_calls r = [] then JNull else JList ?views)"
      using name by (auto simp: delta jget_def)
    show "elements (or_else (if r_calls r = [] then JNull else JList ?views) (JList [])) = Inr ?views"
      using none by (auto simp: or_else_def elements_def)
  qed
  have "delta_of (choice_view ''delta'' (JObj delta) JNull) = Inr (JObj delta)"
    by (simp add: delta_of_def choice_view_def jget_def delta)
  then show ?thesis
    unfolding take_choice_def
    by (simp only: bind_sum_simps content reasoning tools views) (simp add: choice_view_def jget_def carried_def)
qed

lemma take_chunk_view:
  "take_chunk (chunk_view uid created role choices rest) s
   = fold_sum take_choice choices (if truthy (dict_get rest ''usage'' JNull) then s\<lparr>r_usage := dict_get rest ''usage'' JNull\<rparr> else s)"
  by (auto simp: take_chunk_def chunk_view_def jget_def or_else_def elements_def)

text \<open>
  C33: a reply that came whole reaches a client that streams unchanged. Taking the chunks the proxy rebuilds from it, the way the
  proxy itself takes a stream, gives its content, its reasoning, its finish and its usage, and its tool calls in
  order, each with its name and arguments and with its identifier, or with a new one if it had none.
\<close>

theorem rebuilt_carries:
  assumes "put_together r" "rebuilt fresh created role r = Inr cs"
  shows "\<exists>calls. sorted_calls (r_calls r) = Inr calls
    \<and> fold_sum take_chunk cs new_reply = Inr ((carried fresh calls r)\<lparr>r_finish := r_finish r, r_usage := r_usage r\<rparr>)"
proof -
  from assms(2) obtain delta where delta: "message_fields fresh (\<lambda>n. [(''index'', JNum (of_nat n))]) r = Inr delta"
    by (auto simp: rebuilt_def)
  then obtain calls where calls: "sorted_calls (r_calls r) = Inr calls" by (auto simp: message_fields_def)
  have last: "take_choice (choice_view ''delta'' (JObj []) (r_finish r)) s = Inr (s\<lparr>r_finish := r_finish r\<rparr>)"
    if "r_finish s = JNull" for s
    using assms(1) that by (auto simp: take_choice_def delta_of_def choice_view_def jget_def or_else_def text_of_def as_text_def
        take_reasoning_def elements_def put_together_def)
  have unset: "r_finish (carried fresh calls r) = JNull" "r_usage (carried fresh calls r) = JNull"
    by (simp_all add: carried_def new_reply_def)
  show ?thesis
    using assms delta calls take_fields [OF delta calls] last unset
    by (auto simp: rebuilt_def Let_def take_chunk_view put_together_def)
qed

definition example_reply :: reply where
  "example_reply = new_reply\<lparr>r_status := 200, r_done := True, r_content := ''hi'', r_finish := JStr ''tool_calls'',
     r_calls := [(JNum 0, \<lparr>c_id = JStr [], c_name = ''ls'', c_arguments = ''{}''\<rparr>)], r_usage := JObj [(''completion_tokens'', JNum 7)]\<rparr>"

theorem rebuilt_carries_witness:
  "\<exists>cs s. put_together example_reply \<and> rebuilt (\<lambda>_. ''0af'') 0 ''executor'' example_reply = Inr cs
     \<and> fold_sum take_chunk cs new_reply = Inr s \<and> r_content s = ''hi''
     \<and> map snd (r_calls s) = [\<lparr>c_id = JStr ''call_0af'', c_name = ''ls'', c_arguments = ''{}''\<rparr>]"
proof -
  have r: "put_together example_reply" by (simp add: put_together_def example_reply_def new_reply_def)
  have calls: "sorted_calls (r_calls example_reply) = Inr [\<lparr>c_id = JStr [], c_name = ''ls'', c_arguments = ''{}''\<rparr>]"
    by (simp add: sorted_calls_def example_reply_def)
  then obtain cs where cs: "rebuilt (\<lambda>_. ''0af'') 0 ''executor'' example_reply = Inr cs"
    by (auto simp: rebuilt_def message_fields_def Let_def)
  from rebuilt_carries [OF r cs] calls
  have "fold_sum take_chunk cs new_reply = Inr ((carried (\<lambda>_. ''0af'') [\<lparr>c_id = JStr [], c_name = ''ls'', c_arguments = ''{}''\<rparr>]
      example_reply)\<lparr>r_finish := r_finish example_reply, r_usage := r_usage example_reply\<rparr>)"
    by auto
  with r cs show ?thesis by (auto simp: carried_def named_call_def or_else_def example_reply_def)
qed

end
