(* ===== verification/LLM_Proxy.thy ===== *)
theory LLM_Proxy
  imports LLM_Gate LLM_Reply Py_Effects
begin

text \<open>
  \<open>Proxy\<close> (\<open>src/apps/agentic-analysis/llm_proxy.py\<close>): the size of a request, the backend it goes to, the payload it is
  sent on as, one exchange with the model, and \<open>forward\<close>, which sends a request on until it has a reply fit for
  the agent or a final error.

  A thread's code is a function on the proxy's state, as \<open>Py_Effects\<close> has it. What the thread waits for is a field of
  \<open>env\<close>, which acts on the whole state: other threads run meanwhile. The field \<open>px_trace\<close> is this thread's own record of
  what it took, sent and gave back, newest first.
\<close>

definition EARLY_CUT :: rat where "EARLY_CUT = 9 / 10"
definition CUT_SHRINK :: rat where "CUT_SHRINK = 8 / 10"
definition READ_MARGIN :: rat where "READ_MARGIN = 60"
definition RATE_LIMIT_WAIT :: rat where "RATE_LIMIT_WAIT = 60"
definition STICKY :: nat where "STICKY = 10000"

subsection \<open>The size of a request\<close>

definition is_alnum :: "char \<Rightarrow> bool" where
  "is_alnum c \<longleftrightarrow> is_digit c \<or> is_lower_letter c \<or> (CHR ''A'' \<le> c \<and> c \<le> CHR ''Z'')"

text \<open>\<open>DATA_URL\<close> at the start of a text: what is left after it. No text matches it in two ways.\<close>

definition kind_char :: "char \<Rightarrow> bool" where
  "kind_char c \<longleftrightarrow> is_alnum c \<or> c \<in> {CHR ''.'', CHR ''+'', CHR ''-''}"

definition data_char :: "char \<Rightarrow> bool" where
  "data_char c \<longleftrightarrow> is_alnum c \<or> c \<in> {CHR ''+'', CHR ''/'', CHR ''=''}"

definition after_kind :: "string \<Rightarrow> string" where
  "after_kind s = dropWhile kind_char (drop (length (quote # ''data:image/'')) s)"

definition after_data :: "string \<Rightarrow> string" where
  "after_data s = dropWhile data_char (drop (length '';base64,'') (after_kind s))"

definition match_data_url :: "string \<Rightarrow> string option" where
  "match_data_url s =
     (if prefix (quote # ''data:image/'') s \<and> after_kind s \<noteq> drop (length (quote # ''data:image/'')) s
        \<and> prefix '';base64,'' (after_kind s) \<and> prefix [quote] (after_data s)
      then Some (tl (after_data s)) else None)"

lemma match_data_url_shorter: "match_data_url s = Some r \<Longrightarrow> length r < length s"
proof -
  assume m: "match_data_url s = Some r"
  have r: "r = tl (after_data s)" "after_data s \<noteq> []"
    using m unfolding match_data_url_def by (auto split: if_splits simp del: length_Cons)
  have "length (after_kind s) \<le> length s"
    unfolding after_kind_def by (rule le_trans [OF length_dropWhile_le]) simp
  moreover have "length (after_data s) \<le> length (after_kind s)"
    unfolding after_data_def by (rule le_trans [OF length_dropWhile_le]) simp
  ultimately show ?thesis using r by (cases "after_data s") auto
qed

text \<open>The bytes of all matches, from left to right.\<close>

function pictures :: "string \<Rightarrow> nat" where
  "pictures s = (case s of [] \<Rightarrow> 0
   | c # cs \<Rightarrow> (case match_data_url s of Some r \<Rightarrow> (length s - length r) + pictures r | None \<Rightarrow> pictures cs))"
  by pat_completeness auto
termination by (relation "measure length") (auto dest: match_data_url_shorter)

declare pictures.simps [simp del]

definition estimate :: "settings \<Rightarrow> string \<Rightarrow> int \<Rightarrow> llm \<Rightarrow> int" where
  "estimate st raw sent m = trunc (of_int (int (length raw) - int (pictures raw)) / bytes_per_token st) + sent * lm_image m"

definition room_for :: "int \<Rightarrow> llm \<Rightarrow> int" where
  "room_for prompt m = trunc (SHARE * of_int (lm_context m)) - prompt - 1"

definition usable :: "settings \<Rightarrow> string \<Rightarrow> int \<Rightarrow> llm \<Rightarrow> bool" where
  "usable st raw sent m \<longleftrightarrow> room_for (estimate st raw sent m) m \<ge> fst (lm_tokens m)"

subsection \<open>The backend it goes to\<close>

type_synonym sticky = "(string \<times> string, backend) dict"

definition kept_backend :: "role \<Rightarrow> string \<Rightarrow> sticky \<Rightarrow> (backend \<Rightarrow> bool) \<Rightarrow> (backend \<Rightarrow> bool) \<Rightarrow> backend option" where
  "kept_backend r session st well fit =
     (case (if session = [] then None else map_of st (ro_name r, session)) of None \<Rightarrow> None
      | Some b \<Rightarrow> if b \<in> set (ro_backends r) \<and> well b \<and> fit b then Some b else None)"

definition chosen :: "role \<Rightarrow> (backend \<Rightarrow> bool) \<Rightarrow> (backend \<Rightarrow> bool) \<Rightarrow> backend" where
  "chosen r well fit =
     (let usables = filter fit (ro_backends r); candidates = (if usables = [] then ro_backends r else usables)
      in case find well candidates of Some b \<Rightarrow> b | None \<Rightarrow> hd candidates)"

text \<open>The key moves to the end; the oldest go while there are more than \<open>STICKY\<close>.\<close>

definition stick :: "nat \<Rightarrow> string \<times> string \<Rightarrow> backend \<Rightarrow> sticky \<Rightarrow> sticky" where
  "stick most key b st = (let st' = AList.delete key st @ [(key, b)] in drop (length st' - most) st')"

definition pick :: "role \<Rightarrow> string \<Rightarrow> (backend \<Rightarrow> bool) \<Rightarrow> (backend \<Rightarrow> bool) \<Rightarrow> sticky \<Rightarrow> backend \<times> sticky" where
  "pick r session well fit st =
     (case kept_backend r session st well fit of Some b \<Rightarrow> (b, st)
      | None \<Rightarrow> let b = chosen r well fit in
          (b, if session = [] then st else stick STICKY (ro_name r, session) b st))"

subsection \<open>The payload\<close>

definition merge_extra :: "string \<times> json \<Rightarrow> (string, json) dict \<Rightarrow> (string, json) dict" where
  "merge_extra kv d = (let (key, x) = kv in
     case (x, dict_get d key JNull) of
       (JObj new, JObj old) \<Rightarrow> AList.update key (JObj (dict_updates old new)) d
     | _ \<Rightarrow> AList.update key x d)"

text \<open>\<open>{**(x or {}), "include_usage": True}\<close>.\<close>

definition with_usage :: "json \<Rightarrow> exn + json" where
  "with_usage x = (case or_else x (JObj []) of JObj d \<Rightarrow> Inr (JObj (AList.update ''include_usage'' (JBool True) d)) | _ \<Rightarrow> Inl ''TypeError'')"

definition asked_tokens :: "(string, json) dict \<Rightarrow> int \<Rightarrow> exn + int" where
  "asked_tokens d most = map_sum id (\<lambda>n. min n most)
     (as_int (or_else (dict_get d ''max_tokens'' JNull) (or_else (dict_get d ''max_completion_tokens'' JNull) (JNum (of_int most)))))"

definition shape_payload :: "llm \<Rightarrow> (string, json) dict \<Rightarrow> backend \<Rightarrow> int \<Rightarrow> bool \<Rightarrow> exn + (int \<times> (string, json) dict)" where
  "shape_payload m body b most stream =
     (let out = AList.update ''model'' (JStr (be_model b)) (filter (\<lambda>(k, _). k \<noteq> ''max_completion_tokens'') body);
          extra = dict_get (lm_variants m) (be_variant b) [];
          out1 = fold merge_extra extra out
      in bind_sum (asked_tokens body most) (\<lambda>n.
         let out2 = AList.update ''stream'' (JBool stream) (AList.update ''max_tokens'' (JNum (of_int n)) out1) in
         if stream then bind_sum (with_usage (dict_get body ''stream_options'' JNull)) (\<lambda>opts.
           Inr (n, AList.update ''stream_options'' opts out2))
         else Inr (n, AList.delete ''stream_options'' out2)))"

subsection \<open>The proxy's state\<close>

datatype px_event = Took string int | Sent string "(string, json) dict" | Gave string int

record 'w proxy =
  gates :: "(string, gate) dict"
  sticky_to :: sticky
  px_trace :: "px_event list"
  px_world :: 'w

text \<open>
  An exception: of the HTTP client, with the name of its class, of Python, or, for a loop that was not followed to its
  end, \<open>Spent\<close>.
\<close>

datatype px_exn = Http string | Raises exn | Spent

type_synonym ('w, 'a) px = "('w proxy, px_exn, 'a) eff"

text \<open>
  What the model answers: a status, headers, and its text or the lines of its stream; a stream may break off after them.
\<close>

record answer =
  a_status :: nat
  a_headers :: "(string, string) dict"
  a_text :: string
  a_lines :: "string list"
  a_breaks :: "px_exn option"

record 'w env =
  clock :: "'w proxy \<Rightarrow> time \<times> 'w proxy"
  gone :: "'w proxy \<Rightarrow> bool"
  wait_gate :: "string \<Rightarrow> rat \<Rightarrow> 'w proxy \<Rightarrow> 'w proxy"
  wait_stop :: "rat \<Rightarrow> 'w proxy \<Rightarrow> bool \<times> 'w proxy"
  uniform :: "'w proxy \<Rightarrow> rat \<times> 'w proxy"
  post :: "(string, json) dict \<Rightarrow> ('w, answer) px"
  open_stream :: "(string, json) dict \<Rightarrow> ('w, answer) px"
  line_read :: "'w proxy \<Rightarrow> 'w proxy"

definition now :: "'w env \<Rightarrow> ('w, time) px" where
  "now env = asks (clock env)"

definition lift :: "exn + 'a \<Rightarrow> ('w, 'a) px" where
  "lift r = of_sum (map_sum Raises id r)"

definition emit_px :: "px_event \<Rightarrow> ('w, unit) px" where
  "emit_px e = modify (\<lambda>s. s\<lparr>px_trace := e # px_trace s\<rparr>)"

text \<open>What a thread does to a gate while it has its lock.\<close>

definition on_gate :: "string \<Rightarrow> (gate \<Rightarrow> 'a \<times> gate) \<Rightarrow> ('w, 'a) px" where
  "on_gate name f = (\<lambda>s. case map_of (gates s) name of None \<Rightarrow> (Inl (Raises ''KeyError''), s)
     | Some g \<Rightarrow> (Inr (fst (f g)), s\<lparr>gates := AList.update name (snd (f g)) (gates s)\<rparr>))"

subsection \<open>Waiting for room\<close>

text \<open>\<open>Gate.acquire\<close>: the loop, and what it does before and after.\<close>

fun acquire_loop :: "nat \<Rightarrow> 'w env \<Rightarrow> llm \<Rightarrow> int \<Rightarrow> int \<Rightarrow> time \<Rightarrow> ('w, bool) px" where
  "acquire_loop 0 env m seq tokens deadline = raise Spent"
| "acquire_loop (Suc fuel) env m seq tokens deadline =
     bindm (now env) (\<lambda>t.
     bindm (gets (gone env)) (\<lambda>away.
     if away then ret False else
     bindm (on_gate (lm_name m) (attempt m seq tokens t)) (\<lambda>ok.
     if ok then ret True else if t \<ge> deadline then ret False else
     bindm (on_gate (lm_name m) (\<lambda>g. (wake_after deadline t g, g))) (\<lambda>wake.
     bindm (modify (wait_gate env (lm_name m) wake)) (\<lambda>_.
     acquire_loop fuel env m seq tokens deadline)))))"

text \<open>\<open>try: m finally: f\<close>.\<close>

definition finally_do :: "('s, 'e, 'a) eff \<Rightarrow> ('s, 'e, unit) eff \<Rightarrow> ('s, 'e, 'a) eff" where
  "finally_do m f = bindm (catch m (\<lambda>e. bindm f (\<lambda>_. raise e))) (\<lambda>a. bindm f (\<lambda>_. ret a))"

definition acquire :: "nat \<Rightarrow> 'w env \<Rightarrow> llm \<Rightarrow> int \<Rightarrow> int \<Rightarrow> time \<Rightarrow> ('w, bool) px" where
  "acquire fuel env m tokens rank deadline =
     bindm (now env) (\<lambda>t.
     bindm (on_gate (lm_name m) (enqueue rank t)) (\<lambda>seq.
     bindm (finally_do (acquire_loop fuel env m seq tokens deadline)
       (on_gate (lm_name m) (\<lambda>g. ((), leave_line seq g)))) (\<lambda>ok.
     bindm (whenm ok (emit_px (Took (lm_name m) tokens))) (\<lambda>_. ret ok))))"

subsection \<open>One exchange\<close>

text \<open>
  Its stream: line after line, until the client is gone, the end is announced, or the stream ends. A transport error there leaves what came
  so far.
\<close>

definition transport :: "px_exn \<Rightarrow> bool" where
  "transport e \<longleftrightarrow> e \<in> {Http ''ReadTimeout'', Http ''ReadError'', Http ''WriteError'', Http ''ConnectError'', Http ''ConnectTimeout'',
     Http ''WriteTimeout'', Http ''PoolTimeout'', Http ''CloseError'', Http ''RemoteProtocolError'', Http ''LocalProtocolError'',
     Http ''ProxyError'', Http ''UnsupportedProtocol''}"

fun read_lines :: "'w env \<Rightarrow> time \<Rightarrow> string list \<Rightarrow> px_exn option \<Rightarrow> reply \<Rightarrow> ('w, reply) px" where
  "read_lines env started [] breaks r = (case breaks of
     None \<Rightarrow> ret r | Some e \<Rightarrow> if transport e then ret r else raise e)"
| "read_lines env started (line # lines) breaks r =
     bindm (modify (line_read env)) (\<lambda>_.
     bindm (gets (gone env)) (\<lambda>away.
     if away then ret r
     else if \<not> prefix ''data:'' line then read_lines env started lines breaks r
     else let data = strip_of py_space (drop 5 line) in
     if data = ''[DONE]'' then ret (r\<lparr>r_done := True\<rparr>)
     else
     bindm (if r_ttft r = None then bindm (now env) (\<lambda>t. ret (r\<lparr>r_ttft := Some (t - started)\<rparr>)) else ret r) (\<lambda>r1.
     case json_loads data of None \<Rightarrow> raise (Raises ''JSONDecodeError'')
     | Some j \<Rightarrow> bindm (lift (take_chunk j (r1\<lparr>r_payloads := r_payloads r1 @ [data]\<rparr>))) (\<lambda>r2.
       read_lines env started lines breaks r2))))"

definition timed :: "'w env \<Rightarrow> time \<Rightarrow> reply \<Rightarrow> ('w, reply) px" where
  "timed env started r = bindm (now env) (\<lambda>t. ret (r\<lparr>r_seconds := t - started\<rparr>))"

definition exchange_whole :: "'w env \<Rightarrow> time \<Rightarrow> (string, json) dict \<Rightarrow> ('w, reply) px" where
  "exchange_whole env started payload =
     bindm (post env payload) (\<lambda>a.
     bindm (timed env started (new_reply\<lparr>r_status := a_status a, r_headers := a_headers a\<rparr>)) (\<lambda>r.
     if a_status a \<noteq> 200 then ret (upstream_error r (a_text a))
     else case json_loads (a_text a) of None \<Rightarrow> raise (Raises ''JSONDecodeError'')
     | Some j \<Rightarrow> bindm (lift (take_chunk j r)) (\<lambda>r1. ret (r1\<lparr>r_done := True\<rparr>))))"

definition exchange_stream :: "'w env \<Rightarrow> time \<Rightarrow> (string, json) dict \<Rightarrow> ('w, reply) px" where
  "exchange_stream env started payload =
     bindm (open_stream env payload) (\<lambda>a.
     let r = new_reply\<lparr>r_status := a_status a, r_headers := a_headers a\<rparr> in
     if a_status a \<noteq> 200 then bindm (timed env started r) (\<lambda>r1. ret (upstream_error r1 (a_text a)))
     else bindm (read_lines env started (a_lines a) (a_breaks a) r) (timed env started))"

definition exchange :: "'w env \<Rightarrow> string \<Rightarrow> (string, json) dict \<Rightarrow> ('w, reply) px" where
  "exchange env name payload =
     bindm (now env) (\<lambda>started.
     bindm (emit_px (Sent name payload)) (\<lambda>_.
     if dict_get payload ''stream'' JNull = JBool True then exchange_stream env started payload
     else exchange_whole env started payload))"

subsection \<open>Forwarding\<close>

text \<open>A header that names a number of seconds, or none that is a number; infinity is past every clock.\<close>

definition seconds_in :: "(string, string) dict \<Rightarrow> string \<Rightarrow> rat option" where
  "seconds_in headers name = (case map_of headers name of None \<Rightarrow> None
     | Some text \<Rightarrow> map_option (\<lambda>f. case f of Fin x \<Rightarrow> max 1 x | Infinite neg \<Rightarrow> if neg then 1 else DOUBLE_LIMIT | NaN \<Rightarrow> 1) (py_float text))"

definition retry_after :: "reply \<Rightarrow> rat" where
  "retry_after r = (case seconds_in (r_headers r) ''retry-after'' of Some x \<Rightarrow> x
   | None \<Rightarrow> (case seconds_in (r_headers r) ''x-ratelimit-reset'' of Some x \<Rightarrow> x | None \<Rightarrow> RATE_LIMIT_WAIT))"

text \<open>What \<open>forward\<close> keeps from one try to the next, with the record of what it took so far.\<close>

record forwarding =
  fw_cuts :: int
  fw_shrink :: int
  fw_failures :: nat
  fw_streamed :: "reply option"
  fw_record :: "(string, json) dict"

definition noted :: "string \<Rightarrow> json \<Rightarrow> forwarding \<Rightarrow> forwarding" where
  "noted k v fw = fw\<lparr>fw_record := AList.update k v (fw_record fw)\<rparr>"

type_synonym outcome = "reply \<times> (string, json) dict"

definition settled_with :: "reply \<Rightarrow> forwarding \<Rightarrow> outcome + 'b" where
  "settled_with r fw = Inl (r, fw_record fw)"

definition client_gone :: "forwarding \<Rightarrow> outcome + 'b" where
  "client_gone fw = settled_with (failure 499 ''server_error'' ''the client is gone'') (noted ''client_gone'' (JBool True) fw)"

definition opt_json :: "string option \<Rightarrow> json" where
  "opt_json x = (case x of None \<Rightarrow> JNull | Some s \<Rightarrow> JStr s)"

definition opt_num :: "rat option \<Rightarrow> json" where
  "opt_num x = (case x of None \<Rightarrow> JNull | Some q \<Rightarrow> JNum q)"

text \<open>The streamed reply, for want of a better.\<close>

definition give_streamed :: "reply \<Rightarrow> forwarding \<Rightarrow> outcome + 'b" where
  "give_streamed r fw = settled_with r (noted ''problem'' (opt_json (problem r)) fw)"

text \<open>Where a try goes and what it asks for: the backend, its model, the tokens it holds and the payload.\<close>

record sending =
  sd_backend :: backend
  sd_model :: llm
  sd_tokens :: int
  sd_payload :: "(string, json) dict"

definition model_of :: "config \<Rightarrow> backend \<Rightarrow> ('w, llm) px" where
  "model_of cfg b = (case map_of (models cfg) (be_model b) of None \<Rightarrow> raise (Raises ''KeyError'') | Some m \<Rightarrow> ret m)"

definition fits_backend :: "config \<Rightarrow> string \<Rightarrow> int \<Rightarrow> backend \<Rightarrow> bool" where
  "fits_backend cfg raw sent b = (case map_of (models cfg) (be_model b) of None \<Rightarrow> False | Some m \<Rightarrow> usable (settings_of cfg) raw sent m)"

definition well_at :: "time \<Rightarrow> (string, gate) dict \<Rightarrow> backend \<Rightarrow> bool" where
  "well_at t gs b = (case map_of gs (be_model b) of None \<Rightarrow> False | Some g \<Rightarrow> healthy t g)"

definition pick_backend :: "'w env \<Rightarrow> config \<Rightarrow> role \<Rightarrow> string \<Rightarrow> int \<Rightarrow> string \<Rightarrow> ('w, backend) px" where
  "pick_backend env cfg r raw sent session =
     bindm (now env) (\<lambda>t.
     bindm (gets (\<lambda>s. pick r session (well_at t (gates s)) (fits_backend cfg raw sent) (sticky_to s))) (\<lambda>(b, st).
     bindm (modify (\<lambda>s. s\<lparr>sticky_to := st\<rparr>)) (\<lambda>_. ret b)))"

text \<open>\<open>min(gate.cap(), room, shrink or room)\<close>.\<close>

definition limit_of :: "forwarding \<Rightarrow> int \<Rightarrow> int \<Rightarrow> int" where
  "limit_of fw most room = min most (min room (if fw_shrink fw = 0 then room else fw_shrink fw))"

definition prepare_for :: "'w env \<Rightarrow> settings \<Rightarrow> (string, json) dict \<Rightarrow> forwarding \<Rightarrow> backend \<Rightarrow> llm \<Rightarrow> int \<Rightarrow> ('w, sending option) px" where
  "prepare_for env st body fw b m prompt =
     (if room_for prompt m < fst (lm_tokens m) then ret None else
     bindm (now env) (\<lambda>t.
     bindm (on_gate (lm_name m) (cap m st t)) (\<lambda>most.
     bindm (lift (shape_payload m body b (limit_of fw most (room_for prompt m)) (fw_streamed fw = None))) (\<lambda>(n, payload).
     ret (Some \<lparr>sd_backend = b, sd_model = m, sd_tokens = prompt + n, sd_payload = payload\<rparr>)))))"

definition prepare :: "'w env \<Rightarrow> config \<Rightarrow> role \<Rightarrow> string \<Rightarrow> (string, json) dict \<Rightarrow> string \<Rightarrow> forwarding
    \<Rightarrow> ('w, sending option) px" where
  "prepare env cfg r raw body session fw =
     bindm (lift (images (JObj body))) (\<lambda>sent.
     bindm (pick_backend env cfg r raw sent session) (\<lambda>b.
     bindm (model_of cfg b) (\<lambda>m.
     prepare_for env (settings_of cfg) body fw b m (estimate (settings_of cfg) raw sent m))))"

text \<open>\<open>gate.release\<close>, after the tokens of the reply are counted; the clock is read if there are any.\<close>

definition give_back :: "'w env \<Rightarrow> llm \<Rightarrow> int \<Rightarrow> int \<Rightarrow> ('w, unit) px" where
  "give_back env m tokens n =
     bindm (if n = 0 then ret 0 else now env) (\<lambda>t.
     bindm (on_gate (lm_name m) (\<lambda>g. ((), release tokens n t g))) (\<lambda>_.
     emit_px (Gave (lm_name m) tokens)))"

definition counted_output :: "reply \<Rightarrow> ('w, int) px" where
  "counted_output r = (if r_status r = 200 then lift (completion r) else ret 0)"

text \<open>An exchange, its failures as a reply of status 599, and the room given back whatever happens.\<close>

definition as_failure :: "px_exn \<Rightarrow> ('w, reply) px" where
  "as_failure e = (case e of
     Http name \<Rightarrow> ret (new_reply\<lparr>r_status := 599, r_error := name\<rparr>)
   | Raises x \<Rightarrow> if x \<in> {''ValueError'', ''JSONDecodeError''} then ret (new_reply\<lparr>r_status := 599, r_error := x\<rparr>) else raise e
   | Spent \<Rightarrow> raise e)"

definition exchange_within :: "'w env \<Rightarrow> sending \<Rightarrow> ('w, reply) px" where
  "exchange_within env sd =
     bindm (catch (catch (exchange env (lm_name (sd_model sd)) (sd_payload sd)) as_failure)
       (\<lambda>e. bindm (give_back env (sd_model sd) (sd_tokens sd) 0) (\<lambda>_. raise e))) (\<lambda>r.
     bindm (counted_output r) (\<lambda>n.
     bindm (give_back env (sd_model sd) (sd_tokens sd) n) (\<lambda>_. ret r)))"

definition seconds_noted :: "string \<Rightarrow> rat \<Rightarrow> forwarding \<Rightarrow> forwarding" where
  "seconds_noted k x fw = noted k (case dict_get (fw_record fw) k (JNum 0) of JNum old \<Rightarrow> JNum (old + x) | _ \<Rightarrow> JNum x) fw"

definition send :: "nat \<Rightarrow> 'w env \<Rightarrow> role \<Rightarrow> time \<Rightarrow> sending \<Rightarrow> forwarding \<Rightarrow> ('w, outcome + (forwarding \<times> reply)) px" where
  "send fuel env r deadline sd fw =
     bindm (now env) (\<lambda>queued.
     bindm (acquire fuel env (sd_model sd) (sd_tokens sd) (ro_rank r) deadline) (\<lambda>ok.
     if \<not> ok then
       bindm (gets (gone env)) (\<lambda>away. ret (
         if away then client_gone fw
         else case fw_streamed fw of Some old \<Rightarrow> give_streamed old fw
         | None \<Rightarrow> settled_with (failure 503 ''server_error'' ''no room within the hold'') fw))
     else
     bindm (now env) (\<lambda>t.
     bindm (exchange_within env sd) (\<lambda>reply.
     ret (Inr (seconds_noted ''attempts'' 1 (seconds_noted ''queued_s'' (t - queued) fw), reply))))))"

text \<open>What becomes of a reply: the request ends with it, or is tried again.\<close>

definition too_early :: "settings \<Rightarrow> reply \<Rightarrow> bool" where
  "too_early st r \<longleftrightarrow> r_status r = 200 \<and> problem r = Some ''cut'' \<and> r_seconds r < EARLY_CUT * cut_seconds st"

definition after_failure :: "'w env \<Rightarrow> settings \<Rightarrow> time \<Rightarrow> sending \<Rightarrow> reply \<Rightarrow> forwarding \<Rightarrow> ('w, outcome + forwarding) px" where
  "after_failure env st deadline sd reply fw =
     bindm (gets (gone env)) (\<lambda>away.
     if away then ret (Inr fw) else
     let fw1 = noted ''failures'' (JNum (of_nat (fw_failures fw + 1))) (fw\<lparr>fw_failures := fw_failures fw + 1\<rparr>);
         retry = (if r_status reply = 429 then Some (retry_after reply) else None) in
     bindm (if retry = None then asks (uniform env) else ret 1) (\<lambda>u.
     bindm (now env) (\<lambda>t.
     bindm (on_gate (lm_name (sd_model sd)) (failed st retry (fw_failures fw1) u t)) (\<lambda>wait.
     bindm (now env) (\<lambda>t1.
     if t1 + wait \<ge> deadline then ret (settled_with (failure 503 ''server_error'' ''the model kept failing'') fw1) else
     bindm (asks (wait_stop env wait)) (\<lambda>stopping.
     ret (if stopping then settled_with (failure 503 ''server_error'' ''the proxy is restarting'') fw1 else Inr fw1)))))))"

definition after_cut :: "'w env \<Rightarrow> settings \<Rightarrow> time \<Rightarrow> sending \<Rightarrow> reply \<Rightarrow> forwarding \<Rightarrow> ('w, outcome + forwarding) px" where
  "after_cut env st deadline sd reply fw =
     bindm (lift (decode_speed reply)) (\<lambda>speed.
     bindm (now env) (\<lambda>t.
     bindm (on_gate (lm_name (sd_model sd)) (\<lambda>g. ((), observe (sd_model sd) (r_ttft reply) speed t g))) (\<lambda>_.
     let fw1 = noted ''cuts'' (JNum (of_int (fw_cuts fw + 1))) (fw\<lparr>fw_cuts := fw_cuts fw + 1\<rparr>) in
     bindm (now env) (\<lambda>t1.
     if fw_cuts fw1 > cut_retries st \<or> t1 \<ge> deadline
     then ret (settled_with (failure 502 ''server_error'' (''the model'' @ CHR 0x27 # ''s reply was cut off'')) fw1)
     else bindm (lift (completion reply)) (\<lambda>n.
       ret (Inr (fw1\<lparr>fw_shrink := max (fst (lm_tokens (sd_model sd))) (trunc (CUT_SHRINK * of_int n))\<rparr>)))))))"

definition after_success :: "'w env \<Rightarrow> sending \<Rightarrow> reply \<Rightarrow> forwarding \<Rightarrow> ('w, outcome + forwarding) px" where
  "after_success env sd reply fw =
     bindm (lift (decode_speed reply)) (\<lambda>speed.
     bindm (now env) (\<lambda>t.
     bindm (on_gate (lm_name (sd_model sd)) (\<lambda>g. ((), succeeded (sd_model sd) (r_ttft reply) speed t g))) (\<lambda>_.
     ret (settled_with reply (noted ''problem'' (opt_json (problem reply)) (noted ''ttft'' (opt_num (r_ttft reply))
       (noted ''usage'' (r_usage reply) (noted ''finish'' (r_finish reply)
         (noted ''seconds'' (JNum (of_int (round_half_even (r_seconds reply * 1000)) / 1000)) fw)))))))))"

definition judge :: "'w env \<Rightarrow> settings \<Rightarrow> time \<Rightarrow> sending \<Rightarrow> forwarding \<times> reply \<Rightarrow> ('w, outcome + forwarding) px" where
  "judge env st deadline sd fr =
     (let (fw0, reply) = fr;
          fw = noted ''ratelimit_remaining'' (opt_json (map_of (r_headers reply) ''x-ratelimit-remaining''))
            (noted ''status'' (JNum (of_nat (r_status reply))) fw0);
          streamed = fw_streamed fw in
      if streamed \<noteq> None \<and> (r_status reply \<noteq> 200 \<or> problem reply = Some ''cut'') then ret (give_streamed (the streamed) fw)
      else if r_status reply = 429 \<or> r_status reply \<ge> 500 \<or> too_early st reply then after_failure env st deadline sd reply fw
      else if r_status reply \<noteq> 200 then ret (settled_with reply fw)
      else if problem reply = Some ''cut'' then after_cut env st deadline sd reply fw
      else if problem reply \<noteq> None \<and> r_finish reply \<noteq> JStr ''length'' \<and> streamed = None
      then ret (Inr (noted ''reshaped'' (opt_json (problem reply)) (fw\<lparr>fw_streamed := Some reply\<rparr>)))
      else after_success env sd reply fw)"

definition try_once :: "nat \<Rightarrow> 'w env \<Rightarrow> config \<Rightarrow> role \<Rightarrow> time \<Rightarrow> sending \<Rightarrow> forwarding \<Rightarrow> ('w, outcome + forwarding) px" where
  "try_once fuel env cfg r deadline sd fw =
     bindm (send fuel env r deadline sd fw) (\<lambda>res. case res of
       Inl done \<Rightarrow> ret (Inl done)
     | Inr fr \<Rightarrow> judge env (settings_of cfg) deadline sd fr)"

text \<open>One round of the loop.\<close>

definition turn :: "nat \<Rightarrow> 'w env \<Rightarrow> config \<Rightarrow> role \<Rightarrow> string \<Rightarrow> (string, json) dict \<Rightarrow> string \<Rightarrow> time \<Rightarrow> forwarding
    \<Rightarrow> ('w, outcome + forwarding) px" where
  "turn fuel env cfg r raw body session deadline fw =
     bindm (gets (gone env)) (\<lambda>away.
     if away then ret (client_gone fw) else
     bindm (if fw_streamed fw = None then ret 0 else now env) (\<lambda>t.
     if fw_streamed fw \<noteq> None \<and> t \<ge> deadline then ret (give_streamed (the (fw_streamed fw)) fw) else
     bindm (prepare env cfg r raw body session fw) (\<lambda>p. case p of
       None \<Rightarrow> ret (settled_with (failure 413 ''context_length_exceeded'' (''over the models'' @ CHR 0x27 # '' fair-use size'')) fw)
     | Some sd \<Rightarrow>
       try_once fuel env cfg r deadline sd (noted ''max_tokens'' (dict_get (sd_payload sd) ''max_tokens'' JNull)
         (noted ''backend'' (JStr (show_backend (sd_backend sd))) fw)))))"

fun forward_loop :: "nat \<Rightarrow> nat \<Rightarrow> 'w env \<Rightarrow> config \<Rightarrow> role \<Rightarrow> string \<Rightarrow> (string, json) dict \<Rightarrow> string \<Rightarrow> time \<Rightarrow> forwarding
    \<Rightarrow> ('w, outcome) px" where
  "forward_loop fuel 0 env cfg r raw body session deadline fw = raise Spent"
| "forward_loop fuel (Suc n) env cfg r raw body session deadline fw =
     bindm (turn fuel env cfg r raw body session deadline fw) (\<lambda>res. case res of
       Inl done \<Rightarrow> ret done
     | Inr fw' \<Rightarrow> forward_loop fuel n env cfg r raw body session deadline fw')"

definition forward :: "nat \<Rightarrow> nat \<Rightarrow> 'w env \<Rightarrow> config \<Rightarrow> role \<Rightarrow> string \<Rightarrow> (string, json) dict \<Rightarrow> string \<Rightarrow> ('w, outcome) px" where
  "forward fuel n env cfg r raw body session =
     bindm (now env) (\<lambda>t.
     forward_loop fuel n env cfg r raw body session (t + hold_hours (settings_of cfg) * 3600)
       \<lparr>fw_cuts = 0, fw_shrink = 0, fw_failures = 0, fw_streamed = None,
        fw_record = [(''role'', JStr (ro_name r)), (''session'', JStr session), (''attempts'', JNum 0)]\<rparr>)"

end
