(* ===== verification/LLM_Forward.thy ===== *)
theory LLM_Forward
  imports LLM_Proxy
begin

text \<open>
  What \<open>Proxy.forward\<close> guarantees (\<open>src/apps/agentic-analysis/llm_proxy.py\<close>): what it asks of a model stays within fair
  use and is given back, and what it answers with was not cut off.
\<close>

subsection \<open>What leaves the thread's record alone\<close>

text \<open>The other threads have records of their own.\<close>

definition quiet :: "'w env \<Rightarrow> bool" where
  "quiet env \<longleftrightarrow> holds px_trace (clock env) \<and> (\<forall>n w. holds px_trace (\<lambda>s. ((), wait_gate env n w s)))
     \<and> (\<forall>w. holds px_trace (wait_stop env w)) \<and> holds px_trace (uniform env) \<and> (\<forall>p. holds px_trace (post env p))
     \<and> (\<forall>p. holds px_trace (open_stream env p)) \<and> holds px_trace (\<lambda>s. ((), line_read env s))"

lemma quiet_calls [holds_intros]:
  assumes "quiet env"
  shows "holds px_trace (clock env)" "holds px_trace (wait_stop env w)" "holds px_trace (uniform env)"
    "holds px_trace (post env p)" "holds px_trace (open_stream env p)"
    "holds px_trace (modify (wait_gate env n w))" "holds px_trace (modify (line_read env))"
  using assms by (auto simp: quiet_def holds_def modify_def)

lemma holds_now [holds_intros]: "quiet env \<Longrightarrow> holds px_trace (now env)"
  unfolding now_def by (intro holds_intros)

lemma holds_lift [holds_intros]: "holds f (lift r)"
  unfolding lift_def by (intro holds_intros)

lemma holds_on_gate [holds_intros]: "holds px_trace (on_gate name f)"
  by (auto simp: holds_def on_gate_def split: option.split)

lemma holds_px_exn [holds_intros]:
  "(\<And>n. holds f (g n)) \<Longrightarrow> (\<And>x. holds f (h x)) \<Longrightarrow> holds f m \<Longrightarrow> holds f (case e of Http n \<Rightarrow> g n | Raises x \<Rightarrow> h x | Spent \<Rightarrow> m)"
  by (cases e) simp_all

lemma holds_finally [holds_intros]: "holds f m \<Longrightarrow> holds f c \<Longrightarrow> holds f (finally_do m c)"
  unfolding finally_do_def by (intro holds_intros)

lemma acquire_loop_trace [holds_intros]: "quiet env \<Longrightarrow> holds px_trace (acquire_loop fuel env m seq tokens deadline)"
proof (induction fuel)
  case (Suc fuel)
  show ?case unfolding acquire_loop.simps by (intro holds_intros Suc)
qed (simp add: holds_intros)

lemma read_lines_trace [holds_intros]: "quiet env \<Longrightarrow> holds px_trace (read_lines env started lines breaks r)"
proof (induction lines arbitrary: r)
  case Nil
  show ?case unfolding read_lines.simps by (intro holds_intros)
next
  case (Cons line lines)
  show ?case unfolding read_lines.simps Let_def by (intro holds_intros Cons)
qed

lemma timed_trace [holds_intros]: "quiet env \<Longrightarrow> holds px_trace (timed env started r)"
  unfolding timed_def by (intro holds_intros)

lemma exchanges_trace [holds_intros]:
  "quiet env \<Longrightarrow> holds px_trace (exchange_whole env started payload)"
  "quiet env \<Longrightarrow> holds px_trace (exchange_stream env started payload)"
  unfolding exchange_whole_def exchange_stream_def Let_def by (intro holds_intros; assumption)+

lemma judging_trace [holds_intros]:
  assumes "quiet env"
  shows "holds px_trace (after_failure env st deadline sd reply fw)" "holds px_trace (after_cut env st deadline sd reply fw)"
    "holds px_trace (after_success env sd reply fw)"
  unfolding after_failure_def after_cut_def after_success_def Let_def by (intro holds_intros assms)+

lemma judge_trace [holds_intros]: "quiet env \<Longrightarrow> holds px_trace (judge env st deadline sd fr)"
  unfolding judge_def Let_def by (intro holds_intros)

lemma prepare_trace [holds_intros]: "quiet env \<Longrightarrow> holds px_trace (prepare env cfg r raw body session fw)"
  unfolding prepare_def prepare_for_def pick_backend_def model_of_def Let_def by (intro holds_intros) simp_all

subsection \<open>What it takes, sends and gives back\<close>

lemma wp_emit_px [wp_simps]: "wp (emit_px e) R X = (\<lambda>s. R () (s\<lparr>px_trace := e # px_trace s\<rparr>))"
  by (simp add: emit_px_def wp_simps)

lemma wp_now [wp_simps]: "wp (now env) R X = (\<lambda>s. R (fst (clock env s)) (snd (clock env s)))"
  by (simp add: now_def wp_simps)

lemma wp_True [simp]: "wp m (\<lambda>_ _. True) (\<lambda>_ _. True) = (\<lambda>_. True)"
  by (simp add: wp_def fun_eq_iff split: prod.split sum.split)

lemma wp_after_holds:
  "holds f m \<Longrightarrow> (\<And>a t. f t = f s \<Longrightarrow> wp (g a) R X t) \<Longrightarrow> (\<And>e t. f t = f s \<Longrightarrow> X e t) \<Longrightarrow> wp (bindm m g) R X s"
  unfolding wp_bindm by (rule wp_holds)

lemma acquire_trace:
  assumes env: "quiet env"
  shows "wp (acquire fuel env m tokens rank deadline)
    (\<lambda>ok t. px_trace t = (if ok then [Took (lm_name m) tokens] else []) @ px_trace s) (\<lambda>_ t. px_trace t = px_trace s) s"
proof -
  let ?take = "\<lambda>t. bindm (on_gate (lm_name m) (enqueue rank t)) (\<lambda>seq.
    finally_do (acquire_loop fuel env m seq tokens deadline) (on_gate (lm_name m) (\<lambda>g. ((), leave_line seq g))))"
  have "acquire fuel env m tokens rank deadline = bindm (bindm (now env) ?take) (\<lambda>ok.
      bindm (whenm ok (emit_px (Took (lm_name m) tokens))) (\<lambda>_. ret ok))"
    by (simp add: acquire_def bindm_assoc)
  moreover have "holds px_trace (bindm (now env) ?take)" by (intro holds_intros env)
  ultimately show ?thesis by (simp only:) (erule wp_after_holds; simp add: wp_simps)
qed

lemma exchange_trace:
  assumes env: "quiet env"
  shows "wp (exchange env name payload) (\<lambda>_ t. px_trace t = Sent name payload # px_trace s)
    (\<lambda>_ t. px_trace t = Sent name payload # px_trace s) s"
proof -
  have "wp (if dict_get payload ''stream'' JNull = JBool True then exchange_stream env started payload
      else exchange_whole env started payload) (\<lambda>_ t. px_trace t = Sent name payload # px_trace s)
    (\<lambda>_ t. px_trace t = Sent name payload # px_trace s) u" if "px_trace u = Sent name payload # px_trace s" for started u
    by (rule wp_holds [where f = px_trace]) (use that in \<open>auto intro: holds_intros env\<close>)
  then show ?thesis
    unfolding exchange_def wp_bindm wp_now wp_emit_px using holdsD [OF quiet_calls(1) [OF env], of s] by simp
qed

text \<open>
  When an exchange is over its room is given back, unless its reply has a \<open>usage\<close> whose tokens cannot be counted.
\<close>

lemma give_back_trace:
  assumes "quiet env"
  shows "wp (give_back env m tokens n) (\<lambda>_ t. px_trace t = Gave (lm_name m) tokens # px_trace s) (\<lambda>_ t. px_trace t = px_trace s) s"
proof -
  have "holds px_trace (bindm (if n = 0 then ret 0 else now env) (\<lambda>t. on_gate (lm_name m) (\<lambda>g. ((), release tokens n t g))))"
    by (intro holds_intros assms)
  moreover have "give_back env m tokens n = bindm (bindm (if n = 0 then ret 0 else now env) (\<lambda>t.
      on_gate (lm_name m) (\<lambda>g. ((), release tokens n t g)))) (\<lambda>_. emit_px (Gave (lm_name m) tokens))"
    by (simp add: give_back_def bindm_assoc)
  ultimately show ?thesis by (simp only:) (erule wp_after_holds; simp add: wp_simps)
qed

lemma exchange_within_trace:
  fixes env :: "'w env"
  assumes env: "quiet env"
  shows "wp (exchange_within env sd)
    (\<lambda>_ t. px_trace t = Gave (lm_name (sd_model sd)) (sd_tokens sd) # Sent (lm_name (sd_model sd)) (sd_payload sd) # px_trace s)
    (\<lambda>_ _. True) s"
proof -
  let ?sent = "Sent (lm_name (sd_model sd)) (sd_payload sd) # px_trace s"
  let ?m = "catch (catch (exchange env (lm_name (sd_model sd)) (sd_payload sd)) as_failure)
       (\<lambda>e. bindm (give_back env (sd_model sd) (sd_tokens sd) 0) (\<lambda>_. raise e))"
  have "wp (as_failure e) (\<lambda>_ t. px_trace t = ?sent) (\<lambda>_ _. True) u" if "px_trace u = ?sent" for e u
    using that by (auto simp: as_failure_def wp_simps split: px_exn.split)
  then have "wp ?m (\<lambda>_ t. px_trace t = ?sent) (\<lambda>_ _. True) s"
    unfolding wp_catch wp_bindm wp_raise by (intro wp_mono [OF exchange_trace [OF env]]) simp_all
  then show ?thesis
    unfolding exchange_within_def wp_bindm
  proof (rule wp_mono, goal_cases)
    case (1 r t)
    have "holds px_trace (counted_output r)" unfolding counted_output_def by (intro holds_intros)
    then show ?case
    proof (rule wp_holds)
      fix n and u :: "'w proxy"
      assume "px_trace u = px_trace t"
      then show "wp (give_back env (sd_model sd) (sd_tokens sd) n) (\<lambda>a. wp (ret r)
          (\<lambda>_ t. px_trace t = Gave (lm_name (sd_model sd)) (sd_tokens sd) # ?sent) (\<lambda>_ _. True)) (\<lambda>_ _. True) u"
        using 1 by (intro wp_mono [OF give_back_trace [OF env]]) (simp_all add: wp_simps)
    qed simp
  qed simp
qed

text \<open>
  What a try may do to the record: nothing, or take room, send its payload and give the room back, the payload and the room within fair use.
  \<open>prompt\<close> is the request's estimated size for the model.
\<close>

definition within_share :: "config \<Rightarrow> string \<Rightarrow> json \<Rightarrow> string \<Rightarrow> int \<Rightarrow> (string, json) dict \<Rightarrow> bool" where
  "within_share cfg raw body name tokens payload \<longleftrightarrow> (\<exists>m sent k. map_of (models cfg) name = Some m \<and> images body = Inr sent
     \<and> dict_get payload ''max_tokens'' JNull = JNum (of_int k)
     \<and> tokens = estimate (settings_of cfg) raw sent m + k \<and> of_int tokens < SHARE * of_int (lm_context m) \<and> k \<le> snd (lm_tokens m))"

fun squared :: "config \<Rightarrow> string \<Rightarrow> json \<Rightarrow> px_event list \<Rightarrow> bool" where
  "squared cfg raw body [] = True"
| "squared cfg raw body (Gave a k # Sent b p # Took c n # es) =
     (a = b \<and> b = c \<and> k = n \<and> within_share cfg raw body c n p \<and> squared cfg raw body es)"
| "squared cfg raw body _ = False"

lemma now_Inr [run_simps]: "now env s = (Inr a, t) \<longleftrightarrow> clock env s = (a, t)"
  by (simp add: now_def run_simps)

lemma lift_Inr [run_simps]: "lift r s = (Inr a, t) \<longleftrightarrow> r = Inr a \<and> s = t"
  by (cases r) (auto simp: lift_def of_sum_def)

lemma on_gate_Inr [run_simps]:
  "on_gate name f s = (Inr a, t) \<longleftrightarrow> (\<exists>g. map_of (gates s) name = Some g \<and> a = fst (f g)
     \<and> t = s\<lparr>gates := AList.update name (snd (f g)) (gates s)\<rparr>)"
  by (auto simp: on_gate_def split: option.split)

lemma model_of_Inr [run_simps]: "model_of cfg b s = (Inr m, t) \<longleftrightarrow> map_of (models cfg) (be_model b) = Some m \<and> s = t"
  by (auto simp: model_of_def ret_def raise_def split: option.split)

lemma asked_tokens_le: "asked_tokens d most = Inr n \<Longrightarrow> n \<le> most"
  unfolding asked_tokens_def map_sum_Inr by (elim exE conjE) simp

lemma shape_payload_tokens:
  assumes "shape_payload m body b most stream = Inr (n, payload)"
  shows "n \<le> most" "dict_get payload ''max_tokens'' JNull = JNum (of_int n)"
proof -
  obtain out where out: "asked_tokens body most = Inr n"
      "dict_get out ''max_tokens'' JNull = JNum (of_int n)"
      "payload = AList.delete ''stream_options'' out \<or> (\<exists>opts. payload = AList.update ''stream_options'' opts out)"
  proof (cases stream)
    case True
    show ?thesis
      using assms unfolding shape_payload_def Let_def if_P [OF True]
      by (elim bind_sum_eq_Inr [THEN iffD1, THEN exE] conjE) (rule that, auto)
  next
    case False
    show ?thesis
      using assms unfolding shape_payload_def Let_def if_not_P [OF False]
      by (elim bind_sum_eq_Inr [THEN iffD1, THEN exE] conjE) (rule that, auto)
  qed
  show "n \<le> most" by (rule asked_tokens_le [OF out(1)])
  show "dict_get payload ''max_tokens'' JNull = JNum (of_int n)" using out(2,3) by auto
qed

lemma cap_bounds: "model_ok m \<Longrightarrow> fst (lm_tokens m) \<le> fst (cap m st t g) \<and> fst (cap m st t g) \<le> snd (lm_tokens m)"
  by (auto simp: cap_def cap_of_def model_ok_def Let_def)

lemma trunc_pred: "of_int (trunc x) - 1 < x"
  by (auto simp: trunc_def) linarith+

lemma prepare_for_within:
  assumes m: "model_ok m" and run: "prepare_for env st body fw b m prompt s = (Inr (Some sd), t)"
  shows "\<exists>k. sd_model sd = m \<and> sd_tokens sd = prompt + k \<and> k \<le> snd (lm_tokens m) \<and> k \<le> room_for prompt m
    \<and> dict_get (sd_payload sd) ''max_tokens'' JNull = JNum (of_int k)"
proof -
  from run obtain g u n payload where
    n: "shape_payload m body b (limit_of fw (fst (cap m st u g)) (room_for prompt m)) (fw_streamed fw = None) = Inr (n, payload)"
    and sd: "sd = \<lparr>sd_backend = b, sd_model = m, sd_tokens = prompt + n, sd_payload = payload\<rparr>"
    unfolding prepare_for_def by (auto simp: run_simps split: if_splits prod.splits)
  have "n \<le> limit_of fw (fst (cap m st u g)) (room_for prompt m)" "dict_get payload ''max_tokens'' JNull = JNum (of_int n)"
    using shape_payload_tokens [OF n] by auto
  then show ?thesis using sd cap_bounds [OF m, of st u g] by (auto simp: limit_of_def split: if_splits)
qed

lemma within_shareI:
  assumes "config_ok cfg" "map_of (models cfg) name = Some m" "images body = Inr sent"
    and "prompt = estimate (settings_of cfg) raw sent m" "k \<le> room_for prompt m" "k \<le> snd (lm_tokens m)"
    and "dict_get payload ''max_tokens'' JNull = JNum (of_int k)"
  shows "within_share cfg raw body name (prompt + k) payload"
proof -
  have "prompt + k \<le> trunc (SHARE * of_int (lm_context m)) - 1" using assms(5) by (simp add: room_for_def)
  then have "(of_int (prompt + k) :: rat) \<le> of_int (trunc (SHARE * of_int (lm_context m)) - 1)" by (simp only: of_int_le_iff)
  then have "of_int (prompt + k) < SHARE * of_int (lm_context m)"
    using trunc_pred [of "SHARE * of_int (lm_context m)"] by simp
  then show ?thesis unfolding within_share_def using assms by blast
qed

lemma prepare_within:
  assumes cfg: "config_ok cfg" and run: "prepare env cfg r raw body session fw s = (Inr (Some sd), t)"
  shows "within_share cfg raw (JObj body) (lm_name (sd_model sd)) (sd_tokens sd) (sd_payload sd)"
proof -
  from run obtain sent b m u where parts: "images (JObj body) = Inr sent" "map_of (models cfg) (be_model b) = Some m"
      and for_m: "prepare_for env (settings_of cfg) body fw b m (estimate (settings_of cfg) raw sent m) u = (Inr (Some sd), t)"
    unfolding prepare_def by (auto simp: run_simps)
  have m: "lm_name m = be_model b" "model_ok m" using config_okD(1) [OF cfg parts(2)] by auto
  from prepare_for_within [OF m(2) for_m] show ?thesis
    using within_shareI [OF cfg _ parts(1) refl] parts(2) m(1) by auto
qed

lemma prepare_spec:
  assumes "config_ok cfg" "quiet env"
  shows "wp (prepare env cfg r raw body session fw)
    (\<lambda>p t. px_trace t = px_trace s \<and> (\<forall>sd. p = Some sd
       \<longrightarrow> within_share cfg raw (JObj body) (lm_name (sd_model sd)) (sd_tokens sd) (sd_payload sd)))
    (\<lambda>_ t. px_trace t = px_trace s) s"
proof (rule wpI, goal_cases)
  case (1 p t)
  then show ?case using holdsD [OF prepare_trace [OF assms(2)], of cfg r raw body session fw s]
    prepare_within [OF assms(1), of env r raw body session fw s _ t] by auto
next
  case (2 e t)
  then show ?case using holdsD [OF prepare_trace [OF assms(2)], of cfg r raw body session fw s] by simp
qed

subsection \<open>What it answers with\<close>

text \<open>
  A reply fit for the agent: if it is a model's, it is whole; and if its tool calls are not as they should be although it was not cut short by its
  length, it was asked for once more.
\<close>

definition fit_outcome :: "outcome \<Rightarrow> bool" where
  "fit_outcome out \<longleftrightarrow> (r_status (fst out) = 200 \<longrightarrow> r_done (fst out)
     \<and> (problem (fst out) \<noteq> None \<and> r_finish (fst out) \<noteq> JStr ''length'' \<longrightarrow> map_of (snd out) ''reshaped'' \<noteq> None))"

definition fw_fit :: "forwarding \<Rightarrow> bool" where
  "fw_fit fw \<longleftrightarrow> (\<forall>r. fw_streamed fw = Some r \<longrightarrow> r_done r \<and> map_of (fw_record fw) ''reshaped'' \<noteq> None)"

fun fit_result :: "outcome + forwarding \<Rightarrow> bool" where
  "fit_result (Inl out) = fit_outcome out"
| "fit_result (Inr fw) = fw_fit fw"

lemma fw_fit_noted: "fw_fit fw \<Longrightarrow> fw_fit (noted k v fw)"
  by (auto simp: fw_fit_def noted_def update_conv')

lemma fw_fit_simps [simp]:
  "fw_streamed (noted k v fw) = fw_streamed fw" "fw_fit (fw\<lparr>fw_cuts := n\<rparr>) = fw_fit fw" "fw_fit (fw\<lparr>fw_shrink := n\<rparr>) = fw_fit fw"
  "fw_fit (fw\<lparr>fw_failures := k'\<rparr>) = fw_fit fw" "fw_streamed (fw\<lparr>fw_cuts := n\<rparr>) = fw_streamed fw"
  by (simp_all add: fw_fit_def noted_def)

lemma fit_failure: "code \<noteq> 200 \<Longrightarrow> fit_result (settled_with (failure code kind text) fw)"
  by (simp add: settled_with_def fit_outcome_def failure_def)

lemma fit_gone: "fit_result (client_gone fw)"
  by (simp add: client_gone_def fit_failure)

lemma fit_streamed: "fw_fit fw \<Longrightarrow> fw_streamed fw = Some r \<Longrightarrow> fit_result (give_streamed r fw)"
  by (auto simp: give_streamed_def settled_with_def fit_outcome_def fw_fit_def noted_def update_conv')

lemma problem_done: "problem r \<noteq> Some ''cut'' \<Longrightarrow> r_done r"
  by (auto simp: problem_def split: if_splits)

lemma after_failure_fit: "fw_fit fw \<Longrightarrow> yields fit_result (after_failure env st deadline sd reply fw)"
  unfolding after_failure_def Let_def
  by (intro yields_intros) (auto simp: fit_failure fw_fit_noted)

lemma after_cut_fit: "fw_fit fw \<Longrightarrow> yields fit_result (after_cut env st deadline sd reply fw)"
  unfolding after_cut_def Let_def
  by (intro yields_intros) (auto simp: fit_failure fw_fit_noted)

lemma after_success_fit:
  assumes "fw_fit fw" "problem reply \<noteq> Some ''cut''" "problem reply \<noteq> None \<Longrightarrow> r_finish reply = JStr ''length'' \<or> fw_streamed fw \<noteq> None"
  shows "yields fit_result (after_success env sd reply fw)"
  unfolding after_success_def using assms
  by (intro yields_intros) (auto simp: settled_with_def fit_outcome_def problem_done noted_def update_conv' fw_fit_def)

lemma judge_fit:
  assumes "fw_fit (fst fr)"
  shows "yields fit_result (judge env st deadline sd fr)"
proof -
  obtain fw0 reply where fr: "fr = (fw0, reply)" by fastforce
  let ?fw = "noted ''ratelimit_remaining'' (opt_json (map_of (r_headers reply) ''x-ratelimit-remaining''))
    (noted ''status'' (JNum (of_nat (r_status reply))) fw0)"
  have fw: "fw_fit ?fw" using assms fr by (simp add: fw_fit_noted)
  have again: "fit_result (Inr (noted ''reshaped'' (opt_json (problem reply)) (?fw\<lparr>fw_streamed := Some reply\<rparr>)))"
    if "problem reply \<noteq> Some ''cut''"
    using problem_done [OF that] by (simp add: fw_fit_def noted_def update_conv')
  show ?thesis
    unfolding judge_def Let_def fr prod.case
    by (intro yields_intros)
       (use fw again fit_streamed [OF fw] in \<open>auto simp: settled_with_def fit_outcome_def intro!: after_failure_fit after_cut_fit after_success_fit\<close>)
qed

lemma fw_fit_seconds: "fw_fit fw \<Longrightarrow> fw_fit (seconds_noted k x fw)"
  by (simp add: seconds_noted_def fw_fit_noted)

fun fit_sent :: "outcome + (forwarding \<times> reply) \<Rightarrow> bool" where
  "fit_sent (Inl out) = fit_outcome out"
| "fit_sent (Inr fr) = fw_fit (fst fr)"

lemma fit_sent_results:
  "fit_sent (client_gone fw)" "code \<noteq> 200 \<Longrightarrow> fit_sent (settled_with (failure code kind text) fw)"
  "fw_fit fw \<Longrightarrow> fw_streamed fw = Some r \<Longrightarrow> fit_sent (give_streamed r fw)"
  by (auto simp: client_gone_def give_streamed_def settled_with_def fit_outcome_def failure_def noted_def update_conv' fw_fit_def)

lemma send_fit:
  assumes "fw_fit fw"
  shows "yields fit_sent (send fuel env r deadline sd fw)"
  unfolding send_def
  by (intro yields_intros)
     (use assms in \<open>auto simp: fit_sent_results fw_fit_seconds split: option.split\<close>)

lemma try_once_fit: "fw_fit fw \<Longrightarrow> yields fit_result (try_once fuel env cfg r deadline sd fw)"
  unfolding try_once_def by (rule yields_bind [OF send_fit]) (auto intro!: yields_intros judge_fit)

lemma turn_fit:
  assumes "fw_fit fw"
  shows "yields fit_result (turn fuel env cfg r raw body session deadline fw)"
  unfolding turn_def
  by (intro yields_intros try_once_fit fw_fit_noted assms) (use fit_streamed [OF assms] in \<open>auto simp: fit_gone fit_failure\<close>)

lemma forward_loop_fit:
  "fw_fit fw \<Longrightarrow> yields fit_outcome (forward_loop fuel n env cfg r raw body session deadline fw)"
proof (induction n arbitrary: fw)
  case (Suc n)
  show ?case
    unfolding forward_loop.simps
    by (rule yields_bind [OF turn_fit [OF Suc.prems]]) (auto intro!: yields_intros Suc.IH)
qed (simp add: yields_intros)

lemma forward_fit: "yields fit_outcome (forward fuel n env cfg r raw body session)"
  unfolding forward_def by (intro yields_bindm forward_loop_fit) (simp add: fw_fit_def)

subsection \<open>Every try squares\<close>

lemma send_squared:
  fixes env :: "'w env"
  assumes env: "quiet env" and within: "within_share cfg raw body (lm_name (sd_model sd)) (sd_tokens sd) (sd_payload sd)"
    and s: "squared cfg raw body (px_trace s)"
  shows "wp (send fuel env r deadline sd fw) (\<lambda>_ t. squared cfg raw body (px_trace t)) (\<lambda>_ _. True) s"
proof -
  let ?Q = "\<lambda>_ t. squared cfg raw body (px_trace t)"
  have took: "wp (bindm (now env) (\<lambda>t. bindm (exchange_within env sd) (\<lambda>reply. ret (f t reply)))) ?Q (\<lambda>_ _. True) u"
    if "px_trace u = Took (lm_name (sd_model sd)) (sd_tokens sd) # px_trace s" for u f
  proof (rule wp_after_holds [OF holds_now [OF env]])
    fix t and v :: "'w proxy"
    assume "px_trace v = px_trace u"
    then show "wp (bindm (exchange_within env sd) (\<lambda>reply. ret (f t reply))) ?Q (\<lambda>_ _. True) v"
      unfolding wp_bindm wp_ret
      by (intro wp_mono [OF exchange_within_trace [OF env]]) (use that s within in simp_all)
  qed simp
  show ?thesis
    unfolding send_def
  proof (rule wp_after_holds [OF holds_now [OF env]])
    fix queued and t :: "'w proxy"
    assume t: "px_trace t = px_trace s"
    show "wp (bindm (acquire fuel env (sd_model sd) (sd_tokens sd) (ro_rank r) deadline) (\<lambda>ok.
        if \<not> ok then bindm (gets (gone env)) (\<lambda>away. ret (if away then client_gone fw
            else case fw_streamed fw of None \<Rightarrow> settled_with (failure 503 ''server_error'' ''no room within the hold'') fw
              | Some old \<Rightarrow> give_streamed old fw))
        else bindm (now env) (\<lambda>t. bindm (exchange_within env sd) (\<lambda>reply.
          ret (Inr (seconds_noted ''attempts'' 1 (seconds_noted ''queued_s'' (t - queued) fw), reply)))))) ?Q (\<lambda>_ _. True) t"
      unfolding wp_bindm [of "acquire _ _ _ _ _ _"]
      by (rule wp_mono [OF acquire_trace [OF env]]) (use t s took in \<open>auto simp: wp_simps(1,3,5) split: if_splits\<close>)
  qed simp
qed

lemma try_once_squared:
  assumes env: "quiet env" and within: "within_share cfg raw body (lm_name (sd_model sd)) (sd_tokens sd) (sd_payload sd)"
    and s: "squared cfg raw body (px_trace s)"
  shows "wp (try_once fuel env cfg r deadline sd fw) (\<lambda>_ t. squared cfg raw body (px_trace t)) (\<lambda>_ _. True) s"
proof -
  have "wp (case res of Inl done \<Rightarrow> ret (Inl done) | Inr fr \<Rightarrow> judge env (settings_of cfg) deadline sd fr)
      (\<lambda>_ t. squared cfg raw body (px_trace t)) (\<lambda>_ _. True) t" if "squared cfg raw body (px_trace t)" for res t
    by (rule wp_holds [where f = px_trace]) (use that in \<open>auto intro: holds_intros env\<close>)
  then show ?thesis
    unfolding try_once_def wp_bindm by (intro wp_mono [OF send_squared [OF env within s]]) simp_all
qed

lemma turn_squared:
  fixes env :: "'w env"
  assumes env: "quiet env" and cfg: "config_ok cfg" and s: "squared cfg raw (JObj body) (px_trace s)"
  shows "wp (turn fuel env cfg r raw body session deadline fw) (\<lambda>_ t. squared cfg raw (JObj body) (px_trace t)) (\<lambda>_ _. True) s"
proof -
  let ?Q = "\<lambda>_ t. squared cfg raw (JObj body) (px_trace t)"
  have prep: "wp (bindm (prepare env cfg r raw body session fw) (\<lambda>p. case p of
       None \<Rightarrow> ret (settled_with (failure 413 ''context_length_exceeded'' (''over the models'' @ CHR 0x27 # '' fair-use size'')) fw)
     | Some sd \<Rightarrow> try_once fuel env cfg r deadline sd (f sd))) ?Q (\<lambda>_ _. True) t" if "px_trace t = px_trace s" for f t
    unfolding wp_bindm
    by (rule wp_mono [OF prepare_spec [OF cfg env]])
       (use that s in \<open>auto simp: wp_ret split: option.split intro: try_once_squared [OF env]\<close>)
  show ?thesis
    unfolding turn_def
  proof (rule wp_after_holds [OF holds_gets, where f = px_trace])
    fix away and t :: "'w proxy"
    assume t: "px_trace t = px_trace s"
    have read: "holds px_trace (if fw_streamed fw = None then ret 0 else now env)" by (intro holds_intros env)
    show "wp (if away then ret (client_gone fw) else bindm (if fw_streamed fw = None then ret 0 else now env) (\<lambda>u.
        if fw_streamed fw \<noteq> None \<and> u \<ge> deadline then ret (give_streamed (the (fw_streamed fw)) fw) else
        bindm (prepare env cfg r raw body session fw) (\<lambda>p. case p of
          None \<Rightarrow> ret (settled_with (failure 413 ''context_length_exceeded'' (''over the models'' @ CHR 0x27 # '' fair-use size'')) fw)
        | Some sd \<Rightarrow> try_once fuel env cfg r deadline sd (noted ''max_tokens'' (dict_get (sd_payload sd) ''max_tokens'' JNull)
            (noted ''backend'' (JStr (show_backend (sd_backend sd))) fw))))) ?Q (\<lambda>_ _. True) t"
    proof (cases away)
      case False
      have "wp (if fw_streamed fw \<noteq> None \<and> u \<ge> deadline then ret (give_streamed (the (fw_streamed fw)) fw) else
          bindm (prepare env cfg r raw body session fw) (\<lambda>p. case p of
            None \<Rightarrow> ret (settled_with (failure 413 ''context_length_exceeded'' (''over the models'' @ CHR 0x27 # '' fair-use size'')) fw)
          | Some sd \<Rightarrow> try_once fuel env cfg r deadline sd (noted ''max_tokens'' (dict_get (sd_payload sd) ''max_tokens'' JNull)
              (noted ''backend'' (JStr (show_backend (sd_backend sd))) fw)))) ?Q (\<lambda>_ _. True) v"
        if "px_trace v = px_trace t" for u v
        unfolding wp_if using prep [of v] that t s by (simp add: wp_ret)
      then show ?thesis unfolding if_not_P [OF False] by (intro wp_after_holds [OF read]) simp_all
    qed (use t s in \<open>simp add: wp_ret\<close>)
  qed simp
qed

lemma forward_loop_squared:
  assumes env: "quiet env" and cfg: "config_ok cfg" and s: "squared cfg raw (JObj body) (px_trace s)"
  shows "wp (forward_loop fuel n env cfg r raw body session deadline fw) (\<lambda>_ t. squared cfg raw (JObj body) (px_trace t)) (\<lambda>_ _. True) s"
  using s
proof (induction n arbitrary: s fw)
  case (Suc n)
  show ?case
    unfolding forward_loop.simps wp_bindm
    by (rule wp_mono [OF turn_squared [OF env cfg Suc.prems]]) (auto simp: wp_ret split: sum.split intro: Suc.IH)
qed (simp add: wp_raise)

subsection \<open>A world\<close>

text \<open>
  A world for examples: its state is the time, which moves on by one second with each wait for room and by as much as is asked for
  with each other wait; the model ends every stream at once, and nobody leaves.
\<close>

definition example_env :: "rat env" where
  "example_env = \<lparr>clock = (\<lambda>s. (px_world s, s)), gone = (\<lambda>_. False), wait_gate = (\<lambda>_ _ s. s\<lparr>px_world := px_world s + 1\<rparr>),
     wait_stop = (\<lambda>w s. (False, s\<lparr>px_world := px_world s + max 0 w\<rparr>)), uniform = Pair 1,
     post = (\<lambda>_. ret \<lparr>a_status = 200, a_headers = [], a_text = ''{}'', a_lines = [], a_breaks = None\<rparr>),
     open_stream = (\<lambda>_. ret \<lparr>a_status = 200, a_headers = [], a_text = [], a_lines = [''data: [DONE]''], a_breaks = None\<rparr>),
     line_read = id\<rparr>"

definition example_role :: role where
  "example_role = \<lparr>ro_name = ''arbiter'', ro_backends = [\<lparr>be_model = ''glm-5'', be_variant = []\<rparr>], ro_context = 100000,
     ro_compact = 80000, ro_images = 0, ro_rank = 1\<rparr>"

definition example_llms :: config where
  "example_llms = \<lparr>settings_of = example_settings, models = [(''glm-5'', example_llm)], roles = [(''arbiter'', example_role)]\<rparr>"

definition example_proxy :: "rat proxy" where
  "example_proxy = \<lparr>gates = [(''glm-5'', new_gate example_llm)], sticky_to = [], px_trace = [], px_world = 0\<rparr>"

lemma example_quiet: "quiet example_env"
  by (simp add: quiet_def example_env_def holds_def ret_def)

lemma example_llms_ok: "config_ok example_llms"
  by (simp add: config_ok_def example_llms_def example_llm_def example_role_def model_ok_def role_ok_def backend_ok_def)

abbreviation example_forward :: "(px_exn + outcome) \<times> rat proxy" where
  "example_forward \<equiv> forward 2 2 example_env example_llms example_role ''{}'' [] [] example_proxy"

lemma example_run: "map_sum id (r_status \<circ> fst) (fst example_forward) = Inr 200 \<and> length (px_trace (snd example_forward)) = 3"
  by code_simp

lemma example_outcome:
  obtains reply rec t where "example_forward = (Inr (reply, rec), t)" "r_status reply = 200" "length (px_trace t) = 3"
  using example_run by (cases example_forward) (auto simp: comp_def)





subsection \<open>Where the room is not given back\<close>

text \<open>
  A reply whose \<open>usage\<close> is no object, which NRP has no reason to send, makes \<open>completion\<close> raise in the \<open>finally\<close> clause itself, before
  \<open>release\<close>: the slot and the tokens are never given back.
\<close>

theorem odd_usage_holds_room:
  assumes "exchange env (lm_name (sd_model sd)) (sd_payload sd) s = (Inr r, t)" "r_status r = 200" "r_usage r = JStr u" "u \<noteq> []"
  shows "exchange_within env sd s = (Inl (Raises ''AttributeError''), t)"
  using assms by (simp add: exchange_within_def bindm_def catch_def counted_output_def lift_def of_sum_def completion_def or_else_def jget_def)

text \<open>
  A client may ask for a negative \<open>max_tokens\<close>: the payload has it, and the gate then holds less than nothing for the
  request, so that others are let in beyond the budget while it is in flight.
\<close>

theorem negative_tokens_lower_held:
  "asked_tokens [(''max_tokens'', JNum (- 300000))] 20000 = Inr (- 300000)
   \<and> (let g = snd (attempt example_llm 1 (- 299999) 2 (snd (enqueue 0 1 (new_gate example_llm)))) in
      g_held g = - 299999 \<and> fst (attempt example_llm 2 366000 4 (snd (enqueue 0 3 (leave_line 1 g)))))"
  by code_simp

end
