(* ===== verification/LLM_Ends.thy ===== *)
theory LLM_Ends
  imports LLM_Forward
begin

text \<open>
  \<open>Proxy.forward\<close> ends (\<open>src/apps/agentic-analysis/llm_proxy.py\<close>): within its hold, a request has an answer. The clock, the waits and the client are
  those of the world; how long an exchange takes is bounded by its own timeouts, which are not modelled.
\<close>

subsection \<open>Time passes\<close>

text \<open>
  A world has a time and knows whether the client is gone. Whatever a thread waits for, time does not go back and a client that is gone
  stays gone; a wait for the gate takes at least \<open>tick\<close>; a wait for the stop that was not asked for takes as long as it
  was to take; and the backoff is drawn as \<open>random.uniform(0.75, 1.25)\<close> draws it.
\<close>

record 'w timing =
  time_of :: "'w \<Rightarrow> time"
  left_at :: "'w \<Rightarrow> bool"
  tick :: rat

definition later :: "'w timing \<Rightarrow> 'w \<Rightarrow> 'w proxy \<Rightarrow> bool" where
  "later tm w s \<longleftrightarrow> time_of tm w \<le> time_of tm (px_world s) \<and> (left_at tm w \<longrightarrow> left_at tm (px_world s))"

definition onward :: "'w timing \<Rightarrow> ('w proxy \<Rightarrow> 'a \<times> 'w proxy) \<Rightarrow> bool" where
  "onward tm m \<longleftrightarrow> (\<forall>s. later tm (px_world s) (snd (m s)))"

definition keeps_time :: "'w timing \<Rightarrow> 'w env \<Rightarrow> bool" where
  "keeps_time tm env \<longleftrightarrow> 0 < tick tm \<and> gone env = (\<lambda>s. left_at tm (px_world s))
     \<and> onward tm (clock env) \<and> (\<forall>s. time_of tm (px_world s) \<le> fst (clock env s) \<and> fst (clock env s) \<le> time_of tm (px_world (snd (clock env s))))
     \<and> (\<forall>n w s. later tm (px_world s) (wait_gate env n w s) \<and> time_of tm (px_world s) + tick tm \<le> time_of tm (px_world (wait_gate env n w s)))
     \<and> (\<forall>w. onward tm (wait_stop env w))
     \<and> (\<forall>w s. \<not> fst (wait_stop env w s) \<longrightarrow> time_of tm (px_world s) + w \<le> time_of tm (px_world (snd (wait_stop env w s))))
     \<and> onward tm (uniform env) \<and> (\<forall>s. 3 / 4 \<le> fst (uniform env s))
     \<and> (\<forall>p. onward tm (post env p)) \<and> (\<forall>p. onward tm (open_stream env p))
     \<and> (\<forall>s. later tm (px_world s) (line_read env s))"

text \<open>The HTTP client's exceptions are its own.\<close>

definition spares :: "('s, px_exn, 'a) eff \<Rightarrow> bool" where
  "spares m \<longleftrightarrow> (\<forall>s t. m s \<noteq> (Inl Spent, t))"

definition answers :: "'w env \<Rightarrow> bool" where
  "answers env \<longleftrightarrow> (\<forall>p. spares (post env p)) \<and> (\<forall>p. spares (open_stream env p))
     \<and> (\<forall>p. yields (\<lambda>a. a_breaks a \<noteq> Some Spent) (open_stream env p))"

subsection \<open>Onward\<close>

text \<open>To be onward is to keep every instant before in the past: an invariant for each.\<close>

lemma onward_iff: "onward tm m \<longleftrightarrow> (\<forall>w. preserves (later tm w) m)"
  by (auto simp: onward_def preserves_def later_def intro: order_trans)

lemma later_refl [simp]: "later tm (px_world s) s"
  by (simp add: later_def)

lemma preserves_on_gate [pres_intros]: "preserves (later tm w) (on_gate name f)"
  by (auto simp: preserves_def on_gate_def later_def split: option.split)

lemma preserves_lift [pres_intros]: "preserves I (lift r)"
  by (auto simp: lift_def intro: pres_intros)

lemma preserves_emit_px [pres_intros]: "preserves (later tm w) (emit_px e)"
  by (auto simp: emit_px_def later_def intro: pres_intros)

lemma preserves_finally [pres_intros]: "preserves I m \<Longrightarrow> preserves I c \<Longrightarrow> preserves I (finally_do m c)"
  unfolding finally_do_def by (intro pres_intros)

lemma preserves_px_exn [pres_intros]:
  "(\<And>n. preserves I (g n)) \<Longrightarrow> (\<And>x. preserves I (h x)) \<Longrightarrow> preserves I m
   \<Longrightarrow> preserves I (case e of Http n \<Rightarrow> g n | Raises x \<Rightarrow> h x | Spent \<Rightarrow> m)"
  by (cases e) simp_all

lemma keeps_time_calls [pres_intros]:
  assumes "keeps_time tm env"
  shows "preserves (later tm w) (clock env)" "preserves (later tm w) (wait_stop env x)" "preserves (later tm w) (uniform env)"
    "preserves (later tm w) (post env p)" "preserves (later tm w) (open_stream env p)"
    "preserves (later tm w) (modify (wait_gate env n x))" "preserves (later tm w) (modify (line_read env))"
  using assms unfolding keeps_time_def
  by (auto simp: onward_iff preserves_def modify_def later_def) (meson order_trans)+

lemma preserves_now [pres_intros]: "keeps_time tm env \<Longrightarrow> preserves (later tm w) (now env)"
  unfolding now_def by (intro pres_intros)

lemma acquire_loop_onward [pres_intros]:
  "keeps_time tm env \<Longrightarrow> preserves (later tm w) (acquire_loop fuel env m seq tokens deadline)"
proof (induction fuel)
  case (Suc fuel)
  show ?case unfolding acquire_loop.simps by (intro pres_intros Suc)
qed (simp add: pres_intros)

lemma acquire_onward [pres_intros]:
  "keeps_time tm env \<Longrightarrow> preserves (later tm w) (acquire fuel env m tokens rank deadline)"
  unfolding acquire_def by (intro pres_intros)

lemma read_lines_onward [pres_intros]:
  "keeps_time tm env \<Longrightarrow> preserves (later tm w) (read_lines env started lines breaks r)"
proof (induction lines arbitrary: r)
  case Nil
  show ?case unfolding read_lines.simps by (intro pres_intros)
next
  case (Cons line lines)
  show ?case unfolding read_lines.simps Let_def by (intro pres_intros Cons)
qed

lemma exchange_onward [pres_intros]:
  assumes "keeps_time tm env"
  shows "preserves (later tm w) (exchange env name payload)"
  unfolding exchange_def exchange_whole_def exchange_stream_def timed_def Let_def by (intro pres_intros assms)

lemma exchange_within_onward [pres_intros]:
  assumes "keeps_time tm env"
  shows "preserves (later tm w) (exchange_within env sd)"
  unfolding exchange_within_def give_back_def counted_output_def as_failure_def by (intro pres_intros assms)

lemma prepare_onward [pres_intros]:
  assumes "keeps_time tm env"
  shows "preserves (later tm w) (prepare env cfg r raw body session fw)"
  unfolding prepare_def prepare_for_def pick_backend_def model_of_def
  by (intro pres_intros assms) (simp add: later_def)

lemma send_onward [pres_intros]:
  assumes "keeps_time tm env"
  shows "preserves (later tm w) (send fuel env r deadline sd fw)"
  unfolding send_def by (intro pres_intros assms)

subsection \<open>No loop but the two\<close>

named_theorems spares_intros

lemma spares_ret [spares_intros]: "spares (ret a)"
  by (simp add: spares_def ret_def)

lemma spares_raise [spares_intros]: "e \<noteq> Spent \<Longrightarrow> spares (raise e)"
  by (simp add: spares_def raise_def)

lemma spares_gets [spares_intros]: "spares (gets f)" "spares (modify g)" "spares (asks h)"
  by (auto simp: spares_def gets_def modify_def asks_def split: prod.splits)

lemma spares_lift [spares_intros]: "spares (lift r)"
  by (cases r) (auto simp: spares_def lift_def of_sum_def)

lemma spares_on_gate [spares_intros]: "spares (on_gate name f)"
  by (auto simp: spares_def on_gate_def split: option.splits)

lemma spares_emit_px [spares_intros]: "spares (emit_px e)"
  unfolding emit_px_def by (intro spares_intros)

lemma spares_now [spares_intros]: "spares (now env)"
  unfolding now_def by (intro spares_intros)

lemma spares_bindm [spares_intros]: "spares m \<Longrightarrow> (\<And>a. spares (g a)) \<Longrightarrow> spares (bindm m g)"
  by (fastforce simp: spares_def bindm_def split: prod.splits sum.splits)

lemma spares_bind: "spares m \<Longrightarrow> yields P m \<Longrightarrow> (\<And>a. P a \<Longrightarrow> spares (g a)) \<Longrightarrow> spares (bindm m g)"
  by (fastforce simp: spares_def yields_def bindm_def split: prod.splits sum.splits)

lemma spares_catch: "spares m \<Longrightarrow> (\<And>e. e \<noteq> Spent \<Longrightarrow> spares (h e)) \<Longrightarrow> spares (catch m h)"
  unfolding spares_def catch_def by (auto split: prod.splits sum.splits) metis

lemma spares_if [spares_intros]: "(b \<Longrightarrow> spares m) \<Longrightarrow> (\<not> b \<Longrightarrow> spares m') \<Longrightarrow> spares (if b then m else m')"
  by simp

lemma spares_option [spares_intros]:
  "(x = None \<Longrightarrow> spares m) \<Longrightarrow> (\<And>a. x = Some a \<Longrightarrow> spares (g a)) \<Longrightarrow> spares (case x of None \<Rightarrow> m | Some a \<Rightarrow> g a)"
  by (cases x) simp_all

lemma spares_prod [spares_intros]: "(\<And>a b. spares (g a b)) \<Longrightarrow> spares (case p of (a, b) \<Rightarrow> g a b)"
  by (cases p) simp

lemma spares_whenm [spares_intros]: "spares m \<Longrightarrow> spares (whenm b m)"
  by (simp add: whenm_def spares_ret)

lemma wp_spares: "spares m \<Longrightarrow> wp m (\<lambda>_ _. True) (\<lambda>e _. e \<noteq> Spent) s"
  by (auto simp: spares_def wp_def split: prod.split sum.split)

lemma read_lines_spares: "breaks \<noteq> Some Spent \<Longrightarrow> spares (read_lines env started lines breaks r)"
proof (induction lines arbitrary: r)
  case Nil
  then show ?case unfolding read_lines.simps by (auto intro!: spares_intros)
next
  case (Cons line lines)
  show ?case unfolding read_lines.simps Let_def by (intro spares_intros Cons) simp
qed

lemma exchange_spares:
  assumes env: "answers env"
  shows "spares (exchange env name payload)"
proof -
  have calls: "spares (post env payload)" "spares (open_stream env payload)"
    "yields (\<lambda>a. a_breaks a \<noteq> Some Spent) (open_stream env payload)" using env by (simp_all add: answers_def)
  have timed: "spares (timed env started r)" for started r unfolding timed_def by (intro spares_intros)
  have "spares (exchange_stream env started payload)" for started
    unfolding exchange_stream_def Let_def
    by (rule spares_bind [OF calls(2,3)]) (intro spares_intros timed read_lines_spares)
  moreover have "spares (exchange_whole env started payload)" for started
    unfolding exchange_whole_def by (intro spares_intros timed calls(1)) simp
  ultimately show ?thesis unfolding exchange_def by (intro spares_intros) simp_all
qed

lemma give_back_spares: "spares (give_back env m tokens n)"
  unfolding give_back_def by (intro spares_intros)

lemma exchange_within_spares:
  assumes "answers env"
  shows "spares (exchange_within env sd)"
proof -
  have "spares (as_failure e)" if "e \<noteq> Spent" for e
    using that by (cases e) (auto simp: as_failure_def intro!: spares_intros)
  then show ?thesis
    unfolding exchange_within_def counted_output_def
    by (intro spares_intros spares_catch exchange_spares [OF assms] give_back_spares)
qed

lemma prepare_spares: "spares (prepare env cfg r raw body session fw)"
  unfolding prepare_def prepare_for_def pick_backend_def model_of_def by (intro spares_intros) simp

subsection \<open>Waiting for room ends\<close>

lemma wp_on_gate_onward:
  assumes "\<And>gt t. px_world t = px_world s \<Longrightarrow> wp (g (fst (f gt))) R (\<lambda>e _. e \<noteq> Spent) t"
  shows "wp (bindm (on_gate name f) g) R (\<lambda>e _. e \<noteq> Spent) s"
  using assms by (auto simp: wp_def bindm_def on_gate_def split: option.split)

lemma acquire_loop_ends:
  fixes env :: "'w env"
  assumes env: "keeps_time tm env"
  shows "deadline - time_of tm (px_world s) \<le> tick tm * of_nat k \<Longrightarrow> k < fuel
    \<Longrightarrow> wp (acquire_loop fuel env m seq tokens deadline) (\<lambda>_ _. True) (\<lambda>e _. e \<noteq> Spent) s"
proof (induction fuel arbitrary: k s)
  case (Suc fuel)
  let ?now = "fst (clock env s)" and ?s = "snd (clock env s)"
  have now: "time_of tm (px_world s) \<le> ?now" "?now \<le> time_of tm (px_world ?s)"
    using env by (auto simp: keeps_time_def)
  have again: "wp (bindm (modify (wait_gate env (lm_name m) wake)) (\<lambda>_. acquire_loop fuel env m seq tokens deadline))
      (\<lambda>_ _. True) (\<lambda>e _. e \<noteq> Spent) t" if t: "px_world t = px_world ?s" and early: "\<not> ?now \<ge> deadline" for wake t
  proof -
    have "0 < tick tm * of_nat k" using Suc.prems(1) now(1) early by linarith
    then obtain k' where k: "k = Suc k'" by (cases k) auto
    have "time_of tm (px_world ?s) + tick tm \<le> time_of tm (px_world (wait_gate env (lm_name m) wake t))"
      using env t unfolding keeps_time_def by metis
    then have "deadline - time_of tm (px_world (wait_gate env (lm_name m) wake t)) \<le> tick tm * of_nat k'"
      using Suc.prems(1) now k by (simp add: algebra_simps)
    from Suc.IH [OF this] Suc.prems(2) k show ?thesis by (simp add: wp_simps)
  qed
  show ?case
    unfolding acquire_loop.simps wp_bindm [of "now env"] wp_now wp_bindm [of "gets _"] wp_gets wp_if
    using again by (auto simp: wp_ret wp_if intro!: wp_on_gate_onward)
qed simp

lemma wp_finally_ends:
  assumes "wp m (\<lambda>_ _. True) (\<lambda>e _. e \<noteq> Spent) s" "spares c"
  shows "wp (finally_do m c) (\<lambda>_ _. True) (\<lambda>e _. e \<noteq> Spent) s"
proof -
  have "wp c (\<lambda>_ _. True) (\<lambda>e _. e \<noteq> Spent) t" for t by (rule wp_spares [OF assms(2)])
  moreover have "wp c (\<lambda>_ _. e \<noteq> Spent) (\<lambda>e _. e \<noteq> Spent) t" if "e \<noteq> Spent" for e t
    using wp_spares [OF assms(2)] that by (simp add: wp_def split: prod.split sum.split)
  ultimately show ?thesis
    unfolding finally_do_def wp_bindm wp_catch wp_ret wp_raise by (intro wp_mono [OF assms(1)]) simp_all
qed

lemma acquire_ends:
  fixes env :: "'w env"
  assumes env: "keeps_time tm env" and time: "deadline - time_of tm (px_world s) \<le> tick tm * of_nat k" "k < fuel"
  shows "wp (acquire fuel env m tokens rank deadline) (\<lambda>_ _. True) (\<lambda>e _. e \<noteq> Spent) s"
proof -
  let ?s = "snd (clock env s)"
  have "deadline - time_of tm (px_world ?s) \<le> tick tm * of_nat k"
    using env time(1) by (auto simp: keeps_time_def onward_def later_def) (meson diff_left_mono order_trans)
  then have loop: "wp (finally_do (acquire_loop fuel env m seq tokens deadline) (on_gate (lm_name m) (\<lambda>g. ((), leave_line seq g))))
      (\<lambda>_ _. True) (\<lambda>e _. e \<noteq> Spent) t" if "px_world t = px_world ?s" for seq t
    using that by (intro wp_finally_ends acquire_loop_ends [OF env _ time(2)] spares_intros) simp
  have "wp (bindm (finally_do (acquire_loop fuel env m seq tokens deadline) (on_gate (lm_name m) (\<lambda>g. ((), leave_line seq g))))
      (\<lambda>ok. bindm (whenm ok (emit_px (Took (lm_name m) tokens))) (\<lambda>_. ret ok))) (\<lambda>_ _. True) (\<lambda>e _. e \<noteq> Spent) t"
    if "px_world t = px_world ?s" for seq t
    unfolding wp_bindm [of "finally_do _ _"]
    by (rule wp_mono [OF loop [OF that]]) (auto simp: wp_simps)
  then show ?thesis
    unfolding acquire_def wp_bindm [of "now env"] wp_now by (intro wp_on_gate_onward)
qed

subsection \<open>Every round brings the end nearer\<close>

definition least_wait :: "settings \<Rightarrow> rat" where
  "least_wait st = min 1 (3 / 4 * min (backoff_max_seconds st) (backoff_seconds st))"

definition waits_left :: "settings \<Rightarrow> time \<Rightarrow> time \<Rightarrow> nat" where
  "waits_left st deadline t = nat \<lceil>(deadline - t) / least_wait st\<rceil>"

definition rounds :: "'w timing \<Rightarrow> settings \<Rightarrow> time \<Rightarrow> forwarding \<Rightarrow> 'w \<Rightarrow> nat" where
  "rounds tm st deadline fw w = waits_left st deadline (time_of tm w) + nat (cut_retries st - fw_cuts fw)
     + (if fw_streamed fw = None then 1 else 0) + (if left_at tm w then 0 else 1)"

lemma waits_left_mono: "0 < least_wait st \<Longrightarrow> t \<le> t' \<Longrightarrow> waits_left st deadline t' \<le> waits_left st deadline t"
  unfolding waits_left_def by (intro nat_mono ceiling_mono divide_right_mono) auto

lemma waits_left_less:
  assumes "0 < least_wait st" "t + least_wait st < deadline" "t + least_wait st \<le> t'"
  shows "waits_left st deadline t' < waits_left st deadline t"
proof -
  let ?d = "least_wait st"
  have "(deadline - t') / ?d \<le> (deadline - t - ?d) / ?d" using assms by (intro divide_right_mono) auto
  also have "\<dots> = (deadline - t) / ?d - 1" using assms(1) by (simp add: diff_divide_distrib)
  finally have "(deadline - t') / ?d \<le> (deadline - t) / ?d - 1" .
  moreover have "0 < (deadline - t) / ?d" using assms by (intro divide_pos_pos) linarith+
  ultimately show ?thesis unfolding waits_left_def by (simp add: nat_less_eq_zless) linarith
qed

lemma seconds_in_least: "seconds_in headers name = Some x \<Longrightarrow> 1 \<le> x"
  unfolding seconds_in_def by (cases "map_of headers name") (auto simp: DOUBLE_LIMIT_def split: pyfloat.split)

lemma retry_after_least: "1 \<le> retry_after r"
  by (auto simp: retry_after_def RATE_LIMIT_WAIT_def split: option.splits dest: seconds_in_least)

lemma failed_wait:
  assumes "0 < backoff_seconds st" "0 < backoff_max_seconds st"
    and "case retry of Some x \<Rightarrow> 1 \<le> x | None \<Rightarrow> 3 / 4 \<le> u"
  shows "least_wait st \<le> fst (failed st retry tries u t g)"
proof (cases retry)
  case None
  let ?b = "min (backoff_max_seconds st) (backoff_seconds st * 2 ^ (tries - 1))"
  have "backoff_seconds st * 1 \<le> backoff_seconds st * 2 ^ (tries - 1)"
    using assms(1) by (intro mult_left_mono) auto
  then have b: "min (backoff_max_seconds st) (backoff_seconds st) \<le> ?b" by auto
  have "3 / 4 * min (backoff_max_seconds st) (backoff_seconds st) \<le> u * ?b"
    using None assms b by (intro mult_mono) auto
  then show ?thesis using None by (auto simp: failed_def least_wait_def Let_def mult.commute split: prod.split)
next
  case (Some x)
  then show ?thesis using assms(3) by (auto simp: failed_def least_wait_def Let_def split: prod.split)
qed

text \<open>A result that is no end, after fewer rounds than were left.\<close>

definition nearer :: "'w timing \<Rightarrow> settings \<Rightarrow> time \<Rightarrow> nat \<Rightarrow> outcome + forwarding \<Rightarrow> 'w proxy \<Rightarrow> bool" where
  "nearer tm st deadline n res t \<longleftrightarrow> (\<forall>fw. res = Inr fw \<longrightarrow> rounds tm st deadline fw (px_world t) < n)"

lemma after_failure_nearer:
  fixes env :: "'w env"
  assumes env: "keeps_time tm env" and pos: "0 < backoff_seconds st" "0 < backoff_max_seconds st"
    and s: "later tm w s" "\<not> left_at tm w"
  shows "wp (after_failure env st deadline sd reply fw) (nearer tm st deadline (rounds tm st deadline fw w)) (\<lambda>e _. e \<noteq> Spent) s"
proof -
  have least: "0 < least_wait st" using pos by (simp add: least_wait_def)
  let ?fw = "noted ''failures'' (JNum (of_nat (fw_failures fw + 1))) (fw\<lparr>fw_failures := fw_failures fw + 1\<rparr>)"
  let ?retry = "if r_status reply = 429 then Some (retry_after reply) else None"
  let ?N = "nearer tm st deadline (rounds tm st deadline fw w)"
  have gone: "?N (Inr fw) s" if "gone env s"
    using that env s waits_left_mono [OF least, of "time_of tm w" "time_of tm (px_world s)" deadline] by (auto simp: nearer_def rounds_def later_def keeps_time_def)
  have same: "fw_cuts ?fw = fw_cuts fw" "fw_streamed ?fw = fw_streamed fw" by (simp_all add: noted_def)
  have waited: "wp (bindm (now env) (\<lambda>t1. if t1 + wait \<ge> deadline then ret (settled_with (failure 503 ''server_error'' ''the model kept failing'') ?fw) else
      bindm (asks (wait_stop env wait)) (\<lambda>stopping.
      ret (if stopping then settled_with (failure 503 ''server_error'' ''the proxy is restarting'') ?fw else Inr ?fw)))) ?N (\<lambda>e _. e \<noteq> Spent) t"
    if t: "later tm w t" and wait: "least_wait st \<le> wait" for wait t
  proof -
    let ?t1 = "fst (clock env t)" and ?t = "snd (clock env t)" let ?u = "snd (wait_stop env wait ?t)"
    have now: "time_of tm w \<le> ?t1" "?t1 \<le> time_of tm (px_world ?t)"
      using env t by (auto simp: keeps_time_def later_def intro: order_trans)
    have "?N (Inr ?fw) ?u" if early: "\<not> ?t1 + wait \<ge> deadline" and stop: "\<not> fst (wait_stop env wait ?t)"
    proof -
      have "time_of tm (px_world ?t) + wait \<le> time_of tm (px_world ?u)" using env stop by (auto simp: keeps_time_def)
      then have "waits_left st deadline (time_of tm (px_world ?u)) < waits_left st deadline (time_of tm w)"
        using least wait now early by (intro waits_left_less) linarith+
      then show ?thesis using s(2) same by (simp add: nearer_def rounds_def)
    qed
    then show ?thesis by (auto simp: wp_simps nearer_def settled_with_def)
  qed
  have fail: "wp (bindm (on_gate name (failed st ?retry k u t)) g) ?N (\<lambda>e _. e \<noteq> Spent) v"
    if g: "\<And>wait v. least_wait st \<le> wait \<Longrightarrow> later tm w v \<Longrightarrow> wp (g wait) ?N (\<lambda>e _. e \<noteq> Spent) v"
      and u: "?retry = None \<Longrightarrow> 3 / 4 \<le> u" and v: "later tm w v" for name k u t g v
  proof (rule wp_on_gate_onward)
    fix gt and v' :: "'w proxy"
    assume "px_world v' = px_world v"
    moreover have "least_wait st \<le> fst (failed st ?retry k u t gt)"
      using u retry_after_least [of reply] by (intro failed_wait [OF pos]) auto
    ultimately show "wp (g (fst (failed st ?retry k u t gt))) ?N (\<lambda>e _. e \<noteq> Spent) v'"
      using v by (intro g) (auto simp: later_def)
  qed
  let ?wait = "\<lambda>wait. bindm (now env) (\<lambda>t1. if t1 + wait \<ge> deadline
      then ret (settled_with (failure 503 ''server_error'' ''the model kept failing'') ?fw) else
      bindm (asks (wait_stop env wait)) (\<lambda>stopping.
      ret (if stopping then settled_with (failure 503 ''server_error'' ''the proxy is restarting'') ?fw else Inr ?fw)))"
  have "wp (bindm (now env) (\<lambda>t. bindm (on_gate (lm_name (sd_model sd)) (failed st ?retry (fw_failures ?fw) u t)) ?wait))
      ?N (\<lambda>e _. e \<noteq> Spent) v" if "?retry = None \<Longrightarrow> 3 / 4 \<le> u" "later tm w v" for u v
    unfolding wp_bindm [of "now env"] wp_now
    using that preservesD [OF keeps_time_calls(1) [OF env, of w] that(2)] by (intro fail waited) auto
  then have "wp (bindm (if ?retry = None then asks (uniform env) else ret 1) (\<lambda>u. bindm (now env) (\<lambda>t.
      bindm (on_gate (lm_name (sd_model sd)) (failed st ?retry (fw_failures ?fw) u t)) ?wait))) ?N (\<lambda>e _. e \<noteq> Spent) s"
    using env s preservesD [OF keeps_time_calls(3) [OF env, of w] s(1)]
    by (auto simp: wp_bindm [of "if _ then _ else _"] wp_ret wp_asks keeps_time_def)
  then show ?thesis
    unfolding after_failure_def Let_def wp_bindm [of "gets _"] wp_gets wp_if wp_ret using gone by auto
qed

lemma wp_ends_with:
  assumes "spares m" "yields P m" "preserves I m" "I s" "\<And>a t. P a \<Longrightarrow> I t \<Longrightarrow> R a t"
  shows "wp m R (\<lambda>e _. e \<noteq> Spent) s"
  using assms unfolding spares_def yields_def preserves_def wp_def
  by (auto split: prod.split sum.split) (metis snd_conv)+

lemma rounds_less:
  assumes least: "0 < least_wait st" and w: "time_of tm w \<le> time_of tm w'" "\<not> left_at tm w"
    and fw: "fw_cuts fw' = fw_cuts fw + 1 \<and> fw_cuts fw < cut_retries st \<and> fw_streamed fw' = fw_streamed fw
      \<or> fw_cuts fw' = fw_cuts fw \<and> fw_streamed fw = None \<and> fw_streamed fw' \<noteq> None"
  shows "rounds tm st deadline fw' w' < rounds tm st deadline fw w"
proof -
  note le = waits_left_mono [OF least w(1), of deadline]
  from fw show ?thesis
  proof
    assume cut: "fw_cuts fw' = fw_cuts fw + 1 \<and> fw_cuts fw < cut_retries st \<and> fw_streamed fw' = fw_streamed fw"
    then have "nat (cut_retries st - fw_cuts fw) = Suc (nat (cut_retries st - (fw_cuts fw + 1)))" by linarith
    then show ?thesis using le w(2) cut unfolding rounds_def by auto
  next
    assume "fw_cuts fw' = fw_cuts fw \<and> fw_streamed fw = None \<and> fw_streamed fw' \<noteq> None"
    then show ?thesis using le w(2) unfolding rounds_def by auto
  qed
qed

lemma after_cut_nearer:
  assumes env: "keeps_time tm env" and least: "0 < least_wait st" and s: "later tm w s" "\<not> left_at tm w"
  shows "wp (after_cut env st deadline sd reply fw) (nearer tm st deadline (rounds tm st deadline fw w)) (\<lambda>e _. e \<noteq> Spent) s"
proof (rule wp_ends_with [where I = "later tm w"])
  let ?P = "\<lambda>res. \<forall>fw'. res = Inr fw' \<longrightarrow> fw_cuts fw' = fw_cuts fw + 1 \<and> fw_cuts fw < cut_retries st \<and> fw_streamed fw' = fw_streamed fw"
  show "spares (after_cut env st deadline sd reply fw)"
    unfolding after_cut_def Let_def by (intro spares_intros)
  show "preserves (later tm w) (after_cut env st deadline sd reply fw)"
    unfolding after_cut_def Let_def by (intro pres_intros env)
  show "yields ?P (after_cut env st deadline sd reply fw)"
    unfolding after_cut_def Let_def by (intro yields_intros) (auto simp: settled_with_def noted_def)
  show "nearer tm st deadline (rounds tm st deadline fw w) res t" if "?P res" "later tm w t" for res t
    using that s(2) unfolding nearer_def later_def by (intro allI impI rounds_less [OF least]) auto
qed (rule s)

lemma judge_nearer:
  fixes env :: "'w env"
  assumes env: "keeps_time tm env" and pos: "0 < backoff_seconds st" "0 < backoff_max_seconds st"
    and s: "later tm w s" "\<not> left_at tm w"
  shows "wp (judge env st deadline sd fr) (nearer tm st deadline (rounds tm st deadline (fst fr) w)) (\<lambda>e _. e \<noteq> Spent) s"
proof -
  obtain fw0 reply where fr: "fr = (fw0, reply)" by fastforce
  let ?fw = "noted ''ratelimit_remaining'' (opt_json (map_of (r_headers reply) ''x-ratelimit-remaining''))
    (noted ''status'' (JNum (of_nat (r_status reply))) fw0)"
  have least: "0 < least_wait st" using pos by (simp add: least_wait_def)
  have same: "rounds tm st deadline fw0 w = rounds tm st deadline ?fw w" by (simp add: rounds_def noted_def)
  let ?N = "nearer tm st deadline (rounds tm st deadline fw0 w)"
  have failure: "wp (after_failure env st deadline sd reply ?fw) ?N (\<lambda>e _. e \<noteq> Spent) s"
    using after_failure_nearer [OF env pos s, of deadline sd reply ?fw] by (simp only: same)
  have cut: "wp (after_cut env st deadline sd reply ?fw) ?N (\<lambda>e _. e \<noteq> Spent) s"
    using after_cut_nearer [OF env least s, of deadline sd reply ?fw] by (simp only: same)
  have "spares (after_success env sd reply ?fw)" "yields (\<lambda>res. \<exists>out. res = Inl out) (after_success env sd reply ?fw)"
    unfolding after_success_def by (intro yields_intros spares_intros; simp add: settled_with_def)+
  then have success: "wp (after_success env sd reply ?fw) ?N (\<lambda>e _. e \<noteq> Spent) s"
    by (rule wp_ends_with [where I = "\<lambda>_. True"]) (auto simp: preserves_def nearer_def)
  have again: "?N (Inr (noted ''reshaped'' p (?fw\<lparr>fw_streamed := Some reply\<rparr>))) s" if "fw_streamed ?fw = None" for p
    using that s unfolding nearer_def later_def by (intro allI impI rounds_less [OF least]) (auto simp: noted_def)
  show ?thesis
    unfolding judge_def Let_def fr prod.case fst_conv wp_if wp_ret
    using failure cut success again by (auto simp: nearer_def give_streamed_def settled_with_def)
qed

lemma send_result: "yields (\<lambda>res. \<forall>fw' reply. res = Inr (fw', reply) \<longrightarrow> fw_cuts fw' = fw_cuts fw \<and> fw_streamed fw' = fw_streamed fw)
    (send fuel env r deadline sd fw)"
  unfolding send_def
  by (intro yields_intros)
     (auto simp: client_gone_def give_streamed_def settled_with_def seconds_noted_def noted_def split: option.splits)

lemma send_ends:
  fixes env :: "'w env"
  assumes env: "keeps_time tm env" "answers env" and time: "deadline - time_of tm (px_world s) \<le> tick tm * of_nat k" "k < fuel"
  shows "wp (send fuel env r deadline sd fw) (\<lambda>_ _. True) (\<lambda>e _. e \<noteq> Spent) s"
proof -
  let ?s = "snd (clock env s)"
  have "deadline - time_of tm (px_world ?s) \<le> tick tm * of_nat k"
    using env(1) time(1) by (auto simp: keeps_time_def onward_def later_def) (meson diff_left_mono order_trans)
  note acq = acquire_ends [OF env(1) this time(2), of "sd_model sd" "sd_tokens sd" "ro_rank r"]
  have rest: "spares (if \<not> ok then bindm (gets (gone env)) (\<lambda>away. ret (f away))
      else bindm (now env) (\<lambda>t. bindm (exchange_within env sd) (\<lambda>reply. ret (h t reply))))" for ok f h
    by (intro spares_intros exchange_within_spares env)
  show ?thesis
    unfolding send_def wp_bindm [of "now env"] wp_now wp_bindm [of "acquire _ _ _ _ _ _"]
    by (rule wp_mono [OF acq]) (simp_all add: wp_spares [OF rest, simplified])
qed

lemma wp_combine:
  assumes "wp m (\<lambda>_ _. True) (\<lambda>e _. e \<noteq> Spent) s" "yields P m" "preserves I m" "I s" "\<And>a t. P a \<Longrightarrow> I t \<Longrightarrow> R a t"
  shows "wp m R (\<lambda>e _. e \<noteq> Spent) s"
  using assms unfolding yields_def preserves_def wp_def
  by (auto split: prod.splits sum.splits) (metis snd_conv)+

lemma try_once_nearer:
  fixes env :: "'w env"
  assumes env: "keeps_time tm env" "answers env" and pos: "0 < backoff_seconds (settings_of cfg)" "0 < backoff_max_seconds (settings_of cfg)"
    and time: "deadline - time_of tm w \<le> tick tm * of_nat k" "k < fuel" and t: "later tm w t" "\<not> left_at tm w"
  shows "wp (try_once fuel env cfg r deadline sd fw)
    (nearer tm (settings_of cfg) deadline (rounds tm (settings_of cfg) deadline fw w)) (\<lambda>e _. e \<noteq> Spent) t"
  unfolding try_once_def wp_bindm
proof (rule wp_combine [OF _ send_result send_onward [OF env(1)] t(1)])
  have "deadline - time_of tm (px_world t) \<le> tick tm * of_nat k" using time(1) t(1) by (simp add: later_def)
  then show "wp (send fuel env r deadline sd fw) (\<lambda>_ _. True) (\<lambda>e _. e \<noteq> Spent) t" by (rule send_ends [OF env _ time(2)])
next
  fix res :: "outcome + forwarding \<times> reply" and u :: "'w proxy"
  assume res: "\<forall>fw' reply. res = Inr (fw', reply) \<longrightarrow> fw_cuts fw' = fw_cuts fw \<and> fw_streamed fw' = fw_streamed fw" and u: "later tm w u"
  show "wp (case res of Inl done \<Rightarrow> ret (Inl done) | Inr fr \<Rightarrow> judge env (settings_of cfg) deadline sd fr)
      (nearer tm (settings_of cfg) deadline (rounds tm (settings_of cfg) deadline fw w)) (\<lambda>e _. e \<noteq> Spent) u"
  proof (cases res)
    case (Inl out)
    then show ?thesis by (simp add: wp_ret nearer_def)
  next
    case (Inr fr)
    then have "rounds tm (settings_of cfg) deadline (fst fr) w = rounds tm (settings_of cfg) deadline fw w"
      using res by (cases fr) (simp add: rounds_def)
    then show ?thesis using judge_nearer [OF env(1) pos u t(2), of deadline sd fr] Inr by simp
  qed
qed

lemma turn_nearer:
  fixes env :: "'w env"
  assumes env: "keeps_time tm env" "answers env" and pos: "0 < backoff_seconds (settings_of cfg)" "0 < backoff_max_seconds (settings_of cfg)"
    and time: "deadline - time_of tm (px_world s) \<le> tick tm * of_nat k" "k < fuel"
  shows "wp (turn fuel env cfg r raw body session deadline fw)
    (nearer tm (settings_of cfg) deadline (rounds tm (settings_of cfg) deadline fw (px_world s))) (\<lambda>e _. e \<noteq> Spent) s"
proof (cases "left_at tm (px_world s)")
  case True
  then show ?thesis
    using env(1) by (simp add: turn_def wp_simps keeps_time_def client_gone_def settled_with_def nearer_def)
next
  case False
  let ?N = "nearer tm (settings_of cfg) deadline (rounds tm (settings_of cfg) deadline fw (px_world s))"
  let ?send = "\<lambda>p. case p of
      None \<Rightarrow> ret (settled_with (failure 413 ''context_length_exceeded'' (''over the models'' @ CHR 0x27 # '' fair-use size'')) fw)
    | Some sd \<Rightarrow> try_once fuel env cfg r deadline sd (noted ''max_tokens'' (dict_get (sd_payload sd) ''max_tokens'' JNull)
        (noted ''backend'' (JStr (show_backend (sd_backend sd))) fw))"
  have same: "rounds tm st d (noted k v (noted k' v' fw)) w = rounds tm st d fw w" for st d k v k' v' w
    by (simp add: rounds_def noted_def)
  have sent: "wp (?send p) ?N (\<lambda>e _. e \<noteq> Spent) t" if "later tm (px_world s) t" for p t
  proof (cases p)
    case None
    then show ?thesis by (simp add: wp_ret nearer_def settled_with_def)
  next
    case (Some sd)
    let ?fw = "noted ''max_tokens'' (dict_get (sd_payload sd) ''max_tokens'' JNull)
      (noted ''backend'' (JStr (show_backend (sd_backend sd))) fw)"
    show ?thesis using try_once_nearer [OF env pos time that False, of r sd ?fw] unfolding Some option.case same .
  qed
  have prep: "wp (bindm (prepare env cfg r raw body session fw) ?send) ?N (\<lambda>e _. e \<noteq> Spent) t" if "later tm (px_world s) t" for t
    unfolding wp_bindm
    by (rule wp_ends_with [OF prepare_spares, where P = "\<lambda>_. True" and I = "later tm (px_world s)"])
       (auto simp: yields_def intro: that sent prepare_onward [OF env(1)])
  have "later tm (px_world s) (snd (clock env s))" using env(1) by (simp add: keeps_time_def onward_def)
  then show ?thesis
    using env(1) False prep [of s] prep [of "snd (clock env s)"]
    by (auto simp: turn_def wp_bindm [of "gets _"] wp_gets wp_bindm [of "if _ then _ else _"] wp_if wp_ret wp_now keeps_time_def
        nearer_def give_streamed_def settled_with_def)
qed

lemma judge_onward [pres_intros]:
  assumes "keeps_time tm env"
  shows "preserves (later tm w) (judge env st deadline sd fr)"
  unfolding judge_def after_failure_def after_cut_def after_success_def Let_def by (intro pres_intros assms)

lemma turn_onward:
  assumes "keeps_time tm env"
  shows "preserves (later tm w) (turn fuel env cfg r raw body session deadline fw)"
  unfolding turn_def try_once_def by (intro pres_intros assms)

lemma forward_loop_ends:
  fixes env :: "'w env"
  assumes env: "keeps_time tm env" "answers env" and pos: "0 < backoff_seconds (settings_of cfg)" "0 < backoff_max_seconds (settings_of cfg)"
    and fuel: "k < fuel"
  shows "deadline - time_of tm (px_world s) \<le> tick tm * of_nat k \<Longrightarrow> rounds tm (settings_of cfg) deadline fw (px_world s) < n
    \<Longrightarrow> wp (forward_loop fuel n env cfg r raw body session deadline fw) (\<lambda>_ _. True) (\<lambda>e _. e \<noteq> Spent) s"
proof (induction n arbitrary: s fw)
  case (Suc n)
  let ?N = "nearer tm (settings_of cfg) deadline (rounds tm (settings_of cfg) deadline fw (px_world s))"
  note near = turn_nearer [OF env pos Suc.prems(1) fuel, of r raw body session fw]
  have "wp (turn fuel env cfg r raw body session deadline fw) (\<lambda>res t. ?N res t \<and> later tm (px_world s) t) (\<lambda>e _. e \<noteq> Spent) s"
    using near preservesD [OF turn_onward [OF env(1), of "px_world s"] later_refl]
    unfolding wp_def by (auto split: prod.splits sum.splits) (metis snd_conv)
  then show ?case
    unfolding forward_loop.simps wp_bindm
  proof (rule wp_mono, goal_cases)
    case (1 res t)
    have "deadline - time_of tm (px_world t) \<le> tick tm * of_nat k" using Suc.prems(1) 1 by (simp add: later_def)
    then show ?case using Suc.IH [of t] Suc.prems(2) 1 by (auto simp: wp_ret nearer_def split: sum.split)
  qed simp
qed simp

text \<open>
  C14: every request is answered, or fails, within its hold. In a world where time passes, \<open>forward\<close> ends, in at most as many rounds as
  its hold has backoffs, and the cuts it may try again, and three more; and each wait for room ends after at most as many looks
  as its hold has ticks. Nothing is assumed of what the models answer.
\<close>

theorem forward_ends:
  fixes env :: "'w env"
  assumes env: "keeps_time tm env" "answers env"
    and st: "st = settings_of cfg" "0 < backoff_seconds st" "0 < backoff_max_seconds st"
    and fuel: "nat \<lceil>hold_hours st * 3600 / tick tm\<rceil> < fuel" "nat \<lceil>hold_hours st * 3600 / least_wait st\<rceil> + nat (cut_retries st) + 2 < n"
  shows "\<exists>res t. forward fuel n env cfg r raw body session s = (res, t) \<and> res \<noteq> Inl Spent"
proof -
  let ?t = "fst (clock env s)" and ?s = "snd (clock env s)"
  let ?deadline = "?t + hold_hours st * 3600"
  let ?fw = "\<lparr>fw_cuts = 0, fw_shrink = 0, fw_failures = 0, fw_streamed = None,
      fw_record = [(''role'', JStr (ro_name r)), (''session'', JStr session), (''attempts'', JNum 0)]\<rparr>"
  have now: "?t \<le> time_of tm (px_world ?s)" and tick: "0 < tick tm" using env(1) by (auto simp: keeps_time_def)
  have least: "0 < least_wait st" using st by (simp add: least_wait_def)
  let ?k = "nat \<lceil>hold_hours st * 3600 / tick tm\<rceil>"
  have "hold_hours st * 3600 / tick tm \<le> of_nat ?k" by (simp add: of_nat_ceiling)
  then have "hold_hours st * 3600 \<le> tick tm * of_nat ?k" using tick by (simp add: field_simps)
  then have k: "?deadline - time_of tm (px_world ?s) \<le> tick tm * of_nat ?k" using now by linarith
  have "waits_left st ?deadline (time_of tm (px_world ?s)) \<le> waits_left st ?deadline ?t" by (rule waits_left_mono [OF least now])
  also have "\<dots> = nat \<lceil>hold_hours st * 3600 / least_wait st\<rceil>" by (simp add: waits_left_def)
  finally have "rounds tm st ?deadline ?fw (px_world ?s) < n" using fuel(2) by (simp add: rounds_def)
  from forward_loop_ends [OF env _ _ fuel(1) k, of cfg ?fw n r raw body session] this st
  have "wp (forward fuel n env cfg r raw body session) (\<lambda>_ _. True) (\<lambda>e _. e \<noteq> Spent) s"
    by (simp add: forward_def wp_bindm wp_now)
  then show ?thesis
    by (cases "forward fuel n env cfg r raw body session s") (auto simp: wp_def split: sum.splits)
qed

definition example_timing :: "rat timing" where
  "example_timing = \<lparr>time_of = id, left_at = (\<lambda>_. False), tick = 1\<rparr>"

lemma example_keeps_time: "keeps_time example_timing example_env"
  by (simp add: keeps_time_def example_timing_def example_env_def onward_def later_def ret_def)

lemma example_env_answers: "answers example_env"
  by (auto simp: answers_def example_env_def spares_def yields_def ret_def)

theorem forward_ends_witness:
  "\<exists>res t. forward 9001 9006 example_env example_llms example_role ''{}'' [] [] example_proxy = (res, t) \<and> res \<noteq> Inl Spent"
  by (rule forward_ends [OF example_keeps_time example_env_answers refl])
     (simp_all add: example_llms_def example_settings_def example_timing_def least_wait_def)

end
