(* ===== verification/LLM_Server.thy ===== *)
theory LLM_Server
  imports LLM_Forward
begin

text \<open>
  \<open>Handler\<close> and \<open>Server\<close> (\<open>src/apps/agentic-analysis/llm_proxy.py\<close>): what becomes of an HTTP request to the proxy, which of them are
  forwarded to a model, and how a restart waits for those in flight.
\<close>

definition RETRY_AFTER :: nat where "RETRY_AFTER = 30"

text \<open>\<open>Proxy.__init__\<close>: a gate for each model, and no token that is empty.\<close>

definition new_proxy :: "config \<Rightarrow> string \<Rightarrow> 'w \<Rightarrow> config_error + 'w proxy" where
  "new_proxy cfg token w = (if token = [] then Inl Empty_token
     else Inr \<lparr>gates = map (\<lambda>(name, m). (name, new_gate m)) (models cfg), sticky_to = [], px_trace = [], px_world = w\<rparr>)"

subsection \<open>A request and its answer\<close>

text \<open>Its path, its headers in lower case, and what it carries.\<close>

record request =
  rq_path :: string
  rq_headers :: "(string, string) dict"
  rq_body :: string

text \<open>An answer: its status, its body, the type of that, more headers, and whether the connection is closed after it; or the frames of a stream.\<close>

datatype response =
    Answer nat string string "(string \<times> string) list" bool
  | Stream "string list"

definition json_kind :: string where "json_kind = ''application/json''"

definition refuse :: "nat \<Rightarrow> string \<Rightarrow> string \<Rightarrow> (string \<times> string) list \<Rightarrow> bool \<Rightarrow> response" where
  "refuse code kind text headers closing = Answer code (error_body (failure code kind text)) json_kind headers closing"

definition no_such_path :: response where
  "no_such_path = refuse 404 ''invalid_prompt'' ''no such path'' [] False"

definition not_authorized :: response where
  "not_authorized = refuse 401 ''invalid_prompt'' ''a bearer token is required'' [] False"

definition authorized :: "string \<Rightarrow> request \<Rightarrow> bool" where
  "authorized token rq \<longleftrightarrow> strip_of py_space (removeprefix ''Bearer '' (dict_get (rq_headers rq) ''authorization'' [])) = token"

subsection \<open>What it says of itself\<close>

definition config_view :: "config \<Rightarrow> json" where
  "config_view cfg = JObj (map (\<lambda>(name, r). (name, JObj
     [(''context'', JNum (of_int (ro_context r))), (''compact_at'', JNum (of_int (ro_compact r))), (''images'', JNum (of_int (ro_images r))),
      (''max_body_bytes'', JNum (of_int (max_body_bytes (settings_of cfg)))),
      (''backends'', JList (map (JStr \<circ> show_backend) (ro_backends r)))])) (roles cfg))"

definition models_view :: "config \<Rightarrow> json" where
  "models_view cfg = JObj [(''object'', JStr ''list''),
     (''data'', JList (map (\<lambda>(name, _). JObj [(''id'', JStr name), (''object'', JStr ''model'')]) (roles cfg)))]"

definition status_view :: "gate_status \<Rightarrow> json" where
  "status_view v = JObj [(''slots'', JNum (of_int (gs_slots v))), (''busy'', JNum (of_int (gs_busy v))), (''held'', JNum (of_int (gs_held v))),
     (''waiting'', JNum (of_nat (gs_waiting v))), (''output_last_minute'', JNum (of_int (gs_output v))),
     (''healthy'', JBool (gs_healthy v)), (''failures'', JNum (of_int (gs_failures v)))]"

text \<open>The gates' reports at one time, each of which drops old outputs.\<close>

definition report_all :: "time \<Rightarrow> (string, gate) dict \<Rightarrow> json \<times> (string, gate) dict" where
  "report_all t gs = (JObj (map (\<lambda>(name, g). (name, status_view (fst (report t g)))) gs), map (\<lambda>(name, g). (name, snd (report t g))) gs)"

definition do_get :: "'w env \<Rightarrow> config \<Rightarrow> string \<Rightarrow> request \<Rightarrow> ('w, response) px" where
  "do_get env cfg token rq =
     (if rq_path rq = ''/healthz'' then ret (Answer 200 ''ok'' ''text/plain'' [] False)
      else if \<not> authorized token rq then ret not_authorized
      else if rq_path rq \<in> {''/v1/models'', ''/models''} then ret (Answer 200 (json_dumps (models_view cfg)) json_kind [] False)
      else if rq_path rq = ''/config'' then ret (Answer 200 (json_dumps (config_view cfg)) json_kind [] False)
      else if rq_path rq = ''/status'' then
        bindm (now env) (\<lambda>t.
        bindm (gets (\<lambda>s. report_all t (gates s))) (\<lambda>(view, gs).
        bindm (modify (\<lambda>s. s\<lparr>gates := gs\<rparr>)) (\<lambda>_. ret (Answer 200 (json_dumps view) json_kind [] False))))
      else ret no_such_path)"

subsection \<open>What is forwarded\<close>

text \<open>
  \<open>str(body.get("model"))\<close> for a value that may name a role: the text of a number, a list or an object is not the name of one.
\<close>

definition role_named :: "config \<Rightarrow> json \<Rightarrow> role option" where
  "role_named cfg j = (case j of JStr name \<Rightarrow> map_of (roles cfg) name | JNull \<Rightarrow> map_of (roles cfg) ''None''
     | JBool b \<Rightarrow> map_of (roles cfg) (if b then ''True'' else ''False'') | _ \<Rightarrow> None)"

record accepted =
  ac_role :: role
  ac_body :: "(string, json) dict"
  ac_images :: int

definition too_large :: "int \<Rightarrow> int \<Rightarrow> response" where
  "too_large len most = refuse 413 ''context_length_exceeded''
     (''a body of '' @ show_int len @ '' bytes is over the '' @ show_int most @ '' the models accept'') [] True"

definition content_length :: "request \<Rightarrow> exn + int" where
  "content_length rq = (let text = dict_get (rq_headers rq) ''content-length'' [] in
     if text = [] then Inr 0 else case int_text text of None \<Rightarrow> Inl ''ValueError'' | Some n \<Rightarrow> Inr n)"

definition check_body :: "config \<Rightarrow> string \<Rightarrow> json \<Rightarrow> exn + (response + accepted)" where
  "check_body cfg raw j =
     bind_sum (jget j ''model'') (\<lambda>name. case role_named cfg name of
       None \<Rightarrow> Inr (Inl (refuse 400 ''invalid_prompt'' ''no such role; see /v1/models'' [] False))
     | Some r \<Rightarrow>
       bind_sum (images j) (\<lambda>sent.
       if sent > ro_images r then Inr (Inl (refuse 413 ''context_length_exceeded''
         (show_int sent @ '' images in one request; '' @ ro_name r @ '' takes at most '' @ show_int (ro_images r)) [] False))
       else if \<not> list_ex (fits_backend cfg raw sent) (ro_backends r)
       then Inr (Inl (refuse 413 ''context_length_exceeded'' (''over the models'' @ CHR 0x27 # '' fair-use size'') [] False))
       else case j of JObj d \<Rightarrow> Inr (Inr \<lparr>ac_role = r, ac_body = d, ac_images = sent\<rparr>) | _ \<Rightarrow> Inl ''AttributeError''))"

text \<open>The body is as much of what the request carries as \<open>Content-Length\<close> says; a negative length reads it all.\<close>

definition body_read :: "request \<Rightarrow> int \<Rightarrow> string" where
  "body_read rq len = (if len < 0 then rq_body rq else take (nat len) (rq_body rq))"

definition check_post :: "config \<Rightarrow> string \<Rightarrow> request \<Rightarrow> exn + (response + (string \<times> accepted))" where
  "check_post cfg token rq =
     (if rq_path rq \<notin> {''/v1/chat/completions'', ''/chat/completions''} then Inr (Inl no_such_path)
      else if \<not> authorized token rq then Inr (Inl not_authorized)
      else bind_sum (content_length rq) (\<lambda>len.
        if len > max_body_bytes (settings_of cfg) then Inr (Inl (too_large len (max_body_bytes (settings_of cfg))))
        else case json_loads (body_read rq len) of
          None \<Rightarrow> Inr (Inl (refuse 400 ''invalid_prompt'' ''the body is not JSON'' [] False))
        | Some j \<Rightarrow> map_sum id (map_sum id (Pair (body_read rq len))) (check_body cfg (body_read rq len) j)))"

subsection \<open>The server\<close>

record 'w service =
  sv_stopping :: bool
  sv_draining :: bool
  sv_in_flight :: int
  sv_mine :: int
  sv_proxy :: "'w proxy"

text \<open>\<open>sv_mine\<close> counts what this thread has in flight itself.\<close>

type_synonym ('w, 'a) sv = "('w service, px_exn, 'a) eff"

definition admit_request :: "('w, bool) sv" where
  "admit_request = (\<lambda>s. if sv_draining s then (Inr False, s)
     else (Inr True, s\<lparr>sv_in_flight := sv_in_flight s + 1, sv_mine := sv_mine s + 1\<rparr>))"

definition finished :: "('w, unit) sv" where
  "finished = modify (\<lambda>s. s\<lparr>sv_in_flight := sv_in_flight s - 1, sv_mine := sv_mine s - 1\<rparr>)"

text \<open>\<open>drain\<close>: \<open>waited\<close> is what the other threads do while it waits, at the end of which the time is up or nothing is in flight.\<close>

definition drain :: "('w service \<Rightarrow> 'w service) \<Rightarrow> ('w, int) sv" where
  "drain waited = bindm (modify (\<lambda>s. s\<lparr>sv_stopping := True, sv_draining := True\<rparr>)) (\<lambda>_. bindm (modify waited) (\<lambda>_. gets sv_in_flight))"

definition in_proxy :: "('w, 'a) px \<Rightarrow> ('w, 'a) sv" where
  "in_proxy m = (\<lambda>s. case m (sv_proxy s) of (r, p) \<Rightarrow> (r, s\<lparr>sv_proxy := p\<rparr>))"

subsection \<open>Answering\<close>

text \<open>\<open>b"%x\r\n%s\r\n"\<close>.\<close>

fun show_hex :: "nat \<Rightarrow> string" where
  "show_hex n = (if n < 16 then [hex_char n] else show_hex (n div 16) @ [hex_char (n mod 16)])"

declare show_hex.simps [simp del]

definition crlf :: string where "crlf = [CHR 0x0D, CHR 0x0A]"

definition frame :: "string \<Rightarrow> string" where
  "frame data = show_hex (length data) @ crlf @ data @ crlf"

definition data_frame :: "string \<Rightarrow> string" where
  "data_frame payload = frame (''data: '' @ payload @ [newline, newline])"

definition stream_frames :: "(nat \<Rightarrow> string) \<Rightarrow> int \<Rightarrow> string \<Rightarrow> reply \<Rightarrow> exn + string list" where
  "stream_frames fresh created role r =
     map_sum id (\<lambda>ps. map data_frame ps @ [''0'' @ crlf @ crlf])
       (if r_status r = 200 then map_sum id (\<lambda>ps. ps @ [''[DONE]'']) (chunks fresh created role r) else Inr [error_chunk r])"

definition whole_answer :: "(nat \<Rightarrow> string) \<Rightarrow> int \<Rightarrow> string \<Rightarrow> reply \<Rightarrow> exn + response" where
  "whole_answer fresh created role r =
     (if r_status r = 200 then map_sum id (\<lambda>j. Answer 200 (json_dumps j) json_kind [] False) (message fresh created role r)
      else Inr (Answer (r_status r) (error_body r) json_kind [] False))"

definition answer_with :: "(nat \<Rightarrow> string) \<Rightarrow> int \<Rightarrow> accepted \<Rightarrow> reply \<Rightarrow> exn + response" where
  "answer_with fresh created ac r =
     (if truthy (dict_get (ac_body ac) ''stream'' JNull) then map_sum id Stream (stream_frames fresh created (ro_name (ac_role ac)) r)
      else whole_answer fresh created (ro_name (ac_role ac)) r)"

text \<open>
  \<open>do_POST\<close>. \<open>elsewhere\<close> is what the other threads do to the server's counts while the request is forwarded; the client may be gone
  when it is answered, and then nothing of the answer matters.
\<close>

definition serve :: "nat \<Rightarrow> nat \<Rightarrow> 'w env \<Rightarrow> config \<Rightarrow> (nat \<Rightarrow> string) \<Rightarrow> int \<Rightarrow> ('w service \<Rightarrow> 'w service) \<Rightarrow> request \<Rightarrow> string \<times> accepted
    \<Rightarrow> ('w, response) sv" where
  "serve fuel n env cfg fresh created elsewhere rq ra =
     (let (raw, ac) = ra in
      bindm (in_proxy (forward fuel n env cfg (ac_role ac) raw (ac_body ac) (dict_get (rq_headers rq) ''x-af-session'' []))) (\<lambda>(reply, rec).
      bindm (modify elsewhere) (\<lambda>_. of_sum (map_sum Raises id (answer_with fresh created ac reply)))))"

definition do_post :: "nat \<Rightarrow> nat \<Rightarrow> 'w env \<Rightarrow> config \<Rightarrow> string \<Rightarrow> (nat \<Rightarrow> string) \<Rightarrow> int \<Rightarrow> ('w service \<Rightarrow> 'w service) \<Rightarrow> request
    \<Rightarrow> ('w, response) sv" where
  "do_post fuel n env cfg token fresh created elsewhere rq =
     bindm (of_sum (map_sum Raises id (check_post cfg token rq))) (\<lambda>checked. case checked of
       Inl r \<Rightarrow> ret r
     | Inr ra \<Rightarrow>
       bindm admit_request (\<lambda>ok.
       if \<not> ok then ret (refuse 503 ''server_error'' ''the proxy is restarting'' [(''Retry-After'', show_nat RETRY_AFTER)] False)
       else finally_do (serve fuel n env cfg fresh created elsewhere rq ra) finished))"

subsection \<open>Who reaches a model\<close>

definition acceptable :: "config \<Rightarrow> string \<Rightarrow> request \<Rightarrow> string \<times> accepted \<Rightarrow> bool" where
  "acceptable cfg token rq ra \<longleftrightarrow> (\<exists>len d. authorized token rq
     \<and> rq_path rq \<in> {''/v1/chat/completions'', ''/chat/completions''}
     \<and> content_length rq = Inr len \<and> len \<le> max_body_bytes (settings_of cfg) \<and> fst ra = body_read rq len
     \<and> json_loads (fst ra) = Some (JObj d) \<and> ac_body (snd ra) = d
     \<and> role_named cfg (dict_get d ''model'' JNull) = Some (ac_role (snd ra))
     \<and> images (JObj d) = Inr (ac_images (snd ra)) \<and> ac_images (snd ra) \<le> ro_images (ac_role (snd ra))
     \<and> list_ex (fits_backend cfg (fst ra) (ac_images (snd ra))) (ro_backends (ac_role (snd ra))))"

lemma map_sum_id_Inl [simp]: "map_sum id f r = Inl e \<longleftrightarrow> r = Inl e"
  by (cases r) auto

lemma map_sum_id_Inr_eq [simp]: "Inr y = map_sum id f r \<longleftrightarrow> (\<exists>x. r = Inr x \<and> y = f x)"
  by (cases r) auto

lemma check_body_accepts:
  assumes "check_body cfg raw j = Inr (Inr ac)"
  shows "\<exists>d. j = JObj d \<and> ac_body ac = d \<and> role_named cfg (dict_get d ''model'' JNull) = Some (ac_role ac)
    \<and> images (JObj d) = Inr (ac_images ac) \<and> ac_images ac \<le> ro_images (ac_role ac)
    \<and> list_ex (fits_backend cfg raw (ac_images ac)) (ro_backends (ac_role ac))"
proof (cases j)
  case (JObj d)
  then show ?thesis
    using assms by (auto simp: check_body_def jget_def split: option.splits if_splits)
qed (use assms in \<open>simp_all add: check_body_def jget_def\<close>)

lemma check_post_accepts:
  assumes "check_post cfg token rq = Inr (Inr ra)"
  shows "acceptable cfg token rq ra"
proof -
  have paths: "rq_path rq \<in> {''/v1/chat/completions'', ''/chat/completions''}" "authorized token rq"
    using assms by (auto simp: check_post_def split: if_splits)
  then obtain len where len: "content_length rq = Inr len" "len \<le> max_body_bytes (settings_of cfg)"
    using assms by (auto simp: check_post_def split: if_splits)
  then obtain j ac where "json_loads (body_read rq len) = Some j" "check_body cfg (body_read rq len) j = Inr (Inr ac)"
      "ra = (body_read rq len, ac)"
    using assms paths by (auto simp: check_post_def split: option.splits)
  then show ?thesis using paths len check_body_accepts unfolding acceptable_def by fastforce
qed

lemma holds_in_proxy: "holds sv_mine (in_proxy m)"
  by (auto simp: holds_def in_proxy_def split: prod.split)

text \<open>
  C24: only what is in order reaches a model, and what is let in is counted out. If the proxy asked a model anything for a request, the request had the
  token, named a role there is, carried no more images than the role may and fitted one of its models' fair use, and the
  server was not draining. However it ends, by an answer or an exception, the requests of the thread that are in
  flight are those before. What the other threads do meanwhile, and what the models answer, may be anything.
\<close>

theorem do_post_guarded:
  assumes others: "\<And>s. sv_mine (elsewhere s) = sv_mine s" "\<And>s. sv_proxy (elsewhere s) = sv_proxy s"
    and run: "do_post fuel n env cfg token fresh created elsewhere rq s = (res, t)"
  shows "sv_mine t = sv_mine s
    \<and> (px_trace (sv_proxy t) \<noteq> px_trace (sv_proxy s) \<longrightarrow> \<not> sv_draining s \<and> (\<exists>ra. acceptable cfg token rq ra))"
proof (cases "check_post cfg token rq")
  case (Inl e)
  then show ?thesis using run by (simp add: do_post_def bindm_def of_sum_def)
next
  case (Inr checked)
  show ?thesis
  proof (cases checked)
    case (Inl r)
    then show ?thesis using run Inr by (simp add: do_post_def bindm_def of_sum_def ret_def)
  next
    case ra: (Inr ra)
    show ?thesis
    proof (cases "sv_draining s")
      case True
      then show ?thesis
        using run Inr ra by (auto simp: do_post_def bindm_def of_sum_def ret_def admit_request_def)
    next
      case False
      let ?s = "s\<lparr>sv_in_flight := sv_in_flight s + 1, sv_mine := sv_mine s + 1\<rparr>"
      have "finally_do (serve fuel n env cfg fresh created elsewhere rq ra) finished ?s = (res, t)"
        using run Inr ra False by (simp add: do_post_def bindm_def of_sum_def admit_request_def)
      moreover have "holds sv_mine (serve fuel n env cfg fresh created elsewhere rq ra)"
        unfolding serve_def Let_def by (intro holds_intros holds_in_proxy others)
      then have "sv_mine (snd (serve fuel n env cfg fresh created elsewhere rq ra ?s)) = sv_mine s + 1"
        by (simp add: holds_def)
      ultimately have "sv_mine t = sv_mine s"
        by (auto simp: finally_do_def bindm_def catch_def raise_def ret_def finished_def modify_def split: prod.splits sum.splits)
      then show ?thesis using False check_post_accepts Inr ra by blast
    qed
  qed
qed

definition example_request :: request where
  "example_request = \<lparr>rq_path = ''/v1/chat/completions'', rq_headers = [(''authorization'', ''Bearer key''), (''content-length'', ''20'')],
     rq_body = json_dumps (JObj [(''model'', JStr ''arbiter'')])\<rparr>"

definition example_service :: "rat service" where
  "example_service = \<lparr>sv_stopping = False, sv_draining = False, sv_in_flight = 0, sv_mine = 0, sv_proxy = example_proxy\<rparr>"

abbreviation example_post :: "(px_exn + response) \<times> rat service" where
  "example_post \<equiv> do_post 2 2 example_env example_llms ''key'' (\<lambda>_. ''0af'') 0 id example_request example_service"

lemma example_post_asks: "length (px_trace (sv_proxy (snd example_post))) = 3"
  by code_simp

theorem do_post_guarded_witness:
  "sv_mine (snd example_post) = 0 \<and> px_trace (sv_proxy (snd example_post)) \<noteq> px_trace (sv_proxy example_service)
     \<and> (\<exists>ra. acceptable example_llms ''key'' example_request ra)"
proof -
  have asked: "px_trace (sv_proxy (snd example_post)) \<noteq> px_trace (sv_proxy example_service)"
    using example_post_asks by (auto simp: example_service_def example_proxy_def)
  from do_post_guarded [of id, OF _ _ prod.collapse [symmetric], of 2 2 example_env example_llms "''key''" "\<lambda>_. ''0af''" 0
      example_request example_service] asked
  show ?thesis by (simp add: example_service_def)
qed

subsection \<open>A length that is negative\<close>

text \<open>
  A request whose \<open>Content-Length\<close> is negative passes the check of its size, whatever it carries: \<open>rfile.read\<close> reads all there is.
\<close>

theorem negative_length_unbounded:
  assumes "dict_get (rq_headers rq) ''content-length'' [] = ''-1''" "- 1 \<le> max_body_bytes (settings_of cfg)"
  shows "content_length rq = Inr (- 1) \<and> - 1 \<le> max_body_bytes (settings_of cfg) \<and> body_read rq (- 1) = rq_body rq"
proof -
  have "int_text ''-1'' = Some (- 1)" by code_simp
  with assms show ?thesis by (simp add: content_length_def body_read_def)
qed

end
