(* ===== verification/PromQL_Regex.thy ===== *)
theory PromQL_Regex
  imports AF_Prelude
begin

text \<open>
  The regular expressions of \<open>src/docker/agentic-interface/promql_scope.py\<close>: their text as the code writes it,
  and what it means. Prometheus matches them with RE2, which is no code of the repository: \<open>read_rx\<close> reads the
  part of its syntax that the code writes and refuses the rest, \<open>lang\<close> is what such an expression matches, and
  \<open>matches_as_documented\<close> is what the code relies on. Whether \<open>.\<close> matches a newline differs between releases of
  Prometheus and is an argument.
\<close>

subsection \<open>Expressions and what they match\<close>

datatype rx =
    Lit char
  | Any
  | NotOf "char list"
  | Many rx
  | Maybe rx
  | Group "rx list list"

definition conc :: "string set \<Rightarrow> string set \<Rightarrow> string set" where
  "conc A B = {u @ v | u v. u \<in> A \<and> v \<in> B}"

definition repeats :: "string set \<Rightarrow> string set" where
  "repeats A = {concat ws | ws. set ws \<subseteq> A}"

fun lang :: "bool \<Rightarrow> rx \<Rightarrow> string set" where
  "lang nl (Lit c) = {[c]}"
| "lang nl Any = {[c] | c. nl \<or> c \<noteq> newline}"
| "lang nl (NotOf cs) = {[c] | c. c \<notin> set cs}"
| "lang nl (Many r) = repeats (lang nl r)"
| "lang nl (Maybe r) = insert [] (lang nl r)"
| "lang nl (Group alts) = (\<Union>rs \<in> set alts. foldr conc (map (lang nl) rs) {[]})"

definition seq_lang :: "bool \<Rightarrow> rx list \<Rightarrow> string set" where
  "seq_lang nl rs = foldr conc (map (lang nl) rs) {[]}"

definition alts_lang :: "bool \<Rightarrow> rx list list \<Rightarrow> string set" where
  "alts_lang nl alts = (\<Union>rs \<in> set alts. seq_lang nl rs)"

lemma lang_Group [simp]: "lang nl (Group alts) = alts_lang nl alts"
  by (simp add: alts_lang_def seq_lang_def)

declare lang.simps(6) [simp del]

lemma seq_lang_simps [simp]:
  "seq_lang nl [] = {[]}"
  "seq_lang nl (r # rs) = conc (lang nl r) (seq_lang nl rs)"
  by (simp_all add: seq_lang_def)

lemma alts_lang_simps [simp]:
  "alts_lang nl [] = {}"
  "alts_lang nl (rs # alts) = seq_lang nl rs \<union> alts_lang nl alts"
  "alts_lang nl (alts @ alts') = alts_lang nl alts \<union> alts_lang nl alts'"
  by (auto simp: alts_lang_def)

lemma conc_One [simp]: "conc A {[]} = A" "conc {[]} A = A"
  by (auto simp: conc_def)

lemma in_conc: "w \<in> conc A B \<longleftrightarrow> (\<exists>u v. w = u @ v \<and> u \<in> A \<and> v \<in> B)"
  by (auto simp: conc_def)

lemma conc_assoc: "conc (conc A B) C = conc A (conc B C)"
  unfolding conc_def by (auto, (metis append.assoc)+)

lemma seq_lang_append [simp]: "seq_lang nl (rs @ ss) = conc (seq_lang nl rs) (seq_lang nl ss)"
  by (induction rs) (simp_all add: conc_assoc)

lemma seq_lang_lits [simp]: "seq_lang nl (map Lit s) = {s}"
  by (induction s) (auto simp: conc_def)

lemma lang_rest [simp]: "w \<in> lang nl (Many Any) \<longleftrightarrow> nl \<or> newline \<notin> set w"
proof
  assume "w \<in> lang nl (Many Any)"
  then show "nl \<or> newline \<notin> set w" by (fastforce simp: repeats_def)
next
  assume ok: "nl \<or> newline \<notin> set w"
  have "w = concat (map (\<lambda>c. [c]) w)" by (induction w) auto
  moreover have "set (map (\<lambda>c. [c]) w) \<subseteq> lang nl Any" using ok by auto
  ultimately show "w \<in> lang nl (Many Any)" unfolding repeats_def lang.simps(4) by blast
qed

declare lang.simps(4) [simp del]

lemma lits_rest_lang [simp]: "w \<in> seq_lang nl (map Lit p @ [Many Any]) \<longleftrightarrow> (\<exists>v. w = p @ v \<and> (nl \<or> newline \<notin> set v))"
  by (auto simp: in_conc)

lemma alts_lang_map: "w \<in> alts_lang nl (map f xs) \<longleftrightarrow> (\<exists>x \<in> set xs. w \<in> seq_lang nl (f x))"
  by (simp add: alts_lang_def)

subsection \<open>Reading an expression\<close>

text \<open>
  What was read of the groups that are open, innermost first: the alternatives that ended and the one that goes on.
\<close>

datatype mode = Plain | Escaped | Opened | Opening | Bracket | InClass "char list" | ClassEscaped "char list"

type_synonym frames = "(rx list list \<times> rx list) list"

definition word_char :: "char \<Rightarrow> bool" where
  "word_char c \<longleftrightarrow> is_lower_alnum (lower_char c)"

definition escapable :: "char \<Rightarrow> bool" where
  "escapable c \<longleftrightarrow> \<not> word_char c \<and> of_char c < (128::nat)"

fun push :: "rx \<Rightarrow> frames \<Rightarrow> frames" where
  "push r [] = []"
| "push r ((alts, rs) # fs) = (alts, rs @ [r]) # fs"

fun repeatable :: "rx \<Rightarrow> bool" where
  "repeatable (Many r) = False"
| "repeatable (Maybe r) = False"
| "repeatable r = True"

fun suffixed :: "(rx \<Rightarrow> rx) \<Rightarrow> frames \<Rightarrow> (mode \<times> frames) option" where
  "suffixed f ((alts, rs) # fs) =
     (if rs = [] \<or> \<not> repeatable (last rs) then None else Some (Plain, (alts, butlast rs @ [f (last rs)]) # fs))"
| "suffixed f [] = None"

fun close_group :: "frames \<Rightarrow> (mode \<times> frames) option" where
  "close_group ((alts, rs) # f # fs) = Some (Plain, push (Group (alts @ [rs])) (f # fs))"
| "close_group fs = None"

fun next_alternative :: "frames \<Rightarrow> (mode \<times> frames) option" where
  "next_alternative ((alts, rs) # fs) = Some (Plain, (alts @ [rs], []) # fs)"
| "next_alternative [] = None"

definition read_plain :: "char \<Rightarrow> frames \<Rightarrow> (mode \<times> frames) option" where
  "read_plain c fs =
     (if c = backslash then Some (Escaped, fs)
      else if c = CHR ''('' then Some (Opened, fs)
      else if c = CHR ''['' then Some (Bracket, fs)
      else if c = CHR '')'' then close_group fs
      else if c = CHR ''|'' then next_alternative fs
      else if c = CHR ''.'' then Some (Plain, push Any fs)
      else if c = CHR ''*'' then suffixed Many fs
      else if c = CHR ''?'' then suffixed Maybe fs
      else if c \<in> set ''+{}^$]'' then None
      else Some (Plain, push (Lit c) fs))"

fun read_char :: "mode \<times> frames \<Rightarrow> char \<Rightarrow> (mode \<times> frames) option" where
  "read_char (Plain, fs) c = read_plain c fs"
| "read_char (Escaped, fs) c = (if escapable c then Some (Plain, push (Lit c) fs) else None)"
| "read_char (Opened, fs) c = (if c = CHR ''?'' then Some (Opening, fs) else None)"
| "read_char (Opening, fs) c = (if c = CHR '':'' then Some (Plain, ([], []) # fs) else None)"
| "read_char (Bracket, fs) c = (if c = CHR ''^'' then Some (InClass [], fs) else None)"
| "read_char (InClass cs, fs) c =
     (if c = backslash then Some (ClassEscaped cs, fs)
      else if c = CHR '']'' then (if cs = [] then None else Some (Plain, push (NotOf cs) fs))
      else if c \<in> set ''[^-'' then None
      else Some (InClass (cs @ [c]), fs))"
| "read_char (ClassEscaped cs, fs) c = (if escapable c then Some (InClass (cs @ [c]), fs) else None)"

fun read_chars :: "mode \<times> frames \<Rightarrow> string \<Rightarrow> (mode \<times> frames) option" where
  "read_chars st [] = Some st"
| "read_chars st (c # cs) = (case read_char st c of None \<Rightarrow> None | Some st' \<Rightarrow> read_chars st' cs)"

definition read_rx :: "string \<Rightarrow> rx list list option" where
  "read_rx s = (case read_chars (Plain, [([], [])]) s of
     Some (Plain, [(alts, rs)]) \<Rightarrow> Some (alts @ [rs]) | _ \<Rightarrow> None)"

definition matches_as_documented :: "bool \<Rightarrow> (string \<Rightarrow> string \<Rightarrow> bool) \<Rightarrow> bool" where
  "matches_as_documented nl engine \<longleftrightarrow>
     (\<forall>p alts w. read_rx p = Some alts \<longrightarrow> (engine p w \<longleftrightarrow> w \<in> alts_lang nl alts))"

lemma matches_as_documentedD:
  "matches_as_documented nl engine \<Longrightarrow> read_rx p = Some alts \<Longrightarrow> engine p w \<longleftrightarrow> w \<in> alts_lang nl alts"
  by (simp add: matches_as_documented_def)

lemma read_chars_append:
  "read_chars st (u @ v) = (case read_chars st u of None \<Rightarrow> None | Some st' \<Rightarrow> read_chars st' v)"
  by (induction u arbitrary: st) (auto split: option.splits)

subsection \<open>Writing an expression\<close>

text \<open>\<open>re.escape\<close>, and the escapes of a character class (\<open>_class\<close>).\<close>

definition re_specials :: string where
  "re_specials = ''()[]{}?*+-|^$.&~# '' @ backslash # map char_of [9::nat, 10, 11, 12, 13]"

definition re_special :: "char \<Rightarrow> bool" where
  "re_special c \<longleftrightarrow> c \<in> set re_specials"

definition re_escape :: "string \<Rightarrow> string" where
  "re_escape s = concat (map (\<lambda>c. if re_special c then [backslash, c] else [c]) s)"

definition class_specials :: string where
  "class_specials = backslash # '']^-[''"

definition class_text :: "string \<Rightarrow> string" where
  "class_text cs = concat (map (\<lambda>c. if c \<in> set class_specials then [backslash, c] else [c]) cs)"

text \<open>
  \<open>reads s f\<close>: read where a group is open, the text \<open>s\<close> makes \<open>f\<close> of it. An expression of the code is read by the
  rules below, one for each way it puts texts together.
\<close>

definition reads :: "string \<Rightarrow> rx list \<Rightarrow> bool" where
  "reads s rs \<longleftrightarrow> (\<forall>alts ss fs. read_chars (Plain, (alts, ss) # fs) s = Some (Plain, (alts, ss @ rs) # fs))"

definition reads_alts :: "string \<Rightarrow> rx list list \<Rightarrow> bool" where
  "reads_alts s rss \<longleftrightarrow> rss \<noteq> [] \<and> (\<forall>alts fs. read_chars (Plain, (alts, []) # fs) s
     = Some (Plain, (alts @ butlast rss, last rss) # fs))"

named_theorems reads_intros \<open>how a text the code writes is read\<close>

lemma reads_Nil [reads_intros]: "reads [] []"
  by (simp add: reads_def)

lemma reads_append [reads_intros]: "reads s rs \<Longrightarrow> reads t rs' \<Longrightarrow> reads (s @ t) (rs @ rs')"
  by (simp add: reads_def read_chars_append)

lemma reads_lit:
  assumes "\<not> re_special c"
  shows "reads [c] [Lit c]"
proof -
  have "c \<noteq> backslash" "c \<notin> set ''([)|.*?+{}^$]''" using assms by (simp_all add: re_special_def re_specials_def)
  then show ?thesis by (simp add: reads_def read_plain_def)
qed

lemma specials_escapable: "list_all escapable re_specials" "list_all escapable class_specials"
  by code_simp+

lemma re_special_escapable: "re_special c \<Longrightarrow> escapable c"
  using specials_escapable(1) by (simp add: list_all_iff re_special_def)

lemma reads_special: "re_special c \<Longrightarrow> reads [backslash, c] [Lit c]"
  by (simp add: reads_def read_plain_def re_special_escapable)

lemma reads_escape [reads_intros]: "reads (re_escape s) (map Lit s)"
proof (induction s)
  case (Cons c s)
  have "reads (if re_special c then [backslash, c] else [c]) [Lit c]" by (simp add: reads_lit reads_special)
  from reads_append [OF this Cons] show ?case by (simp add: re_escape_def)
qed (simp add: re_escape_def reads_Nil)

lemma reads_rest [reads_intros]: "reads ''.*'' [Many Any]"
  by (simp add: reads_def read_plain_def backslash_def)

lemma read_class_text:
  "read_chars (InClass ds, fs) (class_text cs) = Some (InClass (ds @ cs), fs)"
proof (induction cs arbitrary: ds)
  case (Cons c cs)
  let ?t = "if c \<in> set class_specials then [backslash, c] else [c]"
  have "read_chars (InClass ds, fs) ?t = Some (InClass (ds @ [c]), fs)"
  proof (cases "c \<in> set class_specials")
    case True
    then show ?thesis using specials_escapable(2) by (simp add: list_all_iff)
  next
    case False
    then have "c \<noteq> backslash" "c \<noteq> CHR '']''" "c \<notin> set ''[^-''" by (simp_all add: class_specials_def)
    with False show ?thesis by simp
  qed
  moreover have "class_text (c # cs) = ?t @ class_text cs" by (simp add: class_text_def)
  ultimately show ?case by (simp only: read_chars_append Cons option.case append_assoc append_Cons append_Nil)
qed (simp add: class_text_def)

lemma reads_class [reads_intros]:
  assumes "cs \<noteq> []"
  shows "reads (''[^'' @ class_text cs @ '']'') [NotOf cs]"
  using assms by (simp add: reads_def read_plain_def read_chars_append read_class_text backslash_def)

lemma reads_group [reads_intros]:
  assumes "reads_alts s rss"
  shows "reads (''(?:'' @ s @ '')'') [Group rss]"
  using assms by (simp add: reads_def reads_alts_def read_plain_def read_chars_append backslash_def)

lemma reads_maybe [reads_intros]:
  assumes "reads_alts s rss"
  shows "reads ((''(?:'' @ s @ '')'') @ ''?'') [Maybe (Group rss)]"
proof -
  have "reads (''(?:'' @ s @ '')'') [Group rss]" by (rule reads_group [OF assms])
  then show ?thesis unfolding reads_def read_chars_append by (simp add: read_plain_def backslash_def)
qed

lemma reads_alt [reads_intros]: "reads s rs \<Longrightarrow> reads_alts s [rs]"
  by (simp add: reads_def reads_alts_def)

lemma reads_alts_bar:
  assumes "reads_alts s rss" "reads_alts t rss'"
  shows "reads_alts (s @ CHR ''|'' # t) (rss @ rss')"
proof -
  have "butlast rss @ last rss # x = rss @ x" for x
    using append_butlast_last_id [of rss] assms(1) by (metis append.assoc append_Cons append_Nil reads_alts_def)
  then show ?thesis using assms
    by (simp add: reads_alts_def read_chars_append read_plain_def backslash_def butlast_append)
qed

lemma reads_join [reads_intros]:
  assumes "list_all2 reads_alts ss rsss" "ss \<noteq> []"
  shows "reads_alts (join_with (CHR ''|'') ss) (concat rsss)"
  using assms
proof (induction ss arbitrary: rsss)
  case (Cons s ss)
  then obtain rss rsss' where split: "rsss = rss # rsss'" "reads_alts s rss" "list_all2 reads_alts ss rsss'"
    by (auto simp: list_all2_Cons1)
  show ?case
  proof (cases ss)
    case (Cons t ts)
    then show ?thesis using split Cons.IH [OF split(3)] by (simp add: reads_alts_bar)
  qed (use split in simp)
qed simp

lemma read_rx_alts: "reads_alts s rss \<Longrightarrow> read_rx s = Some rss"
  by (auto simp: read_rx_def reads_alts_def)

end
