(* ===== verification/PromQL_Scope.thy ===== *)
theory PromQL_Scope
  imports PromQL_Regex Py_Json
begin

text \<open>
  \<open>src/docker/agentic-interface/promql_scope.py\<close>: what a caller's PromQL may see. A trie of name prefixes becomes a
  regular expression for the names with none of them; the caller's own objects are looked up; and every selector of a
  query gets one matcher per label. The program that adds the matchers and Prometheus are parameters. A message's dash
  is written as a hyphen.
\<close>

subsection \<open>Names with none of some prefixes\<close>

datatype trie = Trie (marked: bool) (kids: "(char \<times> trie) list")

fun insert_prefix :: "string \<Rightarrow> trie \<Rightarrow> trie" where
  "insert_prefix [] (Trie m cs) = Trie True cs"
| "insert_prefix (c # p) (Trie m cs) =
     Trie m (AList.update c (insert_prefix p (dict_get cs c (Trie False []))) cs)"

definition prefix_trie :: "string list \<Rightarrow> trie" where
  "prefix_trie ps = foldl (\<lambda>t p. insert_prefix p t) (Trie False []) ps"

function walk :: "trie \<Rightarrow> string" where
  "walk (Trie m cs) =
     ''(?:'' @ join_with (CHR ''|'') ([] # (''[^'' @ class_text (sort (map fst cs)) @ '']'' @ ''.*'')
       # map (\<lambda>(c, t). re_escape [c] @ walk t) (filter (\<lambda>(c, t). \<not> marked t) (sort_key fst cs))) @ '')''"
  by pat_completeness auto

lemma kid_size: "(c, t) \<in> set cs \<Longrightarrow> size t < size (Trie m cs)"
  by (induction cs) auto

termination walk
  by (relation "measure size") (auto dest: kid_size)

definition without_prefixes :: "string list \<Rightarrow> string" where
  "without_prefixes ps = walk (prefix_trie ps)"

subsection \<open>What names a person\<close>

definition NAMESPACE :: string where "NAMESPACE = ''cms''"

definition NAMESPACE_LABELS :: "string list" where
  "NAMESPACE_LABELS = [''namespace'', ''exported_namespace'', ''claim_namespace'', ''service_namespace'']"

definition IDENTITY_LABELS :: "string list" where
  "IDENTITY_LABELS = [''username'', ''user'']"

definition SHARED_IDENTITIES :: "string list" where
  "SHARED_IDENTITIES = [''fake'']"

definition OBJECT_LABELS :: "string list" where
  "OBJECT_LABELS = [''configmap'', ''created_by_name'', ''deployment'', ''endpoint'', ''exported_job'', ''exported_pod'',
     ''exported_service'', ''job'', ''job_name'', ''name'', ''networkpolicy'', ''owner'', ''owner_name'',
     ''persistentvolumeclaim'', ''pod'', ''ray_cluster'', ''replicaset'', ''secret'', ''service'', ''service_account'',
     ''volume'', ''workload'']"

definition USER_PREFIXES :: "string list" where
  "USER_PREFIXES = map (\<lambda>d. ''purdue-af-'' @ [d]) ''0123456789'' @ [''dask-scheduler-'', ''dask-worker-'']
     @ map (\<lambda>h. ''dask-'' @ [h]) ''0123456789abcdef'' @ [''ray-job-'', ''ray-train-'', ''claim-'', ''volume-'']"

definition SHARED_PREFIXES :: "string list" where
  "SHARED_PREFIXES = [''ray-train-gateway'']"

definition NOT_A_PERSONS :: string where
  "NOT_A_PERSONS = without_prefixes USER_PREFIXES"

definition session_pod_name :: "string \<Rightarrow> bool" where
  "session_pod_name s \<longleftrightarrow> prefix ''purdue-af-'' s \<and> drop 10 s \<noteq> [] \<and> list_all is_digit (drop 10 s)"

definition dask_scheduler_of :: "string \<Rightarrow> string option" where
  "dask_scheduler_of s = (let c = drop 15 s in
     if prefix ''dask-scheduler-'' s \<and> c \<noteq> [] \<and> list_all is_lower_hex c then Some c else None)"

subsection \<open>The caller's objects\<close>

record owned =
  ow_username :: string
  ow_pods :: "string list"
  ow_dask_clusters :: "string list"
  ow_claims :: "string list"
  ow_volumes :: "string list"

definition new_owned :: "string \<Rightarrow> owned" where
  "new_owned name = \<lparr>ow_username = name, ow_pods = [], ow_dask_clusters = [], ow_claims = [], ow_volumes = []\<rparr>"

definition dask_names :: "string \<Rightarrow> string" where
  "dask_names c = ''dask-(?:scheduler-|worker-|credentials-)?'' @ re_escape c @ ''(?:-.*)?''"

definition object_names :: "owned \<Rightarrow> string list" where
  "object_names o1 = map re_escape (sort (remdups (ow_pods o1 @ ow_claims o1 @ ow_volumes o1)))
     @ map dask_names (sort (remdups (ow_dask_clusters o1)))"

record matcher =
  m_name :: string
  m_type :: string
  m_value :: string

definition people :: "owned \<Rightarrow> string list" where
  "people o1 = map re_escape (filter (\<lambda>p. p \<noteq> []) (SHARED_IDENTITIES @ [ow_username o1]))"

definition allowed :: "owned \<Rightarrow> string" where
  "allowed o1 = join_with (CHR ''|'') ([NOT_A_PERSONS] @ map (\<lambda>p. re_escape p @ ''.*'') SHARED_PREFIXES @ object_names o1)"

definition matchers :: "owned \<Rightarrow> matcher list" where
  "matchers o1 =
     map (\<lambda>n. \<lparr>m_name = n, m_type = ''=~'', m_value = CHR ''|'' # NAMESPACE\<rparr>) NAMESPACE_LABELS
     @ map (\<lambda>n. \<lparr>m_name = n, m_type = ''=~'', m_value = join_with (CHR ''|'') ([] # people o1)\<rparr>) IDENTITY_LABELS
     @ map (\<lambda>n. \<lparr>m_name = n, m_type = ''=~'', m_value = allowed o1\<rparr>) OBJECT_LABELS"

text \<open>The series a selector with these matchers selects: a label a series lacks reads as the empty string.\<close>

type_synonym series = "(string, string) dict"

definition label_of :: "series \<Rightarrow> string \<Rightarrow> string" where
  "label_of s n = dict_get s n []"

definition visible :: "(string \<Rightarrow> string \<Rightarrow> bool) \<Rightarrow> owned \<Rightarrow> series \<Rightarrow> bool" where
  "visible engine o1 s \<longleftrightarrow> list_all (\<lambda>m. engine (m_value m) (label_of s (m_name m))) (matchers o1)"

subsection \<open>Asking\<close>

datatype tool_failure = User_error string | Upstream_error string | Raised exn

text \<open>\<open>scope\<close>: the program that adds the matchers gets the query and answers, or could not be run in time.\<close>

datatype program_run = Not_run string | Printed string

definition matcher_json :: "matcher \<Rightarrow> json" where
  "matcher_json m = JObj [(''name'', JStr (m_name m)), (''type'', JStr (m_type m)), (''value'', JStr (m_value m))]"

definition scope_request :: "string \<Rightarrow> owned \<Rightarrow> string" where
  "scope_request query o1 = json_dumps (JObj [(''query'', JStr query), (''matchers'', JList (map matcher_json (matchers o1)))])"

definition scope :: "(json \<Rightarrow> string) \<Rightarrow> (string \<Rightarrow> program_run) \<Rightarrow> string \<Rightarrow> owned \<Rightarrow> tool_failure + string" where
  "scope py_str program query o1 = (case program (scope_request query o1) of
     Not_run why \<Rightarrow> Inl (Upstream_error (''Error: could not check the query - '' @ why @ ''.''))
   | Printed out \<Rightarrow> (case json_loads out of
       None \<Rightarrow> Inl (Upstream_error ''Error: could not check the query.'')
     | Some answer \<Rightarrow> (case jget answer ''error'' of
         Inl e \<Rightarrow> Inl (Raised e)
       | Inr err \<Rightarrow>
         if truthy err then Inl (User_error (''Error: the query does not parse - '' @ py_str err @ ''.''))
         else (case answer of JObj d \<Rightarrow> (case map_of d ''query'' of
             None \<Rightarrow> Inl (Raised ''KeyError'') | Some q \<Rightarrow> Inr (py_str q)) | _ \<Rightarrow> Inl (Raised ''TypeError'')))))"

text \<open>\<open>_series\<close>: a reply is its status and its body if that is JSON. The labels of a series are strings.\<close>

datatype http_reply = No_reply string | Reply nat "json option"

fun labels_in :: "json \<Rightarrow> series" where
  "labels_in (JObj d) = List.map_filter (\<lambda>(k, v). case v of JStr s \<Rightarrow> Some (k, s) | _ \<Rightarrow> None) d"
| "labels_in _ = []"

definition is_object :: "json \<Rightarrow> bool" where
  "is_object j = (case j of JObj _ \<Rightarrow> True | _ \<Rightarrow> False)"

definition series_of :: "http_reply \<Rightarrow> tool_failure + series list" where
  "series_of r = (case r of
     No_reply why \<Rightarrow> Inl (Upstream_error
       (''Error: could not tell which series are yours - Prometheus is unreachable ('' @ why @ '').''))
   | Reply status body \<Rightarrow>
     let data = (case body of Some (JObj d) \<Rightarrow> dict_get d ''data'' JNull | _ \<Rightarrow> JNull) in
     case data of
       JList l \<Rightarrow> if status = 200 then Inr (map labels_in (filter is_object l))
         else Inl (Upstream_error (''Error: could not tell which series are yours - Prometheus returned HTTP ''
           @ show_nat status @ ''.''))
     | _ \<Rightarrow> Inl (Upstream_error (''Error: could not tell which series are yours - Prometheus returned HTTP ''
           @ show_nat status @ ''.'')))"

text \<open>\<open>resolve\<close>.\<close>

definition add_object :: "owned \<Rightarrow> series \<Rightarrow> owned" where
  "add_object o1 s = (let pod = label_of s ''pod'' in
     if session_pod_name pod then o1\<lparr>ow_pods := List.insert pod (ow_pods o1)\<rparr>
     else case dask_scheduler_of pod of
       Some c \<Rightarrow> o1\<lparr>ow_dask_clusters := List.insert c (ow_dask_clusters o1)\<rparr> | None \<Rightarrow> o1)"

definition add_volume :: "owned \<Rightarrow> series \<Rightarrow> owned" where
  "add_volume o1 s = (let claim = label_of s ''persistentvolumeclaim''; volume = label_of s ''volume'';
       o2 = (if claim \<noteq> [] then o1\<lparr>ow_claims := List.insert claim (ow_claims o1)\<rparr> else o1) in
     if volume \<noteq> [] then o2\<lparr>ow_volumes := List.insert volume (ow_volumes o2)\<rparr> else o2)"

definition OWNED_PVC_QUERY :: string where
  "OWNED_PVC_QUERY = ''kube_pod_spec_volumes_persistentvolumeclaims_info''"

definition person_selectors :: "string \<Rightarrow> string list" where
  "person_selectors name = [''{username='' @ dump_str name @ ''}'', ''{user='' @ dump_str name @ ''}'']"

definition volume_selector :: "owned \<Rightarrow> string" where
  "volume_selector o1 = OWNED_PVC_QUERY @ ''{namespace='' @ dump_str NAMESPACE @ '',pod=~''
     @ dump_str (join_with (CHR ''|'') (map re_escape (sort (remdups (ow_pods o1))))) @ ''}''"

definition resolve :: "(string list \<Rightarrow> time \<Rightarrow> time \<Rightarrow> http_reply) \<Rightarrow> string \<Rightarrow> time \<Rightarrow> time \<Rightarrow> tool_failure + owned" where
  "resolve ask name start stop =
     bind_sum (series_of (ask (person_selectors name) start stop)) (\<lambda>found.
     let o1 = foldl add_object (new_owned name) found in
     if ow_pods o1 = [] then Inr o1
     else bind_sum (series_of (ask [volume_selector o1] start stop)) (\<lambda>mounts. Inr (foldl add_volume o1 mounts)))"

subsection \<open>What the expression of a trie matches\<close>

text \<open>A trie of prefixes leaves a name free if no mark lies on its way.\<close>

fun free :: "trie \<Rightarrow> string \<Rightarrow> bool" where
  "free t [] = True"
| "free t (c # w) = (case map_of (kids t) c of None \<Rightarrow> True | Some u \<Rightarrow> \<not> marked u \<and> free u w)"

function sound :: "trie \<Rightarrow> bool" where
  "sound (Trie m cs) \<longleftrightarrow> distinct (map fst cs) \<and> list_all (\<lambda>(c, t). (marked t \<or> kids t \<noteq> []) \<and> sound t) cs"
  by pat_completeness auto
termination sound
  by (relation "measure size") (auto dest: kid_size)

lemma marked_insert [simp]: "marked (insert_prefix p t) \<longleftrightarrow> marked t \<or> p = []"
  by (cases t; cases p) auto

lemma kids_insert: "p \<noteq> [] \<Longrightarrow> kids (insert_prefix p t) \<noteq> []"
  by (cases t; cases p) (auto simp: update_nonempty)

lemma list_all_update: "list_all P d \<Longrightarrow> P (k, v) \<Longrightarrow> list_all P (AList.update k v d)"
  by (induction d) auto

lemma sound_kid: "sound t \<Longrightarrow> map_of (kids t) c = Some u \<Longrightarrow> (marked u \<or> kids u \<noteq> []) \<and> sound u"
  by (cases t) (auto simp: list_all_iff dest!: map_of_SomeD)

lemma sound_insert: "sound t \<Longrightarrow> sound (insert_prefix p t)"
proof (induction p t rule: insert_prefix.induct)
  case (2 c p m cs)
  have "sound (dict_get cs c (Trie False []))"
    using sound_kid [OF 2(2), of c] by (auto simp: dict_get_def split: option.split)
  from 2(1) [OF this] show ?case using 2(2) kids_insert [of p]
    by (auto simp: distinct_update intro!: list_all_update)
qed auto

lemma free_insert: "p \<noteq> [] \<Longrightarrow> free (insert_prefix p t) w \<longleftrightarrow> free t w \<and> \<not> prefix p w"
proof (induction p t arbitrary: w rule: insert_prefix.induct)
  case (2 c p m cs)
  show ?case
  proof (cases w)
    case (Cons d v)
    have empty: "free (Trie False []) v" by (cases v) auto
    show ?thesis
    proof (cases "p = []")
      case False
      note IH = 2(1) [OF False, of v]
      show ?thesis using Cons IH empty False by (cases "map_of cs c") (auto simp: update_conv' dict_get_def)
    qed (use Cons in \<open>auto simp: update_conv' split: option.splits\<close>)
  qed simp
qed simp

lemma prefix_trie_foldl:
  assumes "\<forall>p \<in> set ps. p \<noteq> []" "sound t"
  shows "sound (foldl (\<lambda>t p. insert_prefix p t) t ps)
    \<and> (free (foldl (\<lambda>t p. insert_prefix p t) t ps) w \<longleftrightarrow> free t w \<and> (\<forall>p \<in> set ps. \<not> prefix p w))
    \<and> (kids t \<noteq> [] \<or> ps \<noteq> [] \<longrightarrow> kids (foldl (\<lambda>t p. insert_prefix p t) t ps) \<noteq> [])"
  using assms
proof (induction ps arbitrary: t)
  case (Cons p ps)
  then show ?case using Cons.IH [of "insert_prefix p t"] by (auto simp: sound_insert free_insert kids_insert)
qed simp

lemma prefix_trie_free:
  assumes "ps \<noteq> []" "\<forall>p \<in> set ps. p \<noteq> []"
  shows "sound (prefix_trie ps)" "kids (prefix_trie ps) \<noteq> []" "free (prefix_trie ps) w \<longleftrightarrow> (\<forall>p \<in> set ps. \<not> prefix p w)"
proof -
  have "free (Trie False []) w" by (cases w) auto
  then show "sound (prefix_trie ps)" "kids (prefix_trie ps) \<noteq> []"
    "free (prefix_trie ps) w \<longleftrightarrow> (\<forall>p \<in> set ps. \<not> prefix p w)"
    using prefix_trie_foldl [OF assms(2), of "Trie False []" w] assms(1) by (auto simp: prefix_trie_def)
qed

text \<open>The expression \<open>walk\<close> writes, as it is read.\<close>

function walk_rx :: "trie \<Rightarrow> rx" where
  "walk_rx (Trie m cs) = Group ([] # [NotOf (sort (map fst cs)), Many Any]
     # map (\<lambda>(c, t). [Lit c, walk_rx t]) (filter (\<lambda>(c, t). \<not> marked t) (sort_key fst cs)))"
  by pat_completeness auto
termination walk_rx
  by (relation "measure size") (auto dest: kid_size)

declare walk.simps [simp del] walk_rx.simps [simp del]

lemma walk_reads: "sound t \<Longrightarrow> kids t \<noteq> [] \<Longrightarrow> reads (walk t) [walk_rx t]"
proof (induction t rule: walk.induct)
  case (1 m cs)
  let ?ks = "filter (\<lambda>(c, t). \<not> marked t) (sort_key fst cs)"
  have kid: "reads (re_escape [c] @ walk t) [Lit c, walk_rx t]" if "(c, t) \<in> set ?ks" for c t
  proof -
    have "reads (walk t) [walk_rx t]" using that 1 by (auto simp: list_all_iff)
    from reads_append [OF reads_escape [of "[c]"] this] show ?thesis by simp
  qed
  have other: "reads ((''[^'' @ class_text (sort (map fst cs)) @ '']'') @ ''.*'') ([NotOf (sort (map fst cs))] @ [Many Any])"
    using 1(3) by (intro reads_append reads_class reads_rest) (auto simp flip: set_empty)
  have "list_all2 reads_alts (map (\<lambda>(c, t). re_escape [c] @ walk t) ?ks) (map (\<lambda>(c, t). [[Lit c, walk_rx t]]) ?ks)"
    unfolding list_all2_map1 list_all2_map2 by (rule list.rel_refl_strong) (auto intro!: reads_alt kid simp del: set_filter)
  with other have "list_all2 reads_alts
      ([] # (''[^'' @ class_text (sort (map fst cs)) @ '']'' @ ''.*'') # map (\<lambda>(c, t). re_escape [c] @ walk t) ?ks)
      ([[]] # [[NotOf (sort (map fst cs)), Many Any]] # map (\<lambda>(c, t). [[Lit c, walk_rx t]]) ?ks)"
    by (auto intro: reads_alt reads_Nil)
  from reads_group [OF reads_join [OF this]] show ?case
    by (simp add: walk.simps walk_rx.simps comp_def case_prod_unfold flip: map_concat)
qed

lemma walk_rx_Nil: "[] \<in> lang nl (walk_rx t)"
  by (cases t) (simp add: walk_rx.simps)

lemma walk_rx_Cons:
  "c # v \<in> lang nl (walk_rx (Trie m cs)) \<longleftrightarrow> (c \<notin> fst ` set cs \<and> (nl \<or> newline \<notin> set v))
     \<or> (\<exists>t. (c, t) \<in> set cs \<and> \<not> marked t \<and> v \<in> lang nl (walk_rx t))"
proof -
  have lit: "c # v \<in> seq_lang nl [Lit d, r] \<longleftrightarrow> c = d \<and> v \<in> lang nl r" for d r by (auto simp: in_conc)
  have "c # v \<in> seq_lang nl [NotOf cs', Many Any] \<longleftrightarrow> c \<notin> set cs' \<and> v \<in> lang nl (Many Any)" for cs'
    by (auto simp: in_conc simp del: lang.simps(4) lang_rest) (metis append_Cons append_Nil)
  then have other: "c # v \<in> seq_lang nl [NotOf cs', Many Any] \<longleftrightarrow> c \<notin> set cs' \<and> (nl \<or> newline \<notin> set v)" for cs' by simp
  have "c # v \<in> alts_lang nl (map (\<lambda>(c, t). [Lit c, walk_rx t]) xs)
      \<longleftrightarrow> (\<exists>x \<in> set xs. c = fst x \<and> v \<in> lang nl (walk_rx (snd x)))" for xs
    by (induction xs) (simp_all add: lit case_prod_unfold del: seq_lang_simps)
  then show ?thesis unfolding walk_rx.simps lang_Group alts_lang_simps Un_iff other
    by (simp add: seq_lang_def)
qed

lemma walk_rx_free: "sound t \<Longrightarrow> w \<in> lang nl (walk_rx t) \<Longrightarrow> free t w"
proof (induction w arbitrary: t)
  case (Cons c v)
  obtain m cs where t: "t = Trie m cs" by (cases t)
  with Cons.prems have d: "distinct (map fst cs)" by simp
  show ?case
  proof (cases "map_of cs c")
    case (Some u)
    with d have "(c, u') \<in> set cs \<longleftrightarrow> u' = u" for u' by (metis map_of_eq_Some_iff option.inject)
    moreover from Some have "c \<in> fst ` set cs" by (force dest: map_of_SomeD)
    ultimately show ?thesis using Cons.prems(2) Cons.IH [of u] sound_kid [OF Cons.prems(1), of c u] Some
      unfolding t walk_rx_Cons by simp
  qed (simp add: t)
qed simp

lemma free_walk_rx: "sound t \<Longrightarrow> free t w \<Longrightarrow> nl \<or> newline \<notin> set w \<Longrightarrow> w \<in> lang nl (walk_rx t)"
proof (induction w arbitrary: t)
  case (Cons c v)
  obtain m cs where t: "t = Trie m cs" by (cases t)
  show ?case
  proof (cases "map_of cs c")
    case None
    then show ?thesis using Cons.prems by (auto simp: t walk_rx_Cons map_of_eq_None_iff)
  next
    case (Some u)
    then have "v \<in> lang nl (walk_rx u)" using Cons sound_kid [of t c u] by (auto simp: t)
    then show ?thesis using Some Cons.prems by (auto simp: t walk_rx_Cons dest: map_of_SomeD)
  qed
next
  case Nil
  then show ?case by (simp add: walk_rx_Nil)
qed

text \<open>
  C26: the expression \<open>without_prefixes\<close> writes is one Prometheus reads, and it matches exactly the names that start
  with none of the prefixes, whichever prefixes they are (some, and none of them empty) and whatever characters they
  have. If \<open>.\<close> does not match a newline, a name with a newline is at most left out.
\<close>

theorem without_prefixes_exact:
  assumes "matches_as_documented nl engine" "ps \<noteq> []" "\<forall>p \<in> set ps. p \<noteq> []"
  shows "(engine (without_prefixes ps) w \<longrightarrow> (\<forall>p \<in> set ps. \<not> prefix p w))
    \<and> (nl \<or> newline \<notin> set w \<longrightarrow> (\<forall>p \<in> set ps. \<not> prefix p w) \<longrightarrow> engine (without_prefixes ps) w)"
proof -
  note t = prefix_trie_free [OF assms(2,3)]
  have "read_rx (without_prefixes ps) = Some [[walk_rx (prefix_trie ps)]]"
    unfolding without_prefixes_def by (intro read_rx_alts reads_alt walk_reads t)
  from matches_as_documentedD [OF assms(1) this, of w] show ?thesis
    using walk_rx_free [OF t(1)] free_walk_rx [OF t(1)] t(3) by auto
qed

text \<open>An engine that does as documented: it reads and matches.\<close>

definition reference_engine :: "bool \<Rightarrow> string \<Rightarrow> string \<Rightarrow> bool" where
  "reference_engine nl p w \<longleftrightarrow> (case read_rx p of None \<Rightarrow> False | Some alts \<Rightarrow> w \<in> alts_lang nl alts)"

lemma reference_engine: "matches_as_documented nl (reference_engine nl)"
  by (simp add: matches_as_documented_def reference_engine_def)

theorem without_prefixes_exact_witness:
  "reference_engine False (without_prefixes [''ab'', ''abc-'', ''b'', ''c-d'']) ''a-b''
   \<and> \<not> reference_engine False (without_prefixes [''ab'', ''abc-'', ''b'', ''c-d'']) ''c-dd''"
proof -
  let ?ps = "[''ab'', ''abc-'', ''b'', ''c-d'']"
  have ps: "?ps \<noteq> []" "\<forall>p \<in> set ?ps. p \<noteq> []" by simp_all
  show ?thesis
    using without_prefixes_exact [OF reference_engine [of False] ps, of "''a-b''"]
      without_prefixes_exact [OF reference_engine [of False] ps, of "''c-dd''"]
    by (simp add: newline_def)
qed

subsection \<open>What the matchers of a caller select\<close>

definition dask_object :: "string \<Rightarrow> string \<Rightarrow> bool" where
  "dask_object c w \<longleftrightarrow> (\<exists>kind \<in> {[], ''scheduler-'', ''worker-'', ''credentials-''}.
     w = ''dask-'' @ kind @ c \<or> prefix (''dask-'' @ kind @ c @ ''-'') w)"

definition own_object :: "owned \<Rightarrow> string \<Rightarrow> bool" where
  "own_object o1 w \<longleftrightarrow> w \<in> set (ow_pods o1) \<union> set (ow_claims o1) \<union> set (ow_volumes o1)
     \<or> (\<exists>c \<in> set (ow_dask_clusters o1). dask_object c w)"

definition may_see :: "owned \<Rightarrow> series \<Rightarrow> bool" where
  "may_see o1 s \<longleftrightarrow>
     (\<forall>n \<in> set NAMESPACE_LABELS. label_of s n \<in> {[], NAMESPACE})
   \<and> (\<forall>n \<in> set IDENTITY_LABELS. label_of s n \<in> {[], ow_username o1} \<union> set SHARED_IDENTITIES)
   \<and> (\<forall>n \<in> set OBJECT_LABELS. (\<forall>p \<in> set USER_PREFIXES. \<not> prefix p (label_of s n))
        \<or> (\<exists>p \<in> set SHARED_PREFIXES. prefix p (label_of s n)) \<or> own_object o1 (label_of s n))"

definition dask_rx :: "string \<Rightarrow> rx list" where
  "dask_rx c = map Lit ''dask-'' @ [Maybe (Group (map (map Lit) [''scheduler-'', ''worker-'', ''credentials-'']))]
     @ map Lit c @ [Maybe (Group [[Lit (CHR ''-''), Many Any]])]"

lemma reads_dask:
  "reads (dask_names c) (dask_rx c)"
proof -
  have "reads ''dask-'' (map Lit ''dask-'')"
    "reads ((''(?:'' @ ''scheduler-|worker-|credentials-'' @ '')'') @ ''?'')
      [Maybe (Group (map (map Lit) [''scheduler-'', ''worker-'', ''credentials-'']))]"
    "reads ((''(?:'' @ ''-.*'' @ '')'') @ ''?'') [Maybe (Group [[Lit (CHR ''-''), Many Any]])]"
    by (simp_all add: reads_def read_plain_def backslash_def)
  from reads_append [OF this(1) reads_append [OF this(2) reads_append [OF reads_escape [of c] this(3)]]]
  show ?thesis by (simp add: dask_rx_def dask_names_def)
qed

lemma dask_rx_lang:
  assumes "nl \<or> newline \<notin> set w"
  shows "w \<in> seq_lang nl (dask_rx c) \<longleftrightarrow> dask_object c w"
proof -
  have mid: "lang nl (Maybe (Group (map (map Lit) [''scheduler-'', ''worker-'', ''credentials-''])))
      = {[], ''scheduler-'', ''worker-'', ''credentials-''}"
    by (auto simp: conc_def)
  have tail: "v \<in> lang nl (Maybe (Group [[Lit (CHR ''-''), Many Any]])) \<longleftrightarrow> v = [] \<or> (\<exists>u. v = CHR ''-'' # u \<and> (nl \<or> newline \<notin> set u))" for v
    by (auto simp: in_conc)
  have "w \<in> seq_lang nl (dask_rx c) \<longleftrightarrow> (\<exists>kind \<in> {[], ''scheduler-'', ''worker-'', ''credentials-''}. \<exists>v. w = ''dask-'' @ kind @ c @ v
      \<and> v \<in> lang nl (Maybe (Group [[Lit (CHR ''-''), Many Any]])))"
    unfolding dask_rx_def seq_lang_append seq_lang_lits seq_lang_simps mid conc_One by (auto simp only: in_conc singleton_iff) blast+
  also have "\<dots> \<longleftrightarrow> dask_object c w"
    using assms unfolding tail dask_object_def prefix_def by (intro bex_cong refl) auto
  finally show ?thesis .
qed

lemma allowed_reads:
  "read_rx (allowed o1) = Some ([walk_rx (prefix_trie USER_PREFIXES)] # map (\<lambda>p. map Lit p @ [Many Any]) SHARED_PREFIXES
     @ map (map Lit) (sort (remdups (ow_pods o1 @ ow_claims o1 @ ow_volumes o1)))
     @ map dask_rx (sort (remdups (ow_dask_clusters o1))))"
proof -
  have "reads NOT_A_PERSONS [walk_rx (prefix_trie USER_PREFIXES)]"
    unfolding NOT_A_PERSONS_def without_prefixes_def by (intro walk_reads prefix_trie_free) (auto simp: USER_PREFIXES_def)
  then have "list_all2 reads_alts ([NOT_A_PERSONS] @ map (\<lambda>p. re_escape p @ ''.*'') SHARED_PREFIXES @ object_names o1)
      ([[[walk_rx (prefix_trie USER_PREFIXES)]]] @ map (\<lambda>p. [map Lit p @ [Many Any]]) SHARED_PREFIXES
       @ map (\<lambda>s. [map Lit s]) (sort (remdups (ow_pods o1 @ ow_claims o1 @ ow_volumes o1)))
       @ map (\<lambda>c. [dask_rx c]) (sort (remdups (ow_dask_clusters o1))))"
    unfolding object_names_def
    by (intro list_all2_appendI) (auto simp: list_all2_map1 list_all2_map2 intro!: list.rel_refl_strong reads_alt reads_intros reads_dask
        simp del: append.simps)
  from read_rx_alts [OF reads_join [OF this]] show ?thesis
    by (simp add: allowed_def concat_map_singleton)
qed

lemma allowed_exact:
  assumes engine: "matches_as_documented nl engine" and plain: "nl \<or> newline \<notin> set w"
  shows "engine (allowed o1) w \<longleftrightarrow> (\<forall>p \<in> set USER_PREFIXES. \<not> prefix p w)
    \<or> (\<exists>p \<in> set SHARED_PREFIXES. prefix p w) \<or> own_object o1 w"
proof -
  have t: "sound (prefix_trie USER_PREFIXES)" "free (prefix_trie USER_PREFIXES) w \<longleftrightarrow> (\<forall>p \<in> set USER_PREFIXES. \<not> prefix p w)"
    by (intro prefix_trie_free; auto simp: USER_PREFIXES_def)+
  have "w \<in> lang nl (walk_rx (prefix_trie USER_PREFIXES)) \<longleftrightarrow> (\<forall>p \<in> set USER_PREFIXES. \<not> prefix p w)"
    using walk_rx_free [OF t(1)] free_walk_rx [OF t(1) _ plain] t(2) by blast
  moreover have "(\<exists>p \<in> set SHARED_PREFIXES. \<exists>v. w = p @ v \<and> (nl \<or> newline \<notin> set v))
      \<longleftrightarrow> (\<exists>p \<in> set SHARED_PREFIXES. prefix p w)"
    using plain by (intro bex_cong refl) (auto simp: prefix_def)
  ultimately show ?thesis
    using matches_as_documentedD [OF engine allowed_reads, of o1 w]
    by (simp add: alts_lang_map dask_rx_lang [OF plain] own_object_def del: seq_lang_append)
qed

lemma people_exact:
  assumes "matches_as_documented nl engine"
  shows "engine (join_with (CHR ''|'') ([] # people o1)) w \<longleftrightarrow> w \<in> {[], ow_username o1} \<union> set SHARED_IDENTITIES"
proof -
  let ?ps = "filter (\<lambda>p. p \<noteq> []) (SHARED_IDENTITIES @ [ow_username o1])"
  have "list_all2 reads_alts ([] # people o1) ([[]] # map (\<lambda>p. [map Lit p]) ?ps)"
    unfolding people_def
    by (auto simp: list_all2_map1 list_all2_map2 simp del: filter_append intro!: list.rel_refl_strong reads_alt reads_intros)
  from read_rx_alts [OF reads_join [OF this]] have "read_rx (join_with (CHR ''|'') ([] # people o1)) = Some ([] # map (map Lit) ?ps)"
    by (simp add: concat_map_singleton)
  from matches_as_documentedD [OF assms this, of w] show ?thesis
    by (auto simp: alts_lang_map SHARED_IDENTITIES_def simp del: filter.simps filter_append)
qed

lemma namespace_exact:
  assumes "matches_as_documented nl engine"
  shows "engine (CHR ''|'' # NAMESPACE) w \<longleftrightarrow> w \<in> {[], NAMESPACE}"
proof -
  have "read_rx (CHR ''|'' # NAMESPACE) = Some [[], map Lit NAMESPACE]"
    by (simp add: NAMESPACE_def read_rx_def read_plain_def backslash_def)
  from matches_as_documentedD [OF assms this, of w] show ?thesis by auto
qed

lemma visible_may_see:
  assumes "matches_as_documented nl engine" "\<forall>n. newline \<notin> set (label_of s n)"
  shows "visible engine o1 s \<longleftrightarrow> may_see o1 s"
  unfolding visible_def matchers_def may_see_def
  using allowed_exact [OF assms(1)] assms(2)
  by (simp add: list_all_iff people_exact [OF assms(1)] namespace_exact [OF assms(1)] ball_Un)

text \<open>
  A query sees exactly what its caller may see. A series without newlines in its labels passes every matcher of a
  caller if and only if each label that names a namespace names cms or is not there, each label that names a person
  names the caller, Loki's tenant or nobody, and each label that names an object names none with a person's prefix,
  except the Ray gateway's own and the caller's: their pods, claims and volumes, and what belongs to their Dask
  clusters. Names are taken literally, whatever characters they have.
\<close>

theorem visible_exact:
  assumes "matches_as_documented nl engine" "\<forall>n. newline \<notin> set (label_of s n)"
  shows "visible engine o1 s \<longleftrightarrow> may_see o1 s"
  using assms by (rule visible_may_see)

definition alice :: owned where
  "alice = \<lparr>ow_username = ''alice'', ow_pods = [''purdue-af-7''], ow_dask_clusters = [''0a1b2c''],
     ow_claims = [''claim-alice''], ow_volumes = [''volume-alice'']\<rparr>"

theorem visible_exact_witness:
  "visible (reference_engine False) alice [(''pod'', ''dask-worker-0a1b2c-17''), (''namespace'', ''cms'')]
   \<and> \<not> visible (reference_engine False) alice [(''pod'', ''purdue-af-70'')]"
proof -
  have "may_see alice [(''pod'', ''dask-worker-0a1b2c-17''), (''namespace'', ''cms'')]" "\<not> may_see alice [(''pod'', ''purdue-af-70'')]"
    by (simp_all add: may_see_def label_of_def NAMESPACE_LABELS_def NAMESPACE_def IDENTITY_LABELS_def OBJECT_LABELS_def alice_def
        own_object_def dask_object_def USER_PREFIXES_def SHARED_PREFIXES_def)
  then show ?thesis
    using visible_exact [OF reference_engine [of False], of "[(''pod'', ''dask-worker-0a1b2c-17''), (''namespace'', ''cms'')]" alice]
      visible_exact [OF reference_engine [of False], of "[(''pod'', ''purdue-af-70'')]" alice]
    by (simp add: label_of_def newline_def)
qed

subsection \<open>Whose objects they are\<close>

text \<open>
  What the code relies on of Prometheus: it answers a selector with stored series that match it. \<open>stored\<close> are the
  series it has.
\<close>

definition answers_as_documented :: "(series \<Rightarrow> bool) \<Rightarrow> (string list \<Rightarrow> time \<Rightarrow> time \<Rightarrow> http_reply) \<Rightarrow> bool" where
  "answers_as_documented stored ask \<longleftrightarrow>
     (\<forall>name a b found. series_of (ask (person_selectors name) a b) = Inr found \<longrightarrow>
        (\<forall>r \<in> set found. stored r \<and> (label_of r ''username'' = name \<or> label_of r ''user'' = name)))
   \<and> (\<forall>o1 a b found. series_of (ask [volume_selector o1] a b) = Inr found \<longrightarrow>
        (\<forall>r \<in> set found. stored r \<and> label_of r ''pod'' \<in> set (ow_pods o1)))"

text \<open>The session pods and Dask clusters Prometheus has under a person's name, and what their pods mount.\<close>

definition session_of :: "(series \<Rightarrow> bool) \<Rightarrow> string \<Rightarrow> string \<Rightarrow> bool" where
  "session_of stored name pod \<longleftrightarrow> session_pod_name pod
     \<and> (\<exists>r. stored r \<and> label_of r ''pod'' = pod \<and> name \<in> {label_of r ''username'', label_of r ''user''})"

definition cluster_of :: "(series \<Rightarrow> bool) \<Rightarrow> string \<Rightarrow> string \<Rightarrow> bool" where
  "cluster_of stored name c \<longleftrightarrow>
     (\<exists>r. stored r \<and> dask_scheduler_of (label_of r ''pod'') = Some c \<and> name \<in> {label_of r ''username'', label_of r ''user''})"

definition mount_of :: "(series \<Rightarrow> bool) \<Rightarrow> string \<Rightarrow> string \<Rightarrow> bool" where
  "mount_of stored name v \<longleftrightarrow> (\<exists>r. stored r \<and> session_of stored name (label_of r ''pod'')
     \<and> v \<in> {label_of r ''persistentvolumeclaim'', label_of r ''volume''})"

definition rightful :: "(series \<Rightarrow> bool) \<Rightarrow> string \<Rightarrow> owned \<Rightarrow> bool" where
  "rightful stored name o1 \<longleftrightarrow> ow_username o1 = name \<and> (\<forall>p \<in> set (ow_pods o1). session_of stored name p)
     \<and> (\<forall>c \<in> set (ow_dask_clusters o1). cluster_of stored name c)
     \<and> (\<forall>v \<in> set (ow_claims o1) \<union> set (ow_volumes o1). mount_of stored name v)"

lemma rightful_add_object:
  assumes "rightful stored name o1" "stored r" "label_of r ''username'' = name \<or> label_of r ''user'' = name"
  shows "rightful stored name (add_object o1 r)"
  using assms
  by (auto simp: rightful_def add_object_def Let_def session_of_def cluster_of_def split: option.split)

lemma rightful_objects:
  assumes "rightful stored name o1" "\<forall>r \<in> set rs. stored r \<and> (label_of r ''username'' = name \<or> label_of r ''user'' = name)"
  shows "rightful stored name (foldl add_object o1 rs)"
  using assms by (induction rs arbitrary: o1) (auto intro: rightful_add_object)

lemma rightful_add_volume:
  assumes "rightful stored name o1" "stored r" "label_of r ''pod'' \<in> set (ow_pods o1)"
  shows "rightful stored name (add_volume o1 r)" "ow_pods (add_volume o1 r) = ow_pods o1"
  using assms by (auto simp: rightful_def add_volume_def Let_def mount_of_def)

lemma rightful_volumes:
  assumes "rightful stored name o1" "\<forall>r \<in> set rs. stored r \<and> label_of r ''pod'' \<in> set (ow_pods o1)"
  shows "rightful stored name (foldl add_volume o1 rs)"
  using assms by (induction rs arbitrary: o1) (auto simp: rightful_add_volume)

lemma resolve_rightful:
  assumes "answers_as_documented stored ask" "resolve ask name a b = Inr o1"
  shows "rightful stored name o1"
proof -
  from assms(2) obtain found where found: "series_of (ask (person_selectors name) a b) = Inr found" by (auto simp: resolve_def)
  let ?o = "foldl add_object (new_owned name) found"
  have "rightful stored name (new_owned name)" by (simp add: rightful_def new_owned_def)
  then have o: "rightful stored name ?o"
    using assms(1) found by (intro rightful_objects) (auto simp: answers_as_documented_def)
  show ?thesis
  proof (cases "ow_pods ?o = []")
    case False
    then obtain mounts where "series_of (ask [volume_selector ?o] a b) = Inr mounts" "o1 = foldl add_volume ?o mounts"
      using assms(2) found by (auto simp: resolve_def Let_def)
    then show ?thesis using assms(1) o by (auto simp: answers_as_documented_def intro!: rightful_volumes)
  qed (use assms(2) found o in \<open>simp add: resolve_def\<close>)
qed


definition alice_series :: series where
  "alice_series = [(''username'', ''alice''), (''pod'', ''purdue-af-7'')]"

definition alice_ask :: "string list \<Rightarrow> time \<Rightarrow> time \<Rightarrow> http_reply" where
  "alice_ask sel a b = Reply 200 (Some (JObj [(''data'', JList
     (if sel = person_selectors ''alice'' then [JObj [(''username'', JStr ''alice''), (''pod'', JStr ''purdue-af-7'')]] else []))]))"

lemma dump_str_inj: "dump_str s = dump_str t \<Longrightarrow> s = t"
  using json_loads_dumps [of "JStr s"] json_loads_dumps [of "JStr t"] by simp

lemma alice_asked: "series_of (alice_ask sel a b) = Inr (if sel = person_selectors ''alice'' then [alice_series] else [])"
  by (simp add: alice_ask_def series_of_def is_object_def alice_series_def map_filter_simps)

lemma alice_resolved: "resolve alice_ask ''alice'' a b
    = Inr \<lparr>ow_username = ''alice'', ow_pods = [''purdue-af-7''], ow_dask_clusters = [], ow_claims = [], ow_volumes = []\<rparr>"
proof -
  have "session_pod_name ''purdue-af-7''" by code_simp
  then show ?thesis unfolding resolve_def alice_asked
    by (simp add: person_selectors_def add_object_def new_owned_def alice_series_def label_of_def)
qed

lemma alice_ask_documented: "answers_as_documented (\<lambda>r. r = alice_series) alice_ask"
proof -
  have "person_selectors name = person_selectors ''alice'' \<Longrightarrow> name = ''alice''" for name
    by (auto simp: person_selectors_def dest: dump_str_inj)
  then show ?thesis
    by (auto simp: answers_as_documented_def alice_asked alice_series_def label_of_def person_selectors_def split: if_splits)
qed


end
