(* ===== verification/PromQL_Query.thy ===== *)
theory PromQL_Query
  imports PromQL_Scope
begin

text \<open>
  The tool \<open>query_prometheus\<close> (\<open>src/docker/agentic-interface/tools/promql.py\<close>): the times and steps it accepts, the
  request it sends and how it reads the answer. Prometheus, the program that scopes a query, \<open>str\<close> of a JSON value and
  \<open>datetime.fromisoformat\<close> (\<open>iso_time\<close>, with the time's zone or UTC) are parameters; the text made of an answer is not
  modelled.
\<close>

definition MAX_RANGE :: int where "MAX_RANGE = 30 * 86400"
definition MAX_POINTS :: int where "MAX_POINTS = 600"
definition DEFAULT_POINTS :: int where "DEFAULT_POINTS = 60"
definition MIN_STEP :: int where "MIN_STEP = 15"
definition OWNED_LOOKBACK :: rat where "OWNED_LOOKBACK = 86400"

definition UNITS :: "(char, int) dict" where
  "UNITS = [(CHR ''s'', 1), (CHR ''m'', 60), (CHR ''h'', 3600), (CHR ''d'', 86400), (CHR ''w'', 7 * 86400)]"

text \<open>\<open>repr\<close> of a text without quotes and backslashes.\<close>

definition quoted :: "string \<Rightarrow> string" where
  "quoted s = CHR 0x27 # s @ [CHR 0x27]"

text \<open>\<open>DURATION.fullmatch\<close>: the digits and the unit.\<close>

definition duration :: "string \<Rightarrow> (string \<times> int) option" where
  "duration s = (if s = [] \<or> butlast s = [] \<or> \<not> list_all is_digit (butlast s) then None
     else map_option (Pair (butlast s)) (map_of UNITS (last s)))"

text \<open>\<open>seconds\<close>; \<open>int\<close> takes at most 4300 digits.\<close>

definition seconds :: "string \<Rightarrow> string \<Rightarrow> tool_failure + int" where
  "seconds text what = (case duration (strip_of py_space text) of
     None \<Rightarrow> Inl (User_error (''Error: '' @ what @ '' '' @ quoted text @ '' is not a duration like 30m, 6h or 7d.''))
   | Some (d, unit) \<Rightarrow> if length d > 4300 then Inl (Raised ''ValueError'') else Inr (int (digits_value d) * unit))"

text \<open>\<open>when\<close>: 'now', a duration ago, or an ISO time. A float less a number beyond all floats raises.\<close>

definition time_when :: "(string \<Rightarrow> time option) \<Rightarrow> string \<Rightarrow> time \<Rightarrow> string \<Rightarrow> tool_failure + time" where
  "time_when iso_time text0 now what = (let text = strip_of py_space text0 in
     if lower text = ''now'' then Inr now
     else if duration text \<noteq> None then
       bind_sum (seconds text what) (\<lambda>n. if of_int n \<ge> DOUBLE_LIMIT then Inl (Raised ''OverflowError'') else Inr (now - of_int n))
     else case iso_time text of
       Some t \<Rightarrow> Inr t
     | None \<Rightarrow> Inl (User_error (''Error: '' @ what @ '' '' @ quoted text
         @ '' is neither 'now', a duration like 6h, nor an ISO 8601 time.'')))"

definition source_of :: "string \<Rightarrow> tool_failure + string" where
  "source_of name = (let s = lower (strip_of py_space name) in
     if s \<in> {''af'', ''cluster''} then Inr s else Inl (User_error (''Error: source '' @ quoted name @ '' is neither 'af' nor 'cluster'.'')))"

definition source_name :: "string \<Rightarrow> string" where
  "source_name s = (if s = ''af'' then ''Prometheus'' else ''the monitoring system'')"

subsection \<open>What is asked\<close>

record query_call =
  qc_query :: string
  qc_source :: string
  qc_start :: string
  qc_end :: string
  qc_step :: string

text \<open>A request: the source, the scoped query, and an instant or a range with its step.\<close>

datatype prom_request = Instant (req_source: string) (req_query: string) time
  | Range (req_source: string) (req_query: string) time time int

text \<open>The window of a call: its end and its length, 0 for an instant.\<close>

definition window :: "(string \<Rightarrow> time option) \<Rightarrow> time \<Rightarrow> query_call \<Rightarrow> tool_failure + (time \<times> int)" where
  "window iso_time now q =
     bind_sum (if qc_end q \<noteq> [] then time_when iso_time (qc_end q) now ''end'' else Inr now) (\<lambda>until.
     bind_sum (if qc_start q \<noteq> [] then bind_sum (time_when iso_time (qc_start q) now ''start'') (\<lambda>t. Inr (round_half_even (until - t)))
       else Inr 0) (\<lambda>length_s.
     if qc_start q \<noteq> [] \<and> length_s \<le> 0 then Inl (User_error ''Error: start must come before end.'')
     else if length_s > MAX_RANGE then Inl (User_error ''Error: a range query covers at most 30d.'')
     else Inr (until, length_s)))"

definition range_step :: "query_call \<Rightarrow> int \<Rightarrow> tool_failure + int" where
  "range_step q length_s =
     bind_sum (if qc_step q \<noteq> [] then seconds (qc_step q) ''step'' else Inr (max MIN_STEP (length_s div DEFAULT_POINTS))) (\<lambda>every.
     if every < 1 then Inl (User_error ''Error: step must be at least 1s.'')
     else if length_s div every > MAX_POINTS then Inl (User_error (''Error: this range needs a step of at least ''
       @ show_int (length_s div MAX_POINTS) @ ''s (600 points).''))
     else Inr every)"

text \<open>What \<open>query_prometheus\<close> does up to the request it sends, for the user of the call.\<close>

definition planned :: "(json \<Rightarrow> string) \<Rightarrow> (string \<Rightarrow> time option) \<Rightarrow> (string list \<Rightarrow> time \<Rightarrow> time \<Rightarrow> http_reply)
    \<Rightarrow> (string \<Rightarrow> program_run) \<Rightarrow> time \<Rightarrow> string \<Rightarrow> query_call \<Rightarrow> tool_failure + prom_request" where
  "planned py_str iso_time ask program now user q =
     bind_sum (source_of (qc_source q)) (\<lambda>source.
     bind_sum (window iso_time now q) (\<lambda>(until, length_s).
     bind_sum (resolve ask user (until - of_int length_s - OWNED_LOOKBACK) until) (\<lambda>o1.
     bind_sum (scope py_str program (qc_query q) o1) (\<lambda>scoped.
     if length_s \<noteq> 0 then bind_sum (range_step q length_s) (\<lambda>every. Inr (Range source scoped (until - of_int length_s) until every))
     else Inr (Instant source scoped until)))))"

text \<open>\<open>ask\<close>: Prometheus' data, or why there is none.\<close>

definition read_answer :: "(json \<Rightarrow> string) \<Rightarrow> string \<Rightarrow> http_reply \<Rightarrow> tool_failure + (string, json) dict" where
  "read_answer py_str name r = (case r of
     No_reply why \<Rightarrow> Inl (Upstream_error (''Error: '' @ name @ '' is unreachable - '' @ why @ ''.''))
   | Reply status body \<Rightarrow> (case body of
       Some (JObj b) \<Rightarrow>
         if status \<in> {400, 422} then Inl (User_error (''Error: '' @ name @ '' refused the query - '' @ py_str (dict_get b ''error'' JNull) @ ''.''))
         else if status = 503 \<or> dict_get b ''errorType'' JNull = JStr ''timeout'' then
           Inl (Upstream_error (''Error: '' @ name @ '' could not answer in time - '' @ py_str (dict_get b ''error'' JNull)
             @ ''. Narrow the query: fewer series, a shorter range or a larger step.''))
         else (case dict_get b ''data'' JNull of
             JObj d \<Rightarrow> if status = 200 then Inr d else Inl (Upstream_error (''Error: '' @ name @ '' returned HTTP '' @ show_nat status @ ''.''))
           | _ \<Rightarrow> Inl (Upstream_error (''Error: '' @ name @ '' returned HTTP '' @ show_nat status @ ''.'')))
     | _ \<Rightarrow> Inl (Upstream_error (''Error: '' @ name @ '' returned HTTP '' @ show_nat status @ ''.''))))"

definition query_prometheus :: "(json \<Rightarrow> string) \<Rightarrow> (string \<Rightarrow> time option) \<Rightarrow> (string list \<Rightarrow> time \<Rightarrow> time \<Rightarrow> http_reply)
    \<Rightarrow> (string \<Rightarrow> program_run) \<Rightarrow> (prom_request \<Rightarrow> http_reply) \<Rightarrow> time \<Rightarrow> string \<Rightarrow> query_call
    \<Rightarrow> tool_failure + (prom_request \<times> (string, json) dict)" where
  "query_prometheus py_str iso_time ask program post now user q =
     bind_sum (planned py_str iso_time ask program now user q) (\<lambda>req.
     bind_sum (read_answer py_str (source_name (req_source req)) (post req)) (\<lambda>data. Inr (req, data)))"

subsection \<open>Every request is scoped and bounded\<close>

lemma scope_request_read:
  "json_loads (scope_request query o1) = Some (JObj [(''query'', JStr query), (''matchers'', JList (map matcher_json (matchers o1)))])"
  unfolding scope_request_def by (rule json_loads_dumps) (simp add: matcher_json_def list_all_iff)

lemma scope_asks:
  assumes "scope py_str program query o1 = Inr t"
  shows "\<exists>out d q. program (scope_request query o1) = Printed out \<and> json_loads out = Some (JObj d)
    \<and> \<not> truthy (dict_get d ''error'' JNull) \<and> map_of d ''query'' = Some q \<and> t = py_str q"
  using assms
  by (auto simp: scope_def jget_def split: program_run.splits option.splits json.splits sum.splits if_splits)

lemma window_bounded: "window iso_time now q = Inr (until, n) \<Longrightarrow> n \<le> MAX_RANGE \<and> (if qc_start q = [] then n = 0 else 0 < n)"
  by (auto simp: window_def MAX_RANGE_def split: if_splits)

lemma range_step_bounded: "range_step q n = Inr every \<Longrightarrow> 1 \<le> every \<and> n div every \<le> MAX_POINTS"
  by (auto simp: range_step_def split: if_splits)

lemma default_step:
  assumes "qc_step q = []" "0 < n"
  shows "range_step q n = Inr (max MIN_STEP (n div DEFAULT_POINTS))"
proof -
  let ?e = "max 15 (n div 60)"
  have e: "n div 60 < ?e + 1" "15 \<le> ?e" by auto
  have "n < 601 * ?e" using e by linarith
  moreover have "?e * (n div ?e) \<le> n"
    using e(2) pos_mod_sign [of ?e n] minus_mod_eq_mult_div [of n ?e] by linarith
  ultimately have "?e * (n div ?e) < ?e * 601" by linarith
  then have "n div ?e < 601" using e(2) by (subst (asm) mult_less_cancel_left_pos) simp_all
  then have "n div ?e \<le> 600" by simp
  then show ?thesis using assms by (simp add: range_step_def MIN_STEP_def DEFAULT_POINTS_def MAX_POINTS_def)
qed

text \<open>
  C36: whatever \<open>query_prometheus\<close> sends is scoped to its caller and bounded. Its text is what the scoping program
  printed for the caller's query with the matchers of the objects found under the caller's name over the query's
  window and the day before; a range is at most 30 days long, with a step of at least a second and at most 600 steps. A range
  without a step gets one that is accepted.
\<close>

theorem query_scoped_bounded:
  assumes "planned py_str iso_time ask program now user q = Inr req"
  shows "\<exists>o1 until n. window iso_time now q = Inr (until, n)
    \<and> resolve ask user (until - of_int n - OWNED_LOOKBACK) until = Inr o1
    \<and> (\<exists>out d t. program (scope_request (qc_query q) o1) = Printed out \<and> json_loads out = Some (JObj d)
         \<and> map_of d ''query'' = Some t \<and> req_query req = py_str t)
    \<and> json_loads (scope_request (qc_query q) o1)
        = Some (JObj [(''query'', JStr (qc_query q)), (''matchers'', JList (map matcher_json (matchers o1)))])
    \<and> (if qc_start q = [] then req = Instant (req_source req) (req_query req) until
       else \<exists>every. req = Range (req_source req) (req_query req) (until - of_int n) until every
         \<and> 0 < n \<and> n \<le> MAX_RANGE \<and> 1 \<le> every \<and> n div every \<le> MAX_POINTS
         \<and> (qc_step q = [] \<longrightarrow> every = max MIN_STEP (n div DEFAULT_POINTS)))"
proof -
  obtain source until n o1 scoped where
    plan: "window iso_time now q = Inr (until, n)" "resolve ask user (until - of_int n - OWNED_LOOKBACK) until = Inr o1"
      "scope py_str program (qc_query q) o1 = Inr scoped"
    and req: "(if n \<noteq> 0 then bind_sum (range_step q n) (\<lambda>every. Inr (Range source scoped (until - of_int n) until every))
       else Inr (Instant source scoped until)) = Inr req"
    using assms by (auto simp: planned_def)
  have query: "req_query req = scoped" using req by (auto split: if_splits)
  note w = window_bounded [OF plan(1)]
  have "if qc_start q = [] then req = Instant (req_source req) (req_query req) until
       else \<exists>every. req = Range (req_source req) (req_query req) (until - of_int n) until every
         \<and> 0 < n \<and> n \<le> MAX_RANGE \<and> 1 \<le> every \<and> n div every \<le> MAX_POINTS
         \<and> (qc_step q = [] \<longrightarrow> every = max MIN_STEP (n div DEFAULT_POINTS))"
    using req w by (auto split: if_splits dest: range_step_bounded simp: default_step)
  then show ?thesis using plan scope_asks [OF plan(3)] query scope_request_read by blast
qed

definition example_query :: query_call where
  "example_query = \<lparr>qc_query = ''up'', qc_source = ''AF'', qc_start = ''6h'', qc_end = [], qc_step = []\<rparr>"

definition example_program :: "string \<Rightarrow> program_run" where
  "example_program r = Printed (json_dumps (JObj [(''query'', JStr ''scoped'')]))"

definition text_of_json :: "json \<Rightarrow> string" where
  "text_of_json j = (case j of JStr s \<Rightarrow> s | _ \<Rightarrow> json_dumps j)"

theorem query_scoped_bounded_witness:
  "\<exists>o1 until n. window (\<lambda>_. None) 100000 example_query = Inr (until, n)
    \<and> resolve alice_ask ''alice'' (until - of_int n - OWNED_LOOKBACK) until = Inr o1
    \<and> (\<exists>out d t. example_program (scope_request (qc_query example_query) o1) = Printed out \<and> json_loads out = Some (JObj d)
         \<and> map_of d ''query'' = Some t \<and> req_query (Range ''af'' ''scoped'' 78400 100000 360) = text_of_json t)"
proof -
  let ?o = "\<lparr>ow_username = ''alice'', ow_pods = [''purdue-af-7''], ow_dask_clusters = [], ow_claims = [], ow_volumes = []\<rparr>"
  have "json_loads (json_dumps (JObj [(''query'', JStr ''scoped'')])) = Some (JObj [(''query'', JStr ''scoped'')])"
    by (rule json_loads_dumps) simp
  then have "scope text_of_json example_program query o1 = Inr ''scoped''" for query o1
    by (simp add: scope_def example_program_def jget_def text_of_json_def)
  moreover have "strip_of py_space ''6h'' = ''6h''" "lower ''6h'' \<noteq> ''now''" "duration ''6h'' \<noteq> None"
    "seconds ''6h'' ''start'' = Inr 21600" "round_half_even (100000 - 78400) = 21600"
    by code_simp+
  then have "window (\<lambda>_. None) 100000 example_query = Inr (100000, 21600)"
    by (simp add: window_def time_when_def example_query_def MAX_RANGE_def DOUBLE_LIMIT_def)
  moreover have "source_of (qc_source example_query) = Inr ''af''" "range_step example_query 21600 = Inr 360"
    by code_simp+
  moreover have "resolve alice_ask ''alice'' (100000 - of_int 21600 - OWNED_LOOKBACK) 100000 = Inr ?o" by (rule alice_resolved)
  ultimately have "planned text_of_json (\<lambda>_. None) alice_ask example_program 100000 ''alice'' example_query
      = Inr (Range ''af'' ''scoped'' 78400 100000 360)" by (simp add: planned_def)
  from query_scoped_bounded [OF this] show ?thesis by blast
qed

end
