(* ===== verification/Node_Probe.thy ===== *)
theory Node_Probe
  imports Py_Effects Py_Json
begin

text \<open>
  The probe of one mount on one node (\<open>src/docker/af-node-monitor\<close>): \<open>job_runner.py\<close>, which checks the mount and writes
  a result, and \<open>probe_agent.py\<close>, which runs it under a deadline and serves the latest verdict.

  The commands a check runs, the clock and the random number are parameters that may change the world. A file is
  absent, holds JSON, or cannot be read as such.
\<close>

subsection \<open>The commands of a check\<close>

record runner =
  rn_check_file :: string
  rn_checksum :: string
  rn_metadata_dir :: string
  rn_fio_file :: string
  rn_enable_fio :: bool
  rn_ping_timeout :: rat
  rn_metadata_timeout :: rat
  rn_fio_timeout :: rat
  rn_fio_interval :: rat
  rn_fio_tolerance :: rat
  rn_node :: string

text \<open>What becomes of a command that is started with a time limit.\<close>

datatype child = Not_started exn | Timed_out | Talk_failed string | Exited int string string

record 'w runner_env =
  re_time :: "'w \<Rightarrow> time \<times> 'w"
  re_run :: "string list \<Rightarrow> rat \<Rightarrow> 'w \<Rightarrow> child \<times> 'w"
  re_uniform :: "rat \<Rightarrow> rat \<Rightarrow> 'w \<Rightarrow> rat \<times> 'w"

type_synonym ('w, 'a) run = "('w, exn, 'a) eff"

definition run_bounded :: "'w runner_env \<Rightarrow> string list \<Rightarrow> rat \<Rightarrow> ('w, bool \<times> bool \<times> string \<times> string) run" where
  "run_bounded env cmd limit = bindm (asks (re_run env cmd limit)) (\<lambda>c. case c of
     Not_started e \<Rightarrow> raise e
   | Timed_out \<Rightarrow> ret (False, True, [], ''timeout'')
   | Talk_failed why \<Rightarrow> ret (False, False, [], why)
   | Exited code out err \<Rightarrow> ret (if code \<noteq> 0 then (False, False, out, strip_of py_space err) else (True, False, out, [])))"

definition ping_command :: "runner \<Rightarrow> string list" where
  "ping_command cfg = (if rn_checksum cfg \<noteq> [] then [''/usr/bin/md5sum'', rn_check_file cfg] else [''cat'', rn_check_file cfg])"

text \<open>The first word of \<open>out.strip().split()\<close>, empty if there is none.\<close>

definition first_word :: "string \<Rightarrow> string" where
  "first_word s = takeWhile (\<lambda>c. c \<notin> py_space) (lstrip_of py_space s)"

definition check_ping :: "'w runner_env \<Rightarrow> runner \<Rightarrow> ('w, bool \<times> bool \<times> time) run" where
  "check_ping env cfg =
     bindm (asks (re_time env)) (\<lambda>start.
     bindm (run_bounded env (ping_command cfg) (rn_ping_timeout cfg)) (\<lambda>(ok, timeout, out, reason).
     bindm (asks (re_time env)) (\<lambda>end.
     let elapsed_ms = (end - start) * 1000 in
     if \<not> ok \<or> timeout then ret (False, timeout, elapsed_ms)
     else if rn_checksum cfg \<noteq> [] \<and> first_word out \<noteq> rn_checksum cfg then ret (False, False, elapsed_ms)
     else ret (True, False, elapsed_ms))))"

definition check_metadata :: "'w runner_env \<Rightarrow> runner \<Rightarrow> ('w, bool \<times> bool \<times> time option) run" where
  "check_metadata env cfg =
     (if rn_metadata_dir cfg = [] then ret (True, False, None)
      else
      bindm (asks (re_time env)) (\<lambda>start.
      bindm (run_bounded env [''ls'', ''-la'', rn_metadata_dir cfg] (rn_metadata_timeout cfg)) (\<lambda>(ok, timeout, out, reason).
      bindm (asks (re_time env)) (\<lambda>end. ret (ok, timeout, Some ((end - start) * 1000))))))"

text \<open>\<open>now - t \<ge> d\<close> for a float \<open>t\<close> that may be no number.\<close>

fun as_long_ago :: "pyfloat \<Rightarrow> time \<Rightarrow> rat \<Rightarrow> bool" where
  "as_long_ago (Fin t) now d = (now - t \<ge> d)"
| "as_long_ago (Infinite neg) now d = neg"
| "as_long_ago NaN now d = False"

definition fio_due :: "runner \<Rightarrow> pyfloat option \<Rightarrow> time \<Rightarrow> bool" where
  "fio_due cfg since now =
     (if \<not> rn_enable_fio cfg \<or> rn_fio_file cfg = [] then False
      else case since of None \<Rightarrow> True | Some t \<Rightarrow> as_long_ago t now (rn_fio_interval cfg - rn_fio_tolerance cfg))"

text \<open>\<open>data["jobs"][0]["read"]["bw_bytes"] * 8 / 1e9\<close>, \<open>None\<close> where that raises.\<close>

definition fio_rate :: "json \<Rightarrow> pyfloat option" where
  "fio_rate data = (case data of
     JObj d \<Rightarrow> (case map_of d ''jobs'' of
       Some (JList (JObj j # _)) \<Rightarrow> (case map_of j ''read'' of
         Some (JObj r) \<Rightarrow> (case map_of r ''bw_bytes'' of
           Some (JNum b) \<Rightarrow> Some (Fin (b * 8 / 10 ^ 9))
         | Some (JBool b) \<Rightarrow> Some (Fin ((if b then 1 else 0) * 8 / 10 ^ 9))
         | Some (JOdd f) \<Rightarrow> (case as_float (JOdd f) of Inr v \<Rightarrow> Some v | Inl _ \<Rightarrow> None)
         | _ \<Rightarrow> None)
       | _ \<Rightarrow> None)
     | _ \<Rightarrow> None)
   | _ \<Rightarrow> None)"

definition fio_command :: "runner \<Rightarrow> string list" where
  "fio_command cfg = [''fio'', ''--name=read_test'', ''--filename='' @ rn_fio_file cfg, ''--rw=read'', ''--bs=1M'', ''--size=1G'',
     ''--numjobs=1'', ''--direct=1'', ''--readonly'', ''--output-format=json'']"

definition check_throughput :: "'w runner_env \<Rightarrow> runner \<Rightarrow> pyfloat option
    \<Rightarrow> ('w, bool \<times> bool \<times> pyfloat option \<times> pyfloat option) run" where
  "check_throughput env cfg since =
     bindm (asks (re_time env)) (\<lambda>now.
     if \<not> fio_due cfg since now then ret (True, False, None, since)
     else bindm (run_bounded env (fio_command cfg) (rn_fio_timeout cfg)) (\<lambda>(ok, timeout, out, reason).
       if timeout then ret (False, True, Some (Fin 0), since)
       else if \<not> ok then ret (False, False, Some (Fin 0), since)
       else case Option.bind (json_loads out) fio_rate of
         None \<Rightarrow> ret (False, False, Some (Fin 0), since)
       | Some gbps \<Rightarrow> ret (True, False, Some gbps, Some (Fin now))))"

subsection \<open>A check\<close>

definition time_json :: "time option \<Rightarrow> json" where
  "time_json t = (case t of None \<Rightarrow> JNull | Some r \<Rightarrow> JNum r)"

definition opt_float :: "pyfloat option \<Rightarrow> json" where
  "opt_float v = (case v of None \<Rightarrow> JNull | Some v \<Rightarrow> float_json v)"

text \<open>The dictionary a check writes.\<close>

definition result_json :: "time \<Rightarrow> bool \<Rightarrow> bool \<Rightarrow> json \<Rightarrow> json \<Rightarrow> json \<Rightarrow> json \<Rightarrow> string \<Rightarrow> json" where
  "result_json timestamp ok timeout ping metadata rate since node = JObj
     [(''timestamp'', JNum timestamp), (''ok'', JBool ok), (''timeout'', JBool timeout), (''ping_ms'', ping),
      (''metadata_ms'', metadata), (''throughput_gbps'', rate), (''last_fio_ts'', since), (''node'', JStr node)]"

text \<open>The time of the last fio run, from the previous result; without one, a moment of the last interval.\<close>

definition last_fio :: "'w runner_env \<Rightarrow> runner \<Rightarrow> json \<Rightarrow> ('w, pyfloat option) run" where
  "last_fio env cfg prev =
     bindm (of_sum (jget prev ''last_fio_ts'')) (\<lambda>j.
     let t = (if j = JNull then None else case as_float j of Inl _ \<Rightarrow> None | Inr v \<Rightarrow> Some v) in
     if t = None \<and> rn_enable_fio cfg \<and> rn_fio_file cfg \<noteq> [] then
       bindm (asks (re_time env)) (\<lambda>now.
       bindm (asks (re_uniform env 0 (rn_fio_interval cfg))) (\<lambda>u. ret (Some (Fin (now - u)))))
     else ret t)"

definition runner_main :: "'w runner_env \<Rightarrow> runner \<Rightarrow> json \<Rightarrow> ('w, json) run" where
  "runner_main env cfg prev =
     bindm (last_fio env cfg prev) (\<lambda>since.
     bindm (check_ping env cfg) (\<lambda>(ping_ok, ping_timeout, ping_ms).
     bindm (check_metadata env cfg) (\<lambda>(meta_ok, meta_timeout, meta_ms).
     bindm (asks (re_time env)) (\<lambda>now.
     bindm (of_sum (jget prev ''throughput_gbps'')) (\<lambda>rate.
     let ok = (ping_ok \<and> meta_ok \<and> \<not> (ping_timeout \<or> meta_timeout)) in
     if \<not> ok then ret (result_json now False True (JNum ping_ms) (time_json meta_ms) rate (opt_float since) (rn_node cfg))
     else
     bindm (check_throughput env cfg since) (\<lambda>(fio_ok, fio_timeout, gbps, new_last).
     bindm (case gbps of Some v \<Rightarrow> ret (float_json v)
       | None \<Rightarrow> if rate = JNull then ret JNull else bindm (of_sum (as_float rate)) (\<lambda>v. ret (float_json v))) (\<lambda>rate'.
     ret (result_json now (fio_ok \<and> \<not> fio_timeout) fio_timeout (JNum ping_ms) (time_json meta_ms) rate'
       (opt_float (if new_last = None then since else new_last)) (rn_node cfg)))))))))"

subsection \<open>The agent\<close>

text \<open>
  What an agent keeps on its disk and in memory: the latest result, whether it is marked ready, and the verdict that
  the HTTP thread serves.
\<close>

datatype disk_file = Missing | Broken | Holds json

record agent =
  ag_result :: disk_file
  ag_ready :: bool
  ag_published :: "json option"

definition load_json :: "disk_file \<Rightarrow> json" where
  "load_json f = (case f of Holds j \<Rightarrow> j | _ \<Rightarrow> JObj [])"

text \<open>
  What happens to one attempt: the directory cannot be made, the check cannot be started, talking to it fails, it runs into
  the deadline at a time, or it exits and leaves its file. \<open>at_recorded\<close> is whether the result can be written or
  moved, \<open>at_marked\<close> whether the mark of readiness can be changed.
\<close>

datatype attempt_run = No_directory | No_start | Talk_broke | Deadline time | Ended int disk_file

record probe_attempt =
  at_run :: attempt_run
  at_recorded :: bool
  at_marked :: bool

datatype probe_outcome = Published | Timeout | Failed

definition timeout_result :: "string \<Rightarrow> time \<Rightarrow> json \<Rightarrow> exn + json" where
  "timeout_result node now prev =
     bind_sum (jget prev ''throughput_gbps'') (\<lambda>rate.
     bind_sum (jget prev ''last_fio_ts'') (\<lambda>since.
     Inr (result_json now False True JNull JNull rate since node)))"

definition run_attempt :: "string \<Rightarrow> probe_attempt \<Rightarrow> (agent, exn, probe_outcome) eff" where
  "run_attempt node a = (case at_run a of
     No_directory \<Rightarrow> ret Failed
   | No_start \<Rightarrow> ret Failed
   | Talk_broke \<Rightarrow> ret Failed
   | Deadline now \<Rightarrow>
     bindm (gets (load_json \<circ> ag_result)) (\<lambda>prev.
     bindm (of_sum (timeout_result node now prev)) (\<lambda>res.
     if \<not> at_recorded a then ret Failed
     else bindm (modify (\<lambda>s. s\<lparr>ag_result := Holds res\<rparr>)) (\<lambda>_.
       bindm (modify (\<lambda>s. s\<lparr>ag_published := Some res\<rparr>)) (\<lambda>_. ret Timeout))))
   | Ended code f \<Rightarrow>
     if code \<noteq> 0 then ret Failed
     else let res = load_json f in
       if \<not> truthy res then ret Failed
       else bindm (of_sum (jget res ''ok'')) (\<lambda>_.
         if \<not> at_recorded a then ret Failed
         else bindm (modify (\<lambda>s. s\<lparr>ag_result := Holds res\<rparr>)) (\<lambda>_.
           bindm (modify (\<lambda>s. s\<lparr>ag_published := Some res\<rparr>)) (\<lambda>_. ret Published))))"

definition set_ready :: "bool \<Rightarrow> bool \<Rightarrow> (agent, exn, unit) eff" where
  "set_ready ready marked = whenm marked (modify (\<lambda>s. s\<lparr>ag_ready := ready\<rparr>))"

definition cycle :: "string \<Rightarrow> probe_attempt \<Rightarrow> (agent, exn, probe_outcome) eff" where
  "cycle node a =
     bindm (catch (run_attempt node a) (\<lambda>_. ret Failed)) (\<lambda>o1.
     bindm (set_ready (o1 \<in> {Published, Timeout}) (at_marked a)) (\<lambda>_. ret o1))"

definition start_agent :: "disk_file \<Rightarrow> agent" where
  "start_agent f = \<lparr>ag_result = f, ag_ready = False,
     ag_published = (let prev = load_json f in if truthy prev then Some prev else None)\<rparr>"

definition run_cycles :: "string \<Rightarrow> probe_attempt list \<Rightarrow> agent \<Rightarrow> agent" where
  "run_cycles node as s = foldl (\<lambda>s a. snd (cycle node a s)) s as"

text \<open>\<open>Handler.do_GET\<close>.\<close>

definition serve_result :: "string \<Rightarrow> agent \<Rightarrow> json option" where
  "serve_result path s = (if path = ''/result'' then ag_published s else None)"

text \<open>How long \<open>main\<close> sleeps after a cycle.\<close>

definition pause :: "rat \<Rightarrow> rat \<Rightarrow> nat \<Rightarrow> time \<Rightarrow> time \<Rightarrow> rat" where
  "pause interval jitter seq started now = max 0 (started + (interval + (if seq = 0 then jitter else 0)) - now)"

subsection \<open>What a good result says\<close>

text \<open>A command of the check that came to a good end.\<close>

definition ran_well :: "'w runner_env \<Rightarrow> string list \<Rightarrow> rat \<Rightarrow> (string \<Rightarrow> bool) \<Rightarrow> bool" where
  "ran_well env cmd limit good \<longleftrightarrow> (\<exists>w w' out err. re_run env cmd limit w = (Exited 0 out err, w') \<and> good out)"

lemma run_bounded_ok: "yields (\<lambda>(ok, timeout, out, _). (ok \<longrightarrow> \<not> timeout \<and> ran_well env cmd limit ((=) out))) (run_bounded env cmd limit)"
  unfolding run_bounded_def
  by (rule yields_bind [OF yields_asks [where P = "\<lambda>c. \<exists>w w'. re_run env cmd limit w = (c, w')"]])
    (auto simp: ran_well_def split: child.split intro!: yields_intros)

lemma ran_well_mono: "ran_well env cmd limit good \<Longrightarrow> (\<And>out. good out \<Longrightarrow> good' out) \<Longrightarrow> ran_well env cmd limit good'"
  unfolding ran_well_def by blast

text \<open>Both checks of the mount's response, and fio's.\<close>

definition ping_good :: "'w runner_env \<Rightarrow> runner \<Rightarrow> bool" where
  "ping_good env cfg \<longleftrightarrow> ran_well env (ping_command cfg) (rn_ping_timeout cfg)
     (\<lambda>out. rn_checksum cfg = [] \<or> first_word out = rn_checksum cfg)"

definition metadata_good :: "'w runner_env \<Rightarrow> runner \<Rightarrow> bool" where
  "metadata_good env cfg \<longleftrightarrow> rn_metadata_dir cfg = []
     \<or> ran_well env [''ls'', ''-la'', rn_metadata_dir cfg] (rn_metadata_timeout cfg) (\<lambda>_. True)"

definition clocked_at :: "'w runner_env \<Rightarrow> time \<Rightarrow> bool" where
  "clocked_at env t \<longleftrightarrow> (\<exists>w w'. re_time env w = (t, w'))"

lemma check_ping_good: "yields (\<lambda>(ok, timeout, _). ok \<longrightarrow> \<not> timeout \<and> ping_good env cfg) (check_ping env cfg)"
  unfolding check_ping_def Let_def
  by (rule yields_bindm, rule yields_bind [OF run_bounded_ok])
    (auto simp: ping_good_def ran_well_def intro!: yields_intros)

lemma check_metadata_good: "yields (\<lambda>(ok, timeout, _). ok \<longrightarrow> \<not> timeout \<and> metadata_good env cfg) (check_metadata env cfg)"
  unfolding check_metadata_def
  by (auto simp: metadata_good_def intro!: yields_intros yields_bind [OF run_bounded_ok] elim!: ran_well_mono)

text \<open>The result of a check: a good one comes from good commands, and is stamped with a time of the check's clock.\<close>

definition result_of_check :: "'w runner_env \<Rightarrow> runner \<Rightarrow> json \<Rightarrow> bool" where
  "result_of_check env cfg j \<longleftrightarrow> (\<exists>t ok timeout ping meta rate since.
     j = result_json t ok timeout ping meta rate since (rn_node cfg) \<and> clocked_at env t
     \<and> (ok \<longrightarrow> \<not> timeout \<and> ping_good env cfg \<and> metadata_good env cfg))"

lemma runner_main_result: "yields (result_of_check env cfg) (runner_main env cfg prev)"
  unfolding runner_main_def Let_def
  apply (rule yields_bindm)
  apply (rule yields_bind [OF check_ping_good], clarify)
  apply (rule yields_bind [OF check_metadata_good], clarify)
  apply (rule yields_bind [OF yields_asks [where P = "clocked_at env"]])
   apply (force simp: clocked_at_def)
  apply (intro yields_intros; clarsimp simp: result_of_check_def; fastforce)
  done

subsection \<open>What is served\<close>

text \<open>The verdict an attempt gives, from what the latest result is; \<open>None\<close> if the probe itself failed.\<close>

definition attempt_verdict :: "string \<Rightarrow> probe_attempt \<Rightarrow> disk_file \<Rightarrow> json option" where
  "attempt_verdict node a f = (if \<not> at_recorded a then None else case at_run a of
     Deadline now \<Rightarrow> (case timeout_result node now (load_json f) of Inr j \<Rightarrow> Some j | Inl _ \<Rightarrow> None)
   | Ended code g \<Rightarrow> (case g of Holds (JObj d) \<Rightarrow> if code = 0 \<and> d \<noteq> [] then Some (JObj d) else None | _ \<Rightarrow> None)
   | _ \<Rightarrow> None)"

lemma cycle_verdict:
  "snd (cycle node a s) = (case attempt_verdict node a (ag_result s) of
     None \<Rightarrow> s\<lparr>ag_ready := ag_ready s \<and> \<not> at_marked a\<rparr>
   | Some j \<Rightarrow> \<lparr>ag_result = Holds j, ag_ready = ag_ready s \<or> at_marked a, ag_published = Some j\<rparr>)"
proof -
  have [simp]: "s\<lparr>ag_ready := ag_ready s\<rparr> = s" by simp
  show ?thesis
    by (cases s; cases "at_run a")
      (auto simp: cycle_def run_attempt_def set_ready_def attempt_verdict_def load_json_def bindm_def catch_def ret_def gets_def
        modify_def of_sum_def whenm_def jget_def Let_def split: sum.split disk_file.split json.split)
qed

text \<open>The latest verdict: the last one an attempt gave, and before that what was on the disk.\<close>

definition latest :: "string \<Rightarrow> probe_attempt list \<Rightarrow> disk_file \<Rightarrow> disk_file" where
  "latest node as f = foldl (\<lambda>f a. case attempt_verdict node a f of None \<Rightarrow> f | Some j \<Rightarrow> Holds j) f as"

lemma attempt_verdict_truthy: "attempt_verdict node a f = Some j \<Longrightarrow> truthy j"
  by (auto simp: attempt_verdict_def timeout_result_def result_json_def split: if_splits attempt_run.splits sum.splits disk_file.splits json.splits)

definition serves :: "disk_file \<Rightarrow> agent \<Rightarrow> bool" where
  "serves f s \<longleftrightarrow> ag_result s = f \<and> ag_published s = (if truthy (load_json f) then Some (load_json f) else None)"

lemma cycle_serves: "serves f s \<Longrightarrow> serves (case attempt_verdict node a f of None \<Rightarrow> f | Some j \<Rightarrow> Holds j) (snd (cycle node a s))"
  by (auto simp: serves_def cycle_verdict load_json_def attempt_verdict_truthy split: option.split)

lemma run_cycles_serves: "serves f s \<Longrightarrow> serves (latest node as f) (run_cycles node as s)"
  by (induction as arbitrary: f s) (auto simp: latest_def run_cycles_def intro: cycle_serves)

lemma start_agent_serves: "serves f (start_agent f)"
  by (simp add: serves_def start_agent_def Let_def)

text \<open>
  C35: an agent serves the latest verdict, and is ready if its last attempt gave one. After any attempts, whatever
  became of each (no start, a broken check, a deadline, an unusable or unwritable result), \<open>/result\<close> is the last
  verdict given, before the first one the result an earlier container left, and the same as on the disk; no failed
  attempt replaces it. The agent is ready exactly if its last attempt gave a verdict, good or bad, as long as the mark
  can be changed.
\<close>

theorem agent_serves_latest:
  "ag_result (run_cycles node as (start_agent f)) = latest node as f
   \<and> serve_result ''/result'' (run_cycles node as (start_agent f))
       = (if truthy (load_json (latest node as f)) then Some (load_json (latest node as f)) else None)
   \<and> (at_marked a \<longrightarrow> ag_ready (run_cycles node (as @ [a]) (start_agent f)) = (attempt_verdict node a (latest node as f) \<noteq> None))"
proof -
  have s: "serves (latest node as f) (run_cycles node as (start_agent f))"
    by (intro run_cycles_serves start_agent_serves)
  then have "at_marked a \<longrightarrow> ag_ready (run_cycles node (as @ [a]) (start_agent f)) = (attempt_verdict node a (latest node as f) \<noteq> None)"
    by (simp add: run_cycles_def serves_def cycle_verdict split: option.split)
  with s show ?thesis by (simp add: serves_def serve_result_def)
qed

definition example_attempt :: probe_attempt where
  "example_attempt = \<lparr>at_run = Deadline 100, at_recorded = True, at_marked = True\<rparr>"

theorem agent_serves_latest_witness:
  "ag_ready (run_cycles ''n1'' ([] @ [example_attempt]) (start_agent Missing))
   \<and> ag_result (run_cycles ''n1'' [example_attempt] (start_agent Missing))
       = Holds (result_json 100 False True JNull JNull JNull JNull ''n1'')"
proof -
  have v: "attempt_verdict ''n1'' example_attempt Missing = Some (result_json 100 False True JNull JNull JNull JNull ''n1'')"
    by code_simp
  then have "latest ''n1'' [example_attempt] Missing = Holds (result_json 100 False True JNull JNull JNull JNull ''n1'')"
    by (simp add: latest_def)
  moreover have "at_marked example_attempt" "latest ''n1'' [] Missing = Missing" by (simp_all add: example_attempt_def latest_def)
  ultimately show ?thesis
    using agent_serves_latest [of "''n1''" "[]" Missing example_attempt] agent_serves_latest [of "''n1''" "[example_attempt]" Missing] v by simp
qed

end
