(* ===== verification/Node_Health.thy ===== *)
theory Node_Health
  imports Node_Probe
begin

text \<open>
  The exporter of the mounts' health (\<open>src/docker/af-node-monitor/node_healthcheck.py\<close>): the nodes and probe pods it
  lists, the results it pulls from the probes, and the gauges it sets.

  The gauges are a map from labels to the values there are. What Kubernetes and the probes answer in a pass is an
  argument; a list that could not be read is \<open>None\<close>. An attribute Kubernetes leaves out is empty or false.
\<close>

definition MOUNTS :: "string list" where "MOUNTS = [''/depot/'', ''/work/'', ''eos'', ''cvmfs'']"
definition PING_TIMEOUT_S :: rat where "PING_TIMEOUT_S = 3"
definition METADATA_TIMEOUT_S :: rat where "METADATA_TIMEOUT_S = 10"
definition RESULT_STALE_WINDOW_S :: rat where "RESULT_STALE_WINDOW_S = 1800"
definition CLOCK_SKEW_TOLERANCE_S :: rat where "CLOCK_SKEW_TOLERANCE_S = 300"
definition NODE_CACHE_TTL_S :: rat where "NODE_CACHE_TTL_S = 300"
definition POD_CACHE_TTL_S :: rat where "POD_CACHE_TTL_S = 300"
definition MOUNT_SETUP_GRACE_S :: rat where "MOUNT_SETUP_GRACE_S = 600"
definition MOUNT_SETUP_RESTARTS :: nat where "MOUNT_SETUP_RESTARTS = 3"
definition DEFAULT_PROBE_PORT :: int where "DEFAULT_PROBE_PORT = 8080"

subsection \<open>Nodes and probe pods\<close>

record node_info =
  nd_name :: string
  nd_conditions :: "(string \<times> string) list"

definition node_is_ready :: "node_info \<Rightarrow> bool" where
  "node_is_ready n = list_ex (\<lambda>(t, s). t = ''Ready'' \<and> s = ''True'') (nd_conditions n)"

record container_status =
  cs_running :: bool
  cs_waiting :: string
  cs_terminated :: string
  cs_restarts :: nat

record pod_status =
  ps_phase :: string
  ps_conditions :: "(string \<times> string) list"
  ps_ip :: string
  ps_containers :: "container_status list"

record probe_pod =
  pd_mount :: string
  pd_node :: string
  pd_deleted :: bool
  pd_created :: "time option"
  pd_ports :: "(string \<times> int) list list"
  pd_status :: "pod_status option"

record probe =
  pr_ready :: bool
  pr_ip :: string
  pr_port :: int
  pr_setup_failed :: bool

definition probe_pod_ready :: "probe_pod \<Rightarrow> bool" where
  "probe_pod_ready p =
     (if pd_deleted p then False
      else case pd_status p of None \<Rightarrow> False
      | Some s \<Rightarrow> if ps_phase s \<noteq> ''Running'' then False
        else case find (\<lambda>(t, _). t = ''Ready'') (ps_conditions s) of None \<Rightarrow> False | Some (_, v) \<Rightarrow> v = ''True'')"

definition probe_port :: "probe_pod \<Rightarrow> int" where
  "probe_port p = (case find (\<lambda>(n, _). n = ''http'') (concat (pd_ports p)) of None \<Rightarrow> DEFAULT_PROBE_PORT | Some (_, n) \<Rightarrow> n)"

definition mount_setup_failed :: "probe_pod \<Rightarrow> time \<Rightarrow> bool" where
  "mount_setup_failed p now =
     (if pd_deleted p then False
      else case pd_status p of None \<Rightarrow> False
      | Some s \<Rightarrow>
        (ps_phase s = ''Pending'' \<and> list_ex (\<lambda>(t, v). t = ''PodReadyToStartContainers'' \<and> v = ''False''
           \<and> (case pd_created p of None \<Rightarrow> 0 | Some c \<Rightarrow> now - c) > MOUNT_SETUP_GRACE_S) (ps_conditions s))
        \<or> list_ex (\<lambda>c. \<not> cs_running c \<and> (cs_waiting c = ''RunContainerError'' \<or> cs_terminated c = ''ContainerCannotRun'')
             \<and> cs_restarts c \<ge> MOUNT_SETUP_RESTARTS) (ps_containers s))"

type_synonym probe_key = "string \<times> string"

text \<open>One pod of the list: the probe and whether a setup failed, by mount and node.\<close>

definition add_pod :: "time \<Rightarrow> (probe_key, probe \<times> bool) dict \<Rightarrow> probe_pod \<Rightarrow> (probe_key, probe \<times> bool) dict" where
  "add_pod now d p =
     (if pd_mount p = [] \<or> pd_node p = [] then d
      else let key = (pd_mount p, pd_node p);
               (old, bad) = dict_get d key (\<lparr>pr_ready = False, pr_ip = [], pr_port = DEFAULT_PROBE_PORT, pr_setup_failed = False\<rparr>, False);
               ready = probe_pod_ready p;
               ip = (case pd_status p of None \<Rightarrow> [] | Some s \<Rightarrow> ps_ip s);
               new = (if ip \<noteq> [] \<and> \<not> pd_deleted p \<and> (ready \<or> pr_ip old = []) then old\<lparr>pr_ip := ip, pr_port := probe_port p\<rparr> else old)
           in AList.update key (new\<lparr>pr_ready := pr_ready new \<or> ready\<rparr>, bad \<or> mount_setup_failed p now) d)"

definition list_probe_pods :: "time \<Rightarrow> probe_pod list option \<Rightarrow> (probe_key, probe) dict option" where
  "list_probe_pods now pods = map_option (\<lambda>ps.
     map (\<lambda>(key, p, bad). (key, p\<lparr>pr_setup_failed := bad \<and> \<not> pr_ready p\<rparr>)) (foldl (add_pod now) [] ps)) pods"

subsection \<open>Gauges\<close>

datatype gauge = Valid | Ping_ms | Data_rate | Metadata_ms | Result_fresh | Probe_up

type_synonym cells = "gauge \<Rightarrow> pyfloat option"
type_synonym mount_labels = "string \<times> string \<times> string"

record monitor =
  mn_gauges :: "mount_labels \<Rightarrow> cells"
  mn_nodes :: "(string \<times> string \<times> bool) list"
  mn_refreshed :: time
  mn_pools :: "(string, string) dict"
  mn_probes :: "(probe_key, probe) dict option"
  mn_probes_at :: time
  mn_results :: "(probe_key, (string, json) dict) dict"
  mn_available :: rat

definition clear_node_pool :: "string \<Rightarrow> string \<Rightarrow> (mount_labels \<Rightarrow> cells) \<Rightarrow> (mount_labels \<Rightarrow> cells)" where
  "clear_node_pool node pool g = (\<lambda>(m, n, p). if m \<in> set MOUNTS \<and> n = node \<and> p = pool then (\<lambda>_. None) else g (m, n, p))"

subsection \<open>The nodes of a pass\<close>

definition add_nodes :: "string \<Rightarrow> (string, string \<times> bool) dict \<Rightarrow> node_info list \<Rightarrow> (string, string \<times> bool) dict" where
  "add_nodes pool = foldl (\<lambda>d n. if nd_name n = [] \<or> map_of d (nd_name n) \<noteq> None then d
     else d @ [(nd_name n, pool, node_is_ready n)])"

text \<open>\<open>_refresh_node_caches\<close>, with the nodes labelled for production and for development as they are listed.\<close>

definition refresh_nodes :: "time \<Rightarrow> bool \<Rightarrow> node_info list option \<Rightarrow> node_info list option \<Rightarrow> monitor \<Rightarrow> monitor" where
  "refresh_nodes now k8s prods devs s =
     (if \<not> k8s \<or> (mn_nodes s \<noteq> [] \<and> now - mn_refreshed s < NODE_CACHE_TTL_S) then s
      else case (prods, devs) of
        (Some ps, Some ds) \<Rightarrow>
          let by_name = add_nodes ''dev'' (add_nodes ''prod'' [] ps) ds;
              g1 = foldl (\<lambda>g (n, pool, _). clear_node_pool n (if pool = ''prod'' then ''dev'' else ''prod'') g) (mn_gauges s) by_name;
              g2 = foldl (\<lambda>g (n, pool). if map_of by_name n = None then clear_node_pool n pool g else g) g1 (mn_pools s)
          in s\<lparr>mn_gauges := g2, mn_pools := map (\<lambda>(n, pool, _). (n, pool)) by_name,
               mn_nodes := sort_key fst by_name, mn_refreshed := now\<rparr>
      | _ \<Rightarrow> s)"

definition probe_pods :: "time \<Rightarrow> (probe_key, probe) dict option \<Rightarrow> monitor \<Rightarrow> (probe_key, probe) dict option \<times> monitor" where
  "probe_pods now listed s = (case listed of
     Some ps \<Rightarrow> (Some ps, s\<lparr>mn_probes := Some ps, mn_probes_at := now\<rparr>)
   | None \<Rightarrow> (if mn_probes s \<noteq> None \<and> now - mn_probes_at s < POD_CACHE_TTL_S then mn_probes s else None, s))"

subsection \<open>The gauges of one mount on one node\<close>

definition set_gauge :: "gauge \<Rightarrow> pyfloat \<Rightarrow> (cells, exn, unit) eff" where
  "set_gauge g v = modify (\<lambda>c. c(g := Some v))"

definition clear_gauges :: "gauge list \<Rightarrow> (cells, exn, unit) eff" where
  "clear_gauges gs = modify (\<lambda>c g. if g \<in> set gs then None else c g)"

definition clear_mount_gauges :: "(cells, exn, unit) eff" where
  "clear_mount_gauges = clear_gauges [Valid, Ping_ms, Data_rate, Metadata_ms, Result_fresh, Probe_up]"

definition publish_probe_up :: "bool option \<Rightarrow> (cells, exn, unit) eff" where
  "publish_probe_up up = (case up of None \<Rightarrow> clear_gauges [Probe_up] | Some b \<Rightarrow> set_gauge Probe_up (Fin (if b then 1 else 0)))"

definition publish_sentinels :: "bool \<Rightarrow> (cells, exn, unit) eff" where
  "publish_sentinels fresh =
     bindm (set_gauge Valid (Fin 0)) (\<lambda>_.
     bindm (set_gauge Ping_ms (Fin (PING_TIMEOUT_S * 1000))) (\<lambda>_.
     bindm (set_gauge Metadata_ms (Fin (METADATA_TIMEOUT_S * 1000))) (\<lambda>_.
     bindm (set_gauge Data_rate (Fin 0)) (\<lambda>_. set_gauge Result_fresh (Fin (if fresh then 1 else 0))))))"

text \<open>\<open>set(float(x))\<close>.\<close>

definition set_float :: "gauge \<Rightarrow> json \<Rightarrow> (cells, exn, unit) eff" where
  "set_float g x = bindm (of_sum (as_float x)) (\<lambda>v. set_gauge g v)"

definition timestamp_of :: "(string, json) dict \<Rightarrow> pyfloat" where
  "timestamp_of d = (case as_float (dict_get d ''timestamp'' (JNum 0)) of Inl _ \<Rightarrow> Fin 0 | Inr v \<Rightarrow> v)"

fun not_positive :: "pyfloat \<Rightarrow> bool" where
  "not_positive (Fin t) = (t \<le> 0)"
| "not_positive (Infinite neg) = neg"
| "not_positive NaN = False"

fun beyond :: "pyfloat \<Rightarrow> rat \<Rightarrow> bool" where
  "beyond (Fin t) x = (t > x)"
| "beyond (Infinite neg) x = (\<not> neg)"
| "beyond NaN x = False"

fun older :: "pyfloat \<Rightarrow> time \<Rightarrow> rat \<Rightarrow> bool" where
  "older (Fin t) now d = (now - t > d)"
| "older (Infinite neg) now d = neg"
| "older NaN now d = False"

text \<open>What a completed check sets.\<close>

definition publish_timeout :: "json \<Rightarrow> (cells, exn, unit) eff" where
  "publish_timeout ping =
     bindm (if ping \<noteq> JNull then set_float Ping_ms ping else set_gauge Ping_ms (Fin (PING_TIMEOUT_S * 1000))) (\<lambda>_.
     bindm (set_gauge Metadata_ms (Fin (METADATA_TIMEOUT_S * 1000))) (\<lambda>_. set_gauge Data_rate (Fin 0)))"

definition publish_measured :: "bool \<Rightarrow> json \<Rightarrow> json \<Rightarrow> json \<Rightarrow> (cells, exn, unit) eff" where
  "publish_measured ok ping meta rate =
     bindm (whenm (ping \<noteq> JNull) (set_float Ping_ms ping)) (\<lambda>_.
     bindm (whenm (meta \<noteq> JNull) (set_float Metadata_ms meta)) (\<lambda>_.
     bindm (if rate \<noteq> JNull then set_float Data_rate rate else if ok then clear_gauges [Data_rate] else set_gauge Data_rate (Fin 0)) (\<lambda>_.
     whenm (\<not> ok) (bindm (whenm (ping = JNull) (set_gauge Ping_ms (Fin (PING_TIMEOUT_S * 1000)))) (\<lambda>_.
       whenm (meta = JNull) (set_gauge Metadata_ms (Fin (METADATA_TIMEOUT_S * 1000))))))))"

definition publish_result :: "time \<Rightarrow> (string, json) dict \<Rightarrow> (cells, exn, unit) eff" where
  "publish_result now d =
     (let ts = timestamp_of d;
          timeout = truthy (dict_get d ''timeout'' (JBool False));
          ok = (truthy (dict_get d ''ok'' (JBool False)) \<and> \<not> timeout);
          ping = dict_get d ''ping_ms'' JNull; meta = dict_get d ''metadata_ms'' JNull; rate = dict_get d ''throughput_gbps'' JNull in
      if not_positive ts \<or> beyond ts (now + CLOCK_SKEW_TOLERANCE_S) then publish_sentinels False
      else if older ts now RESULT_STALE_WINDOW_S \<and> ok then publish_sentinels False
      else
      bindm (set_gauge Valid (Fin (if ok then 1 else 0))) (\<lambda>_.
      bindm (set_gauge Result_fresh (Fin 1)) (\<lambda>_.
      if timeout then publish_timeout ping else publish_measured ok ping meta rate)))"

definition publish_mount :: "time \<Rightarrow> bool \<Rightarrow> probe option \<Rightarrow> bool option \<Rightarrow> bool \<Rightarrow> (string, json) dict \<Rightarrow> (cells, exn, unit) eff" where
  "publish_mount now ready pr up works d =
     (if \<not> ready then clear_mount_gauges
      else if (case pr of None \<Rightarrow> False | Some p \<Rightarrow> pr_setup_failed p) \<and> works then
        bindm (publish_probe_up up) (\<lambda>_. publish_sentinels True)
      else
        bindm (publish_probe_up up) (\<lambda>_. if d = [] then publish_sentinels False else publish_result now d))"

subsection \<open>A pass\<close>

definition sanitized_mount_name :: "string \<Rightarrow> string" where
  "sanitized_mount_name name = (let s = map (\<lambda>c. if c = CHR ''/'' then CHR ''_'' else c) (strip_of {CHR ''/''} name) in
     if s = [] then ''root'' else s)"

text \<open>What one pass finds: whether the client of Kubernetes is there, the nodes, the pods, and what each probe answers.\<close>

record pass =
  pa_now :: time
  pa_k8s :: bool
  pa_prod :: "node_info list option"
  pa_dev :: "node_info list option"
  pa_pods :: "probe_pod list option"
  pa_answers :: "string \<Rightarrow> int \<Rightarrow> json option"

definition at_labels :: "mount_labels \<Rightarrow> (cells, exn, unit) eff \<Rightarrow> (monitor, exn, unit) eff" where
  "at_labels l m = (\<lambda>s. case m (mn_gauges s l) of (r, c) \<Rightarrow> (r, s\<lparr>mn_gauges := (mn_gauges s)(l := c)\<rparr>))"

definition fetched_from :: "(string \<Rightarrow> int \<Rightarrow> json option) \<Rightarrow> (probe_key, probe) dict \<Rightarrow> (probe_key, (string, json) dict) dict" where
  "fetched_from answers targets = List.map_filter (\<lambda>(key, p). case answers (pr_ip p) (pr_port p) of
     Some (JObj d) \<Rightarrow> Some (key, d) | _ \<Rightarrow> None) targets"

definition fetch_targets :: "(string \<times> string \<times> bool) list \<Rightarrow> (probe_key, probe) dict option \<Rightarrow> (probe_key, probe) dict" where
  "fetch_targets nodes probes = (case probes of None \<Rightarrow> []
     | Some ps \<Rightarrow> filter (\<lambda>(key, p). pr_ip p \<noteq> [] \<and> list_ex (\<lambda>(n, _, ok). n = snd key \<and> ok) nodes) ps)"

definition publish_pass :: "time \<Rightarrow> (string \<times> string \<times> bool) list \<Rightarrow> (probe_key, probe) dict option
    \<Rightarrow> (probe_key, (string, json) dict) dict \<Rightarrow> string set \<Rightarrow> (monitor, exn, unit) eff" where
  "publish_pass now nodes probes fetched working =
     each (\<lambda>m. each (\<lambda>(n, pool, ready).
       let key = (sanitized_mount_name m, n);
           pr = Option.bind probes (\<lambda>ps. map_of ps key);
           up = map_option (\<lambda>_. (case pr of None \<Rightarrow> False | Some p \<Rightarrow> pr_ready p) \<and> map_of fetched key \<noteq> None) probes in
       bindm (gets (\<lambda>s. dict_get (mn_results s) key [])) (\<lambda>d.
       at_labels (m, n, pool) (publish_mount now ready pr up (n \<in> working) d))) nodes) MOUNTS"

definition update_metrics :: "pass \<Rightarrow> (monitor, exn, unit) eff" where
  "update_metrics p =
     bindm (modify (refresh_nodes (pa_now p) (pa_k8s p) (pa_prod p) (pa_dev p))) (\<lambda>_.
     bindm (gets (\<lambda>s. if pa_k8s p then mn_nodes s else [])) (\<lambda>nodes.
     bindm (asks (probe_pods (pa_now p) (if pa_k8s p then list_probe_pods (pa_now p) (pa_pods p) else None))) (\<lambda>probes.
     let targets = fetch_targets nodes probes;
         fetched = fetched_from (pa_answers p) targets;
         expected = filter (\<lambda>(_, pr). pr_ready pr) targets;
         answered = filter (\<lambda>(key, _). map_of fetched key \<noteq> None) expected in
     bindm (modify (\<lambda>s. s\<lparr>mn_results := dict_updates (mn_results s) fetched\<rparr>)) (\<lambda>_.
     bindm (publish_pass (pa_now p) nodes probes fetched (snd ` fst ` set answered)) (\<lambda>_.
     modify (\<lambda>s. s\<lparr>mn_available := (if expected \<noteq> [] then of_nat (length answered) / of_nat (length expected)
       else if list_ex (\<lambda>(_, _, ok). ok) nodes then 0 else 1)\<rparr>))))))"

subsection \<open>Flux and the registry\<close>

record flux_item =
  fx_name :: string
  fx_suspend :: bool
  fx_conditions :: "(string \<times> string) list"

definition FLUX_KINDS :: "string list" where
  "FLUX_KINDS = [''Kustomization'', ''GitRepository'', ''HelmRelease'']"

definition flux_object_ready :: "flux_item \<Rightarrow> bool" where
  "flux_object_ready i = (\<not> fx_suspend i \<and> list_ex (\<lambda>(t, v). t = ''Ready'' \<and> v = ''True'') (fx_conditions i))"

record flux_state =
  fs_ready :: "string \<times> string \<Rightarrow> bool option"
  fs_published :: "(string, string list) dict"

text \<open>One kind: its objects are published, and those that are no longer listed are dropped.\<close>

definition update_kind :: "(string \<Rightarrow> flux_item list option) \<Rightarrow> flux_state \<Rightarrow> string \<Rightarrow> flux_state" where
  "update_kind list_kind s kind =
     (let items = (case list_kind kind of None \<Rightarrow> [] | Some l \<Rightarrow> l);
          names = map fx_name items;
          r1 = foldl (\<lambda>r i. r((kind, fx_name i) := Some (flux_object_ready i))) (fs_ready s) items;
          r2 = foldl (\<lambda>r n. r((kind, n) := None)) r1 (filter (\<lambda>n. n \<notin> set names) (dict_get (fs_published s) kind []))
      in s\<lparr>fs_ready := r2, fs_published := AList.update kind (remdups names) (fs_published s)\<rparr>)"

definition update_flux :: "(string \<Rightarrow> flux_item list option) \<Rightarrow> flux_state \<Rightarrow> flux_state" where
  "update_flux list_kind s = foldl (update_kind list_kind) s FLUX_KINDS"

text \<open>An answer of the registry: a status, also as an error, or none.\<close>

definition registry_answers :: "nat option \<Rightarrow> bool" where
  "registry_answers status = (case status of None \<Rightarrow> False | Some n \<Rightarrow> n < 500)"

subsection \<open>What the gauges of a mount say\<close>

datatype verdict = Unmonitored | Unknown | Failing | Green | Muddled

definition reading :: "cells \<Rightarrow> verdict" where
  "reading c = (case (c Valid, c Result_fresh) of
     (None, None) \<Rightarrow> Unmonitored
   | (Some v, Some f) \<Rightarrow> if f = Fin 0 \<and> v = Fin 0 then Unknown else if f = Fin 1 \<and> v = Fin 0 then Failing
       else if f = Fin 1 \<and> v = Fin 1 then Green else Muddled
   | _ \<Rightarrow> Muddled)"

text \<open>What the gauges of a mount on a node are to say, from the latest result of its probe.\<close>

definition says_ok :: "(string, json) dict \<Rightarrow> bool" where
  "says_ok d \<longleftrightarrow> truthy (dict_get d ''ok'' (JBool False)) \<and> \<not> truthy (dict_get d ''timeout'' (JBool False))"

definition undated :: "time \<Rightarrow> (string, json) dict \<Rightarrow> bool" where
  "undated now d \<longleftrightarrow> not_positive (timestamp_of d) \<or> beyond (timestamp_of d) (now + CLOCK_SKEW_TOLERANCE_S)"

definition mount_verdict :: "time \<Rightarrow> bool \<Rightarrow> bool \<Rightarrow> (string, json) dict \<Rightarrow> verdict" where
  "mount_verdict now ready stuck d =
     (if \<not> ready then Unmonitored
      else if stuck then Failing
      else if d = [] \<or> undated now d then Unknown
      else if \<not> says_ok d then Failing
      else if older (timestamp_of d) now RESULT_STALE_WINDOW_S then Unknown else Green)"

lemma holds_set_gauge: "g \<notin> {Valid, Result_fresh} \<Longrightarrow> holds (\<lambda>c. (c Valid, c Result_fresh)) (set_gauge g v)"
  by (auto simp: set_gauge_def holds_def modify_def)

lemma holds_clear_gauges: "Valid \<notin> set gs \<Longrightarrow> Result_fresh \<notin> set gs \<Longrightarrow> holds (\<lambda>c. (c Valid, c Result_fresh)) (clear_gauges gs)"
  by (simp add: clear_gauges_def holds_def modify_def)

lemma measured_holds: "holds (\<lambda>c. (c Valid, c Result_fresh)) (publish_measured ok ping meta rate)"
  "holds (\<lambda>c. (c Valid, c Result_fresh)) (publish_timeout ping)"
  "holds (\<lambda>c. (c Valid, c Result_fresh)) (publish_probe_up up)"
  unfolding publish_measured_def publish_timeout_def publish_probe_up_def set_float_def
  by (intro holds_intros holds_set_gauge holds_clear_gauges; simp)+

lemma sentinels_cells: "snd (publish_sentinels fresh c) Valid = Some (Fin 0)"
  "snd (publish_sentinels fresh c) Result_fresh = Some (Fin (if fresh then 1 else 0))"
  by (simp_all add: publish_sentinels_def set_gauge_def bindm_def modify_def)

lemma publish_result_reading:
  "reading (snd (publish_result now d c)) = (if undated now d then Unknown else if \<not> says_ok d then Failing
     else if older (timestamp_of d) now RESULT_STALE_WINDOW_S then Unknown else Green)"
proof -
  have kept: "snd (m c') Valid = c' Valid \<and> snd (m c') Result_fresh = c' Result_fresh"
    if "holds (\<lambda>c. (c Valid, c Result_fresh)) m" for m :: "(cells, exn, unit) eff" and c' using that by (simp add: holds_def)
  show ?thesis
    using kept [OF measured_holds(1)] kept [OF measured_holds(2)]
    by (auto simp: publish_result_def undated_def says_ok_def Let_def reading_def sentinels_cells set_gauge_def bindm_def modify_def)
qed

text \<open>Whether it raises or not.\<close>

lemma publish_mount_reading:
  "reading (snd (publish_mount now ready pr up works d c))
   = mount_verdict now ready ((case pr of None \<Rightarrow> False | Some p \<Rightarrow> pr_setup_failed p) \<and> works) d"
proof -
  obtain c' where up: "publish_probe_up up c = (Inr (), c')"
    by (cases up) (simp_all add: publish_probe_up_def set_gauge_def clear_gauges_def modify_def)
  show ?thesis
    by (auto simp: publish_mount_def mount_verdict_def clear_mount_gauges_def clear_gauges_def modify_def bindm_def up
        publish_result_reading) (simp_all add: reading_def sentinels_cells)
qed

subsection \<open>A pass over all mounts and nodes\<close>

definition nodes_apart :: "monitor \<Rightarrow> bool" where
  "nodes_apart s \<longleftrightarrow> distinct (map fst (mn_nodes s))"

lemma add_nodes_distinct: "distinct (map fst d) \<Longrightarrow> distinct (map fst (add_nodes pool d ns))"
  unfolding add_nodes_def
  by (induction ns arbitrary: d) (auto simp: map_of_eq_None_iff)

lemma refresh_nodes_apart: "nodes_apart s \<Longrightarrow> nodes_apart (refresh_nodes now k8s prods devs s)"
proof -
  have "distinct (map fst (sort_key fst (add_nodes ''dev'' (add_nodes ''prod'' [] ps) ds)))" for ps ds
    by (metis add_nodes_distinct distinct.simps(1) distinct_map distinct_sort list.map_disc_iff set_sort)
  then show "nodes_apart s \<Longrightarrow> nodes_apart (refresh_nodes now k8s prods devs s)"
    by (auto simp: nodes_apart_def refresh_nodes_def Let_def split: option.split)
qed

text \<open>A loop over labels that are apart changes the gauges at each of them once, and nothing else.\<close>

lemma each_at_labels:
  assumes "distinct (map l xs)" "each (\<lambda>x. bindm (gets (\<lambda>s. k x (mn_results s))) (\<lambda>d. at_labels (l x) (b x d))) xs s = (r, t)"
  shows "(\<exists>g. t = s\<lparr>mn_gauges := g\<rparr>) \<and> (\<forall>y. y \<notin> l ` set xs \<longrightarrow> mn_gauges t y = mn_gauges s y)
    \<and> (r = Inr () \<longrightarrow> (\<forall>x \<in> set xs. mn_gauges t (l x) = snd (b x (k x (mn_results s)) (mn_gauges s (l x)))))"
  using assms
proof (induction xs arbitrary: s)
  case Nil
  then show ?case by (auto simp: ret_def intro: exI [of _ "mn_gauges s"])
next
  case (Cons x xs)
  obtain q c where b: "b x (k x (mn_results s)) (mn_gauges s (l x)) = (q, c)" by fastforce
  let ?s = "s\<lparr>mn_gauges := (mn_gauges s)(l x := c)\<rparr>"
  show ?case
  proof (cases q)
    case (Inl e)
    then show ?thesis using Cons.prems(2) b by (auto simp: bindm_def gets_def at_labels_def)
  next
    case (Inr u)
    then have rest: "each (\<lambda>x. bindm (gets (\<lambda>s. k x (mn_results s))) (\<lambda>d. at_labels (l x) (b x d))) xs ?s = (r, t)"
      using Cons.prems(2) b by (simp add: bindm_def gets_def at_labels_def)
    from Cons.IH [OF _ rest] Cons.prems(1)
    have IH: "\<exists>g. t = ?s\<lparr>mn_gauges := g\<rparr>" "\<And>y. y \<notin> l ` set xs \<Longrightarrow> mn_gauges t y = mn_gauges ?s y"
      "r = Inr () \<Longrightarrow> \<forall>x \<in> set xs. mn_gauges t (l x) = snd (b x (k x (mn_results ?s)) (mn_gauges ?s (l x)))" by (simp_all del: split_paired_All)
    have "l x \<notin> l ` set xs" using Cons.prems(1) by simp
    with IH(2) have "mn_gauges t (l x) = c" by simp
    moreover have "x' \<in> set xs \<Longrightarrow> l x' \<noteq> l x" for x' using \<open>l x \<notin> l ` set xs\<close> by (metis image_eqI)
    ultimately show ?thesis using IH b by (auto simp del: split_paired_All)
  qed
qed

text \<open>The probes a pass goes by: those it listed, or the last list if that is not too old.\<close>

definition probes_at :: "time \<Rightarrow> monitor \<Rightarrow> (probe_key, probe) dict option" where
  "probes_at now s = (if now - mn_probes_at s < POD_CACHE_TTL_S then mn_probes s else None)"

lemma probe_pods_at:
  "probe_pods now listed s = (probes, s') \<Longrightarrow> probes = probes_at now s' \<and> mn_nodes s' = mn_nodes s \<and> mn_gauges s' = mn_gauges s
     \<and> mn_results s' = mn_results s"
  by (auto simp: probe_pods_def probes_at_def POD_CACHE_TTL_S_def split: option.splits if_splits)

text \<open>The nodes on which a Ready probe answered.\<close>

definition answered_nodes :: "pass \<Rightarrow> monitor \<Rightarrow> string set" where
  "answered_nodes p s = (let targets = fetch_targets (mn_nodes s) (probes_at (pa_now p) s); fetched = fetched_from (pa_answers p) targets in
     snd ` fst ` set (filter (\<lambda>(key, _). map_of fetched key \<noteq> None) (filter (\<lambda>(_, pr). pr_ready pr) targets)))"

definition stuck :: "pass \<Rightarrow> monitor \<Rightarrow> probe_key \<Rightarrow> bool" where
  "stuck p s key \<longleftrightarrow> (case Option.bind (probes_at (pa_now p) s) (\<lambda>ps. map_of ps key) of None \<Rightarrow> False | Some pr \<Rightarrow> pr_setup_failed pr)
     \<and> snd key \<in> answered_nodes p s"

lemma distinct_labels:
  "distinct (map fst nodes) \<Longrightarrow> distinct (map (\<lambda>(m, n, pool, ready). (m, n, pool)) (List.product MOUNTS nodes))"
proof -
  assume d: "distinct (map fst nodes)"
  have "inj_on (\<lambda>(m, n, pool, ready). (m, n, pool)) (set MOUNTS \<times> set nodes)"
    using d by (auto simp: inj_on_def distinct_map) (metis fst_conv inj_onD snd_conv)+
  moreover have "distinct (List.product MOUNTS nodes)" using d by (intro distinct_product) (auto simp: MOUNTS_def distinct_map)
  ultimately show ?thesis by (simp add: distinct_map)
qed

lemma refresh_nodes_results [simp]: "mn_results (refresh_nodes now k8s prods devs s) = mn_results s"
  by (simp add: refresh_nodes_def Let_def split: option.split)

definition pass_results :: "pass \<Rightarrow> monitor \<Rightarrow> monitor \<Rightarrow> (probe_key, (string, json) dict) dict" where
  "pass_results p s t = dict_updates (mn_results s)
     (fetched_from (pa_answers p) (fetch_targets (if pa_k8s p then mn_nodes t else []) (probes_at (pa_now p) t)))"

lemma update_metrics_steps:
  assumes run: "update_metrics p s = (r, t)" and k8s: "pa_k8s p" and apart: "nodes_apart s"
  shows "nodes_apart t \<and> mn_results t = pass_results p s t
    \<and> (r = Inr () \<longrightarrow> (\<forall>m \<in> set MOUNTS. \<forall>(n, pool, ready) \<in> set (mn_nodes t).
        reading (mn_gauges t (m, n, pool)) = mount_verdict (pa_now p) ready (stuck p t (sanitized_mount_name m, n))
          (dict_get (mn_results t) (sanitized_mount_name m, n) [])))"
proof -
  let ?s1 = "refresh_nodes (pa_now p) (pa_k8s p) (pa_prod p) (pa_dev p) s"
  obtain probes s2 where s2: "probe_pods (pa_now p) (if pa_k8s p then list_probe_pods (pa_now p) (pa_pods p) else None) ?s1 = (probes, s2)"
    by fastforce
  note pp = probe_pods_at [OF s2]
  let ?nodes = "mn_nodes ?s1" and ?targets = "fetch_targets (mn_nodes ?s1) probes"
  let ?fetched = "fetched_from (pa_answers p) ?targets"
  let ?expected = "filter (\<lambda>(_, pr). pr_ready pr) ?targets"
  let ?answered = "filter (\<lambda>(key, _). map_of ?fetched key \<noteq> None) ?expected"
  let ?s3 = "s2\<lparr>mn_results := dict_updates (mn_results s2) ?fetched\<rparr>"
  let ?working = "snd ` fst ` set ?answered"
  obtain q s4 where s4: "publish_pass (pa_now p) ?nodes probes ?fetched ?working ?s3 = (q, s4)" by fastforce
  have d: "distinct (map fst ?nodes)" using refresh_nodes_apart [OF apart] by (simp add: nodes_apart_def)
  let ?pr = "\<lambda>m n. Option.bind probes (\<lambda>ps. map_of ps (sanitized_mount_name m, n))"
  let ?up = "\<lambda>m n. map_option (\<lambda>_. (case ?pr m n of None \<Rightarrow> False | Some p \<Rightarrow> pr_ready p) \<and> map_of ?fetched (sanitized_mount_name m, n) \<noteq> None) probes"
  have loop: "publish_pass (pa_now p) ?nodes probes ?fetched ?working = each (\<lambda>x. bindm (gets (\<lambda>s. (case x of (m, n, pool, ready) \<Rightarrow>
      dict_get (mn_results s) (sanitized_mount_name m, n) []))) (\<lambda>d. at_labels (case x of (m, n, pool, ready) \<Rightarrow> (m, n, pool))
      (case x of (m, n, pool, ready) \<Rightarrow> publish_mount (pa_now p) ready (?pr m n) (?up m n) (n \<in> ?working) d))) (List.product MOUNTS ?nodes)"
    unfolding publish_pass_def Let_def each_nested by (intro arg_cong2 [where f = each] ext refl) (simp split: prod.split)
  from each_at_labels [OF distinct_labels [OF d], of "\<lambda>x rs. case x of (m, n, pool, ready) \<Rightarrow> dict_get rs (sanitized_mount_name m, n) []"
      "\<lambda>x d. case x of (m, n, pool, ready) \<Rightarrow> publish_mount (pa_now p) ready (?pr m n) (?up m n) (n \<in> ?working) d"] s4
  have fin: "(\<exists>g. s4 = ?s3\<lparr>mn_gauges := g\<rparr>) \<and> (q = Inr () \<longrightarrow> (\<forall>m \<in> set MOUNTS. \<forall>(n, pool, ready) \<in> set ?nodes.
      mn_gauges s4 (m, n, pool) = snd (publish_mount (pa_now p) ready (?pr m n) (?up m n) (n \<in> ?working)
        (dict_get (mn_results ?s3) (sanitized_mount_name m, n) []) (mn_gauges ?s3 (m, n, pool)))))"
    unfolding loop by (fastforce split: prod.splits)
  have t: "mn_nodes t = ?nodes" "mn_probes_at t = mn_probes_at s2" "mn_probes t = mn_probes s2" "mn_results t = mn_results ?s3"
    "mn_gauges t = mn_gauges s4" "r = Inr () \<longrightarrow> q = Inr ()"
    using run s2 s4 fin k8s pp
    by (auto simp: update_metrics_def bindm_def modify_def gets_def asks_def Let_def split: sum.splits prod.splits)
  then have probes: "probes = probes_at (pa_now p) t" using pp by (simp add: probes_at_def)
  have working: "n \<in> ?working \<longleftrightarrow> n \<in> answered_nodes p t" for n
    by (simp only: answered_nodes_def t probes Let_def)
  have "reading (mn_gauges t (m, n, pool)) = mount_verdict (pa_now p) ready (stuck p t (sanitized_mount_name m, n))
      (dict_get (mn_results t) (sanitized_mount_name m, n) [])"
    if "r = Inr ()" "m \<in> set MOUNTS" "(n, pool, ready) \<in> set (mn_nodes t)" for m n pool ready
  proof -
    have "mn_gauges t (m, n, pool) = snd (publish_mount (pa_now p) ready (?pr m n) (?up m n) (n \<in> ?working)
        (dict_get (mn_results ?s3) (sanitized_mount_name m, n) []) (mn_gauges ?s3 (m, n, pool)))"
    proof -
      have "q = Inr ()" using that(1) t(6) by blast
      with fin that(2) have "case (n, pool, ready) of (n, pool, ready) \<Rightarrow> mn_gauges s4 (m, n, pool) = snd (publish_mount (pa_now p) ready
          (?pr m n) (?up m n) (n \<in> ?working) (dict_get (mn_results ?s3) (sanitized_mount_name m, n) []) (mn_gauges ?s3 (m, n, pool)))"
        using that(3) unfolding t(1) by blast
      then show ?thesis unfolding t(5) by simp
    qed
    then have "reading (mn_gauges t (m, n, pool)) = mount_verdict (pa_now p) ready ((case ?pr m n of None \<Rightarrow> False | Some p \<Rightarrow> pr_setup_failed p)
        \<and> n \<in> ?working) (dict_get (mn_results ?s3) (sanitized_mount_name m, n) [])" by (simp only: publish_mount_reading)
    then show ?thesis by (simp only: working t(4) stuck_def probes [symmetric] snd_conv)
  qed
  moreover have "nodes_apart t" "mn_results t = pass_results p s t"
    using d t pp k8s by (simp_all add: nodes_apart_def pass_results_def probes [symmetric])
  ultimately show ?thesis by blast
qed

subsection \<open>Every pass of an exporter\<close>

definition exporter_step :: "monitor \<Rightarrow> monitor \<Rightarrow> bool" where
  "exporter_step s t \<longleftrightarrow> (\<exists>p. t = snd (update_metrics p s))"

lemma at_labels_nodes: "holds mn_nodes (at_labels l m)"
  by (simp add: holds_def at_labels_def split: prod.split)

lemma update_metrics_apart: "preserves nodes_apart (update_metrics p)"
proof -
  have "holds mn_nodes (publish_pass now nodes probes fetched working)" for now nodes probes fetched working
    unfolding publish_pass_def Let_def by (intro holds_intros at_labels_nodes)
  then have pass: "preserves nodes_apart (publish_pass now nodes probes fetched working)" for now nodes probes fetched working
    by (rule preserves_holds) (simp add: nodes_apart_def)
  have "preserves nodes_apart (probe_pods now listed)" for now listed
    by (auto simp: preserves_def probe_pods_def nodes_apart_def split: option.split)
  then show ?thesis unfolding update_metrics_def Let_def
    by (intro pres_intros pass refresh_nodes_apart) (simp_all add: nodes_apart_def)
qed

interpretation exporter: machine "\<lambda>s. mn_nodes s = []" exporter_step nodes_apart
  by unfold_locales (auto simp: exporter_step_def nodes_apart_def intro!: preservesD [OF update_metrics_apart, unfolded nodes_apart_def])

text \<open>
  C18: after a pass the gauges of every mount on every node of the facility say what they are to. Whatever passes came
  before, when a pass ends \<open>af_node_mount_valid\<close> and \<open>af_node_mount_result_fresh\<close> together read: nothing for a node
  that is not Ready; failing for a probe that cannot mount its volume while a sibling on the node answers; unknown
  without a result, with one that has no usable date and with a good one that is older than half an hour; failing for
  a failed check, however old; and green only for a good and recent one.
\<close>

theorem exporter_verdicts:
  assumes "mn_nodes s0 = []" "exporter_step\<^sup>*\<^sup>* s0 s" "update_metrics p s = (Inr (), t)" "pa_k8s p"
    "m \<in> set MOUNTS" "(n, pool, ready) \<in> set (mn_nodes t)"
  shows "reading (mn_gauges t (m, n, pool)) = mount_verdict (pa_now p) ready (stuck p t (sanitized_mount_name m, n))
    (dict_get (mn_results t) (sanitized_mount_name m, n) [])"
  using update_metrics_steps [OF assms(3,4) exporter.reachable_inv [OF assms(1,2)]] assms(5,6) by blast

definition empty_monitor :: monitor where
  "empty_monitor = \<lparr>mn_gauges = \<lambda>_ _. None, mn_nodes = [], mn_refreshed = 0, mn_pools = [], mn_probes = None, mn_probes_at = 0,
     mn_results = [], mn_available = 1\<rparr>"

definition example_pod :: "string \<Rightarrow> probe_pod" where
  "example_pod mount = \<lparr>pd_mount = mount, pd_node = ''n1'', pd_deleted = False, pd_created = Some 0, pd_ports = [[(''http'', 8081)]],
     pd_status = Some \<lparr>ps_phase = ''Running'', ps_conditions = [(''Ready'', ''True'')], ps_ip = mount, ps_containers = []\<rparr>\<rparr>"

definition example_pass :: pass where
  "example_pass = \<lparr>pa_now = 10000, pa_k8s = True, pa_prod = Some [\<lparr>nd_name = ''n1'', nd_conditions = [(''Ready'', ''True'')]\<rparr>],
     pa_dev = Some [], pa_pods = Some [example_pod ''depot'', example_pod ''eos''],
     pa_answers = (\<lambda>ip port. if ip = ''depot'' then Some (result_json 9990 True False (JNum 3) (JNum 4) JNull JNull ''n1'')
       else Some (result_json 9990 False True JNull JNull JNull JNull ''n1''))\<rparr>"

theorem exporter_verdicts_witness:
  "\<exists>t. update_metrics example_pass empty_monitor = (Inr (), t) \<and> reading (mn_gauges t (''/depot/'', ''n1'', ''prod'')) = Green
     \<and> reading (mn_gauges t (''eos'', ''n1'', ''prod'')) = Failing"
proof -
  let ?t = "snd (update_metrics example_pass empty_monitor)"
  have "fst (update_metrics example_pass empty_monitor) = Inr ()" by code_simp
  then have run: "update_metrics example_pass empty_monitor = (Inr (), ?t)" by (simp add: prod_eq_iff)
  have node: "(''n1'', ''prod'', True) \<in> set (mn_nodes ?t)" "pa_k8s example_pass" "''/depot/'' \<in> set MOUNTS" "''eos'' \<in> set MOUNTS"
    "mn_nodes empty_monitor = []" by code_simp+
  have "mount_verdict (pa_now example_pass) True (stuck example_pass ?t (sanitized_mount_name ''/depot/'', ''n1''))
      (dict_get (mn_results ?t) (sanitized_mount_name ''/depot/'', ''n1'') []) = Green" by code_simp
  moreover have "mount_verdict (pa_now example_pass) True (stuck example_pass ?t (sanitized_mount_name ''eos'', ''n1''))
      (dict_get (mn_results ?t) (sanitized_mount_name ''eos'', ''n1'') []) = Failing" by code_simp
  ultimately show ?thesis
    using run exporter_verdicts [OF node(5) rtranclp.rtrancl_refl run node(2,3,1)]
      exporter_verdicts [OF node(5) rtranclp.rtrancl_refl run node(2,4,1)] by metis
qed

end
