(* ===== verification/Node_Site.thy ===== *)
theory Node_Site
  imports Node_Health
begin

text \<open>
  The probes and the exporter together: agents at their addresses, each running its own check, and an exporter that
  pulls what they serve. A step is a cycle of one agent, a restart of its container, a new pod at its address, or a
  pass of the exporter. What the exporter shows green is followed back to the commands that ran on the mount.
\<close>

declare split_paired_All [simp del] split_paired_Ex [simp del]

record site =
  st_agents :: "string \<times> int \<Rightarrow> agent"
  st_monitor :: monitor

text \<open>The check that an agent runs, by its address: the world its commands run in, and its settings.\<close>

type_synonym 'w checks = "string \<times> int \<Rightarrow> 'w runner_env \<times> runner"

definition runs_check :: "'w checks \<Rightarrow> string \<times> int \<Rightarrow> json \<Rightarrow> bool" where
  "runs_check checks x j \<longleftrightarrow> (\<exists>prev w w'. runner_main (fst (checks x)) (snd (checks x)) prev w = (Inr j, w'))"

inductive site_step :: "'w checks \<Rightarrow> site \<Rightarrow> site \<Rightarrow> bool" for checks where
  Cycle: "(\<And>j. at_run a = Ended 0 (Holds j) \<Longrightarrow> runs_check checks x j)
    \<Longrightarrow> site_step checks s (s\<lparr>st_agents := (st_agents s)(x := snd (cycle (rn_node (snd (checks x))) a (st_agents s x)))\<rparr>)"
| Restart: "site_step checks s (s\<lparr>st_agents := (st_agents s)(x := start_agent (ag_result (st_agents s x)))\<rparr>)"
| New_pod: "site_step checks s (s\<lparr>st_agents := (st_agents s)(x := start_agent Missing)\<rparr>)"
| Pass: "(\<And>ip port j. pa_answers p ip port = Some j \<Longrightarrow> serve_result ''/result'' (st_agents s (ip, port)) = Some j)
    \<Longrightarrow> site_step checks s (s\<lparr>st_monitor := snd (update_metrics p (st_monitor s))\<rparr>)"

definition site_start :: "site \<Rightarrow> bool" where
  "site_start s \<longleftrightarrow> (\<forall>x. st_agents s x = start_agent Missing) \<and> mn_nodes (st_monitor s) = [] \<and> mn_results (st_monitor s) = []"

subsection \<open>Every good result was earned\<close>

definition earned :: "'w checks \<Rightarrow> string \<times> int \<Rightarrow> json \<Rightarrow> bool" where
  "earned checks x j \<longleftrightarrow> (\<forall>d. j = JObj d \<longrightarrow> says_ok d \<longrightarrow> result_of_check (fst (checks x)) (snd (checks x)) j)"

definition site_honest :: "'w checks \<Rightarrow> site \<Rightarrow> bool" where
  "site_honest checks s \<longleftrightarrow> nodes_apart (st_monitor s)
     \<and> (\<forall>x j. (ag_result (st_agents s x) = Holds j \<or> ag_published (st_agents s x) = Some j) \<longrightarrow> earned checks x j)
     \<and> (\<forall>key d. map_of (mn_results (st_monitor s)) key = Some d \<longrightarrow> (\<exists>x. earned checks x (JObj d)))"

lemma runs_check_earned: "runs_check checks x j \<Longrightarrow> earned checks x j"
  unfolding runs_check_def earned_def by (blast dest: yieldsD [OF runner_main_result])

lemma attempt_verdict_earned:
  assumes "attempt_verdict node a f = Some j" "\<And>j. at_run a = Ended 0 (Holds j) \<Longrightarrow> runs_check checks x j"
  shows "earned checks x j"
proof (cases "at_run a")
  case (Deadline now)
  then have "\<exists>rate since. j = result_json now False True JNull JNull rate since node"
    using assms(1) by (auto simp: attempt_verdict_def timeout_result_def split: if_splits sum.splits)
  then show ?thesis by (auto simp: earned_def result_json_def says_ok_def)
next
  case (Ended code g)
  then have "at_run a = Ended 0 (Holds j)"
    using assms(1) by (auto simp: attempt_verdict_def split: if_splits disk_file.splits json.splits)
  from runs_check_earned [OF assms(2) [OF this]] show ?thesis .
qed (use assms(1) in \<open>auto simp: attempt_verdict_def split: if_splits\<close>)

lemma honest_agent: "site_honest checks s \<Longrightarrow> ag_result (st_agents s x) = Holds j \<or> ag_published (st_agents s x) = Some j \<Longrightarrow> earned checks x j"
  unfolding site_honest_def by blast

lemma honest_result: "site_honest checks s \<Longrightarrow> map_of (mn_results (st_monitor s)) key = Some d \<Longrightarrow> \<exists>x. earned checks x (JObj d)"
  unfolding site_honest_def by blast

lemma agent_step_honest:
  assumes "site_honest checks s" "\<And>j. ag_result g = Holds j \<or> ag_published g = Some j \<Longrightarrow> earned checks x j"
  shows "site_honest checks (s\<lparr>st_agents := (st_agents s)(x := g)\<rparr>)"
  using assms by (auto simp: site_honest_def)

lemma started_agent: "ag_result (start_agent f) = Holds j \<or> ag_published (start_agent f) = Some j
    \<Longrightarrow> f = Holds j"
  by (auto simp: start_agent_def load_json_def Let_def split: disk_file.splits if_splits)

text \<open>What the exporter has of a probe it has had before, or a probe served it in this pass.\<close>

lemma map_of_dict_updates:
  "map_of (dict_updates d new) k = Some v \<Longrightarrow> map_of d k = Some v \<or> (k, v) \<in> set new"
  unfolding dict_updates_def
proof (induction new arbitrary: d)
  case (Cons x new)
  obtain a b where x: "x = (a, b)" by (cases x)
  from Cons.prems have "map_of (foldl (\<lambda>d (k, v). AList.update k v d) (AList.update a b d) new) k = Some v" by (simp add: x)
  from Cons.IH [OF this] show ?case by (auto simp: x update_conv' split: if_splits)
qed simp

lemma fetched_served:
  "(key, d) \<in> set (fetched_from answers targets) \<Longrightarrow> \<exists>ip port. answers ip port = Some (JObj d)"
  unfolding fetched_from_def map_filter_def by (clarsimp split: option.splits json.splits) blast

lemma update_metrics_results:
  assumes "map_of (mn_results (snd (update_metrics p s))) key = Some d"
  shows "map_of (mn_results s) key = Some d \<or> (\<exists>ip port. pa_answers p ip port = Some (JObj d))"
proof -
  let ?I = "\<lambda>t. \<forall>key d. map_of (mn_results t) key = Some d \<longrightarrow> map_of (mn_results s) key = Some d
    \<or> (\<exists>ip port. pa_answers p ip port = Some (JObj d))"
  have "holds mn_results (publish_pass now nodes probes fetched working)" for now nodes probes fetched working
    unfolding publish_pass_def Let_def by (intro holds_intros) (simp add: holds_def at_labels_def split: prod.split)
  then have pass: "preserves ?I (publish_pass now nodes probes fetched working)" for now nodes probes fetched working
    by (rule preserves_holds) simp
  have pods: "preserves ?I (probe_pods now listed)" for now listed
    by (auto simp: preserves_def probe_pods_def split: option.split)
  have "preserves ?I (update_metrics p)"
    unfolding update_metrics_def Let_def
    by (intro pres_intros pass pods) (auto dest!: map_of_dict_updates dest: fetched_served)
  from preservesD [OF this, of s] assms show ?thesis by blast
qed

lemma pass_honest:
  assumes "site_honest checks s"
    "\<And>ip port j. pa_answers p ip port = Some j \<Longrightarrow> serve_result ''/result'' (st_agents s (ip, port)) = Some j"
  shows "site_honest checks (s\<lparr>st_monitor := snd (update_metrics p (st_monitor s))\<rparr>)"
proof -
  have "\<exists>x. earned checks x (JObj d)" if "map_of (mn_results (snd (update_metrics p (st_monitor s)))) key = Some d" for key d
    using update_metrics_results [OF that]
  proof
    assume "\<exists>ip port. pa_answers p ip port = Some (JObj d)"
    then obtain ip port where "pa_answers p ip port = Some (JObj d)" by blast
    from assms(2) [OF this] have "ag_published (st_agents s (ip, port)) = Some (JObj d)" by (simp add: serve_result_def)
    with honest_agent [OF assms(1)] show ?thesis by blast
  qed (rule honest_result [OF assms(1)])
  then show ?thesis
    using assms(1) preservesD [OF update_metrics_apart, of "st_monitor s" p] by (auto simp: site_honest_def)
qed

lemma site_step_honest:
  assumes "site_step checks s t" "site_honest checks s"
  shows "site_honest checks t"
  using assms
proof (induction rule: site_step.induct)
  case (Cycle a x s)
  have "earned checks x j" if "ag_result (snd (cycle node a (st_agents s x))) = Holds j
      \<or> ag_published (snd (cycle node a (st_agents s x))) = Some j" for node j
  proof (cases "attempt_verdict node a (ag_result (st_agents s x))")
    case None
    then show ?thesis using that honest_agent [OF Cycle(2), of x j] by (simp add: cycle_verdict)
  next
    case (Some j')
    then have "j = j'" using that by (auto simp: cycle_verdict)
    then show ?thesis using attempt_verdict_earned [OF Some Cycle(1)] by blast
  qed
  then show ?case by (intro agent_step_honest [OF Cycle(2)])
next
  case (Restart s x)
  show ?case by (intro agent_step_honest [OF Restart] honest_agent [OF Restart]) (rule disjI1, erule started_agent)
next
  case (New_pod s x)
  then show ?case by (intro agent_step_honest) (auto dest!: started_agent)
next
  case (Pass p s)
  then show ?case by (intro pass_honest)
qed

interpretation site: machine site_start "site_step checks" "site_honest checks" for checks :: "'w checks"
proof
  have "\<not> (ag_result (start_agent Missing) = Holds j \<or> ag_published (start_agent Missing) = Some j)" for j
    using started_agent [of Missing j] by blast
  then show "site_start s \<Longrightarrow> site_honest checks s" for s
    by (auto simp: site_start_def site_honest_def nodes_apart_def)
qed (rule site_step_honest)

subsection \<open>Green means checked\<close>

lemma checked_result:
  assumes "result_of_check env cfg (JObj d)" "says_ok d"
  shows "ping_good env cfg \<and> metadata_good env cfg \<and> (\<exists>t. timestamp_of d = Fin t \<and> clocked_at env t)"
  using assms by (auto simp: result_of_check_def result_json_def says_ok_def timestamp_of_def as_float_def)

lemma green_result:
  assumes "mount_verdict now ready st d = Green"
  shows "ready \<and> says_ok d \<and> (\<forall>t. timestamp_of d = Fin t \<longrightarrow> now - RESULT_STALE_WINDOW_S \<le> t \<and> t \<le> now + CLOCK_SKEW_TOLERANCE_S)"
  using assms by (auto simp: mount_verdict_def undated_def split: if_splits)


definition example_checks :: "unit checks" where
  "example_checks x = (\<lparr>re_time = (\<lambda>w. (9990, w)), re_run = (\<lambda>cmd limit w. (Exited 0 [] [], w)), re_uniform = (\<lambda>a b w. (a, w))\<rparr>,
     \<lparr>rn_check_file = ''/depot/check'', rn_checksum = [], rn_metadata_dir = ''/depot'', rn_fio_file = [], rn_enable_fio = False,
      rn_ping_timeout = 3, rn_metadata_timeout = 10, rn_fio_timeout = 120, rn_fio_interval = 1800, rn_fio_tolerance = 60, rn_node = ''n1''\<rparr>)"

definition example_result :: json where
  "example_result = result_json 9990 True False (JNum 0) (JNum 0) JNull JNull ''n1''"

definition site_pass :: pass where
  "site_pass = example_pass\<lparr>pa_pods := Some [example_pod ''depot''],
     pa_answers := (\<lambda>ip port. if ip = ''depot'' \<and> port = 8081 then Some example_result else None)\<rparr>"


end
