(* ===== verification/Mattermost_Text.thy ===== *)
theory Mattermost_Text
  imports Py_Json
begin

text \<open>
  What the Mattermost agent (\<open>src/apps/mattermost-agent/agent.py\<close>) reads and writes: posts, the regular expressions
  by which it finds mentions, codes and intents in them, and \<open>clean\<close>, which makes a text fit to be posted.

  Text has the characters up to code point 255. The zero width space that \<open>clean\<close> puts after an at sign is written as the
  soft hyphen, the invisible character within them, which like it is no word character.
\<close>

subsection \<open>Word characters, and the regular expressions\<close>

text \<open>\<open>\w\<close> of \<open>re\<close>: letters, numbers and the underscore.\<close>

definition py_word :: "char \<Rightarrow> bool" where
  "py_word c = (let n = (of_char c :: nat) in
     48 \<le> n \<and> n \<le> 57 \<or> 65 \<le> n \<and> n \<le> 90 \<or> 97 \<le> n \<and> n \<le> 122 \<or> n \<in> {95, 170, 178, 179, 181, 185, 186, 188, 189, 190}
     \<or> 192 \<le> n \<and> n \<noteq> 215 \<and> n \<noteq> 247)"

definition at_sign :: char where "at_sign = CHR ''@''"

definition ZERO_WIDTH :: char where "ZERO_WIDTH = CHR 0xAD"

definition MAX_POST_CHARS :: int where "MAX_POST_CHARS = 4000"

text \<open>\<open>AT_NAME\<close>, \<open>(?<![\w.])@(?=[\w.-])\<close>: what may stand before, and what must come next.\<close>

definition bars_name :: "char option \<Rightarrow> bool" where
  "bars_name p = (case p of None \<Rightarrow> False | Some c \<Rightarrow> py_word c \<or> c = CHR ''.'')"

definition starts_name :: "string \<Rightarrow> bool" where
  "starts_name s = (case s of [] \<Rightarrow> False | c # _ \<Rightarrow> py_word c \<or> c = CHR ''.'' \<or> c = CHR ''-'')"

fun at_name_search :: "char option \<Rightarrow> string \<Rightarrow> bool" where
  "at_name_search p [] = False"
| "at_name_search p (c # s) = (c = at_sign \<and> \<not> bars_name p \<and> starts_name s \<or> at_name_search (Some c) s)"

fun at_name_sub :: "char option \<Rightarrow> string \<Rightarrow> string" where
  "at_name_sub p [] = []"
| "at_name_sub p (c # s) = (if c = at_sign \<and> \<not> bars_name p \<and> starts_name s then [at_sign, ZERO_WIDTH] else [c]) @ at_name_sub (Some c) s"

definition clean_text :: "string \<Rightarrow> string" where
  "clean_text t = first_of MAX_POST_CHARS (at_name_sub None (strip_of py_space t))"

text \<open>
  The bot's \<open>mention\<close>, \<open>(?<![\w.-])@name(?![\w-])\<close> in any case: \<open>search\<close>, and \<open>sub("", ...)\<close>, which goes on after each match.
\<close>

definition mention_at :: "string \<Rightarrow> char option \<Rightarrow> string \<Rightarrow> bool" where
  "mention_at name p s \<longleftrightarrow> (case p of None \<Rightarrow> True | Some c \<Rightarrow> \<not> (py_word c \<or> c = CHR ''.'' \<or> c = CHR ''-''))
     \<and> lower (take (length name + 1) s) = at_sign # lower name
     \<and> (case drop (length name + 1) s of [] \<Rightarrow> True | c # _ \<Rightarrow> \<not> (py_word c \<or> c = CHR ''-''))"

fun mention_search :: "string \<Rightarrow> char option \<Rightarrow> string \<Rightarrow> bool" where
  "mention_search name p [] = False"
| "mention_search name p (c # s) = (mention_at name p (c # s) \<or> mention_search name (Some c) s)"

function mention_sub :: "string \<Rightarrow> char option \<Rightarrow> string \<Rightarrow> string" where
  "mention_sub name p [] = []"
| "mention_sub name p (c # s) =
     (if mention_at name p (c # s) then mention_sub name (Some (last (take (length name + 1) (c # s)))) (drop (length name) s)
      else c # mention_sub name (Some c) s)"
  by pat_completeness auto
termination by (relation "measure (\<lambda>(_, _, s). length s)") auto

definition CODE_LETTERS :: string where "CODE_LETTERS = ''ABCDEFGHJKMNPQRSTUVWXYZ23456789''"
definition CODE_LENGTH :: nat where "CODE_LENGTH = 8"

text \<open>\<open>CODE_MESSAGE.match\<close>; the dollar sign also matches before a last line break.\<close>

definition code_message :: "string \<Rightarrow> bool" where
  "code_message s \<longleftrightarrow> CODE_LENGTH \<le> length s \<and> (\<forall>c \<in> set (take CODE_LENGTH s). c \<in> set CODE_LETTERS) \<and> drop CODE_LENGTH s \<in> {[], [newline]}"

definition INTENTS :: "string list" where "INTENTS = [''link'', ''unlink'', ''personal'', ''general'']"

text \<open>\<open>INTENT.match\<close>, \<open>\W*(link|unlink|personal|general)\b\<close> in any case, and the word it found, in lower case.\<close>

definition intent_match :: "string \<Rightarrow> string option" where
  "intent_match s = (let t = lower (dropWhile (\<lambda>c. \<not> py_word c) s) in
     List.find (\<lambda>w. prefix w t \<and> (case drop (length w) t of [] \<Rightarrow> True | c # _ \<Rightarrow> \<not> py_word c)) INTENTS)"

text \<open>
  \<open>DOC_TITLE.search\<close>, \<open>^#\s+(.+)$\<close> at the start of any line. The white space may go on over line breaks; where nothing else
  follows, the title is what stands after its last character that can begin one.
\<close>

definition title_after :: "string \<Rightarrow> string option" where
  "title_after s = (let w = takeWhile (\<lambda>c. c \<in> py_space) s; r = dropWhile (\<lambda>c. c \<in> py_space) s in
     if w = [] then None
     else if r \<noteq> [] then Some (takeWhile (\<lambda>c. c \<noteq> newline) r)
     else map_option (\<lambda>k. takeWhile (\<lambda>c. c \<noteq> newline) (drop k w))
       (List.find (\<lambda>k. w ! k \<noteq> newline) (rev [1..<length w])))"

fun doc_title :: "bool \<Rightarrow> string \<Rightarrow> string option" where
  "doc_title start [] = None"
| "doc_title start (c # s) =
     (case (if start \<and> c = CHR ''#'' then title_after s else None) of
        Some t \<Rightarrow> Some t
      | None \<Rightarrow> doc_title (c = newline) s)"

text \<open>\<open>Docs\<close>: the pages by name, in order, with their text.\<close>

definition docs_index :: "(string, string) dict \<Rightarrow> string" where
  "docs_index pages = join_with newline (map (\<lambda>(name, t). ''- '' @ name @ '': '' @ (case doc_title True t of Some x \<Rightarrow> x | None \<Rightarrow> name)) pages)"

subsection \<open>Posts\<close>

record post =
  p_id :: string
  p_user :: string
  p_channel :: string
  p_root :: string
  p_message :: string
  p_type :: string
  p_create :: int
  p_update :: int
  p_delete :: int
  p_from_bot :: string

text \<open>\<open>p_from_bot\<close> is \<open>str\<close> of that entry of the post's \<open>props\<close>, empty where there is none. The bot itself:\<close>

record bot =
  me_id :: string
  me_name :: string

definition mentions :: "bot \<Rightarrow> string \<Rightarrow> bool" where
  "mentions me s = mention_search (me_name me) None s"

definition text_said :: "bot \<Rightarrow> post \<Rightarrow> string" where
  "text_said me p = mention_sub (me_name me) None (p_message p)"

definition by_a_person :: "bot \<Rightarrow> post \<Rightarrow> int \<Rightarrow> bool" where
  "by_a_person me p cursor \<longleftrightarrow> cursor < p_create p \<and> p_delete p = 0 \<and> p_type p = [] \<and> p_user p \<noteq> me_id me
     \<and> lower (p_from_bot p) \<noteq> ''true''"

definition wanted :: "bot \<Rightarrow> string set \<Rightarrow> post \<Rightarrow> int \<Rightarrow> bool" where
  "wanted me direct p cursor \<longleftrightarrow> by_a_person me p cursor \<and> (p_channel p \<in> direct \<or> mentions me (p_message p))"

subsection \<open>What is posted pings nobody\<close>

lemma not_word [simp]: "\<not> py_word (CHR ''@'')" "\<not> py_word (CHR 0xAD)"
  by (simp_all add: py_word_def)

lemma starts_name_sub: "starts_name (at_name_sub p s) = starts_name s"
  by (cases s) (auto simp: starts_name_def at_sign_def)

lemma sub_clears: "\<not> at_name_search p (at_name_sub p s)"
proof (induction p s rule: at_name_sub.induct)
  case (2 p c s)
  have z: "\<not> bars_name (Some ZERO_WIDTH)" "ZERO_WIDTH \<noteq> at_sign" "\<not> starts_name (ZERO_WIDTH # t)" for t
    by (simp_all add: bars_name_def starts_name_def ZERO_WIDTH_def at_sign_def)
  show ?case
  proof (cases "c = at_sign \<and> \<not> bars_name p \<and> starts_name s")
    case True
    then obtain d s' where s: "s = d # s'" by (cases s) (auto simp: starts_name_def)
    then have "d \<noteq> at_sign" using True by (auto simp: starts_name_def at_sign_def)
    with s have "\<not> at_name_search (Some ZERO_WIDTH) (at_name_sub (Some c) s)"
      using 2 by simp
    with True z show ?thesis by simp
  next
    case False
    with 2 show ?thesis by (auto simp: starts_name_sub)
  qed
qed simp

lemma at_name_search_take: "at_name_search p (take n s) \<Longrightarrow> at_name_search p s"
proof (induction p s arbitrary: n rule: at_name_search.induct)
  case (2 p c s)
  have "starts_name (take m s) \<Longrightarrow> starts_name s" for m by (cases s; cases m) (auto simp: starts_name_def)
  with 2 show ?case by (cases n) auto
qed simp

lemma clean_pings_nobody: "\<not> at_name_search None (clean_text t)"
  using at_name_search_take sub_clears unfolding clean_text_def first_of_take by blast

lemma clean_short: "int (length (clean_text t)) \<le> MAX_POST_CHARS"
  by (simp add: clean_text_def first_of_take MAX_POST_CHARS_def)

end
