(* ===== verification/Mattermost_Linking.thy ===== *)
theory Mattermost_Linking
  imports AF_Prelude
begin

text \<open>
  \<open>Linking\<close> of \<open>src/apps/mattermost-agent/agent.py\<close>: who on Mattermost is who on the Hub. A person asks for a link,
  opens it, logs in to the Hub, gets a code and sends the code back; only then is a token kept for them.

  The time, the random states and codes, and the answers of the Hub are arguments. An operation that awaits the Hub is
  two steps, before the call and after it, between which any other step may come. The file on the volume is the part of
  the state that \<open>save\<close> last wrote; its encryption is left out.
\<close>

definition LINK_SECONDS :: rat where "LINK_SECONDS = 24 * 3600"
definition TOKEN_SECONDS :: rat where "TOKEN_SECONDS = 30 * 24 * 3600"
definition CODE_SECONDS :: rat where "CODE_SECONDS = 600"
definition CODE_ATTEMPTS :: nat where "CODE_ATTEMPTS = 3"

record link_entry =
  le_token :: string
  le_token_id :: string
  le_hub_user :: string
  le_expires :: time

record pending_link =
  pl_user :: string
  pl_expires :: time

record code_entry =
  ce_code :: string
  ce_oauth_token :: string
  ce_hub_user :: string
  ce_expires :: time
  ce_attempts :: nat

type_synonym saved_links = "(string, link_entry) dict \<times> (string, pending_link) dict"

record linking =
  lk_linked :: "(string, link_entry) dict"
  lk_pending :: "(string, pending_link) dict"
  lk_codes :: "(string, code_entry) dict"
  lk_file :: "saved_links option"

definition new_linking :: "saved_links option \<Rightarrow> linking" where
  "new_linking f = (case f of None \<Rightarrow> \<lparr>lk_linked = [], lk_pending = [], lk_codes = [], lk_file = None\<rparr>
     | Some (l, p) \<Rightarrow> \<lparr>lk_linked = l, lk_pending = p, lk_codes = [], lk_file = f\<rparr>)"

definition save_links :: "linking \<Rightarrow> linking" where
  "save_links s = s\<lparr>lk_file := Some (lk_linked s, lk_pending s)\<rparr>"

definition forget_link :: "string \<Rightarrow> linking \<Rightarrow> linking" where
  "forget_link user s = (if map_of (lk_linked s) user = None then s
     else save_links (s\<lparr>lk_linked := AList.delete user (lk_linked s)\<rparr>))"

definition link_token :: "time \<Rightarrow> string \<Rightarrow> linking \<Rightarrow> string option \<times> linking" where
  "link_token now user s = (case map_of (lk_linked s) user of
     None \<Rightarrow> (None, s)
   | Some e \<Rightarrow> if now < le_expires e then (Some (le_token e), s) else (None, forget_link user s))"

definition link_until :: "time \<Rightarrow> string \<Rightarrow> linking \<Rightarrow> time option \<times> linking" where
  "link_until now user s = (let (t, s') = link_token now user s in
     (if t = None then None else map_option le_expires (map_of (lk_linked s') user), s'))"

definition link_count :: "time \<Rightarrow> linking \<Rightarrow> nat" where
  "link_count now s = length (filter (\<lambda>(_, e). now < le_expires e) (lk_linked s))"

text \<open>\<open>link_url\<close>, with the random state of the new link.\<close>

definition link_url :: "time \<Rightarrow> string \<Rightarrow> string \<Rightarrow> linking \<Rightarrow> linking" where
  "link_url now state user s = save_links (s\<lparr>lk_pending := AList.update state \<lparr>pl_user = user, pl_expires = now + LINK_SECONDS\<rparr>
     (filter (\<lambda>(_, e). pl_user e \<noteq> user \<and> now < pl_expires e) (lk_pending s))\<rparr>)"

definition link_valid :: "time \<Rightarrow> string \<Rightarrow> linking \<Rightarrow> bool" where
  "link_valid now state s = (case map_of (lk_pending s) state of None \<Rightarrow> False | Some e \<Rightarrow> now < pl_expires e)"

text \<open>\<open>login\<close>: the link is taken up; then, if the Hub says whose login it was, a code is made.\<close>

definition login_take :: "time \<Rightarrow> string \<Rightarrow> linking \<Rightarrow> string option \<times> linking" where
  "login_take now state s =
     (if link_valid now state s
      then (map_option pl_user (map_of (lk_pending s) state), save_links (s\<lparr>lk_pending := AList.delete state (lk_pending s)\<rparr>))
      else (None, s))"

definition login_code :: "time \<Rightarrow> string \<Rightarrow> string \<Rightarrow> string option \<Rightarrow> string \<Rightarrow> linking \<Rightarrow> string option \<times> linking" where
  "login_code now user oauth_token hub_user confirmation s = (case hub_user of
     None \<Rightarrow> (None, s)
   | Some h \<Rightarrow> (Some confirmation, s\<lparr>lk_codes := AList.update user \<lparr>ce_code = confirmation, ce_oauth_token = oauth_token,
       ce_hub_user = h, ce_expires = now + CODE_SECONDS, ce_attempts = 0\<rparr> (lk_codes s)\<rparr>))"

definition login :: "time \<Rightarrow> string \<Rightarrow> time \<Rightarrow> string \<Rightarrow> string option \<Rightarrow> string \<Rightarrow> linking \<Rightarrow> string option \<times> linking" where
  "login now state later oauth_token hub_user confirmation s = (case login_take now state s of
     (None, s') \<Rightarrow> (None, s')
   | (Some user, s') \<Rightarrow> login_code later user oauth_token hub_user confirmation s')"

text \<open>\<open>confirm\<close>: a code that is right is used up; then the token the Hub mints is kept.\<close>

definition confirm_code :: "time \<Rightarrow> string \<Rightarrow> string \<Rightarrow> linking \<Rightarrow> code_entry option \<times> linking" where
  "confirm_code now user code s = (case map_of (lk_codes s) user of
     None \<Rightarrow> (None, s\<lparr>lk_codes := AList.delete user (lk_codes s)\<rparr>)
   | Some e \<Rightarrow>
     if now \<ge> ce_expires e then (None, s\<lparr>lk_codes := AList.delete user (lk_codes s)\<rparr>)
     else if ce_code e \<noteq> code then
       let n = ce_attempts e + 1 in
       (None, s\<lparr>lk_codes := (if n \<ge> CODE_ATTEMPTS then AList.delete user (lk_codes s)
          else AList.update user (e\<lparr>ce_attempts := n\<rparr>) (lk_codes s))\<rparr>)
     else (Some e, s\<lparr>lk_codes := AList.delete user (lk_codes s)\<rparr>))"

definition confirm_mint :: "time \<Rightarrow> string \<Rightarrow> string \<Rightarrow> string \<Rightarrow> string \<Rightarrow> linking \<Rightarrow> linking" where
  "confirm_mint minted_at user hub_user token token_id s = save_links (s\<lparr>lk_linked := AList.update user
     \<lparr>le_token = token, le_token_id = token_id, le_hub_user = hub_user, le_expires = minted_at + TOKEN_SECONDS\<rparr>
     (filter (\<lambda>(_, e). le_hub_user e \<noteq> hub_user) (lk_linked s))\<rparr>)"

text \<open>The whole of it, with what the Hub answers: a token and its ID, or no answer, which raises.\<close>

definition confirm :: "time \<Rightarrow> string \<Rightarrow> string \<Rightarrow> time \<Rightarrow> (string \<times> string) option \<Rightarrow> linking
    \<Rightarrow> (string + string option) \<times> linking" where
  "confirm now user code later minted s = (case confirm_code now user code s of
     (None, s') \<Rightarrow> (Inr None, s')
   | (Some e, s') \<Rightarrow> (case minted of
       None \<Rightarrow> (Inl ''HTTPStatusError'', s')
     | Some (token, token_id) \<Rightarrow> (Inr (Some (ce_hub_user e)), confirm_mint later user (ce_hub_user e) token token_id s')))"

subsection \<open>Everyone who links, at once\<close>

text \<open>
  What happened so far: a person asked for a link in a direct message, a link was taken up by a login, the code of that
  login was shown to the one who logged in to the Hub, a person sent a code that was right, and a token was kept.
\<close>

datatype link_event =
    Asked string string time
  | Taken string time
  | Shown string string string time
  | Sent string string time

record link_system =
  ls_links :: linking
  ls_now :: time
  ls_logins :: "(string \<times> string) list"
  ls_mints :: "(string \<times> string) list"
  ls_trace :: "link_event list"

text \<open>
  Any person may ask, open any link, log in as whoever they are on the Hub, and send any code. \<open>Login_done\<close> is the
  login of \<open>h\<close> at the Hub.
\<close>

inductive link_step :: "link_system \<Rightarrow> link_system \<Rightarrow> bool" where
  Ask: "ls_now s \<le> now \<Longrightarrow> \<forall>u t. Asked u state t \<notin> set (ls_trace s)
    \<Longrightarrow> link_step s (s\<lparr>ls_now := now, ls_links := link_url now state user (ls_links s), ls_trace := Asked user state now # ls_trace s\<rparr>)"
| Open_link: "ls_now s \<le> now \<Longrightarrow> login_take now state (ls_links s) = (Some user, l)
    \<Longrightarrow> link_step s (s\<lparr>ls_now := now, ls_links := l, ls_logins := (user, state) # ls_logins s, ls_trace := Taken state now # ls_trace s\<rparr>)"
| Login_done: "ls_now s \<le> now \<Longrightarrow> (user, state) \<in> set (ls_logins s)
    \<Longrightarrow> link_step s (s\<lparr>ls_now := now, ls_links := snd (login_code now user oauth (Some h) c (ls_links s)),
          ls_logins := remove1 (user, state) (ls_logins s), ls_trace := Shown state h c now # ls_trace s\<rparr>)"
| Login_failed: "(user, state) \<in> set (ls_logins s) \<Longrightarrow> link_step s (s\<lparr>ls_logins := remove1 (user, state) (ls_logins s)\<rparr>)"
| Right_code: "ls_now s \<le> now \<Longrightarrow> confirm_code now user c (ls_links s) = (Some e, l)
    \<Longrightarrow> link_step s (s\<lparr>ls_now := now, ls_links := l, ls_mints := (user, ce_hub_user e) # ls_mints s, ls_trace := Sent user c now # ls_trace s\<rparr>)"
| Wrong_code: "ls_now s \<le> now \<Longrightarrow> confirm_code now user c (ls_links s) = (None, l) \<Longrightarrow> link_step s (s\<lparr>ls_now := now, ls_links := l\<rparr>)"
| Mint_done: "ls_now s \<le> now \<Longrightarrow> minted_at \<le> now \<Longrightarrow> (user, h) \<in> set (ls_mints s)
    \<Longrightarrow> link_step s (s\<lparr>ls_now := now, ls_links := confirm_mint minted_at user h token token_id (ls_links s), ls_mints := remove1 (user, h) (ls_mints s)\<rparr>)"
| Mint_failed: "(user, h) \<in> set (ls_mints s) \<Longrightarrow> link_step s (s\<lparr>ls_mints := remove1 (user, h) (ls_mints s)\<rparr>)"
| Use_token: "ls_now s \<le> now \<Longrightarrow> link_step s (s\<lparr>ls_now := now, ls_links := snd (link_token now user (ls_links s))\<rparr>)"
| Unlink: "link_step s (s\<lparr>ls_links := forget_link user (ls_links s)\<rparr>)"
| Restart: "link_step s (s\<lparr>ls_links := new_linking (lk_file (ls_links s)), ls_logins := [], ls_mints := []\<rparr>)"

definition link_start :: "link_system \<Rightarrow> bool" where
  "link_start s \<longleftrightarrow> ls_links s = new_linking None \<and> ls_logins s = [] \<and> ls_mints s = [] \<and> ls_trace s = []"

subsection \<open>How far a link has come\<close>

definition link_asked :: "link_event set \<Rightarrow> time \<Rightarrow> string \<Rightarrow> string \<Rightarrow> time \<Rightarrow> bool" where
  "link_asked E now u state t0 \<longleftrightarrow> Asked u state t0 \<in> E \<and> t0 \<le> now"

definition taken :: "link_event set \<Rightarrow> time \<Rightarrow> string \<Rightarrow> string \<Rightarrow> time \<Rightarrow> bool" where
  "taken E now u state t1 \<longleftrightarrow> (\<exists>t0. link_asked E t1 u state t0 \<and> Taken state t1 \<in> E \<and> t1 < t0 + LINK_SECONDS) \<and> t1 \<le> now"

definition shown :: "link_event set \<Rightarrow> time \<Rightarrow> string \<Rightarrow> string \<Rightarrow> string \<Rightarrow> time \<Rightarrow> bool" where
  "shown E now u h c t2 \<longleftrightarrow> (\<exists>state t1. taken E t2 u state t1 \<and> Shown state h c t2 \<in> E) \<and> t2 \<le> now"

definition proven :: "link_event set \<Rightarrow> string \<Rightarrow> string \<Rightarrow> bool" where
  "proven E u h \<longleftrightarrow> (\<exists>c t2 t3. shown E t3 u h c t2 \<and> Sent u c t3 \<in> E \<and> t3 < t2 + CODE_SECONDS)"

lemmas progress_defs = link_asked_def taken_def shown_def proven_def

lemma progress_mono:
  "E \<subseteq> E' \<Longrightarrow> now \<le> now' \<Longrightarrow> link_asked E now u state t0 \<Longrightarrow> link_asked E' now' u state t0"
  "E \<subseteq> E' \<Longrightarrow> now \<le> now' \<Longrightarrow> taken E now u state t1 \<Longrightarrow> taken E' now' u state t1"
  "E \<subseteq> E' \<Longrightarrow> now \<le> now' \<Longrightarrow> shown E now u h c t2 \<Longrightarrow> shown E' now' u h c t2"
  "E \<subseteq> E' \<Longrightarrow> proven E u h \<Longrightarrow> proven E' u h"
  unfolding progress_defs by (blast intro: order_trans)+

text \<open>What is kept of each person is as far as they came.\<close>

definition links_earned :: "link_event set \<Rightarrow> time \<Rightarrow> linking \<Rightarrow> bool" where
  "links_earned E now l \<longleftrightarrow>
     (\<forall>state p. map_of (lk_pending l) state = Some p \<longrightarrow> (\<exists>t0. link_asked E now (pl_user p) state t0 \<and> pl_expires p = t0 + LINK_SECONDS))
   \<and> (\<forall>u e. map_of (lk_codes l) u = Some e \<longrightarrow> ce_attempts e < CODE_ATTEMPTS
        \<and> (\<exists>t2. shown E now u (ce_hub_user e) (ce_code e) t2 \<and> ce_expires e = t2 + CODE_SECONDS))
   \<and> (\<forall>u e. map_of (lk_linked l) u = Some e \<longrightarrow> proven E u (le_hub_user e) \<and> le_expires e \<le> now + TOKEN_SECONDS)"

definition links_tidy :: "linking \<Rightarrow> bool" where
  "links_tidy l \<longleftrightarrow> distinct (map fst (lk_linked l)) \<and> distinct (map (le_hub_user \<circ> snd) (lk_linked l))
     \<and> distinct (map fst (lk_pending l)) \<and> distinct (map (pl_user \<circ> snd) (lk_pending l))
     \<and> (case lk_file l of None \<Rightarrow> lk_linked l = [] \<and> lk_pending l = [] | Some f \<Rightarrow> f = (lk_linked l, lk_pending l))"

definition system_earned :: "link_system \<Rightarrow> bool" where
  "system_earned s \<longleftrightarrow> links_earned (set (ls_trace s)) (ls_now s) (ls_links s)
     \<and> (\<forall>(u, state) \<in> set (ls_logins s). \<exists>t1. taken (set (ls_trace s)) (ls_now s) u state t1)
     \<and> (\<forall>(u, h) \<in> set (ls_mints s). proven (set (ls_trace s)) u h)"

lemma links_earned_mono: "E \<subseteq> E' \<Longrightarrow> now \<le> now' \<Longrightarrow> links_earned E now l \<Longrightarrow> links_earned E' now' l"
  unfolding links_earned_def by (meson progress_mono add_right_mono order_trans)

lemma system_earnedI:
  assumes "system_earned s" "set (ls_trace s) \<subseteq> set (ls_trace t)" "ls_now s \<le> ls_now t"
    "links_earned (set (ls_trace s)) (ls_now s) (ls_links s) \<Longrightarrow> links_earned (set (ls_trace t)) (ls_now t) (ls_links t)"
    "\<And>u state. (u, state) \<in> set (ls_logins t) \<Longrightarrow> (u, state) \<in> set (ls_logins s) \<or> (\<exists>t1. taken (set (ls_trace t)) (ls_now t) u state t1)"
    "\<And>u h. (u, h) \<in> set (ls_mints t) \<Longrightarrow> (u, h) \<in> set (ls_mints s) \<or> proven (set (ls_trace t)) u h"
  shows "system_earned t"
proof -
  have "\<exists>t1. taken (set (ls_trace t)) (ls_now t) u state t1" if "(u, state) \<in> set (ls_logins t)" for u state
    using assms(5) [OF that] progress_mono(2) [OF assms(2,3)] assms(1) unfolding system_earned_def by blast
  moreover have "proven (set (ls_trace t)) u h" if "(u, h) \<in> set (ls_mints t)" for u h
    using assms(6) [OF that] progress_mono(4) [OF assms(2)] assms(1) unfolding system_earned_def by blast
  ultimately show ?thesis using assms(1,4) unfolding system_earned_def by blast
qed

lemma map_of_filter_SomeD: "distinct (map fst d) \<Longrightarrow> map_of (filter P d) k = Some v \<Longrightarrow> map_of d k = Some v"
  by (induction d) (auto split: if_splits dest: map_of_SomeD simp: rev_image_eqI)

lemma link_url_earned:
  assumes "links_earned E now0 l" "links_tidy l" "now0 \<le> now"
  shows "links_earned (insert (Asked u state now) E) now (link_url now state u l)"
proof -
  note m = links_earned_mono [OF subset_insertI assms(3,1), of "Asked u state now"]
  have kept: "map_of (lk_pending l) k = Some p" if "map_of (filter P (lk_pending l)) k = Some p" for P k p
    using map_of_filter_SomeD [OF _ that] assms(2) by (simp add: links_tidy_def)
  moreover have "link_asked (insert (Asked u state now) E) now u state now" by (simp add: link_asked_def)
  ultimately show ?thesis
    using m by (auto simp: links_earned_def link_url_def save_links_def update_conv' split: if_splits dest!: kept)
qed

lemma login_take_earned:
  assumes "links_earned E now0 l" "now0 \<le> now" "login_take now state l = (Some u, l')"
  shows "links_earned (insert (Taken state now) E) now l'" "taken (insert (Taken state now) E) now u state now"
proof -
  note m = links_earned_mono [OF subset_insertI assms(2,1), of "Taken state now"]
  show "links_earned (insert (Taken state now) E) now l'"
    using m assms(3) by (auto simp: links_earned_def login_take_def save_links_def delete_conv' split: if_splits)
  obtain p where p: "map_of (lk_pending l) state = Some p" "pl_user p = u" "now < pl_expires p"
    using assms(3) by (auto simp: login_take_def link_valid_def split: if_splits option.splits)
  then obtain t0 where "link_asked (insert (Taken state now) E) now u state t0" "now < t0 + LINK_SECONDS"
    using m unfolding links_earned_def by metis
  then show "taken (insert (Taken state now) E) now u state now" by (auto simp: taken_def)
qed

lemma login_code_earned:
  assumes "links_earned E now0 l" "now0 \<le> now" "taken E now0 u state t1"
  shows "links_earned (insert (Shown state h c now) E) now (snd (login_code now u oauth (Some h) c l))"
proof -
  note m = links_earned_mono [OF subset_insertI assms(2,1), of "Shown state h c now"]
  have "shown (insert (Shown state h c now) E) now u h c now"
    using progress_mono(2) [OF subset_insertI assms(2,3)] by (auto simp: shown_def)
  with m show ?thesis by (auto simp: links_earned_def login_code_def update_conv' CODE_ATTEMPTS_def split: if_splits)
qed

lemma confirm_code_earned:
  assumes "links_earned E now0 l" "now0 \<le> now" "confirm_code now u c l = (r, l')"
  shows "links_earned E now l'" "r = Some e \<Longrightarrow> proven (insert (Sent u c now) E) u (ce_hub_user e)"
proof -
  note m = links_earned_mono [OF order_refl assms(2,1)]
  show "links_earned E now l'"
    using m assms(3) by (auto simp: links_earned_def confirm_code_def update_conv' delete_conv' Let_def split: option.splits if_splits)
  assume "r = Some e"
  then have e: "map_of (lk_codes l) u = Some e" "ce_code e = c" "now < ce_expires e"
    using assms(3) by (auto simp: confirm_code_def Let_def split: option.splits if_splits)
  then obtain t2 where "shown E now u (ce_hub_user e) c t2" "ce_expires e = t2 + CODE_SECONDS"
    using m unfolding links_earned_def by metis
  then show "proven (insert (Sent u c now) E) u (ce_hub_user e)"
    using e(3) progress_mono(3) [OF subset_insertI order_refl] unfolding proven_def by (metis insertI1)
qed

lemma confirm_mint_earned:
  assumes "links_earned E now0 l" "links_tidy l" "now0 \<le> now" "minted_at \<le> now" "proven E u h"
  shows "links_earned E now (confirm_mint minted_at u h token token_id l)"
proof -
  note m = links_earned_mono [OF order_refl assms(3,1)]
  have kept: "map_of (lk_linked l) k = Some p" if "map_of (filter P (lk_linked l)) k = Some p" for P k p
    using map_of_filter_SomeD [OF _ that] assms(2) by (simp add: links_tidy_def)
  show ?thesis
    using m assms(4,5) by (auto simp: links_earned_def confirm_mint_def save_links_def update_conv' split: if_splits dest!: kept)
qed

lemma forget_earned: "links_earned E now l \<Longrightarrow> links_earned E now (forget_link u l)"
  by (auto simp: links_earned_def forget_link_def save_links_def delete_conv' split: if_splits)

lemma restart_earned: "links_earned E now l \<Longrightarrow> links_tidy l \<Longrightarrow> links_earned E now (new_linking (lk_file l))"
  by (auto simp: links_earned_def new_linking_def links_tidy_def split: option.splits)

subsection \<open>One link, one account\<close>

lemma distinct_values_update:
  "distinct (map (f \<circ> snd) d) \<Longrightarrow> f v \<notin> (f \<circ> snd) ` set d \<Longrightarrow> distinct (map (f \<circ> snd) (AList.update k v d))"
proof (induction d)
  case (Cons p d)
  have "snd ` set (AList.update k v d) \<subseteq> insert v (snd ` set d)" by (induction d) auto
  then show ?case using Cons by (cases p) (auto simp: image_iff subset_iff; metis snd_conv)
qed simp

lemma save_links_tidy:
  "distinct (map fst (lk_linked l)) \<Longrightarrow> distinct (map (le_hub_user \<circ> snd) (lk_linked l))
   \<Longrightarrow> distinct (map fst (lk_pending l)) \<Longrightarrow> distinct (map (pl_user \<circ> snd) (lk_pending l)) \<Longrightarrow> links_tidy (save_links l)"
  by (simp add: links_tidy_def save_links_def)

lemma tidyD:
  assumes "links_tidy l"
  shows "distinct (map fst (lk_linked l))" "distinct (map (le_hub_user \<circ> snd) (lk_linked l))"
    "distinct (map fst (lk_pending l))" "distinct (map (pl_user \<circ> snd) (lk_pending l))"
  using assms by (simp_all add: links_tidy_def)

lemmas tidy_intros = save_links_tidy distinct_update distinct_values_update distinct_map_filter

lemma forget_tidy: "links_tidy l \<Longrightarrow> links_tidy (forget_link u l)"
  unfolding forget_link_def
  by (auto simp: AList.delete_eq intro!: tidy_intros dest: tidyD)

lemma link_token_tidy: "links_tidy l \<Longrightarrow> links_tidy (snd (link_token now u l))"
  by (auto simp: link_token_def forget_tidy split: option.split)

lemma link_url_tidy:
  assumes "links_tidy l"
  shows "links_tidy (link_url now state u l)"
  unfolding link_url_def using assms
  by (auto intro!: tidy_intros dest: tidyD)

lemma login_take_tidy: "links_tidy l \<Longrightarrow> links_tidy (snd (login_take now state l))"
  by (auto simp: login_take_def AList.delete_eq intro!: tidy_intros dest: tidyD)

lemma confirm_mint_tidy: "links_tidy l \<Longrightarrow> links_tidy (confirm_mint minted_at u h token token_id l)"
  unfolding confirm_mint_def
  by (auto intro!: tidy_intros dest: tidyD)

lemma codes_tidy: "links_tidy (l\<lparr>lk_codes := c\<rparr>) = links_tidy l"
  by (simp add: links_tidy_def split: option.split)

lemma confirm_code_tidy: "links_tidy l \<Longrightarrow> links_tidy (snd (confirm_code now u c l))"
  by (auto simp: confirm_code_def codes_tidy Let_def split: option.split)

lemma restart_tidy: "links_tidy l \<Longrightarrow> links_tidy (new_linking (lk_file l))"
  by (auto simp: links_tidy_def new_linking_def split: option.split)

lemma link_step_tidy: "link_step s t \<Longrightarrow> links_tidy (ls_links s) \<Longrightarrow> links_tidy (ls_links t)"
proof (induction rule: link_step.induct)
  case (Open_link s now state user l)
  then show ?case using login_take_tidy [OF Open_link.prems, of now state] by simp
next
  case (Login_done s now user state oauth h c)
  then show ?case by (simp add: login_code_def codes_tidy)
next
  case (Right_code s now user c e l)
  then show ?case using confirm_code_tidy [OF Right_code.prems, of now user c] by simp
next
  case (Wrong_code s now user c l)
  then show ?case using confirm_code_tidy [OF Wrong_code.prems, of now user c] by simp
qed (simp_all add: link_url_tidy confirm_mint_tidy link_token_tidy forget_tidy restart_tidy)

lemma link_token_earned: "links_earned E now0 l \<Longrightarrow> now0 \<le> now \<Longrightarrow> links_earned E now (snd (link_token now u l))"
  using links_earned_mono [OF order_refl] by (auto simp: link_token_def forget_earned split: option.split)

lemma set_remove1_sub: "x \<in> set (remove1 y xs) \<Longrightarrow> x \<in> set xs"
  using set_remove1_subset by fastforce

lemma link_step_earned: "link_step s t \<Longrightarrow> system_earned s \<Longrightarrow> links_tidy (ls_links s) \<Longrightarrow> system_earned t"
proof (induction rule: link_step.induct)
  case (Ask s now state user)
  then show ?case by (intro system_earnedI [OF Ask.prems(1)]) (auto intro: link_url_earned)
next
  case (Open_link s now state user l)
  then show ?case by (intro system_earnedI [OF Open_link.prems(1)]) (auto intro: login_take_earned simp: system_earned_def)
next
  case (Login_done s now user state oauth h c)
  then obtain t1 where "taken (set (ls_trace s)) (ls_now s) user state t1" by (auto simp: system_earned_def)
  with Login_done show ?case
    by (intro system_earnedI [OF Login_done.prems(1)]) (auto intro: login_code_earned dest: set_remove1_sub)
next
  case (Login_failed user state s)
  then show ?case by (intro system_earnedI [OF Login_failed.prems(1)]) (auto dest: set_remove1_sub)
next
  case (Right_code s now user c e l)
  note ok = confirm_code_earned [OF _ Right_code.hyps(1,2)]
  show ?case using Right_code
    by (intro system_earnedI [OF Right_code.prems(1)])
      (auto intro: links_earned_mono [OF subset_insertI order_refl ok(1)] ok(2) simp: system_earned_def)
next
  case (Wrong_code s now user c l)
  then show ?case by (intro system_earnedI [OF Wrong_code.prems(1)]) (auto intro: confirm_code_earned)
next
  case (Mint_done s now minted_at user h token token_id)
  then have "proven (set (ls_trace s)) user h" by (auto simp: system_earned_def)
  with Mint_done show ?case
    by (intro system_earnedI [OF Mint_done.prems(1)]) (auto intro: confirm_mint_earned dest: set_remove1_sub)
next
  case (Mint_failed user h s)
  then show ?case by (intro system_earnedI [OF Mint_failed.prems(1)]) (auto dest: set_remove1_sub)
next
  case (Use_token s now user)
  then show ?case by (intro system_earnedI [OF Use_token.prems(1)]) (auto intro: link_token_earned)
next
  case (Unlink s user)
  then show ?case by (intro system_earnedI [OF Unlink.prems(1)]) (auto intro: forget_earned)
next
  case (Restart s)
  then show ?case by (intro system_earnedI [OF Restart.prems(1)]) (auto intro: restart_earned)
qed

interpretation linking: machine link_start link_step "\<lambda>s. system_earned s \<and> links_tidy (ls_links s)"
proof
  show "system_earned s \<and> links_tidy (ls_links s)" if "link_start s" for s
    using that by (auto simp: link_start_def system_earned_def links_earned_def links_tidy_def new_linking_def)
qed (auto intro: link_step_earned link_step_tidy)

lemma provenE:
  assumes "proven E u h"
  obtains state c t0 t1 t2 t3 where "Asked u state t0 \<in> E" "Taken state t1 \<in> E" "Shown state h c t2 \<in> E" "Sent u c t3 \<in> E"
    "t0 \<le> t1" "t1 \<le> t2" "t2 \<le> t3" "t1 < t0 + LINK_SECONDS" "t3 < t2 + CODE_SECONDS"
  using assms unfolding progress_defs by blast

lemma links_kept:
  assumes "link_start s" "link_step\<^sup>*\<^sup>* s t"
  shows "(u, e) \<in> set (lk_linked (ls_links t)) \<Longrightarrow> \<exists>state c t0 t1 t2 t3.
      {Asked u state t0, Taken state t1, Shown state (le_hub_user e) c t2, Sent u c t3} \<subseteq> set (ls_trace t)
      \<and> t0 \<le> t1 \<and> t1 \<le> t2 \<and> t2 \<le> t3 \<and> t1 < t0 + LINK_SECONDS \<and> t3 < t2 + CODE_SECONDS
      \<and> le_expires e \<le> ls_now t + TOKEN_SECONDS"
    and "(u, e) \<in> set (lk_linked (ls_links t)) \<Longrightarrow> (v, f) \<in> set (lk_linked (ls_links t))
      \<Longrightarrow> u = v \<and> e = f \<or> u \<noteq> v \<and> le_hub_user e \<noteq> le_hub_user f"
    and "lk_file (ls_links t) = Some f' \<Longrightarrow> f' = (lk_linked (ls_links t), lk_pending (ls_links t))"
proof -
  let ?l = "lk_linked (ls_links t)"
  have inv: "system_earned t" "links_tidy (ls_links t)" using linking.reachable_inv [OF assms] by simp_all
  note tidy = tidyD [OF inv(2)]
  show "\<exists>state c t0 t1 t2 t3.
      {Asked u state t0, Taken state t1, Shown state (le_hub_user e) c t2, Sent u c t3} \<subseteq> set (ls_trace t)
      \<and> t0 \<le> t1 \<and> t1 \<le> t2 \<and> t2 \<le> t3 \<and> t1 < t0 + LINK_SECONDS \<and> t3 < t2 + CODE_SECONDS
      \<and> le_expires e \<le> ls_now t + TOKEN_SECONDS" if "(u, e) \<in> set ?l"
  proof -
    have "proven (set (ls_trace t)) u (le_hub_user e)" "le_expires e \<le> ls_now t + TOKEN_SECONDS"
      using inv(1) map_of_is_SomeI [OF tidy(1) that] unfolding system_earned_def links_earned_def by blast+
    then show ?thesis by (elim provenE) fastforce
  qed
  show "u = v \<and> e = f \<or> u \<noteq> v \<and> le_hub_user e \<noteq> le_hub_user f" if "(u, e) \<in> set ?l" "(v, f) \<in> set ?l"
    using that tidy(1,2) by (fastforce simp: distinct_map inj_on_def)
  show "f' = (lk_linked (ls_links t), lk_pending (ls_links t))" if "lk_file (ls_links t) = Some f'"
    using inv(2) that by (simp add: links_tidy_def)
qed

text \<open>
  C8: a link becomes a token only when the code of its Hub login comes back from the person the link was made for. However
  people ask, open links (their own or forwarded ones), log in, send codes and unlink, and wherever the service
  restarts: when a person is tied to a Hub account, that person asked for a link, that very link was opened within a
  day, the login with it was that Hub account's own, and its code came back within ten minutes in a message of
  the same person. No token lasts longer than thirty days from now, no two people are tied to one Hub account, and the file on the
  volume holds the links as they are.
\<close>

theorem linked_by_code:
  assumes "link_start s" "link_step\<^sup>*\<^sup>* s t"
  shows "(\<forall>u e. (u, e) \<in> set (lk_linked (ls_links t)) \<longrightarrow> (\<exists>state c t0 t1 t2 t3.
      {Asked u state t0, Taken state t1, Shown state (le_hub_user e) c t2, Sent u c t3} \<subseteq> set (ls_trace t)
      \<and> t0 \<le> t1 \<and> t1 \<le> t2 \<and> t2 \<le> t3 \<and> t1 < t0 + LINK_SECONDS \<and> t3 < t2 + CODE_SECONDS
      \<and> le_expires e \<le> ls_now t + TOKEN_SECONDS))
    \<and> (\<forall>u e v f. (u, e) \<in> set (lk_linked (ls_links t)) \<longrightarrow> (v, f) \<in> set (lk_linked (ls_links t))
      \<longrightarrow> u = v \<and> e = f \<or> u \<noteq> v \<and> le_hub_user e \<noteq> le_hub_user f)
    \<and> (\<forall>f. lk_file (ls_links t) = Some f \<longrightarrow> f = (lk_linked (ls_links t), lk_pending (ls_links t)))"
  using links_kept [OF assms] by (intro conjI allI impI) blast+

text \<open>A whole link: asked for at 0, opened at 60, the code shown at 70 and sent at 90, the token kept at 91.\<close>

definition link_s0 :: link_system where
  "link_s0 = \<lparr>ls_links = new_linking None, ls_now = 0, ls_logins = [], ls_mints = [], ls_trace = []\<rparr>"
definition link_s1 :: link_system where
  "link_s1 = link_s0\<lparr>ls_now := 0, ls_links := link_url 0 ''st'' ''ada'' (ls_links link_s0), ls_trace := Asked ''ada'' ''st'' 0 # ls_trace link_s0\<rparr>"
definition link_s2 :: link_system where
  "link_s2 = link_s1\<lparr>ls_now := 60, ls_links := snd (login_take 60 ''st'' (ls_links link_s1)),
     ls_logins := (''ada'', ''st'') # ls_logins link_s1, ls_trace := Taken ''st'' 60 # ls_trace link_s1\<rparr>"
definition link_s3 :: link_system where
  "link_s3 = link_s2\<lparr>ls_now := 70, ls_links := snd (login_code 70 ''ada'' ''o'' (Some ''alove'') ''AAAABBBB'' (ls_links link_s2)),
     ls_logins := remove1 (''ada'', ''st'') (ls_logins link_s2), ls_trace := Shown ''st'' ''alove'' ''AAAABBBB'' 70 # ls_trace link_s2\<rparr>"
definition link_e4 :: code_entry where
  "link_e4 = \<lparr>ce_code = ''AAAABBBB'', ce_oauth_token = ''o'', ce_hub_user = ''alove'', ce_expires = 670, ce_attempts = 0\<rparr>"
definition link_s4 :: link_system where
  "link_s4 = link_s3\<lparr>ls_now := 90, ls_links := snd (confirm_code 90 ''ada'' ''AAAABBBB'' (ls_links link_s3)),
     ls_mints := (''ada'', ce_hub_user link_e4) # ls_mints link_s3, ls_trace := Sent ''ada'' ''AAAABBBB'' 90 # ls_trace link_s3\<rparr>"
definition link_s5 :: link_system where
  "link_s5 = link_s4\<lparr>ls_now := 91, ls_links := confirm_mint 91 ''ada'' ''alove'' ''tok'' ''a1'' (ls_links link_s4),
     ls_mints := remove1 (''ada'', ''alove'') (ls_mints link_s4)\<rparr>"
definition link_e5 :: link_entry where
  "link_e5 = \<lparr>le_token = ''tok'', le_token_id = ''a1'', le_hub_user = ''alove'', le_expires = 91 + 30 * 24 * 3600\<rparr>"

lemma link_sample_runs: "link_start link_s0" "link_step\<^sup>*\<^sup>* link_s0 link_s5"
proof -
  show "link_start link_s0" by (simp add: link_start_def link_s0_def)
  have 1: "link_step link_s0 link_s1" unfolding link_s1_def by (rule link_step.Ask) (simp_all add: link_s0_def)
  have 2: "link_step link_s1 link_s2"
    unfolding link_s2_def by (rule link_step.Open_link) code_simp+
  have 3: "link_step link_s2 link_s3"
    unfolding link_s3_def by (rule link_step.Login_done) code_simp+
  have 4: "link_step link_s3 link_s4"
    unfolding link_s4_def by (rule link_step.Right_code) code_simp+
  have 5: "link_step link_s4 link_s5"
    unfolding link_s5_def by (rule link_step.Mint_done) code_simp+
  show "link_step\<^sup>*\<^sup>* link_s0 link_s5" using 1 2 3 4 5 by (meson converse_rtranclp_into_rtranclp rtranclp.rtrancl_refl)
qed

theorem linked_by_code_witness:
  "lk_linked (ls_links link_s5) = [(''ada'', link_e5)] \<and> le_hub_user link_e5 = ''alove''
   \<and> (\<exists>state c t0 t1 t2 t3.
      {Asked ''ada'' state t0, Taken state t1, Shown state (le_hub_user link_e5) c t2, Sent ''ada'' c t3} \<subseteq> set (ls_trace link_s5)
      \<and> t0 \<le> t1 \<and> t1 \<le> t2 \<and> t2 \<le> t3 \<and> t1 < t0 + LINK_SECONDS \<and> t3 < t2 + CODE_SECONDS
      \<and> le_expires link_e5 \<le> ls_now link_s5 + TOKEN_SECONDS)
   \<and> lk_file (ls_links link_s5) = Some (lk_linked (ls_links link_s5), lk_pending (ls_links link_s5))"
proof (intro conjI)
  show l: "lk_linked (ls_links link_s5) = [(''ada'', link_e5)]" "le_hub_user link_e5 = ''alove''" by code_simp+
  have m: "(''ada'', link_e5) \<in> set (lk_linked (ls_links link_s5))" using l by simp
  show "\<exists>state c t0 t1 t2 t3.
      {Asked ''ada'' state t0, Taken state t1, Shown state (le_hub_user link_e5) c t2, Sent ''ada'' c t3} \<subseteq> set (ls_trace link_s5)
      \<and> t0 \<le> t1 \<and> t1 \<le> t2 \<and> t2 \<le> t3 \<and> t1 < t0 + LINK_SECONDS \<and> t3 < t2 + CODE_SECONDS
      \<and> le_expires link_e5 \<le> ls_now link_s5 + TOKEN_SECONDS"
    using linked_by_code [OF link_sample_runs] m by blast
  have "lk_file (ls_links link_s5) \<noteq> None" by code_simp
  then show "lk_file (ls_links link_s5) = Some (lk_linked (ls_links link_s5), lk_pending (ls_links link_s5))"
    using linked_by_code [OF link_sample_runs] by blast
qed

end
