(* ===== verification/Mattermost_Poll.thy ===== *)
theory Mattermost_Poll
  imports Mattermost_Answer
begin

text \<open>
  How the Mattermost agent finds the posts it answers: \<open>Mattermost.channels\<close>, \<open>Mattermost.since\<close>, \<open>Agent.poll\<close> and
  \<open>Agent.replies_to_bot\<close> of \<open>src/apps/mattermost-agent/agent.py\<close>, and the limit of questions over all posts. What Mattermost
  answers during a poll is an argument of the poll.
\<close>

subsection \<open>The limit of questions over time\<close>

text \<open>Questions in the order they come, each by a user at a time: those that were let through, and the state after them.\<close>

fun questions :: "(string \<times> time) list \<Rightarrow> (string \<times> time) list \<times> 'w shared \<Rightarrow> (string \<times> time) list \<times> 'w shared" where
  "questions [] hs = hs"
| "questions ((u, t) # qs) (h, s) =
     (case question_allowed u t s of (ok, s') \<Rightarrow> questions qs (if ok then h @ [(u, t)] else h, s'))"

definition times_of :: "string \<Rightarrow> (string \<times> time) list \<Rightarrow> time list" where
  "times_of u h = map snd (filter (\<lambda>q. fst q = u) h)"

text \<open>The reference: how many questions of the user were let through in the ten minutes up to a time.\<close>

definition recent :: "string \<Rightarrow> time \<Rightarrow> (string \<times> time) list \<Rightarrow> nat" where
  "recent u t h = length (filter (\<lambda>x. t - USER_WINDOW_SECONDS \<le> x \<and> x \<le> t) (times_of u h))"

text \<open>What is kept of each user are the questions of their last ten minutes, as of some time that has passed.\<close>

definition window_kept :: "time \<Rightarrow> (string \<times> time) list \<times> 'w shared \<Rightarrow> bool" where
  "window_kept now hs \<longleftrightarrow> sorted (map snd (fst hs)) \<and> (\<forall>q \<in> set (fst hs). snd q \<le> now)
     \<and> (\<forall>u. \<exists>t \<le> now. dict_get (sh_asked (snd hs)) u [] = filter (\<lambda>x. t - x \<le> USER_WINDOW_SECONDS) (times_of u (fst hs)))"

lemma dropWhile_sorted:
  "sorted xs \<Longrightarrow> dropWhile (\<lambda>x. now - x > w) xs = filter (\<lambda>x. now - x \<le> w) xs" for now :: time
proof (induction xs)
  case (Cons x xs)
  have "filter (\<lambda>x. now - x \<le> w) xs = xs" if "now - x \<le> w" using Cons.prems that by (auto simp: filter_id_conv)
  then show ?case using Cons by auto
qed simp

lemma sorted_times: "sorted (map snd h) \<Longrightarrow> sorted (times_of u h)"
  unfolding times_of_def by (rule sorted_filter)

lemma kept_asked:
  assumes "window_kept now0 hs" "now0 \<le> now"
  shows "dropWhile (\<lambda>t. now - t > USER_WINDOW_SECONDS) (dict_get (sh_asked (snd hs)) u [])
    = filter (\<lambda>x. now - x \<le> USER_WINDOW_SECONDS) (times_of u (fst hs))"
proof -
  obtain t where t: "t \<le> now0" "dict_get (sh_asked (snd hs)) u [] = filter (\<lambda>x. t - x \<le> USER_WINDOW_SECONDS) (times_of u (fst hs))"
    using assms(1) by (auto simp: window_kept_def)
  have "sorted (times_of u (fst hs))" using assms(1) by (simp add: window_kept_def sorted_times)
  then have "sorted (filter (\<lambda>x. t - x \<le> USER_WINDOW_SECONDS) (times_of u (fst hs)))" using sorted_filter [of "\<lambda>x. x"] by simp
  moreover have "now - x \<le> USER_WINDOW_SECONDS \<Longrightarrow> t - x \<le> USER_WINDOW_SECONDS" for x using t(1) assms(2) by linarith
  ultimately show ?thesis unfolding t(2) by (subst dropWhile_sorted) (auto intro: filter_cong)
qed

lemma recent_kept:
  assumes "window_kept now0 hs" "now0 \<le> now"
  shows "recent u now (fst hs) = length (filter (\<lambda>x. now - x \<le> USER_WINDOW_SECONDS) (times_of u (fst hs)))"
proof -
  have "x \<le> now" if "x \<in> set (times_of u (fst hs))" for x
    using that assms by (fastforce simp: window_kept_def times_of_def)
  then have "filter (\<lambda>x. now - USER_WINDOW_SECONDS \<le> x \<and> x \<le> now) (times_of u (fst hs))
      = filter (\<lambda>x. now - x \<le> USER_WINDOW_SECONDS) (times_of u (fst hs))"
    by (intro filter_cong) (auto simp: algebra_simps)
  then show ?thesis by (simp add: recent_def)
qed

lemma allowed_reference:
  assumes "window_kept now0 (h, s)" "now0 \<le> now"
  shows "fst (question_allowed u now s) \<longleftrightarrow> recent u now h < USER_LIMIT"
  using kept_asked [OF assms, of u] recent_kept [OF assms, of u] by (simp add: question_allowed_def Let_def)

lemma allowed_kept:
  assumes "window_kept now0 (h, s)" "now0 \<le> now" "question_allowed u now s = (ok, s')"
  shows "window_kept now (if ok then h @ [(u, now)] else h, s')"
proof -
  let ?h = "if ok then h @ [(u, now)] else h"
  have asked: "\<exists>t \<le> now. dict_get (sh_asked s') v [] = filter (\<lambda>x. t - x \<le> USER_WINDOW_SECONDS) (times_of v ?h)" for v
  proof (cases "v = u")
    case True
    have "dict_get (sh_asked s') u [] = filter (\<lambda>x. now - x \<le> USER_WINDOW_SECONDS) (times_of u ?h)"
      using assms(3) kept_asked [OF assms(1,2), of u]
      by (auto simp: question_allowed_def Let_def dict_get_def update_conv' times_of_def USER_WINDOW_SECONDS_def split: if_splits)
    with True show ?thesis by blast
  next
    case False
    then have "dict_get (sh_asked s') v [] = dict_get (sh_asked s) v []" "times_of v ?h = times_of v h"
      using assms(3) by (auto simp: question_allowed_def Let_def dict_get_def update_conv' times_of_def split: if_splits)
    then show ?thesis using assms(1,2) unfolding window_kept_def by (metis fst_conv order_trans snd_conv)
  qed
  show ?thesis using assms(1,2) asked by (auto simp: window_kept_def sorted_append intro: order_trans)
qed

lemma recent_bound:
  assumes "window_kept now0 (h, s)" "now0 \<le> now" "\<forall>t. recent u t h \<le> USER_LIMIT" "recent u now h < USER_LIMIT"
  shows "recent u t (h @ [(u, now)]) \<le> USER_LIMIT"
proof (cases "t - USER_WINDOW_SECONDS \<le> now \<and> now \<le> t")
  case True
  have "length (filter (\<lambda>x. t - USER_WINDOW_SECONDS \<le> x \<and> x \<le> t) xs) \<le> length (filter (\<lambda>x. now - x \<le> USER_WINDOW_SECONDS) xs)" for xs
    using True by (induction xs) auto
  then have "recent u t h \<le> recent u now h" using recent_kept [OF assms(1,2), of u] by (simp add: recent_def)
  then show ?thesis using assms(4) True by (simp add: recent_def times_of_def)
qed (use assms(3) in \<open>auto simp: recent_def times_of_def\<close>)

lemma questions_bound:
  assumes "window_kept now0 (h, s)" "sorted (now0 # map snd qs)" "\<forall>u t. recent u t h \<le> USER_LIMIT" "questions qs (h, s) = (h', s')"
  shows "(\<exists>now. window_kept now (h', s') \<and> (\<forall>x. sorted (now0 # map snd (qs @ [x])) \<longrightarrow> now \<le> snd x)) \<and> (\<forall>u t. recent u t h' \<le> USER_LIMIT)"
  using assms
proof (induction qs arbitrary: now0 h s)
  case Nil
  then show ?case by auto
next
  case (Cons q qs)
  obtain u now where q: "q = (u, now)" by fastforce
  obtain ok s1 where ok: "question_allowed u now s = (ok, s1)" by fastforce
  let ?h = "if ok then h @ [(u, now)] else h"
  have le: "now0 \<le> now" using Cons.prems(2) q by simp
  have "window_kept now (?h, s1)" by (rule allowed_kept [OF Cons.prems(1) le ok])
  moreover have "recent v t ?h \<le> USER_LIMIT" for v t
    using Cons.prems(3) recent_bound [OF Cons.prems(1) le, of u t] allowed_reference [OF Cons.prems(1) le, of u] ok
    by (auto simp: recent_def times_of_def)
  moreover have "questions qs (?h, s1) = (h', s')" using Cons.prems(4) q ok by simp
  ultimately show ?case using Cons.IH [of now ?h s1] Cons.prems(2) q le by auto
qed

lemma window_limit:
  fixes s s' :: "'w shared"
  assumes "sh_asked s = []" "questions qs ([], s) = (h, s')" "sorted (map snd (qs @ [(u, now)]))"
  shows "recent v t h \<le> 5" "fst (question_allowed u now s') \<longleftrightarrow> recent u now h < 5"
proof -
  define now0 where "now0 = Min (insert now (snd ` set qs))"
  have first: "sorted (now0 # map snd (qs @ [(u, now)]))"
    using assms(3) by (auto simp: now0_def)
  have "window_kept now0 ([], s)" using assms(1) by (auto simp: window_kept_def times_of_def dict_get_def)
  moreover have "sorted (now0 # map snd qs)" using first by (simp add: sorted_append)
  moreover have "recent v t [] \<le> USER_LIMIT" for v t by (simp add: recent_def times_of_def)
  ultimately have "(\<exists>now. window_kept now (h, s') \<and> (\<forall>x. sorted (now0 # map snd (qs @ [x])) \<longrightarrow> now \<le> snd x)) \<and> (\<forall>u t. recent u t h \<le> USER_LIMIT)"
    using questions_bound assms(2) by blast
  then obtain now1 where k: "window_kept now1 (h, s')" "now1 \<le> now" "\<forall>u t. recent u t h \<le> USER_LIMIT" using first by fastforce
  then show "recent v t h \<le> 5" "fst (question_allowed u now s') \<longleftrightarrow> recent u now h < 5"
    using allowed_reference [OF k(1,2), of u] by (simp_all add: USER_LIMIT_def)
qed

text \<open>
  C29: the limit of questions is a sliding window. When questions come in the order of their times, in no ten minutes are
  more than five of one person let through; and another one is let through exactly if fewer than five of
  that person's were in the ten minutes before it, whatever others asked.
\<close>

theorem question_limit:
  fixes s s' :: "'w shared"
  assumes "sh_asked s = []" "questions qs ([], s) = (h, s')" "sorted (map snd (qs @ [(u, now)]))"
  shows "(\<forall>v t. recent v t h \<le> 5) \<and> (fst (question_allowed u now s') \<longleftrightarrow> recent u now h < 5)"
  using window_limit [OF assms] by blast

definition quiet_shared :: "unit shared" where
  "quiet_shared = \<lparr>sh_links = new_linking None, sh_asked = [], sh_warned = [], sh_direct = {}, sh_groups = {}, sh_world = ()\<rparr>"

theorem question_limit_witness:
  "let qs = [(''ada'', 0), (''ada'', 10), (''ada'', 20), (''bob'', 25), (''ada'', 30), (''ada'', 40), (''ada'', 50)];
       (h, s) = questions qs ([], quiet_shared)
   in length h = 6 \<and> recent ''ada'' 600 h \<le> 5 \<and> \<not> fst (question_allowed ''ada'' 600 s) \<and> fst (question_allowed ''ada'' 601 s)"
proof -
  let ?qs = "[(''ada'', 0 :: time), (''ada'', 10), (''ada'', 20), (''bob'', 25), (''ada'', 30), (''ada'', 40), (''ada'', 50)]"
  obtain h s where hs: "questions ?qs ([], quiet_shared) = (h, s)" by fastforce
  have h: "h = fst (questions ?qs ([], quiet_shared))" using hs by simp
  have "length h = 6 \<and> \<not> recent ''ada'' 600 h < 5 \<and> recent ''ada'' 601 h < 5" unfolding h by code_simp
  moreover have sorted: "sorted (map snd (?qs @ [(''ada'', 600)]))" "sorted (map snd (?qs @ [(''ada'', 601)]))" by simp_all
  moreover have asked: "sh_asked quiet_shared = []" by (simp add: quiet_shared_def)
  ultimately show ?thesis
    using question_limit [OF asked hs sorted(1)] question_limit [OF asked hs sorted(2)] hs
    by (simp add: Let_def del: questions.simps)
qed

subsection \<open>Polling\<close>

datatype poll_exn = Status nat | Transport

record poller =
  po_me :: bot
  po_cursors :: "(string, int) dict"
  po_home :: "string option"
  po_direct :: "string set"
  po_groups :: "string set"
  po_channels_at :: time
  po_started :: "post list"

text \<open>
  What Mattermost answers while a poll runs: the channel and the team by name, \<open>None\<close> for a status other than 200; the bot's
  channels in a team, each with its type; the newest time in a channel, the posts since a cursor, and a thread.
\<close>

record poll_answers =
  pa_now :: time
  pa_channel :: "poll_exn + (string \<times> string) option"
  pa_team :: "poll_exn + string option"
  pa_mine :: "string \<Rightarrow> poll_exn + (string \<times> string) list"
  pa_latest :: "string \<Rightarrow> poll_exn + int list"
  pa_since :: "string \<Rightarrow> int \<Rightarrow> poll_exn + post list"
  pa_thread :: "string \<Rightarrow> poll_exn + post list"

definition CHANNELS_SECONDS :: rat where "CHANNELS_SECONDS = 60"

text \<open>\<open>Mattermost.channels\<close>: the channel, if it was found, and the direct and the group messages.\<close>

definition listed :: "string \<Rightarrow> (string \<times> string) list \<Rightarrow> string set" where
  "listed kind mine = fst ` {c \<in> set mine. snd c = kind}"

definition channels :: "poll_answers \<Rightarrow> poll_exn + string option \<times> string set \<times> string set" where
  "channels pa = bind_sum (pa_channel pa) (\<lambda>found. case found of
     Some (home, team) \<Rightarrow> bind_sum (pa_mine pa team) (\<lambda>mine. Inr (Some home, listed ''D'' mine, listed ''G'' mine))
   | None \<Rightarrow> bind_sum (pa_team pa) (\<lambda>named. case named of
       None \<Rightarrow> Inr (None, {}, {})
     | Some team \<Rightarrow> bind_sum (pa_mine pa team) (\<lambda>mine. Inr (None, listed ''D'' mine, listed ''G'' mine))))"

type_synonym 'a polls = "(poller, poll_exn, 'a) eff"

definition refresh_channels :: "poll_answers \<Rightarrow> unit polls" where
  "refresh_channels pa = bindm (gets (\<lambda>s. po_channels_at s)) (\<lambda>at0.
     whenm (at0 = 0 \<or> pa_now pa - at0 > CHANNELS_SECONDS)
       (bindm (of_sum (channels pa)) (\<lambda>(home, direct, groups).
        modify (\<lambda>s. s\<lparr>po_home := home,
          po_cursors := (if at0 = 0 then po_cursors s
            else dict_updates (po_cursors s) (map (\<lambda>c. (c, 1))
              (sorted_list_of_set ((direct \<union> groups) - (po_direct s \<union> po_groups s))))),
          po_direct := direct, po_groups := groups, po_channels_at := pa_now pa\<rparr>))))"

definition replies_to_bot :: "poll_answers \<Rightarrow> post \<Rightarrow> int \<Rightarrow> bool polls" where
  "replies_to_bot pa p cursor = bindm (gets po_me) (\<lambda>me.
     if p_root p = [] \<or> \<not> by_a_person me p cursor then ret False
     else if at_name_search None (p_message p) then ret False
     else bindm (of_sum (pa_thread pa (p_id p))) (\<lambda>thread. ret (\<exists>q \<in> set thread. p_user q = me_id me)))"

text \<open>A post that is to be answered starts a task of \<open>handle\<close>.\<close>

definition start_task :: "post \<Rightarrow> unit polls" where
  "start_task p = modify (\<lambda>s. s\<lparr>po_started := po_started s @ [p]\<rparr>)"

definition poll_post :: "poll_answers \<Rightarrow> string \<Rightarrow> int \<Rightarrow> post \<Rightarrow> unit polls" where
  "poll_post pa channel cursor p =
     bindm (modify (\<lambda>s. s\<lparr>po_cursors := AList.update channel (max (dict_get (po_cursors s) channel 0) (p_update p)) (po_cursors s)\<rparr>)) (\<lambda>_.
     bindm (gets (\<lambda>s. wanted (po_me s) (po_direct s) p cursor)) (\<lambda>w.
     bindm (if w then ret True else replies_to_bot pa p cursor) (\<lambda>ok. whenm ok (start_task p))))"

text \<open>A status other than 401 leaves out one conversation; a request that got no answer ends the poll.\<close>

definition refused_one :: "poll_exn \<Rightarrow> unit polls" where
  "refused_one e = (case e of Status n \<Rightarrow> if n = 401 then raise e else ret () | Transport \<Rightarrow> raise e)"

definition poll_channel :: "poll_answers \<Rightarrow> string \<Rightarrow> unit polls" where
  "poll_channel pa channel = bindm (gets (\<lambda>s. map_of (po_cursors s) channel)) (\<lambda>cursor. case cursor of
     None \<Rightarrow> (case pa_latest pa channel of
        Inl e \<Rightarrow> refused_one e
      | Inr updates \<Rightarrow> modify (\<lambda>s. s\<lparr>po_cursors := AList.update channel (case updates of [] \<Rightarrow> 0 | t # ts \<Rightarrow> fold max ts t) (po_cursors s)\<rparr>))
   | Some c \<Rightarrow> (case pa_since pa channel c of
        Inl e \<Rightarrow> refused_one e
      | Inr posts \<Rightarrow> each (poll_post pa channel c) (sort_key p_create posts)))"

definition agent_poll :: "poll_answers \<Rightarrow> unit polls" where
  "agent_poll pa = bindm (refresh_channels pa) (\<lambda>_.
     bindm (gets (\<lambda>s. (case po_home s of Some h \<Rightarrow> if h \<noteq> [] then [h] else [] | None \<Rightarrow> [])
       @ sorted_list_of_set (po_direct s \<union> po_groups s))) (\<lambda>polled.
     each (poll_channel pa) polled))"

subsection \<open>Each post is answered once\<close>

text \<open>
  What Mattermost keeps: a post has one channel and one time of creation, which no update precedes, and a page has each
  post once.
\<close>

definition genuine :: "(string \<Rightarrow> string \<times> int) \<Rightarrow> poll_answers \<Rightarrow> bool" where
  "genuine born pa \<longleftrightarrow> (\<forall>ch c posts. pa_since pa ch c = Inr posts \<longrightarrow> distinct (map p_id posts)
     \<and> (\<forall>p \<in> set posts. p_channel p = ch \<and> born (p_id p) = (ch, p_create p) \<and> p_create p \<le> p_update p))"

text \<open>A conversation that appears as a new one was not polled before.\<close>

definition steady :: "poll_answers \<Rightarrow> poller \<Rightarrow> bool" where
  "steady pa s \<longleftrightarrow> (\<forall>h d g. channels pa = Inr (h, d, g) \<longrightarrow> finite (d \<union> g)
     \<and> (\<forall>c \<in> (d \<union> g) - (po_direct s \<union> po_groups s). map_of (po_cursors s) c = None))"

definition poll_step :: "(string \<Rightarrow> string \<times> int) \<Rightarrow> poller \<Rightarrow> poller \<Rightarrow> bool" where
  "poll_step born s t \<longleftrightarrow> (\<exists>pa. genuine born pa \<and> steady pa s \<and> t = snd (agent_poll pa s))"

definition once :: "(string \<Rightarrow> string \<times> int) \<Rightarrow> poller \<Rightarrow> bool" where
  "once born s \<longleftrightarrow> distinct (map p_id (po_started s)) \<and> (\<forall>p \<in> set (po_started s). born (p_id p) = (p_channel p, p_create p)
     \<and> (\<exists>c. map_of (po_cursors s) (p_channel p) = Some c \<and> p_create p \<le> c))"

text \<open>While a page is gone through, none of its posts that are left and new was started before.\<close>

definition page_left :: "(string \<Rightarrow> string \<times> int) \<Rightarrow> int \<Rightarrow> post list \<Rightarrow> poller \<Rightarrow> bool" where
  "page_left born cursor rest s \<longleftrightarrow> once born s \<and> (\<forall>p \<in> set rest. cursor < p_create p \<longrightarrow> p_id p \<notin> p_id ` set (po_started s))"

lemma replies_to_bot_wp:
  "wp (replies_to_bot pa p cursor) R X s \<longleftrightarrow>
     (if p_root p = [] \<or> \<not> by_a_person (po_me s) p cursor \<or> at_name_search None (p_message p) then R False s
      else case pa_thread pa (p_id p) of Inl e \<Rightarrow> X e s | Inr th \<Rightarrow> R (\<exists>q \<in> set th. p_user q = me_id (po_me s)) s)"
  by (auto simp: replies_to_bot_def wp_simps split: sum.split)

lemma poll_post_once:
  assumes "page_left born cursor (p # rest) s" "p_id p \<notin> p_id ` set rest"
    and "p_channel p = ch" "born (p_id p) = (ch, p_create p)" "p_create p \<le> p_update p"
  shows "wp (poll_post pa ch cursor p) (\<lambda>_. page_left born cursor rest) (\<lambda>_. once born) s"
proof -
  let ?s = "s\<lparr>po_cursors := AList.update ch (max (dict_get (po_cursors s) ch 0) (p_update p)) (po_cursors s)\<rparr>"
  have old: "once born s" using assms(1) by (simp add: page_left_def)
  have moved: "once born ?s"
    unfolding once_def
  proof (intro conjI ballI)
    fix q assume q: "q \<in> set (po_started ?s)"
    then show "born (p_id q) = (p_channel q, p_create q)" using old by (simp add: once_def)
    obtain c where "map_of (po_cursors s) (p_channel q) = Some c" "p_create q \<le> c" using old q by (auto simp: once_def)
    then show "\<exists>c. map_of (po_cursors ?s) (p_channel q) = Some c \<and> p_create q \<le> c"
      by (cases "p_channel q = ch") (auto simp: update_conv' dict_get_def)
  qed (use old in \<open>simp add: once_def\<close>)
  then have left: "page_left born cursor rest ?s" using assms(1) by (simp add: page_left_def)
  have started: "page_left born cursor rest (?s\<lparr>po_started := po_started s @ [p]\<rparr>)" if "cursor < p_create p"
    using moved left assms that by (auto simp: page_left_def once_def update_conv') (metis imageI)
  show ?thesis
    using left moved started
    by (auto simp: poll_post_def start_task_def wp_simps wanted_def by_a_person_def replies_to_bot_wp split: sum.split)
qed

lemma poll_page_once:
  assumes "page_left born cursor ps s" "distinct (map p_id ps)"
    and "\<forall>p \<in> set ps. p_channel p = ch \<and> born (p_id p) = (ch, p_create p) \<and> p_create p \<le> p_update p"
  shows "wp (each (poll_post pa ch cursor) ps) (\<lambda>_. once born) (\<lambda>_. once born) s"
  using assms
proof (induction ps arbitrary: s)
  case (Cons p ps)
  have "wp (poll_post pa ch cursor p) (\<lambda>_. page_left born cursor ps) (\<lambda>_. once born) s"
    using Cons.prems by (intro poll_post_once) auto
  then have "wp (poll_post pa ch cursor p) (\<lambda>_. wp (each (poll_post pa ch cursor) ps) (\<lambda>_. once born) (\<lambda>_. once born)) (\<lambda>_. once born) s"
    by (rule wp_mono) (use Cons in auto)
  then show ?case by (simp add: wp_simps)
qed (simp add: wp_simps page_left_def)

lemma poll_channel_once:
  assumes "genuine born pa" "once born s"
  shows "wp (poll_channel pa ch) (\<lambda>_. once born) (\<lambda>_. once born) s"
proof (cases "map_of (po_cursors s) ch")
  case None
  then show ?thesis
    using assms(2) by (auto simp: poll_channel_def refused_one_def wp_simps once_def update_conv' split: sum.split poll_exn.split)
next
  case (Some c)
  have "wp (each (poll_post pa ch c) (sort_key p_create posts)) (\<lambda>_. once born) (\<lambda>_. once born) s" if "pa_since pa ch c = Inr posts" for posts
  proof (rule poll_page_once)
    have posts: "distinct (map p_id posts)" "\<forall>p \<in> set posts. p_channel p = ch \<and> born (p_id p) = (ch, p_create p) \<and> p_create p \<le> p_update p"
      using assms(1) that by (auto simp: genuine_def)
    then show "\<forall>p \<in> set (sort_key p_create posts). p_channel p = ch \<and> born (p_id p) = (ch, p_create p) \<and> p_create p \<le> p_update p" by simp
    show "distinct (map p_id (sort_key p_create posts))" using posts(1) by (simp add: distinct_map)
    show "page_left born c (sort_key p_create posts) s"
      using posts(2) assms(2) Some by (fastforce simp: page_left_def once_def)
  qed
  with Some assms(2) show ?thesis
    by (auto simp: poll_channel_def refused_one_def wp_simps split: sum.split poll_exn.split)
qed

lemma map_of_updates_other: "k \<notin> fst ` set ps \<Longrightarrow> map_of (dict_updates d ps) k = map_of d k"
  unfolding dict_updates_def by (induction ps arbitrary: d) (auto simp: update_conv')

lemma refresh_once:
  assumes "steady pa s" "once born s"
  shows "wp (refresh_channels pa) (\<lambda>_. once born) (\<lambda>_. once born) s"
proof -
  have "once born (s\<lparr>po_home := h, po_cursors := (if po_channels_at s = 0 then po_cursors s
      else dict_updates (po_cursors s) (map (\<lambda>c. (c, 1)) (sorted_list_of_set ((d \<union> g) - (po_direct s \<union> po_groups s))))),
      po_direct := d, po_groups := g, po_channels_at := pa_now pa\<rparr>)" if c: "channels pa = Inr (h, d, g)" for h d g
  proof -
    let ?new = "map (\<lambda>c. (c, 1)) (sorted_list_of_set ((d \<union> g) - (po_direct s \<union> po_groups s)))"
    have "map_of (dict_updates (po_cursors s) ?new) (p_channel p) = map_of (po_cursors s) (p_channel p)" if "p \<in> set (po_started s)" for p
    proof (rule map_of_updates_other)
      obtain x where "map_of (po_cursors s) (p_channel p) = Some x" using assms(2) \<open>p \<in> set (po_started s)\<close> by (auto simp: once_def)
      then have "p_channel p \<notin> (d \<union> g) - (po_direct s \<union> po_groups s)" using assms(1) c unfolding steady_def by (metis option.distinct(1))
      then show "p_channel p \<notin> fst ` set ?new" using assms(1) c by (auto simp: steady_def)
    qed
    then show ?thesis using assms(2) by (simp add: once_def)
  qed
  then show ?thesis
    using assms(2) by (auto simp: refresh_channels_def wp_simps split: sum.split)
qed

lemma poll_once: "genuine born pa \<Longrightarrow> steady pa s \<Longrightarrow> once born s \<Longrightarrow> once born (snd (agent_poll pa s))"
proof -
  assume pa: "genuine born pa" "steady pa s" and s: "once born s"
  have "wp (each (poll_channel pa) chs) (\<lambda>_. once born) (\<lambda>_. once born) t" if "once born t" for chs t
    by (rule wp_each) (auto intro: poll_channel_once pa that)
  then have "wp (agent_poll pa) (\<lambda>_. once born) (\<lambda>_. once born) s"
    unfolding agent_poll_def wp_simps by (rule wp_mono [OF refresh_once [OF pa(2) s]]) auto
  then show ?thesis by (auto simp: wp_def split: prod.splits sum.splits)
qed

interpretation polling: machine "\<lambda>s. po_started s = []" "poll_step born" "once born" for born
proof
  show "po_started s = [] \<Longrightarrow> once born s" for s by (simp add: once_def)
qed (auto simp: poll_step_def intro: poll_once)

text \<open>
  C27: no post is answered twice. Over any polls, whatever they find and whichever of them fail half way, the posts that tasks were started for are
  all different, as long as Mattermost keeps what it says of a post and a conversation that it lists as a new one was not polled before.
\<close>

theorem answered_once:
  assumes "po_started s = []" "(poll_step born)\<^sup>*\<^sup>* s t"
  shows "distinct (map p_id (po_started t))"
  using polling.reachable_inv [where s = s and t = t and born = born] assms by (simp add: once_def)

text \<open>A direct message that is answered; then Mattermost fails to list the conversations, and lists them again.\<close>

definition quiet_poll :: "time \<Rightarrow> bool \<Rightarrow> poll_answers" where
  "quiet_poll now works = \<lparr>pa_now = now,
     pa_channel = (if works then Inr (Some (''home'', ''team'')) else Inr None), pa_team = (if works then Inr (Some ''team'') else Inr None),
     pa_mine = (\<lambda>_. Inr [(''dm'', ''D'')]), pa_latest = (\<lambda>_. Inr []),
     pa_since = (\<lambda>ch c. Inr (if ch = ''dm'' \<and> c < 5 then [sample_post] else [])), pa_thread = (\<lambda>_. Inr [])\<rparr>"

definition fresh_poller :: poller where
  "fresh_poller = \<lparr>po_me = \<lparr>me_id = ''bot'', me_name = ''purdueaf''\<rparr>, po_cursors = [(''dm'', 1)], po_home = None, po_direct = {''dm''},
     po_groups = {}, po_channels_at = 1, po_started = []\<rparr>"

definition poller_after :: "bool list \<Rightarrow> poller" where
  "poller_after works = fold (\<lambda>(i, w) s. snd (agent_poll (quiet_poll (70 * of_nat (i + 1)) w) s)) (enumerate 0 works) fresh_poller"

lemma quiet_genuine: "genuine (\<lambda>_. (''dm'', 5)) (quiet_poll now works)"
  by (auto simp: genuine_def quiet_poll_def sample_post_def)

lemma channels_quiet: "channels (quiet_poll now True) = Inr (Some ''home'', {''dm''}, {})"
proof -
  have "listed ''D'' [(''dm'', ''D'')] = {''dm''}" "listed ''G'' [(''dm'', ''D'')] = {}" by (auto simp: listed_def)
  then show ?thesis by (simp add: channels_def quiet_poll_def)
qed

theorem answered_once_witness:
  "map p_id (po_started (poller_after [True, True])) = [''p1''] \<and> distinct (map p_id (po_started (poller_after [True, True])))"
proof
  show started: "map p_id (po_started (poller_after [True, True])) = [''p1'']" by code_simp
  have "po_direct (poller_after [True]) = {''dm''}" by code_simp
  then have "steady (quiet_poll now True) fresh_poller" "steady (quiet_poll now True) (poller_after [True])" for now
    by (auto simp: steady_def channels_quiet fresh_poller_def)
  moreover have "poller_after [True] = snd (agent_poll (quiet_poll 70 True) fresh_poller)"
    "poller_after [True, True] = snd (agent_poll (quiet_poll 140 True) (poller_after [True]))" by (simp_all add: poller_after_def)
  ultimately have "poll_step (\<lambda>_. (''dm'', 5)) fresh_poller (poller_after [True])"
    "poll_step (\<lambda>_. (''dm'', 5)) (poller_after [True]) (poller_after [True, True])"
    unfolding poll_step_def using quiet_genuine by metis+
  then have run: "(poll_step (\<lambda>_. (''dm'', 5)))\<^sup>*\<^sup>* fresh_poller (poller_after [True, True])" by simp
  have "po_started fresh_poller = []" by (simp add: fresh_poller_def)
  then show "distinct (map p_id (po_started (poller_after [True, True])))" using run by (rule answered_once)
qed

text \<open>
  A failure to list the conversations makes the agent answer old messages again. A poll that finds neither the channel nor the team takes all
  direct messages to be gone; the next one that finds them takes each for a new conversation, and starts again from its first post.
\<close>

theorem outage_repeats_answers: "map p_id (po_started (poller_after [True, False, True])) = [''p1'', ''p1'']"
  by code_simp

end
