(* ===== verification/Model_Validation.thy ===== *)
theory Model_Validation
  imports AF_Prelude
begin

text \<open>
  The checks of an uploaded model against Triton's layout: \<open>src/docker/supersonic-model-manager/model_manager/validation.py\<close>.

  A directory is a tree. A file has a size and, if it can be read, a text; a link stands only at the top of the repository and
  leads to another entry of it or elsewhere. Each message of the code is a constructor with the values it names; the
  wording is left out.
\<close>

subsection \<open>Trees of files\<close>

datatype node = File nat "string option" | Dir "(string, node) dict" | Link "string option"

fun entries :: "node \<Rightarrow> (string, node) dict" where
  "entries (Dir d) = d"
| "entries _ = []"

definition dir_child :: "node \<Rightarrow> string \<Rightarrow> node option" where
  "dir_child n name = map_of (entries n) name"

fun is_dir :: "node \<Rightarrow> bool" where
  "is_dir (Dir d) = True" | "is_dir _ = False"

fun is_file :: "node \<Rightarrow> bool" where
  "is_file (File _ _) = True" | "is_file _ = False"

fun lookup :: "string list \<Rightarrow> node \<Rightarrow> node option" where
  "lookup [] n = Some n"
| "lookup (p # ps) n = (case dir_child n p of Some m \<Rightarrow> lookup ps m | None \<Rightarrow> None)"

subsection \<open>The layouts of platforms and backends\<close>

datatype artifact_kind = Any | A_file | A_dir

definition PLATFORM_ARTIFACTS :: "(string, string \<times> artifact_kind) dict" where
  "PLATFORM_ARTIFACTS = [(''tensorrt_plan'', (''model.plan'', A_file)), (''onnxruntime_onnx'', (''model.onnx'', Any)),
     (''tensorflow_savedmodel'', (''model.savedmodel'', A_dir)), (''tensorflow_graphdef'', (''model.graphdef'', A_file)),
     (''pytorch_libtorch'', (''model.pt'', A_file)), (''openvino'', (''model.xml'', A_file)), (''python'', (''model.py'', A_file)),
     (''dali'', (''model.dali'', A_file))]"

definition BACKEND_ARTIFACTS :: "(string, (string \<times> artifact_kind) option) dict" where
  "BACKEND_ARTIFACTS = [(''tensorrt'', Some (''model.plan'', A_file)), (''onnxruntime'', Some (''model.onnx'', Any)),
     (''pytorch'', Some (''model.pt'', A_file)), (''openvino'', Some (''model.xml'', A_file)), (''python'', Some (''model.py'', A_file)),
     (''dali'', Some (''model.dali'', A_file)), (''tensorflow'', None), (''fil'', None), (''vllm'', None)]"

definition ARTIFACT_PLATFORMS :: "(string, string) dict" where
  "ARTIFACT_PLATFORMS = map (\<lambda>(platform, name, _). (name, platform)) PLATFORM_ARTIFACTS"

definition AUTOCOMPLETE_PLATFORMS :: "string list" where
  "AUTOCOMPLETE_PLATFORMS = [''tensorrt_plan'', ''onnxruntime_onnx'', ''tensorflow_savedmodel'', ''pytorch_libtorch'', ''python'']"

definition is_version_name :: "string \<Rightarrow> bool" where
  "is_version_name name \<longleftrightarrow> name \<noteq> [] \<and> (\<forall>c \<in> set name. is_digit c)"

subsection \<open>The configuration\<close>

text \<open>\<open>re.sub(r"#[^\n]*", "", text)\<close>.\<close>

fun strip_comments :: "string \<Rightarrow> string" where
  "strip_comments [] = []"
| "strip_comments (c # s) = (if c = CHR ''#'' then dropWhile (\<lambda>x. x \<noteq> newline) (strip_comments s) else c # strip_comments s)"

text \<open>\<open>name\s*:\s*"([^"]*)"\<close> at a place, and the first line at whose start it stands, with white space before it or without.\<close>

definition scalar_at :: "string \<Rightarrow> string \<Rightarrow> string option" where
  "scalar_at field s = (if \<not> prefix field s then None else
     (let r = lstrip_of py_space (drop (length field) s) in
      if \<not> prefix '':'' r then None else
      (let q = lstrip_of py_space (tl r) in
       if prefix [quote] q \<and> quote \<in> set (tl q) then Some (takeWhile (\<lambda>c. c \<noteq> quote) (tl q)) else None)))"

fun search_lines :: "(string \<Rightarrow> string option) \<Rightarrow> bool \<Rightarrow> string \<Rightarrow> string option" where
  "search_lines f start [] = None"
| "search_lines f start (c # s) = (case (if start then f (c # s) else None) of
     Some v \<Rightarrow> Some v | None \<Rightarrow> search_lines f (c = newline) s)"

definition scalar :: "string \<Rightarrow> string \<Rightarrow> string option" where
  "scalar text field = (case search_lines (scalar_at field) True text of
     Some v \<Rightarrow> Some v
   | None \<Rightarrow> search_lines (\<lambda>s. scalar_at field (lstrip_of py_space s)) True text)"

record model_config =
  cf_error :: bool
  cf_name :: "string option"
  cf_platform :: "string option"
  cf_backend :: "string option"
  cf_default_model_filename :: "string option"

definition parse_config :: "string option \<Rightarrow> model_config" where
  "parse_config content = (case content of
     None \<Rightarrow> \<lparr>cf_error = True, cf_name = None, cf_platform = None, cf_backend = None, cf_default_model_filename = None\<rparr>
   | Some t \<Rightarrow> let text = strip_comments t in
       \<lparr>cf_error = False, cf_name = scalar text ''name'', cf_platform = scalar text ''platform'',
        cf_backend = scalar text ''backend'', cf_default_model_filename = scalar text ''default_model_filename''\<rparr>)"

definition no_config :: model_config where
  "no_config = \<lparr>cf_error = False, cf_name = None, cf_platform = None, cf_backend = None, cf_default_model_filename = None\<rparr>"

definition setting :: "string option \<Rightarrow> string" where
  "setting v = strip_of py_space (case v of Some s \<Rightarrow> s | None \<Rightarrow> [])"

definition expected_artifact :: "string \<Rightarrow> string \<Rightarrow> string \<Rightarrow> (string \<times> artifact_kind) option" where
  "expected_artifact platform backend default_filename =
     (if default_filename \<noteq> [] then Some (default_filename, Any)
      else case map_of PLATFORM_ARTIFACTS platform of Some a \<Rightarrow> if platform \<noteq> [] then Some a else None
      | None \<Rightarrow> (case map_of BACKEND_ARTIFACTS backend of Some a \<Rightarrow> if backend \<noteq> [] then a else None | None \<Rightarrow> None))"

definition infer_platform :: "node \<Rightarrow> string" where
  "infer_platform version_dir = (case List.find (\<lambda>(artifact, _). dir_child version_dir artifact \<noteq> None) ARTIFACT_PLATFORMS of
     Some (_, platform) \<Rightarrow> platform | None \<Rightarrow> [])"

subsection \<open>The checks\<close>

datatype layout_error =
    No_model_directory | Config_unreadable | Name_differs string string
  | Stray_model_file string | No_version_directory | Version_below_one string
  | Version_empty string | Artifact_missing string string | Artifact_must_be_dir string string | Artifact_must_be_file string string
  | No_config_for string | No_config_nor_backend

datatype layout_warning =
    No_platform_set | Directory_ignored string | File_ignored string | No_model_bin string | Config_autocompleted string

record validation =
  vr_errors :: "layout_error list"
  vr_warnings :: "layout_warning list"
  vr_platform :: string
  vr_versions :: "string list"

definition vr_ok :: "validation \<Rightarrow> bool" where
  "vr_ok r \<longleftrightarrow> vr_errors r = []"

text \<open>\<open>Path.suffix\<close>: the last dot and what follows, unless the name begins or ends with it.\<close>

definition path_suffix :: "string \<Rightarrow> string" where
  "path_suffix name = (let e = rev (takeWhile (\<lambda>c. c \<noteq> CHR ''.'') (rev name)) in
     if e \<noteq> [] \<and> length e + 1 < length name then CHR ''.'' # e else [])"

text \<open>
  What \<open>version_dir / name\<close> is. A name that a configuration gives may have several parts; one that leads out of the directory is
  looked up elsewhere.
\<close>

definition artifact_at :: "(string \<Rightarrow> string \<Rightarrow> node option) \<Rightarrow> string \<Rightarrow> node \<Rightarrow> string \<Rightarrow> node option" where
  "artifact_at elsewhere version n name = (let parts = filter (\<lambda>p. p \<noteq> [] \<and> p \<noteq> ''.'') (split_on (CHR ''/'') name) in
     if prefix ''/'' name \<or> ''..'' \<in> set parts then elsewhere version name else lookup parts n)"

definition config_errors :: "bool \<Rightarrow> model_config \<Rightarrow> string \<Rightarrow> layout_error list" where
  "config_errors has_config config model_name = (if \<not> has_config then [] else
     (if cf_error config then [Config_unreadable] else [])
     @ (let declared = setting (cf_name config) in
        if declared \<noteq> [] \<and> declared \<noteq> model_name then [Name_differs declared model_name] else []))"

definition entry_warnings :: "(string, node) dict \<Rightarrow> layout_warning list" where
  "entry_warnings es = concat (map (\<lambda>(name, n).
     if is_dir n then (if is_version_name name \<or> name = ''warmup'' then [] else [Directory_ignored name])
     else if name \<noteq> ''config.pbtxt'' \<and> path_suffix name \<notin> {''.txt'', ''.json''} then [File_ignored name] else []) es)"

text \<open>One version directory: what is wrong with it, and the warning about OpenVINO's second file.\<close>

definition version_check :: "(string \<Rightarrow> string \<Rightarrow> node option) \<Rightarrow> string \<Rightarrow> (string \<times> artifact_kind) option \<Rightarrow> string \<times> node
    \<Rightarrow> layout_error list \<times> layout_warning list" where
  "version_check elsewhere platform expected v =
     (if platform = ''ensemble'' then ([], [])
      else if entries (snd v) = [] then ([Version_empty (fst v)], [])
      else case expected of None \<Rightarrow> ([], [])
      | Some (name, kind) \<Rightarrow> (case artifact_at elsewhere (fst v) (snd v) name of
          None \<Rightarrow> ([Artifact_missing (fst v) name], [])
        | Some n \<Rightarrow>
            if kind = A_dir \<and> \<not> is_dir n then ([Artifact_must_be_dir (fst v) name], [])
            else if kind = A_file \<and> is_dir n then ([Artifact_must_be_file (fst v) name], [])
            else if name = ''model.xml'' \<and> dir_child (snd v) ''model.bin'' = None then ([], [No_model_bin (fst v)])
            else ([], [])))"

definition config_missing :: "bool \<Rightarrow> string \<Rightarrow> layout_error list \<times> layout_warning list" where
  "config_missing has_config platform =
     (if has_config then ([], [])
      else if platform \<in> set AUTOCOMPLETE_PLATFORMS then ([], [Config_autocompleted platform])
      else if platform \<noteq> [] then ([No_config_for platform], [])
      else ([No_config_nor_backend], []))"

definition validate_model_dir :: "(string \<Rightarrow> string \<Rightarrow> node option) \<Rightarrow> node \<Rightarrow> string \<Rightarrow> validation" where
  "validate_model_dir elsewhere n model_name =
     (if \<not> is_dir n then \<lparr>vr_errors = [No_model_directory], vr_warnings = [], vr_platform = [], vr_versions = []\<rparr> else
      let es = sort_key fst (entries n);
          (has_config, config) = (case dir_child n ''config.pbtxt'' of Some (File _ content) \<Rightarrow> (True, parse_config content) | _ \<Rightarrow> (False, no_config));
          platform = setting (cf_platform config); backend = setting (cf_backend config);
          default_filename = setting (cf_default_model_filename config);
          errors = config_errors has_config config model_name;
          warnings = (if has_config \<and> platform = [] \<and> backend = [] then [No_platform_set] else []) @ entry_warnings es;
          version_dirs = filter (\<lambda>(name, m). is_dir m \<and> is_version_name name) es
      in if version_dirs = [] then
           (let stray = filter (\<lambda>(name, m). is_file m \<and> map_of ARTIFACT_PLATFORMS name \<noteq> None) es in
            \<lparr>vr_errors = errors @ [if stray \<noteq> [] then Stray_model_file (fst (hd stray)) else No_version_directory],
             vr_warnings = warnings, vr_platform = [], vr_versions = []\<rparr>)
         else
           (let found = (if platform = [] \<and> backend = [] \<and> default_filename = [] then infer_platform (snd (hd version_dirs)) else platform);
                checks = map (version_check elsewhere found (expected_artifact found backend default_filename)) version_dirs;
                missing = config_missing has_config found
            in \<lparr>vr_errors = errors @ map (\<lambda>(v, _). Version_below_one v) (filter (\<lambda>(v, _). digits_value v < 1) version_dirs)
                  @ concat (map fst checks) @ fst missing,
                vr_warnings = warnings @ concat (map snd checks) @ snd missing,
                vr_platform = (if found \<noteq> [] then found else backend),
                vr_versions = sort_key digits_value (map fst version_dirs)\<rparr>))"

subsection \<open>What a model is to be\<close>

text \<open>
  Triton's layout, without the code's order of checks: what a directory says of itself in its configuration, its versions, and what each
  of them is to hold.
\<close>

definition config_of :: "node \<Rightarrow> string option option" where
  "config_of n = (case dir_child n ''config.pbtxt'' of Some (File _ c) \<Rightarrow> Some c | _ \<Rightarrow> None)"

definition declared :: "node \<Rightarrow> (model_config \<Rightarrow> string option) \<Rightarrow> string" where
  "declared n f = setting (case config_of n of Some c \<Rightarrow> f (parse_config c) | None \<Rightarrow> None)"

definition versions :: "node \<Rightarrow> (string \<times> node) set" where
  "versions n = {(v, m). dir_child n v = Some m \<and> is_dir m \<and> is_version_name v}"

definition undeclared :: "node \<Rightarrow> bool" where
  "undeclared n \<longleftrightarrow> declared n cf_platform = [] \<and> declared n cf_backend = [] \<and> declared n cf_default_model_filename = []"

definition platform_of :: "node \<Rightarrow> string" where
  "platform_of n = (if undeclared n then infer_platform (the (dir_child n (Min (fst ` versions n)))) else declared n cf_platform)"

definition kind_fits :: "artifact_kind \<Rightarrow> node \<Rightarrow> bool" where
  "kind_fits k n \<longleftrightarrow> (k = A_dir \<longrightarrow> is_dir n) \<and> (k = A_file \<longrightarrow> \<not> is_dir n)"

definition triton_layout :: "(string \<Rightarrow> string \<Rightarrow> node option) \<Rightarrow> node \<Rightarrow> string \<Rightarrow> bool" where
  "triton_layout elsewhere n name \<longleftrightarrow> is_dir n
     \<and> (config_of n \<noteq> None \<longrightarrow> config_of n \<noteq> Some None \<and> declared n cf_name \<in> {[], name})
     \<and> (config_of n = None \<longrightarrow> platform_of n \<in> set AUTOCOMPLETE_PLATFORMS)
     \<and> versions n \<noteq> {}
     \<and> (\<forall>(v, m) \<in> versions n. 1 \<le> digits_value v \<and> (platform_of n \<noteq> ''ensemble'' \<longrightarrow> entries m \<noteq> []
         \<and> (\<forall>a k. expected_artifact (platform_of n) (declared n cf_backend) (declared n cf_default_model_filename) = Some (a, k)
              \<longrightarrow> (\<exists>x. artifact_at elsewhere v m a = Some x \<and> kind_fits k x))))"

definition version_dirs_of :: "node \<Rightarrow> (string, node) dict" where
  "version_dirs_of n = filter (\<lambda>(name, m). is_dir m \<and> is_version_name name) (sort_key fst (entries n))"

lemma set_version_dirs: "distinct (map fst (entries n)) \<Longrightarrow> set (version_dirs_of n) = versions n"
  by (auto simp: version_dirs_of_def versions_def dir_child_def)

lemma first_version:
  assumes "distinct (map fst (entries n))" "version_dirs_of n \<noteq> []"
  shows "dir_child n (Min (fst ` versions n)) = Some (snd (hd (version_dirs_of n)))"
proof -
  obtain v m vs where vs: "version_dirs_of n = (v, m) # vs" using assms(2) by (cases "version_dirs_of n") auto
  have "sorted (map fst (version_dirs_of n))" unfolding version_dirs_of_def by (rule sorted_filter) simp
  then have "\<forall>x \<in> fst ` set (version_dirs_of n). v \<le> x" using vs by auto
  moreover have "v \<in> fst ` set (version_dirs_of n)" using vs by simp
  ultimately have "Min (fst ` versions n) = v"
    unfolding set_version_dirs [OF assms(1), symmetric] by (intro Min_eqI) auto
  moreover have "(v, m) \<in> versions n" using set_version_dirs [OF assms(1)] vs by auto
  ultimately show ?thesis using vs by (simp add: versions_def)
qed

lemma config_case:
  "(case dir_child n ''config.pbtxt'' of Some (File _ content) \<Rightarrow> (True, parse_config content) | _ \<Rightarrow> (False, no_config))
   = (config_of n \<noteq> None, case config_of n of Some c \<Rightarrow> parse_config c | None \<Rightarrow> no_config)"
  by (auto simp: config_of_def split: option.split node.split)

lemma no_config_fields [simp]:
  "cf_name no_config = None" "cf_platform no_config = None" "cf_backend no_config = None" "cf_default_model_filename no_config = None"
  by (simp_all add: no_config_def)

lemma declared_settings:
  fixes n
  defines "config \<equiv> (case config_of n of Some c \<Rightarrow> parse_config c | None \<Rightarrow> no_config)"
  shows "setting (cf_name config) = declared n cf_name" "setting (cf_platform config) = declared n cf_platform"
    "setting (cf_backend config) = declared n cf_backend"
    "setting (cf_default_model_filename config) = declared n cf_default_model_filename"
  unfolding config_def by (simp_all add: declared_def split: option.split)

lemma version_check_ok:
  "fst (version_check elsewhere platform expected (v, m)) = [] \<longleftrightarrow> (platform \<noteq> ''ensemble'' \<longrightarrow> entries m \<noteq> []
     \<and> (\<forall>a k. expected = Some (a, k) \<longrightarrow> (\<exists>x. artifact_at elsewhere v m a = Some x \<and> kind_fits k x)))"
  by (auto simp: version_check_def kind_fits_def split: option.split prod.split)

lemma config_missing_ok: "fst (config_missing has p) = [] \<longleftrightarrow> has \<or> p \<in> set AUTOCOMPLETE_PLATFORMS"
  by (simp add: config_missing_def)

lemma config_errors_ok:
  "config_errors (config_of n \<noteq> None) (case config_of n of Some c \<Rightarrow> parse_config c | None \<Rightarrow> no_config) name = []
   \<longleftrightarrow> (config_of n \<noteq> None \<longrightarrow> config_of n \<noteq> Some None \<and> declared n cf_name \<in> {[], name})"
proof -
  have "cf_error (parse_config c) \<longleftrightarrow> c = None" for c by (simp add: parse_config_def Let_def split: option.split)
  then show ?thesis
    unfolding config_errors_def declared_settings by (auto simp: Let_def split: option.split)
qed

text \<open>The errors that are found, over what the directory declares.\<close>

lemma errors_eq:
  assumes "is_dir n"
  defines "found \<equiv> (if undeclared n then infer_platform (snd (hd (version_dirs_of n))) else declared n cf_platform)"
  shows "vr_errors (validate_model_dir elsewhere n name) = [] \<longleftrightarrow>
     config_errors (config_of n \<noteq> None) (case config_of n of Some c \<Rightarrow> parse_config c | None \<Rightarrow> no_config) name = []
     \<and> version_dirs_of n \<noteq> [] \<and> (\<forall>v \<in> set (version_dirs_of n). \<not> digits_value (fst v) < 1)
     \<and> (\<forall>v \<in> set (version_dirs_of n).
          fst (version_check elsewhere found (expected_artifact found (declared n cf_backend) (declared n cf_default_model_filename)) v) = [])
     \<and> fst (config_missing (config_of n \<noteq> None) found) = []"
  using assms(1) unfolding found_def validate_model_dir_def config_case Let_def prod.case declared_settings
    version_dirs_of_def [symmetric] undeclared_def
  by (cases "version_dirs_of n = []") (simp_all add: filter_empty_conv split_beta del: split_paired_All split_paired_Ex)

lemma validate_model_dir_layout:
  assumes "distinct (map fst (entries n))"
  shows "vr_ok (validate_model_dir elsewhere n name) \<longleftrightarrow> triton_layout elsewhere n name"
proof (cases "is_dir n")
  case False
  then show ?thesis by (simp add: vr_ok_def validate_model_dir_def triton_layout_def)
next
  case True
  note vs = set_version_dirs [OF assms]
  have found: "platform_of n = (if undeclared n then infer_platform (snd (hd (version_dirs_of n))) else declared n cf_platform)"
    if "version_dirs_of n \<noteq> []"
    using first_version [OF assms that] by (simp add: platform_of_def)
  show ?thesis
  proof (cases "version_dirs_of n = []")
    case True
    then show ?thesis
      using errors_eq [OF \<open>is_dir n\<close>, of elsewhere name] vs by (auto simp: vr_ok_def triton_layout_def)
  next
    case False
    have "versions n \<noteq> {}" using False vs by auto
    then show ?thesis
      unfolding vr_ok_def errors_eq [OF \<open>is_dir n\<close>] triton_layout_def found [OF False, symmetric] config_errors_ok
        config_missing_ok vs
      using \<open>is_dir n\<close> False by (auto simp: version_check_ok not_less split: prod.splits)
  qed
qed


definition sample_model :: "string \<Rightarrow> node" where
  "sample_model artifact = Dir [(''config.pbtxt'', File 60 (Some (''name: '' @ [quote] @ ''resnet'' @ [quote, newline]
       @ ''backend: '' @ [quote] @ ''onnxruntime'' @ [quote]))),
     (''1'', Dir [(artifact, File 100 None)])]"


end
