(* ===== verification/Model_Repository.thy ===== *)
theory Model_Repository
  imports Model_Validation
begin

text \<open>
  The model repository of the SuperSONIC model manager: \<open>src/docker/supersonic-model-manager/model_manager/repository.py\<close>. Uploads are
  unpacked in a staging directory, checked, and moved into place.

  The members that \<open>zipfile\<close> and \<open>tarfile\<close> find in an archive, the error that ends them if there is one, the clock and the
  operations on the volume that may fail are arguments. A renaming either happens or leaves everything as it was.
\<close>

subsection \<open>Names and paths\<close>

datatype repo_error = Refused | Invalid validation | Failed string

definition STAGING_DIRNAME :: string where "STAGING_DIRNAME = ''.uploads''"

definition ARCHIVE_SUFFIXES :: "string list" where
  "ARCHIVE_SUFFIXES = [''.zip'', ''.tar'', ''.tar.gz'', ''.tgz'', ''.tar.bz2'', ''.tbz2'', ''.tar.xz'', ''.txz'']"

definition model_char :: "char \<Rightarrow> bool" where
  "model_char c \<longleftrightarrow> is_lower_alnum (lower_char c) \<or> c \<in> {CHR ''.'', CHR ''_'', CHR ''-''}"

text \<open>\<open>MODEL_NAME_RE.match\<close>: the dollar sign also matches before a last line break.\<close>

definition model_name_matches :: "string \<Rightarrow> bool" where
  "model_name_matches s = (let b = (if s \<noteq> [] \<and> last s = newline then butlast s else s) in
     b \<noteq> [] \<and> length b \<le> 255 \<and> (\<forall>c \<in> set b. model_char c))"

definition validate_name :: "string \<Rightarrow> repo_error + string" where
  "validate_name s = (let name = strip_of {CHR ''/''} (strip_of py_space s) in
     if \<not> model_name_matches name \<or> prefix ''.'' name then Inl Refused else Inr name)"

definition is_internal_name :: "string \<Rightarrow> bool" where
  "is_internal_name name \<longleftrightarrow> name = [] \<or> prefix ''.'' name \<or> name = STAGING_DIRNAME"

fun safe_parts :: "string list \<Rightarrow> repo_error + string list" where
  "safe_parts [] = Inr []"
| "safe_parts (p # ps) =
     (if p = [] \<or> p = ''.'' then safe_parts ps
      else if p = ''..'' \<or> CHR '':'' \<in> set p then Inl Refused
      else bind_sum (safe_parts ps) (\<lambda>qs. Inr (p # qs)))"

definition forward_slashes :: "string \<Rightarrow> string" where
  "forward_slashes s = map (\<lambda>c. if c = backslash then CHR ''/'' else c) s"

definition safe_relpath :: "string \<Rightarrow> repo_error + string list" where
  "safe_relpath member_name =
     bind_sum (safe_parts (split_on (CHR ''/'') (lstrip_of {CHR ''/''} (forward_slashes member_name)))) (\<lambda>parts.
     if parts = [] then Inl Refused else Inr parts)"

definition is_junk :: "string list \<Rightarrow> bool" where
  "is_junk parts \<longleftrightarrow> (\<exists>p \<in> set parts. p = ''__MACOSX'' \<or> prefix ''._'' p \<or> p \<in> {''.DS_Store'', ''Thumbs.db'', ''desktop.ini''})"

definition is_archive :: "string \<Rightarrow> bool" where
  "is_archive filename \<longleftrightarrow> (\<exists>e \<in> set ARCHIVE_SUFFIXES. suffix e (lower filename))"

text \<open>\<open>Path(filename).stem\<close>, and the name without the longest suffix of an archive.\<close>

definition path_name :: "string \<Rightarrow> string" where
  "path_name filename = (case filter (\<lambda>p. p \<noteq> [] \<and> p \<noteq> ''.'') (split_on (CHR ''/'') filename) of [] \<Rightarrow> [] | ps \<Rightarrow> last ps)"

definition path_stem :: "string \<Rightarrow> string" where
  "path_stem filename = (let name = path_name filename in take (length name - length (path_suffix name)) name)"

definition strip_archive_suffix :: "string \<Rightarrow> string" where
  "strip_archive_suffix filename = (case List.find (\<lambda>e. suffix e (lower filename)) (rev (sort_key length (rev ARCHIVE_SUFFIXES))) of
     Some e \<Rightarrow> take (length filename - length e) filename
   | None \<Rightarrow> path_stem filename)"

subsection \<open>Unpacking\<close>

text \<open>\<open>mkdir(parents=True, exist_ok=True)\<close>, and a file written where there is a directory for it.\<close>

fun mkdirs :: "string list \<Rightarrow> node \<Rightarrow> repo_error + node" where
  "mkdirs [] n = (if is_dir n then Inr n else Inl (Failed ''FileExistsError''))"
| "mkdirs (p # ps) (Dir d) =
     bind_sum (mkdirs ps (case map_of d p of Some n \<Rightarrow> n | None \<Rightarrow> Dir [])) (\<lambda>n. Inr (Dir (AList.update p n d)))"
| "mkdirs (p # ps) n = Inl (Failed ''NotADirectoryError'')"

fun write_file :: "string list \<Rightarrow> node \<Rightarrow> node \<Rightarrow> repo_error + node" where
  "write_file [p] f (Dir d) =
     (case map_of d p of Some (Dir _) \<Rightarrow> Inl (Failed ''IsADirectoryError'') | _ \<Rightarrow> Inr (Dir (AList.update p f d)))"
| "write_file (p # ps) f (Dir d) = (case map_of d p of
     None \<Rightarrow> Inl (Failed ''FileNotFoundError'')
   | Some n \<Rightarrow> bind_sum (write_file ps f n) (\<lambda>m. Inr (Dir (AList.update p m d))))"
| "write_file ps f n = Inl (Failed ''NotADirectoryError'')"

datatype member_kind = M_file | M_dir | M_link | M_other

text \<open>A member of an archive, with the error that copying its content meets, if any.\<close>

record member =
  am_name :: string
  am_kind :: member_kind
  am_size :: nat
  am_text :: "string option"
  am_fails :: "string option"

definition place :: "member \<Rightarrow> bool \<Rightarrow> int \<times> node \<Rightarrow> repo_error + int \<times> node" where
  "place m dir st = bind_sum (safe_relpath (am_name m)) (\<lambda>rel.
     if is_junk rel then Inr st
     else if dir then bind_sum (mkdirs rel (snd st)) (\<lambda>t. Inr (fst st, t))
     else let remaining = fst st - int (am_size m) in
       if remaining < 0 then Inl Refused
       else bind_sum (mkdirs (butlast rel) (snd st)) (\<lambda>t.
         bind_sum (write_file rel (File (am_size m) (am_text m)) t) (\<lambda>t'.
         case am_fails m of Some e \<Rightarrow> Inl (Failed e) | None \<Rightarrow> Inr (remaining, t'))))"

definition zip_member :: "member \<Rightarrow> int \<times> node \<Rightarrow> repo_error + int \<times> node" where
  "zip_member m st = place m (suffix ''/'' (am_name m)) st"

definition tar_member :: "member \<Rightarrow> int \<times> node \<Rightarrow> repo_error + int \<times> node" where
  "tar_member m st =
     (if prefix ''PaxHeader'' (am_name m) \<or> sublist ''/PaxHeader'' (am_name m) then Inr st
      else if am_kind m = M_link \<or> am_kind m = M_other then Inl Refused
      else place m (am_kind m = M_dir) st)"

fun unpack :: "(member \<Rightarrow> int \<times> node \<Rightarrow> repo_error + int \<times> node) \<Rightarrow> member list \<Rightarrow> string option \<Rightarrow> int \<times> node \<Rightarrow> repo_error + int \<times> node" where
  "unpack f [] e st = (case e of None \<Rightarrow> Inr st | Some x \<Rightarrow> Inl (Failed x))"
| "unpack f (m # ms) e st = bind_sum (f m st) (unpack f ms e)"

definition extract_archive :: "bool \<Rightarrow> member list \<times> string option \<Rightarrow> int \<Rightarrow> repo_error + int \<times> node" where
  "extract_archive is_zip archive budget =
     unpack (if is_zip then zip_member else tar_member) (fst archive) (snd archive) (budget, Dir [])"

text \<open>One of the files of a directory upload; the bytes of all of them so far count against the limit.\<close>

definition add_file :: "int \<Rightarrow> member \<Rightarrow> int \<times> node \<Rightarrow> repo_error + int \<times> node" where
  "add_file limit m st = bind_sum (safe_relpath (am_name m)) (\<lambda>rel.
     if is_junk rel then Inr st
     else bind_sum (mkdirs (butlast rel) (snd st)) (\<lambda>t.
       bind_sum (write_file rel (File (am_size m) (am_text m)) t) (\<lambda>t'.
       if fst st + int (am_size m) > limit then Inl Refused
       else case am_fails m of Some e \<Rightarrow> Inl (Failed e) | None \<Rightarrow> Inr (fst st + int (am_size m), t'))))"

subsection \<open>Finding the model\<close>

definition looks_like_model_dir :: "node \<Rightarrow> bool" where
  "looks_like_model_dir n \<longleftrightarrow> (case dir_child n ''config.pbtxt'' of Some m \<Rightarrow> is_file m | None \<Rightarrow> False)
     \<or> (\<exists>(name, m) \<in> set (entries n). is_dir m \<and> is_version_name name)"

fun resolve_model_root :: "nat \<Rightarrow> string option \<Rightarrow> node \<Rightarrow> string option \<times> node" where
  "resolve_model_root 0 name n = (name, n)"
| "resolve_model_root (Suc k) name n =
     (if looks_like_model_dir n then (name, n)
      else case filter (\<lambda>(c, _). \<not> is_junk [c]) (entries n) of
        [(c, m)] \<Rightarrow> if is_dir m then resolve_model_root k (Some c) m else (name, n)
      | _ \<Rightarrow> (name, n))"

text \<open>\<open>_dir_stats\<close>: bytes and files.\<close>

fun tree_size :: "node \<Rightarrow> nat" and tree_files :: "node \<Rightarrow> nat" where
  "tree_size (File n _) = n"
| "tree_size (Dir d) = sum_list (map (\<lambda>p. tree_size (snd p)) d)"
| "tree_size (Link _) = 0"
| "tree_files (File n _) = 1"
| "tree_files (Dir d) = sum_list (map (\<lambda>p. tree_files (snd p)) d)"
| "tree_files (Link _) = 0"

subsection \<open>Installing, and removing\<close>

text \<open>The entries of the repository, but for the staging directory, and the entries of that.\<close>

record repo =
  rp_models :: "(string, node) dict"
  rp_staging :: "(string, node) dict"

text \<open>
  What may fail while a model is moved into place: the renaming of the old one, the move, the renaming back; and what cannot be removed of the
  old one and of the staging directory.
\<close>

record install_env =
  ie_now :: int
  ie_stage :: string
  ie_rename :: "string option"
  ie_move :: "string option"
  ie_restore :: "string option"
  ie_left :: "node option"
  ie_stage_left :: "node option"

definition model_path :: "string \<Rightarrow> repo \<Rightarrow> repo_error + string" where
  "model_path s r = bind_sum (validate_name s) (\<lambda>name. case map_of (rp_models r) name of
     Some (Link t) \<Rightarrow> (case t of Some m \<Rightarrow> Inr m | None \<Rightarrow> Inl Refused)
   | _ \<Rightarrow> Inr name)"

definition backup_name :: "string \<Rightarrow> int \<Rightarrow> string" where
  "backup_name target now = ''.'' @ target @ ''.replaced-'' @ show_int now"

definition left_over :: "string \<Rightarrow> node option \<Rightarrow> (string, node) dict \<Rightarrow> (string, node) dict" where
  "left_over name left d = (case left of None \<Rightarrow> AList.delete name d | Some n \<Rightarrow> AList.update name n d)"

definition replace_model :: "install_env \<Rightarrow> node \<Rightarrow> string \<Rightarrow> node \<Rightarrow> repo \<Rightarrow> (repo_error + unit) \<times> repo" where
  "replace_model env source target old r =
     (let backup = backup_name target (ie_now env);
          aside = AList.update backup old (AList.delete target (rp_models r))
      in case ie_rename env of Some e \<Rightarrow> (Inl (Failed e), r)
      | None \<Rightarrow>
        if map_of (rp_models r) backup \<notin> {None, Some (Dir [])} then (Inl (Failed ''OSError''), r)
        else case ie_move env of
          Some e \<Rightarrow> (case ie_restore env of
              Some e' \<Rightarrow> (Inl (Failed e'), r\<lparr>rp_models := aside\<rparr>)
            | None \<Rightarrow> (Inl (Failed e), r\<lparr>rp_models := AList.update target old (AList.delete backup aside)\<rparr>))
        | None \<Rightarrow> (Inr (), r\<lparr>rp_models := left_over backup (ie_left env) (AList.update target source aside)\<rparr>))"

definition install_model :: "install_env \<Rightarrow> node \<Rightarrow> string \<Rightarrow> bool \<Rightarrow> repo \<Rightarrow> (repo_error + string \<times> nat \<times> nat) \<times> repo" where
  "install_model env source name overwrite r = (case model_path name r of
     Inl e \<Rightarrow> (Inl e, r)
   | Inr target \<Rightarrow>
       (let (moved, r') = (case map_of (rp_models r) target of
            Some old \<Rightarrow> if \<not> overwrite then (Inl Refused, r) else replace_model env source target old r
          | None \<Rightarrow> (case ie_move env of
              Some e \<Rightarrow> (Inl (Failed e), r)
            | None \<Rightarrow> (Inr (), r\<lparr>rp_models := AList.update target source (rp_models r)\<rparr>)))
        in (bind_sum moved (\<lambda>_. Inr (name, tree_size source, tree_files source)), r')))"

text \<open>The staged model is checked under its name before it is moved.\<close>

definition install_checked :: "(string \<Rightarrow> string \<Rightarrow> node option) \<Rightarrow> install_env \<Rightarrow> node \<Rightarrow> string \<Rightarrow> bool \<Rightarrow> repo
    \<Rightarrow> (repo_error + string \<times> nat \<times> nat) \<times> repo" where
  "install_checked elsewhere env source name overwrite r =
     (let v = validate_model_dir elsewhere source name in
      if \<not> vr_ok v then (Inl (Invalid v), r) else install_model env source name overwrite r)"

definition in_staging :: "install_env \<Rightarrow> (repo \<Rightarrow> (repo_error + 'a) \<times> repo) \<Rightarrow> repo \<Rightarrow> (repo_error + 'a) \<times> repo" where
  "in_staging env act r =
     (if map_of (rp_staging r) (ie_stage env) \<noteq> None then (Inl (Failed ''FileExistsError''), r)
      else let (res, r') = act r in (res, r'\<lparr>rp_staging := left_over (ie_stage env) (ie_stage_left env) (rp_staging r')\<rparr>))"

definition MAX_DEPTH :: nat where "MAX_DEPTH = 5"

definition install_archive :: "(string \<Rightarrow> string \<Rightarrow> node option) \<Rightarrow> install_env \<Rightarrow> int \<Rightarrow> (bool \<Rightarrow> member list \<times> string option)
    \<Rightarrow> string \<Rightarrow> string \<Rightarrow> bool \<Rightarrow> repo \<Rightarrow> (repo_error + string \<times> nat \<times> nat) \<times> repo" where
  "install_archive elsewhere env limit archive filename name overwrite = in_staging env (\<lambda>r.
     let is_zip = suffix ''.zip'' (lower filename) in
     case extract_archive is_zip (archive is_zip) limit of Inl e \<Rightarrow> (Inl e, r)
     | Inr (_, t) \<Rightarrow>
         (let (found, source) = resolve_model_root MAX_DEPTH None t;
              asked = (if name \<noteq> [] then name else case found of Some c \<Rightarrow> c | None \<Rightarrow> strip_archive_suffix filename)
          in case validate_name asked of Inl e \<Rightarrow> (Inl e, r)
             | Inr n \<Rightarrow> install_checked elsewhere env source n overwrite r))"

definition upload_directory :: "(string \<Rightarrow> string \<Rightarrow> node option) \<Rightarrow> install_env \<Rightarrow> int \<Rightarrow> member list \<Rightarrow> string \<Rightarrow> bool \<Rightarrow> repo
    \<Rightarrow> (repo_error + string \<times> nat \<times> nat) \<times> repo" where
  "upload_directory elsewhere env limit files name overwrite r = (case validate_name name of
     Inl e \<Rightarrow> (Inl e, r)
   | Inr n \<Rightarrow> in_staging env (\<lambda>r. case unpack (add_file limit) files None (0, Dir []) of
       Inl e \<Rightarrow> (Inl e, r)
     | Inr (_, t) \<Rightarrow> install_checked elsewhere env (snd (resolve_model_root MAX_DEPTH None t)) n overwrite r) r)"

text \<open>\<open>shutil.rmtree\<close> may fail half way, with what it left.\<close>

definition delete_model :: "(string \<times> node) option \<Rightarrow> string \<Rightarrow> repo \<Rightarrow> (repo_error + unit) \<times> repo" where
  "delete_model fails name r = (case model_path name r of
     Inl e \<Rightarrow> (Inl e, r)
   | Inr target \<Rightarrow> (case map_of (rp_models r) target of
       Some (Dir _) \<Rightarrow> (case fails of
           None \<Rightarrow> (Inr (), r\<lparr>rp_models := AList.delete target (rp_models r)\<rparr>)
         | Some (e, n) \<Rightarrow> (Inl (Failed e), r\<lparr>rp_models := AList.update target n (rp_models r)\<rparr>))
     | _ \<Rightarrow> (Inl Refused, r)))"

definition cleanup_staging :: "(string \<Rightarrow> bool) \<Rightarrow> (string \<Rightarrow> node option) \<Rightarrow> repo \<Rightarrow> repo" where
  "cleanup_staging old left r = r\<lparr>rp_staging := fold (\<lambda>c. left_over c (left c)) (filter old (map fst (rp_staging r))) (rp_staging r)\<rparr>"

subsection \<open>Paths stay within\<close>

text \<open>Where a path leads, taken from a directory: dots and empty parts stay, two dots go up.\<close>

fun leads :: "string list \<Rightarrow> string list \<Rightarrow> string list" where
  "leads base [] = base"
| "leads base (p # ps) =
     (if p = [] \<or> p = ''.'' then leads base ps else if p = ''..'' then leads (butlast base) ps else leads (base @ [p]) ps)"

definition proper :: "string \<Rightarrow> bool" where
  "proper p \<longleftrightarrow> p \<notin> {[], ''.'', ''..''} \<and> set p \<inter> {CHR ''/'', CHR '':'', backslash} = {}"

lemma safe_parts_proper:
  "safe_parts ps = Inr qs \<Longrightarrow> \<forall>p \<in> set ps. set p \<inter> {CHR ''/'', backslash} = {} \<Longrightarrow> \<forall>q \<in> set qs. proper q"
  by (induction ps arbitrary: qs) (auto simp: proper_def bind_sum_eq_Inr split: if_splits)

lemma split_on_chars: "w \<in> set (split_on c s) \<Longrightarrow> set w \<subseteq> set s"
proof (induction s arbitrary: w)
  case (Cons x s)
  obtain v vs where v: "split_on c s = v # vs" by (meson list.exhaust split_on_not_Nil)
  with Cons have "set u \<subseteq> set s" if "u \<in> set (v # vs)" for u using that by metis
  with Cons.prems v show ?case by (auto split: if_splits; blast)
qed simp

lemma safe_relpath_proper:
  assumes "safe_relpath s = Inr rel"
  shows "rel \<noteq> []" "\<forall>p \<in> set rel. proper p"
proof -
  let ?t = "lstrip_of {CHR ''/''} (forward_slashes s)"
  have "backslash \<notin> set ?t"
    by (auto simp: lstrip_of_def forward_slashes_def backslash_def dest!: set_dropWhileD)
  then have "backslash \<notin> set p" if "p \<in> set (split_on (CHR ''/'') ?t)" for p
    using split_on_chars [OF that] by blast
  moreover have "CHR ''/'' \<notin> set p" if "p \<in> set (split_on (CHR ''/'') ?t)" for p using that by (rule split_on_no_sep)
  ultimately show "rel \<noteq> []" "\<forall>p \<in> set rel. proper p"
    using assms safe_parts_proper by (auto simp: safe_relpath_def bind_sum_eq_Inr split: if_splits)
qed

lemma leads_proper: "\<forall>p \<in> set ps. proper p \<Longrightarrow> leads base ps = base @ ps"
  by (induction ps arbitrary: base) (auto simp: proper_def)

subsection \<open>What unpacking keeps\<close>

text \<open>A tree without links in which no directory has two entries of one name.\<close>

fun neat :: "node \<Rightarrow> bool" where
  "neat (File _ _) = True"
| "neat (Dir d) = (distinct (map fst d) \<and> (\<forall>p \<in> set d. neat (snd p)))"
| "neat (Link _) = False"

lemma set_update: "distinct (map fst d) \<Longrightarrow> set (AList.update k v d) = insert (k, v) {p \<in> set d. fst p \<noteq> k}"
  by (induction d) (auto simp: rev_image_eqI)

lemma neat_update: "neat (Dir d) \<Longrightarrow> neat n \<Longrightarrow> neat (Dir (AList.update p n d))"
  by (auto simp: set_update distinct_update)

lemma size_update:
  "distinct (map fst d) \<Longrightarrow> tree_size (Dir (AList.update p n d)) + (case map_of d p of Some m \<Rightarrow> tree_size m | None \<Rightarrow> 0)
   = tree_size (Dir d) + tree_size n"
proof (induction d)
  case (Cons q d)
  have "map_of d p = None" if "fst q = p" using Cons.prems that by (auto simp: map_of_eq_None_iff)
  then show ?case using Cons by (cases q) (auto split: option.splits)
qed simp

lemma neat_map_of: "neat (Dir d) \<Longrightarrow> map_of d p = Some n \<Longrightarrow> neat n"
  by (auto dest!: map_of_SomeD)

lemma mkdirs_keeps:
  "mkdirs ps n = Inr m \<Longrightarrow> neat n \<Longrightarrow> neat m \<and> is_dir m \<and> tree_size m = tree_size n"
proof (induction ps n arbitrary: m rule: mkdirs.induct)
  case (2 p ps d)
  let ?n = "case map_of d p of Some n \<Rightarrow> n | None \<Rightarrow> Dir []"
  obtain k where k: "mkdirs ps ?n = Inr k" "m = Dir (AList.update p k d)" using "2.prems"(1) by (auto simp: bind_sum_eq_Inr)
  have "neat ?n" using "2.prems"(2) neat_map_of [of d p] by (auto split: option.split)
  then have "neat k" "tree_size k = tree_size ?n" using "2.IH" [OF k(1)] by auto
  moreover have "tree_size ?n = (case map_of d p of Some m \<Rightarrow> tree_size m | None \<Rightarrow> 0)" by (simp split: option.split)
  ultimately show ?case
    using k(2) size_update [of d p k] neat_update [OF "2.prems"(2)] "2.prems"(2) by simp
qed (auto split: if_splits)

lemma write_keeps:
  "write_file ps f n = Inr m \<Longrightarrow> neat n \<Longrightarrow> neat f \<Longrightarrow> neat m \<and> is_dir m \<and> tree_size m \<le> tree_size n + tree_size f"
proof (induction ps f n arbitrary: m rule: write_file.induct)
  case (1 p f d)
  then have m: "m = Dir (AList.update p f d)" by (auto split: option.splits node.splits)
  show ?case using m size_update [of d p f] neat_update [OF "1.prems"(2,3)] "1.prems"(2) by simp
next
  case (2 p q qs f d)
  obtain n' k where k: "map_of d p = Some n'" "write_file (q # qs) f n' = Inr k" "m = Dir (AList.update p k d)"
    using "2.prems"(1) by (auto simp: bind_sum_eq_Inr split: option.splits)
  have "neat k \<and> is_dir k \<and> tree_size k \<le> tree_size n' + tree_size f"
    using "2.IH" [OF k(1,2)] neat_map_of [OF "2.prems"(2) k(1)] "2.prems"(3) by blast
  then show ?case using k size_update [of d p k] neat_update [OF "2.prems"(2), of k p] "2.prems"(2) by simp
qed auto

lemma place_keeps:
  assumes "place m dir (b, t) = Inr (b', t')" "neat t" "is_dir t" "0 \<le> b"
  shows "neat t' \<and> is_dir t' \<and> 0 \<le> b' \<and> int (tree_size t') + b' \<le> int (tree_size t) + b"
proof -
  obtain rel where rel: "safe_relpath (am_name m) = Inr rel" using assms(1) by (auto simp: place_def bind_sum_eq_Inr)
  consider "is_junk rel" "t' = t" "b' = b"
    | "mkdirs rel t = Inr t'" "b' = b"
    | u where "mkdirs (butlast rel) t = Inr u" "write_file rel (File (am_size m) (am_text m)) u = Inr t'" "b' = b - int (am_size m)" "0 \<le> b'"
    using assms(1) rel by (auto simp: place_def bind_sum_eq_Inr Let_def not_less split: if_splits option.splits)
  then show ?thesis
  proof cases
    case 2
    then show ?thesis using mkdirs_keeps [OF 2(1) assms(2)] assms(4) by simp
  next
    case (3 u)
    then show ?thesis
      using mkdirs_keeps [OF 3(1) assms(2)] write_keeps [OF 3(2)] by simp
  qed (use assms in simp)
qed

lemma add_file_keeps:
  assumes "add_file limit m (w, t) = Inr (w', t')" "neat t" "is_dir t" "int (tree_size t) \<le> w" "w \<le> limit"
  shows "neat t' \<and> is_dir t' \<and> int (tree_size t') \<le> w' \<and> w' \<le> limit"
proof -
  obtain rel where rel: "safe_relpath (am_name m) = Inr rel" using assms(1) by (auto simp: add_file_def bind_sum_eq_Inr)
  consider "t' = t" "w' = w"
    | u where "mkdirs (butlast rel) t = Inr u" "write_file rel (File (am_size m) (am_text m)) u = Inr t'" "w' = w + int (am_size m)" "w' \<le> limit"
    using assms(1) rel by (auto simp: add_file_def bind_sum_eq_Inr Let_def not_less split: if_splits option.splits)
  then show ?thesis
  proof cases
    case (2 u)
    then show ?thesis using mkdirs_keeps [OF 2(1) assms(2)] write_keeps [OF 2(2)] assms(4) by simp
  qed (use assms in simp)
qed

lemma unpack_keeps:
  assumes "\<And>m st st'. f m st = Inr st' \<Longrightarrow> P st \<Longrightarrow> P st'"
  shows "unpack f ms e st = Inr st' \<Longrightarrow> P st \<Longrightarrow> P st'"
  by (induction ms arbitrary: st) (auto simp: bind_sum_eq_Inr split: option.splits dest: assms)

lemma extract_archive_keeps:
  assumes "extract_archive z archive limit = Inr (b, t)" "0 \<le> limit"
  shows "neat t" "is_dir t" "int (tree_size t) \<le> limit"
proof -
  define P where "P = (\<lambda>(b, t). neat t \<and> is_dir t \<and> 0 \<le> b \<and> int (tree_size t) + b \<le> limit)"
  have "P st'" if "(if z then zip_member else tar_member) m st = Inr st'" "P st" for m st st'
  proof -
    have "(\<exists>dir. place m dir st = Inr st') \<or> st' = st"
      using that(1) by (cases z) (auto simp: zip_member_def tar_member_def split: if_splits)
    then obtain dir where "place m dir st = Inr st' \<or> st' = st" by blast
    then show ?thesis using that(2) place_keeps [of m dir "fst st" "snd st" "fst st'" "snd st'"] by (auto simp: P_def split: prod.splits)
  qed
  then have "P (b, t)"
    using unpack_keeps [of "if z then zip_member else tar_member" P] assms unfolding extract_archive_def
    by (auto simp: P_def)
  then show "neat t" "is_dir t" "int (tree_size t) \<le> limit" by (auto simp: P_def)
qed

lemma upload_files_keeps:
  assumes "unpack (add_file limit) files None (0, Dir []) = Inr (w, t)" "0 \<le> limit"
  shows "neat t" "is_dir t" "int (tree_size t) \<le> limit"
proof -
  define P where "P = (\<lambda>(w, t). neat t \<and> is_dir t \<and> int (tree_size t) \<le> w \<and> w \<le> limit)"
  have "P st'" if "add_file limit m st = Inr st'" "P st" for m st st'
    using that add_file_keeps [of limit m "fst st" "snd st" "fst st'" "snd st'"] by (auto simp: P_def split: prod.splits)
  then have "P (w, t)" using unpack_keeps [of "add_file limit" P] assms by (auto simp: P_def)
  then show "neat t" "is_dir t" "int (tree_size t) \<le> limit" by (auto simp: P_def)
qed

lemma child_smaller: "neat (Dir d) \<Longrightarrow> (c, m) \<in> set d \<Longrightarrow> neat m \<and> tree_size m \<le> tree_size (Dir d)"
  using member_le_sum_list [of "tree_size m" "map (\<lambda>p. tree_size (snd p)) d"] by (fastforce simp: image_iff)

lemma resolve_keeps:
  "resolve_model_root k c n = (c', m) \<Longrightarrow> neat n \<Longrightarrow> neat m \<and> tree_size m \<le> tree_size n"
proof (induction k c n rule: resolve_model_root.induct)
  case (2 k name n)
  show ?case
  proof (cases "resolve_model_root (Suc k) name n = (name, n)")
    case False
    then obtain c x where cx: "filter (\<lambda>(c, _). \<not> is_junk [c]) (entries n) = [(c, x)]" "is_dir x" "\<not> looks_like_model_dir n"
      by (auto split: if_splits list.splits prod.splits)
    have "(c, x) \<in> set (filter (\<lambda>(c, _). \<not> is_junk [c]) (entries n))" unfolding cx(1) by simp
    then have "neat x \<and> tree_size x \<le> tree_size n" using child_smaller [of "entries n" c x] "2.prems"(2) by (cases n) auto
    moreover have "resolve_model_root k (Some c) x = (c', m)" using "2.prems"(1) cx by simp
    ultimately show ?thesis using "2.IH" [OF cx(3,1) refl refl cx(2)] by fastforce
  qed (use 2 in auto)
qed auto

subsection \<open>Names\<close>

lemma model_char_apart: "model_char c \<Longrightarrow> c \<notin> py_space \<and> c \<noteq> CHR ''/''"
proof -
  have "\<forall>c \<in> insert (CHR ''/'') py_space. \<not> model_char c" by code_simp
  then show "model_char c \<Longrightarrow> c \<notin> py_space \<and> c \<noteq> CHR ''/''" by blast
qed

lemma strip_of_id: "s = [] \<or> hd s \<notin> S \<and> last s \<notin> S \<Longrightarrow> strip_of S s = s"
proof (cases s)
  case (Cons c t)
  assume "s = [] \<or> hd s \<notin> S \<and> last s \<notin> S"
  with Cons have s: "hd s \<notin> S" "last s \<notin> S" "s \<noteq> []" by auto
  then have "dropWhile (\<lambda>c. c \<in> S) s = s" by (cases s) auto
  moreover have "dropWhile (\<lambda>c. c \<in> S) (rev s) = rev s" using s by (cases s rule: rev_cases) auto
  ultimately show ?thesis by (simp add: strip_of_def lstrip_of_def rstrip_of_def)
qed (simp add: strip_of_def lstrip_of_def rstrip_of_def)

lemma strip_of_snoc: "b \<noteq> [] \<Longrightarrow> hd b \<notin> S \<Longrightarrow> last b \<notin> S \<Longrightarrow> x \<in> S \<Longrightarrow> strip_of S (b @ [x]) = b"
proof -
  assume b: "b \<noteq> []" "hd b \<notin> S" "last b \<notin> S" "x \<in> S"
  then have "dropWhile (\<lambda>c. c \<in> S) (b @ [x]) = b @ [x]" by (cases b) auto
  moreover have "dropWhile (\<lambda>c. c \<in> S) (rev b) = rev b" using b by (cases b rule: rev_cases) auto
  ultimately show ?thesis using b(4) by (simp add: strip_of_def lstrip_of_def rstrip_of_def)
qed

lemma last_strip: "strip_of S s \<noteq> [] \<Longrightarrow> last (strip_of S s) \<notin> S"
  using hd_dropWhile [of "\<lambda>c. c \<in> S" "rev (lstrip_of S s)"] unfolding strip_of_def rstrip_of_def by (simp add: last_rev)

text \<open>A name that was taken, with or without a line break at its end, is taken again without it.\<close>

lemma validate_name_again:
  assumes "validate_name s = Inr n"
  shows "\<exists>b. validate_name n = Inr b \<and> (n = b \<or> n = b @ [newline]) \<and> b \<noteq> [] \<and> \<not> prefix ''.'' b"
proof -
  define b where "b = (if n \<noteq> [] \<and> last n = newline then butlast n else n)"
  have n: "model_name_matches n" "\<not> prefix ''.'' n" using assms by (auto simp: validate_name_def Let_def split: if_splits)
  then have b: "b \<noteq> []" "length b \<le> 255" "\<forall>c \<in> set b. model_char c" by (simp_all add: model_name_matches_def b_def Let_def)
  have nb: "n = b \<or> n = b @ [newline]" unfolding b_def by (metis append_butlast_last_id)
  have ends: "hd b \<notin> py_space" "last b \<notin> py_space" "hd b \<noteq> CHR ''/''" "last b \<noteq> CHR ''/''"
    using b(1,3) model_char_apart by simp_all
  have dot: "\<not> prefix ''.'' b" using n(2) nb by auto
  have "newline \<in> py_space" by code_simp
  then have "strip_of py_space n = b" using nb strip_of_id [of b py_space] strip_of_snoc [of b py_space newline] b(1) ends by auto
  moreover have "strip_of {CHR ''/''} b = b" using strip_of_id [of b "{CHR ''/''}"] ends by simp
  moreover have "model_name_matches b"
  proof -
    have "last b \<noteq> newline" using ends(2) \<open>newline \<in> py_space\<close> by auto
    then show ?thesis using b by (simp add: model_name_matches_def Let_def)
  qed
  ultimately have "validate_name n = Inr b" using dot by (simp add: validate_name_def Let_def)
  with nb b(1) dot show ?thesis by blast
qed

lemma layout_bare_name: "triton_layout elsewhere t (b @ [newline]) \<Longrightarrow> triton_layout elsewhere t b"
proof -
  have "declared t cf_name \<noteq> b @ [newline]"
  proof
    assume d: "declared t cf_name = b @ [newline]"
    then have "last (declared t cf_name) \<notin> py_space" unfolding declared_def setting_def by (intro last_strip) auto
    moreover have "newline \<in> py_space" by code_simp
    ultimately show False using d by simp
  qed
  then show "triton_layout elsewhere t (b @ [newline]) \<Longrightarrow> triton_layout elsewhere t b" by (auto simp: triton_layout_def)
qed

subsection \<open>All or nothing\<close>

abbreviation hidden :: "string \<Rightarrow> bool" where "hidden m \<equiv> prefix ''.'' m"

definition same_but :: "string set \<Rightarrow> repo \<Rightarrow> repo \<Rightarrow> bool" where
  "same_but N r r' \<longleftrightarrow> (\<forall>m. \<not> hidden m \<longrightarrow> m \<notin> N \<longrightarrow> map_of (rp_models r') m = map_of (rp_models r) m)"

definition unlinked :: "repo \<Rightarrow> bool" where
  "unlinked r \<longleftrightarrow> (\<forall>m t. \<not> hidden m \<longrightarrow> map_of (rp_models r) m \<noteq> Some (Link t))"

text \<open>What an upload may do: install the checked model, or change nothing that is seen. If even renaming back fails, the old model is still there under its other name.\<close>

definition all_or_nothing :: "(node \<Rightarrow> string \<Rightarrow> bool) \<Rightarrow> install_env \<Rightarrow> repo \<Rightarrow> (repo_error + string \<times> nat \<times> nat) \<Rightarrow> repo \<Rightarrow> bool" where
  "all_or_nothing good env r res r' = (case res of
     Inr (name, bytes, files) \<Rightarrow> \<exists>n t. (name = n \<or> name = n @ [newline]) \<and> \<not> hidden n \<and> map_of (rp_models r') n = Some t
       \<and> tree_size t = bytes \<and> tree_files t = files \<and> good t n \<and> same_but {n} r r'
   | Inl e \<Rightarrow> same_but {} r r'
       \<or> ie_restore env \<noteq> None \<and> (\<exists>n old. map_of (rp_models r) n = Some old
           \<and> map_of (rp_models r') (backup_name n (ie_now env)) = Some old \<and> same_but {n} r r'))"

lemma all_or_nothing_Inl: "same_but {} r r' \<Longrightarrow> all_or_nothing good env r (Inl e) r'"
  by (simp add: all_or_nothing_def)

lemma all_or_nothing_Inr:
  "name = n \<or> name = n @ [newline] \<Longrightarrow> \<not> hidden n \<Longrightarrow> map_of (rp_models r') n = Some t \<Longrightarrow> good t n \<Longrightarrow> same_but {n} r r'
   \<Longrightarrow> all_or_nothing good env r (Inr (name, tree_size t, tree_files t)) r'"
  unfolding all_or_nothing_def by auto

lemma same_but_refl [simp]: "same_but N r r"
  by (simp add: same_but_def)

lemma hidden_backup [simp]: "hidden (backup_name n t)"
  by (simp add: backup_name_def)

lemma map_of_left_over: "m \<noteq> name \<Longrightarrow> map_of (left_over name left d) m = map_of d m"
  by (auto simp: left_over_def delete_conv' update_conv' split: option.split)

lemma replace_model_outcome:
  assumes "replace_model env source n old r = (res, r')" "map_of (rp_models r) n = Some old" "\<not> hidden n"
  shows "res = Inr () \<and> map_of (rp_models r') n = Some source \<and> same_but {n} r r'
    \<or> (\<exists>e. res = Inl e) \<and> (same_but {} r r'
        \<or> ie_restore env \<noteq> None \<and> map_of (rp_models r') (backup_name n (ie_now env)) = Some old \<and> same_but {n} r r')"
proof -
  have "n \<noteq> backup_name n (ie_now env)" using assms(3) hidden_backup by metis
  moreover have "m \<noteq> backup_name n (ie_now env)" if "\<not> hidden m" for m using that hidden_backup by metis
  ultimately show ?thesis
    using assms
    by (auto simp: replace_model_def Let_def same_but_def map_of_left_over update_conv' delete_conv' split: option.splits if_splits)
qed

lemma install_model_outcome:
  assumes "install_model env source n r_ow r = (res, r')" "validate_name s = Inr n" "unlinked r"
    and "\<And>b. n = b \<or> n = b @ [newline] \<Longrightarrow> good source b"
  shows "all_or_nothing good env r res r'"
proof -
  obtain b where b: "validate_name n = Inr b" "n = b \<or> n = b @ [newline]" "b \<noteq> []" "\<not> hidden b"
    using validate_name_again [OF assms(2)] by blast
  have path: "model_path n r = Inr b"
    using b assms(3) by (auto simp: model_path_def unlinked_def bind_sum_def split: option.splits node.splits)
  show ?thesis
  proof (cases "map_of (rp_models r) b")
    case None
    then show ?thesis
      using assms(1) path b assms(4) [OF b(2)]
      by (auto simp: install_model_def all_or_nothing_def same_but_def update_conv' bind_sum_def split: option.splits)
  next
    case (Some old)
    show ?thesis
    proof (cases r_ow)
      case True
      obtain moved r1 where m: "replace_model env source b old r = (moved, r1)" by fastforce
      have res: "res = bind_sum moved (\<lambda>_. Inr (n, tree_size source, tree_files source))" "r' = r1"
        using assms(1) path Some True m by (auto simp: install_model_def)
      from replace_model_outcome [OF m Some b(4)] show ?thesis
      proof
        assume "moved = Inr () \<and> map_of (rp_models r1) b = Some source \<and> same_but {b} r r1"
        then show ?thesis using res b(2,4) assms(4) [OF b(2)] by (simp add: bind_sum_def all_or_nothing_Inr)
      next
        assume "(\<exists>e. moved = Inl e) \<and> (same_but {} r r1
          \<or> ie_restore env \<noteq> None \<and> map_of (rp_models r1) (backup_name b (ie_now env)) = Some old \<and> same_but {b} r r1)"
        then show ?thesis using res Some by (auto simp: bind_sum_def all_or_nothing_def)
      qed
    next
      case False
      then show ?thesis using assms(1) path Some by (auto simp: install_model_def bind_sum_def intro: all_or_nothing_Inl)
    qed
  qed
qed

lemma install_checked_outcome:
  assumes "install_checked elsewhere env source n ow r = (res, r')" "validate_name s = Inr n" "unlinked r"
    and "neat source" "int (tree_size source) \<le> limit"
  shows "all_or_nothing (\<lambda>t m. triton_layout elsewhere t m \<and> int (tree_size t) \<le> limit) env r res r'"
proof (cases "vr_ok (validate_model_dir elsewhere source n)")
  case True
  have "distinct (map fst (entries source))" using assms(4) by (cases source) auto
  then have layout: "triton_layout elsewhere source n" using True validate_model_dir_layout by blast
  have "install_model env source n ow r = (res, r')" using assms(1) True by (simp add: install_checked_def)
  then show ?thesis
    by (rule install_model_outcome [OF _ assms(2,3)]) (use layout layout_bare_name assms(5) in auto)
next
  case False
  then show ?thesis using assms(1) by (auto simp: install_checked_def Let_def intro: all_or_nothing_Inl)
qed

lemma in_staging_outcome:
  assumes "in_staging env act r = (res, r')" "\<And>res r'. act r = (res, r') \<Longrightarrow> all_or_nothing good env r res r'"
  shows "all_or_nothing good env r res r'"
proof (cases "map_of (rp_staging r) (ie_stage env)")
  case None
  obtain res1 r1 where a: "act r = (res1, r1)" by fastforce
  have "all_or_nothing good env r res (r1\<lparr>rp_staging := x\<rparr>)" if "res = res1" for x
    using assms(2) [OF a] that by (simp add: all_or_nothing_def same_but_def split: sum.splits prod.splits)
  then show ?thesis using assms(1) None a by (auto simp: in_staging_def)
qed (use assms(1) in \<open>auto simp: in_staging_def intro: all_or_nothing_Inl\<close>)

lemma install_archive_outcome:
  assumes "install_archive elsewhere env limit archive filename name ow r = (res, r')" "unlinked r" "0 \<le> limit"
  shows "all_or_nothing (\<lambda>t m. triton_layout elsewhere t m \<and> int (tree_size t) \<le> limit) env r res r'"
  using assms(1) unfolding install_archive_def
proof (rule in_staging_outcome)
  let ?zip = "suffix ''.zip'' (lower filename)"
  fix res r'
  assume act: "(let is_zip = ?zip in case extract_archive is_zip (archive is_zip) limit of Inl e \<Rightarrow> (Inl e, r)
     | Inr (_, t) \<Rightarrow> (let (found, source) = resolve_model_root MAX_DEPTH None t;
              asked = (if name \<noteq> [] then name else case found of Some c \<Rightarrow> c | None \<Rightarrow> strip_archive_suffix filename)
          in case validate_name asked of Inl e \<Rightarrow> (Inl e, r) | Inr n \<Rightarrow> install_checked elsewhere env source n ow r)) = (res, r')"
  show "all_or_nothing (\<lambda>t m. triton_layout elsewhere t m \<and> int (tree_size t) \<le> limit) env r res r'"
  proof (cases "extract_archive ?zip (archive ?zip) limit")
    case (Inl e)
    then show ?thesis using act by (auto simp: Let_def intro: all_or_nothing_Inl)
  next
    case (Inr st)
    obtain b t where st: "st = (b, t)" by fastforce
    obtain found source where root: "resolve_model_root MAX_DEPTH None t = (found, source)" by fastforce
    note t = extract_archive_keeps [OF Inr [unfolded st] assms(3)]
    have "neat source" "int (tree_size source) \<le> limit" using resolve_keeps [OF root t(1)] t(3) by auto
    then show ?thesis
      using act Inr st root assms(2)
      by (auto simp: Let_def intro: all_or_nothing_Inl install_checked_outcome split: sum.splits)
  qed
qed

lemma upload_directory_outcome:
  assumes "upload_directory elsewhere env limit files name ow r = (res, r')" "unlinked r" "0 \<le> limit"
  shows "all_or_nothing (\<lambda>t m. triton_layout elsewhere t m \<and> int (tree_size t) \<le> limit) env r res r'"
proof (cases "validate_name name")
  case (Inl e)
  then show ?thesis using assms(1) by (auto simp: upload_directory_def intro: all_or_nothing_Inl)
next
  case (Inr n)
  have "in_staging env (\<lambda>r. case unpack (add_file limit) files None (0, Dir []) of Inl e \<Rightarrow> (Inl e, r)
     | Inr (_, t) \<Rightarrow> install_checked elsewhere env (snd (resolve_model_root MAX_DEPTH None t)) n ow r) r = (res, r')"
    using assms(1) Inr by (simp add: upload_directory_def)
  then show ?thesis
  proof (rule in_staging_outcome)
    fix res r'
    assume act: "(case unpack (add_file limit) files None (0, Dir []) of Inl e \<Rightarrow> (Inl e, r)
       | Inr (_, t) \<Rightarrow> install_checked elsewhere env (snd (resolve_model_root MAX_DEPTH None t)) n ow r) = (res, r')"
    show "all_or_nothing (\<lambda>t m. triton_layout elsewhere t m \<and> int (tree_size t) \<le> limit) env r res r'"
    proof (cases "unpack (add_file limit) files None (0, Dir [])")
      case (Inl e)
      then show ?thesis using act by (auto intro: all_or_nothing_Inl)
    next
      case U: (Inr st)
      obtain w t where st: "st = (w, t)" by fastforce
      note t = upload_files_keeps [OF U [unfolded st] assms(3)]
      have "neat (snd (resolve_model_root MAX_DEPTH None t))" "int (tree_size (snd (resolve_model_root MAX_DEPTH None t))) \<le> limit"
        using resolve_keeps [OF surjective_pairing t(1), of MAX_DEPTH None] t(3) by auto
      then show ?thesis
        using install_checked_outcome [OF _ Inr assms(2)] act U st by auto
    qed
  qed
qed

subsection \<open>The repository over time\<close>

text \<open>Uploads, removals that end, and the sweeping of the staging directory, in any order; what elsewhere means may change each time.\<close>

inductive repo_step :: "int \<Rightarrow> repo \<Rightarrow> repo \<Rightarrow> bool" for limit where
  Archive: "install_archive elsewhere env limit archive filename name ow r = (res, r') \<Longrightarrow> ie_restore env = None \<Longrightarrow> repo_step limit r r'"
| Directory: "upload_directory elsewhere env limit files name ow r = (res, r') \<Longrightarrow> ie_restore env = None \<Longrightarrow> repo_step limit r r'"
| Delete: "delete_model None name r = (res, r') \<Longrightarrow> repo_step limit r r'"
| Sweep: "repo_step limit r (cleanup_staging old left r)"

definition models_valid :: "int \<Rightarrow> repo \<Rightarrow> bool" where
  "models_valid limit r \<longleftrightarrow> (\<forall>m t. \<not> hidden m \<longrightarrow> map_of (rp_models r) m = Some t
     \<longrightarrow> (\<exists>elsewhere. triton_layout elsewhere t m) \<and> int (tree_size t) \<le> limit)"

lemma valid_unlinked: "models_valid limit r \<Longrightarrow> unlinked r"
  unfolding models_valid_def unlinked_def triton_layout_def using is_dir.simps(3) by blast

lemma all_or_nothing_valid:
  assumes "all_or_nothing (\<lambda>t m. triton_layout elsewhere t m \<and> int (tree_size t) \<le> limit) env r res r'" "ie_restore env = None"
    and "models_valid limit r"
  shows "models_valid limit r'"
proof (cases res)
  case (Inl e)
  then have "same_but {} r r'" using assms(1,2) by (simp add: all_or_nothing_def)
  then show ?thesis using assms(3) by (simp add: models_valid_def same_but_def)
next
  case (Inr x)
  then obtain n t where n: "map_of (rp_models r') n = Some t" "triton_layout elsewhere t n" "int (tree_size t) \<le> limit" "same_but {n} r r'"
    using assms(1) by (cases x) (auto simp: all_or_nothing_def)
  show ?thesis
    unfolding models_valid_def
  proof (intro allI impI)
    fix m u assume m: "\<not> hidden m" "map_of (rp_models r') m = Some u"
    show "(\<exists>elsewhere. triton_layout elsewhere u m) \<and> int (tree_size u) \<le> limit"
    proof (cases "m = n")
      case True
      then show ?thesis using m n by auto
    next
      case False
      then have "map_of (rp_models r) m = Some u" using m n(4) by (simp add: same_but_def)
      then show ?thesis using assms(3) m(1) by (simp add: models_valid_def)
    qed
  qed
qed

lemma delete_valid: "delete_model None name r = (res, r') \<Longrightarrow> models_valid limit r \<Longrightarrow> models_valid limit r'"
proof -
  assume "delete_model None name r = (res, r')" and r: "models_valid limit r"
  then have "r' = r \<or> (\<exists>n. rp_models r' = AList.delete n (rp_models r))"
    by (auto simp: delete_model_def split: sum.splits option.splits node.splits)
  then have "map_of (rp_models r) m = Some t" if "map_of (rp_models r') m = Some t" for m t
    using that by (auto simp: delete_conv' split: if_splits)
  with r show ?thesis unfolding models_valid_def by blast
qed

lemma repo_step_valid: "repo_step limit r r' \<Longrightarrow> 0 \<le> limit \<Longrightarrow> models_valid limit r \<Longrightarrow> models_valid limit r'"
proof (induction rule: repo_step.induct)
  case (Archive elsewhere env archive filename name ow r res r')
  show ?case
    by (rule all_or_nothing_valid [OF install_archive_outcome [OF Archive.hyps(1) valid_unlinked [OF Archive.prems(2)] Archive.prems(1)]
          Archive.hyps(2) Archive.prems(2)])
next
  case (Directory elsewhere env files name ow r res r')
  show ?case
    by (rule all_or_nothing_valid [OF upload_directory_outcome [OF Directory.hyps(1) valid_unlinked [OF Directory.prems(2)] Directory.prems(1)]
          Directory.hyps(2) Directory.prems(2)])
next
  case (Delete name r res r')
  then show ?case using delete_valid by blast
next
  case (Sweep r old left)
  then show ?case by (simp add: models_valid_def cleanup_staging_def)
qed

text \<open>The limit of an upload is a number of bytes.\<close>

interpretation repository: machine "\<lambda>r. rp_models r = []" "repo_step (int bytes)" "models_valid (int bytes)" for bytes :: nat
proof
  show "rp_models r = [] \<Longrightarrow> models_valid (int bytes) r" for r by (simp add: models_valid_def)
qed (simp add: repo_step_valid)

text \<open>An archive of a Python model, zipped from its parent folder on a Mac, installed over an older one while the move fails, and then when it works.\<close>

definition sample_member :: "string \<Rightarrow> member" where
  "sample_member name = \<lparr>am_name = name, am_kind = M_file, am_size = 10, am_text = None, am_fails = None\<rparr>"

definition sample_archive :: "bool \<Rightarrow> member list \<times> string option" where
  "sample_archive is_zip = ([sample_member ''__MACOSX/._demo'', sample_member ''demo/1/model.py''], None)"

definition sample_env :: "string option \<Rightarrow> install_env" where
  "sample_env move = \<lparr>ie_now = 7, ie_stage = ''stage-7'', ie_rename = None, ie_move = move, ie_restore = None, ie_left = None, ie_stage_left = None\<rparr>"

definition sample_repo :: repo where
  "sample_repo = \<lparr>rp_models = [(''demo'', Dir [])], rp_staging = []\<rparr>"

definition sample_upload :: "string option \<Rightarrow> repo \<Rightarrow> (repo_error + string \<times> nat \<times> nat) \<times> repo" where
  "sample_upload move = install_archive (\<lambda>_ _. None) (sample_env move) 15 sample_archive ''demo.zip'' [] True"

lemma sample_uploads:
  "sample_upload None sample_repo = (Inr (''demo'', 10, 1), \<lparr>rp_models = [(''demo'', Dir [(''1'', Dir [(''model.py'', File 10 None)])])], rp_staging = []\<rparr>)"
  "sample_upload (Some ''OSError'') sample_repo = (Inl (Failed ''OSError''), sample_repo)"
  by code_simp+



text \<open>
  No name in an upload leads out of the directory it is unpacked in. A path is refused, or what is made of it has at least one part and
  no part that is empty, a dot, two dots or holds a slash, a backslash or a colon, so that from any directory it leads
  straight down.
\<close>

theorem paths_confined:
  "case safe_relpath s of Inl e \<Rightarrow> e = Refused
   | Inr rel \<Rightarrow> rel \<noteq> [] \<and> (\<forall>p \<in> set rel. proper p) \<and> leads base rel = base @ rel"
proof (cases "safe_relpath s")
  case (Inl e)
  have "safe_parts ps = Inl e \<Longrightarrow> e = Refused" for ps
    by (induction ps) (auto simp: bind_sum_eq_Inl split: if_splits)
  then show ?thesis using Inl by (auto simp: safe_relpath_def bind_sum_eq_Inl split: if_splits)
next
  case (Inr rel)
  then show ?thesis using safe_relpath_proper [OF Inr] leads_proper by simp
qed

theorem paths_confined_witness:
  "safe_relpath ''net/1//./model.onnx'' = Inr [''net'', ''1'', ''model.onnx'']
   \<and> proper ''net'' \<and> proper ''1'' \<and> proper ''model.onnx''
   \<and> leads [''models''] [''net'', ''1'', ''model.onnx''] = [''models'', ''net'', ''1'', ''model.onnx'']"
proof -
  have path: "safe_relpath ''net/1//./model.onnx'' = Inr [''net'', ''1'', ''model.onnx'']" by code_simp
  from paths_confined [of "[''models'']" "''net/1//./model.onnx''"] show ?thesis unfolding path by simp
qed

text \<open>
  A name with a line break before a slash at its end is taken with the line break: \<open>strip\<close> comes before the slashes are stripped, and the dollar
  sign of the pattern matches before a last line break.
\<close>

lemma name_with_line_break: "validate_name (''demo'' @ [newline] @ ''/'') = Inr (''demo'' @ [newline])"
  by code_simp

end
