(* ===== verification/Model_Server.thy ===== *)
theory Model_Server
  imports Model_Repository Py_Json
begin

text \<open>
  What the model manager serves: the list of models and the use of storage of
  \<open>src/docker/supersonic-model-manager/model_manager/repository.py\<close>, and the upload of
  \<open>src/docker/supersonic-model-manager/model_manager/main.py\<close> from the request to the reply. That a model is loaded after its
  upload is a call to Triton and left out; so are the times of files.
\<close>

subsection \<open>The list of models\<close>

text \<open>\<open>^\s*(?:platform|backend)\s*:\s*"([^"]+)"\<close> in the first 8192 characters.\<close>

definition platform_at :: "string \<Rightarrow> string option" where
  "platform_at s = (let t = lstrip_of py_space s in
     case scalar_at ''platform'' t of Some v \<Rightarrow> if v \<noteq> [] then Some v else None
     | None \<Rightarrow> (case scalar_at ''backend'' t of Some v \<Rightarrow> if v \<noteq> [] then Some v else None | None \<Rightarrow> None))"

definition read_platform :: "string option \<Rightarrow> string" where
  "read_platform content = (case content of None \<Rightarrow> []
     | Some t \<Rightarrow> (case search_lines platform_at True (take 8192 t) of Some v \<Rightarrow> v | None \<Rightarrow> []))"

record model_entry =
  me_name :: string
  me_size :: nat
  me_files :: nat
  me_versions :: "string list"
  me_has_config :: bool
  me_platform :: string

definition model_entry_of :: "string \<times> node \<Rightarrow> model_entry" where
  "model_entry_of p = \<lparr>me_name = fst p, me_size = tree_size (snd p), me_files = tree_files (snd p),
     me_versions = sort_key digits_value (map fst (filter (\<lambda>(v, m). is_dir m \<and> is_version_name v) (entries (snd p)))),
     me_has_config = (case dir_child (snd p) ''config.pbtxt'' of Some m \<Rightarrow> is_file m | None \<Rightarrow> False),
     me_platform = (case dir_child (snd p) ''config.pbtxt'' of Some (File _ content) \<Rightarrow> read_platform content | _ \<Rightarrow> [])\<rparr>"

definition scan_models :: "repo \<Rightarrow> model_entry list" where
  "scan_models r = map model_entry_of
     (filter (\<lambda>(name, n). is_dir n \<and> \<not> is_internal_name name) (sort_key (\<lambda>p. lower (fst p)) (rp_models r)))"

subsection \<open>The use of storage\<close>

datatype capacity_source = From_pvc | From_statvfs | Unknown

record usage =
  us_used :: int
  us_models :: int
  us_total :: int
  us_free :: "int option"
  us_source :: capacity_source

text \<open>\<open>storage_usage\<close>, with the size of the model tree and what \<open>statvfs\<close> says: the size and the free space of the file system.\<close>

definition storage_usage :: "nat \<Rightarrow> (nat \<times> nat) option \<Rightarrow> nat option \<Rightarrow> usage" where
  "storage_usage models_bytes fs pvc =
     (let pvc_bytes = (case pvc of Some n \<Rightarrow> n | None \<Rightarrow> 0);
          fs_total = (case fs of Some (n, _) \<Rightarrow> n | None \<Rightarrow> 0);
          (total_bytes, source) = (if pvc_bytes \<noteq> 0 then (pvc_bytes, From_pvc)
            else if fs_total \<noteq> 0 then (fs_total, From_statvfs) else (0, Unknown));
          used = (case fs of Some (n, free) \<Rightarrow> if n \<noteq> 0 then max (int n - int free) (int models_bytes) else int models_bytes
            | None \<Rightarrow> int models_bytes);
          free = (case fs of
              Some (_, f) \<Rightarrow> if total_bytes \<noteq> 0 then Some (min (int f) (max (int total_bytes - int models_bytes) 0)) else Some (int f)
            | None \<Rightarrow> if total_bytes \<noteq> 0 then Some (max (int total_bytes - used) 0) else None)
      in \<lparr>us_used = used, us_models = int models_bytes, us_total = int total_bytes, us_free = free, us_source = source\<rparr>)"

lemma storage_usage_bounds:
  "us_models (storage_usage m fs pvc) \<le> us_used (storage_usage m fs pvc)"
  "us_free (storage_usage m fs pvc) = Some f \<Longrightarrow> 0 \<le> f"
  "us_free (storage_usage m fs pvc) = Some f \<Longrightarrow> us_total (storage_usage m fs pvc) \<noteq> 0 \<Longrightarrow> int m \<le> us_total (storage_usage m fs pvc)
   \<Longrightarrow> f + int m \<le> us_total (storage_usage m fs pvc)"
  by (auto simp: storage_usage_def Let_def split: option.splits if_splits prod.splits)

text \<open>The list has exactly the directories that are not hidden, each once.\<close>

lemma scan_models_names:
  assumes "distinct (map fst (rp_models r))"
  shows "distinct (map me_name (scan_models r))"
    and "set (map me_name (scan_models r)) = {m. \<exists>d. map_of (rp_models r) m = Some (Dir d) \<and> \<not> is_internal_name m}"
proof -
  have names: "map me_name (scan_models r)
      = map fst (filter (\<lambda>(name, n). is_dir n \<and> \<not> is_internal_name name) (sort_key (\<lambda>p. lower (fst p)) (rp_models r)))"
    by (simp add: scan_models_def model_entry_of_def comp_def)
  have "distinct (map fst (sort_key (\<lambda>p. lower (fst p)) (rp_models r)))" using assms by (simp add: distinct_map)
  then show "distinct (map me_name (scan_models r))" unfolding names by (rule distinct_map_filter)
  show "set (map me_name (scan_models r)) = {m. \<exists>d. map_of (rp_models r) m = Some (Dir d) \<and> \<not> is_internal_name m}"
    unfolding names using assms by (force simp: elim: is_dir.elims)
qed

subsection \<open>Uploads\<close>

text \<open>The files of a request are members with the names the browser gives them.\<close>

record upload_request =
  rq_files :: "member list"
  rq_name :: string
  rq_paths :: string
  rq_overwrite :: bool

datatype upload_reply = Read_only | Bad_request | Not_a_model validation | Server_error | Uploaded "string \<times> nat \<times> nat"

fun upload_status :: "upload_reply \<Rightarrow> nat" where
  "upload_status Read_only = 403"
| "upload_status Bad_request = 400"
| "upload_status (Not_a_model _) = 422"
| "upload_status Server_error = 500"
| "upload_status (Uploaded _) = 200"

fun error_reply :: "repo_error \<Rightarrow> upload_reply" where
  "error_reply Refused = Bad_request"
| "error_reply (Invalid v) = Not_a_model v"
| "error_reply (Failed e) = Server_error"

definition relative_paths :: "string \<Rightarrow> repo_error + json list" where
  "relative_paths paths = (if paths = [] then Inr [] else
     case json_loads paths of Some (JList xs) \<Rightarrow> Inr xs | _ \<Rightarrow> Inl Refused)"

definition effective_name :: "(json \<Rightarrow> string) \<Rightarrow> string \<Rightarrow> json list \<Rightarrow> string" where
  "effective_name str name xs = (let n = strip_of py_space name in
     if n \<noteq> [] \<or> xs = [] then n
     else let first = lstrip_of {CHR ''/''} (forward_slashes (str (hd xs))) in
       if CHR ''/'' \<in> set first then takeWhile (\<lambda>c. c \<noteq> CHR ''/'') first else [])"

text \<open>The path of a file without the leading model directory.\<close>

definition upload_path :: "string \<Rightarrow> string \<Rightarrow> string" where
  "upload_path name relative = (let parts = filter (\<lambda>p. p \<noteq> [] \<and> p \<noteq> ''.'') (split_on (CHR ''/'') (forward_slashes relative)) in
     join_with (CHR ''/'') (if length parts > 1 \<and> hd parts = name then tl parts else parts))"

definition upload_files :: "(json \<Rightarrow> string) \<Rightarrow> string \<Rightarrow> json list \<Rightarrow> member list \<Rightarrow> member list" where
  "upload_files str name xs files = map (\<lambda>(i, f).
     f\<lparr>am_name := upload_path name (if xs \<noteq> [] then str (xs ! i) else if am_name f \<noteq> [] then am_name f else ''file-'' @ show_nat i)\<rparr>)
     (enumerate 0 files)"

definition directory_request :: "(string \<Rightarrow> string \<Rightarrow> node option) \<Rightarrow> install_env \<Rightarrow> int \<Rightarrow> (json \<Rightarrow> string) \<Rightarrow> upload_request \<Rightarrow> repo
    \<Rightarrow> (repo_error + string \<times> nat \<times> nat) \<times> repo" where
  "directory_request elsewhere env limit str rq r = (case relative_paths (rq_paths rq) of
     Inl e \<Rightarrow> (Inl e, r)
   | Inr xs \<Rightarrow>
       if length xs \<notin> {0, length (rq_files rq)} then (Inl Refused, r)
       else let name = effective_name str (rq_name rq) xs in
         if name = [] then (Inl Refused, r)
         else upload_directory elsewhere env limit (upload_files str name xs (rq_files rq)) name (rq_overwrite rq) r)"

definition archive_request :: "(string \<Rightarrow> string \<Rightarrow> node option) \<Rightarrow> install_env \<Rightarrow> int \<Rightarrow> (member \<Rightarrow> bool \<Rightarrow> member list \<times> string option)
    \<Rightarrow> member \<Rightarrow> upload_request \<Rightarrow> repo \<Rightarrow> (repo_error + string \<times> nat \<times> nat) \<times> repo" where
  "archive_request elsewhere env limit unarchive f rq r =
     (if int (am_size f) > limit then (Inl Refused, r)
      else case am_fails f of Some e \<Rightarrow> (Inl (Failed e), r)
      | None \<Rightarrow> install_archive elsewhere env limit (unarchive f) (am_name f) (strip_of py_space (rq_name rq)) (rq_overwrite rq) r)"

text \<open>\<open>upload\<close>, with the error of creating the staging directory, if any.\<close>

definition upload :: "bool \<Rightarrow> (string \<Rightarrow> string \<Rightarrow> node option) \<Rightarrow> install_env \<Rightarrow> int \<Rightarrow> (json \<Rightarrow> string)
    \<Rightarrow> (member \<Rightarrow> bool \<Rightarrow> member list \<times> string option) \<Rightarrow> string option \<Rightarrow> upload_request \<Rightarrow> repo \<Rightarrow> upload_reply \<times> repo" where
  "upload read_only elsewhere env limit str unarchive mkdir_fails rq r =
     (if read_only then (Read_only, r)
      else if mkdir_fails \<noteq> None then (Server_error, r)
      else let (res, r') = (case rq_files rq of
             [f] \<Rightarrow> if is_archive (am_name f) then archive_request elsewhere env limit unarchive f rq r
                    else directory_request elsewhere env limit str rq r
           | _ \<Rightarrow> directory_request elsewhere env limit str rq r)
        in (case res of Inl e \<Rightarrow> error_reply e | Inr x \<Rightarrow> Uploaded x, r'))"

lemma request_outcome:
  assumes "unlinked r" "0 \<le> limit"
  shows "archive_request elsewhere env limit unarchive f rq r = (res, r')
      \<Longrightarrow> all_or_nothing (\<lambda>t m. triton_layout elsewhere t m \<and> int (tree_size t) \<le> limit) env r res r'"
    and "directory_request elsewhere env limit str rq r = (res, r')
      \<Longrightarrow> all_or_nothing (\<lambda>t m. triton_layout elsewhere t m \<and> int (tree_size t) \<le> limit) env r res r'"
  using install_archive_outcome [OF _ assms] upload_directory_outcome [OF _ assms]
  by (auto simp: archive_request_def directory_request_def Let_def intro: all_or_nothing_Inl split: if_splits option.splits sum.splits)

lemma upload_outcome:
  assumes "0 \<le> limit" "unlinked r" "upload read_only elsewhere env limit str unarchive mkdir_fails rq r = (reply, r')"
  shows "upload_status reply = 200 \<Longrightarrow> \<exists>name bytes files n t. reply = Uploaded (name, bytes, files) \<and> (name = n \<or> name = n @ [newline])
      \<and> map_of (rp_models r') n = Some t \<and> triton_layout elsewhere t n \<and> tree_size t = bytes \<and> int bytes \<le> limit \<and> same_but {n} r r'"
    and "upload_status reply \<noteq> 200 \<Longrightarrow> same_but {} r r'
      \<or> ie_restore env \<noteq> None \<and> (\<exists>n old. map_of (rp_models r) n = Some old
          \<and> map_of (rp_models r') (backup_name n (ie_now env)) = Some old \<and> same_but {n} r r')"
    and "read_only \<Longrightarrow> upload_status reply = 403 \<and> r' = r"
proof -
  show "read_only \<Longrightarrow> upload_status reply = 403 \<and> r' = r" using assms(3) by (simp add: upload_def)
  consider "upload_status reply \<noteq> 200" "r' = r" | res where "reply = (case res of Inl e \<Rightarrow> error_reply e | Inr x \<Rightarrow> Uploaded x)"
    "all_or_nothing (\<lambda>t m. triton_layout elsewhere t m \<and> int (tree_size t) \<le> limit) env r res r'"
  proof (cases "read_only \<or> mkdir_fails \<noteq> None")
    case True
    then show ?thesis using assms(3) that(1) by (auto simp: upload_def split: if_splits)
  next
    case False
    obtain res r1 where act: "(case rq_files rq of
             [f] \<Rightarrow> if is_archive (am_name f) then archive_request elsewhere env limit unarchive f rq r
                    else directory_request elsewhere env limit str rq r
           | _ \<Rightarrow> directory_request elsewhere env limit str rq r) = (res, r1)" by fastforce
    have "all_or_nothing (\<lambda>t m. triton_layout elsewhere t m \<and> int (tree_size t) \<le> limit) env r res r1"
      using act request_outcome [OF assms(2,1)] by (auto split: list.splits if_splits)
    moreover have "reply = (case res of Inl e \<Rightarrow> error_reply e | Inr x \<Rightarrow> Uploaded x)" "r' = r1"
      using assms(3) False act by (auto simp: upload_def Let_def)
    ultimately show ?thesis using that(2) by blast
  qed
  note outcome = this
  have error: "upload_status (error_reply e) \<noteq> 200" for e by (cases e) simp_all
  show "upload_status reply = 200 \<Longrightarrow> \<exists>name bytes files n t. reply = Uploaded (name, bytes, files) \<and> (name = n \<or> name = n @ [newline])
      \<and> map_of (rp_models r') n = Some t \<and> triton_layout elsewhere t n \<and> tree_size t = bytes \<and> int bytes \<le> limit \<and> same_but {n} r r'"
    using outcome
  proof cases
    case (2 res)
    assume "upload_status reply = 200"
    then obtain name bytes files where "res = Inr (name, bytes, files)" using 2(1) error by (cases res) auto
    then show ?thesis using 2 unfolding all_or_nothing_def by auto
  qed simp
  show "upload_status reply \<noteq> 200 \<Longrightarrow> same_but {} r r'
      \<or> ie_restore env \<noteq> None \<and> (\<exists>n old. map_of (rp_models r) n = Some old
          \<and> map_of (rp_models r') (backup_name n (ie_now env)) = Some old \<and> same_but {n} r r')"
    using outcome by cases (auto simp: all_or_nothing_def split: sum.splits)
qed


text \<open>The sample archive uploaded over an older model, while the move works and while it fails.\<close>

definition sample_request :: upload_request where
  "sample_request = \<lparr>rq_files = [sample_member ''demo.zip''], rq_name = [], rq_paths = [], rq_overwrite = True\<rparr>"

definition sample_reply :: "string option \<Rightarrow> upload_reply \<times> repo" where
  "sample_reply move = upload False (\<lambda>_ _. None) (sample_env move) 15 (\<lambda>_. []) (\<lambda>_. sample_archive) None sample_request sample_repo"


end
