(* ===== verification/Tool_Http.thy ===== *)
theory Tool_Http
  imports Py_Effects Py_Json
begin

text \<open>
  The agentic interface: what its tools stand on. A call of a tool asks backends, sleeps, and may ask the user; what
  it gets back is a parameter, and what it asked is kept, newest first. From \<open>src/docker/agentic-interface/\<close> this
  theory has \<open>errors.py\<close>, the asking of Prometheus in \<open>shared.py\<close>, \<open>context.py\<close> and \<open>ask\<close> of \<open>tools/elicitation.py\<close>, and
  what the tools that wait have in common. In the texts a dash is written as a hyphen, and an arrow, a bullet or a
  comparison in ASCII.
\<close>

subsection \<open>The world of a tool\<close>

text \<open>What the client of a backend raises, by its class, with \<open>str\<close> of it; an answer; a request.\<close>

datatype request_error = Request_error (re_class: string) (re_text: string)

record tool_response =
  rs_status :: nat
  rs_text :: string

record tool_request =
  rq_client :: string
  rq_method :: string
  rq_url :: string
  rq_auth :: string
  rq_params :: "(string, string) dict"
  rq_extra :: "(string, string) dict"
  rq_json :: "json option"
  rq_content :: "string option"
  rq_timeout :: time

text \<open>
  A form the user is asked to fill in, by the fields of its schema: a name, and the values it is to have, if they are
  listed. What comes of it: the data of the form, another action than \<open>accept\<close>, or an exception.
\<close>

type_synonym form = "(string \<times> string list option) list"

datatype elicited = Accepted "(string, json) dict" | Not_accepted string | Elicit_raised exn

datatype tool_event = Called tool_request "request_error + tool_response" | Slept time | Asked_user string form

text \<open>\<open>world\<close> is everything outside of the call.\<close>

record 'w backends =
  bk_request :: "tool_request \<Rightarrow> 'w \<Rightarrow> (request_error + tool_response) \<times> 'w"
  bk_monotonic :: "'w \<Rightarrow> time \<times> 'w"
  bk_sleep :: "time \<Rightarrow> 'w \<Rightarrow> 'w"
  bk_elicit :: "string \<Rightarrow> form \<Rightarrow> 'w \<Rightarrow> elicited \<times> 'w"

record 'w tool_run =
  tr_world :: 'w
  tr_events :: "tool_event list"

text \<open>
  What a tool raises: one of the failures of \<open>errors.py\<close>, \<open>NeedsChoices\<close>, or an exception nobody meant. \<open>Unfinished\<close>
  is none of the code's: a loop without an end of its own has a number of rounds, and this says that they were not enough.
\<close>

datatype failure_kind = UserError | AuthError | UpstreamError | ServiceFault

datatype tool_exn = Failed failure_kind string | NeedsChoices string | Tool_raised exn | Unfinished

type_synonym ('w, 'a) tool = "('w tool_run, tool_exn, 'a) eff"

text \<open>A step of the world, and the event it leaves.\<close>

definition world_step :: "('w \<Rightarrow> 'a \<times> 'w) \<Rightarrow> ('a \<Rightarrow> tool_event list) \<Rightarrow> ('w, 'a) tool" where
  "world_step f evs = (\<lambda>s. case f (tr_world s) of (a, w) \<Rightarrow> (Inr a, s\<lparr>tr_world := w, tr_events := evs a @ tr_events s\<rparr>))"

definition tool_send :: "'w backends \<Rightarrow> tool_request \<Rightarrow> ('w, request_error + tool_response) tool" where
  "tool_send bk q = world_step (bk_request bk q) (\<lambda>a. [Called q a])"

definition tool_clock :: "'w backends \<Rightarrow> ('w, time) tool" where
  "tool_clock bk = world_step (bk_monotonic bk) (\<lambda>_. [])"

definition tool_sleep :: "'w backends \<Rightarrow> time \<Rightarrow> ('w, unit) tool" where
  "tool_sleep bk d = world_step (\<lambda>w. ((), bk_sleep bk d w)) (\<lambda>_. [Slept d])"

text \<open>\<open>require_user\<close>: the caller, as the middleware bound it.\<close>

record af_user =
  cl_username :: string
  cl_token :: string

definition require_user :: "af_user option \<Rightarrow> ('w, af_user) tool" where
  "require_user u = (case u of None \<Rightarrow> raise (Tool_raised ''RuntimeError'') | Some c \<Rightarrow> ret c)"

text \<open>
  \<open>config.py\<close>, as the environment left it; and \<open>str\<close>, \<open>repr\<close> and \<open>format\<close>, an archive of \<open>zipfile\<close> by its members, and the
  digest of \<open>hashlib\<close>, which are Python's.
\<close>

record tool_config =
  tc_hub_api :: string
  tc_public :: string
  tc_prometheus :: string
  tc_cluster_prometheus :: string
  tc_dask_gateway :: string
  tc_ray_gateway :: string
  tc_namespace :: string
  tc_global_pixi :: string
  tc_str :: "json \<Rightarrow> string"
  tc_repr :: "json \<Rightarrow> string"
  tc_format :: "string \<Rightarrow> pyfloat \<Rightarrow> string"
  tc_zip :: "(string \<times> string) list \<Rightarrow> string"
  tc_sha256 :: "string \<Rightarrow> string"

text \<open>One for examples.\<close>

definition tools_config :: tool_config where
  "tools_config = \<lparr>tc_hub_api = ''hub'', tc_public = ''af'', tc_prometheus = ''p'', tc_cluster_prometheus = ''cp'', tc_dask_gateway = ''dask'', tc_ray_gateway = ''ray'',
     tc_namespace = ''cms'', tc_global_pixi = ''/work/pixi/global'', tc_str = (\<lambda>_. []), tc_repr = (\<lambda>_. []), tc_format = (\<lambda>_ _. ''16''), tc_zip = concat \<circ> map snd, tc_sha256 = (\<lambda>s. s)\<rparr>"

definition TOKEN_URL :: "tool_config \<Rightarrow> string" where
  "TOKEN_URL cf = tc_public cf @ ''/hub/token''"

definition shown_json :: "tool_config \<Rightarrow> json \<Rightarrow> string" where
  "shown_json cf j = (case j of JStr s \<Rightarrow> s | _ \<Rightarrow> tc_str cf j)"

text \<open>Code that may raise what Python raises.\<close>

definition py :: "exn + 'a \<Rightarrow> ('w, 'a) tool" where
  "py r = (case r of Inl e \<Rightarrow> raise (Tool_raised e) | Inr a \<Rightarrow> ret a)"

text \<open>\<open>elicit\<close> and \<open>ask\<close>, for a tool that has a context; and a field of the data.\<close>

definition elicit :: "'w backends \<Rightarrow> string \<Rightarrow> form \<Rightarrow> ('w, string \<times> (string, json) dict) tool" where
  "elicit bk message schema = bindm (world_step (bk_elicit bk message schema) (\<lambda>_. [Asked_user message schema])) (\<lambda>r.
     ret (case r of Elicit_raised _ \<Rightarrow> (''unsupported'', []) | Accepted d \<Rightarrow> (''accept'', d) | Not_accepted action \<Rightarrow> (action, [])))"

definition ask :: "'w backends \<Rightarrow> string \<Rightarrow> form \<Rightarrow> string \<Rightarrow> ('w, (string, json) dict) tool" where
  "ask bk message schema help_text = bindm (elicit bk message schema) (\<lambda>(what, d).
     if what \<noteq> ''accept'' then raise (NeedsChoices help_text) else ret d)"

definition text_field :: "(string, json) dict \<Rightarrow> string \<Rightarrow> ('w, string) tool" where
  "text_field d k = (case map_of d k of Some (JStr s) \<Rightarrow> ret s | _ \<Rightarrow> raise (Tool_raised ''AttributeError''))"

definition number_field :: "(string, json) dict \<Rightarrow> string \<Rightarrow> ('w, rat) tool" where
  "number_field d k = (case map_of d k of Some (JNum r) \<Rightarrow> ret r | _ \<Rightarrow> raise (Tool_raised ''AttributeError''))"

subsection \<open>What went wrong, in words\<close>

definition RETRY_LATER :: string where
  "RETRY_LATER = ''Try again in a minute; if it keeps failing, get_facility_health shows whether the facility itself is degraded.''"

definition REPORT_IF_PERSISTENT :: string where
  "REPORT_IF_PERSISTENT = ''This is a fault between the agentic interface and the facility, not in the request; report it to AF support if it persists.''"

definition describe_exception :: "request_error \<Rightarrow> string" where
  "describe_exception e = (let name = re_class e; detail = strip_of py_space (re_text e) in
     if name = ''ConnectTimeout'' then ''connection timed out''
     else if name \<in> {''ReadTimeout'', ''WriteTimeout'', ''PoolTimeout''} then ''timed out waiting for a response''
     else if name = ''RemoteProtocolError'' then ''the connection was dropped before a response arrived''
     else if name = ''ConnectError'' then (if detail \<noteq> [] then ''connection failed ('' @ detail @ '')'' else ''connection refused'')
     else if detail \<noteq> [] then name @ '': '' @ detail else name)"

text \<open>\<^verbatim>\<open>_WS_RE.sub(" ", s)\<close>: a run of white space becomes one space; \<open>after\<close> is whether one was just written.\<close>

fun ws_sub :: "bool \<Rightarrow> string \<Rightarrow> string" where
  "ws_sub after [] = []"
| "ws_sub after (c # cs) =
     (if c \<in> py_space then (if after then ws_sub True cs else CHR '' '' # ws_sub True cs) else c # ws_sub False cs)"

text \<open>\<^verbatim>\<open>_TAG_RE.sub(" ", s)\<close>, for \<^verbatim>\<open><[^>]+>\<close>.\<close>

function tag_sub :: "string \<Rightarrow> string" where
  "tag_sub [] = []"
| "tag_sub (c # cs) = (let inner = takeWhile (\<lambda>d. d \<noteq> CHR ''>'') cs; rest = dropWhile (\<lambda>d. d \<noteq> CHR ''>'') cs in
     if c = CHR ''<'' \<and> inner \<noteq> [] \<and> rest \<noteq> [] then CHR '' '' # tag_sub (tl rest) else c # tag_sub cs)"
  by pat_completeness auto

termination tag_sub
proof (relation "measure length")
  fix c :: char and cs inner rest :: string
  assume "rest = dropWhile (\<lambda>d. d \<noteq> CHR ''>'') cs"
  then have "length rest \<le> length cs" by (simp add: length_dropWhile_le)
  then show "(tl rest, c # cs) \<in> measure length" by simp
qed simp_all

definition json_body :: "tool_response \<Rightarrow> json" where
  "json_body r = (case json_loads (rs_text r) of None \<Rightarrow> JNull | Some j \<Rightarrow> j)"

definition MESSAGE_KEYS :: "string list" where
  "MESSAGE_KEYS = [''message'', ''error'', ''detail'', ''reason'', ''error_description'']"

text \<open>The message under a key, if it is one: a text, or an object with a text as its \<open>message\<close>.\<close>

definition message_under :: "(string, json) dict \<Rightarrow> string \<Rightarrow> string option" where
  "message_under d k = (let v = (case dict_get d k JNull of JObj e \<Rightarrow> dict_get e ''message'' JNull | j \<Rightarrow> j) in
     case v of JStr s \<Rightarrow> if strip_of py_space s \<noteq> [] then Some (strip_of py_space s) else None | _ \<Rightarrow> None)"

definition response_detail :: "int \<Rightarrow> tool_response \<Rightarrow> string" where
  "response_detail limit r = (let text = rs_text r;
     found = (case json_loads text of Some (JObj d) \<Rightarrow> List.map_filter (message_under d) MESSAGE_KEYS | _ \<Rightarrow> []) in
     case found of m # _ \<Rightarrow> first_of limit (ws_sub False m)
     | [] \<Rightarrow> let t = (if CHR ''<'' \<in> set text \<and> CHR ''>'' \<in> set text then tag_sub text else text) in
         first_of limit (strip_of py_space (ws_sub False t)))"

definition finish :: "string \<Rightarrow> string \<Rightarrow> string" where
  "finish message next_step = (let m = rstrip_of {CHR '' '', CHR ''.''} message @ ''.'' in
     if next_step \<noteq> [] then m @ '' '' @ next_step else m)"

definition or_text :: "string \<Rightarrow> string \<Rightarrow> string" where
  "or_text a b = (if a \<noteq> [] then a else b)"

definition unreachable :: "string \<Rightarrow> request_error \<Rightarrow> string \<Rightarrow> tool_exn" where
  "unreachable service e next_step =
     Failed UpstreamError (finish (''Error: '' @ service @ '' unreachable - '' @ describe_exception e) (or_text next_step RETRY_LATER))"

definition STATUS_HINTS :: "(nat, string) dict" where
  "STATUS_HINTS = [(502, ''it is down or restarting behind its proxy''), (503, ''it is down, restarting, or overloaded''),
     (504, ''it did not answer in time'')]"

definition dashed :: "string \<Rightarrow> string" where
  "dashed detail = (if detail \<noteq> [] then '' - '' @ detail else [])"

definition http_error :: "string \<Rightarrow> tool_response \<Rightarrow> string \<Rightarrow> string \<Rightarrow> tool_exn" where
  "http_error service r action next_step = (let code = rs_status r;
     hint = or_text (dict_get STATUS_HINTS code []) (if code \<ge> 500 then ''it hit an internal error'' else []) in
     Failed UpstreamError (finish (''Error: '' @ service @ '' returned HTTP '' @ show_nat code
       @ (if action \<noteq> [] then '' while trying to '' @ action else []) @ (if hint \<noteq> [] then '' ('' @ hint @ '')'' else [])
       @ dashed (response_detail 300 r)) (if next_step = [] \<and> code \<ge> 500 then RETRY_LATER else next_step)))"

definition malformed_text :: "string \<Rightarrow> tool_response \<Rightarrow> string \<Rightarrow> string" where
  "malformed_text service r expected = finish (''Error: '' @ service @ '' returned HTTP '' @ show_nat (rs_status r)
     @ '' but the response was not '' @ expected @ dashed (response_detail 120 r)) REPORT_IF_PERSISTENT"

definition malformed_response :: "string \<Rightarrow> tool_response \<Rightarrow> string \<Rightarrow> tool_exn" where
  "malformed_response service r expected = Failed UpstreamError (malformed_text service r expected)"

subsection \<open>Asking Prometheus\<close>

text \<open>\<open>prom_query\<close>: the rows, and what was wrong if it could not be asked.\<close>

definition instant_query :: "string \<Rightarrow> string \<Rightarrow> string \<Rightarrow> time \<Rightarrow> tool_request" where
  "instant_query client base_url query timeout = \<lparr>rq_client = client, rq_method = ''GET'', rq_url = base_url @ ''/api/v1/query'',
     rq_auth = [], rq_params = [(''query'', query)], rq_extra = [], rq_json = None, rq_content = None, rq_timeout = timeout\<rparr>"

definition prom_rows :: "request_error + tool_response \<Rightarrow> (string, json) dict list \<times> string option" where
  "prom_rows a = (case a of
     Inl e \<Rightarrow> ([], Some (''is unreachable - '' @ describe_exception e))
   | Inr r \<Rightarrow> if rs_status r \<noteq> 200 then ([], Some (''returned HTTP '' @ show_nat (rs_status r) @ dashed (response_detail 160 r)))
     else case (case json_body r of JObj b \<Rightarrow> dict_get b ''data'' JNull | _ \<Rightarrow> JNull) of
       JObj d \<Rightarrow> ((case dict_get d ''result'' JNull of JList rows \<Rightarrow> List.map_filter (\<lambda>j. case j of JObj row \<Rightarrow> Some row | _ \<Rightarrow> None) rows
         | _ \<Rightarrow> []), None)
     | _ \<Rightarrow> ([], Some ''returned HTTP 200 but the body was not a query result''))"

definition prom_query :: "'w backends \<Rightarrow> string \<Rightarrow> string \<Rightarrow> string \<Rightarrow> time \<Rightarrow> ('w, (string, json) dict list \<times> string option) tool" where
  "prom_query bk client base_url query timeout = bindm (tool_send bk (instant_query client base_url query timeout)) (\<lambda>a. ret (prom_rows a))"

text \<open>\<open>float(row["value"][1])\<close>, or \<open>None\<close> for the exceptions that are caught.\<close>

definition sample_value :: "(string, json) dict \<Rightarrow> pyfloat option" where
  "sample_value row = (case map_of row ''value'' of
     Some (JList (_ # x # _)) \<Rightarrow> (case as_float x of Inl _ \<Rightarrow> None | Inr v \<Rightarrow> Some v)
   | Some (JStr (_ # c # _)) \<Rightarrow> py_float [c] | _ \<Rightarrow> None)"

definition prom_scalar :: "(string, json) dict list \<Rightarrow> pyfloat option" where
  "prom_scalar rows = (case rows of [] \<Rightarrow> None | row # _ \<Rightarrow> sample_value row)"

definition prom_vector :: "(string, json) dict list \<Rightarrow> (json \<times> pyfloat) list" where
  "prom_vector rows = List.map_filter (\<lambda>row. map_option (Pair (or_else (dict_get row ''metric'' JNull) (JObj []))) (sample_value row)) rows"

definition prom_value :: "'w backends \<Rightarrow> string \<Rightarrow> string \<Rightarrow> string \<Rightarrow> ('w, pyfloat option \<times> string option) tool" where
  "prom_value bk client base_url query = bindm (prom_query bk client base_url query 8) (\<lambda>(rows, problem). ret (prom_scalar rows, problem))"

definition prom_samples :: "'w backends \<Rightarrow> string \<Rightarrow> string \<Rightarrow> string \<Rightarrow> ('w, (json \<times> pyfloat) list \<times> string option) tool" where
  "prom_samples bk client base_url query = bindm (prom_query bk client base_url query 8) (\<lambda>(rows, problem). ret (prom_vector rows, problem))"

text \<open>\<open>quote_label\<close>.\<close>

definition quote_label :: "string \<Rightarrow> string" where
  "quote_label v = concat (map (\<lambda>c. if c = backslash \<or> c = quote then [backslash, c] else [c]) v)"

text \<open>"Could not ask" and "no such series" are never confused: rows come only without a problem, of a 200 with a result.\<close>

lemma prom_rows_known:
  "prom_rows a = (rows, None) \<Longrightarrow> \<exists>r b d. a = Inr r \<and> rs_status r = 200 \<and> json_body r = JObj b \<and> dict_get b ''data'' JNull = JObj d"
  "prom_rows a = (rows, Some problem) \<Longrightarrow> rows = []"
  by (auto simp: prom_rows_def split: sum.splits if_splits json.splits)

subsection \<open>What a call leaves alone\<close>

text \<open>Every event of a run is lawful; \<open>law\<close> sees the events before it.\<close>

fun events_lawful :: "(tool_event \<Rightarrow> tool_event list \<Rightarrow> bool) \<Rightarrow> tool_event list \<Rightarrow> bool" where
  "events_lawful law [] = True"
| "events_lawful law (e # es) = (law e es \<and> events_lawful law es)"

lemma lawful_event: "events_lawful law es \<Longrightarrow> e \<in> set es \<Longrightarrow> \<exists>fs. law e fs \<and> set fs \<subseteq> set es"
  by (induction es) auto

abbreviation obeys :: "(tool_event \<Rightarrow> tool_event list \<Rightarrow> bool) \<Rightarrow> ('w, 'a) tool \<Rightarrow> bool" where
  "obeys law \<equiv> preserves (\<lambda>s. events_lawful law (tr_events s))"

lemma preserves_world_step:
  "(\<And>s a w. I s \<Longrightarrow> f (tr_world s) = (a, w) \<Longrightarrow> I (s\<lparr>tr_world := w, tr_events := evs a @ tr_events s\<rparr>)) \<Longrightarrow> preserves I (world_step f evs)"
  by (auto simp: preserves_def world_step_def split: prod.splits)

lemma wp_world_step [wp_simps]:
  "wp (world_step f evs) R X = (\<lambda>s. case f (tr_world s) of (a, w) \<Rightarrow> R a (s\<lparr>tr_world := w, tr_events := evs a @ tr_events s\<rparr>))"
  by (auto simp: fun_eq_iff wp_def world_step_def split: prod.splits)

lemma obeys_send: "(\<And>a es. events_lawful law es \<Longrightarrow> law (Called q a) es) \<Longrightarrow> obeys law (tool_send bk q)"
  unfolding tool_send_def by (rule preserves_world_step) simp

lemma obeys_monotonic [pres_intros]: "obeys law (tool_clock bk)"
  unfolding tool_clock_def by (rule preserves_world_step) simp

lemma obeys_sleep: "(\<And>es. law (Slept d) es) \<Longrightarrow> obeys law (tool_sleep bk d)"
  unfolding tool_sleep_def by (rule preserves_world_step) simp

lemma obeys_elicit: "(\<And>es. law (Asked_user message schema) es) \<Longrightarrow> obeys law (elicit bk message schema)"
  unfolding elicit_def by (intro pres_intros preserves_world_step) simp

lemma obeys_ask: "(\<And>es. law (Asked_user message schema) es) \<Longrightarrow> obeys law (ask bk message schema help_text)"
  unfolding ask_def by (intro pres_intros obeys_elicit)

text \<open>What asking the user leaves alone.\<close>

lemma preserves_ask:
  "(\<And>s w. I s \<Longrightarrow> I (s\<lparr>tr_world := w, tr_events := Asked_user message schema # tr_events s\<rparr>)) \<Longrightarrow> preserves I (ask bk message schema help_text)"
  unfolding ask_def elicit_def by (intro pres_intros preserves_world_step) simp

lemma holds_world_step: "(\<And>s a w. f (s\<lparr>tr_world := w, tr_events := evs a @ tr_events s\<rparr>) = f s) \<Longrightarrow> holds f (world_step g evs)"
  by (simp add: holds_def world_step_def split: prod.split)

lemma preserves_require_user [pres_intros]: "preserves I (require_user u)"
  unfolding require_user_def by (intro pres_intros)

lemma preserves_py [pres_intros]: "preserves I (py r)"
  unfolding py_def by (intro pres_intros)

lemma preserves_text_field [pres_intros]: "preserves I (text_field d k)"
  unfolding text_field_def by (auto split: option.split json.split intro: pres_intros)

lemma preserves_number_field [pres_intros]: "preserves I (number_field d k)"
  unfolding number_field_def by (auto split: option.split json.split intro: pres_intros)

subsection \<open>Waiting\<close>

text \<open>
  The clock, as far as the tools rely on it: what a request, a question or a reading takes is no less than nothing,
  what is read is the time of the reading, and a sleep takes at least as long as it is asked to.
\<close>

definition clock_steady :: "('w \<Rightarrow> time) \<Rightarrow> 'w backends \<Rightarrow> bool" where
  "clock_steady now bk \<longleftrightarrow> (\<forall>w q. now w \<le> now (snd (bk_request bk q w))) \<and> (\<forall>w m f. now w \<le> now (snd (bk_elicit bk m f w)))
     \<and> (\<forall>w. now w \<le> fst (bk_monotonic bk w) \<and> fst (bk_monotonic bk w) \<le> now (snd (bk_monotonic bk w)))
     \<and> (\<forall>w d. now w + max 0 d \<le> now (bk_sleep bk d w))"

abbreviation clock_onward :: "('w \<Rightarrow> time) \<Rightarrow> ('w, 'a) tool \<Rightarrow> bool" where
  "clock_onward now m \<equiv> (\<forall>T. preserves (\<lambda>s. T \<le> now (tr_world s)) m)"

lemma onward_send: "clock_steady now bk \<Longrightarrow> preserves (\<lambda>s. T \<le> now (tr_world s)) (tool_send bk q)"
  unfolding tool_send_def by (rule preserves_world_step) (auto simp: clock_steady_def, metis order_trans snd_conv)

lemma onward_monotonic: "clock_steady now bk \<Longrightarrow> preserves (\<lambda>s. T \<le> now (tr_world s)) (tool_clock bk)"
  unfolding tool_clock_def by (rule preserves_world_step) (auto simp: clock_steady_def, metis fst_conv order_trans snd_conv)

lemma onward_sleep: "clock_steady now bk \<Longrightarrow> preserves (\<lambda>s. T \<le> now (tr_world s)) (tool_sleep bk d)"
  unfolding tool_sleep_def
proof (rule preserves_world_step)
  fix s :: "'a tool_run" and a w
  assume st: "clock_steady now bk" and T: "T \<le> now (tr_world s)" and w: "((), bk_sleep bk d (tr_world s)) = (a, w)"
  have "now (tr_world s) + max 0 d \<le> now w" using st w by (auto simp: clock_steady_def)
  moreover have "0 \<le> max 0 d" by simp
  ultimately show "T \<le> now (tr_world (s\<lparr>tr_world := w, tr_events := [Slept d] @ tr_events s\<rparr>))" using T by simp
qed

text \<open>A tool that is given rounds enough is never short of them.\<close>

definition finishes :: "('w, 'a) tool \<Rightarrow> 'w tool_run \<Rightarrow> bool" where
  "finishes m s \<longleftrightarrow> fst (m s) \<noteq> Inl Unfinished"

lemma finishes_wp: "finishes m s \<longleftrightarrow> wp m (\<lambda>_ _. True) (\<lambda>e _. e \<noteq> Unfinished) s"
  by (auto simp: finishes_def wp_def split: prod.split sum.split)

text \<open>A computation that finishes wherever it starts.\<close>

definition ends :: "('w, 'a) tool \<Rightarrow> bool" where
  "ends m \<longleftrightarrow> (\<forall>s. finishes m s)"

named_theorems ends_intros

lemma endsD: "ends m \<Longrightarrow> finishes m s"
  by (simp add: ends_def)

lemma ends_ret [ends_intros]: "ends (ret a)"
  by (simp add: ends_def finishes_def ret_def)

lemma ends_raise [ends_intros]: "e \<noteq> Unfinished \<Longrightarrow> ends (raise e)"
  by (simp add: ends_def finishes_def raise_def)

lemma ends_gets [ends_intros]: "ends (gets f)"
  by (simp add: ends_def finishes_def gets_def)

lemma ends_of_sum [ends_intros]: "r \<noteq> Inl Unfinished \<Longrightarrow> ends (of_sum r)"
  by (simp add: ends_def finishes_def of_sum_def)

lemma ends_world_step [ends_intros]: "ends (world_step f evs)"
  by (simp add: ends_def finishes_def world_step_def split: prod.split)

lemma ends_bindm [ends_intros]: "ends m \<Longrightarrow> (\<And>a. ends (g a)) \<Longrightarrow> ends (bindm m g)"
  by (auto simp: ends_def finishes_wp wp_simps intro: wp_mono)

lemma ends_catch [ends_intros]: "ends m \<Longrightarrow> (\<And>e. e \<noteq> Unfinished \<Longrightarrow> ends (h e)) \<Longrightarrow> ends (catch m h)"
  by (auto simp: ends_def finishes_wp wp_simps intro: wp_mono)

lemma ends_if [ends_intros]: "(b \<Longrightarrow> ends m) \<Longrightarrow> (\<not> b \<Longrightarrow> ends m') \<Longrightarrow> ends (if b then m else m')"
  by simp

lemma ends_sum [ends_intros]: "(\<And>a. ends (g a)) \<Longrightarrow> (\<And>b. ends (h b)) \<Longrightarrow> ends (case x of Inl a \<Rightarrow> g a | Inr b \<Rightarrow> h b)"
  by (cases x) simp_all

lemma ends_option [ends_intros]: "ends m \<Longrightarrow> (\<And>a. ends (g a)) \<Longrightarrow> ends (case x of None \<Rightarrow> m | Some a \<Rightarrow> g a)"
  by (cases x) simp_all

lemma ends_prod [ends_intros]: "(\<And>a b. ends (g a b)) \<Longrightarrow> ends (case p of (a, b) \<Rightarrow> g a b)"
  by (cases p) simp

lemma ends_bind_state: "(\<And>s. finishes (bindm m g) s) \<Longrightarrow> ends (bindm m g)"
  by (simp add: ends_def)

lemma ends_steps [ends_intros]:
  "ends (tool_send bk q)" "ends (tool_clock bk)" "ends (tool_sleep bk d)" "ends (elicit bk message schema)"
  unfolding tool_send_def tool_clock_def tool_sleep_def elicit_def by (intro ends_intros)+

lemma ends_ask [ends_intros]: "ends (ask bk message schema help_text)"
  unfolding ask_def by (intro ends_intros) simp

lemma ends_fields [ends_intros]: "ends (text_field d k)" "ends (number_field d k)" "ends (require_user u)" "ends (py r)"
  unfolding text_field_def number_field_def require_user_def py_def
  by (auto split: option.split json.split sum.split intro: ends_intros)

lemma built_failures [simp]:
  "unreachable service e next_step \<noteq> Unfinished" "http_error service r action next_step \<noteq> Unfinished" "malformed_response service r expected \<noteq> Unfinished"
  by (simp_all add: unreachable_def http_error_def malformed_response_def Let_def)

text \<open>What is tried, and what is made of it: handlers that raise again, and an end that only reports.\<close>

lemma tried_run:
  assumes "m s = (r, t)" "bindm (catch m h) k s = (res, s')" "\<And>e u. \<exists>x. h e u = (Inl x, u)"
    and "\<And>a u. \<exists>y. k a u = (y, u) \<and> ((\<exists>z. y = Inr z) \<longleftrightarrow> P a)"
  shows "s' = t \<and> ((\<exists>z. res = Inr z) \<longleftrightarrow> (\<exists>a. r = Inr a \<and> P a))"
proof (cases r)
  case (Inl e)
  then show ?thesis using assms(1,2) assms(3) [of e t] by (auto simp: bindm_def catch_def)
next
  case (Inr a)
  then show ?thesis using assms(1,2) assms(4) [of a t] by (auto simp: bindm_def catch_def)
qed

text \<open>A failure of a backend.\<close>

fun is_upstream :: "tool_exn \<Rightarrow> bool" where
  "is_upstream (Failed UpstreamError text) = True"
| "is_upstream _ = False"

lemma is_upstreamE: "is_upstream e \<Longrightarrow> (\<And>text. e = Failed UpstreamError text \<Longrightarrow> P) \<Longrightarrow> P"
  by (cases e rule: is_upstream.cases) auto

lemma built_upstream [simp]:
  "is_upstream (unreachable service e next_step)" "is_upstream (http_error service r action next_step)"
  "is_upstream (malformed_response service r expected)"
  by (simp_all add: unreachable_def http_error_def malformed_response_def Let_def)

text \<open>A wait that begins by reading the clock.\<close>

lemma ends_deadline:
  assumes "clock_steady now bk" "\<And>t s. t \<le> now (tr_world s) \<Longrightarrow> finishes (g t) s"
  shows "ends (bindm (tool_clock bk) g)"
proof (rule ends_bind_state)
  fix s :: "'a tool_run"
  have "fst (bk_monotonic bk (tr_world s)) \<le> now (snd (bk_monotonic bk (tr_world s)))" using assms(1) by (simp add: clock_steady_def)
  then show "finishes (bindm (tool_clock bk) g) s"
    using assms(2) by (auto simp: finishes_wp wp_simps tool_clock_def split: prod.split)
qed

text \<open>
  The loops that wait: look, give up once the deadline is over, else sleep for the interval or what is left and look
  again. One that may look once more than its time has intervals always ends.
\<close>

locale bounded_polling =
  fixes bk :: "'w backends" and interval :: time and looking :: "'a \<Rightarrow> ('w, 'r + 'a) tool" and give_up :: "'a \<Rightarrow> ('w, 'r) tool"
    and loop :: "nat \<Rightarrow> time \<Rightarrow> 'a \<Rightarrow> ('w, 'r) tool"
  assumes interval: "0 < interval"
    and loop_Suc: "loop (Suc n) deadline a = bindm (looking a) (\<lambda>r. case r of Inl x \<Rightarrow> ret x
      | Inr a' \<Rightarrow> bindm (tool_clock bk) (\<lambda>t. if deadline - t \<le> 0 then give_up a'
          else bindm (tool_sleep bk (min interval (deadline - t))) (\<lambda>_. loop n deadline a')))"
    and looking_ends: "ends (looking a)" and give_up_ends: "ends (give_up a)"
begin

lemma loop_finishes:
  assumes "clock_steady now bk" "\<And>a. clock_onward now (looking a)" "deadline \<le> now (tr_world s) + of_nat n * interval"
  shows "finishes (loop (Suc n) deadline a) s"
  using assms(3)
proof (induction n arbitrary: a s)
  case (0 a s)
  show ?case
    unfolding loop_Suc finishes_wp wp_bindm
  proof (rule wpI)
    fix r s' assume "looking a s = (Inr r, s')"
    then have "deadline \<le> now (tr_world s')"
      using assms(2) [of a] 0 preservesD [of "\<lambda>s. deadline \<le> now (tr_world s)" "looking a" s] by simp
    moreover have "now (tr_world s') \<le> fst (bk_monotonic bk (tr_world s'))" using assms(1) by (simp add: clock_steady_def)
    ultimately have "deadline - fst (bk_monotonic bk (tr_world s')) \<le> 0" by simp
    then show "wp (case r of Inl x \<Rightarrow> ret x
      | Inr a' \<Rightarrow> bindm (tool_clock bk) (\<lambda>t. if deadline - t \<le> 0 then give_up a'
          else bindm (tool_sleep bk (min interval (deadline - t))) (\<lambda>_. loop 0 deadline a'))) (\<lambda>_ _. True) (\<lambda>e _. e \<noteq> Unfinished) s'"
      using give_up_ends
      by (auto simp: wp_simps tool_clock_def finishes_wp ends_def split: sum.split prod.split)
  qed (use endsD [OF looking_ends, of a s] in \<open>auto simp: finishes_def\<close>)
next
  case (Suc n a s)
  show ?case
    unfolding loop_Suc [of "Suc n"] finishes_wp wp_bindm
  proof (rule wpI)
    fix r s' assume "looking a s = (Inr r, s')"
    then have s': "now (tr_world s) \<le> now (tr_world s')"
      using assms(2) [of a] preservesD [of "\<lambda>u. now (tr_world s) \<le> now (tr_world u)" "looking a" s] by simp
    have more: "finishes (loop (Suc n) deadline a') (s'\<lparr>tr_world := bk_sleep bk (min interval (deadline - t)) w, tr_events := es\<rparr>)"
      if t: "bk_monotonic bk (tr_world s') = (t, w)" and left: "\<not> deadline - t \<le> 0" for t w a' es
    proof (rule Suc.IH)
      define nap where "nap = min interval (deadline - t)"
      have p: "deadline \<le> now (tr_world s) + interval + of_nat n * interval" using Suc.prems by (simp add: algebra_simps)
      have "now (tr_world s') \<le> t" "t \<le> now w" using assms(1) t by (auto simp: clock_steady_def) (metis fst_conv snd_conv)+
      moreover have nap: "0 < nap" "nap = interval \<or> nap = deadline - t" using left interval by (auto simp: nap_def min_def)
      moreover have "now w + nap \<le> now (bk_sleep bk nap w)" using assms(1) nap(1) by (auto simp: clock_steady_def) (metis less_le max.absorb2)
      moreover have "0 \<le> of_nat n * interval" using interval by simp
      ultimately have "deadline \<le> now (bk_sleep bk nap w) + of_nat n * interval"
        using p s' by (elim disjE) linarith+
      then show "deadline \<le> now (tr_world (s'\<lparr>tr_world := bk_sleep bk (min interval (deadline - t)) w, tr_events := es\<rparr>)) + of_nat n * interval"
        by (simp add: nap_def)
    qed
    then show "wp (case r of Inl x \<Rightarrow> ret x
      | Inr a' \<Rightarrow> bindm (tool_clock bk) (\<lambda>t. if deadline - t \<le> 0 then give_up a'
          else bindm (tool_sleep bk (min interval (deadline - t))) (\<lambda>_. loop (Suc n) deadline a'))) (\<lambda>_ _. True) (\<lambda>e _. e \<noteq> Unfinished) s'"
      using give_up_ends
      by (auto simp: wp_simps tool_clock_def tool_sleep_def finishes_wp ends_def split: sum.split prod.split)
  qed (use endsD [OF looking_ends, of a s] in \<open>auto simp: finishes_def\<close>)
qed

end

end
