(* ===== verification/Tool_Auth.thy ===== *)
theory Tool_Auth
  imports Tool_Http
begin

text \<open>
  Who a call of the agentic interface is from (\<open>src/docker/agentic-interface/auth.py\<close> and the middleware of \<open>server.py\<close>), and how
  the end of a tool's call is told (\<open>metrics.py\<close>). The Hub, the two caches (\<open>TTLCache\<close> of cachetools) and the digest of a token
  are parameters. A request has two parts, before the Hub is asked and after it answered; between them the other requests go
  on, which are steps of their own.
\<close>

subsection \<open>The verdict on a token\<close>

text \<open>The caches, each as it is read at a time, and written at one; \<open>sha256\<close>.\<close>

record ('u, 'n) auth_caches =
  ac_new_users :: 'u
  ac_get_user :: "'u \<Rightarrow> time \<Rightarrow> string \<Rightarrow> af_user option"
  ac_put_user :: "'u \<Rightarrow> time \<Rightarrow> string \<Rightarrow> af_user \<Rightarrow> 'u"
  ac_new_rejected :: 'n
  ac_get_rejected :: "'n \<Rightarrow> time \<Rightarrow> string \<Rightarrow> bool option"
  ac_put_rejected :: "'n \<Rightarrow> time \<Rightarrow> string \<Rightarrow> bool \<Rightarrow> 'n"
  ac_hash_token :: "string \<Rightarrow> string"

definition CACHE_TTL :: time where "CACHE_TTL = 60"
definition NEG_CACHE_TTL :: time where "NEG_CACHE_TTL = 5"

text \<open>The state of the service; \<open>answers\<close> are what the Hub answered so far, with the time and the token.\<close>

record ('u, 'n) auth_state =
  au_now :: time
  au_users :: 'u
  au_rejected :: 'n
  au_answers :: "(time \<times> string \<times> (request_error + tool_response)) list"

definition auth_start :: "('u, 'n) auth_caches \<Rightarrow> time \<Rightarrow> ('u, 'n) auth_state" where
  "auth_start ac t = \<lparr>au_now = t, au_users = ac_new_users ac, au_rejected = ac_new_rejected ac, au_answers = []\<rparr>"

text \<open>\<open>resolve_user\<close> up to the Hub: known, rejected a moment ago, or to be asked for.\<close>

datatype lookup_result = Known af_user | Refused_before | Not_known

definition look_up :: "('u, 'n) auth_caches \<Rightarrow> ('u, 'n) auth_state \<Rightarrow> string \<Rightarrow> lookup_result" where
  "look_up ac s token = (let key = ac_hash_token ac token in
     case ac_get_user ac (au_users s) (au_now s) key of Some u \<Rightarrow> Known u
     | None \<Rightarrow> if ac_get_rejected ac (au_rejected s) (au_now s) key \<noteq> None then Refused_before else Not_known)"

definition user_request :: "tool_config \<Rightarrow> string \<Rightarrow> tool_request" where
  "user_request cf token = \<lparr>rq_client = ''hub'', rq_method = ''GET'', rq_url = tc_hub_api cf @ ''/user'', rq_auth = ''Bearer '' @ token,
     rq_params = [], rq_extra = [], rq_json = None, rq_content = None, rq_timeout = 10\<rparr>"

text \<open>The name in a user's record, if there is one.\<close>

definition hub_name :: "tool_response \<Rightarrow> string option" where
  "hub_name r = (case json_body r of JObj d \<Rightarrow> (case dict_get d ''name'' JNull of JStr (ch # nm) \<Rightarrow> Some (ch # nm) | _ \<Rightarrow> None) | _ \<Rightarrow> None)"

datatype token_verdict = Token_valid af_user | Token_invalid | No_verdict string

definition hub_verdict :: "tool_config \<Rightarrow> string \<Rightarrow> request_error + tool_response \<Rightarrow> token_verdict" where
  "hub_verdict cf token a = (case a of
     Inl e \<Rightarrow> No_verdict (''JupyterHub API unreachable - '' @ describe_exception e)
   | Inr r \<Rightarrow>
       if rs_status r \<in> {401, 403} then Token_invalid
       else if rs_status r \<noteq> 200 then No_verdict (''JupyterHub API returned HTTP '' @ show_nat (rs_status r)
         @ (if rs_status r = 404 then '' for '' @ tc_hub_api cf @ ''/user (JUPYTERHUB_API_URL misconfigured?)'' else [])
         @ dashed (response_detail 120 r))
       else case hub_name r of Some name \<Rightarrow> Token_valid \<lparr>cl_username = name, cl_token = token\<rparr>
         | None \<Rightarrow> No_verdict ''JupyterHub API returned HTTP 200 but no user record for the token'')"

text \<open>\<open>resolve_user\<close> from the Hub's answer on: a verdict on the token is kept, a failure of the Hub is not.\<close>

definition resolve_answer :: "('u, 'n) auth_caches \<Rightarrow> tool_config \<Rightarrow> string \<Rightarrow> request_error + tool_response \<Rightarrow> ('u, 'n) auth_state
    \<Rightarrow> token_verdict \<times> ('u, 'n) auth_state" where
  "resolve_answer ac cf token a s0 = (let v = hub_verdict cf token a; key = ac_hash_token ac token;
     s = s0\<lparr>au_answers := (au_now s0, token, a) # au_answers s0\<rparr> in
     (v, case v of Token_valid u \<Rightarrow> s\<lparr>au_users := ac_put_user ac (au_users s) (au_now s) key u\<rparr>
         | Token_invalid \<Rightarrow> s\<lparr>au_rejected := ac_put_rejected ac (au_rejected s) (au_now s) key True\<rparr>
         | No_verdict _ \<Rightarrow> s))"

subsection \<open>The middleware\<close>

record http_scope =
  hs_type :: string
  hs_path :: string
  hs_headers :: "(string \<times> string) list"

record http_answer =
  ha_status :: nat
  ha_content_type :: string
  ha_headers :: "(string \<times> string) list"
  ha_body :: string

text \<open>What becomes of a request: the socket is closed, the message is no request and goes on, it is answered, or the tools get it.\<close>

datatype web_outcome = Closed_socket | Let_by | Web_answered http_answer | Admitted af_user "(string \<times> string) list"

definition variable_name :: "string \<Rightarrow> bool" where
  "variable_name s \<longleftrightarrow> (case lower s of [] \<Rightarrow> False | c # cs \<Rightarrow> (is_lower_letter c \<or> c = CHR ''_'') \<and> list_all (\<lambda>d. is_lower_letter d \<or> is_digit d \<or> d = CHR ''_'') cs)"

text \<open>\<open>_PLACEHOLDER_RE\<close>, on a text with no white space at its end.\<close>

definition placeholder :: "string \<Rightarrow> bool" where
  "placeholder s \<longleftrightarrow> (case s of [] \<Rightarrow> False | c # cs \<Rightarrow>
       c = CHR ''$'' \<and> variable_name (removesuffix ''}'' (removeprefix ''{'' cs))
     \<or> c = CHR ''%'' \<and> suffix ''%'' cs \<and> variable_name (removesuffix ''%'' cs)
     \<or> c = CHR ''<'' \<and> suffix ''>'' cs \<and> CHR ''>'' \<notin> set (butlast cs))
   \<or> s = ''...''
   \<or> lower s \<in> set (map (\<lambda>(a, b, d). ''your'' @ a @ b @ ''token'' @ d)
       (List.product [[], ''_'', ''-''] (List.product [[], ''api'', ''api_'', ''api-''] [[], ''here'', ''_here'', ''-here''])))"

definition HINT_MISSING :: "tool_config \<Rightarrow> string" where
  "HINT_MISSING cf = ''No Authorization header reached the service. Configure the MCP client to send 'Authorization: Bearer <JupyterHub API token>' - mint a token at ''
     @ TOKEN_URL cf @ '', or inside an AF session use the JUPYTERHUB_API_TOKEN the session provides.''"

definition HINT_EMPTY :: string where
  "HINT_EMPTY = ''The Authorization header arrived as 'Bearer' with nothing after it: the environment variable or token file the MCP client reads (for example JUPYTERHUB_API_TOKEN, or ~/.config/purdue-af/token) is empty or unset. Fill it in, then reconnect the MCP server.''"

definition HINT_INVALID :: "tool_config \<Rightarrow> string" where
  "HINT_INVALID cf = ''JupyterHub does not recognise this token: it is mistyped, expired, or was revoked (inside an AF session the token changes on every restart). Mint a new one at ''
     @ TOKEN_URL cf @ '' - or, inside a session, restart the agent so it picks up the current JUPYTERHUB_API_TOKEN - then reconnect the MCP server.''"

definition HINT_UNAVAILABLE :: "string \<Rightarrow> string" where
  "HINT_UNAVAILABLE detail = ''The token could not be checked because '' @ detail @ ''. This is a facility-side problem, not a token problem - try again in a minute.''"

definition token_problem :: "tool_config \<Rightarrow> string \<Rightarrow> (string \<times> string) option" where
  "token_problem cf token = (if token = [] then Some (''Empty Bearer token'', HINT_EMPTY)
     else if placeholder token then Some (''Unexpanded token placeholder'', ''The token sent was the literal text '' @ tc_repr cf (JStr (first_of 40 token))
       @ '': the placeholder in the MCP client configuration was never replaced with a real token, or the environment variable it names is unset and the client did not expand it. Put a real token there (mint one at ''
       @ TOKEN_URL cf @ ''), then reconnect the MCP server.'')
     else None)"

definition web_answer :: "nat \<Rightarrow> string \<Rightarrow> string \<Rightarrow> (string \<times> string) list \<Rightarrow> web_outcome" where
  "web_answer status detail hint more_headers = Web_answered \<lparr>ha_status = status, ha_content_type = ''application/json'', ha_headers = more_headers,
     ha_body = json_dumps (JObj ([(''error'', JStr detail)] @ (if hint \<noteq> [] then [(''hint'', JStr hint)] else [])))\<rparr>"

definition challenge :: "string \<Rightarrow> bool \<Rightarrow> string" where
  "challenge hint invalid = ''Bearer realm='' @ quote # ''purdue-af-agentic-interface'' @ [quote]
     @ (if invalid then '', error='' @ quote # ''invalid_token'' @ [quote] @ '', error_description='' @ quote # map (\<lambda>c. if c = quote then CHR 0x27 else c) hint @ [quote]
        else [])"

definition reject :: "string \<Rightarrow> string \<Rightarrow> bool \<Rightarrow> web_outcome" where
  "reject problem hint invalid = web_answer 401 problem hint [(''www-authenticate'', challenge hint invalid)]"

definition route_for :: "string \<Rightarrow> string \<Rightarrow> string" where
  "route_for service_prefix path = (if path \<in> {''/health'', service_prefix @ ''/health''} then ''health''
     else if path = ''/metrics'' then ''metrics'' else if prefix (service_prefix @ ''/mcp'') path then ''mcp'' else ''other'')"

text \<open>The token that a request presents, or the answer that it has none to present.\<close>

definition presented :: "tool_config \<Rightarrow> http_scope \<Rightarrow> web_outcome + string" where
  "presented cf sc = (let auth = strip_of py_space (dict_get (dict_updates [] (map (\<lambda>(k, v). (lower k, v)) (hs_headers sc))) ''authorization'' []) in
     if auth = [] then Inl (reject ''Missing Bearer token'' (HINT_MISSING cf) False)
     else let (scheme, rest) = partition_at (CHR '' '') auth; token = strip_of py_space rest in
       if lower scheme \<noteq> ''bearer'' then Inl (reject ''Unsupported Authorization scheme'' (''The Authorization header used the scheme '' @ tc_repr cf (JStr scheme)
         @ ''; this service expects 'Authorization: Bearer <JupyterHub API token>'. (JupyterHub's own REST API takes 'token <...>', but the MCP endpoint does not.)'') False)
       else case token_problem cf token of Some (problem, hint) \<Rightarrow> Inl (reject problem hint True) | None \<Rightarrow> Inr token)"

definition admit_user :: "http_scope \<Rightarrow> af_user \<Rightarrow> web_outcome" where
  "admit_user sc u = Admitted u (map (\<lambda>(k, v). if lower k = ''host'' then (''host'', ''localhost:8888'') else (k, v)) (hs_headers sc))"

definition refuse_token :: "tool_config \<Rightarrow> web_outcome" where
  "refuse_token cf = reject ''Invalid JupyterHub token'' (HINT_INVALID cf) True"

text \<open>The middleware up to the Hub: an outcome, or the token to ask the Hub about. \<open>metrics_page\<close> is the Prometheus client's, with its type.\<close>

definition before_hub :: "('u, 'n) auth_caches \<Rightarrow> tool_config \<Rightarrow> string \<Rightarrow> string \<times> string \<Rightarrow> http_scope \<Rightarrow> ('u, 'n) auth_state \<Rightarrow> web_outcome + string" where
  "before_hub ac cf service_prefix metrics_page sc s =
     (if hs_type sc = ''websocket'' then Inl Closed_socket else if hs_type sc \<noteq> ''http'' then Inl Let_by
      else let route = route_for service_prefix (hs_path sc) in
        if route = ''health'' then Inl (Web_answered \<lparr>ha_status = 200, ha_content_type = ''text/plain'', ha_headers = [], ha_body = ''ok''\<rparr>)
        else if route = ''metrics'' then Inl (Web_answered \<lparr>ha_status = 200, ha_content_type = fst metrics_page, ha_headers = [], ha_body = snd metrics_page\<rparr>)
        else if route \<noteq> ''mcp'' then Inl (web_answer 404 ''not found'' (''The MCP endpoint is '' @ service_prefix @ ''/mcp.'') [])
        else bind_sum (presented cf sc) (\<lambda>token. case look_up ac s token of
          Known u \<Rightarrow> Inl (admit_user sc u) | Refused_before \<Rightarrow> Inl (refuse_token cf) | Not_known \<Rightarrow> Inr token))"

text \<open>And from its answer on.\<close>

definition after_hub :: "('u, 'n) auth_caches \<Rightarrow> tool_config \<Rightarrow> http_scope \<Rightarrow> string \<Rightarrow> request_error + tool_response \<Rightarrow> ('u, 'n) auth_state
    \<Rightarrow> web_outcome \<times> ('u, 'n) auth_state" where
  "after_hub ac cf sc token a s = (case resolve_answer ac cf token a s of (v, s') \<Rightarrow>
     (case v of Token_valid u \<Rightarrow> admit_user sc u | Token_invalid \<Rightarrow> refuse_token cf
      | No_verdict detail \<Rightarrow> web_answer 503 ''JupyterHub API unavailable'' (HINT_UNAVAILABLE detail) [(''retry-after'', ''10'')], s'))"

subsection \<open>The end of a tool's call\<close>

text \<open>
  \<open>call_tool\<close> of the instrumented server: a result, or an exception, with the label it is counted under. A choice that could not be
  collected is an ordinary result; what no tool accounted for is a fault of the service.
\<close>

fun outcome_label :: "failure_kind \<Rightarrow> string" where
  "outcome_label UserError = ''user_error''"
| "outcome_label AuthError = ''auth_error''"
| "outcome_label UpstreamError = ''upstream_error''"
| "outcome_label ServiceFault = ''exception''"

definition unexpected_failure :: "string \<Rightarrow> exn \<Rightarrow> string \<Rightarrow> tool_exn" where
  "unexpected_failure tool name detail = Failed ServiceFault (finish (''Error: '' @ tool @ '' failed unexpectedly ('' @ name @ '': '' @ or_text (strip_of py_space detail) name @ '')'')
     ''This is a fault in the AF agentic interface, not in the request - report it to AF support with the tool name and the time it happened.'')"

definition call_tool :: "string \<Rightarrow> (exn \<Rightarrow> string) \<Rightarrow> tool_exn + string \<Rightarrow> (tool_exn + string) \<times> string" where
  "call_tool tool text_of r = (case r of Inr report \<Rightarrow> (Inr report, ''success'')
     | Inl (NeedsChoices help_text) \<Rightarrow> (Inr help_text, ''needs_input'')
     | Inl (Failed kind text) \<Rightarrow> (Inl (Failed kind text), outcome_label kind)
     | Inl (Tool_raised e) \<Rightarrow> (Inl (unexpected_failure tool e (text_of e)), ''exception'')
     | Inl Unfinished \<Rightarrow> (Inl Unfinished, []))"

subsection \<open>The requests together\<close>

text \<open>What the service may do at any time: let time pass, and take an answer of the Hub to some request.\<close>

inductive auth_step :: "('u, 'n) auth_caches \<Rightarrow> tool_config \<Rightarrow> ('u, 'n) auth_state \<Rightarrow> ('u, 'n) auth_state \<Rightarrow> bool"
  for ac :: "('u, 'n) auth_caches" and cf :: tool_config where
  Later: "au_now s \<le> t \<Longrightarrow> auth_step ac cf s (s\<lparr>au_now := t\<rparr>)"
| Answer: "resolve_answer ac cf token a s = (v, s') \<Longrightarrow> auth_step ac cf s s'"

text \<open>One request, from its arrival to its outcome.\<close>

inductive request_handled :: "('u, 'n) auth_caches \<Rightarrow> tool_config \<Rightarrow> string \<Rightarrow> string \<times> string \<Rightarrow> http_scope
    \<Rightarrow> ('u, 'n) auth_state \<Rightarrow> web_outcome \<Rightarrow> ('u, 'n) auth_state \<Rightarrow> bool"
  for ac :: "('u, 'n) auth_caches" and cf :: tool_config and service_prefix :: string and metrics_page :: "string \<times> string" and sc :: http_scope where
  At_once: "before_hub ac cf service_prefix metrics_page sc s = Inl what \<Longrightarrow> request_handled ac cf service_prefix metrics_page sc s what s"
| Asked: "before_hub ac cf service_prefix metrics_page sc s = Inr token \<Longrightarrow> (auth_step ac cf)\<^sup>*\<^sup>* s s1 \<Longrightarrow> after_hub ac cf sc token a s1 = (what, s')
    \<Longrightarrow> request_handled ac cf service_prefix metrics_page sc s what s'"

text \<open>What \<open>TTLCache\<close> promises: nothing is found in a new one, and what is found was put there under its key less than the time to live ago.\<close>

definition expiring :: "'c \<Rightarrow> ('c \<Rightarrow> time \<Rightarrow> string \<Rightarrow> 'v option) \<Rightarrow> ('c \<Rightarrow> time \<Rightarrow> string \<Rightarrow> 'v \<Rightarrow> 'c) \<Rightarrow> time \<Rightarrow> bool" where
  "expiring new get put ttl \<longleftrightarrow> (\<forall>now k. get new now k = None)
     \<and> (\<forall>c t k v now k' v'. get (put c t k v) now k' = Some v' \<longrightarrow> k' = k \<and> v' = v \<and> now < t + ttl \<or> get c now k' = Some v')"

definition caches_expire :: "('u, 'n) auth_caches \<Rightarrow> bool" where
  "caches_expire ac \<longleftrightarrow> expiring (ac_new_users ac) (ac_get_user ac) (ac_put_user ac) CACHE_TTL
     \<and> expiring (ac_new_rejected ac) (ac_get_rejected ac) (ac_put_rejected ac) NEG_CACHE_TTL"

text \<open>The Hub named this user for a token with this digest, less than a minute before; and rejected one, less than five seconds before.\<close>

definition vouched :: "('u, 'n) auth_caches \<Rightarrow> (time \<times> string \<times> (request_error + tool_response)) list \<Rightarrow> time \<Rightarrow> string \<Rightarrow> af_user \<Rightarrow> bool" where
  "vouched ac answers now key u \<longleftrightarrow> ac_hash_token ac (cl_token u) = key
     \<and> (\<exists>t r. (t, cl_token u, Inr r) \<in> set answers \<and> rs_status r = 200 \<and> hub_name r = Some (cl_username u) \<and> now < t + CACHE_TTL)"

definition rejected_lately :: "('u, 'n) auth_caches \<Rightarrow> (time \<times> string \<times> (request_error + tool_response)) list \<Rightarrow> time \<Rightarrow> string \<Rightarrow> bool" where
  "rejected_lately ac answers now key \<longleftrightarrow>
     (\<exists>t token r. (t, token, Inr r) \<in> set answers \<and> ac_hash_token ac token = key \<and> rs_status r \<in> {401, 403} \<and> now < t + NEG_CACHE_TTL)"

definition cached_soundly :: "('u, 'n) auth_caches \<Rightarrow> ('u, 'n) auth_state \<Rightarrow> bool" where
  "cached_soundly ac s \<longleftrightarrow> (\<forall>now k u. ac_get_user ac (au_users s) now k = Some u \<longrightarrow> vouched ac (au_answers s) now k u)
     \<and> (\<forall>now k b. ac_get_rejected ac (au_rejected s) now k = Some b \<longrightarrow> rejected_lately ac (au_answers s) now k)"

lemma vouched_Cons: "vouched ac answers now k u \<Longrightarrow> vouched ac (x # answers) now k u"
  by (auto simp: vouched_def)

lemma rejected_Cons: "rejected_lately ac answers now k \<Longrightarrow> rejected_lately ac (x # answers) now k"
  by (auto simp: rejected_lately_def)

text \<open>What a verdict rests on.\<close>

lemma hub_verdict_Valid:
  "hub_verdict cf token a = Token_valid u \<Longrightarrow> \<exists>r. a = Inr r \<and> rs_status r = 200 \<and> hub_name r = Some (cl_username u) \<and> cl_token u = token"
  by (auto simp: hub_verdict_def split: sum.splits if_splits option.splits)

lemma hub_verdict_Invalid: "hub_verdict cf token a = Token_invalid \<Longrightarrow> \<exists>r. a = Inr r \<and> rs_status r \<in> {401, 403}"
  by (auto simp: hub_verdict_def split: sum.splits if_splits option.splits)

lemma vouched_now: "hub_verdict cf token a = Token_valid u \<Longrightarrow> now < t + CACHE_TTL \<Longrightarrow> vouched ac ((t, token, a) # answers) now (ac_hash_token ac token) u"
  unfolding vouched_def by (auto dest!: hub_verdict_Valid)

lemma rejected_now: "hub_verdict cf token a = Token_invalid \<Longrightarrow> now < t + NEG_CACHE_TTL \<Longrightarrow> rejected_lately ac ((t, token, a) # answers) now (ac_hash_token ac token)"
  unfolding rejected_lately_def by (drule hub_verdict_Invalid) (metis list.set_intros(1))

lemma expiringD:
  "expiring new get put ttl \<Longrightarrow> get new now k = None"
  "expiring new get put ttl \<Longrightarrow> get (put c t k v) now k' = Some v' \<Longrightarrow> k' = k \<and> v' = v \<and> now < t + ttl \<or> get c now k' = Some v'"
  unfolding expiring_def by blast+

lemma resolve_answer_sound:
  assumes ac: "caches_expire ac" and s: "cached_soundly ac s" and run: "resolve_answer ac cf token a s = (v, s')"
  shows "cached_soundly ac s'"
proof (cases "hub_verdict cf token a")
  case (Token_valid u)
  have s': "s' = s\<lparr>au_answers := (au_now s, token, a) # au_answers s, au_users := ac_put_user ac (au_users s) (au_now s) (ac_hash_token ac token) u\<rparr>"
    using run Token_valid by (auto simp: resolve_answer_def Let_def)
  have "vouched ac (au_answers s') now k u'" if "ac_get_user ac (au_users s') now k = Some u'" for now k u'
  proof -
    from that ac consider "k = ac_hash_token ac token" "u' = u" "now < au_now s + CACHE_TTL" | "ac_get_user ac (au_users s) now k = Some u'"
      unfolding s' caches_expire_def by (auto dest: expiringD(2))
    then show ?thesis using s vouched_now [OF Token_valid] unfolding s' cached_soundly_def by cases (auto intro: vouched_Cons)
  qed
  then show ?thesis using s unfolding cached_soundly_def s' by (auto intro: rejected_Cons)
next
  case Token_invalid
  have s': "s' = s\<lparr>au_answers := (au_now s, token, a) # au_answers s, au_rejected := ac_put_rejected ac (au_rejected s) (au_now s) (ac_hash_token ac token) True\<rparr>"
    using run Token_invalid by (auto simp: resolve_answer_def Let_def)
  have "rejected_lately ac (au_answers s') now k" if "ac_get_rejected ac (au_rejected s') now k = Some b" for now k b
  proof -
    from that ac consider "k = ac_hash_token ac token" "now < au_now s + NEG_CACHE_TTL" | "ac_get_rejected ac (au_rejected s) now k = Some b"
      unfolding s' caches_expire_def by (auto dest: expiringD(2))
    then show ?thesis using s rejected_now [OF Token_invalid] unfolding s' cached_soundly_def by cases (auto intro: rejected_Cons)
  qed
  then show ?thesis using s unfolding cached_soundly_def s' by (auto intro: vouched_Cons)
next
  case (No_verdict detail)
  then have "s' = s\<lparr>au_answers := (au_now s, token, a) # au_answers s\<rparr>" using run by (auto simp: resolve_answer_def Let_def)
  then show ?thesis using s unfolding cached_soundly_def by (auto intro: vouched_Cons rejected_Cons)
qed

interpretation auth: machine "\<lambda>s. \<exists>t. s = auth_start ac t" "auth_step ac cf" "\<lambda>s. caches_expire ac \<longrightarrow> cached_soundly ac s" for ac cf
proof
  show "\<exists>t. s = auth_start ac t \<Longrightarrow> caches_expire ac \<longrightarrow> cached_soundly ac s" for s
    by (auto simp: auth_start_def cached_soundly_def caches_expire_def expiringD(1))
next
  fix s s' assume "auth_step ac cf s s'" "caches_expire ac \<longrightarrow> cached_soundly ac s"
  then show "caches_expire ac \<longrightarrow> cached_soundly ac s'"
    by cases (auto simp: cached_soundly_def dest: resolve_answer_sound)
qed

lemma later: "(auth_step ac cf)\<^sup>*\<^sup>* s s' \<Longrightarrow> au_now s \<le> au_now s'"
proof (induction rule: rtranclp_induct)
  case (step t u)
  from step.hyps(2) have "au_now t \<le> au_now u"
    by cases (auto simp: resolve_answer_def Let_def split: token_verdict.splits)
  with step.IH show ?case by simp
qed simp

definition guarded_path :: "string \<Rightarrow> http_scope \<Rightarrow> bool" where
  "guarded_path service_prefix sc \<longleftrightarrow> hs_type sc = ''http'' \<and> route_for service_prefix (hs_path sc) = ''mcp''"

lemma before_hub_guarded:
  assumes "guarded_path service_prefix sc" "presented cf sc = Inr token"
  shows "before_hub ac cf service_prefix metrics_page sc s = (case look_up ac s token of
    Known u \<Rightarrow> Inl (admit_user sc u) | Refused_before \<Rightarrow> Inl (refuse_token cf) | Not_known \<Rightarrow> Inr token)"
  using assms by (simp add: before_hub_def guarded_path_def)

lemma not_admitted [simp]: "web_answer status detail hint hs \<noteq> Admitted u h" "reject problem hint b \<noteq> Admitted u h" "refuse_token cf \<noteq> Admitted u h"
  by (simp_all add: web_answer_def reject_def refuse_token_def)

lemma presented_Inl: "presented cf sc = Inl what \<Longrightarrow> what \<noteq> Admitted u h"
  by (auto simp: presented_def Let_def split: if_splits prod.splits option.splits)

lemma before_hub_unguarded:
  assumes "\<not> (guarded_path service_prefix sc \<and> (\<exists>token. presented cf sc = Inr token))"
  shows "\<exists>what. before_hub ac cf service_prefix metrics_page sc s = Inl what \<and> what \<noteq> Admitted u h"
  using assms presented_Inl [of cf sc]
  by (cases "presented cf sc") (auto simp: before_hub_def guarded_path_def Let_def)

text \<open>The three ends of a request with a token.\<close>

definition justly :: "('u, 'n) auth_caches \<Rightarrow> tool_config \<Rightarrow> string \<Rightarrow> time \<Rightarrow> (time \<times> string \<times> (request_error + tool_response)) list \<Rightarrow> web_outcome \<Rightarrow> bool" where
  "justly ac cf token now answers what \<longleftrightarrow>
     (\<exists>u h. what = Admitted u h \<and> vouched ac answers now (ac_hash_token ac token) u)
   \<or> what = refuse_token cf \<and> rejected_lately ac answers now (ac_hash_token ac token)
   \<or> (\<exists>t a detail. (t, token, a) \<in> set answers \<and> hub_verdict cf token a = No_verdict detail
        \<and> what = web_answer 503 ''JupyterHub API unavailable'' (HINT_UNAVAILABLE detail) [(''retry-after'', ''10'')])"

lemma looked_up_justly:
  assumes "cached_soundly ac s"
  shows "look_up ac s token = Known u \<Longrightarrow> justly ac cf token (au_now s) (au_answers s) (admit_user sc u)"
    "look_up ac s token = Refused_before \<Longrightarrow> justly ac cf token (au_now s) (au_answers s) (refuse_token cf)"
  using assms unfolding look_up_def Let_def cached_soundly_def justly_def admit_user_def by (auto split: option.splits if_splits)

lemma answered_justly:
  assumes "after_hub ac cf sc token a s1 = (what, s')" "now \<le> au_now s1"
  shows "justly ac cf token now (au_answers s') what"
proof -
  have answers: "au_answers s' = (au_now s1, token, a) # au_answers s1"
    using assms(1) by (auto simp: after_hub_def resolve_answer_def Let_def split: token_verdict.splits)
  have what: "what = (case hub_verdict cf token a of Token_valid u \<Rightarrow> admit_user sc u | Token_invalid \<Rightarrow> refuse_token cf
      | No_verdict detail \<Rightarrow> web_answer 503 ''JupyterHub API unavailable'' (HINT_UNAVAILABLE detail) [(''retry-after'', ''10'')])"
    using assms(1) by (auto simp: after_hub_def resolve_answer_def Let_def)
  show ?thesis
  proof (cases "hub_verdict cf token a")
    case (Token_valid u)
    have "vouched ac (au_answers s') now (ac_hash_token ac token) u"
      unfolding answers using assms(2) by (intro vouched_now [OF Token_valid]) (simp add: CACHE_TTL_def)
    then show ?thesis using what Token_valid by (simp add: justly_def admit_user_def)
  next
    case Token_invalid
    have "rejected_lately ac (au_answers s') now (ac_hash_token ac token)"
      unfolding answers using assms(2) by (intro rejected_now [OF Token_invalid]) (simp add: NEG_CACHE_TTL_def)
    then show ?thesis using what Token_invalid by (simp add: justly_def)
  next
    case (No_verdict detail)
    then have "(au_now s1, token, a) \<in> set (au_answers s')" by (simp add: answers)
    moreover have "what = web_answer 503 ''JupyterHub API unavailable'' (HINT_UNAVAILABLE detail) [(''retry-after'', ''10'')]"
      using what No_verdict by simp
    ultimately show ?thesis using No_verdict unfolding justly_def by blast
  qed
qed

text \<open>
  C9: only the Hub's word lets a request in, or keeps it out. After any requests, with caches that forget as they promise: the
  tools get a request only on their own path and with a token, for the user that the Hub named for a token of the same digest
  less than a minute before the request came, or after. A token is called invalid only if the Hub rejected it less than five
  seconds before, or then; and while the Hub gives no verdict the answer is 503.
\<close>

theorem token_judged_by_hub:
  assumes "caches_expire ac" "(auth_step ac cf)\<^sup>*\<^sup>* (auth_start ac t0) s" "request_handled ac cf service_prefix metrics_page sc s what s'"
  shows "(\<forall>u h. what = Admitted u h \<longrightarrow> guarded_path service_prefix sc \<and> (\<exists>token. presented cf sc = Inr token))
    \<and> (\<forall>token. guarded_path service_prefix sc \<longrightarrow> presented cf sc = Inr token \<longrightarrow> justly ac cf token (au_now s) (au_answers s') what)"
proof -
  have sound: "cached_soundly ac s" using auth.reachable_inv [OF _ assms(2)] assms(1) by blast
  from assms(3) show ?thesis
  proof cases
    case At_once
    have "justly ac cf token (au_now s) (au_answers s) what" if "guarded_path service_prefix sc" "presented cf sc = Inr token" for token
      using At_once(2) looked_up_justly [OF sound, of token] unfolding before_hub_guarded [OF that] by (auto split: lookup_result.splits)
    then show ?thesis using At_once before_hub_unguarded [of service_prefix sc cf ac metrics_page s] by fastforce
  next
    case (Asked token s1 a)
    have path: "guarded_path service_prefix sc \<and> (\<exists>token. presented cf sc = Inr token)"
      using Asked(1) before_hub_unguarded [of service_prefix sc cf ac metrics_page s] by fastforce
    have "presented cf sc = Inr token" using path Asked(1) by (auto simp: before_hub_guarded split: lookup_result.splits)
    then show ?thesis using path answered_justly [OF Asked(3) later [OF Asked(2)]] by simp
  qed
qed

text \<open>Ada's token is looked up once, and known when she calls again half a minute later.\<close>

definition cache_get :: "time \<Rightarrow> (string \<times> time \<times> 'v) list \<Rightarrow> time \<Rightarrow> string \<Rightarrow> 'v option" where
  "cache_get ttl c now k = (case map_of c k of None \<Rightarrow> None | Some (t, v) \<Rightarrow> if now < t + ttl then Some v else None)"

definition cache_put :: "(string \<times> time \<times> 'v) list \<Rightarrow> time \<Rightarrow> string \<Rightarrow> 'v \<Rightarrow> (string \<times> time \<times> 'v) list" where
  "cache_put c t k v = (k, t, v) # c"

lemma cache_expires: "expiring [] (cache_get ttl) cache_put ttl"
  by (auto simp: expiring_def cache_get_def cache_put_def split: option.splits if_splits)

definition sample_caches :: "((string \<times> time \<times> af_user) list, (string \<times> time \<times> bool) list) auth_caches" where
  "sample_caches = \<lparr>ac_new_users = [], ac_get_user = cache_get CACHE_TTL, ac_put_user = cache_put, ac_new_rejected = [],
     ac_get_rejected = cache_get NEG_CACHE_TTL, ac_put_rejected = cache_put, ac_hash_token = id\<rparr>"

definition adas_request :: http_scope where
  "adas_request = \<lparr>hs_type = ''http'', hs_path = ''/af/mcp'', hs_headers = [(''Authorization'', ''Bearer tok''), (''Host'', ''af'')]\<rparr>"

definition adas_record :: "request_error + tool_response" where
  "adas_record = Inr \<lparr>rs_status = 200, rs_text = json_dumps (JObj [(''name'', JStr ''ada'')])\<rparr>"

definition told_once :: "((string \<times> time \<times> af_user) list, (string \<times> time \<times> bool) list) auth_state" where
  "told_once = (snd (resolve_answer sample_caches tools_config ''tok'' adas_record (auth_start sample_caches 0)))\<lparr>au_now := 30\<rparr>"

lemma sample_admitted:
  "before_hub sample_caches tools_config ''/af'' ([], []) adas_request told_once
     = Inl (Admitted \<lparr>cl_username = ''ada'', cl_token = ''tok''\<rparr> [(''Authorization'', ''Bearer tok''), (''host'', ''localhost:8888'')])"
  "presented tools_config adas_request = Inr ''tok'' \<and> guarded_path ''/af'' adas_request"
  "before_hub sample_caches tools_config ''/af'' ([], []) adas_request (auth_start sample_caches 0) = Inr ''tok''"
  by code_simp+

lemma told_once_reached: "(auth_step sample_caches tools_config)\<^sup>*\<^sup>* (auth_start sample_caches 0) told_once"
proof -
  let ?s = "snd (resolve_answer sample_caches tools_config ''tok'' adas_record (auth_start sample_caches 0))"
  have "auth_step sample_caches tools_config (auth_start sample_caches 0) ?s" by (rule Answer [of _ _ "''tok''" adas_record]) (rule prod.collapse [symmetric])
  moreover have "au_now ?s = 0" by (simp add: resolve_answer_def auth_start_def Let_def split: token_verdict.split)
  then have "auth_step sample_caches tools_config ?s (?s\<lparr>au_now := 30\<rparr>)" by (intro Later) simp
  ultimately show ?thesis unfolding told_once_def by (meson rtranclp.rtrancl_refl rtranclp.rtrancl_into_rtrancl)
qed

theorem token_judged_by_hub_witness:
  "\<exists>what. request_handled sample_caches tools_config ''/af'' ([], []) adas_request told_once what told_once
     \<and> what = Admitted \<lparr>cl_username = ''ada'', cl_token = ''tok''\<rparr> [(''Authorization'', ''Bearer tok''), (''host'', ''localhost:8888'')]
     \<and> justly sample_caches tools_config ''tok'' 30 (au_answers told_once) what"
proof -
  have ac: "caches_expire sample_caches" by (simp add: caches_expire_def sample_caches_def cache_expires)
  note run = At_once [OF sample_admitted(1)]
  have now: "au_now told_once = 30" by (simp add: told_once_def)
  note token_judged_by_hub [OF ac told_once_reached run, THEN conjunct2, rule_format, unfolded now]
  then show ?thesis using sample_admitted(2) run by blast
qed

end
