(* ===== verification/Tool_Session.thy ===== *)
theory Tool_Session
  imports Tool_Http
begin

text \<open>
  The session tools of the agentic interface (\<open>src/docker/agentic-interface/tools/session.py\<close>): reading, starting,
  stopping, restarting and waiting for the caller's JupyterHub server, through the Hub's API with the caller's token. The
  list of profiles and the counts of free GPUs that the questions of \<open>start_af_session\<close> show are parameters; what is made
  of them (\<open>find_profile\<close>, \<open>labelled_choices\<close>, \<open>apply_availability\<close>, \<open>single_choice_model\<close>) is modelled.
\<close>

definition JUPYTERHUB :: string where "JUPYTERHUB = ''JupyterHub API''"
definition POLL_INTERVAL :: time where "POLL_INTERVAL = 10"
definition STOP_WAIT :: time where "STOP_WAIT = 90"

subsection \<open>Asking the Hub\<close>

definition hub_error :: "tool_config \<Rightarrow> tool_response \<Rightarrow> string \<Rightarrow> string \<Rightarrow> tool_exn" where
  "hub_error cf r action username = (let code = rs_status r; detail = response_detail 160 r in
     if code = 401 then Failed AuthError (''Error: JupyterHub rejected this token (HTTP 401) while trying to '' @ action
       @ ''. It was accepted when this request was authenticated, so it has just expired or been revoked - inside an AF session the token changes on every restart, so restart the agent so it picks up the new JUPYTERHUB_API_TOKEN; from your own machine, mint a new token at ''
       @ TOKEN_URL cf @ '' and reconnect the MCP server.'')
     else if code = 403 then Failed AuthError (''Error: this token is not permitted to '' @ action @ '' (JupyterHub HTTP 403''
       @ (if detail \<noteq> [] then '': '' @ detail else [])
       @ ''). Tokens issued to a running session can only read their own session; to start, stop, or restart sessions use a token created at ''
       @ TOKEN_URL cf @ '' from outside the session.'')
     else if code = 404 then Failed AuthError (''Error: JupyterHub has no user '' @ CHR 0x27 # username @ [CHR 0x27]
       @ '' (HTTP 404) while trying to '' @ action @ '' - the account may have been removed from the hub. Contact AF support.'')
     else http_error JUPYTERHUB r action [])"

definition hub_request :: "tool_config \<Rightarrow> af_user \<Rightarrow> string \<Rightarrow> string \<Rightarrow> time \<Rightarrow> json option \<Rightarrow> tool_request" where
  "hub_request cf c http_method path timeout body = \<lparr>rq_client = ''hub'', rq_method = http_method, rq_url = tc_hub_api cf @ path,
     rq_auth = ''token '' @ cl_token c, rq_params = [], rq_extra = [], rq_json = body, rq_content = None, rq_timeout = timeout\<rparr>"

definition hub_call :: "'w backends \<Rightarrow> tool_config \<Rightarrow> af_user \<Rightarrow> string \<Rightarrow> string \<Rightarrow> string \<Rightarrow> nat list \<Rightarrow> time \<Rightarrow> json option
    \<Rightarrow> ('w, tool_response) tool" where
  "hub_call bk cf c http_method path action ok timeout body =
     bindm (tool_send bk (hub_request cf c http_method path timeout body)) (\<lambda>a. case a of
       Inl e \<Rightarrow> raise (unreachable JUPYTERHUB e (''The request to '' @ action
         @ '' was not made. Try again in a minute; if the hub stays unreachable, get_facility_health shows whether the facility is down.''))
     | Inr r \<Rightarrow> if rs_status r \<notin> set ok then raise (hub_error cf r action (cl_username c)) else ret r)"

definition user_path :: "af_user \<Rightarrow> string" where
  "user_path c = ''/users/'' @ cl_username c"

definition server_path :: "af_user \<Rightarrow> string" where
  "server_path c = user_path c @ ''/server''"

definition cannot_see_servers :: "tool_config \<Rightarrow> string \<Rightarrow> tool_exn" where
  "cannot_see_servers cf username = Failed AuthError (''Error: cannot read session state for '' @ CHR 0x27 # username @ [CHR 0x27]
     @ '': this token is not permitted to list servers, so I cannot tell whether a session is running. This is a permissions gap, not a stopped session: this token lacks read:servers. Inside an AF session, a restarted session gets a token that has it; from your own machine, mint a fresh token at ''
     @ TOKEN_URL cf @ ''. The JupyterHub interface at '' @ tc_public cf @ ''/hub/home always shows the real state.'')"

definition STILL_STOPPING :: string where
  "STILL_STOPPING = ''Error: the session is still stopping, so it cannot start yet. Wait for get_session_status to report no active session, then call start_af_session.''"

text \<open>\<open>_servers\<close>: only an empty dictionary means none; a list that is absent is unknown.\<close>

definition servers_of :: "tool_config \<Rightarrow> tool_response \<Rightarrow> string \<Rightarrow> tool_exn + (string, json) dict" where
  "servers_of cf r username = (case json_body r of
     JObj d \<Rightarrow> (case dict_get d ''servers'' JNull of JNull \<Rightarrow> Inl (cannot_see_servers cf username) | JObj servers \<Rightarrow> Inr servers
       | _ \<Rightarrow> Inl (malformed_response JUPYTERHUB r ''a user record''))
   | _ \<Rightarrow> Inl (malformed_response JUPYTERHUB r ''a user record''))"

definition user_servers :: "'w backends \<Rightarrow> tool_config \<Rightarrow> af_user \<Rightarrow> ('w, (string, json) dict) tool" where
  "user_servers bk cf c = bindm (hub_call bk cf c ''GET'' (user_path c) ''read the session state'' [200] 10 None) (\<lambda>r.
     of_sum (servers_of cf r (cl_username c)))"

definition session_stop :: "'w backends \<Rightarrow> tool_config \<Rightarrow> af_user \<Rightarrow> ('w, nat) tool" where
  "session_stop bk cf c = bindm (hub_call bk cf c ''DELETE'' (server_path c) ''stop the session'' [200, 202, 204, 400] 15 None) (\<lambda>r.
     ret (rs_status r))"

definition session_spawn :: "'w backends \<Rightarrow> tool_config \<Rightarrow> af_user \<Rightarrow> (string, json) dict \<Rightarrow> ('w, tool_response) tool" where
  "session_spawn bk cf c opts = hub_call bk cf c ''POST'' (server_path c) ''start the session'' [200, 201, 202, 400] 15 (Some (JObj opts))"

definition spawn_refusal :: "tool_response \<Rightarrow> string" where
  "spawn_refusal r = (if sublist ''is already running'' (rs_text r) then ''running''
     else if sublist ''is pending stop'' (rs_text r) then ''stopping'' else ''rejected'')"

text \<open>\<open>server.get(k, v)\<close>.\<close>

definition server_get :: "json \<Rightarrow> string \<Rightarrow> json \<Rightarrow> ('w, json) tool" where
  "server_get server k v = (case server of JObj d \<Rightarrow> ret (dict_get d k v) | _ \<Rightarrow> raise (Tool_raised ''AttributeError''))"

subsection \<open>Waiting for a stop\<close>

text \<open>One look: \<open>Inl\<close> when the stop is over. What the Hub could not be asked says nothing of it.\<close>

definition look_stopped :: "'w backends \<Rightarrow> tool_config \<Rightarrow> af_user \<Rightarrow> ('w, unit + unit) tool" where
  "look_stopped bk cf c = catch
     (bindm (user_servers bk cf c) (\<lambda>servers. let server = dict_get servers [] JNull in
        if server = JNull then ret (Inl ()) else
        bindm (server_get server ''pending'' JNull) (\<lambda>pending. ret (if pending \<noteq> JStr ''stop'' then Inl () else Inr ()))))
     (\<lambda>e. case e of Failed UpstreamError _ \<Rightarrow> ret (Inr ()) | _ \<Rightarrow> raise e)"

fun await_stop_loop :: "'w backends \<Rightarrow> tool_config \<Rightarrow> af_user \<Rightarrow> nat \<Rightarrow> time \<Rightarrow> ('w, unit) tool" where
  "await_stop_loop bk cf c 0 deadline = raise Unfinished"
| "await_stop_loop bk cf c (Suc rounds) deadline = bindm (look_stopped bk cf c) (\<lambda>over. case over of Inl _ \<Rightarrow> ret ()
     | Inr _ \<Rightarrow> bindm (tool_clock bk) (\<lambda>t. let remaining = deadline - t in
         if remaining \<le> 0 then ret () else bindm (tool_sleep bk (min POLL_INTERVAL remaining)) (\<lambda>_. await_stop_loop bk cf c rounds deadline)))"

text \<open>90 seconds have nine intervals.\<close>

definition await_stop :: "'w backends \<Rightarrow> tool_config \<Rightarrow> af_user \<Rightarrow> ('w, unit) tool" where
  "await_stop bk cf c = bindm (tool_clock bk) (\<lambda>t. await_stop_loop bk cf c 10 (t + STOP_WAIT))"

subsection \<open>Waiting for a session\<close>

record session_poll =
  po_seen :: string
  po_ready :: bool
  po_since :: json
  po_failed :: bool
  po_absent :: bool

definition poll_seen :: "string \<Rightarrow> session_poll" where
  "poll_seen seen = \<lparr>po_seen = seen, po_ready = False, po_since = JStr [], po_failed = False, po_absent = False\<rparr>"

definition STOPPING :: string where
  "STOPPING = ''Error: the session is stopping, not starting. Wait for get_session_status to report no active session, then call start_af_session.''"

definition classify_poll :: "tool_config \<Rightarrow> tool_response \<Rightarrow> string \<Rightarrow> tool_exn + session_poll" where
  "classify_poll cf r username = (let code = rs_status r in
     if code \<in> {401, 403, 404} then Inl (hub_error cf r ''check the session state'' username)
     else if code \<noteq> 200 then Inr ((poll_seen (JUPYTERHUB @ '' returned HTTP '' @ show_nat code))\<lparr>po_failed := True\<rparr>)
     else bind_sum (servers_of cf r username) (\<lambda>servers. case dict_get servers [] JNull of
       JNull \<Rightarrow> Inr ((poll_seen ''no server listed'')\<lparr>po_absent := True\<rparr>)
     | JObj d \<Rightarrow> if truthy (dict_get d ''ready'' (JBool False))
         then Inr ((poll_seen ''session is running'')\<lparr>po_ready := True, po_since := dict_get d ''started'' (JStr [])\<rparr>)
         else let pending = dict_get d ''pending'' JNull in
           if pending = JStr ''stop'' then Inl (Failed UserError STOPPING)
           else Inr (poll_seen (if truthy pending then ''session pending ('' @ shown_json cf pending @ '')'' else ''session listed but not ready''))
     | _ \<Rightarrow> Inl (Tool_raised ''AttributeError'')))"

text \<open>What \<open>wait_for_session\<close> counts.\<close>

record wait_state =
  ws_attempts :: nat
  ws_failed :: nat
  ws_absent :: nat
  ws_seen :: string

definition ready_text :: "tool_config \<Rightarrow> nat \<Rightarrow> json \<Rightarrow> string" where
  "ready_text cf attempts started = join_with newline ([''Session is running.'']
     @ (if truthy started then [''started: '' @ shown_json cf started] else [])
     @ [''(became ready after '' @ show_nat attempts @ '' poll(s))'', [], ''Next: get_session_status returns browser links.''])"

definition no_spawn :: "tool_config \<Rightarrow> string \<Rightarrow> tool_exn" where
  "no_spawn cf username = Failed UserError (''Error: no session is starting or running - JupyterHub lists no server for '' @ CHR 0x27 # username @ [CHR 0x27]
     @ '', so either start_af_session was not called or the spawn failed. Call start_af_session again; if it fails again, the spawn page at ''
     @ tc_public cf @ ''/hub/home shows JupyterHub's reason.'')"

text \<open>A round up to the clock: the report once the session is ready, else the counts.\<close>

definition look_ready :: "'w backends \<Rightarrow> tool_config \<Rightarrow> af_user \<Rightarrow> wait_state \<Rightarrow> ('w, string + wait_state) tool" where
  "look_ready bk cf c st0 = (let st = st0\<lparr>ws_attempts := ws_attempts st0 + 1\<rparr> in
     bindm (tool_send bk (hub_request cf c ''GET'' (user_path c) 10 None)) (\<lambda>a. case a of
       Inl e \<Rightarrow> ret (Inr (st\<lparr>ws_failed := ws_failed st + 1, ws_seen := JUPYTERHUB @ '' unreachable - '' @ describe_exception e\<rparr>))
     | Inr r \<Rightarrow> bindm (of_sum (classify_poll cf r (cl_username c))) (\<lambda>p. let st' = st\<lparr>ws_seen := po_seen p\<rparr> in
         if po_ready p then ret (Inl (ready_text cf (ws_attempts st) (po_since p)))
         else if po_failed p then ret (Inr (st'\<lparr>ws_failed := ws_failed st + 1\<rparr>))
         else if po_absent p then (if ws_absent st + 1 \<ge> 2 then raise (no_spawn cf (cl_username c))
           else ret (Inr (st'\<lparr>ws_absent := ws_absent st + 1\<rparr>)))
         else ret (Inr (st'\<lparr>ws_absent := 0\<rparr>)))))"

definition timeout_text :: "int \<Rightarrow> wait_state \<Rightarrow> string" where
  "timeout_text timeout_seconds st = join_with newline ([''Session did not become ready within '' @ show_int timeout_seconds @ '' s.'',
       ''Last observed: '' @ ws_seen st @ ''.'']
     @ (if ws_failed st \<noteq> 0 then [show_nat (ws_failed st) @ '' of '' @ show_nat (ws_attempts st)
         @ '' status check(s) failed to reach JupyterHub, so the session may be further along than this shows.''] else [])
     @ [''Next: get_session_status for the current state; if it stays pending, query_notebook_logs shows the pod's startup log, and get_facility_health shows whether the facility is short of capacity.''])"

fun wait_loop :: "'w backends \<Rightarrow> tool_config \<Rightarrow> af_user \<Rightarrow> int \<Rightarrow> nat \<Rightarrow> time \<Rightarrow> wait_state \<Rightarrow> ('w, string) tool" where
  "wait_loop bk cf c timeout_seconds 0 deadline st = raise Unfinished"
| "wait_loop bk cf c timeout_seconds (Suc rounds) deadline st = bindm (look_ready bk cf c st) (\<lambda>r. case r of Inl report \<Rightarrow> ret report
     | Inr st' \<Rightarrow> bindm (tool_clock bk) (\<lambda>t. let remaining = deadline - t in
         if remaining \<le> 0 then ret (timeout_text timeout_seconds st')
         else bindm (tool_sleep bk (min POLL_INTERVAL remaining)) (\<lambda>_. wait_loop bk cf c timeout_seconds rounds deadline st')))"

text \<open>The rounds are one more than the time has intervals, begun ones included.\<close>

definition wait_rounds :: "int \<Rightarrow> nat" where
  "wait_rounds timeout_seconds = nat ((timeout_seconds + 9) div 10) + 1"

definition wait_for_session :: "'w backends \<Rightarrow> tool_config \<Rightarrow> af_user option \<Rightarrow> int \<Rightarrow> ('w, string) tool" where
  "wait_for_session bk cf u timeout = bindm (require_user u) (\<lambda>c. let timeout_seconds = max 1 (min timeout 600) in
     bindm (tool_clock bk) (\<lambda>t. wait_loop bk cf c timeout_seconds (wait_rounds timeout_seconds) (t + of_int timeout_seconds)
       \<lparr>ws_attempts = 0, ws_failed = 0, ws_absent = 0, ws_seen = ''no status check completed''\<rparr>))"

subsection \<open>Choosing a profile and its options\<close>

record option_info =
  oi_display_name :: string
  oi_choices :: "(string, string) dict"
  oi_default :: "string option"
  oi_gpu :: "(string, string) dict"

record profile =
  pf_display_name :: string
  pf_slug :: string
  pf_default :: bool
  pf_options :: "(string, option_info) dict"

text \<open>\<open>get_profiles\<close>, \<open>profiles_error\<close> and \<open>free_gpus\<close>, which read the facility's configuration and its monitoring.\<close>

record 'w profile_source =
  so_profiles :: "'w \<Rightarrow> profile list \<times> 'w"
  so_error :: "'w \<Rightarrow> string option"
  so_free :: "'w \<Rightarrow> (string, int) dict option \<times> 'w"

definition get_profiles :: "'w profile_source \<Rightarrow> ('w, profile list) tool" where
  "get_profiles src = world_step (so_profiles src) (\<lambda>_. [])"

definition profiles_error :: "'w profile_source \<Rightarrow> ('w, string) tool" where
  "profiles_error src = gets (\<lambda>s. case so_error src (tr_world s) of None \<Rightarrow> ''unknown reason'' | Some e \<Rightarrow> or_text e ''unknown reason'')"

definition live_gpus :: "'w profile_source \<Rightarrow> ('w, (string, int) dict option) tool" where
  "live_gpus src = world_step (so_free src) (\<lambda>_. [])"

definition find_profile :: "profile list \<Rightarrow> string \<Rightarrow> profile option" where
  "find_profile ps name = (let key = lower (strip_of py_space name) in find (\<lambda>p. pf_slug p = key \<or> lower (pf_display_name p) = key) ps)"

definition labelled_choices :: "option_info \<Rightarrow> (string, string) dict" where
  "labelled_choices info = map (\<lambda>(key, label). (key, if Some key = oi_default info then label @ '' (default)'' else label)) (oi_choices info)"

text \<open>\<open>apply_availability\<close>: a flavour with no free GPU is hidden; when the count is unknown nothing is.\<close>

definition apply_availability :: "(string, string) dict \<Rightarrow> (string, string) dict \<Rightarrow> (string, int) dict option \<Rightarrow> (string, string) dict \<times> string list" where
  "apply_availability choices gpu_map free =
     (let kept = List.map_filter (\<lambda>(key, label). case (map_of gpu_map key, free) of
         (Some resource, Some counts) \<Rightarrow> let count = dict_get counts resource 0 in
           if count \<le> 0 then None
           else Some (key, removesuffix '' - subject to availability'' label @ '' - '' @ show_int count @ '' available now'')
       | _ \<Rightarrow> Some (key, label)) choices in (kept, map fst kept))"

text \<open>\<open>single_choice_model\<close>, which refuses to ask for one of nothing.\<close>

definition single_choice :: "string \<Rightarrow> string list \<Rightarrow> ('w, form) tool" where
  "single_choice field keys = (if keys = [] then raise (Tool_raised ''ValueError'') else ret [(field, Some keys)])"

definition ELICIT_FALLBACK :: string where
  "ELICIT_FALLBACK = ''Couldn't collect the choices interactively. Ask the user which profile and options they want - call list_af_profiles for the exact slugs, option keys, and live GPU availability - then call start_af_session again with profile_name and user_options. To skip the questions entirely, call start_af_session(use_defaults=True) to launch the default profile.''"

definition default_profile :: "profile list \<Rightarrow> profile option" where
  "default_profile ps = (case find pf_default ps of Some p \<Rightarrow> Some p | None \<Rightarrow> (case ps of [] \<Rightarrow> None | p # _ \<Rightarrow> Some p))"

definition named_profile :: "'w profile_source \<Rightarrow> profile list \<Rightarrow> string \<Rightarrow> string \<Rightarrow> ('w, profile) tool" where
  "named_profile src available name otherwise = (case find_profile available name of Some p \<Rightarrow> ret p
   | None \<Rightarrow> if available = [] then bindm (profiles_error src) (\<lambda>why. raise (Failed UpstreamError (''Error: cannot check profile '' @ CHR 0x27 # name @ [CHR 0x27]
         @ '' - the profile list could not be read ('' @ why @ ''). Try again in a minute, or '' @ otherwise @ ''.'')))
     else raise (Failed UserError (''Unknown profile '' @ CHR 0x27 # name @ [CHR 0x27] @ ''. Call list_af_profiles to see available options. Known slugs: ''
       @ join_str '', '' (map (\<lambda>p. quote # pf_slug p @ [quote]) available))))"

definition choose_profile :: "'w backends \<Rightarrow> 'w profile_source \<Rightarrow> profile list \<Rightarrow> string option \<Rightarrow> bool \<Rightarrow> ('w, profile option) tool" where
  "choose_profile bk src available profile_name use_defaults = (case profile_name of
     Some (ch # name) \<Rightarrow> bindm (named_profile src available (ch # name)
       ''call start_af_session(use_defaults=True) to launch the Hub's default profile'') (\<lambda>p. ret (Some p))
   | _ \<Rightarrow> if use_defaults then ret (default_profile available)
     else if length available \<le> 1 then ret (case available of [] \<Rightarrow> None | p # _ \<Rightarrow> Some p)
     else bindm (single_choice ''profile'' (map pf_slug available)) (\<lambda>schema.
       bindm (ask bk ''Choose a session profile.'' schema ELICIT_FALLBACK) (\<lambda>d.
       bindm (text_field d ''profile'') (\<lambda>name. ret (find_profile available name)))))"

fun ask_options :: "'w backends \<Rightarrow> 'w profile_source \<Rightarrow> (string, option_info) dict \<Rightarrow> (string, json) dict \<Rightarrow> ('w, (string, json) dict) tool" where
  "ask_options bk src [] opts = ret opts"
| "ask_options bk src ((key, info) # rest) opts = (let choices = labelled_choices info in
     if key \<in> fst ` set opts \<or> choices = [] then ask_options bk src rest opts
     else bindm (if oi_gpu info \<noteq> [] then bindm (live_gpus src) (\<lambda>free. ret (apply_availability choices (oi_gpu info) free))
         else ret (choices, map fst choices)) (\<lambda>(labels, keys).
       bindm (single_choice ''value'' keys) (\<lambda>schema.
       bindm (ask bk (oi_display_name info @ '':'') schema ELICIT_FALLBACK) (\<lambda>d.
       bindm (text_field d ''value'') (\<lambda>v. ask_options bk src rest (AList.update key (JStr v) opts))))))"

subsection \<open>The tools\<close>

definition no_session_text :: "tool_config \<Rightarrow> string \<Rightarrow> string" where
  "no_session_text cf username = join_with newline
     [''No active session for user '' @ CHR 0x27 # username @ [CHR 0x27] @ ''.'', ''Use start_af_session to launch one.'', [],
      ''Interface links (will redirect to spawn form until a session is running):'',
      ''  JupyterLab  '' @ tc_public cf @ ''/user/'' @ username @ ''/lab'',
      ''  VS Code     '' @ tc_public cf @ ''/user/'' @ username @ ''/vscode/?folder=/home/'' @ username]"

definition status_text :: "tool_config \<Rightarrow> string \<Rightarrow> string \<Rightarrow> json \<Rightarrow> (string, json) dict \<Rightarrow> string" where
  "status_text cf username status_str started user_options =
     (let interface_choice = (case find (\<lambda>(k, v). k = ''interface'' \<or> suffix ''-interface'' k) user_options of
         None \<Rightarrow> JStr ''1'' | Some (_, v) \<Rightarrow> v); vscode_active = (interface_choice = JStr ''2''); base = tc_public cf @ ''/user/'' @ username in
      join_with newline ([''# Session status: '' @ status_str, ''user: '' @ username]
        @ (if truthy started then [''started: '' @ shown_json cf started] else [])
        @ [newline # ''Interface links:'', ''  JupyterLab  '' @ base @ ''/lab'' @ (if vscode_active then [] else ''  <- active''),
           ''  VS Code     '' @ base @ ''/vscode/?folder=/home/'' @ username @ (if vscode_active then ''  <- active'' else [])]
        @ (if user_options \<noteq> [] then (newline # ''Selected options:'') # map (\<lambda>(k, v). ''  '' @ k @ '': '' @ shown_json cf v) user_options else [])))"

definition get_session_status :: "'w backends \<Rightarrow> tool_config \<Rightarrow> af_user option \<Rightarrow> ('w, string) tool" where
  "get_session_status bk cf u = bindm (require_user u) (\<lambda>c. bindm (user_servers bk cf c) (\<lambda>servers.
     if servers = [] then ret (no_session_text cf (cl_username c))
     else let default = dict_get servers [] (JObj []) in
       bindm (server_get default ''ready'' (JBool False)) (\<lambda>ready. bindm (server_get default ''pending'' JNull) (\<lambda>pending.
       bindm (server_get default ''started'' (JStr [])) (\<lambda>started. bindm (server_get default ''user_options'' (JObj [])) (\<lambda>options.
       case options of JObj user_options \<Rightarrow> ret (status_text cf (cl_username c) (if truthy ready then ''running''
           else if truthy pending then ''pending ('' @ shown_json cf pending @ '')'' else ''not ready'') started user_options)
       | _ \<Rightarrow> raise (Tool_raised ''AttributeError'')))))))"

definition start_af_session :: "'w backends \<Rightarrow> 'w profile_source \<Rightarrow> tool_config \<Rightarrow> af_user option \<Rightarrow> string option \<Rightarrow> (string, json) dict option \<Rightarrow> bool
    \<Rightarrow> ('w, string) tool" where
  "start_af_session bk src cf u profile_name user_options use_defaults = bindm (require_user u) (\<lambda>c.
     let opts0 = (case user_options of None \<Rightarrow> [] | Some d \<Rightarrow> d) in
     bindm (get_profiles src) (\<lambda>available.
     bindm (choose_profile bk src available profile_name use_defaults) (\<lambda>selected.
     bindm (case selected of None \<Rightarrow> ret opts0
       | Some p \<Rightarrow> let opts = AList.update ''profile'' (JStr (pf_slug p)) opts0 in
           if use_defaults then ret opts else ask_options bk src (pf_options p) opts) (\<lambda>opts.
     bindm (session_spawn bk cf c opts) (\<lambda>r.
     if rs_status r = 400 then
       (if spawn_refusal r = ''running'' then ret ''Session is already running. Use get_session_status to see its URL.''
        else if spawn_refusal r = ''stopping'' then raise (Failed UserError STILL_STOPPING)
        else raise (Failed UserError (''Error: JupyterHub rejected the spawn request - '' @ or_text (response_detail 300 r) ''no reason given''
          @ ''. Check the profile and options against list_af_profiles and call start_af_session again.'')))
     else bindm (if selected = None \<and> available = [] then bindm (profiles_error src) (\<lambda>why. ret (newline # ''Note: the profile list could not be read (''
         @ why @ ''), so the Hub's default profile and options were used.'')) else ret []) (\<lambda>remark.
       ret ((if rs_status r = 201 then ''Session is starting. This typically takes 30-60 seconds. Call wait_for_session to block until it is ready.''
         else if rs_status r = 202 then ''Session start accepted - a server is already pending. Use get_session_status to check progress.''
         else ''Session starting. Use get_session_status to check progress.'') @ remark)))))))"

definition stop_af_session :: "'w backends \<Rightarrow> tool_config \<Rightarrow> af_user option \<Rightarrow> ('w, string) tool" where
  "stop_af_session bk cf u = bindm (require_user u) (\<lambda>c. bindm (session_stop bk cf c) (\<lambda>status. ret (if status = 400
     then ''No session is currently running.''
     else ''Session is stopping. Storage is preserved - use start_af_session to launch a new one.'')))"

definition start_call :: "tool_config \<Rightarrow> (string, json) dict \<Rightarrow> string" where
  "start_call cf opts = (let rest = filter (\<lambda>(k, v). k \<noteq> ''profile'') opts;
     args = (case map_of opts ''profile'' of None \<Rightarrow> [] | Some p \<Rightarrow> [''profile_name='' @ tc_repr cf p])
       @ (if rest \<noteq> [] then [''user_options='' @ tc_repr cf (JObj rest)] else []) in
     if args \<noteq> [] then ''start_af_session('' @ join_str '', '' args @ '')'' else ''start_af_session'')"

text \<open>The options of the session before, or why they are not known. Only a backend's failure is taken for that.\<close>

definition prior_options :: "'w backends \<Rightarrow> tool_config \<Rightarrow> af_user \<Rightarrow> ('w, json \<times> string) tool" where
  "prior_options bk cf c =
     bindm (catch (bindm (user_servers bk cf c) (\<lambda>servers. ret (Inr servers)))
       (\<lambda>e. case e of Failed UpstreamError text \<Rightarrow> ret (Inl text) | _ \<Rightarrow> raise e)) (\<lambda>r. case r of
       Inl text \<Rightarrow> ret (JObj [], '' (the previous options could not be read: '' @ text @ '')'')
     | Inr servers \<Rightarrow> bindm (server_get (dict_get servers [] (JObj [])) ''user_options'' (JObj [])) (\<lambda>j. ret (or_else j (JObj []), [])))"

text \<open>\<open>dict(user_options or prior_opts)\<close>, with the profile the caller names.\<close>

definition restart_options :: "'w profile_source \<Rightarrow> string option \<Rightarrow> (string, json) dict option \<Rightarrow> json \<Rightarrow> ('w, (string, json) dict) tool" where
  "restart_options src profile_name user_options prior =
     bindm (case user_options of Some (kv # d) \<Rightarrow> ret (kv # d)
       | _ \<Rightarrow> (case prior of JObj d \<Rightarrow> ret d | _ \<Rightarrow> raise (Tool_raised ''TypeError''))) (\<lambda>opts. case profile_name of
       Some (ch # name) \<Rightarrow> bindm (get_profiles src) (\<lambda>available.
         bindm (named_profile src available (ch # name) ''call restart_af_session without profile_name to keep the current profile'') (\<lambda>p.
         ret (AList.update ''profile'' (JStr (pf_slug p)) opts)))
     | _ \<Rightarrow> ret opts)"

definition restart_af_session :: "'w backends \<Rightarrow> 'w profile_source \<Rightarrow> tool_config \<Rightarrow> af_user option \<Rightarrow> string option \<Rightarrow> (string, json) dict option
    \<Rightarrow> ('w, string) tool" where
  "restart_af_session bk src cf u profile_name user_options = bindm (require_user u) (\<lambda>c.
     bindm (prior_options bk cf c) (\<lambda>(prior, prior_note).
     bindm (restart_options src profile_name user_options prior) (\<lambda>spawn_opts.
     bindm (session_stop bk cf c) (\<lambda>stopped.
     bindm (catch (bindm (if stopped = 202 then await_stop bk cf c else if stopped \<noteq> 400 then tool_sleep bk 3 else ret ()) (\<lambda>_.
         session_spawn bk cf c spawn_opts))
       (\<lambda>e. case e of Failed kind text \<Rightarrow> raise (Failed kind (''Session was stopped, but the restart failed. '' @ text @ '' Use ''
         @ start_call cf spawn_opts @ '' to try again.'')) | _ \<Rightarrow> raise e)) (\<lambda>r.
     if rs_status r = 400 then
       (if spawn_refusal r \<noteq> ''rejected'' then raise (Failed UpstreamError (''Session stopped but the pod is still terminating. Wait for get_session_status to report no active session, then call ''
          @ start_call cf spawn_opts @ '' to complete the restart.''))
        else raise (Failed UserError (''Session was stopped, but JupyterHub rejected the restart options - ''
          @ or_text (response_detail 300 r) ''no reason given'' @ ''. Call start_af_session with valid options (see list_af_profiles).'')))
     else ret (''Session restarting with '' @ (if spawn_opts \<noteq> [] then join_str '', '' (map (\<lambda>(k, v). k @ ''='' @ shown_json cf v) spawn_opts)
         else ''default options'') @ prior_note @ ''. Call wait_for_session to block until ready.''))))))"

subsection \<open>Every tool asks for its caller alone\<close>

text \<open>A request about the caller's own server, with the caller's own token.\<close>

definition own_request :: "tool_config \<Rightarrow> af_user \<Rightarrow> tool_request \<Rightarrow> bool" where
  "own_request cf c q \<longleftrightarrow> rq_client q = ''hub'' \<and> rq_auth q = ''token '' @ cl_token c
     \<and> (rq_method q = ''GET'' \<and> rq_url q = tc_hub_api cf @ user_path c
        \<or> rq_method q \<in> {''POST'', ''DELETE''} \<and> rq_url q = tc_hub_api cf @ server_path c)"

fun own_event :: "tool_config \<Rightarrow> af_user \<Rightarrow> tool_event \<Rightarrow> bool" where
  "own_event cf c (Called q a) = own_request cf c q"
| "own_event cf c (Slept d) = True"
| "own_event cf c (Asked_user m f) = True"

abbreviation owned_by :: "tool_config \<Rightarrow> af_user \<Rightarrow> ('w, 'a) tool \<Rightarrow> bool" where
  "owned_by cf c \<equiv> obeys (\<lambda>e _. own_event cf c e)"

lemma hub_call_owned:
  "path = user_path c \<and> http_method = ''GET'' \<or> path = server_path c \<and> http_method \<in> {''POST'', ''DELETE''} \<Longrightarrow>
   owned_by cf c (hub_call bk cf c http_method path action ok timeout body)"
  unfolding hub_call_def by (intro pres_intros obeys_send) (auto simp: own_request_def hub_request_def)

lemma user_servers_owned [pres_intros]: "owned_by cf c (user_servers bk cf c)"
  unfolding user_servers_def by (intro pres_intros hub_call_owned) simp

lemma stop_spawn_owned [pres_intros]:
  "owned_by cf c (session_stop bk cf c)" "owned_by cf c (session_spawn bk cf c opts)"
  unfolding session_stop_def session_spawn_def by (intro pres_intros hub_call_owned, simp)+

lemma preserves_server_get [pres_intros]: "preserves I (server_get server k v)"
  unfolding server_get_def by (cases server) (simp_all add: pres_intros)

lemma preserves_exn [pres_intros]:
  "(\<And>k t. preserves I (f k t)) \<Longrightarrow> preserves I (g :: ('w, 'a) tool) \<Longrightarrow> preserves I (case e of Failed k t \<Rightarrow> f k t | _ \<Rightarrow> g)"
  by (cases e) simp_all

lemma preserves_upstream:
  "(\<And>t. preserves I (f t)) \<Longrightarrow> preserves I (g :: ('w, 'a) tool) \<Longrightarrow> preserves I (case e of Failed UpstreamError t \<Rightarrow> f t | _ \<Rightarrow> g)"
  by (cases e; simp split: failure_kind.split)

lemma look_stopped_owned: "owned_by cf c (look_stopped bk cf c)"
  unfolding look_stopped_def Let_def by (intro pres_intros preserves_upstream)

lemma look_ready_owned: "owned_by cf c (look_ready bk cf c st)"
  unfolding look_ready_def Let_def
  by (intro pres_intros obeys_send) (simp add: own_request_def hub_request_def)

lemma await_stop_owned: "owned_by cf c (await_stop bk cf c)"
proof -
  have "owned_by cf c (await_stop_loop bk cf c n deadline)" for n deadline
    by (induction n) (auto simp: Let_def intro!: pres_intros look_stopped_owned obeys_sleep)
  then show ?thesis unfolding await_stop_def by (intro pres_intros)
qed

lemma wait_loop_owned: "owned_by cf c (wait_loop bk cf c t n deadline st)"
  by (induction n arbitrary: st) (auto simp: Let_def intro!: pres_intros look_ready_owned obeys_sleep)

lemma quiet_source [pres_intros]:
  "obeys law (get_profiles src)" "obeys law (live_gpus src)" "obeys law (profiles_error src)" "obeys law (single_choice field keys)"
  unfolding get_profiles_def live_gpus_def profiles_error_def single_choice_def
  by (rule preserves_world_step, simp)+ (intro pres_intros)+

lemma quiet_named: "obeys law (named_profile src available name otherwise)"
  unfolding named_profile_def by (intro pres_intros)

lemma choose_profile_owned: "owned_by cf c (choose_profile bk src available name d)"
  unfolding choose_profile_def
  by (auto split: option.split list.split intro!: pres_intros quiet_named obeys_ask)

lemma ask_options_owned: "owned_by cf c (ask_options bk src options opts)"
  by (induction bk src options opts rule: ask_options.induct)
    (auto simp: Let_def intro!: pres_intros obeys_ask)

lemma prior_options_owned: "owned_by cf c (prior_options bk cf c)"
  unfolding prior_options_def by (intro pres_intros preserves_upstream)

lemma quiet_restart_options: "obeys law (restart_options src name opts prior)"
  unfolding restart_options_def
  by (auto split: option.split list.split json.split intro!: pres_intros quiet_named)

text \<open>
  The session tools act for their caller alone. Whatever the Hub, the user and the configuration answer, each request of a
  tool goes to the Hub with the caller's own token, and reads the caller's own record or starts or stops the
  caller's own server.
\<close>

theorem session_calls_own:
  assumes "run \<in> {get_session_status bk cf (Some c), start_af_session bk src cf (Some c) name opts d, stop_af_session bk cf (Some c),
      wait_for_session bk cf (Some c) t, restart_af_session bk src cf (Some c) name opts}"
    and "tr_events s = []" "run s = (res, s')"
  shows "\<forall>e \<in> set (tr_events s'). own_event cf c e"
proof -
  have 1: "owned_by cf c (get_session_status bk cf (Some c))"
    unfolding get_session_status_def require_user_def Let_def by (auto simp: bindm_ret split: json.split intro!: pres_intros)
  have 2: "owned_by cf c (start_af_session bk src cf (Some c) name opts d)"
    unfolding start_af_session_def Let_def require_user_def
    by (auto simp: bindm_ret intro!: pres_intros choose_profile_owned ask_options_owned)
  have 3: "owned_by cf c (stop_af_session bk cf (Some c))"
    unfolding stop_af_session_def require_user_def by (auto simp: bindm_ret intro!: pres_intros)
  have 4: "owned_by cf c (wait_for_session bk cf (Some c) t)"
    unfolding wait_for_session_def require_user_def Let_def by (auto simp: bindm_ret intro!: pres_intros wait_loop_owned)
  have 5: "owned_by cf c (restart_af_session bk src cf (Some c) name opts)"
    unfolding restart_af_session_def require_user_def
    by (auto simp: bindm_ret intro!: pres_intros prior_options_owned quiet_restart_options await_stop_owned obeys_sleep)
  from 1 2 3 4 5 assms(1) have "owned_by cf c run" by blast
  then have "events_lawful (\<lambda>e _. own_event cf c e) (tr_events s')" using assms(2,3) preservesD [of _ run s] by fastforce
  then show ?thesis by (auto dest: lawful_event)
qed

subsection \<open>The tools that wait come back\<close>

lemma hub_error_built [simp]: "hub_error cf r action username \<noteq> Unfinished"
  by (simp add: hub_error_def Let_def)

lemma servers_built [simp]: "servers_of cf r username \<noteq> Inl Unfinished"
  by (simp add: servers_of_def cannot_see_servers_def split: json.split)

lemma poll_built [simp]: "classify_poll cf r username \<noteq> Inl Unfinished"
  by (auto simp: classify_poll_def Let_def bind_sum_eq_Inl split: json.split if_splits)

lemma hub_ends [ends_intros]:
  "ends (hub_call bk cf c http_method path action ok timeout body)" "ends (user_servers bk cf c)" "ends (session_stop bk cf c)"
  "ends (session_spawn bk cf c opts)" "ends (server_get server k v)"
  unfolding user_servers_def session_stop_def session_spawn_def hub_call_def server_get_def
  by (auto intro!: ends_intros split: json.split)

lemma looks_end: "ends (look_stopped bk cf c)" "ends (look_ready bk cf c st)"
  unfolding look_stopped_def look_ready_def Let_def
  by (auto intro!: ends_intros split: tool_exn.split failure_kind.split simp: no_spawn_def)

lemmas loop_steps = await_stop_loop.simps(2) [unfolded Let_def] wait_loop.simps(2) [unfolded Let_def]

interpretation stop_wait: bounded_polling bk POLL_INTERVAL "\<lambda>_. look_stopped bk cf c" "\<lambda>_. ret ()" "\<lambda>n deadline (_ :: unit). await_stop_loop bk cf c n deadline"
  for bk cf c
  by unfold_locales
    (auto simp: POLL_INTERVAL_def Let_def intro!: looks_end ends_intros arg_cong2 [of _ _ _ _ bindm] ext split: sum.split)

interpretation session_wait: bounded_polling bk POLL_INTERVAL "look_ready bk cf c" "\<lambda>st. ret (timeout_text timeout_seconds st)" "wait_loop bk cf c timeout_seconds"
  for bk cf c timeout_seconds
  by unfold_locales (simp add: POLL_INTERVAL_def, rule loop_steps(2), rule looks_end, rule ends_ret)

lemma hub_onward: "clock_steady now bk \<Longrightarrow> preserves (\<lambda>s. T \<le> now (tr_world s)) (hub_call bk cf c http_method path action ok timeout body)"
  unfolding hub_call_def by (intro pres_intros onward_send)

lemma looks_onward: "clock_steady now bk \<Longrightarrow> clock_onward now (look_stopped bk cf c)" "clock_steady now bk \<Longrightarrow> clock_onward now (look_ready bk cf c st)"
  unfolding look_stopped_def look_ready_def user_servers_def Let_def
  by (auto intro!: pres_intros preserves_upstream hub_onward onward_send)

lemma await_stop_ends:
  assumes "clock_steady now bk"
  shows "ends (await_stop bk cf c)"
  unfolding await_stop_def
proof (rule ends_deadline [OF assms])
  fix t :: time and s :: "'a tool_run" assume "t \<le> now (tr_world s)"
  then have "t + STOP_WAIT \<le> now (tr_world s) + of_nat 9 * POLL_INTERVAL" by (simp add: STOP_WAIT_def POLL_INTERVAL_def)
  from stop_wait.loop_finishes [OF assms looks_onward(1) [OF assms] this] show "finishes (await_stop_loop bk cf c 10 (t + STOP_WAIT)) s"
    by (simp add: eval_nat_numeral)
qed

lemma wait_rounds_enough: "\<exists>n. wait_rounds t = Suc n \<and> of_int t \<le> of_nat n * POLL_INTERVAL"
proof -
  have "t \<le> int (nat ((t + 9) div 10)) * 10" by linarith
  then have "(of_int t :: rat) \<le> of_int (int (nat ((t + 9) div 10)) * 10)" by (simp only: of_int_le_iff)
  then show ?thesis by (simp add: wait_rounds_def POLL_INTERVAL_def)
qed

lemma wait_for_session_ends:
  assumes "clock_steady now bk"
  shows "ends (wait_for_session bk cf u timeout)"
  unfolding wait_for_session_def Let_def
proof (intro ends_bindm [OF ends_fields(3)] ends_deadline [OF assms])
  fix c :: af_user and t :: time and s :: "'a tool_run" and st assume "t \<le> now (tr_world s)"
  let ?t = "max 1 (min timeout 600)"
  obtain n where n: "wait_rounds ?t = Suc n" "of_int ?t \<le> of_nat n * POLL_INTERVAL" using wait_rounds_enough by blast
  then have "t + of_int ?t \<le> now (tr_world s) + of_nat n * POLL_INTERVAL" using \<open>t \<le> _\<close> by simp
  from session_wait.loop_finishes [OF assms looks_onward(2) [OF assms] this]
  show "finishes (wait_loop bk cf c ?t (wait_rounds ?t) (t + of_int ?t)
      \<lparr>ws_attempts = 0, ws_failed = 0, ws_absent = 0, ws_seen = ''no status check completed''\<rparr>) s"
    unfolding n(1) .
qed

lemma restart_ends:
  assumes "clock_steady now bk"
  shows "ends (restart_af_session bk src cf u name opts)"
  unfolding restart_af_session_def prior_options_def restart_options_def named_profile_def get_profiles_def profiles_error_def
  by (auto intro!: ends_intros await_stop_ends [OF assms] split: tool_exn.split failure_kind.split option.split list.split json.split)

text \<open>
  Every check of a wait is one request, and what it returns as ready is what the last one said.
\<close>

definition ready_answer :: "tool_config \<Rightarrow> af_user \<Rightarrow> request_error + tool_response \<Rightarrow> bool" where
  "ready_answer cf c a \<longleftrightarrow> (\<exists>r d servers server. a = Inr r \<and> rs_status r = 200 \<and> json_body r = JObj d \<and> map_of d ''servers'' = Some (JObj servers)
     \<and> map_of servers [] = Some (JObj server) \<and> truthy (dict_get server ''ready'' (JBool False)))"

fun is_called :: "tool_event \<Rightarrow> bool" where
  "is_called (Called q a) = True"
| "is_called _ = False"

abbreviation status_checks :: "'w tool_run \<Rightarrow> nat" where
  "status_checks s \<equiv> length (filter is_called (tr_events s))"

lemma classify_ready:
  assumes "classify_poll cf r username = Inr p" "po_ready p"
  shows "ready_answer cf c (Inr r)"
  using assms
  by (auto simp: classify_poll_def ready_answer_def servers_of_def poll_seen_def Let_def dict_get_def split: json.splits if_splits option.splits)

lemma look_ready_run:
  assumes "look_ready bk cf c st s = (res, s')"
  shows "status_checks s' = status_checks s + 1"
    and "res = Inr (Inl text) \<Longrightarrow> \<exists>a es started n. ready_answer cf c a \<and> tr_events s' = Called (hub_request cf c ''GET'' (user_path c) 10 None) a # tr_events s
      \<and> text = ready_text cf n started"
proof -
  obtain a w where a: "bk_request bk (hub_request cf c ''GET'' (user_path c) 10 None) (tr_world s) = (a, w)" by fastforce
  have ev: "tr_events s' = Called (hub_request cf c ''GET'' (user_path c) 10 None) a # tr_events s"
    using assms a
    by (auto simp: look_ready_def Let_def bindm_def tool_send_def world_step_def of_sum_def ret_def raise_def split: sum.splits prod.splits if_splits)
  then show "status_checks s' = status_checks s + 1" by simp
  show "\<exists>a es started n. ready_answer cf c a \<and> tr_events s' = Called (hub_request cf c ''GET'' (user_path c) 10 None) a # tr_events s
      \<and> text = ready_text cf n started" if "res = Inr (Inl text)"
    using assms a ev that
    by (auto simp: look_ready_def Let_def bindm_def tool_send_def world_step_def of_sum_def ret_def raise_def split: sum.splits prod.splits if_splits
        intro!: exI [of _ a] dest: classify_ready)
qed

lemma timeout_text_other: "\<not> prefix ''Session is'' (timeout_text t st)"
  by (simp add: timeout_text_def)

lemma wait_loop_step:
  "wait_loop bk cf c t (Suc n) deadline st s = (case look_ready bk cf c st s of
     (Inl e, s1) \<Rightarrow> (Inl e, s1) | (Inr (Inl text), s1) \<Rightarrow> (Inr text, s1)
   | (Inr (Inr st'), s1) \<Rightarrow> (case bk_monotonic bk (tr_world s1) of (tm, w) \<Rightarrow>
       if deadline - tm \<le> 0 then (Inr (timeout_text t st'), s1\<lparr>tr_world := w\<rparr>)
       else wait_loop bk cf c t n deadline st' (s1\<lparr>tr_world := bk_sleep bk (min POLL_INTERVAL (deadline - tm)) w,
         tr_events := Slept (min POLL_INTERVAL (deadline - tm)) # tr_events s1\<rparr>)))"
  by (simp add: bindm_def tool_clock_def tool_sleep_def world_step_def ret_def Let_def split: prod.split sum.split)

lemma wait_loop_run:
  "wait_loop bk cf c t n deadline st s = (res, s') \<Longrightarrow> status_checks s' \<le> status_checks s + n
   \<and> (\<forall>text. res = Inr text \<longrightarrow> prefix ''Session is'' text \<longrightarrow>
      (\<exists>a es. ready_answer cf c a \<and> tr_events s' = Called (hub_request cf c ''GET'' (user_path c) 10 None) a # es))"
proof (induction n arbitrary: st s)
  case (Suc n)
  obtain r s1 where look: "look_ready bk cf c st s = (r, s1)" by fastforce
  note one = look_ready_run [OF look]
  obtain tm w where tm: "bk_monotonic bk (tr_world s1) = (tm, w)" by fastforce
  note run = Suc.prems [unfolded wait_loop_step look]
  consider (raised) e where "r = Inl e" | (ready) report where "r = Inr (Inl report)" | (again) st' where "r = Inr (Inr st')"
    by (metis sumE)
  then show ?case
  proof cases
    case ready
    then show ?thesis using run one by auto
  next
    case again
    show ?thesis
    proof (cases "deadline - tm \<le> 0")
      case True
      then show ?thesis using run again tm one(1) timeout_text_other by auto
    next
      case False
      have "wait_loop bk cf c t n deadline st' (s1\<lparr>tr_world := bk_sleep bk (min POLL_INTERVAL (deadline - tm)) w,
          tr_events := Slept (min POLL_INTERVAL (deadline - tm)) # tr_events s1\<rparr>) = (res, s')"
        using run again tm False by simp
      from Suc.IH [OF this] one(1) show ?thesis by simp
    qed
  qed (use run one(1) in auto)
qed (auto simp: raise_def)

text \<open>
  C15: waiting for a session ends, and is honest. On a clock that goes on, \<open>wait_for_session\<close> returns or raises after at most 61
  checks, whatever the Hub answers; and when it says that the session is running, the last thing it did was a check that the Hub
  answered with a server that is ready.
\<close>

theorem session_wait_answers:
  assumes "clock_steady now bk" "tr_events s = []" "wait_for_session bk cf (Some c) timeout s = (res, s')"
  shows "res \<noteq> Inl Unfinished \<and> status_checks s' \<le> 61
    \<and> (\<forall>text. res = Inr text \<longrightarrow> prefix ''Session is'' text \<longrightarrow>
        (\<exists>a es. ready_answer cf c a \<and> tr_events s' = Called (hub_request cf c ''GET'' (user_path c) 10 None) a # es))"
proof -
  let ?t = "max 1 (min timeout 600)"
  obtain t w where t: "bk_monotonic bk (tr_world s) = (t, w)" by fastforce
  have "wait_loop bk cf c ?t (wait_rounds ?t) (t + of_int ?t)
      \<lparr>ws_attempts = 0, ws_failed = 0, ws_absent = 0, ws_seen = ''no status check completed''\<rparr> (s\<lparr>tr_world := w\<rparr>) = (res, s')"
    using assms(3) t by (simp add: wait_for_session_def require_user_def bindm_ret Let_def) (simp add: bindm_def tool_clock_def world_step_def)
  note loop = wait_loop_run [OF this]
  have "res \<noteq> Inl Unfinished" using endsD [OF wait_for_session_ends [OF assms(1)], of cf "Some c" timeout s] assms(3) by (simp add: finishes_def)
  moreover have "wait_rounds ?t \<le> 61" unfolding wait_rounds_def by linarith
  then have "status_checks s' \<le> 61" using conjunct1 [OF loop] assms(2) by (auto intro: order_trans)
  ultimately show ?thesis using loop by blast
qed

subsection \<open>A restart keeps the options\<close>

abbreviation read_request :: "tool_config \<Rightarrow> af_user \<Rightarrow> tool_request" where
  "read_request cf c \<equiv> hub_request cf c ''GET'' (user_path c) 10 None"

abbreviation stop_request :: "tool_config \<Rightarrow> af_user \<Rightarrow> tool_request" where
  "stop_request cf c \<equiv> hub_request cf c ''DELETE'' (server_path c) 15 None"

abbreviation spawn_request :: "tool_config \<Rightarrow> af_user \<Rightarrow> (string, json) dict \<Rightarrow> tool_request" where
  "spawn_request cf c opts \<equiv> hub_request cf c ''POST'' (server_path c) 15 (Some (JObj opts))"

text \<open>
  The options of the session before, by the Hub's answer: none known when the Hub could not be asked or made no sense, and
  no way on when it refuses to tell.
\<close>

definition prior_known :: "request_error + tool_response \<Rightarrow> json option" where
  "prior_known a = (case a of Inl _ \<Rightarrow> Some (JObj [])
   | Inr r \<Rightarrow> if rs_status r \<in> {401, 403, 404} then None else if rs_status r \<noteq> 200 then Some (JObj [])
     else case json_body r of JObj d \<Rightarrow> (case dict_get d ''servers'' JNull of JNull \<Rightarrow> None
         | JObj servers \<Rightarrow> (case dict_get servers [] (JObj []) of JObj server \<Rightarrow> Some (or_else (dict_get server ''user_options'' (JObj [])) (JObj []))
           | _ \<Rightarrow> None)
         | _ \<Rightarrow> Some (JObj []))
       | _ \<Rightarrow> Some (JObj []))"

definition wished_options :: "'w profile_source \<Rightarrow> string option \<Rightarrow> (string, json) dict option \<Rightarrow> json \<Rightarrow> (string, json) dict \<Rightarrow> bool" where
  "wished_options src name given prior opts \<longleftrightarrow>
     (\<exists>base. (case given of Some (kv # d) \<Rightarrow> base = kv # d | _ \<Rightarrow> prior = JObj base)
       \<and> (case name of Some (ch # nm) \<Rightarrow> (\<exists>w p. find_profile (fst (so_profiles src w)) (ch # nm) = Some p \<and> opts = AList.update ''profile'' (JStr (pf_slug p)) base)
          | _ \<Rightarrow> opts = base))"

lemma hub_call_run:
  assumes "hub_call bk cf c http_method path action ok timeout body s = (r, s')"
  shows "\<exists>a. tr_events s' = Called (hub_request cf c http_method path timeout body) a # tr_events s
    \<and> (case a of Inl e \<Rightarrow> (\<exists>x. r = Inl x \<and> is_upstream x)
       | Inr resp \<Rightarrow> if rs_status resp \<in> set ok then r = Inr resp else r = Inl (hub_error cf resp action (cl_username c)))"
proof -
  obtain a w where "bk_request bk (hub_request cf c http_method path timeout body) (tr_world s) = (a, w)" by fastforce
  then show ?thesis using assms
    by (intro exI [of _ a]) (auto simp: hub_call_def bindm_def tool_send_def world_step_def raise_def ret_def split: sum.splits if_splits)
qed

text \<open>How the Hub's answer reads: the servers, or a failure, which is a backend's unless the Hub refuses.\<close>

lemma hub_error_upstream: "is_upstream (hub_error cf r action username) \<longleftrightarrow> rs_status r \<notin> {401, 403, 404}"
  by (simp add: hub_error_def Let_def)

lemma user_servers_run:
  assumes "user_servers bk cf c s = (r, s')"
  shows "\<exists>a. tr_events s' = Called (read_request cf c) a # tr_events s
    \<and> (case r of Inl e \<Rightarrow> (if is_upstream e then prior_known a = Some (JObj []) else prior_known a = None)
       | Inr servers \<Rightarrow> \<exists>resp d. a = Inr resp \<and> rs_status resp = 200 \<and> json_body resp = JObj d \<and> map_of d ''servers'' = Some (JObj servers))"
proof -
  obtain h s1 where h: "hub_call bk cf c ''GET'' (user_path c) ''read the session state'' [200] 10 None s = (h, s1)" by fastforce
  from hub_call_run [OF h] obtain a where a: "tr_events s1 = Called (read_request cf c) a # tr_events s"
      "case a of Inl e \<Rightarrow> (\<exists>x. h = Inl x \<and> is_upstream x)
       | Inr resp \<Rightarrow> if rs_status resp \<in> set [200] then h = Inr resp else h = Inl (hub_error cf resp ''read the session state'' (cl_username c))" by blast
  have run: "s' = s1" "r = (case h of Inl e \<Rightarrow> Inl e | Inr resp \<Rightarrow> servers_of cf resp (cl_username c))"
    using assms h by (auto simp: user_servers_def bindm_def of_sum_def split: sum.splits)
  have known: "servers_of cf resp (cl_username c) = Inr servers \<Longrightarrow> \<exists>d. json_body resp = JObj d \<and> map_of d ''servers'' = Some (JObj servers)"
    for resp servers by (auto simp: servers_of_def dict_get_def split: json.splits option.splits)
  have lost: "servers_of cf resp (cl_username c) = Inl e \<Longrightarrow> rs_status resp = 200 \<Longrightarrow>
      prior_known (Inr resp) = (if is_upstream e then Some (JObj []) else None)" for resp e
    by (auto simp: servers_of_def prior_known_def cannot_see_servers_def split: json.splits)
  show ?thesis
  proof (cases a)
    case (Inl e)
    then show ?thesis using a run by (auto simp: prior_known_def)
  next
    case (Inr resp)
    show ?thesis
    proof (cases "rs_status resp = 200")
      case True
      then show ?thesis using a run Inr known lost by (auto split: sum.splits)
    next
      case False
      then show ?thesis using a run Inr by (auto simp: prior_known_def hub_error_upstream)
    qed
  qed
qed

lemma prior_options_run:
  assumes "prior_options bk cf c s = (r, s')"
  shows "\<exists>a. tr_events s' = Called (read_request cf c) a # tr_events s
    \<and> (case r of Inl e \<Rightarrow> prior_known a = None | Inr (j, _) \<Rightarrow> prior_known a = Some j)"
proof -
  obtain u s1 where u: "user_servers bk cf c s = (u, s1)" by fastforce
  from user_servers_run [OF this] obtain a where a: "tr_events s1 = Called (read_request cf c) a # tr_events s"
    "case u of Inl e \<Rightarrow> (if is_upstream e then prior_known a = Some (JObj []) else prior_known a = None)
       | Inr servers \<Rightarrow> \<exists>resp d. a = Inr resp \<and> rs_status resp = 200 \<and> json_body resp = JObj d \<and> map_of d ''servers'' = Some (JObj servers)" by blast
  have "s' = s1 \<and> (case r of Inl e \<Rightarrow> prior_known a = None | Inr (j, _) \<Rightarrow> prior_known a = Some j)"
  proof (cases u)
    case (Inl e)
    then show ?thesis using assms u a(2)
      by (cases e rule: is_upstream.cases) (auto simp: prior_options_def bindm_def catch_def ret_def raise_def)
  next
    case (Inr servers)
    then show ?thesis using assms u a(2)
      by (auto simp: prior_options_def bindm_def catch_def ret_def raise_def server_get_def prior_known_def dict_get_def
          split: json.splits option.splits)
  qed
  then show ?thesis using a(1) by blast
qed

lemma named_profile_found: "named_profile src available name otherwise s = (Inr p, s') \<Longrightarrow> find_profile available name = Some p"
  by (auto simp: named_profile_def run_simps profiles_error_def split: option.splits if_splits)

lemma restart_options_run:
  assumes "restart_options src name given prior s = (r, s')"
  shows "tr_events s' = tr_events s" "r = Inr opts \<Longrightarrow> wished_options src name given prior opts"
proof -
  show "tr_events s' = tr_events s"
    using assms
    by (auto simp: restart_options_def bindm_def ret_def raise_def get_profiles_def world_step_def named_profile_def profiles_error_def gets_def
        split: option.splits list.splits json.splits prod.splits sum.splits if_splits)
  have base: "wished_options src name given prior opts"
    if r: "(case name of Some (ch # nm) \<Rightarrow> bindm (get_profiles src) (\<lambda>available. bindm (named_profile src available (ch # nm) otherwise)
          (\<lambda>p. ret (AList.update ''profile'' (JStr (pf_slug p)) base))) | _ \<Rightarrow> ret base) u = (Inr opts, s')"
      and "case given of Some (kv # d) \<Rightarrow> base = kv # d | _ \<Rightarrow> prior = JObj base" for base u otherwise
  proof (cases "\<exists>ch nm. name = Some (ch # nm)")
    case True
    then obtain ch nm where name: "name = Some (ch # nm)" by blast
    from r [unfolded name option.case list.case] obtain p v where
        "find_profile (fst (so_profiles src (tr_world u))) (ch # nm) = Some p" "opts = AList.update ''profile'' (JStr (pf_slug p)) base"
      by (auto simp: run_simps get_profiles_def world_step_def split: prod.splits dest!: named_profile_found)
    then show ?thesis using that(2) name unfolding wished_options_def by auto
  next
    case False
    then have "opts = base" using r by (auto simp: run_simps split: option.splits list.splits)
    then show ?thesis using that(2) False unfolding wished_options_def by (auto split: option.split list.split)
  qed
  show "wished_options src name given prior opts" if "r = Inr opts"
    using assms [unfolded that restart_options_def bindm_Inr]
    by (elim exE conjE, intro base) (auto simp: run_simps split: option.splits list.splits json.splits)
qed

text \<open>While a restart waits it only reads the session and sleeps.\<close>

fun reads_or_sleeps :: "tool_config \<Rightarrow> af_user \<Rightarrow> tool_event \<Rightarrow> bool" where
  "reads_or_sleeps cf c (Called q a) = (q = read_request cf c)"
| "reads_or_sleeps cf c (Slept d) = True"
| "reads_or_sleeps cf c (Asked_user m f) = False"

abbreviation waits_on :: "tool_config \<Rightarrow> af_user \<Rightarrow> tool_event list \<Rightarrow> 'w tool_run \<Rightarrow> bool" where
  "waits_on cf c es s \<equiv> (\<exists>ws. list_all (reads_or_sleeps cf c) ws \<and> tr_events s = ws @ es)"

lemma waits_step:
  fixes f :: "'w \<Rightarrow> 'a \<times> 'w"
  assumes evs: "\<And>a. list_all (reads_or_sleeps cf c) (evs a)"
  shows "preserves (waits_on cf c es) (world_step f evs)"
proof (rule preserves_world_step)
  fix s :: "'w tool_run" and a w
  assume "waits_on cf c es s"
  then obtain ws where "list_all (reads_or_sleeps cf c) ws" "tr_events s = ws @ es" by blast
  then show "waits_on cf c es (s\<lparr>tr_world := w, tr_events := evs a @ tr_events s\<rparr>)"
    by (intro exI [of _ "evs a @ ws"]) (simp add: evs)
qed

lemma await_stop_waits: "preserves (waits_on cf c es) (await_stop bk cf c)"
proof -
  have "preserves (waits_on cf c es) (look_stopped bk cf c)"
    unfolding look_stopped_def user_servers_def hub_call_def tool_send_def Let_def
    by (intro pres_intros preserves_upstream waits_step) simp
  then have "preserves (waits_on cf c es) (await_stop_loop bk cf c n deadline)" for n deadline
    by (induction n) (auto simp: Let_def tool_clock_def tool_sleep_def intro!: pres_intros waits_step)
  then show ?thesis unfolding await_stop_def tool_clock_def by (intro pres_intros waits_step) simp_all
qed

definition answer_taken :: "nat set \<Rightarrow> request_error + tool_response \<Rightarrow> bool" where
  "answer_taken ok a \<longleftrightarrow> (\<exists>r. a = Inr r \<and> rs_status r \<in> ok)"

lemma hub_call_taken:
  assumes "hub_call bk cf c http_method path action ok timeout body s = (r, s')"
  shows "\<exists>a. tr_events s' = Called (hub_request cf c http_method path timeout body) a # tr_events s
    \<and> (case r of Inl _ \<Rightarrow> \<not> answer_taken (set ok) a | Inr resp \<Rightarrow> a = Inr resp \<and> answer_taken (set ok) a)"
proof -
  obtain a where a: "tr_events s' = Called (hub_request cf c http_method path timeout body) a # tr_events s"
    "case a of Inl e \<Rightarrow> (\<exists>x. r = Inl x \<and> is_upstream x)
       | Inr resp \<Rightarrow> if rs_status resp \<in> set ok then r = Inr resp else r = Inl (hub_error cf resp action (cl_username c))"
    using hub_call_run [OF assms] by blast
  from a(2) have "case r of Inl _ \<Rightarrow> \<not> answer_taken (set ok) a | Inr resp \<Rightarrow> a = Inr resp \<and> answer_taken (set ok) a"
    by (cases a) (auto simp: answer_taken_def split: if_splits)
  with a(1) show ?thesis by blast
qed

lemma session_stop_run:
  assumes "session_stop bk cf c s = (r, s')"
  shows "\<exists>b. tr_events s' = Called (stop_request cf c) b # tr_events s \<and> (case r of Inl _ \<Rightarrow> True | Inr _ \<Rightarrow> answer_taken {200, 202, 204, 400} b)"
proof -
  obtain h where "hub_call bk cf c ''DELETE'' (server_path c) ''stop the session'' [200, 202, 204, 400] 15 None s = (h, s')"
      "\<And>x. r = Inr x \<Longrightarrow> \<exists>y. h = Inr y"
    using assms by (cases "hub_call bk cf c ''DELETE'' (server_path c) ''stop the session'' [200, 202, 204, 400] 15 None s")
      (auto simp: session_stop_def bindm_def ret_def split: sum.splits)
  with hub_call_taken [OF this(1)] show ?thesis by (fastforce split: sum.splits)
qed

lemma session_spawn_run:
  assumes "session_spawn bk cf c opts s = (r, s')"
  shows "\<exists>d. tr_events s' = Called (spawn_request cf c opts) d # tr_events s
    \<and> (case r of Inl _ \<Rightarrow> \<not> answer_taken {200, 201, 202, 400} d | Inr resp \<Rightarrow> d = Inr resp \<and> answer_taken {200, 201, 202, 400} d)"
  using hub_call_taken [OF assms [unfolded session_spawn_def]] unfolding list.set .

text \<open>The wait and the start of a restart, as they are tried.\<close>

lemma spawn_after_run:
  assumes "bindm (if stopped = 202 then await_stop bk cf c else if stopped \<noteq> 400 then tool_sleep bk 3 else ret ()) (\<lambda>_. session_spawn bk cf c opts) s = (r, s')"
  shows "\<exists>ws. list_all (reads_or_sleeps cf c) ws \<and> (tr_events s' = ws @ tr_events s \<and> (\<exists>e. r = Inl e)
    \<or> (\<exists>d. tr_events s' = Called (spawn_request cf c opts) d # ws @ tr_events s
        \<and> (case r of Inl _ \<Rightarrow> \<not> answer_taken {200, 201, 202, 400} d | Inr resp \<Rightarrow> d = Inr resp \<and> answer_taken {200, 201, 202, 400} d)))"
proof -
  let ?m = "if stopped = 202 then await_stop bk cf c else if stopped \<noteq> 400 then tool_sleep bk 3 else ret ()"
  have "preserves (waits_on cf c (tr_events s)) ?m"
    unfolding tool_sleep_def by (intro pres_intros await_stop_waits waits_step) simp
  moreover obtain u s1 where u: "?m s = (u, s1)" by fastforce
  ultimately obtain ws where ws: "list_all (reads_or_sleeps cf c) ws" "tr_events s1 = ws @ tr_events s"
    using preservesD [of "waits_on cf c (tr_events s)" ?m s] by auto
  show ?thesis
  proof (cases u)
    case (Inl e)
    then show ?thesis using assms u ws unfolding bindm_def by auto
  next
    case (Inr x)
    then have "session_spawn bk cf c opts s1 = (r, s')" using assms u unfolding bindm_def by simp
    from session_spawn_run [OF this] ws show ?thesis by auto
  qed
qed

lemma start_again_run:
  assumes "bindm (catch (bindm (if stopped = 202 then await_stop bk cf c else if stopped \<noteq> 400 then tool_sleep bk 3 else ret ())
      (\<lambda>_. session_spawn bk cf c opts)) h) k s = (res, s')"
    and "\<And>e u. \<exists>x. h e u = (Inl x, u)" "\<And>a u. \<exists>y. k a u = (y, u) \<and> ((\<exists>z. y = Inr z) \<longleftrightarrow> rs_status a \<noteq> 400)"
  shows "\<exists>ws. list_all (reads_or_sleeps cf c) ws \<and> (tr_events s' = ws @ tr_events s \<and> (\<exists>e. res = Inl e)
    \<or> (\<exists>d. tr_events s' = Called (spawn_request cf c opts) d # ws @ tr_events s \<and> (answer_taken {200, 201, 202} d \<longleftrightarrow> (\<exists>text. res = Inr text))))"
proof -
  let ?m = "bindm (if stopped = 202 then await_stop bk cf c else if stopped \<noteq> 400 then tool_sleep bk 3 else ret ()) (\<lambda>_. session_spawn bk cf c opts)"
  obtain r t where r: "?m s = (r, t)" by fastforce
  note last = tried_run [OF r assms]
  have fits: "answer_taken {200, 201, 202} d \<longleftrightarrow> (\<exists>text. res = Inr text)"
    if "case r of Inl _ \<Rightarrow> \<not> answer_taken {200, 201, 202, 400} d | Inr resp \<Rightarrow> d = Inr resp \<and> answer_taken {200, 201, 202, 400} d" for d
    using that last by (cases r) (auto simp: answer_taken_def)
  have lost: "r = Inl e \<Longrightarrow> \<exists>e. res = Inl e" for e using last by (cases res) auto
  from spawn_after_run [OF r] show ?thesis unfolding conjunct1 [OF last] using fits lost by blast
qed


text \<open>
  A Hub for the examples: the clock and the number of requests so far. It lists a server that is pending at first and then ready,
  and takes every stop and start.
\<close>

definition sample_page :: "nat \<Rightarrow> string" where
  "sample_page n = json_dumps (JObj [(''servers'', JObj [([], JObj [(''ready'', JBool (n \<ge> 1)), (''pending'', if n \<ge> 1 then JNull else JStr ''spawn''),
     (''user_options'', JObj [(''profile'', JStr ''gpu'')])])])])"

definition sample_hub :: "(time \<times> nat) backends" where
  "sample_hub = \<lparr>bk_request = (\<lambda>q (t, n). (Inr \<lparr>rs_status = if rq_method q = ''POST'' then 201 else if rq_method q = ''DELETE'' then 204 else 200,
       rs_text = sample_page n\<rparr>, (t, n + 1))),
     bk_monotonic = (\<lambda>(t, n). (t, (t, n))), bk_sleep = (\<lambda>d (t, n). (t + max 0 d, n)), bk_elicit = (\<lambda>_ _ w. (Not_accepted ''decline'', w))\<rparr>"

definition ada :: af_user where "ada = \<lparr>cl_username = ''ada'', cl_token = ''tok''\<rparr>"

definition sample_source :: "'w profile_source" where
  "sample_source = \<lparr>so_profiles = (\<lambda>w. ([], w)), so_error = (\<lambda>_. None), so_free = (\<lambda>w. (None, w))\<rparr>"

lemma sample_steady: "clock_steady fst sample_hub"
  by (auto simp: clock_steady_def sample_hub_def split: prod.split)

lemma sample_waited:
  "case wait_for_session sample_hub tools_config (Some ada) 30 \<lparr>tr_world = (0, 0), tr_events = []\<rparr> of (res, s') \<Rightarrow>
     (case res of Inl _ \<Rightarrow> False | Inr report \<Rightarrow> prefix ''Session is'' report) \<and> map is_called (tr_events s') = [True, False, True]"
  by code_simp

theorem session_wait_answers_witness:
  "\<exists>report s'. wait_for_session sample_hub tools_config (Some ada) 30 \<lparr>tr_world = (0, 0), tr_events = []\<rparr> = (Inr report, s')
     \<and> status_checks s' \<le> 61 \<and> (\<exists>a es. ready_answer tools_config ada a \<and> tr_events s' = Called (hub_request tools_config ada ''GET'' (user_path ada) 10 None) a # es)"
proof -
  obtain res s' where run: "wait_for_session sample_hub tools_config (Some ada) 30 \<lparr>tr_world = (0, 0), tr_events = []\<rparr> = (res, s')" by fastforce
  with sample_waited obtain report where "res = Inr report" "prefix ''Session is'' report" by (auto split: sum.splits)
  with run session_wait_answers [OF sample_steady _ run] show ?thesis by auto
qed

lemma sample_restarted:
  "case restart_af_session sample_hub sample_source tools_config (Some ada) None None \<lparr>tr_world = (0, 0), tr_events = []\<rparr> of (res, s') \<Rightarrow>
     \<not> isl res \<and> map is_called (tr_events s') = [True, False, True, True]"
  by code_simp


theorem session_calls_own_witness:
  "\<exists>s'. stop_af_session sample_hub tools_config (Some ada) \<lparr>tr_world = (0, 0), tr_events = []\<rparr>
       = (Inr ''Session is stopping. Storage is preserved - use start_af_session to launch a new one.'', s')
     \<and> tr_events s' \<noteq> [] \<and> list_all (own_event tools_config ada) (tr_events s')"
proof -
  obtain res s' where run: "stop_af_session sample_hub tools_config (Some ada) \<lparr>tr_world = (0, 0), tr_events = []\<rparr> = (res, s')" by fastforce
  have "case stop_af_session sample_hub tools_config (Some ada) \<lparr>tr_world = (0, 0), tr_events = []\<rparr> of (res, s') \<Rightarrow>
      res = Inr ''Session is stopping. Storage is preserved - use start_af_session to launch a new one.'' \<and> tr_events s' \<noteq> []"
    by code_simp
  with run session_calls_own [of "stop_af_session sample_hub tools_config (Some ada)" sample_hub tools_config ada sample_source None None False 1, OF _ _ run]
  show ?thesis by (auto simp: list_all_iff)
qed

end
