(* ===== verification/Tool_Dask.thy ===== *)
theory Tool_Dask
  imports Tool_Http PromQL_Regex
begin

text \<open>
  The Dask tools of the agentic interface (\<open>src/docker/agentic-interface/tools/dask.py\<close>): listing, creating, inspecting,
  scaling and stopping the caller's clusters through Dask Gateway with the caller's token, and their workers as
  Prometheus counts them. Dask Gateway, Prometheus and the user who is asked are parameters. The two or three queries that the
  code sends at once are sent in their order here.
\<close>

definition DASK :: string where "DASK = ''Dask Gateway''"
definition SCHEDULER_READY_TIMEOUT :: time where "SCHEDULER_READY_TIMEOUT = 120"
definition SCHEDULER_POLL_INTERVAL :: time where "SCHEDULER_POLL_INTERVAL = 3"

definition TERMINAL_STATUSES :: "string set" where
  "TERMINAL_STATUSES = {''STOPPING'', ''STOPPED'', ''FAILED''}"

definition squoted :: "string \<Rightarrow> string" where
  "squoted s = CHR 0x27 # s @ [CHR 0x27]"

subsection \<open>Names\<close>

definition is_cluster_char :: "char \<Rightarrow> bool" where
  "is_cluster_char c \<longleftrightarrow> is_digit c \<or> is_lower_letter (lower_char c) \<and> of_char c < (128 :: nat) \<or> c \<in> {CHR ''.'', CHR ''_'', CHR ''-''}"

text \<open>\<^verbatim>\<open>^[A-Za-z0-9._-]+$\<close>, whose end also stands before a line break that ends the text.\<close>

definition cluster_name_re :: "string \<Rightarrow> bool" where
  "cluster_name_re s = (let core = (if suffix [newline] s then butlast s else s) in core \<noteq> [] \<and> list_all is_cluster_char core)"

definition validate_cluster_name :: "tool_config \<Rightarrow> string \<Rightarrow> ('w, unit) tool" where
  "validate_cluster_name cf name = (if cluster_name_re name then ret ()
     else raise (Failed UserError (''Error: invalid cluster name '' @ tc_repr cf (JStr name) @ '' - use a name returned by list_dask_clusters.'')))"

text \<open>\<open>name.rsplit(".", 1)[-1]\<close>.\<close>

definition cluster_id :: "string \<Rightarrow> string" where
  "cluster_id name = last (split_on (CHR ''.'') name)"

text \<open>\<open>upper\<close>; a letter whose capital is beyond the characters here becomes a question mark.\<close>

definition upper_text :: "string \<Rightarrow> string" where
  "upper_text s = concat (map (\<lambda>c. let n = of_char c :: nat in
     if 97 \<le> n \<and> n \<le> 122 \<or> 224 \<le> n \<and> n \<le> 254 \<and> n \<noteq> 247 then [char_of (n - 32)]
     else if n = 223 then ''SS'' else if n = 181 \<or> n = 255 then ''?'' else [c]) s)"

subsection \<open>Asking the gateway\<close>

definition dask_http_error :: "tool_response \<Rightarrow> string \<Rightarrow> string option \<Rightarrow> tool_exn" where
  "dask_http_error r action name = (let code = rs_status r in
     if code \<in> {401, 403} then Failed AuthError (''Error: not authorised on '' @ DASK @ '' to '' @ action @ '' (HTTP '' @ show_nat code
       @ ''). If you believe you should have access, contact AF support.'')
     else case (if code = 404 then name else None) of
       Some (ch # nm) \<Rightarrow> Failed UserError (''Cluster '' @ squoted (ch # nm) @ '' not found. Call list_dask_clusters for the current names.'')
     | _ \<Rightarrow> if code \<in> {409, 422} then Failed UserError (''Error: '' @ DASK @ '' rejected the request to '' @ action @ '' - ''
         @ or_text (response_detail 400 r) ''no reason given'' @ ''.'')
       else http_error DASK r action [])"

definition dask_request :: "tool_config \<Rightarrow> af_user \<Rightarrow> string \<Rightarrow> string \<Rightarrow> time \<Rightarrow> json option \<Rightarrow> tool_request" where
  "dask_request cf c http_method path timeout body = \<lparr>rq_client = ''dask-gateway'', rq_method = http_method, rq_url = tc_dask_gateway cf @ path,
     rq_auth = ''jupyterhub '' @ cl_token c, rq_params = [], rq_extra = [], rq_json = body, rq_content = None, rq_timeout = timeout\<rparr>"

definition dask_call :: "'w backends \<Rightarrow> tool_config \<Rightarrow> af_user option \<Rightarrow> string \<Rightarrow> string \<Rightarrow> string \<Rightarrow> string option \<Rightarrow> nat list \<Rightarrow> time
    \<Rightarrow> json option \<Rightarrow> ('w, tool_response) tool" where
  "dask_call bk cf u http_method path action name ok timeout body = bindm (require_user u) (\<lambda>c.
     bindm (tool_send bk (dask_request cf c http_method path timeout body)) (\<lambda>a. case a of
       Inl e \<Rightarrow> raise (unreachable DASK e [])
     | Inr r \<Rightarrow> if rs_status r \<notin> set ok then raise (dask_http_error r action name) else ret r))"

definition cluster_path :: "string \<Rightarrow> string" where
  "cluster_path name = ''/api/v1/clusters/'' @ name"

definition cluster_record :: "'w backends \<Rightarrow> tool_config \<Rightarrow> af_user option \<Rightarrow> string \<Rightarrow> string \<Rightarrow> ('w, (string, json) dict) tool" where
  "cluster_record bk cf u name action = bindm (dask_call bk cf u ''GET'' (cluster_path name) action (Some name) [200] 10 None) (\<lambda>r.
     case json_body r of JObj d \<Rightarrow> ret d | _ \<Rightarrow> raise (malformed_response DASK r ''a cluster record''))"

text \<open>The status in a record: \<open>str(record.get("status") or "UNKNOWN").upper()\<close>.\<close>

definition status_word :: "tool_config \<Rightarrow> (string, json) dict \<Rightarrow> string" where
  "status_word cf d = upper_text (shown_json cf (or_else (dict_get d ''status'' JNull) (JStr ''UNKNOWN'')))"

definition cluster_status :: "'w backends \<Rightarrow> tool_config \<Rightarrow> af_user option \<Rightarrow> string \<Rightarrow> ('w, string) tool" where
  "cluster_status bk cf u name = bindm (cluster_record bk cf u name (''check the state of cluster '' @ squoted name)) (\<lambda>d. ret (status_word cf d))"

definition cluster_gone :: "string \<Rightarrow> string \<Rightarrow> tool_exn" where
  "cluster_gone name status = Failed UserError (''Error: cluster '' @ squoted name @ '' is '' @ status
     @ '' - it will not accept workers. Call list_dask_clusters to confirm, then create_dask_cluster for a fresh one; query_dask_logs shows why the scheduler stopped.'')"

text \<open>One look for \<open>_await_scheduler\<close>: the status and how long it took once it is running.\<close>

definition look_running :: "'w backends \<Rightarrow> tool_config \<Rightarrow> af_user option \<Rightarrow> string \<Rightarrow> time \<Rightarrow> ('w, (string \<times> time) + string) tool" where
  "look_running bk cf u name start = bindm (cluster_status bk cf u name) (\<lambda>status.
     if status = ''RUNNING'' then bindm (tool_clock bk) (\<lambda>t. ret (Inl (status, t - start)))
     else if status \<in> TERMINAL_STATUSES then raise (cluster_gone name status) else ret (Inr status))"

fun await_scheduler_loop :: "'w backends \<Rightarrow> tool_config \<Rightarrow> af_user option \<Rightarrow> string \<Rightarrow> time \<Rightarrow> nat \<Rightarrow> time \<Rightarrow> ('w, string \<times> time) tool" where
  "await_scheduler_loop bk cf u name start 0 deadline = raise Unfinished"
| "await_scheduler_loop bk cf u name start (Suc rounds) deadline = bindm (look_running bk cf u name start) (\<lambda>r. case r of Inl x \<Rightarrow> ret x
     | Inr status \<Rightarrow> bindm (tool_clock bk) (\<lambda>t. let remaining = deadline - t in
         if remaining \<le> 0 then bindm (tool_clock bk) (\<lambda>t'. ret (status, t' - start))
         else bindm (tool_sleep bk (min SCHEDULER_POLL_INTERVAL remaining)) (\<lambda>_. await_scheduler_loop bk cf u name start rounds deadline)))"

text \<open>120 seconds have forty intervals.\<close>

definition await_scheduler :: "'w backends \<Rightarrow> tool_config \<Rightarrow> af_user option \<Rightarrow> string \<Rightarrow> ('w, string \<times> time) tool" where
  "await_scheduler bk cf u name = bindm (tool_clock bk) (\<lambda>t. bindm (tool_clock bk) (\<lambda>start.
     await_scheduler_loop bk cf u name start 41 (t + SCHEDULER_READY_TIMEOUT)))"

text \<open>\<open>_scale\<close>: what the gateway said if it did not take that count.\<close>

definition dask_scale :: "'w backends \<Rightarrow> tool_config \<Rightarrow> af_user option \<Rightarrow> string \<Rightarrow> int \<Rightarrow> ('w, string option) tool" where
  "dask_scale bk cf u name n_workers =
     bindm (dask_call bk cf u ''POST'' (cluster_path name @ ''/scale'') (''scale to '' @ show_int n_workers @ '' worker(s)'') (Some name) [200, 204] 30
       (Some (JObj [(''count'', JNum (of_int n_workers))]))) (\<lambda>r.
     ret (case json_body r of JObj d \<Rightarrow> if map_of d ''ok'' = Some (JBool False)
         then Some (shown_json cf (or_else (dict_get d ''msg'' JNull) (JStr (DASK @ '' did not take that worker count.'')))) else None
       | _ \<Rightarrow> None))"

definition check_worker_count :: "int \<Rightarrow> ('w, unit) tool" where
  "check_worker_count n = (if n < 0 then raise (Failed UserError ''Error: n_workers must be >= 0.'') else ret ())"

subsection \<open>What a cluster is made of\<close>

definition base_worker_env :: "tool_config \<Rightarrow> string \<Rightarrow> (string, json) dict \<Rightarrow> (string, json) dict" where
  "base_worker_env cf username more_env = dict_updates
     [(''PATH'', JStr ''/usr/local/sbin:/usr/local/bin:/usr/sbin:/usr/bin:/sbin:/bin''), (''HOME'', JStr (''/home/'' @ username)),
      (''USER'', JStr username), (''LOGNAME'', JStr username)]
     (map (\<lambda>(k, v). (k, JStr (shown_json cf v))) (filter (\<lambda>(k, v). v \<noteq> JNull) more_env))"

definition stripped :: "string option \<Rightarrow> string" where
  "stripped o1 = strip_of py_space (case o1 of None \<Rightarrow> [] | Some s \<Rightarrow> s)"

definition build_cluster_options :: "tool_config \<Rightarrow> string \<Rightarrow> string option \<Rightarrow> string \<Rightarrow> string option \<Rightarrow> rat \<Rightarrow> rat \<Rightarrow> (string, json) dict
    \<Rightarrow> ('w, (string, json) dict) tool" where
  "build_cluster_options cf username pixi_project pixi_env conda_env worker_cores worker_memory env =
     (let pixi = stripped pixi_project; conda = stripped conda_env in
      if pixi \<noteq> [] \<and> conda \<noteq> [] then raise (Failed UserError ''Error: pixi_project and conda_env are mutually exclusive - specify only one.'')
      else if pixi = [] \<and> conda = [] then raise (Failed UserError
        ''Error: provide either pixi_project (directory with pixi.toml) or conda_env (path to a conda/pixi env prefix).'')
      else let options = [(''worker_cores'', JNum worker_cores), (''worker_memory'', JNum worker_memory), (''env'', JObj (base_worker_env cf username env))] in
        ret (options @ (if pixi \<noteq> [] then [(''pixi_project'', JStr pixi),
             (''pixi_env'', JStr (or_text (strip_of py_space (or_text pixi_env ''default'')) ''default'')), (''conda_env'', JStr [])]
           else [(''conda_env'', JStr conda), (''pixi_project'', JStr []), (''pixi_env'', JStr ''default'')])))"

definition DEFAULT_WORKER_CORES :: rat where "DEFAULT_WORKER_CORES = 1"
definition DEFAULT_WORKER_MEMORY :: rat where "DEFAULT_WORKER_MEMORY = 4"

definition COUNT_CHOICES :: "string list" where "COUNT_CHOICES = [''0'', ''10'', ''50'']"

definition CREATE_MENU :: "tool_config \<Rightarrow> string" where
  "CREATE_MENU cf = join_with newline
     [''1) worker environment - one of:'',
      ''   * global (default): shared pixi env at '' @ tc_global_pixi cf @ '' - pass env_source='global'.'',
      ''   * your pixi project: pass pixi_project='/path' (+ optional pixi_env).'',
      ''   * your conda env: pass conda_env='/path'.'',
      ''2) worker size: default ('' @ tc_format cf ''g'' (Fin DEFAULT_WORKER_CORES) @ '' core / '' @ tc_format cf ''g'' (Fin DEFAULT_WORKER_MEMORY)
        @ '' GiB) or custom (pass worker_cores + worker_memory in GiB).'',
      ''3) worker count to start with: '' @ join_str '', '' COUNT_CHOICES @ '', or a custom number (pass n_workers).'']"

definition CREATE_CHOICES_HELP :: "tool_config \<Rightarrow> string" where
  "CREATE_CHOICES_HELP cf = ''create_dask_cluster needs these choices from the user. Ask them (use the client's multiple-choice UI if available), then call create_dask_cluster again with explicit arguments:''
     @ newline # CREATE_MENU cf"

definition EnvChoice :: form where "EnvChoice = [(''env_source'', Some [''global'', ''pixi'', ''conda''])]"
definition PixiChoice :: form where "PixiChoice = [(''pixi_project'', None), (''pixi_env'', None)]"
definition CondaChoice :: form where "CondaChoice = [(''conda_env'', None)]"
definition SizeChoice :: form where "SizeChoice = [(''size'', Some [''default'', ''custom''])]"
definition CustomSize :: form where "CustomSize = [(''worker_cores'', None), (''worker_memory'', None)]"
definition CountChoice :: form where "CountChoice = [(''count'', Some (COUNT_CHOICES @ [''custom'']))]"
definition CustomCount :: form where "CustomCount = [(''n_workers'', None)]"

definition given :: "string option \<Rightarrow> bool" where
  "given o1 = (case o1 of None \<Rightarrow> False | Some s \<Rightarrow> s \<noteq> [])"

text \<open>\<open>_resolve_env\<close>: where the environment comes from, and then which it is.\<close>

definition env_origin :: "'w backends \<Rightarrow> tool_config \<Rightarrow> string option \<Rightarrow> string option \<Rightarrow> string option \<Rightarrow> ('w, string) tool" where
  "env_origin bk cf env_source pixi_project conda_env =
     (if given pixi_project then ret ''pixi'' else if given conda_env then ret ''conda''
      else case env_source of Some s \<Rightarrow> ret s
      | None \<Rightarrow> bindm (ask bk ''Choose the worker environment.'' EnvChoice (CREATE_CHOICES_HELP cf)) (\<lambda>d. text_field d ''env_source''))"

definition resolve_env :: "'w backends \<Rightarrow> tool_config \<Rightarrow> string option \<Rightarrow> string option \<Rightarrow> string \<Rightarrow> string option
    \<Rightarrow> ('w, string option \<times> string \<times> string option) tool" where
  "resolve_env bk cf env_source pixi_project pixi_env conda_env =
     bindm (env_origin bk cf env_source pixi_project conda_env) (\<lambda>source.
     if source = ''global'' then ret (Some (tc_global_pixi cf), ''default'', conda_env)
     else if source = ''pixi'' then
       (if given pixi_project then ret (pixi_project, pixi_env, conda_env)
        else bindm (ask bk ''Provide the path to your pixi project.'' PixiChoice (CREATE_CHOICES_HELP cf)) (\<lambda>d.
          bindm (text_field d ''pixi_project'') (\<lambda>p. bindm (text_field d ''pixi_env'') (\<lambda>e. ret (Some p, e, conda_env)))))
     else if source = ''conda'' then
       (if given conda_env then ret (pixi_project, pixi_env, conda_env)
        else bindm (ask bk ''Provide the path to your conda environment.'' CondaChoice (CREATE_CHOICES_HELP cf)) (\<lambda>d.
          bindm (text_field d ''conda_env'') (\<lambda>e. ret (pixi_project, pixi_env, Some e))))
     else raise (Failed UserError (''Error: unknown env_source '' @ squoted source @ ''. Use 'global', 'pixi', or 'conda'.'')))"

definition resolve_size :: "'w backends \<Rightarrow> tool_config \<Rightarrow> rat option \<Rightarrow> rat option \<Rightarrow> ('w, rat \<times> rat) tool" where
  "resolve_size bk cf worker_cores worker_memory =
     bindm (if worker_cores = None \<and> worker_memory = None
       then bindm (ask bk ''Choose the worker size.'' SizeChoice (CREATE_CHOICES_HELP cf)) (\<lambda>d. bindm (text_field d ''size'') (\<lambda>what.
         if what = ''custom'' then bindm (ask bk ''Specify the resources per worker.'' CustomSize (CREATE_CHOICES_HELP cf)) (\<lambda>e.
           bindm (number_field e ''worker_cores'') (\<lambda>n. bindm (number_field e ''worker_memory'') (\<lambda>m. ret (Some n, Some m))))
         else ret (None, None)))
       else ret (worker_cores, worker_memory)) (\<lambda>(n, m).
     ret (case n of None \<Rightarrow> DEFAULT_WORKER_CORES | Some x \<Rightarrow> x, case m of None \<Rightarrow> DEFAULT_WORKER_MEMORY | Some x \<Rightarrow> x))"

definition resolve_count :: "'w backends \<Rightarrow> tool_config \<Rightarrow> int option \<Rightarrow> ('w, int) tool" where
  "resolve_count bk cf n_workers = (case n_workers of Some n \<Rightarrow> ret n
   | None \<Rightarrow> bindm (ask bk ''How many workers should the cluster start with?'' CountChoice (CREATE_CHOICES_HELP cf)) (\<lambda>d.
       bindm (text_field d ''count'') (\<lambda>what.
       if what \<noteq> ''custom'' then py (as_int (JStr what))
       else bindm (ask bk ''Specify the number of workers to start with.'' CustomCount (CREATE_CHOICES_HELP cf)) (\<lambda>e.
         bindm (number_field e ''n_workers'') (\<lambda>n. ret (trunc n))))))"

definition WORKERS_PENDING_NEXT :: "string list" where
  "WORKERS_PENDING_NEXT = [[],
     ''Workers start asynchronously: the pods are scheduled first, then register with the scheduler. get_dask_worker_count reads Prometheus, so its numbers trail reality by up to one scrape interval - a low or zero count in the first minute is expected, not a failed scale.'',
     ''Next: get_dask_worker_count after ~30-60 s. If it is still short after that, query_dask_logs shows what the workers are doing and get_facility_health shows whether the facility is short of capacity.'']"

definition seconds_text :: "tool_config \<Rightarrow> time \<Rightarrow> string" where
  "seconds_text cf t = tc_format cf ''.0f'' (Fin t)"

text \<open>\<open>try: m except Failure as exc\<close>, with the text of it.\<close>

definition failure_caught :: "('w, 'a) tool \<Rightarrow> ('w, string + 'a) tool" where
  "failure_caught m = catch (bindm m (\<lambda>a. ret (Inr a))) (\<lambda>e. case e of Failed kind text \<Rightarrow> ret (Inl text) | _ \<Rightarrow> raise e)"

definition start_workers :: "'w backends \<Rightarrow> tool_config \<Rightarrow> af_user option \<Rightarrow> string \<Rightarrow> int \<Rightarrow> ('w, string list) tool" where
  "start_workers bk cf u name n_workers = bindm (failure_caught (await_scheduler bk cf u name)) (\<lambda>r. case r of
     Inl text \<Rightarrow> ret [[], ''Created with 0 workers - waiting for the scheduler failed: '' @ text]
   | Inr (status, waited) \<Rightarrow>
       if status \<noteq> ''RUNNING'' then ret [[],
         ''Created with 0 workers: the scheduler was still '' @ status @ '' after '' @ seconds_text cf waited
           @ '' s, and the gateway only accepts workers once the cluster is RUNNING.'',
         ''Next: scale_dask_cluster('' @ squoted name @ '', '' @ show_int n_workers
           @ '') - it waits for the scheduler too, so calling it again is usually all that is needed.'']
       else bindm (failure_caught (dask_scale bk cf u name n_workers)) (\<lambda>r2. case r2 of
         Inl text \<Rightarrow> ret [[], ''Created with 0 workers - the scale request failed: '' @ text,
           ''Retry with scale_dask_cluster('' @ squoted name @ '', '' @ show_int n_workers @ '').'']
       | Inr clamped \<Rightarrow> ret ((if waited \<ge> SCHEDULER_POLL_INTERVAL then [''Scheduler became RUNNING after '' @ seconds_text cf waited @ '' s.''] else [])
           @ [or_text (case clamped of None \<Rightarrow> [] | Some m \<Rightarrow> m) (''Scaling to '' @ show_int n_workers @ '' worker(s).'')] @ WORKERS_PENDING_NEXT)))"

subsection \<open>The tools that change a cluster\<close>

record create_call =
  cc_env_source :: "string option"
  cc_pixi_project :: "string option"
  cc_pixi_env :: string
  cc_conda_env :: "string option"
  cc_worker_cores :: "rat option"
  cc_worker_memory :: "rat option"
  cc_n_workers :: "int option"
  cc_env :: "(string, json) dict"

definition positive :: "rat option \<Rightarrow> string \<Rightarrow> ('w, unit) tool" where
  "positive o1 text = (case o1 of Some x \<Rightarrow> if x \<le> 0 then raise (Failed UserError text) else ret () | None \<Rightarrow> ret ())"

text \<open>What is created: the environment, the size and the count, asked for where they are missing.\<close>

definition create_plan :: "'w backends \<Rightarrow> tool_config \<Rightarrow> af_user option \<Rightarrow> create_call \<Rightarrow> ('w, (string, json) dict \<times> rat \<times> rat \<times> int) tool" where
  "create_plan bk cf u q =
     bindm (case cc_n_workers q of None \<Rightarrow> ret () | Some n \<Rightarrow> check_worker_count n) (\<lambda>_.
     bindm (positive (cc_worker_cores q) ''Error: worker_cores must be > 0.'') (\<lambda>_.
     bindm (positive (cc_worker_memory q) ''Error: worker_memory must be > 0 (GiB).'') (\<lambda>_.
     bindm (resolve_env bk cf (cc_env_source q) (cc_pixi_project q) (cc_pixi_env q) (cc_conda_env q)) (\<lambda>(pixi_project, pixi_env, conda_env).
     bindm (resolve_size bk cf (cc_worker_cores q) (cc_worker_memory q)) (\<lambda>(worker_cores, worker_memory).
     bindm (resolve_count bk cf (cc_n_workers q)) (\<lambda>n_workers.
     bindm (require_user u) (\<lambda>c.
     bindm (build_cluster_options cf (cl_username c) pixi_project pixi_env conda_env worker_cores worker_memory (cc_env q)) (\<lambda>options.
     ret (options, worker_cores, worker_memory, n_workers)))))))))"

definition option_text :: "(string, json) dict \<Rightarrow> string \<Rightarrow> string" where
  "option_text options k = (case dict_get options k JNull of JStr s \<Rightarrow> s | _ \<Rightarrow> [])"

definition created_lines :: "tool_config \<Rightarrow> string \<Rightarrow> (string, json) dict \<Rightarrow> rat \<Rightarrow> rat \<Rightarrow> string list" where
  "created_lines cf name options worker_cores worker_memory =
     [''Cluster '' @ squoted name @ '' created.'',
      ''workers: cores='' @ tc_str cf (JNum worker_cores) @ '' memory='' @ tc_str cf (JNum worker_memory) @ '' GiB each'',
      if option_text options ''pixi_project'' \<noteq> []
      then ''env: pixi_project='' @ option_text options ''pixi_project'' @ '' pixi_env='' @ option_text options ''pixi_env''
      else ''env: conda_env='' @ option_text options ''conda_env'']"

text \<open>The name in the gateway's answer to a creation.\<close>

definition created_name :: "tool_response \<Rightarrow> json" where
  "created_name r = (case json_body r of JObj d \<Rightarrow> dict_get d ''name'' (JStr []) | _ \<Rightarrow> JStr [])"

definition create_planned :: "'w backends \<Rightarrow> tool_config \<Rightarrow> af_user option \<Rightarrow> (string, json) dict \<Rightarrow> rat \<Rightarrow> rat \<Rightarrow> int \<Rightarrow> ('w, string) tool" where
  "create_planned bk cf u options worker_cores worker_memory n_workers =
     bindm (dask_call bk cf u ''POST'' ''/api/v1/clusters/'' ''create the cluster'' None [200, 201] 60 (Some (JObj [(''cluster_options'', JObj options)]))) (\<lambda>r.
     if \<not> truthy (created_name r) then raise (Failed UpstreamError (malformed_text DASK r ''a cluster record with a name''
       @ '' The cluster may have been created anyway - check list_dask_clusters before creating another.''))
     else let name = shown_json cf (created_name r); lines = created_lines cf name options worker_cores worker_memory in
       if n_workers = 0 then ret (join_with newline (lines @ [[], ''Cluster starts with 0 workers. Next: scale_dask_cluster(...).'']))
       else bindm (start_workers bk cf u name n_workers) (\<lambda>rest. ret (join_with newline (lines @ rest))))"

definition create_dask_cluster :: "'w backends \<Rightarrow> tool_config \<Rightarrow> af_user option \<Rightarrow> create_call \<Rightarrow> ('w, string) tool" where
  "create_dask_cluster bk cf u q = bindm (create_plan bk cf u q) (\<lambda>(options, worker_cores, worker_memory, n_workers).
     create_planned bk cf u options worker_cores worker_memory n_workers)"

definition scale_dask_cluster :: "'w backends \<Rightarrow> tool_config \<Rightarrow> af_user option \<Rightarrow> string \<Rightarrow> int \<Rightarrow> ('w, string) tool" where
  "scale_dask_cluster bk cf u name n_workers =
     bindm (validate_cluster_name cf name) (\<lambda>_. bindm (check_worker_count n_workers) (\<lambda>_.
     bindm (await_scheduler bk cf u name) (\<lambda>(status, waited).
     if status \<noteq> ''RUNNING'' then ret (''No scale request was sent: cluster '' @ squoted name @ '' was still '' @ status @ '' after '' @ seconds_text cf waited
       @ '' s, and the gateway only accepts workers once the cluster is RUNNING.'' @ newline
       # ''Next: get_dask_cluster_info for the current status, or query_dask_logs if it stays pending - the scheduler pod may be waiting for capacity. Calling scale_dask_cluster again resumes the wait.'')
     else bindm (dask_scale bk cf u name n_workers) (\<lambda>clamped. ret (join_with newline (
       (if waited \<ge> SCHEDULER_POLL_INTERVAL then [''Scheduler became RUNNING after '' @ seconds_text cf waited @ '' s.''] else [])
       @ [or_text (case clamped of None \<Rightarrow> [] | Some m \<Rightarrow> m) (''Cluster '' @ squoted name @ '' scaling to '' @ show_int n_workers @ '' worker(s).'')]
       @ (if n_workers \<noteq> 0 then WORKERS_PENDING_NEXT else [])))))))"

definition stop_dask_cluster :: "'w backends \<Rightarrow> tool_config \<Rightarrow> af_user option \<Rightarrow> string \<Rightarrow> ('w, string) tool" where
  "stop_dask_cluster bk cf u name = bindm (validate_cluster_name cf name) (\<lambda>_.
     bindm (dask_call bk cf u ''DELETE'' (cluster_path name) (''stop cluster '' @ squoted name) (Some name) [200, 204, 404] 10 None) (\<lambda>r.
     ret (''Cluster '' @ squoted name @ (if rs_status r = 404 then '' not found (may have already stopped).'' else '' stopped.''))))"

subsection \<open>What may be asked of the gateway\<close>

text \<open>The newest event shows that the cluster runs; a name that the gateway itself gave to a cluster of this call.\<close>

definition seen_running :: "tool_config \<Rightarrow> af_user \<Rightarrow> string \<Rightarrow> tool_event list \<Rightarrow> bool" where
  "seen_running cf c name es \<longleftrightarrow> (\<exists>r d rest. es = Called (dask_request cf c ''GET'' (cluster_path name) 10 None) (Inr r) # rest
     \<and> rs_status r = 200 \<and> json_body r = JObj d \<and> status_word cf d = ''RUNNING'')"

definition creation :: "tool_config \<Rightarrow> af_user \<Rightarrow> (string, json) dict \<Rightarrow> tool_request" where
  "creation cf c options = dask_request cf c ''POST'' ''/api/v1/clusters/'' 60 (Some (JObj [(''cluster_options'', JObj options)]))"

definition named_by_gateway :: "tool_config \<Rightarrow> af_user \<Rightarrow> string \<Rightarrow> tool_event list \<Rightarrow> bool" where
  "named_by_gateway cf c name es \<longleftrightarrow> (\<exists>options r. Called (creation cf c options) (Inr r) \<in> set es \<and> rs_status r \<in> {200, 201}
     \<and> truthy (created_name r) \<and> name = shown_json cf (created_name r))"

text \<open>A call may be about a name it was asked for, if the name is in order, or about one that the gateway gave.\<close>

definition about :: "tool_config \<Rightarrow> af_user \<Rightarrow> string set \<Rightarrow> string \<Rightarrow> tool_event list \<Rightarrow> bool" where
  "about cf c asked name es \<longleftrightarrow> name \<in> asked \<and> cluster_name_re name \<or> named_by_gateway cf c name es"

fun is_creation :: "tool_event \<Rightarrow> bool" where
  "is_creation (Called q a) = (rq_method q = ''POST'' \<and> suffix ''/api/v1/clusters/'' (rq_url q))"
| "is_creation _ = False"

fun dask_guarded :: "tool_config \<Rightarrow> af_user \<Rightarrow> string set \<Rightarrow> tool_event \<Rightarrow> tool_event list \<Rightarrow> bool" where
  "dask_guarded cf c asked (Called q a) es =
     ((\<exists>name. about cf c asked name es \<and>
        (q = dask_request cf c ''GET'' (cluster_path name) 10 None
         \<or> q = dask_request cf c ''DELETE'' (cluster_path name) 10 None \<and> name \<in> asked \<and> cluster_name_re name
         \<or> (\<exists>n. q = dask_request cf c ''POST'' (cluster_path name @ ''/scale'') 30 (Some (JObj [(''count'', JNum (of_int n))])) \<and> seen_running cf c name es)))
      \<or> (\<exists>options. q = creation cf c options \<and> \<not> list_ex is_creation es))"
| "dask_guarded cf c asked (Slept d) es = True"
| "dask_guarded cf c asked (Asked_user m f) es = True"

abbreviation kept_to :: "tool_config \<Rightarrow> af_user \<Rightarrow> string set \<Rightarrow> string \<Rightarrow> 'w tool_run \<Rightarrow> bool" where
  "kept_to cf c asked name s \<equiv> events_lawful (dask_guarded cf c asked) (tr_events s) \<and> about cf c asked name (tr_events s)"

lemma about_Cons: "about cf c asked name es \<Longrightarrow> about cf c asked name (e # es)"
  by (auto simp: about_def named_by_gateway_def)

text \<open>The exceptions that the tools account for, and the one that is none of the code's.\<close>

fun expected :: "tool_exn \<Rightarrow> bool" where
  "expected (Failed kind text) = True"
| "expected Unfinished = True"
| "expected _ = False"

lemma upstream_expected: "is_upstream e \<Longrightarrow> expected e"
  by (erule is_upstreamE) simp

lemma expected_failures [simp]:
  "expected (unreachable service e next_step)" "expected (malformed_response service r what)" "expected (dask_http_error r action o1)" "expected (cluster_gone name status)"
  by (auto simp: dask_http_error_def cluster_gone_def Let_def upstream_expected split: option.split list.split)

lemma wp_dask_call:
  "wp (dask_call bk cf (Some c) http_method path action name ok timeout body) R X s =
     (case bk_request bk (dask_request cf c http_method path timeout body) (tr_world s) of (a, w) \<Rightarrow>
       let s' = s\<lparr>tr_world := w, tr_events := Called (dask_request cf c http_method path timeout body) a # tr_events s\<rparr> in
       case a of Inl e \<Rightarrow> X (unreachable DASK e []) s'
       | Inr r \<Rightarrow> if rs_status r \<notin> set ok then X (dask_http_error r action name) s' else R r s')"
  by (simp add: dask_call_def require_user_def bindm_ret tool_send_def wp_simps split: prod.split sum.split)

lemma wp_cluster_status:
  assumes "kept_to cf c asked name s"
  shows "wp (cluster_status bk cf (Some c) name)
    (\<lambda>status t. events_lawful (dask_guarded cf c asked) (tr_events t) \<and> about cf c asked name (tr_events t) \<and> (status = ''RUNNING'' \<longrightarrow> seen_running cf c name (tr_events t)))
    (\<lambda>e t. events_lawful (dask_guarded cf c asked) (tr_events t) \<and> expected e) s"
proof -
  have law: "kept_to cf c asked name (s\<lparr>tr_world := w, tr_events := Called (dask_request cf c ''GET'' (cluster_path name) 10 None) a # tr_events s\<rparr>)" for w a
    using assms about_Cons by auto
  show ?thesis
    unfolding cluster_status_def cluster_record_def wp_bindm wp_dask_call wp_ret
    using law by (auto simp: Let_def wp_simps seen_running_def split: prod.split sum.split json.split)
qed

lemma wp_look_running:
  assumes "kept_to cf c asked name s"
  shows "wp (look_running bk cf (Some c) name start)
    (\<lambda>r t. events_lawful (dask_guarded cf c asked) (tr_events t) \<and> about cf c asked name (tr_events t) \<and> (case r of Inl (status, waited) \<Rightarrow> seen_running cf c name (tr_events t) | Inr status \<Rightarrow> status \<noteq> ''RUNNING''))
    (\<lambda>e t. events_lawful (dask_guarded cf c asked) (tr_events t) \<and> expected e) s"
  unfolding look_running_def wp_bindm
  by (rule wp_mono [OF wp_cluster_status [OF assms]]) (auto simp: wp_simps tool_clock_def split: prod.split)

lemma wp_await_scheduler_loop:
  assumes "kept_to cf c asked name s"
  shows "wp (await_scheduler_loop bk cf (Some c) name start n deadline)
    (\<lambda>(status, waited) t. events_lawful (dask_guarded cf c asked) (tr_events t) \<and> about cf c asked name (tr_events t) \<and> (status = ''RUNNING'' \<longrightarrow> seen_running cf c name (tr_events t)))
    (\<lambda>e t. events_lawful (dask_guarded cf c asked) (tr_events t) \<and> expected e) s"
  using assms
proof (induction n arbitrary: s)
  case (Suc n)
  show ?case
    unfolding await_scheduler_loop.simps wp_bindm
    by (rule wp_mono [OF wp_look_running [OF Suc.prems]])
      (auto simp: wp_simps tool_clock_def tool_sleep_def Let_def about_Cons intro!: Suc.IH split: prod.split sum.split)
qed (simp add: wp_simps)

lemma wp_await_scheduler:
  assumes "kept_to cf c asked name s"
  shows "wp (await_scheduler bk cf (Some c) name)
    (\<lambda>(status, waited) t. events_lawful (dask_guarded cf c asked) (tr_events t) \<and> about cf c asked name (tr_events t) \<and> (status = ''RUNNING'' \<longrightarrow> seen_running cf c name (tr_events t)))
    (\<lambda>e t. events_lawful (dask_guarded cf c asked) (tr_events t) \<and> expected e) s"
  unfolding await_scheduler_def
  using assms by (auto simp: wp_simps tool_clock_def intro!: wp_await_scheduler_loop split: prod.split)

lemma wp_dask_scale:
  assumes "kept_to cf c asked name s" "seen_running cf c name (tr_events s)"
  shows "wp (dask_scale bk cf (Some c) name n) (\<lambda>_ t. events_lawful (dask_guarded cf c asked) (tr_events t))
    (\<lambda>e t. events_lawful (dask_guarded cf c asked) (tr_events t) \<and> expected e) s"
  unfolding dask_scale_def wp_bindm wp_dask_call wp_ret
  using assms by (auto simp: Let_def split: prod.split sum.split)

lemma wp_tried [wp_simps]:
  "wp (failure_caught m) R X = wp m (\<lambda>a. R (Inr a)) (\<lambda>e. case e of Failed kind text \<Rightarrow> R (Inl text) | _ \<Rightarrow> X e)"
proof -
  have "(\<lambda>e. wp (case e of Failed kind text \<Rightarrow> ret (Inl text) | _ \<Rightarrow> raise e) R X) = (\<lambda>e. case e of Failed kind text \<Rightarrow> R (Inl text) | _ \<Rightarrow> X e)"
    by (auto simp: fun_eq_iff wp_simps split: tool_exn.split)
  then show ?thesis by (simp add: failure_caught_def wp_simps)
qed

lemma wp_start_workers:
  assumes "kept_to cf c asked name s"
  shows "wp (start_workers bk cf (Some c) name n) (\<lambda>_ t. events_lawful (dask_guarded cf c asked) (tr_events t))
    (\<lambda>e t. events_lawful (dask_guarded cf c asked) (tr_events t) \<and> e = Unfinished) s"
  unfolding start_workers_def wp_bindm wp_tried
  by (rule wp_mono [OF wp_await_scheduler [OF assms]])
    (auto simp: wp_simps intro!: wp_mono [OF wp_dask_scale] split: tool_exn.splits)

text \<open>Up to the creation a call only asks the user.\<close>

abbreviation nothing_sent :: "'w tool_run \<Rightarrow> bool" where
  "nothing_sent s \<equiv> list_all (\<lambda>e. case e of Asked_user m f \<Rightarrow> True | _ \<Rightarrow> False) (tr_events s)"

lemma asked_quiet [pres_intros]: "preserves nothing_sent (ask bk message schema help_text)"
  by (rule preserves_ask) simp

lemma create_plan_quiet: "preserves nothing_sent (create_plan bk cf u q)"
  unfolding create_plan_def check_worker_count_def positive_def resolve_env_def env_origin_def resolve_size_def resolve_count_def build_cluster_options_def Let_def
  by (intro pres_intros)

lemma quiet_lawful:
  "list_all (\<lambda>e. case e of Asked_user m f \<Rightarrow> True | _ \<Rightarrow> False) es \<Longrightarrow> events_lawful (dask_guarded cf c asked) es \<and> \<not> list_ex is_creation es"
  by (induction es) (auto split: tool_event.splits)

lemma last_suffix: "suffix u v \<Longrightarrow> u \<noteq> [] \<Longrightarrow> last v = last u"
  by (auto simp: suffix_def)

lemma scale_no_creation: "\<not> suffix ''/api/v1/clusters/'' (x @ ''/scale'')"
  using last_suffix [of "''/api/v1/clusters/''" "x @ ''/scale''"] by auto

lemma creation_is_creation [simp]:
  "rq_method (creation cf c options) = ''POST''" "suffix ''/api/v1/clusters/'' (rq_url (creation cf c options))"
  by (simp_all add: creation_def dask_request_def suffix_def)

lemma start_workers_creates_none: "holds (\<lambda>s. filter is_creation (tr_events s)) (start_workers bk cf u name n)"
proof -
  let ?f = "\<lambda>s. filter is_creation (tr_events s)"
  have user: "holds ?f (require_user u)" unfolding require_user_def by (intro holds_intros)
  have clock: "holds ?f (tool_clock bk)" "holds ?f (tool_sleep bk d)" for d
    unfolding tool_clock_def tool_sleep_def by (rule holds_world_step, simp)+
  have reading: "holds ?f (look_running bk cf u name start)" for start
    unfolding look_running_def cluster_status_def cluster_record_def dask_call_def tool_send_def
    by (intro holds_intros user clock holds_world_step) (auto simp: dask_request_def intro: holds_intros split: json.split)
  have "holds ?f (await_scheduler_loop bk cf u name start n deadline)" for start n deadline
    by (induction n) (auto simp: Let_def intro!: holds_intros reading clock)
  then have wait: "holds ?f (await_scheduler bk cf u name)" unfolding await_scheduler_def by (intro holds_intros clock)
  have scale: "holds ?f (dask_scale bk cf u name n)"
    unfolding dask_scale_def dask_call_def tool_send_def
    by (intro holds_intros user holds_world_step)
      (use scale_no_creation [of "tc_dask_gateway cf @ cluster_path name"] in \<open>auto simp: dask_request_def\<close>)
  have failure_caught: "holds ?f m \<Longrightarrow> holds ?f (failure_caught m)" for m :: "('a, 'x) tool"
    unfolding failure_caught_def by (intro holds_intros) (auto intro: holds_intros split: tool_exn.split)
  show ?thesis unfolding start_workers_def by (intro holds_intros failure_caught wait scale) 
qed

text \<open>What follows a creation that the gateway took and named, and then all of the call.\<close>

lemma after_creation:
  assumes ev: "tr_events s = Called (creation cf c options) (Inr r) # es" and es: "list_all (\<lambda>e. case e of Asked_user m f \<Rightarrow> True | _ \<Rightarrow> False) es"
    and r: "rs_status r \<in> {200, 201}" "truthy (created_name r)"
    and run: "start_workers bk cf (Some c) (shown_json cf (created_name r)) n s = (x, s')"
  shows "events_lawful (dask_guarded cf c {}) (tr_events s')" "filter is_creation (tr_events s') = [Called (creation cf c options) (Inr r)]"
    "x = Inl e \<Longrightarrow> e = Unfinished"
proof -
  have "kept_to cf c {} (shown_json cf (created_name r)) s"
    using quiet_lawful [OF es, of cf c "{}"] r unfolding ev by (auto simp: about_def named_by_gateway_def)
  note wp = wpD [OF wp_start_workers [OF this]]
  show "events_lawful (dask_guarded cf c {}) (tr_events s')" "x = Inl e \<Longrightarrow> e = Unfinished" using wp run by (cases x; blast)+
  have "\<not> list_ex is_creation es" using quiet_lawful [OF es] by blast
  then have "filter is_creation es = []" by (auto simp: filter_empty_conv list_ex_iff)
  then show "filter is_creation (tr_events s') = [Called (creation cf c options) (Inr r)]"
    using holdsD [OF start_workers_creates_none, of bk cf "Some c" "shown_json cf (created_name r)" n s] run ev by simp
qed

lemma created_once:
  assumes "filter is_creation es = [Called (creation cf c options) a]" "Called (creation cf c options') a' \<in> set es"
  shows "a' = a"
proof -
  have "Called (creation cf c options') a' \<in> set (filter is_creation es)" using assms(2) by simp
  then show ?thesis unfolding assms(1) by simp
qed

lemma created_lines_told: "prefix (''Cluster '' @ squoted name @ '' created.'') (join_with newline (created_lines cf name options x y @ rest))"
  by (simp add: created_lines_def prefix_def)

text \<open>A cluster that the gateway made is told of, unless the rounds run out.\<close>

definition told :: "tool_config \<Rightarrow> af_user \<Rightarrow> tool_exn + string \<Rightarrow> tool_event list \<Rightarrow> bool" where
  "told cf c res es \<longleftrightarrow> (\<forall>options r. Called (creation cf c options) (Inr r) \<in> set es \<longrightarrow> rs_status r \<in> {200, 201} \<longrightarrow> truthy (created_name r) \<longrightarrow>
     res = Inl Unfinished \<or> (\<exists>report. res = Inr report \<and> prefix (''Cluster '' @ squoted (shown_json cf (created_name r)) @ '' created.'') report))"

lemma planned_run:
  assumes quiet: "nothing_sent s" and run: "create_planned bk cf (Some c) options x y n s = (res, s')"
  shows "events_lawful (dask_guarded cf c {}) (tr_events s') \<and> told cf c res (tr_events s')"
proof -
  note l1 = quiet_lawful [OF quiet, of cf c "{}"]
  obtain a w where a: "bk_request bk (creation cf c options) (tr_world s) = (a, w)" by fastforce
  let ?s2 = "s\<lparr>tr_world := w, tr_events := Called (creation cf c options) a # tr_events s\<rparr>"
  have l2: "events_lawful (dask_guarded cf c {}) (tr_events ?s2)" using l1 by auto
  have "filter is_creation (tr_events s) = []" using l1 by (auto simp: filter_empty_conv list_ex_iff)
  then have once: "filter is_creation (tr_events ?s2) = [Called (creation cf c options) a]" by simp
  have call: "dask_call bk cf (Some c) ''POST'' ''/api/v1/clusters/'' ''create the cluster'' None [200, 201] 60 (Some (JObj [(''cluster_options'', JObj options)])) s
      = ((case a of Inl e \<Rightarrow> Inl (unreachable DASK e []) | Inr r \<Rightarrow> if rs_status r \<notin> {200, 201} then Inl (dask_http_error r ''create the cluster'' None) else Inr r), ?s2)"
    using a by (simp add: dask_call_def require_user_def bindm_ret creation_def [symmetric] tool_send_def bindm_def world_step_def raise_def ret_def split: sum.split)
  note run = run [unfolded create_planned_def bindm_def [of "dask_call _ _ _ _ _ _ _ _ _ _"] call]
  consider (lost) "\<And>r. a = Inr r \<Longrightarrow> rs_status r \<in> {200, 201} \<Longrightarrow> \<not> truthy (created_name r)"
    | (made) r where "a = Inr r" "rs_status r \<in> {200, 201}" "truthy (created_name r)" by blast
  then show ?thesis
  proof cases
    case lost
    then have s': "s' = ?s2" using run by (auto simp: raise_def split: sum.splits if_splits)
    show ?thesis using l2 created_once [OF once] lost unfolding s' told_def by blast
  next
    case r: made
    let ?name = "shown_json cf (created_name r)"
    show ?thesis
    proof (cases "n = 0")
      case True
      then have "s' = ?s2" "res = Inr (join_with newline (created_lines cf ?name options x y
          @ [[], ''Cluster starts with 0 workers. Next: scale_dask_cluster(...).'']))"
        using run r by (auto simp: ret_def Let_def)
      then show ?thesis using l2 created_once [OF once] created_lines_told r(1) unfolding told_def by (metis sum.inject(2))
    next
      case False
      obtain o1 where o1: "start_workers bk cf (Some c) ?name n ?s2 = (o1, s')"
        and res: "res = (case o1 of Inl e \<Rightarrow> Inl e | Inr rest \<Rightarrow> Inr (join_with newline (created_lines cf ?name options x y @ rest)))"
        using run r False by (auto simp: ret_def Let_def bindm_def split: prod.splits sum.splits)
      note rest = after_creation [OF _ quiet r(2,3) o1, of options]
      have "res = Inl Unfinished \<or> (\<exists>report. res = Inr report \<and> prefix (''Cluster '' @ squoted ?name @ '' created.'') report)"
        using res rest(3) r(1) created_lines_told [of ?name cf options x y] by (cases o1) auto
      then show ?thesis using rest(1,2) created_once [of "tr_events s'" cf c options "Inr r"] r(1) unfolding told_def by auto
    qed
  qed
qed

lemma create_run:
  assumes "nothing_sent s" "create_dask_cluster bk cf (Some c) q s = (res, s')"
  shows "events_lawful (dask_guarded cf c {}) (tr_events s') \<and> told cf c res (tr_events s')"
proof -
  obtain p s1 where p: "create_plan bk cf (Some c) q s = (p, s1)" by fastforce
  have quiet: "nothing_sent s1" using preservesD [OF create_plan_quiet assms(1), of bk cf "Some c" q] p by simp
  show ?thesis
  proof (cases p)
    case (Inl e)
    then have "s' = s1" using assms(2) p by (simp add: create_dask_cluster_def bindm_def)
    moreover have "Called q a \<notin> set (tr_events s1)" for q a using quiet by (auto simp: list_all_iff split: tool_event.splits)
    ultimately show ?thesis using quiet_lawful [OF quiet] by (simp add: told_def)
  next
    case (Inr plan)
    then show ?thesis using assms(2) p planned_run [OF quiet] by (auto simp: create_dask_cluster_def bindm_def split: prod.splits)
  qed
qed

lemma scale_stop_run:
  shows "obeys (dask_guarded cf c {name}) (scale_dask_cluster bk cf (Some c) name n)" "obeys (dask_guarded cf c {name}) (stop_dask_cluster bk cf (Some c) name)"
proof -
  have about: "cluster_name_re name \<Longrightarrow> about cf c {name} name es" for es by (simp add: about_def)
  have "wp (await_scheduler bk cf (Some c) name)
      (\<lambda>(status, waited) t. events_lawful (dask_guarded cf c {name}) (tr_events t) \<and> about cf c {name} name (tr_events t) \<and> (status = ''RUNNING'' \<longrightarrow> seen_running cf c name (tr_events t)))
      (\<lambda>e t. events_lawful (dask_guarded cf c {name}) (tr_events t) \<and> expected e) s"
    if "events_lawful (dask_guarded cf c {name}) (tr_events s)" "cluster_name_re name" for s
    using that about by (intro wp_await_scheduler) simp
  then show "obeys (dask_guarded cf c {name}) (scale_dask_cluster bk cf (Some c) name n)"
    unfolding scale_dask_cluster_def validate_cluster_name_def check_worker_count_def
    by (intro preserves_wp) (auto simp: wp_simps intro!: wp_mono [OF wp_await_scheduler [of cf c "{name}"]] wp_mono [OF wp_dask_scale [of cf c "{name}"]] about)
  have "cluster_name_re name \<Longrightarrow> dask_guarded cf c {name} (Called (dask_request cf c ''DELETE'' (cluster_path name) 10 None) a) es" for a es
    using about by auto
  then show "obeys (dask_guarded cf c {name}) (stop_dask_cluster bk cf (Some c) name)"
    unfolding stop_dask_cluster_def validate_cluster_name_def
    by (intro preserves_wp) (simp add: wp_simps wp_dask_call Let_def del: dask_guarded.simps(1) split: prod.split sum.split)
qed

text \<open>
  C10: what the Dask tools that change something ask of the gateway. Each request carries the caller's own token. It is about the cluster
  that the call names, whose name is one piece of a path, or about the one that the gateway has just created and named; a
  cluster is deleted only if the call names it, is scaled only right after the gateway said that it is running, and a call creates
  at most one.
\<close>

theorem dask_calls_guarded:
  assumes "(run, asked) \<in> {(create_dask_cluster bk cf (Some c) q, {}), (scale_dask_cluster bk cf (Some c) name n, {name}), (stop_dask_cluster bk cf (Some c) name, {name})}"
    and "tr_events s = []" "run s = (res, s')"
  shows "events_lawful (dask_guarded cf c asked) (tr_events s')"
proof -
  consider "run = create_dask_cluster bk cf (Some c) q" "asked = {}" | "obeys (dask_guarded cf c asked) run"
    using assms(1) scale_stop_run by blast
  then show ?thesis
  proof cases
    case 1
    then show ?thesis using create_run [of s bk cf c q res s'] assms(2,3) by simp
  next
    case 2
    from preservesD [OF this, of s] assms(2,3) show ?thesis by simp
  qed
qed

subsection \<open>A cluster that was created is told of\<close>

lemmas scheduler_step = await_scheduler_loop.simps(2) [unfolded Let_def]

lemma dask_error_built [simp]: "dask_http_error r action o1 \<noteq> Unfinished"
  by (auto simp: dask_http_error_def Let_def split: option.split list.split)

lemma dask_call_ends [ends_intros]: "ends (dask_call bk cf u http_method path action o1 ok timeout body)"
  unfolding dask_call_def by (intro ends_intros) simp_all

lemma look_running_ends: "ends (look_running bk cf u name start)"
  unfolding look_running_def cluster_status_def cluster_record_def
  by (auto intro!: ends_intros simp: cluster_gone_def split: json.split)

lemma look_running_onward: "clock_steady now bk \<Longrightarrow> clock_onward now (look_running bk cf u name start)"
  unfolding look_running_def cluster_status_def cluster_record_def dask_call_def
  by (auto intro!: pres_intros onward_send onward_monotonic split: json.split)

interpretation scheduler_wait: bounded_polling bk SCHEDULER_POLL_INTERVAL "\<lambda>_ :: string. look_running bk cf u name start"
    "\<lambda>status. bindm (tool_clock bk) (\<lambda>t. ret (status, t - start))" "\<lambda>n deadline _. await_scheduler_loop bk cf u name start n deadline"
  for bk cf u name start
  by unfold_locales (simp add: SCHEDULER_POLL_INTERVAL_def, rule scheduler_step, rule look_running_ends, intro ends_intros)

lemma await_scheduler_ends:
  assumes "clock_steady now bk"
  shows "ends (await_scheduler bk cf u name)"
  unfolding await_scheduler_def
proof (rule ends_deadline [OF assms])
  fix t :: time and s :: "'a tool_run" assume t: "t \<le> now (tr_world s)"
  obtain start w where w: "bk_monotonic bk (tr_world s) = (start, w)" by fastforce
  have "now (tr_world s) \<le> now w" using assms w by (auto simp: clock_steady_def) (metis fst_conv order_trans snd_conv)
  then have "t + SCHEDULER_READY_TIMEOUT \<le> now (tr_world (s\<lparr>tr_world := w\<rparr>)) + of_nat 40 * SCHEDULER_POLL_INTERVAL"
    using t by (simp add: SCHEDULER_READY_TIMEOUT_def SCHEDULER_POLL_INTERVAL_def)
  from scheduler_wait.loop_finishes [OF assms look_running_onward [OF assms] this]
  have "finishes (await_scheduler_loop bk cf u name start 41 (t + SCHEDULER_READY_TIMEOUT)) (s\<lparr>tr_world := w\<rparr>)"
    by (simp add: eval_nat_numeral)
  then show "finishes (bindm (tool_clock bk) (\<lambda>start. await_scheduler_loop bk cf u name start 41 (t + SCHEDULER_READY_TIMEOUT))) s"
    using w by (simp add: finishes_wp wp_simps tool_clock_def)
qed

lemma create_ends:
  assumes "clock_steady now bk"
  shows "ends (create_dask_cluster bk cf u q)"
proof -
  have failure_caught: "ends m \<Longrightarrow> ends (failure_caught m)" for m :: "('a, 'x) tool"
    unfolding failure_caught_def by (auto intro!: ends_intros split: tool_exn.split)
  have "ends (create_plan bk cf u q)"
    unfolding create_plan_def check_worker_count_def positive_def resolve_env_def env_origin_def resolve_size_def resolve_count_def build_cluster_options_def Let_def
    by (intro ends_intros) simp_all
  moreover have "ends (start_workers bk cf u name n)" for name n
    unfolding start_workers_def dask_scale_def by (intro ends_intros failure_caught await_scheduler_ends [OF assms])
  ultimately show ?thesis unfolding create_dask_cluster_def create_planned_def Let_def by (intro ends_intros) simp_all
qed

text \<open>
  C28: a cluster that was created is told of. On a clock that goes on, once Dask Gateway has answered a creation with a name,
  \<open>create_dask_cluster\<close> returns, and its text starts with that name, whatever happens to the scheduler and to the workers
  asked for, and whatever the gateway answers then.
\<close>

theorem created_told:
  assumes "clock_steady now bk" "tr_events s = []" "create_dask_cluster bk cf (Some c) q s = (res, s')"
    and "Called (creation cf c options) (Inr r) \<in> set (tr_events s')" "rs_status r \<in> {200, 201}" "truthy (created_name r)"
  shows "\<exists>report. res = Inr report \<and> prefix (''Cluster '' @ squoted (shown_json cf (created_name r)) @ '' created.'') report"
proof -
  have "res \<noteq> Inl Unfinished" using endsD [OF create_ends [OF assms(1)], of cf "Some c" q s] assms(3) by (simp add: finishes_def)
  moreover have "told cf c res (tr_events s')" using create_run [of s bk cf c q res s'] assms(2,3) by simp
  ultimately show ?thesis using assms(4-6) unfolding told_def by blast
qed

text \<open>
  A gateway for the examples: the clock. It makes every cluster, and has forgotten it when it is asked for its status.
\<close>

definition sample_gateway :: "time backends" where
  "sample_gateway = \<lparr>bk_request = (\<lambda>q t. (Inr (if rq_method q = ''POST'' then \<lparr>rs_status = 201, rs_text = json_dumps (JObj [(''name'', JStr ''cms.1f'')])\<rparr>
       else \<lparr>rs_status = 404, rs_text = []\<rparr>), t)),
     bk_monotonic = (\<lambda>t. (t, t)), bk_sleep = (\<lambda>d t. t + max 0 d), bk_elicit = (\<lambda>_ _ w. (Not_accepted ''decline'', w))\<rparr>"

definition dask_ada :: af_user where "dask_ada = \<lparr>cl_username = ''ada'', cl_token = ''tok''\<rparr>"

definition sample_create :: create_call where
  "sample_create = \<lparr>cc_env_source = Some ''global'', cc_pixi_project = None, cc_pixi_env = ''default'', cc_conda_env = None, cc_worker_cores = Some 1,
     cc_worker_memory = None, cc_n_workers = Some 10, cc_env = []\<rparr>"

lemma gateway_steady: "clock_steady id sample_gateway"
  by (auto simp: clock_steady_def sample_gateway_def)

text \<open>The answer to the creation of this call, and what the tool makes of it all.\<close>

definition named_response :: tool_response where
  "named_response = \<lparr>rs_status = 201, rs_text = json_dumps (JObj [(''name'', JStr ''cms.1f'')])\<rparr>"

definition sample_options :: "(string, json) dict" where
  "sample_options = [(''worker_cores'', JNum 1), (''worker_memory'', JNum 4), (''env'', JObj (base_worker_env tools_config ''ada'' [])),
     (''pixi_project'', JStr ''/work/pixi/global''), (''pixi_env'', JStr ''default''), (''conda_env'', JStr [])]"

lemma sample_created:
  "Called (creation tools_config dask_ada sample_options) (Inr named_response) \<in> set (tr_events (snd
     (create_dask_cluster sample_gateway tools_config (Some dask_ada) sample_create \<lparr>tr_world = 0, tr_events = []\<rparr>)))"
  "rs_status named_response = 201 \<and> truthy (created_name named_response) \<and> shown_json tools_config (created_name named_response) = ''cms.1f''"
  by code_simp+

theorem created_told_witness:
  "\<exists>report s'. create_dask_cluster sample_gateway tools_config (Some dask_ada) sample_create \<lparr>tr_world = 0, tr_events = []\<rparr> = (Inr report, s')
     \<and> prefix (''Cluster '' @ squoted ''cms.1f'' @ '' created.'') report"
proof -
  obtain res s' where run: "create_dask_cluster sample_gateway tools_config (Some dask_ada) sample_create \<lparr>tr_world = 0, tr_events = []\<rparr> = (res, s')" by fastforce
  have "Called (creation tools_config dask_ada sample_options) (Inr named_response) \<in> set (tr_events s')" using sample_created(1) run by simp
  from created_told [OF gateway_steady _ run this] sample_created(2) run show ?thesis by auto
qed

theorem dask_calls_guarded_witness:
  "\<exists>res s'. scale_dask_cluster sample_gateway tools_config (Some dask_ada) ''cms.1f'' 10 \<lparr>tr_world = 0, tr_events = []\<rparr> = (res, s')
     \<and> length (tr_events s') = 1 \<and> events_lawful (dask_guarded tools_config dask_ada {''cms.1f''}) (tr_events s')"
proof -
  obtain res s' where run: "scale_dask_cluster sample_gateway tools_config (Some dask_ada) ''cms.1f'' 10 \<lparr>tr_world = 0, tr_events = []\<rparr> = (res, s')" by fastforce
  have "length (tr_events (snd (scale_dask_cluster sample_gateway tools_config (Some dask_ada) ''cms.1f'' 10 \<lparr>tr_world = 0, tr_events = []\<rparr>))) = 1"
    by code_simp
  with dask_calls_guarded [of "scale_dask_cluster sample_gateway tools_config (Some dask_ada) ''cms.1f'' 10" "{''cms.1f''}" sample_gateway tools_config dask_ada
      sample_create "''cms.1f''" 10, OF _ _ run] run show ?thesis by auto
qed

text \<open>
  What the check of a name lets through: no separator of a path, a query or a fragment, but also \<open>..\<close> and a line break at the end,
  which are no names that the gateway gives.
\<close>

lemma plain_cluster_name:
  assumes "cluster_name_re name" "ch \<in> set name"
  shows "is_cluster_char ch \<or> ch = newline"
proof (cases "suffix [newline] name")
  case True
  then obtain pre where "name = pre @ [newline]" by (auto simp: suffix_def)
  then show ?thesis using assms by (auto simp: cluster_name_re_def list_all_iff)
qed (use assms in \<open>auto simp: cluster_name_re_def list_all_iff\<close>)

lemma odd_names_pass: "cluster_name_re ''..'' \<and> cluster_name_re (''a'' @ [newline])"
  by code_simp

end
