(* ===== verification/Dask_Views.thy ===== *)
theory Dask_Views
  imports Tool_Dask
begin

text \<open>
  The Dask tools that only read (\<open>src/docker/agentic-interface/tools/dask.py\<close>): lists, one cluster, its workers as Prometheus
  counts them and what they use. Arithmetic on floats is exact, with the infinities and NaN of IEEE.
\<close>

subsection \<open>Lists\<close>

definition parse_clusters :: "json \<Rightarrow> (string, json) dict list" where
  "parse_clusters payload = List.map_filter (\<lambda>j. case j of JObj d \<Rightarrow> Some d | _ \<Rightarrow> None)
     (case payload of JObj d \<Rightarrow> map snd d | JList l \<Rightarrow> l | _ \<Rightarrow> [])"

definition count_of_workers :: "json \<Rightarrow> exn + int" where
  "count_of_workers workers = (case workers of JObj d \<Rightarrow> Inr (int (length d)) | _ \<Rightarrow> as_int (or_else workers (JNum 0)))"

definition fmt_cluster :: "tool_config \<Rightarrow> (string, json) dict \<Rightarrow> exn + string" where
  "fmt_cluster cf c = bind_sum (count_of_workers (or_else (dict_get c ''workers'' JNull) (JObj []))) (\<lambda>n_workers.
     bind_sum (case dict_get c ''adaptive'' JNull of
         JObj d \<Rightarrow> Inr (if d \<noteq> [] then ''  adaptive('' @ shown_json cf (dict_get d ''minimum'' (JStr ''?'')) @ ''-''
             @ shown_json cf (dict_get d ''maximum'' (JStr ''?'')) @ '')'' else ''  workers='' @ show_int n_workers)
       | j \<Rightarrow> if truthy j then Inl ''AttributeError'' else Inr (''  workers='' @ show_int n_workers)) (\<lambda>scale_info.
     let scheduler = dict_get c ''scheduler_address'' (JStr []) in
     Inr (join_with newline ([''**'' @ shown_json cf (dict_get c ''name'' (JStr ''?'')) @ ''**  status='' @ shown_json cf (dict_get c ''status'' (JStr ''?'')) @ scale_info]
       @ (if truthy scheduler then [''  scheduler: '' @ shown_json cf scheduler] else [])))))"

definition list_dask_clusters :: "'w backends \<Rightarrow> tool_config \<Rightarrow> af_user option \<Rightarrow> ('w, string) tool" where
  "list_dask_clusters bk cf u = bindm (dask_call bk cf u ''GET'' ''/api/v1/clusters/'' ''list clusters'' None [200] 10 None) (\<lambda>r.
     if (case json_body r of JObj d \<Rightarrow> False | JList l \<Rightarrow> False | _ \<Rightarrow> True) then raise (malformed_response DASK r ''a cluster list'')
     else let clusters = parse_clusters (json_body r) in
       if clusters = [] then ret ''No running Dask clusters.''
       else bindm (py (each_text (fmt_cluster cf) clusters)) (\<lambda>texts.
         ret (''# '' @ show_nat (length clusters) @ '' Dask cluster(s)'' @ newline # join_str [newline, newline] texts)))"

definition option_lines :: "tool_config \<Rightarrow> json \<Rightarrow> exn + string" where
  "option_lines cf field = bind_sum (jget field ''field'') (\<lambda>_. case field of JObj d \<Rightarrow>
       let name = dict_get d ''field'' (JStr ''?''); label = dict_get d ''label'' name;
           spec = or_else (dict_get d ''spec'' JNull) (JObj []) in
       Inr (join_with newline [''- '' @ shown_json cf name @ '': '' @ shown_json cf label,
         ''    default='' @ tc_repr cf (dict_get d ''default'' JNull) @ ''  type='' @ shown_json cf spec])
     | _ \<Rightarrow> Inl ''AttributeError'')"

definition list_dask_cluster_options :: "'w backends \<Rightarrow> tool_config \<Rightarrow> af_user option \<Rightarrow> ('w, string) tool" where
  "list_dask_cluster_options bk cf u = bindm (dask_call bk cf u ''GET'' ''/api/v1/options'' ''list cluster options'' None [200] 10 None) (\<lambda>r.
     case json_body r of JObj d \<Rightarrow>
       bindm (py (bind_sum (elements (or_else (dict_get d ''cluster_options'' JNull) (JList []))) (each_text (option_lines cf)))) (\<lambda>texts.
         ret (join_with newline ([''# Dask cluster options'', ''Pass these as arguments to create_dask_cluster.'', []] @ texts
           @ [[], ''Notes:'', ''  * Provide exactly one of pixi_project or conda_env.''])))
     | _ \<Rightarrow> raise (malformed_response DASK r ''a cluster-options document''))"

subsection \<open>One cluster\<close>

definition worker_line :: "tool_config \<Rightarrow> string \<times> json \<Rightarrow> string" where
  "worker_line cf = (\<lambda>(name, info). ''  '' @ name @ '': '' @ (case info of JObj d \<Rightarrow> shown_json cf (dict_get d ''status'' (JStr ''?'')) | _ \<Rightarrow> ''?''))"

definition worker_section :: "tool_config \<Rightarrow> json \<Rightarrow> string list" where
  "worker_section cf workers = (case workers of
     JObj (w # ws) \<Rightarrow> [''Workers ('' @ show_nat (length (w # ws)) @ ''):'' @ newline # join_with newline (map (worker_line cf) (first_of 20 (w # ws))
       @ (if int (length (w # ws)) > 20 then [''  ... '' @ show_int (int (length (w # ws)) - 20) @ '' more''] else []))]
   | _ \<Rightarrow> [])"

definition option_section :: "tool_config \<Rightarrow> json \<Rightarrow> exn + string list" where
  "option_section cf opts = (if \<not> truthy opts then Inr [] else case opts of
     JObj d \<Rightarrow> Inr [''Options:'' @ newline # join_with newline (map (\<lambda>(k, v). ''  '' @ k @ '': '' @ shown_json cf v) d)]
   | _ \<Rightarrow> Inl ''AttributeError'')"

definition get_dask_cluster_info :: "'w backends \<Rightarrow> tool_config \<Rightarrow> af_user option \<Rightarrow> string \<Rightarrow> ('w, string) tool" where
  "get_dask_cluster_info bk cf u name = bindm (validate_cluster_name cf name) (\<lambda>_.
     bindm (cluster_record bk cf u name (''inspect cluster '' @ squoted name)) (\<lambda>c.
     bindm (py (fmt_cluster cf c)) (\<lambda>head. bindm (py (option_section cf (dict_get c ''options'' (JObj [])))) (\<lambda>options.
     ret (join_str [newline, newline] ([head] @ options @ worker_section cf (or_else (dict_get c ''workers'' JNull) (JObj []))))))))"

subsection \<open>Its workers\<close>

definition float_int :: "pyfloat \<Rightarrow> exn + int" where
  "float_int v = (case v of Fin r \<Rightarrow> Inr (trunc r) | NaN \<Rightarrow> Inl ''ValueError'' | Infinite _ \<Rightarrow> Inl ''OverflowError'')"

definition float_text :: "pyfloat \<Rightarrow> exn + string" where
  "float_text v = bind_sum (float_int v) (\<lambda>n. Inr (show_int n))"

text \<open>\<open>m.get("state") or ""\<close>.\<close>

definition state_key :: "json \<Rightarrow> exn + string" where
  "state_key m = (case m of JObj d \<Rightarrow> as_text (or_else (dict_get d ''state'' JNull) (JStr [])) | _ \<Rightarrow> Inl ''AttributeError'')"

fun keyed :: "(json \<times> pyfloat) list \<Rightarrow> exn + (string \<times> pyfloat) list" where
  "keyed [] = Inr []"
| "keyed ((m, v) # rest) = bind_sum (state_key m) (\<lambda>k. bind_sum (keyed rest) (\<lambda>ks. Inr ((k, v) # ks)))"

definition state_parts :: "(json \<times> pyfloat) list \<Rightarrow> exn + string list" where
  "state_parts rows = bind_sum (keyed rows) (\<lambda>ks.
     each_text (\<lambda>(k, v). bind_sum (float_text v) (\<lambda>n. Inr (or_text k ''?'' @ ''='' @ n))) (filter (\<lambda>(k, v). v \<noteq> Fin 0) (sort_key fst ks)))"

definition scheduler_series :: "string \<Rightarrow> string \<Rightarrow> string \<Rightarrow> string" where
  "scheduler_series metric username name = metric @ ''{user='' @ quote # quote_label username @ [quote] @ '',pod='' @ quote # ''dask-scheduler-'' @ cluster_id name @ [quote] @ ''}''"

definition require_owned_cluster :: "'w backends \<Rightarrow> tool_config \<Rightarrow> af_user option \<Rightarrow> string \<Rightarrow> ('w, unit) tool" where
  "require_owned_cluster bk cf u name = bindm (cluster_record bk cf u name (''access cluster '' @ squoted name)) (\<lambda>_. ret ())"

definition first_problem :: "string option list \<Rightarrow> string option" where
  "first_problem ps = find (\<lambda>p. p \<noteq> []) (List.map_filter id ps)"

definition get_dask_worker_count :: "'w backends \<Rightarrow> tool_config \<Rightarrow> af_user option \<Rightarrow> string \<Rightarrow> ('w, string) tool" where
  "get_dask_worker_count bk cf u name = bindm (validate_cluster_name cf name) (\<lambda>_. bindm (require_user u) (\<lambda>c.
     bindm (require_owned_cluster bk cf u name) (\<lambda>_.
     bindm (prom_value bk ''prometheus'' (tc_prometheus cf) (''sum('' @ scheduler_series ''dask_scheduler_workers'' (cl_username c) name @ '')'')) (\<lambda>(n, p1).
     bindm (prom_samples bk ''prometheus'' (tc_prometheus cf) (''sum by (state) ('' @ scheduler_series ''dask_scheduler_workers'' (cl_username c) name @ '')'')) (\<lambda>(by_state, p2).
     bindm (prom_value bk ''prometheus'' (tc_prometheus cf) (''sum('' @ scheduler_series ''dask_scheduler_desired_workers'' (cl_username c) name @ '')'')) (\<lambda>(desired, p3).
     case first_problem [p1, p2, p3] of
       Some problem \<Rightarrow> raise (Failed UpstreamError (''Error: could not read worker metrics for '' @ squoted name @ '' - Prometheus '' @ problem
         @ ''. The cluster itself may be fine: get_dask_cluster_info shows the gateway's own view of its workers.''))
     | None \<Rightarrow> (case n of
         None \<Rightarrow> ret (''No worker metrics for cluster '' @ squoted name @ '' (scheduler may still be starting, or metrics are stale).'')
       | Some v \<Rightarrow> bindm (py (float_text v)) (\<lambda>count.
           bindm (py (case desired of None \<Rightarrow> Inr [] | Some w \<Rightarrow> bind_sum (float_text w) (\<lambda>k. Inr [''desired: '' @ k]))) (\<lambda>wanted.
           bindm (py (state_parts by_state)) (\<lambda>parts.
           ret (join_with newline ([''# Workers for '' @ name, ''total: '' @ count] @ wanted
             @ (if parts \<noteq> [] then [''by state: '' @ join_str '', '' parts] else [])))))))))))))"

subsection \<open>What they use\<close>

text \<open>\<open>a < b\<close>, \<open>a + b\<close> and \<open>a / b\<close> for a positive \<open>b\<close>, on floats.\<close>

fun float_less :: "pyfloat \<Rightarrow> pyfloat \<Rightarrow> bool" where
  "float_less (Fin a) (Fin b) = (a < b)"
| "float_less (Infinite neg) (Fin b) = neg"
| "float_less (Fin a) (Infinite neg) = (\<not> neg)"
| "float_less (Infinite a) (Infinite b) = (a \<and> \<not> b)"
| "float_less _ _ = False"

fun float_add :: "pyfloat \<Rightarrow> pyfloat \<Rightarrow> pyfloat" where
  "float_add (Fin a) (Fin b) = Fin (a + b)"
| "float_add (Infinite neg) (Fin b) = Infinite neg"
| "float_add (Fin a) (Infinite neg) = Infinite neg"
| "float_add (Infinite a) (Infinite b) = (if a = b then Infinite a else NaN)"
| "float_add _ _ = NaN"

fun float_over :: "pyfloat \<Rightarrow> rat \<Rightarrow> pyfloat" where
  "float_over (Fin a) d = Fin (a / d)"
| "float_over v d = v"

definition float_sum :: "pyfloat list \<Rightarrow> pyfloat" where
  "float_sum vs = foldl float_add (Fin 0) vs"

definition float_min :: "pyfloat list \<Rightarrow> pyfloat" where
  "float_min vs = foldl (\<lambda>m v. if float_less v m then v else m) (hd vs) (tl vs)"

definition float_max :: "pyfloat list \<Rightarrow> pyfloat" where
  "float_max vs = foldl (\<lambda>m v. if float_less m v then v else m) (hd vs) (tl vs)"

definition stats :: "pyfloat list \<Rightarrow> (pyfloat \<times> pyfloat \<times> pyfloat) option" where
  "stats vs = (if vs = [] then None else Some (float_min vs, float_max vs, float_over (float_sum vs) (of_nat (length vs))))"

definition worker_re :: "string \<Rightarrow> string" where
  "worker_re name = ''dask-worker-'' @ re_escape (cluster_id name) @ ''-.+''"

definition label_is :: "string \<Rightarrow> string \<Rightarrow> string \<Rightarrow> string" where
  "label_is k operator v = k @ operator @ quote # v @ [quote]"

definition usage_query :: "tool_config \<Rightarrow> string \<Rightarrow> string \<Rightarrow> string \<Rightarrow> string" where
  "usage_query cf name opening closing =
     (let own = label_is ''namespace'' ''='' (tc_namespace cf) @ '',''; pods = label_is ''pod'' ''=~'' (worker_re name) in
      ''sum by (pod) ('' @ opening @ ''{'' @ own @ pods @ '','' @ label_is ''container'' ''='' ''dask-worker'' @ ''}'' @ closing
      @ '' * on(namespace,pod) group_left kube_pod_status_phase{'' @ own @ label_is ''phase'' ''='' ''Running'' @ '','' @ pods @ ''})'')"

definition usage_lines :: "tool_config \<Rightarrow> string \<Rightarrow> string \<Rightarrow> rat \<Rightarrow> pyfloat list \<Rightarrow> string list" where
  "usage_lines cf title spec unit vs = (case stats vs of
     None \<Rightarrow> [title @ '': no data'']
   | Some (least, most, mean) \<Rightarrow> let shown = (\<lambda>v. tc_format cf spec (float_over v unit)) in
       [title @ '':'', ''  min='' @ shown least @ ''  max='' @ shown most @ ''  avg='' @ shown mean @ ''  total='' @ shown (float_sum vs)])"

definition get_dask_cluster_usage :: "'w backends \<Rightarrow> tool_config \<Rightarrow> af_user option \<Rightarrow> string \<Rightarrow> ('w, string) tool" where
  "get_dask_cluster_usage bk cf u name = bindm (validate_cluster_name cf name) (\<lambda>_. bindm (require_owned_cluster bk cf u name) (\<lambda>_.
     bindm (prom_samples bk ''cluster-prometheus'' (tc_cluster_prometheus cf) (usage_query cf name ''rate(container_cpu_usage_seconds_total'' ''[2m])'')) (\<lambda>(cpu_rows, p1).
     bindm (prom_samples bk ''cluster-prometheus'' (tc_cluster_prometheus cf) (usage_query cf name ''container_memory_working_set_bytes'' [])) (\<lambda>(mem_rows, p2).
     case first_problem [p1, p2] of
       Some problem \<Rightarrow> raise (Failed UpstreamError (''Error: could not read resource usage for '' @ squoted name @ '' - the monitoring system '' @ problem
         @ ''. The cluster itself may be fine: get_dask_worker_count and get_dask_cluster_info do not depend on this data.''))
     | None \<Rightarrow> let n = max (length cpu_rows) (length mem_rows) in
         if n = 0 then ret (''No Running worker pods with usage metrics for '' @ squoted name @ ''. The cluster may have zero workers, or metrics are not scraped yet.'')
         else ret (join_with newline ([''# Resource usage for '' @ name, ''running workers sampled: '' @ show_nat n]
           @ usage_lines cf ''CPU (cores)'' ''.3f'' 1 (map snd cpu_rows) @ usage_lines cf ''Memory (GiB)'' ''.2f'' (1024 ^ 3) (map snd mem_rows)))))))"

subsection \<open>Metrics only of a cluster that the gateway shows the caller\<close>

text \<open>
  Neither Prometheus knows the caller, so the gateway is asked first: a query follows a record of that cluster, given
  to the caller's own token with status 200.
\<close>

definition shown_to_caller :: "tool_config \<Rightarrow> af_user \<Rightarrow> string \<Rightarrow> tool_event list \<Rightarrow> bool" where
  "shown_to_caller cf c name es \<longleftrightarrow>
     (\<exists>r. Called (dask_request cf c ''GET'' (cluster_path name) 10 None) (Inr r) \<in> set es \<and> rs_status r = 200)"

fun view_guarded :: "tool_config \<Rightarrow> af_user \<Rightarrow> string \<Rightarrow> tool_event \<Rightarrow> tool_event list \<Rightarrow> bool" where
  "view_guarded cf c name (Called q a) es =
     (cluster_name_re name \<and> (q = dask_request cf c ''GET'' (cluster_path name) 10 None
        \<or> (\<exists>client base_url query. q = instant_query client base_url query 8 \<and> shown_to_caller cf c name es)))"
| "view_guarded cf c name _ es = True"

abbreviation viewing :: "tool_config \<Rightarrow> af_user \<Rightarrow> string \<Rightarrow> 'w tool_run \<Rightarrow> bool" where
  "viewing cf c name s \<equiv> events_lawful (view_guarded cf c name) (tr_events s) \<and> shown_to_caller cf c name (tr_events s)"

lemma viewing_prom_query:
  assumes "cluster_name_re name"
  shows "preserves (viewing cf c name) (prom_query bk client base_url query 8)"
  unfolding prom_query_def tool_send_def
  by (intro pres_intros preserves_world_step) (auto simp: assms shown_to_caller_def)

lemma wp_require_owned_cluster:
  assumes "cluster_name_re name" "tr_events s = []"
  shows "wp (require_owned_cluster bk cf (Some c) name) (\<lambda>_ t. viewing cf c name t)
    (\<lambda>e t. events_lawful (view_guarded cf c name) (tr_events t)) s"
  unfolding require_owned_cluster_def cluster_record_def wp_bindm wp_dask_call wp_ret
  using assms by (auto simp: Let_def wp_simps shown_to_caller_def split: prod.split sum.split json.split)

lemma viewing_after:
  assumes "cluster_name_re name" "tr_events s = []" "\<And>x. preserves (viewing cf c name) (g x)"
  shows "events_lawful (view_guarded cf c name) (tr_events (snd (bindm (require_owned_cluster bk cf (Some c) name) g s)))"
proof (cases "require_owned_cluster bk cf (Some c) name s")
  case (Pair x t)
  note owned = wpD [OF wp_require_owned_cluster [OF assms(1,2)]]
  show ?thesis
  proof (cases x)
    case (Inr a)
    then show ?thesis using owned(1) [of bk cf c a t] Pair preservesD [OF assms(3), of t a] by (simp add: bindm_def)
  qed (use owned(2) Pair in \<open>simp add: bindm_def\<close>)
qed

lemma viewing_queries:
  assumes "cluster_name_re name"
  shows "preserves (viewing cf c name) (prom_value bk client base_url query)" "preserves (viewing cf c name) (prom_samples bk client base_url query)"
  unfolding prom_value_def prom_samples_def by (intro pres_intros viewing_prom_query [OF assms])+

theorem metrics_of_own_cluster:
  assumes "tr_events s = []"
  shows "events_lawful (view_guarded cf c name) (tr_events (snd (get_dask_worker_count bk cf (Some c) name s)))" (is ?workers)
    and "events_lawful (view_guarded cf c name) (tr_events (snd (get_dask_cluster_usage bk cf (Some c) name s)))" (is ?usage)
proof -
  have refused: "\<not> cluster_name_re name \<Longrightarrow> tr_events (snd (bindm (validate_cluster_name cf name) g s)) = []" for g :: "unit \<Rightarrow> ('a, string) tool"
    using assms by (simp add: validate_cluster_name_def bindm_def raise_def)
  have named: "cluster_name_re name \<Longrightarrow> bindm (validate_cluster_name cf name) g = g ()" for g :: "unit \<Rightarrow> ('a, string) tool"
    by (simp add: validate_cluster_name_def bindm_ret)
  show ?workers
  proof (cases "cluster_name_re name")
    case True
    show ?thesis
      unfolding get_dask_worker_count_def named [OF True] require_user_def option.case bindm_ret
      by (intro viewing_after [OF True assms] pres_intros viewing_queries [OF True])
  qed (simp add: get_dask_worker_count_def refused)
  show ?usage
  proof (cases "cluster_name_re name")
    case True
    show ?thesis
      unfolding get_dask_cluster_usage_def named [OF True] Let_def
      by (intro viewing_after [OF True assms] pres_intros viewing_queries [OF True])
  qed (simp add: get_dask_cluster_usage_def refused)
qed

text \<open>The mean that is shown lies between the least and the greatest, whatever finite values there are.\<close>

lemma foldl_min_max:
  "foldl (\<lambda>m v. if float_less v m then v else m) (Fin a) (map Fin vs) = Fin (Min (set (a # vs)))"
  "foldl (\<lambda>m v. if float_less m v then v else m) (Fin a) (map Fin vs) = Fin (Max (set (a # vs)))"
proof -
  have "foldl (\<lambda>m v. if float_less v m then v else m) (Fin a) (map Fin vs) = Fin (fold min vs a)"
    by (induction vs arbitrary: a) (simp_all add: min_def)
  then show "foldl (\<lambda>m v. if float_less v m then v else m) (Fin a) (map Fin vs) = Fin (Min (set (a # vs)))"
    by (simp only: Min.set_eq_fold)
  have "foldl (\<lambda>m v. if float_less m v then v else m) (Fin a) (map Fin vs) = Fin (fold max vs a)"
  proof (induction vs arbitrary: a)
    case (Cons v vs)
    show ?case using Cons [of v] Cons [of a] by (cases "a < v") (simp_all add: max_def)
  qed simp
  then show "foldl (\<lambda>m v. if float_less m v then v else m) (Fin a) (map Fin vs) = Fin (Max (set (a # vs)))"
    by (simp only: Max.set_eq_fold)
qed

lemma float_sum_Fin: "foldl float_add (Fin a) (map Fin vs) = Fin (a + sum_list vs)"
  by (induction vs arbitrary: a) (simp_all add: algebra_simps)

lemma stats_exact:
  assumes "vs \<noteq> []"
  shows "stats (map Fin vs) = Some (Fin (Min (set vs)), Fin (Max (set vs)), Fin (sum_list vs / of_nat (length vs)))"
proof -
  obtain a ws where "vs = a # ws" using assms by (cases vs) auto
  then show ?thesis
    using foldl_min_max [of a ws] float_sum_Fin [of 0 vs] by (auto simp: stats_def float_min_def float_max_def float_sum_def)
qed

lemma mean_between:
  fixes vs :: "rat list"
  assumes "vs \<noteq> []"
  shows "Min (set vs) \<le> sum_list vs / of_nat (length vs)" "sum_list vs / of_nat (length vs) \<le> Max (set vs)"
proof -
  have "of_nat (length vs) * Min (set vs) \<le> sum_list vs" "sum_list vs \<le> of_nat (length vs) * Max (set vs)"
    using sum_list_mono [of vs "\<lambda>_. Min (set vs)" "\<lambda>v. v"] sum_list_mono [of vs "\<lambda>v. v" "\<lambda>_. Max (set vs)"] by (simp_all add: sum_list_triv)
  moreover have "(0 :: rat) < of_nat (length vs)" using assms by simp
  ultimately show "Min (set vs) \<le> sum_list vs / of_nat (length vs)" "sum_list vs / of_nat (length vs) \<le> Max (set vs)"
    by (simp_all add: pos_le_divide_eq pos_divide_le_eq mult.commute)
qed

end
