(* ===== verification/Tool_Ray.thy ===== *)
theory Tool_Ray
  imports Tool_Http Gateway_Settings
begin

text \<open>
  The Ray tools of the agentic interface (\<open>src/docker/agentic-interface/tools/ray.py\<close>): capacity, jobs and the user's own cluster, over
  the Ray gateway, which is another program (\<open>Gateway_Settings\<close> and on). What these tools write is what that one reads: the
  headers of a submission are settings it knows, and it takes from them what the caller asked for.
\<close>

definition RAY :: string where "RAY = ''the Ray gateway''"
definition ENDED :: "string set" where "ENDED = {''SUCCEEDED'', ''FAILED'', ''STOPPED''}"
definition MAX_CODE_BYTES :: int where "MAX_CODE_BYTES = 10 * 2 ^ 20"
definition MAX_LOG_CHARS :: int where "MAX_LOG_CHARS = 20000"
definition SUBMIT_TIMEOUT :: time where "SUBMIT_TIMEOUT = 300"

subsection \<open>Asking the gateway\<close>

definition ray_http_failure :: "tool_response \<Rightarrow> string \<Rightarrow> tool_exn" where
  "ray_http_failure r action = (let code = rs_status r; detail = rstrip_of {CHR ''.''} (or_text (response_detail 500 r) ''no reason given'') in
     if code \<in> {401, 403} then Failed AuthError (''Error: not authorised to '' @ action @ '' - '' @ detail @ ''.'')
     else if code = 429 then Failed UserError (''Error: could not '' @ action @ '' - '' @ detail @ ''. get_ray_capacity shows what is free now.'')
     else if 400 \<le> code \<and> code < 500 then Failed UserError (''Error: could not '' @ action @ '' - '' @ detail @ ''.'')
     else if code = 503 then Failed UpstreamError (''Error: could not '' @ action @ '' - '' @ detail @ ''.'')
     else http_error RAY r action [])"

record ray_call_options =
  ro_headers :: "(string, string) dict"
  ro_params :: "(string, string) dict"
  ro_json :: "json option"
  ro_content :: "string option"
  ro_timeout :: time

definition plain_call :: ray_call_options where
  "plain_call = \<lparr>ro_headers = [], ro_params = [], ro_json = None, ro_content = None, ro_timeout = 30\<rparr>"

definition ray_request :: "tool_config \<Rightarrow> af_user \<Rightarrow> string \<Rightarrow> string \<Rightarrow> ray_call_options \<Rightarrow> tool_request" where
  "ray_request cf c http_method path ro = \<lparr>rq_client = ''ray-gateway'', rq_method = http_method, rq_url = tc_ray_gateway cf @ path,
     rq_auth = ''Bearer '' @ cl_token c, rq_params = ro_params ro, rq_extra = ro_headers ro, rq_json = ro_json ro, rq_content = ro_content ro,
     rq_timeout = ro_timeout ro\<rparr>"

definition is_success :: "tool_response \<Rightarrow> bool" where
  "is_success r \<longleftrightarrow> 200 \<le> rs_status r \<and> rs_status r \<le> 299"

definition ray_call :: "'w backends \<Rightarrow> tool_config \<Rightarrow> af_user option \<Rightarrow> string \<Rightarrow> string \<Rightarrow> string \<Rightarrow> ray_call_options \<Rightarrow> ('w, tool_response) tool" where
  "ray_call bk cf u http_method path action ro = bindm (require_user u) (\<lambda>c.
     bindm (tool_send bk (ray_request cf c http_method path ro)) (\<lambda>a. case a of
       Inl e \<Rightarrow> raise (unreachable RAY e [])
     | Inr r \<Rightarrow> if \<not> is_success r then raise (ray_http_failure r action) else ret r))"

text \<open>\<^verbatim>\<open>^[A-Za-z0-9_-]+$\<close>, whose end also stands before a line break that ends the text.\<close>

definition is_job_char :: "char \<Rightarrow> bool" where
  "is_job_char c \<longleftrightarrow> is_digit c \<or> is_lower_letter (lower_char c) \<and> of_char c < (128 :: nat) \<or> c \<in> {CHR ''_'', CHR ''-''}"

definition job_id_re :: "string \<Rightarrow> bool" where
  "job_id_re s = (let core = (if suffix [newline] s then butlast s else s) in core \<noteq> [] \<and> list_all is_job_char core)"

definition ray_job_path :: "tool_config \<Rightarrow> string \<Rightarrow> ('w, string) tool" where
  "ray_job_path cf job_id = (if job_id_re job_id then ret (''/api/jobs/'' @ job_id)
     else raise (Failed UserError (''Error: invalid job ID '' @ tc_repr cf (JStr job_id) @ '' - use an ID list_ray_jobs returns.'')))"

subsection \<open>What a job is sent with\<close>

text \<open>\<open>_package\<close>: the members of the archive by their normalized paths, in the order of the names as given.\<close>

fun package_members :: "tool_config \<Rightarrow> (string \<times> string) list \<Rightarrow> tool_exn + (string \<times> string) list" where
  "package_members cf [] = Inr []"
| "package_members cf ((name, body) # rest) = (let path = normpath name in
     if prefix ''/'' name \<or> path = ''..'' \<or> prefix ''../'' path then Inl (Failed UserError (''Error: '' @ tc_repr cf (JStr name)
       @ '' in files is not a path inside the job's directory: use a relative path.''))
     else bind_sum (package_members cf rest) (\<lambda>ms. Inr ((path, body) # ms)))"

definition package :: "tool_config \<Rightarrow> (string, string) dict \<Rightarrow> tool_exn + (string \<times> string)" where
  "package cf files = bind_sum (package_members cf (sort_key fst files)) (\<lambda>members. let data = tc_zip cf members in
     if int (length data) > MAX_CODE_BYTES then Inl (Failed UserError (''Error: files come to '' @ tc_format cf ''.1f'' (Fin (of_nat (length data) / 2 ^ 20))
       @ '' MiB compressed, over the '' @ show_int (MAX_CODE_BYTES div 2 ^ 20)
       @ '' MiB limit. Keep data out of them: name it with inputs, or read it from /work at Purdue.''))
     else Inr (''_ray_pkg_'' @ take 16 (tc_sha256 cf data) @ ''.zip'', data))"

text \<open>\<open>_settings\<close>, of values that are strings already: each that is given.\<close>

definition ray_settings :: "(string \<times> string option) list \<Rightarrow> (string, string) dict" where
  "ray_settings settings = List.map_filter (\<lambda>(name, v). case v of None \<Rightarrow> None
     | Some s \<Rightarrow> Some (''af-'' @ map (\<lambda>c. if c = CHR ''_'' then CHR ''-'' else c) name, s)) settings"

text \<open>\<open>str\<close> of a float, which is how it is formatted with no specification.\<close>

definition float_str :: "tool_config \<Rightarrow> rat \<Rightarrow> string" where
  "float_str cf x = tc_format cf [] (Fin x)"

subsection \<open>What is shown\<close>

definition fmt_job :: "tool_config \<Rightarrow> json \<Rightarrow> exn + string" where
  "fmt_job cf job = (case job of JObj d \<Rightarrow> Inr (join_with newline ([''**'' @ shown_json cf (dict_get d ''submission_id'' JNull) @ ''**  status='' @ shown_json cf (dict_get d ''status'' JNull)]
       @ List.map_filter (\<lambda>key. if truthy (dict_get d key JNull) then Some (''  '' @ key @ '': '' @ shown_json cf (dict_get d key JNull)) else None) [''entrypoint'', ''message'']))
     | _ \<Rightarrow> Inl ''AttributeError'')"

text \<open>\<open>f"{x:g}"\<close>, and \<open>x >= n\<close>.\<close>

definition json_g :: "json \<Rightarrow> exn + string" where
  "json_g j = (case j of JNum r \<Rightarrow> Inr (fmt_g r) | JBool b \<Rightarrow> Inr (if b then ''1'' else ''0'')
     | JOdd f \<Rightarrow> Inr (if f = ''NaN'' then ''nan'' else if f = ''Infinity'' then ''inf'' else ''-inf'')
     | JStr _ \<Rightarrow> Inl ''ValueError'' | _ \<Rightarrow> Inl ''TypeError'')"

definition at_least :: "json \<Rightarrow> int \<Rightarrow> exn + bool" where
  "at_least j n = (case j of JNum r \<Rightarrow> Inr (of_int n \<le> r) | JBool b \<Rightarrow> Inr (n \<le> (if b then 1 else 0)) | JOdd f \<Rightarrow> Inr (f = ''Infinity'')
     | _ \<Rightarrow> Inl ''TypeError'')"

definition shown_item :: "tool_config \<Rightarrow> json \<Rightarrow> string \<Rightarrow> exn + string" where
  "shown_item cf j k = bind_sum (subscript j k) (\<lambda>v. Inr (shown_json cf v))"

definition item_g :: "json \<Rightarrow> string \<Rightarrow> exn + string" where
  "item_g j k = bind_sum (subscript j k) json_g"

definition fits_text :: "int \<Rightarrow> bool \<Rightarrow> string" where
  "fits_text n fits = ''  '' @ show_int n @ '' workers: '' @ (if fits then ''fit now'' else ''do not fit now'')"

definition fmt_kind :: "tool_config \<Rightarrow> json \<Rightarrow> exn + string" where
  "fmt_kind cf kind = bind_sum (item_g kind ''memory_gb'') (\<lambda>memory. bind_sum (shown_item cf kind ''workers_free'') (\<lambda>free.
     bind_sum (shown_item cf kind ''workers_preemptible'') (\<lambda>held.
     Inr (''  '' @ memory @ '' GB GPU: '' @ free @ '' free, '' @ held @ '' on GPUs other users' preemptible workers hold''))))"

definition fmt_purdue :: "tool_config \<Rightarrow> json \<Rightarrow> int option \<Rightarrow> exn + string list" where
  "fmt_purdue cf purdue workers = bind_sum (jget purdue ''known'') (\<lambda>known.
     if \<not> truthy known then bind_sum (jget purdue ''workers_most'') (\<lambda>most.
       Inr [''Purdue: free workers unknown now, the monitoring system does not answer. A job there has at most '' @ shown_json cf most @ '' workers.''])
     else bind_sum (shown_item cf purdue ''workers_free'') (\<lambda>free. bind_sum (shown_item cf purdue ''workers_most'') (\<lambda>most.
       bind_sum (bind_sum (subscript purdue ''kinds'') (\<lambda>kinds. bind_sum (elements kinds) (each_text (fmt_kind cf)))) (\<lambda>kinds.
       bind_sum (case workers of None \<Rightarrow> Inr [] | Some n \<Rightarrow> if n = 0 then Inr [] else
           bind_sum (subscript purdue ''workers_free'') (\<lambda>f. bind_sum (at_least f n) (\<lambda>fits. Inr [fits_text n fits @ ''.'']))) (\<lambda>fit.
       Inr ([''Purdue: '' @ free @ '' workers free now, of at most '' @ most @ '' for a job.''] @ kinds @ fit))))))"

text \<open>\<open>nrp["models"][:5]\<close>, and the models among them that have workers.\<close>

definition first_models :: "json \<Rightarrow> exn + json list" where
  "first_models models = (case models of JObj _ \<Rightarrow> Inl ''KeyError'' | _ \<Rightarrow> bind_sum (elements models) (\<lambda>ms. Inr (take 5 ms)))"

definition fmt_model :: "tool_config \<Rightarrow> json \<Rightarrow> exn + string list" where
  "fmt_model cf model = bind_sum (subscript model ''workers'') (\<lambda>n. if \<not> truthy n then Inr []
     else bind_sum (shown_item cf model ''model'') (\<lambda>name. Inr [''  '' @ shown_json cf n @ '' on '' @ name]))"

fun fmt_models :: "tool_config \<Rightarrow> json list \<Rightarrow> exn + string list" where
  "fmt_models cf [] = Inr []"
| "fmt_models cf (m # ms) = bind_sum (fmt_model cf m) (\<lambda>t. bind_sum (fmt_models cf ms) (\<lambda>ts. Inr (t @ ts)))"

definition nrp_fits :: "json \<Rightarrow> int option \<Rightarrow> exn + string list" where
  "nrp_fits nrp workers = (case workers of None \<Rightarrow> Inr [] | Some n \<Rightarrow> if n = 0 then Inr [] else
     bind_sum (subscript nrp ''workers_free'') (\<lambda>f. bind_sum (at_least f n) (\<lambda>fits.
     bind_sum (subscript nrp ''workers_most'') (\<lambda>m. bind_sum (at_least m n) (\<lambda>ever.
     Inr [fits_text n fits @ (if ever then ''.'' else '', and never would.'')])))))"

definition fmt_nrp :: "tool_config \<Rightarrow> json \<Rightarrow> int option \<Rightarrow> exn + string list" where
  "fmt_nrp cf nrp workers = (if nrp = JNull then Inr [''NRP: not for this shape, whose workers have one GPU each.'']
     else bind_sum (jget nrp ''known'') (\<lambda>known.
       if \<not> truthy known then Inr [''NRP: unknown now, its monitoring shows none of its GPU nodes.'']
       else bind_sum (subscript nrp ''worker'') (\<lambda>worker.
         bind_sum (shown_item cf nrp ''workers_free'') (\<lambda>free. bind_sum (shown_item cf nrp ''workers_most'') (\<lambda>most.
         bind_sum (shown_item cf worker ''gpus'') (\<lambda>gpus. bind_sum (item_g worker ''cpus'') (\<lambda>cpus. bind_sum (item_g worker ''memory_gb'') (\<lambda>memory.
         bind_sum (bind_sum (subscript nrp ''models'') (\<lambda>ms. bind_sum (first_models ms) (fmt_models cf))) (\<lambda>models.
         bind_sum (nrp_fits nrp workers) (\<lambda>fit.
         Inr ([''NRP: '' @ free @ '' workers free now for one job, of at most '' @ most @ '' once its nodes are empty; each has '' @ gpus
           @ '' GPU, '' @ cpus @ '' CPU cores and '' @ memory @ '' GB. A job's GPUs may be of several models, each with the GPU memory it asks for.'']
           @ models @ fit)))))))))))"

text \<open>\<open>x != 1\<close>; the call of a notebook that reaches the cluster, and the cluster.\<close>

definition not_one :: "json \<Rightarrow> bool" where
  "not_one j \<longleftrightarrow> j \<noteq> JNum 1 \<and> j \<noteq> JBool True"

definition connect :: "tool_config \<Rightarrow> json \<Rightarrow> exn + string" where
  "connect cf cluster = bind_sum (subscript cluster ''workers'') (\<lambda>workers. bind_sum (subscript cluster ''gpus_per_worker'') (\<lambda>gpus.
     bind_sum (subscript cluster ''environment'') (\<lambda>env.
     let settings = [(''af-max-workers'', workers)] @ (if not_one gpus then [(''af-gpus-per-worker'', gpus)] else [])
       @ (if truthy env then [(''af-env'', env)] else []) in
     Inr (''ray.init('' @ quote # ''ray://ray-train-gateway:10001'' @ [quote] @ '', _metadata=[''
       @ join_str '', '' (map (\<lambda>(k, v). ''('' @ quote # k @ [quote] @ '', '' @ quote # shown_json cf v @ [quote] @ '')'') settings) @ ''])''))))"

definition fmt_ray_cluster :: "tool_config \<Rightarrow> json \<Rightarrow> exn + string" where
  "fmt_ray_cluster cf cluster =
     bind_sum (shown_item cf cluster ''name'') (\<lambda>name. bind_sum (shown_item cf cluster ''ready'') (\<lambda>ready. bind_sum (shown_item cf cluster ''busy'') (\<lambda>working.
     bind_sum (shown_item cf cluster ''workers_ready'') (\<lambda>up. bind_sum (shown_item cf cluster ''workers'') (\<lambda>workers.
     bind_sum (shown_item cf cluster ''gpus_per_worker'') (\<lambda>gpus. bind_sum (item_g cluster ''min_gpu_memory_gb'') (\<lambda>memory.
     bind_sum (shown_item cf cluster ''cpus_per_worker'') (\<lambda>cpus. bind_sum (shown_item cf cluster ''ram_per_worker_gb'') (\<lambda>ram.
     bind_sum (subscript cluster ''environment'') (\<lambda>env. bind_sum (connect cf cluster) (\<lambda>call.
     Inr (join_with newline [''**'' @ name @ ''**  ready='' @ ready @ ''  busy='' @ working,
       ''  workers: '' @ up @ '' ready of '' @ workers @ '', '' @ gpus @ '' GPU(s) of '' @ memory @ '' GB or more, '' @ cpus @ '' CPU cores and '' @ ram @ '' GB each'',
       ''  environment: '' @ shown_json cf (or_else env (JStr ''the global environment'')), [],
       ''From a notebook of a session without a GPU:'', ''  '' @ call, ''A cluster is removed once idle, with its GPUs.'']))))))))))))"

definition cluster_body :: "tool_response \<Rightarrow> tool_exn + json" where
  "cluster_body r = (case json_body r of JObj d \<Rightarrow> if map_of d ''exists'' = None then Inl (malformed_response RAY r ''a Ray cluster'') else Inr (JObj d)
     | _ \<Rightarrow> Inl (malformed_response RAY r ''a Ray cluster''))"

subsection \<open>The tools\<close>

definition get_ray_capacity :: "'w backends \<Rightarrow> tool_config \<Rightarrow> af_user option \<Rightarrow> rat option \<Rightarrow> int \<Rightarrow> int option \<Rightarrow> ('w, string) tool" where
  "get_ray_capacity bk cf u min_gpu_memory_gb gpus_per_worker workers =
     (let params = ray_settings [(''min_gpu_memory_gb'', map_option (float_str cf) min_gpu_memory_gb), (''gpus_per_worker'', Some (show_int gpus_per_worker))] in
      bindm (ray_call bk cf u ''GET'' ''/af/capacity'' ''read Ray capacity'' (plain_call\<lparr>ro_params := params\<rparr>)) (\<lambda>r.
      case json_body r of JObj d \<Rightarrow> (case map_of d ''purdue'' of None \<Rightarrow> raise (malformed_response RAY r ''Ray capacity'')
        | Some purdue \<Rightarrow> bindm (py (fmt_purdue cf purdue workers)) (\<lambda>p. bindm (py (fmt_nrp cf (dict_get d ''nrp'' JNull) workers)) (\<lambda>n.
            ret (join_with newline (p @ n @ [[], ''Next: submit_ray_job, with workers and site from the above. Free counts are a moment's reading: a submission is judged when it arrives.''])))))
      | _ \<Rightarrow> raise (malformed_response RAY r ''Ray capacity'')))"

record ray_job_call =
  rj_entrypoint :: string
  rj_site :: string
  rj_files :: "(string, string) dict"
  rj_workers :: int
  rj_exact_workers :: bool
  rj_entrypoint_gpus :: int
  rj_min_gpu_memory_gb :: "rat option"
  rj_gpus_per_worker :: "int option"
  rj_cpus_per_worker :: "int option"
  rj_ram_per_worker_gb :: "int option"
  rj_environment :: "string option"
  rj_inputs :: "string option"
  rj_output :: "string option"
  rj_pip :: "string list"
  rj_env_vars :: "(string, string) dict"

text \<open>The settings that a cluster and a job share, and those of a job.\<close>

definition shape_settings :: "tool_config \<Rightarrow> ray_job_call \<Rightarrow> (string \<times> string option) list" where
  "shape_settings cf q = [(''min_gpu_memory_gb'', map_option (float_str cf) (rj_min_gpu_memory_gb q)), (''gpus_per_worker'', map_option show_int (rj_gpus_per_worker q)),
     (''cpus_per_worker'', map_option show_int (rj_cpus_per_worker q)), (''ram_per_worker_gb'', map_option show_int (rj_ram_per_worker_gb q)), (''env'', rj_environment q)]"

definition count_setting :: "ray_job_call \<Rightarrow> string \<times> string option" where
  "count_setting q = (if rj_exact_workers q then ''n_workers'' else ''max_workers'', Some (show_int (rj_workers q)))"

definition job_headers :: "tool_config \<Rightarrow> ray_job_call \<Rightarrow> (string, string) dict" where
  "job_headers cf q = ray_settings ([(''site'', Some (rj_site q))] @ shape_settings cf q @ [(''inputs'', rj_inputs q), (''output'', rj_output q), count_setting q])"

definition runtime_env :: "ray_job_call \<Rightarrow> string option \<Rightarrow> (string, json) dict" where
  "runtime_env q name = (case name of None \<Rightarrow> [] | Some n \<Rightarrow> [(''working_dir'', JStr (''gcs://'' @ n))])
     @ (if rj_pip q \<noteq> [] then [(''pip'', JList (map JStr (rj_pip q)))] else [])
     @ (if rj_env_vars q \<noteq> [] then [(''env_vars'', JObj (map (\<lambda>(k, v). (k, JStr v)) (rj_env_vars q)))] else [])"

definition job_submission :: "ray_job_call \<Rightarrow> string option \<Rightarrow> json" where
  "job_submission q name = JObj ([(''entrypoint'', JStr (rj_entrypoint q)), (''runtime_env'', JObj (runtime_env q name))]
     @ (if rj_entrypoint_gpus q \<noteq> 0 then [(''entrypoint_num_gpus'', JNum (of_int (rj_entrypoint_gpus q)))] else []))"

definition package_path :: "string \<Rightarrow> string" where
  "package_path name = ''/api/packages/gcs/'' @ name"

text \<open>The upload of the code, if there is any: the name of its package.\<close>

definition send_code :: "'w backends \<Rightarrow> tool_config \<Rightarrow> af_user option \<Rightarrow> ray_job_call \<Rightarrow> ('w, string option) tool" where
  "send_code bk cf u q = (if rj_files q = [] then ret None
     else bindm (of_sum (package cf (rj_files q))) (\<lambda>(name, data).
       bindm (ray_call bk cf u ''PUT'' (package_path name) ''upload the job's files''
         \<lparr>ro_headers = job_headers cf q, ro_params = [], ro_json = None, ro_content = Some data, ro_timeout = SUBMIT_TIMEOUT\<rparr>) (\<lambda>_. ret (Some name))))"

definition submit_ray_job :: "'w backends \<Rightarrow> tool_config \<Rightarrow> af_user option \<Rightarrow> ray_job_call \<Rightarrow> ('w, string) tool" where
  "submit_ray_job bk cf u q = bindm (send_code bk cf u q) (\<lambda>name.
     bindm (ray_call bk cf u ''POST'' ''/api/jobs/'' ''submit the job''
       \<lparr>ro_headers = job_headers cf q, ro_params = [], ro_json = Some (job_submission q name), ro_content = None, ro_timeout = SUBMIT_TIMEOUT\<rparr>) (\<lambda>r.
     let job_id = (case json_body r of JObj d \<Rightarrow> dict_get d ''submission_id'' JNull | _ \<Rightarrow> JNull) in
     if \<not> truthy job_id then raise (malformed_response RAY r ''a submitted job'')
     else ret (''Submitted job '' @ shown_json cf job_id @ '' at '' @ rj_site q @ ''. It can take '' @ (if rj_site q = ''nrp'' then ''up to half an hour'' else ''a minute or two'')
       @ '' to start.'' @ newline # ''Next: get_ray_job('' @ CHR 0x27 # shown_json cf job_id @ [CHR 0x27] @ '') for its status and log.'')))"

definition list_ray_jobs :: "'w backends \<Rightarrow> tool_config \<Rightarrow> af_user option \<Rightarrow> ('w, string) tool" where
  "list_ray_jobs bk cf u = bindm (ray_call bk cf u ''GET'' ''/api/jobs/'' ''list your Ray jobs'' plain_call) (\<lambda>r. case json_body r of
     JList [] \<Rightarrow> ret ''No Ray jobs.''
   | JList js \<Rightarrow> bindm (py (each_text (fmt_job cf) js)) (\<lambda>texts. ret (''# '' @ show_nat (length js) @ '' Ray job(s)'' @ newline # join_str [newline, newline] texts))
   | _ \<Rightarrow> raise (malformed_response RAY r ''a job list''))"

text \<open>\<open>s.splitlines()\<close>, with the line read so far in reverse; and \<open>xs[-n:]\<close> for any \<open>n\<close>.\<close>

definition line_breaks :: "char set" where
  "line_breaks = {newline, CHR 0x0B, CHR 0x0C, CHR 0x0D, CHR 0x1C, CHR 0x1D, CHR 0x1E, CHR 0x85}"

fun splitlines :: "string \<Rightarrow> string \<Rightarrow> string list" where
  "splitlines acc [] = (if acc = [] then [] else [rev acc])"
| "splitlines acc (c # cs) = (if c \<notin> line_breaks then splitlines (c # acc) cs
     else rev acc # (if c = CHR 0x0D \<and> cs \<noteq> [] \<and> hd cs = newline then splitlines [] (tl cs) else splitlines [] cs))"

definition from_last :: "int \<Rightarrow> 'a list \<Rightarrow> 'a list" where
  "from_last n xs = (if n > 0 then last_of n xs else drop (nat (- n)) xs)"

definition log_tail :: "int \<Rightarrow> string \<Rightarrow> string" where
  "log_tail log_lines logs = last_of MAX_LOG_CHARS (join_with newline (from_last log_lines (splitlines [] logs)))"

definition has_ended :: "json \<Rightarrow> exn + bool" where
  "has_ended state = (case state of JStr s \<Rightarrow> Inr (s \<in> ENDED) | JList _ \<Rightarrow> Inl ''TypeError'' | JObj _ \<Rightarrow> Inl ''TypeError'' | _ \<Rightarrow> Inr False)"

definition get_ray_job :: "'w backends \<Rightarrow> tool_config \<Rightarrow> af_user option \<Rightarrow> string \<Rightarrow> int \<Rightarrow> ('w, string) tool" where
  "get_ray_job bk cf u job_id log_lines = bindm (ray_job_path cf job_id) (\<lambda>path.
     bindm (ray_call bk cf u ''GET'' path (''read job '' @ job_id) plain_call) (\<lambda>r. case json_body r of
       JObj job \<Rightarrow> bindm (py (fmt_job cf (JObj job))) (\<lambda>report.
         if dict_get job ''status'' JNull = JStr ''PENDING'' then ret (report @ newline # newline # ''Next: ask again in a minute; it has no log yet.'')
         else bindm (ray_call bk cf u ''GET'' (path @ ''/logs'') (''read job '' @ job_id @ CHR 0x27 # ''s log'') plain_call) (\<lambda>r'.
           let tail = log_tail log_lines (case json_body r' of JObj d \<Rightarrow> shown_json cf (dict_get d ''logs'' (JStr [])) | _ \<Rightarrow> []);
               told = report @ (if tail \<noteq> [] then newline # newline # ''--- log ---'' @ newline # tail else newline # newline # ''Its log is empty.'') in
           bindm (py (has_ended (dict_get job ''status'' JNull))) (\<lambda>over.
           ret (told @ newline # newline # (if over then ''Next: delete_ray_job when its record is not needed.''
             else ''Next: ask again later, or stop_ray_job to end it.'')))))
     | _ \<Rightarrow> raise (malformed_response RAY r ''a job record'')))"

definition get_ray_cluster :: "'w backends \<Rightarrow> tool_config \<Rightarrow> af_user option \<Rightarrow> ('w, string) tool" where
  "get_ray_cluster bk cf u = bindm (ray_call bk cf u ''GET'' ''/af/cluster'' ''read your Ray cluster'' plain_call) (\<lambda>r.
     bindm (of_sum (cluster_body r)) (\<lambda>cluster. bindm (py (subscript cluster ''exists'')) (\<lambda>there.
     if \<not> truthy there then ret (''You have no Ray cluster.'' @ newline # ''Next: start_ray_cluster for interactive work, or submit_ray_job, which needs none.'')
     else py (fmt_ray_cluster cf cluster))))"

text \<open>\<open>start_ray_cluster\<close>, whose arguments are those of a job that it has as well.\<close>

definition cluster_headers :: "tool_config \<Rightarrow> ray_job_call \<Rightarrow> (string, string) dict" where
  "cluster_headers cf q = ray_settings (shape_settings cf q @ [count_setting q])"

definition start_ray_cluster :: "'w backends \<Rightarrow> tool_config \<Rightarrow> af_user option \<Rightarrow> ray_job_call \<Rightarrow> ('w, string) tool" where
  "start_ray_cluster bk cf u q = bindm (ray_call bk cf u ''POST'' ''/af/cluster'' ''start your Ray cluster''
       (plain_call\<lparr>ro_headers := cluster_headers cf q, ro_timeout := SUBMIT_TIMEOUT\<rparr>)) (\<lambda>r.
     bindm (of_sum (cluster_body r)) (\<lambda>cluster. bindm (py (fmt_ray_cluster cf cluster)) (\<lambda>text. ret (''Started.'' @ newline # text))))"

definition stop_ray_cluster :: "'w backends \<Rightarrow> tool_config \<Rightarrow> af_user option \<Rightarrow> bool \<Rightarrow> ('w, string) tool" where
  "stop_ray_cluster bk cf u force = bindm (ray_call bk cf u ''DELETE'' ''/af/cluster'' ''stop your Ray cluster''
       (plain_call\<lparr>ro_params := (if force then [(''force'', ''true'')] else [])\<rparr>)) (\<lambda>_.
     ret ''Stopping your Ray cluster. Notebooks connected to it must ray.init() again.'')"

definition stop_ray_job :: "'w backends \<Rightarrow> tool_config \<Rightarrow> af_user option \<Rightarrow> string \<Rightarrow> ('w, string) tool" where
  "stop_ray_job bk cf u job_id = bindm (ray_job_path cf job_id) (\<lambda>path.
     bindm (ray_call bk cf u ''POST'' (path @ ''/stop'') (''stop job '' @ job_id) plain_call) (\<lambda>_.
     ret (''Stopping job '' @ job_id @ ''.'' @ newline # ''Next: get_ray_job to see it end; on NRP its outputs are copied back first.'')))"

definition delete_ray_job :: "'w backends \<Rightarrow> tool_config \<Rightarrow> af_user option \<Rightarrow> string \<Rightarrow> ('w, string) tool" where
  "delete_ray_job bk cf u job_id = bindm (ray_job_path cf job_id) (\<lambda>path.
     bindm (ray_call bk cf u ''DELETE'' path (''delete job '' @ job_id) plain_call) (\<lambda>_. ret (''Deleted job '' @ job_id @ ''.'')))"

end
