(* ===== verification/Ray_Submission.thy ===== *)
theory Ray_Submission
  imports Tool_Ray Gateway_Handle
begin

text \<open>
  The Ray tools of the agentic interface and the Ray gateway together: what \<open>submit_ray_job\<close> and \<open>start_ray_cluster\<close> write in the headers of their requests
  (\<open>Tool_Ray\<close>), \<open>caller\<close> reads out of them (\<open>Gateway_Settings\<close>), and a job's code is with the gateway before the job.
\<close>

subsection \<open>The headers of a submission, as the gateway reads them\<close>

definition header_of :: "string \<Rightarrow> string option \<Rightarrow> (string, string) dict" where
  "header_of k v = (case v of None \<Rightarrow> [] | Some s \<Rightarrow> [(k, s)])"

lemma map_of_header_of [simp]: "map_of (header_of k v) k' = (if k' = k then v else None)"
  by (auto simp: header_of_def split: option.split)

lemma set_header_of: "x \<in> set (header_of k v) \<Longrightarrow> fst x = k"
  by (auto simp: header_of_def split: option.splits)

lemma ray_settings_Cons:
  "ray_settings ((n, v) # xs) = header_of (''af-'' @ map (\<lambda>c. if c = CHR ''_'' then CHR ''-'' else c) n) v @ ray_settings xs"
  by (cases v) (simp_all only: ray_settings_def header_of_def List.map_filter_simps prod.case option.case append.simps)

lemma ray_settings_Nil: "ray_settings [] = []"
  by (simp add: ray_settings_def List.map_filter_simps)

lemma job_headers_settings:
  "job_headers cf q = header_of ''af-site'' (Some (rj_site q)) @ header_of ''af-min-gpu-memory-gb'' (map_option (float_str cf) (rj_min_gpu_memory_gb q))
     @ header_of ''af-gpus-per-worker'' (map_option show_int (rj_gpus_per_worker q)) @ header_of ''af-cpus-per-worker'' (map_option show_int (rj_cpus_per_worker q))
     @ header_of ''af-ram-per-worker-gb'' (map_option show_int (rj_ram_per_worker_gb q)) @ header_of ''af-env'' (rj_environment q)
     @ header_of ''af-inputs'' (rj_inputs q) @ header_of ''af-output'' (rj_output q)
     @ header_of (if rj_exact_workers q then ''af-n-workers'' else ''af-max-workers'') (Some (show_int (rj_workers q)))"
  by (simp add: job_headers_def shape_settings_def count_setting_def ray_settings_Cons ray_settings_Nil)

lemma map_of_dict_updates_rev: "map_of (dict_updates d ps) k = (map_of d ++ map_of (rev ps)) k"
proof (induction ps arbitrary: d)
  case (Cons p ps)
  show ?case using Cons [of "AList.update (fst p) (snd p) d"]
    by (auto simp: dict_updates_def split_def update_conv' map_add_def split: option.split)
qed (simp add: dict_updates_def)

text \<open>
  A request as it arrives: the token, headers of the transport, which are no settings, and those of the tool. Names of headers have no case.
\<close>

definition ordinary :: "(string \<times> string) list \<Rightarrow> bool" where
  "ordinary others \<longleftrightarrow> list_all (\<lambda>(k, v). lower k \<noteq> ''authorization'' \<and> lower k \<notin> set UNPREFIXED \<and> \<not> prefix ''af-'' (lower k)) others"

definition sent_headers :: "af_user \<Rightarrow> (string \<times> string) list \<Rightarrow> (string, string) dict \<Rightarrow> (string \<times> string) list" where
  "sent_headers c others headers = (''Authorization'', ''Bearer '' @ cl_token c) # others @ headers"

lemma lowered_fst: "k \<in> fst ` set (lowered hs) \<Longrightarrow> \<exists>k' v. (k', v) \<in> set hs \<and> k = lower k'"
proof -
  assume "k \<in> fst ` set (lowered hs)"
  then obtain v where "map_of (lowered hs) k = Some v" by (metis map_of_eq_None_iff option.exhaust)
  then have "(k, v) \<in> set (map (\<lambda>(k, v). (lower k, v)) hs)"
    by (auto simp: lowered_def map_of_dict_updates_rev dest!: map_of_SomeD)
  then show ?thesis by auto
qed

lemma job_headers_names: "(k, v) \<in> set (job_headers cf q) \<Longrightarrow> k \<in> set SETTINGS"
  unfolding job_headers_settings by (auto simp: SETTINGS_def dest!: set_header_of split: if_splits)

lemma settings_lower: "k \<in> set SETTINGS \<Longrightarrow> lower k = k"
proof -
  have "list_all (\<lambda>k. lower k = k) SETTINGS" by code_simp
  then show "k \<in> set SETTINGS \<Longrightarrow> lower k = k" by (simp add: list_all_iff)
qed

lemma settings_apart: "k \<in> set SETTINGS \<Longrightarrow> k \<notin> set UNPREFIXED" "k \<in> set SETTINGS \<Longrightarrow> prefix ''af-'' k"
proof -
  have "list_all (\<lambda>k. \<not> List.member UNPREFIXED k \<and> prefix ''af-'' k) SETTINGS" by code_simp
  then show "k \<in> set SETTINGS \<Longrightarrow> k \<notin> set UNPREFIXED" "k \<in> set SETTINGS \<Longrightarrow> prefix ''af-'' k" by (auto simp: list_all_iff)
qed

text \<open>The gateway knows every header that the tool sends, and reads each setting as it was written.\<close>

lemma sent_known:
  assumes "ordinary others"
  shows "unknown_settings (lowered (sent_headers c others (job_headers cf q))) = []"
proof -
  have auth: "lower ''Authorization'' = ''authorization''" "\<not> List.member UNPREFIXED ''authorization''" by code_simp+
  have "k \<notin> set UNPREFIXED \<and> (prefix ''af-'' k \<longrightarrow> k \<in> set SETTINGS)"
    if "k \<in> fst ` set (lowered (sent_headers c others (job_headers cf q)))" for k
  proof -
    from lowered_fst [OF that] obtain k' v where kv: "(k', v) \<in> set (sent_headers c others (job_headers cf q))" "k = lower k'" by blast
    then consider "k' = ''Authorization''" | "(k', v) \<in> set others" | "k' \<in> set SETTINGS"
      using job_headers_names by (auto simp: sent_headers_def)
    then show ?thesis
      using kv(2) assms auth settings_lower [of k'] settings_apart [of k'] by cases (auto simp: ordinary_def list_all_iff)
  qed
  then show ?thesis by (auto simp: unknown_settings_def filter_empty_conv)
qed

lemma rev_header_of [simp]: "rev (header_of k v) = header_of k v"
  by (simp add: header_of_def split: option.split)

lemma job_headers_lower: "map (\<lambda>(k, v). (lower k, v)) (job_headers cf q) = job_headers cf q"
  using job_headers_names settings_lower by (intro map_idI) fastforce

lemma sent_setting:
  assumes "ordinary others" "k \<in> set SETTINGS"
  shows "map_of (lowered (sent_headers c others (job_headers cf q))) k = map_of (rev (job_headers cf q)) k"
proof -
  have "k \<notin> fst ` set (map (\<lambda>(k, v). (lower k, v)) others)"
    using assms settings_apart(2) [OF assms(2)] by (force simp: ordinary_def list_all_iff)
  then have "map_of (rev (map (\<lambda>(k, v). (lower k, v)) others)) k = None" by (simp add: map_of_eq_None_iff)
  moreover have "k \<noteq> lower ''Authorization''"
  proof -
    have "\<not> List.member SETTINGS (lower ''Authorization'')" by code_simp
    then show ?thesis using assms(2) by auto
  qed
  ultimately show ?thesis
    by (simp add: lowered_def sent_headers_def map_of_dict_updates_rev job_headers_lower map_add_def del: lower_def split: option.split)
qed

lemma header_values:
  "map_of (rev (job_headers cf q)) ''af-site'' = Some (rj_site q)"
  "map_of (rev (job_headers cf q)) ''af-n-workers'' = (if rj_exact_workers q then Some (show_int (rj_workers q)) else None)"
  "map_of (rev (job_headers cf q)) ''af-max-workers'' = (if rj_exact_workers q then None else Some (show_int (rj_workers q)))"
  "map_of (rev (job_headers cf q)) ''af-cpus-per-worker'' = map_option show_int (rj_cpus_per_worker q)"
  "map_of (rev (job_headers cf q)) ''af-ram-per-worker-gb'' = map_option show_int (rj_ram_per_worker_gb q)"
  "map_of (rev (job_headers cf q)) ''af-gpus-per-worker'' = map_option show_int (rj_gpus_per_worker q)"
  "map_of (rev (job_headers cf q)) ''af-min-gpu-memory-gb'' = map_option (float_str cf) (rj_min_gpu_memory_gb q)"
  "map_of (rev (job_headers cf q)) ''authorization'' = None"
  "map_of (rev (job_headers cf q)) ''af-env'' = rj_environment q"
  by (simp_all add: job_headers_settings map_add_def split: option.split)

lemma sent_settings:
  assumes "ordinary others"
  shows "dict_get (lowered (sent_headers c others (job_headers cf q))) ''af-site'' [] = rj_site q"
    "dict_get (lowered (sent_headers c others (job_headers cf q))) ''af-n-workers'' [] = (if rj_exact_workers q then show_int (rj_workers q) else [])"
    "dict_get (lowered (sent_headers c others (job_headers cf q))) ''af-max-workers'' [] = (if rj_exact_workers q then [] else show_int (rj_workers q))"
    "rj_cpus_per_worker q = Some n \<Longrightarrow> dict_get (lowered (sent_headers c others (job_headers cf q))) ''af-cpus-per-worker'' [] = show_int n"
    "rj_ram_per_worker_gb q = Some n \<Longrightarrow> dict_get (lowered (sent_headers c others (job_headers cf q))) ''af-ram-per-worker-gb'' [] = show_int n"
    "rj_gpus_per_worker q = Some n \<Longrightarrow> dict_get (lowered (sent_headers c others (job_headers cf q))) ''af-gpus-per-worker'' [] = show_int n"
    "dict_get (lowered (sent_headers c others (job_headers cf q))) ''af-min-gpu-memory-gb'' [] = (case rj_min_gpu_memory_gb q of None \<Rightarrow> [] | Some x \<Rightarrow> float_str cf x)"
  by (simp_all add: dict_get_def sent_setting [OF assms] SETTINGS_def header_values split: option.split)

lemma sent_token:
  assumes "ordinary others"
  shows "dict_get (lowered (sent_headers c others (job_headers cf q))) ''authorization'' [] = ''Bearer '' @ cl_token c"
proof -
  have "''authorization'' \<notin> fst ` set (map (\<lambda>(k, v). (lower k, v)) others)"
    using assms by (force simp: ordinary_def list_all_iff)
  then have "map_of (rev (map (\<lambda>(k, v). (lower k, v)) others)) ''authorization'' = None" by (simp add: map_of_eq_None_iff)
  moreover note header_values(8) [of cf q]
  moreover have "lower ''Authorization'' = ''authorization''" by code_simp
  ultimately show ?thesis
    by (simp add: dict_get_def lowered_def sent_headers_def map_of_dict_updates_rev job_headers_lower map_add_def)
qed

subsection \<open>A job as it was asked for\<close>

text \<open>The shape has the site, the numbers of workers and the sizes of the call, and the user is the caller's token's.\<close>

definition as_requested :: "ray_job_call \<Rightarrow> shape \<Rightarrow> bool" where
  "as_requested q s \<longleftrightarrow> sh_site s = rj_site q \<and> sh_workers s = show_int (rj_workers q)
     \<and> sh_least s = (if rj_exact_workers q then show_int (rj_workers q) else ''1'')
     \<and> (case rj_cpus_per_worker q of None \<Rightarrow> True | Some n \<Rightarrow> sh_cpus s = show_int n)
     \<and> (case rj_ram_per_worker_gb q of None \<Rightarrow> True | Some n \<Rightarrow> sh_ram s = show_int n)
     \<and> (case rj_gpus_per_worker q of None \<Rightarrow> True | Some n \<Rightarrow> sh_per_worker s = show_int n)"

lemma show_int_not_Nil [simp]: "show_int n \<noteq> []"
  by (simp add: show_int_def)

lemma requested_workers_kept:
  assumes "requested_workers (if e then v else []) (if e then [] else v) most = Inr (workers, least)" "v \<noteq> []"
  shows "workers = v" "least = (if e then v else ''1'')"
  using assms by (auto simp: requested_workers_def Let_def split: if_splits)

lemma requested_size_kept: "requested_size name v dflt least most = Inr r \<Longrightarrow> v \<noteq> [] \<Longrightarrow> r = v"
  by (auto simp: requested_size_def split: if_splits)

lemma requested_per_worker_kept: "requested_per_worker fl v mem = Inr r \<Longrightarrow> v \<noteq> [] \<Longrightarrow> r = v"
  by (auto simp: requested_per_worker_def Let_def split: if_splits)

lemma purdue_shape_from:
  assumes "purdue_shape fl tmpl values = Inr s"
  shows "sh_site s = ''purdue''"
    "\<exists>d. requested_size ''af-cpus-per-worker'' (dict_get values ''af-cpus-per-worker'' []) d 1 WORKER_CPUS_MAX = Inr (sh_cpus s)"
    "\<exists>d. requested_size ''af-ram-per-worker-gb'' (dict_get values ''af-ram-per-worker-gb'' []) d WORKER_MEMORY_GB_MIN WORKER_MEMORY_GB_MAX = Inr (sh_ram s)"
    "\<exists>mem. requested_per_worker fl (dict_get values ''af-gpus-per-worker'' []) mem = Inr (sh_per_worker s)"
    "\<exists>most. requested_workers (dict_get values ''af-n-workers'' []) (dict_get values ''af-max-workers'' []) most = Inr (sh_workers s, sh_least s)"
  using assms unfolding purdue_shape_def Let_def by (clarsimp; blast)+

lemma nrp_shape_from:
  assumes "nrp_shape w values = Inr s"
  shows "sh_site s = ''nrp''" "\<exists>most. requested_workers (dict_get values ''af-n-workers'' []) (dict_get values ''af-max-workers'' []) most = Inr (sh_workers s, sh_least s)"
    "\<forall>n \<in> fst ` set values. n \<in> set SETTINGS \<longrightarrow> n \<in> set NRP_SETTINGS"
proof -
  show "sh_site s = ''nrp''" "\<exists>most. requested_workers (dict_get values ''af-n-workers'' []) (dict_get values ''af-max-workers'' []) most = Inr (sh_workers s, sh_least s)"
    using assms unfolding nrp_shape_def Let_def by (auto split: if_splits)
  have "sort (filter (\<lambda>n. n \<in> set SETTINGS - set NRP_SETTINGS) (map fst values)) = []"
    using assms unfolding nrp_shape_def Let_def by (simp split: if_splits)
  then have "set (sort (filter (\<lambda>n. n \<in> set SETTINGS - set NRP_SETTINGS) (map fst values))) = {}" by simp
  then show "\<forall>n \<in> fst ` set values. n \<in> set SETTINGS \<longrightarrow> n \<in> set NRP_SETTINGS" by auto
qed

text \<open>A setting that is there is among the names; at NRP there is none of a worker's size.\<close>

lemma nrp_no_sizes:
  assumes "ordinary others" "nrp_shape w (lowered (sent_headers c others (job_headers cf q))) = Inr s"
  shows "rj_cpus_per_worker q = None" "rj_ram_per_worker_gb q = None" "rj_gpus_per_worker q = None"
proof -
  have none: "map_of (lowered (sent_headers c others (job_headers cf q))) k = None" if "k \<in> set SETTINGS" "k \<notin> set NRP_SETTINGS" for k
    using nrp_shape_from(3) [OF assms(2)] that by (auto simp: map_of_eq_None_iff)
  show "rj_cpus_per_worker q = None" "rj_ram_per_worker_gb q = None" "rj_gpus_per_worker q = None"
    using none [of "''af-cpus-per-worker''"] none [of "''af-ram-per-worker-gb''"] none [of "''af-gpus-per-worker''"]
    by (simp_all add: sent_setting [OF assms(1)] header_values SETTINGS_def NRP_SETTINGS_def)
qed

lemma sent_workers:
  assumes "ordinary others"
    "requested_workers (dict_get (lowered (sent_headers c others (job_headers cf q))) ''af-n-workers'' [])
      (dict_get (lowered (sent_headers c others (job_headers cf q))) ''af-max-workers'' []) most = Inr (workers, least)"
  shows "workers = show_int (rj_workers q)" "least = (if rj_exact_workers q then show_int (rj_workers q) else ''1'')"
  using requested_workers_kept [of "rj_exact_workers q" "show_int (rj_workers q)" most workers least] assms(2)
  by (simp_all add: sent_settings(2,3) [OF assms(1)])

lemma shape_as_asked:
  assumes "ordinary others"
    and "nrp_shape w (lowered (sent_headers c others (job_headers cf q))) = Inr s \<and> rj_site q = ''nrp''
      \<or> purdue_shape fl tmpl (lowered (sent_headers c others (job_headers cf q))) = Inr s \<and> rj_site q = ''purdue''"
  shows "as_requested q s"
  using assms(2)
proof
  assume a: "nrp_shape w (lowered (sent_headers c others (job_headers cf q))) = Inr s \<and> rj_site q = ''nrp''"
  note from_values = nrp_shape_from [OF conjunct1 [OF a]]
  obtain most where "requested_workers (dict_get (lowered (sent_headers c others (job_headers cf q))) ''af-n-workers'' [])
      (dict_get (lowered (sent_headers c others (job_headers cf q))) ''af-max-workers'' []) most = Inr (sh_workers s, sh_least s)"
    using from_values(2) by blast
  from sent_workers [OF assms(1) this] from_values(1) nrp_no_sizes [OF assms(1) conjunct1 [OF a]] a show ?thesis
    by (simp add: as_requested_def)
next
  assume a: "purdue_shape fl tmpl (lowered (sent_headers c others (job_headers cf q))) = Inr s \<and> rj_site q = ''purdue''"
  note from_values = purdue_shape_from [OF conjunct1 [OF a]]
  obtain most where "requested_workers (dict_get (lowered (sent_headers c others (job_headers cf q))) ''af-n-workers'' [])
      (dict_get (lowered (sent_headers c others (job_headers cf q))) ''af-max-workers'' []) most = Inr (sh_workers s, sh_least s)"
    using from_values(5) by blast
  note workers = sent_workers [OF assms(1) this]
  have "rj_cpus_per_worker q = Some n \<Longrightarrow> sh_cpus s = show_int n" "rj_ram_per_worker_gb q = Some n \<Longrightarrow> sh_ram s = show_int n"
      "rj_gpus_per_worker q = Some n \<Longrightarrow> sh_per_worker s = show_int n" for n
    using from_values(2,3,4) requested_size_kept requested_per_worker_kept by (fastforce simp: sent_settings [OF assms(1)])+
  with from_values(1) a workers show ?thesis by (simp add: as_requested_def split: option.split)
qed

text \<open>
  C32: what the agentic interface asks the Ray gateway for, the gateway takes. A request with the headers that \<open>submit_ray_job\<close> writes, in which
  the gateway finds a user and a shape, is from the user of the caller's own token, and the shape has the site, the number of workers, whether it is exact,
  and the GPUs, CPUs and memory of each worker that the tool was called with.
\<close>

theorem ray_job_as_asked:
  assumes "caller sha dir accts fl tmpl w now service_token (lowered (sent_headers c others (job_headers cf q))) cache = (Inr (u, s), cache')"
    and "ordinary others" "rj_site q \<in> set SITES"
  shows "as_requested q s \<and> fst (user_for sha dir accts now (strip_of py_space (cl_token c)) cache) = Inr u"
proof -
  let ?V = "lowered (sent_headers c others (job_headers cf q))"
  have site: "dict_get ?V ''af-site'' [] = rj_site q" "dict_get ?V ''authorization'' [] = ''Bearer '' @ cl_token c"
    using sent_settings(1) sent_token assms(2) by blast+
  have token: "bearer_token (''Bearer '' @ cl_token c) \<in> {None, Some (strip_of py_space (cl_token c))}"
    by (auto simp: bearer_token_def partition_at_def Let_def)
  from assms(1) obtain cache'' where u: "user_for sha dir accts now (strip_of py_space (cl_token c)) cache = (Inr u, cache'')"
      and s: "(if rj_site q = ''nrp'' then nrp_shape w ?V else purdue_shape fl (cluster_template tmpl u) ?V) = Inr s"
    using token assms(3) unfolding caller_def site Let_def
    by (auto simp: SITES_def split: if_splits option.splits sum.splits prod.splits)
  have "as_requested q s"
    using s assms(3) by (intro shape_as_asked [OF assms(2)]) (auto simp: SITES_def split: if_splits)
  with u show ?thesis by simp
qed

text \<open>And a call for NRP that asks for nothing of Purdue's is taken, whatever the number of workers, up to nine digits.\<close>

lemma hd_show_nat: "0 < n \<Longrightarrow> hd (show_nat n) \<noteq> CHR ''0''"
proof (induction n rule: show_nat.induct)
  case (1 n)
  show ?case
  proof (cases "n < 10")
    case True
    then have n: "digit_value (hd (show_nat n)) = n" by (subst show_nat.simps) (simp add: digit_char_inverse)
    have zero: "digit_value (CHR ''0'') = 0" by code_simp
    show ?thesis
    proof
      assume "hd (show_nat n) = CHR ''0''"
      then have "n = digit_value (CHR ''0'')" using n by (simp only:)
      with "1.prems" zero show False by simp
    qed
  next
    case False
    then show ?thesis using "1.IH" by (subst show_nat.simps) simp
  qed
qed

lemma whole_show_int:
  assumes "1 \<le> n" "n < 10 ^ 9"
  shows "whole (show_int n) 1 None"
proof -
  have n: "show_int n = show_nat (nat n)" "0 < nat n" using assms(1) by (simp_all add: show_int_def)
  have "nat n < nat (10 ^ 9)" using assms by (simp only: nat_less_eq_zless)
  then have "length (show_nat (nat n)) \<le> 9" by (intro length_show_nat) (simp_all only: nat_power_eq nat_numeral)
  moreover have "list_all is_digit (show_nat (nat n))" using set_show_nat by (simp add: list_all_iff)
  ultimately show ?thesis using n(2) hd_show_nat [OF n(2)] unfolding whole_def n(1) by simp
qed

lemma py_float_Nil: "py_float [] = None"
proof -
  have "decimal [] = None" by code_simp
  then show ?thesis by (simp add: py_float_def strip_of_def lstrip_of_def rstrip_of_def signed_def lower_def Let_def)
qed

lemma nrp_job_accepted:
  assumes plain: "ordinary others" and q: "rj_site q = ''nrp''" "1 \<le> rj_workers q" "rj_workers q < 10 ^ 9"
      "rj_cpus_per_worker q = None" "rj_ram_per_worker_gb q = None" "rj_gpus_per_worker q = None" "rj_environment q = None"
    and memory: "\<And>x. rj_min_gpu_memory_gb q = Some x \<Longrightarrow> 0 \<le> x \<and> py_float (float_str cf x) = Some (Fin x)"
    and user: "bearer_token (''Bearer '' @ cl_token c) = Some token" "user_for sha dir accts now token cache = (Inr u, cache')" "service_token \<noteq> []"
  shows "\<exists>s. caller sha dir accts fl tmpl w now service_token (lowered (sent_headers c others (job_headers cf q))) cache = (Inr (u, s), cache')"
proof -
  let ?V = "lowered (sent_headers c others (job_headers cf q))"
  have "n \<in> set NRP_SETTINGS" if "n \<in> fst ` set ?V" "n \<in> set SETTINGS" for n
  proof -
    have "map_of (rev (job_headers cf q)) n \<noteq> None"
      using that sent_setting [OF plain that(2)] by (metis map_of_eq_None_iff)
    then have "n \<notin> {''af-env'', ''af-gpus-per-worker'', ''af-cpus-per-worker'', ''af-ram-per-worker-gb''}"
      using q header_values(4-6,9) [of cf q] by auto
    with that(2) show ?thesis by (simp add: SETTINGS_def NRP_SETTINGS_def)
  qed
  then have "filter (\<lambda>n. n \<in> set SETTINGS - set NRP_SETTINGS) (map fst ?V) = []" by (auto simp: filter_empty_conv)
  moreover have "\<exists>workers least. requested_workers (dict_get ?V ''af-n-workers'' []) (dict_get ?V ''af-max-workers'' []) None = Inr (workers, least)"
    using whole_show_int [OF q(2,3)] by (simp add: sent_settings [OF plain] requested_workers_def Let_def)
  moreover have "\<exists>mem. gpu_memory (dict_get ?V ''af-min-gpu-memory-gb'' []) = Inr mem"
    using memory py_float_Nil by (auto simp: sent_settings [OF plain] gpu_memory_def split: option.split)
  ultimately obtain s where "nrp_shape w ?V = Inr s" by (auto simp: nrp_shape_def Let_def)
  then show ?thesis
    using user q(1) sent_known [OF plain] by (simp add: caller_def sent_token [OF plain] sent_settings(1) [OF plain] SITES_def)
qed

definition sample_job :: ray_job_call where
  "sample_job = \<lparr>rj_entrypoint = ''python train.py'', rj_site = ''nrp'', rj_files = [(''train.py'', ''pass''), (''lib/../data.py'', ''x = 1'')], rj_workers = 8, rj_exact_workers = True,
     rj_entrypoint_gpus = 0, rj_min_gpu_memory_gb = Some 16, rj_gpus_per_worker = None, rj_cpus_per_worker = None, rj_ram_per_worker_gb = None,
     rj_environment = None, rj_inputs = None, rj_output = None, rj_pip = [], rj_env_vars = []\<rparr>"

definition ray_ann :: af_user where "ray_ann = \<lparr>cl_username = ''ann'', cl_token = ''t''\<rparr>"

theorem ray_job_as_asked_witness:
  "\<exists>u s cache'. caller (\<lambda>t. t) example_directory [] FLAVORS example_template example_worker 0 ''service''
       (lowered (sent_headers ray_ann [(''Host'', ''ray-train-gateway'')] (job_headers tools_config sample_job))) [] = (Inr (u, s), cache')
     \<and> as_requested sample_job s \<and> sh_workers s = ''8'' \<and> sh_least s = ''8''"
proof -
  have plain: "ordinary [(''Host'', ''ray-train-gateway'')]" by code_simp
  have "bearer_token (''Bearer '' @ cl_token ray_ann) = Some ''t''" by code_simp
  moreover have "user_for (\<lambda>t. t) example_directory [] 0 ''t'' [] = (Inr example_user, [(''t'', (300, example_user))])" by code_simp
  moreover have "py_float ''16'' = Some (Fin 16)"
  proof -
    have "show_nat 16 = ''16''" by code_simp
    then show ?thesis using fmt_g_nat [of 16] py_float_fmt_g [of 16] by simp
  qed
  ultimately obtain s where s: "caller (\<lambda>t. t) example_directory [] FLAVORS example_template example_worker 0 ''service''
      (lowered (sent_headers ray_ann [(''Host'', ''ray-train-gateway'')] (job_headers tools_config sample_job))) [] = (Inr (example_user, s), [(''t'', (300, example_user))])"
    using nrp_job_accepted [OF plain, of sample_job tools_config ray_ann "''t''" "\<lambda>t. t" example_directory "[]" 0 "[]" example_user "[(''t'', (300, example_user))]" "''service''" FLAVORS example_template example_worker]
    by (auto simp: sample_job_def float_str_def tools_config_def)
  have "show_int 8 = ''8''" by code_simp
  then show ?thesis using s ray_job_as_asked [OF s plain] by (auto simp: as_requested_def sample_job_def SITES_def)
qed

subsection \<open>The code of a job\<close>

text \<open>
  The members of a package lie in the directory it is unpacked in: their paths are normalized, and none has a name that leads up. The one
  exception is the directory itself, of a name such as \<open>a/..\<close>.
\<close>

lemma norm_comps_relative:
  assumes "list_all goes_down acc \<or> acc \<noteq> [] \<and> last acc = ''..''"
  shows "norm_comps False acc cs = [] \<or> list_all goes_down (norm_comps False acc cs) \<or> hd (norm_comps False acc cs) = ''..''"
  using assms
proof (induction cs arbitrary: acc)
  case Nil
  then show ?case by (auto simp: hd_rev list_all_iff)
next
  case (Cons c cs)
  consider "c = [] \<or> c = ''.''" | "goes_down c" | "c = ''..''" by (auto simp: goes_down_def clean_def)
  then show ?case
  proof cases
    case 1
    then show ?thesis using Cons.IH [OF Cons.prems] by auto
  next
    case 2
    then have "norm_comps False acc (c # cs) = norm_comps False (c # acc) cs" by (auto simp: goes_down_def clean_def)
    moreover have "list_all goes_down (c # acc) \<or> last (c # acc) = ''..''" using Cons.prems 2 by auto
    ultimately show ?thesis using Cons.IH [of "c # acc"] by auto
  next
    case 3
    show ?thesis
    proof (cases "acc = [] \<or> hd acc = ''..''")
      case True
      then have "norm_comps False acc (c # cs) = norm_comps False (c # acc) cs" using 3 by auto
      moreover have "last (c # acc) = ''..''" using Cons.prems True 3 by (cases acc) (auto simp: goes_down_def clean_def)
      ultimately show ?thesis using Cons.IH [of "c # acc"] by auto
    next
      case False
      then obtain a as where acc: "acc = a # as" "a \<noteq> ''..''" by (cases acc) auto
      then have "norm_comps False acc (c # cs) = norm_comps False as cs" using 3 by simp
      moreover have "list_all goes_down as \<or> as \<noteq> [] \<and> last as = ''..''" using Cons.prems acc by (auto split: if_splits)
      ultimately show ?thesis using Cons.IH [of as] by auto
    qed
  qed
qed

lemma member_inside:
  assumes "\<not> prefix ''/'' name" "normpath name \<noteq> ''..''" "\<not> prefix ''../'' (normpath name)"
  shows "normpath name = ''.'' \<or> list_all goes_down (split_on (CHR ''/'') (normpath name))"
proof (cases "normpath name = ''.''")
  case False
  let ?cs = "norm_comps False [] (split_on (CHR ''/'') name)"
  have name: "name \<noteq> []" using False by (auto simp: normpath_def)
  moreover have "\<not> prefix ''//'' name" using assms(1) by (auto simp: prefix_def)
  ultimately have path: "normpath name = join_with (CHR ''/'') ?cs" "?cs \<noteq> []"
    using assms(1) False by (auto simp: normpath_def Let_def split: if_splits)
  have no_sep: "\<forall>c \<in> set ?cs. CHR ''/'' \<notin> set c"
    using norm_comps_set [of False "[]" "split_on (CHR ''/'') name"] by (auto dest: split_on_no_sep)
  then have split: "split_on (CHR ''/'') (normpath name) = ?cs" unfolding path(1) by (intro split_on_join) (use path(2) in auto)
  have "hd ?cs \<noteq> ''..''"
  proof
    assume up: "hd ?cs = ''..''"
    then obtain cs where cs: "?cs = ''..'' # cs" using path(2) by (cases ?cs) auto
    show False using assms(2,3) unfolding path(1) cs by (cases cs) auto
  qed
  then show ?thesis using norm_comps_relative [of "[]" "split_on (CHR ''/'') name"] path(2) split by auto
qed simp

lemma package_members_inside:
  "package_members cf files = Inr members \<Longrightarrow> (path, body) \<in> set members
   \<Longrightarrow> path = ''.'' \<or> list_all goes_down (split_on (CHR ''/'') path)"
proof (induction files arbitrary: members)
  case (Cons f files)
  obtain name code where f: "f = (name, code)" by (cases f)
  from Cons.prems(1) obtain ms where ms: "package_members cf files = Inr ms" "members = (normpath name, code) # ms"
      and ok: "\<not> prefix ''/'' name" "normpath name \<noteq> ''..''" "\<not> prefix ''../'' (normpath name)"
    by (auto simp: f Let_def split: if_splits)
  show ?case using Cons.prems(2) ms(2) member_inside [OF ok] Cons.IH [OF ms(1)] by auto
qed simp

text \<open>The two requests of a submission.\<close>

definition code_request :: "tool_config \<Rightarrow> af_user \<Rightarrow> ray_job_call \<Rightarrow> string \<Rightarrow> string \<Rightarrow> tool_request" where
  "code_request cf c q name data = ray_request cf c ''PUT'' (package_path name)
     \<lparr>ro_headers = job_headers cf q, ro_params = [], ro_json = None, ro_content = Some data, ro_timeout = SUBMIT_TIMEOUT\<rparr>"

definition submit_request :: "tool_config \<Rightarrow> af_user \<Rightarrow> ray_job_call \<Rightarrow> string option \<Rightarrow> tool_request" where
  "submit_request cf c q name = ray_request cf c ''POST'' ''/api/jobs/''
     \<lparr>ro_headers = job_headers cf q, ro_params = [], ro_json = Some (job_submission q name), ro_content = None, ro_timeout = SUBMIT_TIMEOUT\<rparr>"

text \<open>The code that a submission names was taken by the gateway, just before and under that name; it is what the caller gave, inside the job's directory and within the limit.\<close>

definition code_taken :: "tool_config \<Rightarrow> af_user \<Rightarrow> ray_job_call \<Rightarrow> string \<Rightarrow> tool_event list \<Rightarrow> bool" where
  "code_taken cf c q name es \<longleftrightarrow> (\<exists>members r. package_members cf (sort_key fst (rj_files q)) = Inr members
     \<and> list_all (\<lambda>(path, body). path = ''.'' \<or> list_all goes_down (split_on (CHR ''/'') path)) members
     \<and> int (length (tc_zip cf members)) \<le> MAX_CODE_BYTES \<and> es = [Called (code_request cf c q name (tc_zip cf members)) (Inr r)] \<and> is_success r)"

lemma ray_call_run:
  "ray_call bk cf (Some c) http_method path action ro s = (case bk_request bk (ray_request cf c http_method path ro) (tr_world s) of (a, w) \<Rightarrow>
     (case a of Inl e \<Rightarrow> Inl (unreachable RAY e []) | Inr r \<Rightarrow> if is_success r then Inr r else Inl (ray_http_failure r action),
      s\<lparr>tr_world := w, tr_events := Called (ray_request cf c http_method path ro) a # tr_events s\<rparr>))"
  by (auto simp: ray_call_def require_user_def bindm_def ret_def raise_def tool_send_def world_step_def split: prod.split sum.split)

lemma package_taken:
  assumes "package cf files = Inr (name, data)"
  obtains members where "package_members cf (sort_key fst files) = Inr members" "data = tc_zip cf members" "int (length data) \<le> MAX_CODE_BYTES"
    "list_all (\<lambda>(path, body). path = ''.'' \<or> list_all goes_down (split_on (CHR ''/'') path)) members"
proof -
  from assms obtain members where m: "package_members cf (sort_key fst files) = Inr members" "data = tc_zip cf members" "int (length data) \<le> MAX_CODE_BYTES"
    by (auto simp: package_def Let_def split: if_splits)
  then show thesis using that package_members_inside [OF m(1)] by (fastforce simp: list_all_iff)
qed

text \<open>After \<open>send_code\<close>: nothing was sent and there are no files, or they were taken; on failure no job was submitted.\<close>

lemma send_code_cases:
  assumes "send_code bk cf (Some c) q s = (x, t)"
  obtains "rj_files q = []" "x = Inr None" "t = s"
  | e where "x = Inl e" "t = s"
  | name data e a where "x = Inl e" "tr_events t = Called (code_request cf c q name data) a # tr_events s"
  | name data r where "package cf (rj_files q) = Inr (name, data)" "x = Inr (Some name)" "is_success r"
      "tr_events t = Called (code_request cf c q name data) (Inr r) # tr_events s"
proof (cases "rj_files q = []")
  case True
  then show thesis using that(1) assms by (simp add: send_code_def ret_def)
next
  case False
  show thesis
  proof (cases "package cf (rj_files q)")
    case (Inl e)
    then show thesis using that(2) assms False by (auto simp: send_code_def bindm_def of_sum_def raise_def)
  next
    case (Inr nd)
    obtain name data where nd: "nd = (name, data)" by (cases nd)
    obtain a w where aw: "bk_request bk (code_request cf c q name data) (tr_world s) = (a, w)" by fastforce
    have run: "send_code bk cf (Some c) q s = (case a of Inl e \<Rightarrow> Inl (unreachable RAY e [])
        | Inr r \<Rightarrow> if is_success r then Inr (Some name) else Inl (ray_http_failure r ''upload the job's files''),
      s\<lparr>tr_world := w, tr_events := Called (code_request cf c q name data) a # tr_events s\<rparr>)"
      using False aw unfolding code_request_def
      by (simp add: send_code_def Inr nd bindm_def of_sum_def ret_def ray_call_run split: sum.split)
    show thesis
    proof (cases a)
      case (Inl e)
      with run assms show thesis by (intro that(3)) auto
    next
      case (Inr r)
      then show thesis using run assms \<open>package cf (rj_files q) = Inr nd\<close> nd that(4) [of name data r] that(3) [of _ name data a]
        by (cases "is_success r") auto
    qed
  qed
qed

lemma send_code_run:
  assumes "send_code bk cf (Some c) q s = (x, t)" "tr_events s = []"
  shows "x = Inr None \<Longrightarrow> rj_files q = [] \<and> tr_events t = []" "x = Inr (Some name) \<Longrightarrow> code_taken cf c q name (tr_events t)"
    "x = Inl e \<Longrightarrow> \<forall>r a. Called r a \<in> set (tr_events t) \<longrightarrow> rq_method r = ''PUT''"
proof -
  show "x = Inr None \<Longrightarrow> rj_files q = [] \<and> tr_events t = []"
    by (rule send_code_cases [OF assms(1)]) (use assms(2) in auto)
  show "x = Inl e \<Longrightarrow> \<forall>r a. Called r a \<in> set (tr_events t) \<longrightarrow> rq_method r = ''PUT''"
    by (rule send_code_cases [OF assms(1)]) (use assms(2) in \<open>auto simp: code_request_def ray_request_def\<close>)
  assume name: "x = Inr (Some name)"
  obtain data r where data: "package cf (rj_files q) = Inr (name, data)"
      and sent: "tr_events t = [Called (code_request cf c q name data) (Inr r)]" "is_success r"
    by (rule send_code_cases [OF assms(1)]) (use assms(2) name in auto)
  from package_taken [OF data] obtain members where m: "package_members cf (sort_key fst (rj_files q)) = Inr members" "data = tc_zip cf members"
      "int (length data) \<le> MAX_CODE_BYTES" "list_all (\<lambda>(path, body). path = ''.'' \<or> list_all goes_down (split_on (CHR ''/'') path)) members" .
  with sent show "code_taken cf c q name (tr_events t)" unfolding code_taken_def by blast
qed

text \<open>
  C11: a job is submitted once, and after its code. If \<open>submit_ray_job\<close> sent a submission at all, it is the last of its requests and the only one, or
  the one before it uploaded the package that the submission names, which the gateway took, and which holds the files of the call, each
  inside the directory of the job and all within the limit.
\<close>

theorem submission_after_upload:
  assumes "submit_ray_job bk cf (Some c) q s = (res, s')" "tr_events s = []" "Called r a \<in> set (tr_events s')" "rq_method r = ''POST''"
  shows "\<exists>name es. tr_events s' = Called (submit_request cf c q name) a # es
    \<and> (case name of None \<Rightarrow> rj_files q = [] \<and> es = [] | Some n \<Rightarrow> code_taken cf c q n es)"
proof -
  obtain x t where up: "send_code bk cf (Some c) q s = (x, t)" by fastforce
  note run = send_code_run [OF up assms(2)]
  have "x = Inl e \<Longrightarrow> tr_events s' = tr_events t" for e using assms(1) up by (auto simp: submit_ray_job_def bindm_def)
  with run(3) assms(3,4) obtain name where name: "x = Inr name" by (cases x) auto
  then obtain b where s': "tr_events s' = Called (submit_request cf c q name) b # tr_events t"
    using assms(1) up
    by (auto simp: submit_ray_job_def bindm_def ray_call_run submit_request_def Let_def raise_def ret_def split: sum.splits prod.splits if_splits)
  have "(case name of None \<Rightarrow> rj_files q = [] \<and> tr_events t = [] | Some n \<Rightarrow> code_taken cf c q n (tr_events t))"
    using run(1,2) name by (auto split: option.split)
  moreover from this have "b = a"
    using assms(3,4) s' by (auto simp: code_taken_def code_request_def ray_request_def split: option.splits)
  ultimately show ?thesis using s' by blast
qed

definition taking_gateway :: "unit backends" where
  "taking_gateway = \<lparr>bk_request = (\<lambda>r w. (Inr \<lparr>rs_status = 200, rs_text = (if rq_method r = ''POST'' then json_dumps (JObj [(''submission_id'', JStr ''job-1'')]) else [])\<rparr>, w)),
     bk_monotonic = (\<lambda>w. (0, w)), bk_sleep = (\<lambda>d w. w), bk_elicit = (\<lambda>m f w. (Not_accepted ''decline'', w))\<rparr>"

lemma sample_submission:
  "case submit_ray_job taking_gateway tools_config (Some ray_ann) sample_job \<lparr>tr_world = (), tr_events = []\<rparr> of (res, s') \<Rightarrow>
     map (\<lambda>e. case e of Called r a \<Rightarrow> rq_method r | _ \<Rightarrow> []) (tr_events s') = [''POST'', ''PUT'']"
  by code_simp

theorem submission_after_upload_witness:
  "\<exists>res s' name a es. submit_ray_job taking_gateway tools_config (Some ray_ann) sample_job \<lparr>tr_world = (), tr_events = []\<rparr> = (res, s')
     \<and> tr_events s' = Called (submit_request tools_config ray_ann sample_job (Some name)) a # es \<and> code_taken tools_config ray_ann sample_job name es"
proof -
  obtain res s' where run: "submit_ray_job taking_gateway tools_config (Some ray_ann) sample_job \<lparr>tr_world = (), tr_events = []\<rparr> = (res, s')" by fastforce
  then have "map (\<lambda>e. case e of Called r a \<Rightarrow> rq_method r | _ \<Rightarrow> []) (tr_events s') = [''POST'', ''PUT'']" using sample_submission by simp
  then obtain e es where "tr_events s' = e # es" "(case e of Called r a \<Rightarrow> rq_method r | _ \<Rightarrow> []) = ''POST''" by auto
  then obtain r a where "Called r a \<in> set (tr_events s')" "rq_method r = ''POST''" by (cases e) auto
  from submission_after_upload [OF run _ this] obtain name es where es: "tr_events s' = Called (submit_request tools_config ray_ann sample_job name) a # es"
      "case name of None \<Rightarrow> rj_files sample_job = [] \<and> es = [] | Some n \<Rightarrow> code_taken tools_config ray_ann sample_job n es" by auto
  then obtain n where "name = Some n" by (cases name) (auto simp: sample_job_def)
  with run es show ?thesis by auto
qed

subsection \<open>A job by its ID\<close>

text \<open>The path of a job is the gateway's path of that job, for an ID with no line break at its end, which the check lets through.\<close>

lemma job_char_plain: "is_job_char c \<Longrightarrow> c \<noteq> CHR ''/'' \<and> c \<noteq> newline"
  by (auto simp: is_job_char_def is_digit_def is_lower_letter_def lower_char_def newline_def less_eq_char_def)

lemma job_id_routed:
  assumes "job_id_re job_id" "newline \<notin> set job_id" "rest \<in> {[], ''/stop'', ''/logs''}"
  shows "job_path (''/api/jobs/'' @ job_id @ rest) = Some (job_id, rest)"
proof -
  have "\<not> suffix [newline] job_id" using assms(2) by (auto simp: suffix_def)
  then have id: "job_id \<noteq> []" "\<And>c. c \<in> set job_id \<Longrightarrow> c \<noteq> CHR ''/''"
    using assms(1) job_char_plain by (auto simp: job_id_re_def Let_def list_all_iff)
  then have "takeWhile (\<lambda>c. c \<noteq> CHR ''/'') (job_id @ rest) = job_id" "dropWhile (\<lambda>c. c \<noteq> CHR ''/'') (job_id @ rest) = rest"
    using assms(3) by (auto simp: takeWhile_append2 dropWhile_append2)
  with id(1) assms(3) show ?thesis by (auto simp: job_path_def removeprefix_def newline_def)
qed

text \<open>No lines of a log are all of them, and a negative number leaves out the first.\<close>

lemma log_lines_odd: "log_tail 0 (''a'' @ newline # ''b'' @ newline # ''c'') = ''a'' @ newline # ''b'' @ newline # ''c''"
    "log_tail (- 1) (''a'' @ newline # ''b'' @ newline # ''c'') = ''b'' @ newline # ''c''" "log_tail 1 (''a'' @ newline # ''b'' @ newline # ''c'') = ''c''"
  by code_simp+

end
