(* ===== verification/Spec2Isabelle.thy ===== *)
theory Spec2Isabelle
  imports NRP_Findings Gateway_Handle LLM_Queue LLM_Ends LLM_Server PromQL_Query Node_Site Mattermost_Poll Model_Server
    Tool_Auth Tool_Session Dask_Views Ray_Submission
begin

text \<open>
  The services of the Purdue Analysis Facility that decide who may do what: a model of their Python code, from the sources under
  \<open>src/\<close>, and what it is proved to guarantee.

  \<^bold>\<open>The parts, and how they meet.\<close> Users of JupyterHub run Ray clusters and jobs through the \<^emph>\<open>Ray gateway\<close>
  (\<open>apps/ray-train\<close>), at Purdue or on NRP. Agents ask language models through the \<^emph>\<open>LLM proxy\<close> (\<open>apps/agentic-analysis\<close>), and the
  facility through the \<^emph>\<open>agentic interface\<close> (\<open>docker/agentic-interface\<close>), which knows them by their Hub token, scopes their PromQL to what is theirs and runs their
  sessions and Dask clusters. The
  \<^emph>\<open>Mattermost agent\<close> (\<open>apps/mattermost-agent\<close>) puts a chat in front of both. The \<^emph>\<open>node monitor\<close> (\<open>docker/af-node-monitor\<close>) says
  whether each node's mounts work, and the \<^emph>\<open>model manager\<close> (\<open>docker/supersonic-model-manager\<close>) keeps the models that Triton serves.
  They meet in headers and names: the interface's Ray tools write settings that the gateway reads (\<open>Ray_Submission\<close>); the gateway names clusters after users, and
  the interface tells by the names whose series are whose, which the theorem at the end of this theory is about.

  \<^bold>\<open>The library.\<close> \<open>AF_Prelude\<close> has Python's strings, dictionaries and integers, and the locale \<open>machine\<close> (states, steps and an
  invariant), of which each stateful part gives an interpretation: the gate, jobs on NRP, the exporter, the site of probes, links, polling, the model
  repository, the caches of tokens. \<open>Py_Numbers\<close> and \<open>Py_Json\<close> model \<open>float\<close> and \<open>json\<close>. \<open>Py_Effects\<close> has the state and
  exception monad that coroutines and threads are written in, with its calculi: weakest preconditions, what is held, preserved,
  returned and spent. \<open>Tool_Http\<close> has the locale \<open>bounded_polling\<close> (a look, a deadline and a pause between looks), which the three waiting loops of the tools
  interpret.

  \<^bold>\<open>The theories.\<close>
  \<^item> Ray gateway, \<open>gateway.py\<close>: \<open>Gateway_Identity\<close> (refusals, accounts, names, \<open>user_for\<close>), \<open>Gateway_Objects\<close> (shapes, RayClusters,
    RayJobs), \<open>Gateway_Settings\<close> (headers, data directories, \<open>caller\<close>), \<open>Gateway_State\<close> and \<open>Gateway_Law\<close> (the state, its calls, and laws of
    what a coroutine may ask for), \<open>Gateway_Admission\<close> (\<open>admit\<close>), \<open>Gateway_Clusters\<close> (a user's own cluster and the reaper),
    \<open>Gateway_Jobs\<close> (jobs at Purdue), \<open>NRP_Gpus\<close>, \<open>NRP_Jobs\<close>, \<open>Gateway_NRP\<close>, \<open>NRP_Submission\<close>, \<open>NRP_Progress\<close> (jobs on NRP, and their stages over
    many passes), \<open>NRP_Findings\<close>, \<open>Gateway_Handle\<close> (every HTTP call).
  \<^item> LLM proxy, \<open>llm_proxy.py\<close>: \<open>LLM_Config\<close>, \<open>LLM_Gate\<close> and \<open>LLM_Queue\<close> (admission, and its refinement of a fair-use specification),
    \<open>LLM_Reply\<close> (replies and streams), \<open>LLM_Proxy\<close>, \<open>LLM_Forward\<close>, \<open>LLM_Ends\<close> (\<open>forward\<close>, its guarantees and that it ends), \<open>LLM_Server\<close>.
  \<^item> Agentic interface, \<open>promql_scope.py\<close> and \<open>tools/promql.py\<close>: \<open>PromQL_Regex\<close> (the language of an expression),
    \<open>PromQL_Scope\<close> (tries, matchers), \<open>PromQL_Query\<close>. Its tools: \<open>Tool_Http\<close> (\<open>errors.py\<close>, \<open>shared.py\<close>, \<open>context.py\<close>, \<open>elicitation.py\<close>: requests, failures, questions),
    \<open>Tool_Auth\<close> (\<open>auth.py\<close>, the middleware of \<open>server.py\<close>, \<open>call_tool\<close>), \<open>Tool_Session\<close> (\<open>session.py\<close>), \<open>Tool_Dask\<close> and \<open>Dask_Views\<close> (\<open>dask.py\<close>: the
    tools that change a cluster, and those that read), \<open>Tool_Ray\<close> (\<open>ray.py\<close>) and \<open>Ray_Submission\<close>, which has both ends of a Ray job.
  \<^item> Node monitor, \<open>job_runner.py\<close>, \<open>probe_agent.py\<close>, \<open>node_healthcheck.py\<close>: \<open>Node_Probe\<close>, \<open>Node_Health\<close>, and \<open>Node_Site\<close>, in which
    probes and exporter run together.
  \<^item> Mattermost agent, \<open>agent.py\<close>: \<open>Mattermost_Text\<close> (regular expressions, \<open>clean\<close>), \<open>Mattermost_Linking\<close> (\<open>Linking\<close>, as a protocol
    with a trace), \<open>Mattermost_Answer\<close> (\<open>handle\<close> and all it calls), \<open>Mattermost_Poll\<close> (\<open>poll\<close>, and the limit of questions).
  \<^item> Model manager, \<open>validation.py\<close>, \<open>repository.py\<close>, \<open>main.py\<close>: \<open>Model_Validation\<close> (the checks, against Triton's layout as a predicate),
    \<open>Model_Repository\<close> (paths, unpacking, installing, over trees of files), \<open>Model_Server\<close> (lists, storage, \<open>upload\<close>).

  \<^bold>\<open>State and effects.\<close> An object's attributes are a record; a method is a function on it, or an act of the monad. What is
  outside the repository (Kubernetes, the Hub, Prometheus, the models, Mattermost, the volume, clocks, random numbers, hashes) is an
  argument. A call that is awaited acts on the whole shared state, so that whatever other coroutines or threads do meanwhile is part
  of it; the trace of what the code itself asked for is out of its reach. What a theorem relies on of such a call is a
  hypothesis, with a witness that has a concrete one. Where the code holds a lock (\<open>LLM_Gate\<close>) an operation is one step; where it awaits in
  between (\<open>Mattermost_Linking\<close>) it is two. In \<open>NRP_Progress\<close> the changes of one job's record come one after the other, as the
  API server takes them.

  \<^bold>\<open>Bounds.\<close> Floats are rationals, exact and without rounding. Characters go up to code point 255; dashes in messages are hyphens,
  and the zero width space of \<open>clean\<close> is the soft hyphen. Waiting loops of the gateway are recursions with a number of polls
  (\<open>POLLS\<close>, 122) above what their deadlines allow, which \<open>cluster_for_ends\<close> shows to be enough; \<open>forward\<close> is a recursion on fuel, and
  \<open>forward_ends\<close> gives the number of rounds after which the answer no longer depends on it. \<open>json_loads\<close> takes fuel from the
  length of its text, of which \<open>parse_value_fuel\<close> shows that more changes nothing. The waits of the session and Dask tools have a round for
  every interval of their time and one more; \<open>Unfinished\<close>, which is no outcome of the code, never comes of them while time passes as they sleep
  (\<open>session_wait_answers\<close>, \<open>created_told\<close>). The turns of the Mattermost agent and the depth at which a
  model is looked for are the numbers of the code.

  \<^bold>\<open>What is shown.\<close> Guards: who may reach, stop and delete what (\<open>own_calls_guarded\<close>, \<open>handle_own_jobs\<close>, \<open>do_post_guarded\<close>, \<open>scoped_to_caller\<close>,
  \<open>handle_confined\<close>, \<open>linked_by_code\<close>, \<open>token_judged_by_hub\<close>, \<open>dask_calls_guarded\<close>, \<open>submission_after_upload\<close>, \<open>metrics_of_own_cluster\<close>, \<open>session_calls_own\<close>, \<open>data_path_confined\<close>, \<open>paths_confined\<close>). Round trips between two programs or two forms
  (\<open>ray_job_as_asked\<close>, \<open>build_cluster_read_back\<close>, \<open>rebuilt_carries\<close>). Invariants over any run
  (\<open>grants_within_free\<close>, \<open>nrp_stage_forward\<close>, \<open>answered_once\<close>, \<open>models_stay_valid\<close>). Optimised code against a plain one
  (\<open>output_of_last_minute\<close>, \<open>question_limit\<close>, \<open>without_prefixes_exact\<close>, \<open>validate_exact\<close>, \<open>agent_serves_latest\<close>) and refinement
  (\<open>gate_fair_use\<close>). Ends and progress (\<open>forward_ends\<close>, \<open>cluster_for_ends\<close>, \<open>session_wait_answers\<close>, \<open>aged_not_overtaken\<close>). What failures leave behind
  (\<open>upload_all_or_nothing\<close>, \<open>restart_keeps_options\<close>, \<open>created_told\<close>, \<open>exporter_verdicts\<close>, \<open>green_means_checked\<close>). Some theorems show where the code does not do what
  it means to: \<open>NRP_Findings\<close>, \<open>odd_jobs_skipped\<close>, \<open>outage_repeats_answers\<close>, \<open>odd_names_pass\<close>, \<open>log_lines_odd\<close>, \<open>gateway_named_seen\<close>.

  \<^bold>\<open>Not modelled.\<close> The other tools of the agentic interface (logs, health, storage), which call Loki and Prometheus
  and format what they say; where the profiles and the free GPUs of the session tools are read; the Mattermost agent's own OAuth tokens and web pages; of the model
  manager the clients of Triton, Kubernetes and Prometheus; the analysis workflow, whose Flyte tasks start programs; hooks of the Hub that set attributes
  of traitlets objects; the sync of the global environment, which runs git and pixi; the exporter of pod metrics, plots and scripts
  of GitHub's workflows.
\<close>

subsection \<open>The Ray gateway's clusters, as PromQL sees them\<close>

lemma name_char_no_newline: "list_all is_name_char s \<Longrightarrow> newline \<notin> set s"
  by (auto simp: list_all_iff is_name_char_def is_lower_alnum_def is_lower_letter_def is_digit_def newline_def less_eq_char_def)

text \<open>
  C40: the Ray cluster of a user whose name starts with 'gateway' is seen by everyone. The gateway names it after the
  user (\<open>cluster_name\<close>), and the exemption for the gateway's own pods (\<open>SHARED_PREFIXES\<close>) is by prefix: the matchers of
  any caller, who may own nothing, let its series through.
\<close>

theorem gateway_named_seen:
  assumes "matches_as_documented nl engine" "dns_label (''ray-train-gateway'' @ v)" "length (''ray-train-gateway'' @ v) \<le> MAX_CLUSTER_NAME"
  shows "visible engine o1 [(''ray_cluster'', cluster_name sha (''gateway'' @ v))]"
proof -
  have "cluster_name sha (''gateway'' @ v) = ''ray-train-gateway'' @ v"
    using assms(2,3) cluster_name_plain [of "''gateway'' @ v" sha] by simp
  moreover have "newline \<notin> set (''ray-train-gateway'' @ v)"
    using assms(2) by (intro name_char_no_newline) (simp add: dns_label_def)
  then have "\<forall>n. newline \<notin> set (label_of [(''ray_cluster'', ''ray-train-gateway'' @ v)] n)" by (simp add: label_of_def)
  moreover have "may_see o1 [(''ray_cluster'', ''ray-train-gateway'' @ v)]"
    by (simp add: may_see_def label_of_def NAMESPACE_LABELS_def IDENTITY_LABELS_def OBJECT_LABELS_def SHARED_PREFIXES_def USER_PREFIXES_def)
  ultimately show ?thesis using visible_may_see [OF assms(1)] by simp
qed

theorem gateway_named_seen_witness:
  "visible (reference_engine False) (new_owned ''bob'') [(''ray_cluster'', cluster_name (\<lambda>s. s) ''gateway-fan'')]"
proof -
  have "dns_label (''ray-train-gateway'' @ ''-fan'')" "length (''ray-train-gateway'' @ ''-fan'') \<le> MAX_CLUSTER_NAME" by code_simp+
  from gateway_named_seen [OF reference_engine this, where sha = "\<lambda>s. s"] show ?thesis by simp
qed

end
